(* ===== verification/Prelude.thy ===== *)
theory Prelude
  imports Complex_Main "HOL-Library.AList" "HOL-Library.Char_ord" "HOL-Library.List_Lexorder"
begin

text \<open>
  What every component of the model shares: the values of the source language that the
  components exchange (text, JSON values, dictionaries), exceptions as values, and the
  generic lemmas on lists and dictionaries that the component proofs use.

  Text is a list of characters; a HOL character is one of 256 code points, so the model's
  text is text over the first 256 code points. A dictionary is an association list in
  insertion order with distinct keys; lookup is \<^const>\<open>map_of\<close> and assignment is
  \<^const>\<open>AList.update\<close>, which replaces in place or appends, as the source's
  dictionaries do.
\<close>

section \<open>Exceptions as values\<close>

text \<open>
  One constructor per exception class the modelled code raises. The payload is the fixed
  part of the message, shortened, and the values the message interpolates.
\<close>

datatype exn =
    ValueError string "string list"
  | KeyError string
  | IndexError string
  | TypeError string
  | AttributeError string
  | AssertionError string
  | OverflowError string
  | RecursionError string
  | IllegalTaskTransition string "string list"
  | PlanVerificationError string "string list"
  | PlanChangeProtocolError string "string list"
  | PlanChangeConflictError string "string list"
  | PlanChangeStateConflict string "string list"
  | VerificationProtocolError string "string list"
  | ModelRoutingError string "string list"
  | UnknownFieldsError string "string list"
  | TrustBoundaryViolation string "string list"
  | SkillPackError string "string list"
  | ScreeningProtocolError string "string list"
  | MemoryValidationError string "string list"
  | IntegrityError string
  | DepartmentAcceptanceError string "string list"
  | StateError string "string list"
  | GoalContractError string "string list"
  | AcceptanceClassError string "string list"
  | RoleSpecificationError string "string list"
  | PipelineIncidentError string "string list"
  | AuthorizationTopologyError string "string list"
  | EngineerStopActionError string "string list"
  | PlanIssues "string \<times> string \<times> exn" "(string \<times> string \<times> exn) list"
  | JSONDecodeError

type_synonym 'a result = "exn + 'a"

definition bindE :: "'e + 'a \<Rightarrow> ('a \<Rightarrow> 'e + 'b) \<Rightarrow> 'e + 'b" where
  "bindE m f = (case m of Inl e \<Rightarrow> Inl e | Inr x \<Rightarrow> f x)"

fun mapE :: "('a \<Rightarrow> 'e + 'b) \<Rightarrow> 'a list \<Rightarrow> 'e + 'b list" where
  "mapE f [] = Inr []"
| "mapE f (x # xs) = bindE (f x) (\<lambda>y. bindE (mapE f xs) (\<lambda>ys. Inr (y # ys)))"

fun forE :: "('a \<Rightarrow> 'e + unit) \<Rightarrow> 'a list \<Rightarrow> 'e + unit" where
  "forE f [] = Inr ()"
| "forE f (x # xs) = bindE (f x) (\<lambda>_. forE f xs)"

fun filterE :: "('a \<Rightarrow> 'e + bool) \<Rightarrow> 'a list \<Rightarrow> 'e + 'a list" where
  "filterE f [] = Inr []"
| "filterE f (x # xs) =
     bindE (f x) (\<lambda>b. bindE (filterE f xs) (\<lambda>ys. Inr (if b then x # ys else ys)))"

lemma bindE_simps [simp]: "bindE (Inl e) f = Inl e" "bindE (Inr x) f = f x"
  by (simp_all add: bindE_def)

lemma bindE_eq_Inr [simp]: "bindE m f = Inr y \<longleftrightarrow> (\<exists>x. m = Inr x \<and> f x = Inr y)"
  by (cases m) auto

lemma bindE_cong [fundef_cong]:
  "m = m' \<Longrightarrow> (\<And>x. m' = Inr x \<Longrightarrow> f x = f' x) \<Longrightarrow> bindE m f = bindE m' f'"
  by (cases m') auto

lemma mapE_eq_Inr: "mapE f xs = Inr ys \<longleftrightarrow> list_all2 (\<lambda>x y. f x = Inr y) xs ys"
  by (induction xs arbitrary: ys) (auto simp: list_all2_Cons1)

lemma mapE_length: "mapE f xs = Inr ys \<Longrightarrow> length ys = length xs"
  by (auto simp: mapE_eq_Inr dest: list_all2_lengthD)

lemma mapE_map: "(\<And>x. x \<in> set xs \<Longrightarrow> f (g x) = Inr (h x)) \<Longrightarrow> mapE f (map g xs) = Inr (map h xs)"
  by (induction xs) auto

lemma mapE_append:
  "mapE f (xs @ ys) = bindE (mapE f xs) (\<lambda>as. bindE (mapE f ys) (\<lambda>bs. Inr (as @ bs)))"
proof (induction xs)
  case Nil
  show ?case by (cases "mapE f ys") auto
next
  case (Cons x xs)
  then show ?case
    by (cases "f x"; cases "mapE f xs"; cases "mapE f ys") auto
qed

lemma filterE_total: "(\<And>x. x \<in> set xs \<Longrightarrow> f x = Inr (P x)) \<Longrightarrow> filterE f xs = Inr (filter P xs)"
  by (induction xs) auto

lemma filterE_Nil: "filterE f xs = Inr [] \<longleftrightarrow> (\<forall>x\<in>set xs. f x = Inr False)"
  by (induction xs) (auto split: if_splits)

lemma filterE_Inr_all: "filterE f xs = Inr ys \<Longrightarrow> x \<in> set xs \<Longrightarrow> \<exists>b. f x = Inr b"
  by (induction xs arbitrary: ys) auto

lemma find_Some_unique:
  assumes "x \<in> set xs" "P x" and "\<And>y. y \<in> set xs \<Longrightarrow> P y \<Longrightarrow> y = x"
  shows "find P xs = Some x"
proof (cases "find P xs")
  case None
  with assms(1,2) show ?thesis by (auto simp: find_None_iff)
next
  case (Some y)
  then have "y \<in> set xs" "P y" by (auto simp: find_Some_iff)
  with Some assms(3) show ?thesis by simp
qed

lemma forE_eq_Inr [simp]: "forE f xs = Inr u \<longleftrightarrow> (\<forall>x\<in>set xs. f x = Inr ())"
  by (induction xs) auto

section \<open>Text\<close>

definition py_isspace :: "char \<Rightarrow> bool" where
  "py_isspace c \<longleftrightarrow> c \<in> set [CHR 0x09, CHR 0x0A, CHR 0x0B, CHR 0x0C, CHR 0x0D,
     CHR 0x1C, CHR 0x1D, CHR 0x1E, CHR 0x1F, CHR 0x20, CHR 0x85, CHR 0xA0]"

definition strip :: "string \<Rightarrow> string" where
  "strip s = rev (dropWhile py_isspace (rev (dropWhile py_isspace s)))"

definition stripped :: "string \<Rightarrow> bool" where
  "stripped s \<longleftrightarrow> s \<noteq> [] \<and> \<not> py_isspace (hd s) \<and> \<not> py_isspace (last s)"

lemma strip_stripped [simp]: "stripped s \<Longrightarrow> strip s = s"
proof -
  assume s: "stripped s"
  then have "dropWhile py_isspace s = s"
    by (cases s) (auto simp: stripped_def)
  moreover have "dropWhile py_isspace (rev s) = rev s"
    using s by (cases s rule: rev_cases) (auto simp: stripped_def)
  ultimately show ?thesis by (simp add: strip_def)
qed

lemma last_rev_dropWhile_rev:
  "dropWhile P (rev s) \<noteq> [] \<Longrightarrow> \<not> P (last (rev (dropWhile P (rev s))))"
  by (metis hd_dropWhile last_rev)

lemma hd_strip: "strip s \<noteq> [] \<Longrightarrow> hd (strip s) = hd (dropWhile py_isspace s)"
proof -
  assume ne: "strip s \<noteq> []"
  let ?t = "dropWhile py_isspace s"
  have "?t = strip s @ rev (takeWhile py_isspace (rev ?t))"
    unfolding strip_def by (metis rev_append rev_rev_ident takeWhile_dropWhile_id)
  with ne show ?thesis by (metis hd_append2)
qed

lemma stripped_strip: "strip s \<noteq> [] \<Longrightarrow> stripped (strip s)"
proof -
  assume ne: "strip s \<noteq> []"
  have "dropWhile py_isspace s \<noteq> []"
    using ne unfolding strip_def by (metis dropWhile.simps(1) rev.simps(1))
  then have "\<not> py_isspace (hd (strip s))"
    using ne hd_strip hd_dropWhile by metis
  moreover have "\<not> py_isspace (last (strip s))"
    using ne last_rev_dropWhile_rev [of py_isspace "dropWhile py_isspace s"]
    by (simp add: strip_def del: dropWhile_eq_Nil_conv)
  ultimately show ?thesis using ne by (simp add: stripped_def)
qed

lemma strip_Nil [simp]: "strip [] = []"
  by (simp add: strip_def)

lemma strip_strip [simp]: "strip (strip s) = strip s"
  by (cases "strip s = []") (simp_all add: stripped_strip)

text \<open>Lower case, over the modelled code points.\<close>

definition lower_char :: "char \<Rightarrow> char" where
  "lower_char c = (let n = of_char c :: nat in
     if 65 \<le> n \<and> n \<le> 90 \<or> 192 \<le> n \<and> n \<le> 222 \<and> n \<noteq> 215 then char_of (n + 32) else c)"

definition lower :: "string \<Rightarrow> string" where
  "lower s = map lower_char s"

text \<open>
  Upper case: the sharp s becomes two letters, and the two letters whose upper case is no
  modelled code point stay.
\<close>

definition upper_char :: "char \<Rightarrow> string" where
  "upper_char c = (let n = of_char c :: nat in
     if n = 223 then ''SS''
     else if 97 \<le> n \<and> n \<le> 122 \<or> 224 \<le> n \<and> n \<le> 254 \<and> n \<noteq> 247 then [char_of (n - 32)] else [c])"

definition upper :: "string \<Rightarrow> string" where
  "upper s = concat (map upper_char s)"

definition startswith :: "string \<Rightarrow> string \<Rightarrow> bool" where
  "startswith s p \<longleftrightarrow> take (length p) s = p"

text \<open>\<^verbatim>\<open>str.splitlines\<close>; the first argument is the line read so far.\<close>

definition is_break :: "char \<Rightarrow> bool" where
  "is_break c \<longleftrightarrow> c \<in> set [CHR 0x0A, CHR 0x0B, CHR 0x0C, CHR 0x0D, CHR 0x1C, CHR 0x1D, CHR 0x1E, CHR 0x85]"

fun lines_from :: "string \<Rightarrow> string \<Rightarrow> string list" where
  "lines_from acc [] = (if acc = [] then [] else [acc])"
| "lines_from acc (c # cs) =
     (if c = CHR 0x0D \<and> cs \<noteq> [] \<and> hd cs = CHR 0x0A then acc # lines_from [] (tl cs)
      else if is_break c then acc # lines_from [] cs
      else lines_from (acc @ [c]) cs)"

definition splitlines :: "string \<Rightarrow> string list" where
  "splitlines s = lines_from [] s"

lemma lines_from_line: "(\<forall>c \<in> set s. \<not> is_break c) \<Longrightarrow> acc @ s \<noteq> [] \<Longrightarrow> lines_from acc s = [acc @ s]"
  by (induction s arbitrary: acc) (auto simp: is_break_def)

lemma splitlines_line: "(\<forall>c \<in> set s. \<not> is_break c) \<Longrightarrow> s \<noteq> [] \<Longrightarrow> splitlines s = [s]"
  by (simp add: splitlines_def lines_from_line)

text \<open>\<^verbatim>\<open>s.split(c)\<close>; the second argument is the part read so far.\<close>

fun split_from :: "char \<Rightarrow> string \<Rightarrow> string \<Rightarrow> string list" where
  "split_from d acc [] = [acc]"
| "split_from d acc (c # cs) = (if c = d then acc # split_from d [] cs else split_from d (acc @ [c]) cs)"

definition split_on :: "char \<Rightarrow> string \<Rightarrow> string list" where
  "split_on d s = split_from d [] s"

text \<open>\<^verbatim>\<open>str.split()\<close> and \<^verbatim>\<open>" ".join(s.split())\<close>.\<close>

fun split_words :: "string \<Rightarrow> string \<Rightarrow> string list" where
  "split_words acc [] = (if acc = [] then [] else [acc])"
| "split_words acc (c # cs) =
     (if py_isspace c then (if acc = [] then [] else [acc]) @ split_words [] cs
      else split_words (acc @ [c]) cs)"

definition joined_words :: "string list \<Rightarrow> string" where
  "joined_words ws = (case ws of [] \<Rightarrow> [] | w # ws' \<Rightarrow> w @ concat (map (\<lambda>v. CHR '' '' # v) ws'))"

definition squeeze :: "string \<Rightarrow> string" where
  "squeeze s = joined_words (split_words [] s)"

lemma split_words_visible: "(\<forall>c \<in> set acc. \<not> py_isspace c) \<Longrightarrow>
    w \<in> set (split_words acc s) \<Longrightarrow> w \<noteq> [] \<and> (\<forall>c \<in> set w. \<not> py_isspace c)"
proof (induction s arbitrary: acc)
  case Nil
  then show ?case by (auto split: if_splits)
next
  case (Cons c s)
  show ?case
  proof (cases "py_isspace c")
    case True
    with Cons.prems(2) have "w = acc \<and> acc \<noteq> [] \<or> w \<in> set (split_words [] s)"
      by (simp split: if_splits)
    then show ?thesis using Cons.IH [of "[]"] Cons.prems(1) by (elim disjE) simp_all
  next
    case False
    with Cons.prems(2) have "w \<in> set (split_words (acc @ [c]) s)" by simp
    moreover have "\<forall>c \<in> set (acc @ [c]). \<not> py_isspace c" using Cons.prems(1) False by simp
    ultimately show ?thesis using Cons.IH [of "acc @ [c]"] by blast
  qed
qed

lemma split_words_word: "(\<forall>c \<in> set w. \<not> py_isspace c) \<Longrightarrow>
    split_words acc (w @ s) = split_words (acc @ w) s"
  by (induction w arbitrary: acc) auto

lemma split_joined:
  "(\<forall>w \<in> set ws. w \<noteq> [] \<and> (\<forall>c \<in> set w. \<not> py_isspace c)) \<Longrightarrow> split_words [] (joined_words ws) = ws"
proof (induction ws)
  case Nil
  show ?case by (simp add: joined_words_def)
next
  case (Cons w ws)
  have space: "py_isspace (CHR '' '')" by (simp add: py_isspace_def)
  show ?case
  proof (cases ws)
    case Nil
    then show ?thesis using Cons.prems split_words_word [of w "[]" "[]"] by (simp add: joined_words_def)
  next
    case (Cons v vs)
    then have e: "joined_words (w # ws) = w @ CHR '' '' # joined_words ws" by (simp add: joined_words_def)
    have w: "w \<noteq> []" "\<forall>c \<in> set w. \<not> py_isspace c" using Cons.prems by simp_all
    have "split_words [] (joined_words (w # ws)) = split_words w (CHR '' '' # joined_words ws)"
      unfolding e split_words_word [OF w(2)] by simp
    also have "\<dots> = w # split_words [] (joined_words ws)" using space w(1) by simp
    also have "split_words [] (joined_words ws) = ws" using Cons.IH Cons.prems by simp
    finally show ?thesis .
  qed
qed

lemma squeeze_squeeze [simp]: "squeeze (squeeze s) = squeeze s"
  unfolding squeeze_def
  by (rule arg_cong [OF split_joined]) (use split_words_visible [of "[]" _ s] in auto)

text \<open>Identifiers, \<^verbatim>\<open>[A-Za-z][A-Za-z0-9._-]{0,127}\<close>.\<close>

definition is_letter :: "char \<Rightarrow> bool" where
  "is_letter c \<longleftrightarrow> (let n = of_char c :: nat in 65 \<le> n \<and> n \<le> 90 \<or> 97 \<le> n \<and> n \<le> 122)"

text \<open>Decimal text.\<close>

definition is_digit :: "char \<Rightarrow> bool" where
  "is_digit c \<longleftrightarrow> 48 \<le> (of_char c :: nat) \<and> (of_char c :: nat) \<le> 57"

definition is_identifier :: "string \<Rightarrow> bool" where
  "is_identifier s \<longleftrightarrow> s \<noteq> [] \<and> is_letter (hd s) \<and> length s \<le> 128
     \<and> (\<forall>c \<in> set (tl s). is_letter c \<or> is_digit c \<or> c \<in> set ''._-'')"

fun dec_nat :: "nat \<Rightarrow> string" where
  "dec_nat n = (if n < 10 then [char_of (48 + n)]
     else dec_nat (n div 10) @ [char_of (48 + n mod 10)])"

declare dec_nat.simps [simp del]

definition dec_int :: "int \<Rightarrow> string" where
  "dec_int n = (if n < 0 then CHR ''-'' # dec_nat (nat (- n)) else dec_nat (nat n))"

fun undec :: "string \<Rightarrow> nat \<Rightarrow> nat" where
  "undec [] acc = acc"
| "undec (c # cs) acc = undec cs (10 * acc + (of_char c - 48))"

lemma undec_append: "undec (xs @ ys) acc = undec ys (undec xs acc)"
  by (induction xs arbitrary: acc) auto

lemma of_char_digit: "d < 10 \<Longrightarrow> of_char (char_of (48 + d) :: char) = (48 + d :: nat)"
  by simp

lemma undec_dec_nat [simp]: "undec (dec_nat n) 0 = n"
proof (induction n rule: dec_nat.induct)
  case (1 n)
  show ?case
  proof (cases "n < 10")
    case True
    then show ?thesis by (subst dec_nat.simps) (simp add: of_char_digit del: of_char_of char_of_nat)
  next
    case False
    have "of_char (char_of (48 + n mod 10) :: char) = (48 + n mod 10 :: nat)"
      by (rule of_char_digit) simp
    then show ?thesis using False "1.IH" by (subst dec_nat.simps) (simp add: undec_append)
  qed
qed

lemma dec_nat_inj [simp]: "dec_nat m = dec_nat n \<longleftrightarrow> m = n"
  by (metis undec_dec_nat)

text \<open>Zero-padded decimal text, \<^verbatim>\<open>{n:06d}\<close>.\<close>

definition dec_pad :: "nat \<Rightarrow> nat \<Rightarrow> string" where
  "dec_pad w n = replicate (w - length (dec_nat n)) (CHR ''0'') @ dec_nat n"

lemma undec_zeros [simp]: "undec (replicate k (CHR ''0'')) 0 = 0"
  by (induction k) simp_all

lemma undec_dec_pad [simp]: "undec (dec_pad w n) 0 = n"
  by (simp add: dec_pad_def undec_append)

lemma dec_pad_inj [simp]: "dec_pad w m = dec_pad w n \<longleftrightarrow> m = n"
  by (metis undec_dec_pad)

section \<open>JSON values\<close>

text \<open>
  The values \<^verbatim>\<open>json.loads\<close> returns and the run state stores. A truth value
  is a number for the source language (\<^verbatim>\<open>isinstance(True, int)\<close>), so a test
  for an integer that is no truth value is a match on \<open>PInt\<close>.
\<close>

datatype pyval =
    PNone
  | PBool bool
  | PInt int
  | PFloat rat
  | PStr string
  | PList "pyval list"
  | PDict "(string \<times> pyval) list"

type_synonym 'v dict = "(string \<times> 'v) list"

abbreviation keys :: "'v dict \<Rightarrow> string list" where
  "keys d \<equiv> map fst d"

definition get :: "pyval dict \<Rightarrow> string \<Rightarrow> pyval" where
  "get d k = (case map_of d k of None \<Rightarrow> PNone | Some v \<Rightarrow> v)"

definition get_default :: "pyval dict \<Rightarrow> string \<Rightarrow> pyval \<Rightarrow> pyval" where
  "get_default d k v = (case map_of d k of None \<Rightarrow> v | Some w \<Rightarrow> w)"

fun truthy :: "pyval \<Rightarrow> bool" where
  "truthy PNone = False"
| "truthy (PBool b) = b"
| "truthy (PInt n) = (n \<noteq> 0)"
| "truthy (PFloat q) = (q \<noteq> 0)"
| "truthy (PStr s) = (s \<noteq> [])"
| "truthy (PList xs) = (xs \<noteq> [])"
| "truthy (PDict d) = (d \<noteq> [])"

text \<open>\<^verbatim>\<open>sorted(set(xs))\<close>, which messages use to list names.\<close>

definition sorted_set :: "string list \<Rightarrow> string list" where
  "sorted_set xs = sort (remdups xs)"

lemma set_sorted_set [simp]: "set (sorted_set xs) = set xs"
  by (simp add: sorted_set_def)

section \<open>Iterating and testing values\<close>

text \<open>
  Iterating a value: a list gives its elements, text its characters and a dictionary its
  keys, both of which are text; a number or a truth value is no iterable.
\<close>

fun iterate :: "pyval \<Rightarrow> pyval list result" where
  "iterate (PList xs) = Inr xs"
| "iterate (PStr s) = Inr (map (\<lambda>c. PStr [c]) s)"
| "iterate (PDict d) = Inr (map PStr (keys d))"
| "iterate PNone = Inl (TypeError ''NoneType'')"
| "iterate (PBool b) = Inl (TypeError ''bool'')"
| "iterate (PInt n) = Inl (TypeError ''int'')"
| "iterate (PFloat q) = Inl (TypeError ''float'')"

text \<open>Membership in a set of texts hashes the value: a list or a dictionary is refused.\<close>

fun in_text_set :: "pyval \<Rightarrow> string list \<Rightarrow> bool result" where
  "in_text_set (PStr s) names = Inr (s \<in> set names)"
| "in_text_set (PList xs) names = Inl (TypeError ''unhashable type: list'')"
| "in_text_set (PDict d) names = Inl (TypeError ''unhashable type: dict'')"
| "in_text_set v names = Inr False"

text \<open>
  \<^verbatim>\<open>str(value)\<close>. The text the standard library gives a float, a list or a
  dictionary is the argument \<open>rp\<close>.
\<close>

fun str_of :: "(pyval \<Rightarrow> string) \<Rightarrow> pyval \<Rightarrow> string" where
  "str_of rp (PStr s) = s"
| "str_of rp (PInt n) = dec_int n"
| "str_of rp (PBool b) = (if b then ''True'' else ''False'')"
| "str_of rp PNone = ''None''"
| "str_of rp v = rp v"

text \<open>
  \<^verbatim>\<open>a == b\<close> of two values: a truth value is the number 0 or 1, a float equals the integer
  of its value, and the order of a dictionary's entries has no meaning.
\<close>

fun number_of_value :: "pyval \<Rightarrow> rat option" where
  "number_of_value (PBool b) = Some (if b then 1 else 0)"
| "number_of_value (PInt n) = Some (of_int n)"
| "number_of_value (PFloat q) = Some q"
| "number_of_value v = None"

fun py_eq :: "pyval \<Rightarrow> pyval \<Rightarrow> bool"
  and py_eqs :: "pyval list \<Rightarrow> pyval list \<Rightarrow> bool"
  and py_entries_in :: "(string \<times> pyval) list \<Rightarrow> pyval dict \<Rightarrow> bool"
where
  "py_eq PNone w = (w = PNone)"
| "py_eq (PStr s) w = (w = PStr s)"
| "py_eq (PList xs) w = (case w of PList ys \<Rightarrow> py_eqs xs ys | _ \<Rightarrow> False)"
| "py_eq (PDict d) w = (case w of PDict e \<Rightarrow> length d = length e \<and> py_entries_in d e | _ \<Rightarrow> False)"
| "py_eq v w = (number_of_value v = number_of_value w)"
| "py_eqs [] ys = (ys = [])"
| "py_eqs (x # xs) ys = (case ys of [] \<Rightarrow> False | y # ys' \<Rightarrow> py_eq x y \<and> py_eqs xs ys')"
| "py_entries_in [] e = True"
| "py_entries_in ((k, v) # d) e =
     ((case map_of e k of None \<Rightarrow> False | Some w \<Rightarrow> py_eq v w) \<and> py_entries_in d e)"

text \<open>\<^verbatim>\<open>a or b\<close>.\<close>

definition py_or :: "pyval \<Rightarrow> pyval \<Rightarrow> pyval" where
  "py_or a b = (if truthy a then a else b)"

definition join :: "string \<Rightarrow> string list \<Rightarrow> string" where
  "join sep xs = (case xs of [] \<Rightarrow> [] | x # ys \<Rightarrow> x @ concat (map (\<lambda>y. sep @ y) ys))"

lemma join_Cons2: "join sep (x # y # ys) = x @ sep @ join sep (y # ys)"
  by (simp add: join_def)

lemma join_single [simp]: "join sep [x] = x" "join sep [] = []"
  by (simp_all add: join_def)


section \<open>Dictionaries\<close>

lemma map_of_update [simp]: "map_of (AList.update k v al) = (map_of al)(k \<mapsto> v)"
  by (rule AList.update_conv')

lemma keys_update_present [simp]: "k \<in> set (keys al) \<Longrightarrow> keys (AList.update k v al) = keys al"
  by (induction al) auto

lemma set_keys_update [simp]: "set (keys (AList.update k v al)) = insert k (set (keys al))"
  by (simp add: dom_map_of_conv_image_fst [symmetric] image_set [symmetric] del: image_set)

lemma map_of_eq_None_keys: "map_of al k = None \<longleftrightarrow> k \<notin> set (keys al)"
  by (simp add: map_of_eq_None_iff)

lemma map_of_keys: "map_of al k = Some v \<Longrightarrow> k \<in> set (keys al)"
  by (metis map_of_eq_None_keys option.distinct(1))

lemma keys_map_of: "k \<in> set (keys al) \<Longrightarrow> \<exists>v. map_of al k = Some v"
  by (metis map_of_eq_None_keys not_Some_eq)

lemma map_of_map_values: "map_of (map (\<lambda>(k, v). (k, f v)) al) k = map_option f (map_of al k)"
  by (induction al) auto

lemma keys_map_values [simp]: "keys (map (\<lambda>(k, v). (k, f v)) al) = keys al"
  by (induction al) auto

lemma dict_all_iff:
  assumes "distinct (keys d)"
  shows "(\<forall>kv \<in> set d. P kv) \<longleftrightarrow> (\<forall>k \<in> set (keys d). \<exists>v. map_of d k = Some v \<and> P (k, v))"
proof
  assume "\<forall>kv \<in> set d. P kv"
  then show "\<forall>k \<in> set (keys d). \<exists>v. map_of d k = Some v \<and> P (k, v)"
    using assms by (auto simp: map_of_eq_Some_iff)
next
  assume r: "\<forall>k \<in> set (keys d). \<exists>v. map_of d k = Some v \<and> P (k, v)"
  show "\<forall>kv \<in> set d. P kv"
  proof
    fix kv assume "kv \<in> set d"
    then have "map_of d (fst kv) = Some (snd kv)" "fst kv \<in> set (keys d)"
      using assms by (simp_all add: map_of_eq_Some_iff)
    with r show "P kv" by force
  qed
qed

text \<open>A dictionary comprehension: later entries overwrite, the first occurrence keeps its place.\<close>

definition dict_of :: "(string \<times> 'v) list \<Rightarrow> 'v dict" where
  "dict_of kvs = foldl (\<lambda>d (k, v). AList.update k v d) [] kvs"

lemma dict_of_Nil [simp]: "dict_of [] = []"
  by (simp add: dict_of_def)

lemma dict_of_snoc [simp]: "dict_of (kvs @ [(k, v)]) = AList.update k v (dict_of kvs)"
  by (simp add: dict_of_def)

lemma map_of_dict_of: "map_of (dict_of kvs) = map_of (rev kvs)"
  by (induction kvs rule: rev_induct) auto

lemma map_of_dict_ofD: "map_of (dict_of kvs) k = Some v \<Longrightarrow> (k, v) \<in> set kvs"
  unfolding map_of_dict_of by (drule map_of_SomeD) simp

lemma distinct_keys_dict_of [simp]: "distinct (keys (dict_of kvs))"
  by (induction kvs rule: rev_induct) (auto intro: distinct_update)

lemma set_keys_dict_of [simp]: "set (keys (dict_of kvs)) = set (keys kvs)"
  by (induction kvs rule: rev_induct) (auto simp del: set_map simp: set_keys_update)

lemma update_fresh: "k \<notin> set (keys al) \<Longrightarrow> AList.update k v al = al @ [(k, v)]"
  by (induction al) auto

lemma dict_of_distinct [simp]: "distinct (keys kvs) \<Longrightarrow> dict_of kvs = kvs"
  by (induction kvs rule: rev_induct) (auto simp: update_fresh)

lemma map_of_dict_of_map:
  "distinct (map f xs) \<Longrightarrow> x \<in> set xs \<Longrightarrow> map_of (dict_of (map (\<lambda>x. (f x, g x)) xs)) (f x) = Some (g x)"
  by (auto simp: comp_def intro!: map_of_is_SomeI)

section \<open>Enumerations of strings\<close>

text \<open>
  The source keeps states as enumeration members that are strings: a member is written by
  its value and read back by a lookup that refuses any other text.
\<close>

locale string_enum =
  fixes val :: "'a \<Rightarrow> string"
    and read :: "string \<Rightarrow> 'e + 'a"
  assumes read_iff: "read s = Inr x \<longleftrightarrow> s = val x"
begin

lemma read_val [simp]: "read (val x) = Inr x"
  by (simp add: read_iff)

lemma val_inj: "val x = val y \<longleftrightarrow> x = y"
  by (metis read_iff read_val sum.inject(2))

lemma read_refuses: "(\<exists>e. read s = Inl e) \<longleftrightarrow> s \<notin> range val"
  by (cases "read s") (auto simp: read_iff)

lemma mapE_read_val: "mapE read (map val xs) = Inr xs"
  using mapE_map [of xs read val "\<lambda>x. x"] by simp

end

section \<open>Sequences of fallible operations\<close>

text \<open>
  An operation that may refuse, run over a list of requests: a refusal ends the run, as
  an exception does. A component whose operations keep an invariant keeps it over every
  run; the components interpret this interface with their own operation and invariant.
\<close>

fun run_ops :: "('s \<Rightarrow> 'r \<Rightarrow> 'e + 's) \<Rightarrow> 's \<Rightarrow> 'r list \<Rightarrow> 'e + 's" where
  "run_ops step s [] = Inr s"
| "run_ops step s (r # rs) = bindE (step s r) (\<lambda>s'. run_ops step s' rs)"

locale guarded_machine =
  fixes step :: "'s \<Rightarrow> 'r \<Rightarrow> 'e + 's"
    and inv :: "'s \<Rightarrow> bool"
  assumes step_inv: "inv s \<Longrightarrow> step s r = Inr s' \<Longrightarrow> inv s'"
begin

lemma run_inv: "inv s \<Longrightarrow> run_ops step s rs = Inr s' \<Longrightarrow> inv s'"
proof (induction rs arbitrary: s)
  case Nil
  then show ?case by simp
next
  case (Cons r rs)
  then obtain t where "step s r = Inr t" "run_ops step t rs = Inr s'" by auto
  with Cons step_inv show ?case by blast
qed

lemma run_append:
  "run_ops step s (rs @ rs') = bindE (run_ops step s rs) (\<lambda>t. run_ops step t rs')"
proof (induction rs arbitrary: s)
  case Nil
  show ?case by simp
next
  case (Cons r rs)
  then show ?case by (cases "step s r") auto
qed

end

section \<open>Written and read back\<close>

text \<open>
  The interface of a stored object: what is read is well-formed, and a well-formed object is
  read back as it was written.
\<close>

locale codec =
  fixes enc :: "'a \<Rightarrow> 'd"
    and dec :: "'d \<Rightarrow> 'e + 'a"
    and ok :: "'a \<Rightarrow> bool"
  assumes dec_ok: "dec d = Inr x \<Longrightarrow> ok x"
    and round_trip: "ok x \<Longrightarrow> dec (enc x) = Inr x"
begin

lemma dec_all: "\<forall>x \<in> set xs. ok x \<Longrightarrow> mapE dec (map enc xs) = Inr xs"
  using mapE_map [of xs dec enc "\<lambda>x. x"] round_trip by simp

lemma all_ok: "mapE dec ds = Inr xs \<Longrightarrow> \<forall>x \<in> set xs. ok x"
  unfolding mapE_eq_Inr by (induction rule: list_all2_induct) (auto dest: dec_ok)

lemma stable: "dec d = Inr x \<Longrightarrow> dec (enc x) = Inr x"
  by (rule round_trip [OF dec_ok])

end

end
