(* ===== verification/PlanModel.thy ===== *)
theory PlanModel
  imports Prelude
begin

text \<open>
  The plan as the runtime holds it (\<^verbatim>\<open>plan.py\<close> and the data classes of
  \<^verbatim>\<open>goal_contract.py\<close>, \<^verbatim>\<open>department_acceptance.py\<close>,
  \<^verbatim>\<open>role_specification.py\<close> and \<^verbatim>\<open>skill_packs.py\<close> it refers to): one record
  per data class, the constants, and the serialisation of a plan to the JSON object that is
  stored and digested. Record fields carry the initials of their class, since HOL has one
  name space for fields.
\<close>

section \<open>Constants\<close>

definition PLAN_SCHEMA_VERSION :: int where "PLAN_SCHEMA_VERSION = 3"
definition LEGACY_PLAN_SCHEMA_VERSION :: int where "LEGACY_PLAN_SCHEMA_VERSION = 2"

definition EXECUTION_STRATEGIES :: "string list" where
  "EXECUTION_STRATEGIES = [''serial'', ''parallel'', ''auto'']"
definition VERIFICATION_POLICIES :: "string list" where
  "VERIFICATION_POLICIES = [''self'', ''deterministic'', ''independent'', ''auto'']"
definition VERIFICATION_CHECK_KINDS :: "string list" where
  "VERIFICATION_CHECK_KINDS = [''command'', ''artifact'', ''evidence'']"
definition RESOURCE_KINDS :: "string list" where
  "RESOURCE_KINDS = [''path'', ''directory'', ''glob'', ''application'', ''environment'',
     ''browser'', ''device'', ''external_sandbox'', ''logical'']"
definition RESOURCE_ACCESS_MODES :: "string list" where
  "RESOURCE_ACCESS_MODES = [''read'', ''write'', ''exclusive'']"

definition DEFAULT_EXECUTION_STRATEGY :: string where
  "DEFAULT_EXECUTION_STRATEGY = ''auto''"
definition DEFAULT_MAX_PARALLEL_WORKERS :: int where "DEFAULT_MAX_PARALLEL_WORKERS = 10"
definition DEFAULT_COMPUTER_USE_SLOTS :: int where "DEFAULT_COMPUTER_USE_SLOTS = 1"
definition DEFAULT_MAX_MEMORY_RECORDS :: int where "DEFAULT_MAX_MEMORY_RECORDS = 8"
definition DEFAULT_MAX_DEPENDENCY_OUTPUTS :: int where "DEFAULT_MAX_DEPENDENCY_OUTPUTS = 8"

section \<open>The parts of a task\<close>

record verification_check =
  vc_id :: string
  vc_kind :: string
  vc_description :: string
  vc_argv :: "string list"
  vc_path :: "string option"
  vc_timeout_seconds :: int
  vc_expected_exit_code :: int

record verification_policy =
  vp_policy :: string
  vp_required :: bool
  vp_deterministic_checks :: "verification_check list"
  vp_verifier_role :: "string option"
  vp_execution_mode :: "string option"
  vp_execution_mode_reason :: "string option"
  vp_reasoning :: "string option"
  vp_max_revision_attempts :: int

record resource_claim =
  rc_id :: string
  rc_kind :: string
  rc_target :: string
  rc_access :: string
  rc_description :: "string option"

record task_output =
  ou_id :: string
  ou_description :: string
  ou_path :: "string option"
  ou_required :: bool

record task_context =
  cx_memory_queries :: "string list"
  cx_memory_record_ids :: "string list"
  cx_dependency_outputs :: "string list"
  cx_max_memory_records :: int
  cx_max_dependency_outputs :: int

text \<open>\<^verbatim>\<open>AcceptanceClass\<close>, an enumeration of strings.\<close>

datatype acceptance_class = DETERMINISTIC_COMPLETE | MIXED | JUDGMENT

fun acceptance_value :: "acceptance_class \<Rightarrow> string" where
  "acceptance_value DETERMINISTIC_COMPLETE = ''deterministic-complete''"
| "acceptance_value MIXED = ''mixed''"
| "acceptance_value JUDGMENT = ''judgment''"

lemma acceptance_value_inj [simp]: "acceptance_value a = acceptance_value b \<longleftrightarrow> a = b"
  by (cases a; cases b) simp_all

record skill_reference =
  sr_id :: string
  sr_version :: string

record skill_evidence_requirement =
  se_role :: string
  se_kind :: string

record skill_attestation =
  sa_kind :: string
  sa_skill :: skill_reference
  sa_evidence_roles :: "string list"
  sa_promotion_evidence :: "skill_evidence_requirement list"

record task =
  t_id :: string
  t_title :: string
  t_objective :: string
  t_definition_of_done :: "string list"
  t_execution_mode :: string
  t_execution_mode_reason :: string
  t_reasoning :: "string option"
  t_role :: string
  t_depends_on :: "string list"
  t_priority :: int
  t_verification :: verification_policy
  t_resources :: "resource_claim list"
  t_required_capabilities :: "string list"
  t_context :: task_context
  t_outputs :: "task_output list"
  t_tags :: "string list"
  t_produces_outcomes :: "string list"
  t_acceptance_class :: acceptance_class
  t_loaded_skills :: "skill_reference list"
  t_skill_attestation :: "skill_attestation option"

section \<open>The parts of a plan\<close>

record role_profile =
  ro_id :: string
  ro_name :: string
  ro_responsibilities :: "string list"
  ro_version :: string
  ro_domain_focus :: "string list"
  ro_preferred_tools :: "string list"
  ro_context_priorities :: "string list"
  ro_verification_expectations :: "string list"
  ro_skill_requirements :: "skill_reference list"

record rubric_reference =
  rr_record_id :: string
  rr_version :: int
  rr_sha256 :: string

record department_contract =
  de_id :: string
  de_name :: string
  de_lead_role_id :: string
  de_rubric :: "rubric_reference option"

text \<open>
  The four entry classes of a Goal Contract carry an id and a description; a deliverable
  also has an optional path.
\<close>

record goal_entry =
  ge_id :: string
  ge_description :: string

record goal_deliverable =
  gd_id :: string
  gd_description :: string
  gd_path :: "string option"

record goal_contract =
  gc_required_outcomes :: "goal_entry list"
  gc_deliverables :: "goal_deliverable list"
  gc_constraints :: "goal_entry list"
  gc_global_acceptance :: "goal_entry list"

definition outcome_ids :: "goal_contract \<Rightarrow> string list" where
  "outcome_ids c = remdups (map ge_id (gc_required_outcomes c))"

record skill_check =
  sc_id :: string
  sc_description :: string
  sc_argv :: "string list"
  sc_expected_exit_code :: int

record promotion_evidence =
  pe_id :: string
  pe_kind :: string
  pe_verified :: bool

record external_source =
  es_provider :: string
  es_locator :: string
  es_digest :: string

record skill_pack =
  sk_id :: string
  sk_version :: string
  sk_capability :: string
  sk_source :: string
  sk_status :: string
  sk_procedures :: "string list"
  sk_checklists :: "string list"
  sk_failure_modes :: "string list"
  sk_quality_criteria :: "string list"
  sk_required_tools :: "string list"
  sk_required_mcp_servers :: "string list"
  sk_deterministic_checks :: "skill_check list"
  sk_evidence_roles :: "string list"
  sk_conflicts_with :: "skill_reference list"
  sk_promotion_evidence :: "promotion_evidence list"
  sk_source_verification_ids :: "string list"
  sk_qualification_verification_ids :: "string list"
  sk_external_sources :: "external_source list"

record plan =
  pl_goal :: string
  pl_user_request :: string
  pl_model_strategy :: string
  pl_tasks :: "task list"
  pl_roles :: "role_profile list"
  pl_departments :: "department_contract list"
  pl_graph_version :: int
  pl_execution_strategy :: string
  pl_max_parallel_workers :: int
  pl_computer_use_slots :: int
  pl_source_schema_version :: int
  pl_legacy_serial :: bool
  pl_goal_contract :: "goal_contract option"
  pl_skill_packs :: "skill_pack list"

text \<open>
  \<^verbatim>\<open>task_map\<close> and \<^verbatim>\<open>role_map\<close> are dictionary comprehensions: where two
  entries share an id, the later one is found.
\<close>

definition task_map :: "plan \<Rightarrow> string \<Rightarrow> task option" where
  "task_map p = map_of (rev (map (\<lambda>t. (t_id t, t)) (pl_tasks p)))"

definition role_map :: "plan \<Rightarrow> string \<Rightarrow> role_profile option" where
  "role_map p = map_of (rev (map (\<lambda>r. (ro_id r, r)) (pl_roles p)))"

abbreviation task_ids :: "plan \<Rightarrow> string list" where
  "task_ids p \<equiv> map t_id (pl_tasks p)"

lemma dom_task_map: "task_map p i = None \<longleftrightarrow> i \<notin> set (task_ids p)"
  by (force simp: task_map_def map_of_eq_None_iff)

lemma task_map_Some_iff: "(\<exists>t. task_map p i = Some t) \<longleftrightarrow> i \<in> set (task_ids p)"
  using dom_task_map [of p i] by auto

lemma task_map_SomeD: "task_map p i = Some t \<Longrightarrow> t \<in> set (pl_tasks p) \<and> t_id t = i"
  by (force simp: task_map_def dest: map_of_SomeD)

lemma task_map_distinct:
  "distinct (task_ids p) \<Longrightarrow> t \<in> set (pl_tasks p) \<Longrightarrow> task_map p (t_id t) = Some t"
  unfolding task_map_def by (rule map_of_is_SomeI) (auto simp: comp_def simp flip: rev_map)

section \<open>A sample task\<close>

text \<open>A task with the given id, prerequisites and claims, for the concrete instances.\<close>

definition sample_policy :: verification_policy where
  "sample_policy = \<lparr>vp_policy = ''independent'', vp_required = True, vp_deterministic_checks = [],
     vp_verifier_role = None, vp_execution_mode = None, vp_execution_mode_reason = None,
     vp_reasoning = None, vp_max_revision_attempts = 2\<rparr>"

definition sample_task :: "string \<Rightarrow> string list \<Rightarrow> task" where
  "sample_task i ds = \<lparr>t_id = i, t_title = i, t_objective = i, t_definition_of_done = [''done''],
     t_execution_mode = ''code'', t_execution_mode_reason = ''code'', t_reasoning = None,
     t_role = ''engineer'', t_depends_on = ds, t_priority = 0, t_verification = sample_policy,
     t_resources = [], t_required_capabilities = [],
     t_context = \<lparr>cx_memory_queries = [], cx_memory_record_ids = [], cx_dependency_outputs = [],
       cx_max_memory_records = 8, cx_max_dependency_outputs = 8\<rparr>,
     t_outputs = [], t_tags = [], t_produces_outcomes = [], t_acceptance_class = JUDGMENT,
     t_loaded_skills = [], t_skill_attestation = None\<rparr>"

definition sample_plan :: "task list \<Rightarrow> plan" where
  "sample_plan ts = \<lparr>pl_goal = ''g'', pl_user_request = ''u'', pl_model_strategy = ''auto'',
     pl_tasks = ts, pl_roles = [], pl_departments = [], pl_graph_version = 1,
     pl_execution_strategy = ''auto'', pl_max_parallel_workers = 10, pl_computer_use_slots = 1,
     pl_source_schema_version = 3, pl_legacy_serial = False, pl_goal_contract = None,
     pl_skill_packs = []\<rparr>"

definition diamond :: "task list" where
  "diamond = [sample_task ''d'' [''b'', ''c''], sample_task ''a'' [], sample_task ''b'' [''a''],
     sample_task ''c'' [''a'']]"

lemma diamond_distinct: "distinct (map t_id diamond)"
  by code_simp

end
