(* ===== verification/PlanGraph.thy ===== *)
theory PlanGraph
  imports PlanModel "HOL-Library.Multiset"
begin

text \<open>
  \<^verbatim>\<open>plan_graph.py\<close>: the stable dependency order of a plan's tasks, Kahn's worklist
  algorithm with declaration order for ties. The loop state is what the source keeps: the
  in-degree table, the sorted list of ready tasks and the result. The first sections are
  the definitions; then the loop invariant; then soundness, completeness and the tie rule.
\<close>

section \<open>The tables\<close>

text \<open>
  \<^verbatim>\<open>rank\<close> and \<^verbatim>\<open>indegree\<close> are dictionary comprehensions over the tasks: a later
  task overwrites an earlier one with the same id. \<^verbatim>\<open>dependents\<close> lists, for an id,
  the tasks that depend on it, once per mention and in declaration order.
\<close>

definition rank :: "task list \<Rightarrow> string \<Rightarrow> nat" where
  "rank ts i = (case map_of (rev (zip (map t_id ts) [0..<length ts])) i of
     None \<Rightarrow> 0 | Some n \<Rightarrow> n)"

definition indegree :: "task list \<Rightarrow> string \<Rightarrow> int" where
  "indegree ts i = (case map_of (rev (map (\<lambda>t. (t_id t, t)) ts)) i of
     None \<Rightarrow> 0 | Some t \<Rightarrow> int (length (t_depends_on t)))"

definition dependents :: "task list \<Rightarrow> string \<Rightarrow> string list" where
  "dependents ts d =
     concat (map (\<lambda>t. map (\<lambda>_. t_id t) (filter (\<lambda>e. e = d) (t_depends_on t))) ts)"

definition unknown_dependencies :: "task list \<Rightarrow> string list" where
  "unknown_dependencies ts =
     filter (\<lambda>d. d \<notin> set (map t_id ts)) (concat (map t_depends_on ts))"

section \<open>The loop\<close>

fun visit_dependents ::
  "(string \<Rightarrow> nat) \<Rightarrow> string list \<Rightarrow> (string \<Rightarrow> int) \<Rightarrow> string list \<Rightarrow> (string \<Rightarrow> int) \<times> string list"
where
  "visit_dependents rk [] deg ready = (deg, ready)"
| "visit_dependents rk (d # ds) deg ready =
     (let deg' = deg(d := deg d - 1)
      in if deg' d = 0 then visit_dependents rk ds deg' (sort_key rk (ready @ [d]))
         else visit_dependents rk ds deg' ready)"

definition load :: "task list \<Rightarrow> (string \<Rightarrow> int) \<Rightarrow> string list \<Rightarrow> nat" where
  "load ts deg ready = length ready + (\<Sum>i\<in>set (map t_id ts). nat (deg i))"

lemma visit_dependents_Cons:
  "visit_dependents rk (d # ds) deg ready =
     visit_dependents rk ds (deg(d := deg d - 1))
       (if deg d = 1 then sort_key rk (ready @ [d]) else ready)"
  by (simp add: Let_def)

lemma load_decrement:
  assumes "d \<in> set (map t_id ts)"
  shows "load ts (deg(d := deg d - 1)) (if deg d = 1 then sort_key rk (ready @ [d]) else ready)
    \<le> load ts deg ready"
proof -
  let ?A = "set (map t_id ts)" and ?deg = "deg(d := deg d - 1)"
  have split: "(\<Sum>i\<in>?A. nat (f i)) = nat (f d) + (\<Sum>i\<in>?A - {d}. nat (f i))" for f :: "string \<Rightarrow> int"
    using assms by (intro sum.remove) auto
  have rest: "(\<Sum>i\<in>?A - {d}. nat (?deg i)) = (\<Sum>i\<in>?A - {d}. nat (deg i))"
    by (rule sum.cong) auto
  show ?thesis
    unfolding load_def split [of ?deg] split [of deg] rest by (simp add: nat_mono)
qed

lemma visit_dependents_load:
  "set ds \<subseteq> set (map t_id ts) \<Longrightarrow> visit_dependents rk ds deg ready = (deg', ready') \<Longrightarrow>
   load ts deg' ready' \<le> load ts deg ready"
proof (induction ds arbitrary: deg ready)
  case Nil
  then show ?case by simp
next
  case (Cons d ds)
  let ?deg = "deg(d := deg d - 1)"
  let ?ready = "if deg d = 1 then sort_key rk (ready @ [d]) else ready"
  have "visit_dependents rk ds ?deg ?ready = (deg', ready')"
    using Cons.prems(2) by (simp only: visit_dependents_Cons)
  then have "load ts deg' ready' \<le> load ts ?deg ?ready"
    by (rule Cons.IH [rotated]) (use Cons.prems(1) in simp)
  also have "\<dots> \<le> load ts deg ready"
    using Cons.prems(1) by (intro load_decrement) simp
  finally show ?case .
qed

lemma set_dependents: "set (dependents ts d) = {t_id t | t. t \<in> set ts \<and> d \<in> set (t_depends_on t)}"
  by (auto simp: dependents_def)

lemma dependents_subset: "set (sort_key f (dependents ts d)) \<subseteq> set (map t_id ts)"
  by (auto simp: set_dependents)

function kahn :: "task list \<Rightarrow> (string \<Rightarrow> int) \<Rightarrow> string list \<Rightarrow> string list \<Rightarrow> string list" where
  "kahn ts deg [] res = res"
| "kahn ts deg (c # ready) res =
     (let (deg', ready') =
        visit_dependents (rank ts) (sort_key (rank ts) (dependents ts c)) deg ready
      in kahn ts deg' ready' (res @ [c]))"
  by pat_completeness auto
termination
proof (relation "measure (\<lambda>(ts, deg, ready, res). load ts deg ready)")
  fix ts deg c ready res p deg' ready'
  assume p: "p = visit_dependents (rank ts) (sort_key (rank ts) (dependents ts c)) deg ready"
    and pair: "(deg', ready') = p"
  have "load ts deg' ready' \<le> load ts deg ready"
    using visit_dependents_load [OF dependents_subset] p pair by metis
  then show "((ts, deg', ready', res @ [c]), (ts, deg, c # ready, res))
    \<in> measure (\<lambda>(ts, deg, ready, res). load ts deg ready)"
    by (simp add: load_def)
qed simp

definition topological_order :: "task list \<Rightarrow> string list result" where
  "topological_order ts =
     (case unknown_dependencies ts of
        d # _ \<Rightarrow> Inl (KeyError d)
      | [] \<Rightarrow>
         (let ready = sort_key (rank ts)
                (filter (\<lambda>i. indegree ts i = 0) (remdups (map t_id ts)));
              result = kahn ts (indegree ts) ready []
          in if length result \<noteq> length ts
             then Inl (ValueError ''plan task graph contains a cycle'' [])
             else Inr result))"

section \<open>The order the loop promises\<close>

text \<open>
  The prerequisites of an id, the relation they form, and the two properties of a
  sequence of ids: each comes after its prerequisites, and each is the first in
  declaration order among the tasks that could have come at its place.
\<close>

definition deps_of :: "task list \<Rightarrow> string \<Rightarrow> string list" where
  "deps_of ts i = (case map_of (rev (map (\<lambda>t. (t_id t, t)) ts)) i of
     None \<Rightarrow> [] | Some t \<Rightarrow> t_depends_on t)"

definition dep_rel :: "task list \<Rightarrow> (string \<times> string) set" where
  "dep_rel ts = {(d, t_id t) | d t. t \<in> set ts \<and> d \<in> set (t_depends_on t)}"

definition deps_first :: "task list \<Rightarrow> string list \<Rightarrow> bool" where
  "deps_first ts res \<longleftrightarrow> (\<forall>k < length res. set (deps_of ts (res ! k)) \<subseteq> set (take k res))"

definition earliest :: "task list \<Rightarrow> string list \<Rightarrow> string \<Rightarrow> bool" where
  "earliest ts before c \<longleftrightarrow>
     (\<forall>x \<in> set (map t_id ts) - set before.
        set (deps_of ts x) \<subseteq> set before \<longrightarrow> rank ts c \<le> rank ts x)"

definition stable_order :: "task list \<Rightarrow> string list \<Rightarrow> bool" where
  "stable_order ts res \<longleftrightarrow> (\<forall>k < length res. earliest ts (take k res) (res ! k))"

lemma deps_first_snoc: "deps_first ts (res @ [c]) \<longleftrightarrow> deps_first ts res \<and> set (deps_of ts c) \<subseteq> set res"
  by (auto simp: deps_first_def nth_append less_Suc_eq)

lemma stable_order_snoc: "stable_order ts (res @ [c]) \<longleftrightarrow> stable_order ts res \<and> earliest ts res c"
  by (auto simp: stable_order_def nth_append less_Suc_eq)

lemma deps_first_before:
  "deps_first ts res \<Longrightarrow> i \<in> set res \<Longrightarrow> set (deps_of ts i) \<subseteq> set res"
  by (auto simp: deps_first_def in_set_conv_nth dest!: set_take_subset [THEN subsetD]
      dest: subsetD)

lemma deps_of_distinct:
  "distinct (map t_id ts) \<Longrightarrow> t \<in> set ts \<Longrightarrow> deps_of ts (t_id t) = t_depends_on t"
proof -
  assume d: "distinct (map t_id ts)" and t: "t \<in> set ts"
  have "map_of (rev (map (\<lambda>t. (t_id t, t)) ts)) (t_id t) = Some t"
    using d t by (intro map_of_is_SomeI) (auto simp: comp_def simp flip: rev_map)
  then show ?thesis by (simp add: deps_of_def)
qed

lemma indegree_deps_of: "indegree ts i = int (length (deps_of ts i))"
  by (simp add: indegree_def deps_of_def split: option.split)

lemma dep_rel_iff:
  "distinct (map t_id ts) \<Longrightarrow>
   (d, i) \<in> dep_rel ts \<longleftrightarrow> i \<in> set (map t_id ts) \<and> d \<in> set (deps_of ts i)"
  by (auto simp: dep_rel_def deps_of_distinct)

lemma dep_rel_field: "(d, i) \<in> (dep_rel ts)\<^sup>+ \<Longrightarrow> i \<in> set (map t_id ts)"
  by (erule trancl_induct) (auto simp: dep_rel_def)

lemma finite_dep_rel: "finite (dep_rel ts)"
proof -
  have "dep_rel ts \<subseteq> (\<Union>t\<in>set ts. set (t_depends_on t) \<times> {t_id t})"
    by (auto simp: dep_rel_def)
  then show ?thesis by (rule finite_subset) auto
qed

section \<open>One pass over the dependents\<close>

lemma count_dependents:
  "distinct (map t_id ts) \<Longrightarrow> i \<in> set (map t_id ts) \<Longrightarrow>
   count (mset (dependents ts c)) i = length (filter (\<lambda>e. e = c) (deps_of ts i))"
proof -
  have zero: "count (mset (dependents us c)) i = 0" if "i \<notin> set (map t_id us)" for us
    using that by (auto simp: set_dependents intro!: count_notin)
  have pos: "distinct (map t_id us) \<Longrightarrow> t \<in> set us \<Longrightarrow>
    count (mset (dependents us c)) (t_id t) = length (filter (\<lambda>e. e = c) (t_depends_on t))" for us t
    by (induction us)
      (auto simp: dependents_def map_replicate_const count_eq_zero_iff image_iff)
  assume "distinct (map t_id ts)" "i \<in> set (map t_id ts)"
  then show ?thesis using pos by (auto simp: deps_of_distinct)
qed

lemma visit_dependents_spec:
  assumes "distinct ready" "sorted (map rk ready)"
    and "\<And>i. i \<in> set ds \<Longrightarrow> i \<notin> set ready \<and> int (count (mset ds) i) \<le> deg i"
    and "visit_dependents rk ds deg ready = (deg', ready')"
  shows "deg' i = deg i - int (count (mset ds) i)"
    and "set ready' = set ready \<union> {i \<in> set ds. deg i = int (count (mset ds) i)}"
    and "distinct ready'" and "sorted (map rk ready')"
proof -
  have "deg' i = deg i - int (count (mset ds) i)
    \<and> set ready' = set ready \<union> {i \<in> set ds. deg i = int (count (mset ds) i)}
    \<and> distinct ready' \<and> sorted (map rk ready')"
    using assms
  proof (induction ds arbitrary: deg ready)
    case Nil
    then show ?case by simp
  next
    case (Cons d ds)
    let ?deg = "deg(d := deg d - 1)"
    define ready1 where "ready1 = (if deg d = 1 then sort_key rk (ready @ [d]) else ready)"
    have d: "d \<notin> set ready" "1 + int (count (mset ds) d) \<le> deg d"
      using Cons.prems(3) [of d] by auto
    have fresh: "i \<notin> set ready1 \<and> int (count (mset ds) i) \<le> ?deg i" if "i \<in> set ds" for i
      using that d Cons.prems(3) [of i] by (auto simp: ready1_def split: if_splits)
    have "visit_dependents rk ds ?deg ready1 = (deg', ready')"
      using Cons.prems(4) by (simp only: visit_dependents_Cons ready1_def)
    moreover have "distinct ready1" "sorted (map rk ready1)"
      using Cons.prems(1,2) d by (auto simp: ready1_def)
    ultimately have IH: "deg' i = ?deg i - int (count (mset ds) i)"
      "set ready' = set ready1 \<union> {i \<in> set ds. ?deg i = int (count (mset ds) i)}"
      "distinct ready'" "sorted (map rk ready')"
      using Cons.IH [of ready1 ?deg] fresh by blast+
    have "set ready1 \<union> {i \<in> set ds. ?deg i = int (count (mset ds) i)}
      = set ready \<union> {i \<in> set (d # ds). deg i = int (count (mset (d # ds)) i)}"
      using d by (auto simp: ready1_def)
    with IH show ?case by auto
  qed
  then show "deg' i = deg i - int (count (mset ds) i)"
    and "set ready' = set ready \<union> {i \<in> set ds. deg i = int (count (mset ds) i)}"
    and "distinct ready'" and "sorted (map rk ready')" by blast+
qed

section \<open>The loop invariant\<close>

definition unmet :: "task list \<Rightarrow> string list \<Rightarrow> string \<Rightarrow> nat" where
  "unmet ts res i = length (filter (\<lambda>d. d \<notin> set res) (deps_of ts i))"

definition kahn_inv :: "task list \<Rightarrow> (string \<Rightarrow> int) \<Rightarrow> string list \<Rightarrow> string list \<Rightarrow> bool" where
  "kahn_inv ts deg ready res \<longleftrightarrow>
     distinct ready \<and> sorted (map (rank ts) ready) \<and>
     distinct res \<and> set res \<subseteq> set (map t_id ts) \<and>
     (\<forall>i \<in> set (map t_id ts). deg i = int (unmet ts res i)) \<and>
     set ready = {i \<in> set (map t_id ts) - set res. unmet ts res i = 0} \<and>
     deps_first ts res \<and> stable_order ts res"

lemma unmet_zero_iff: "unmet ts res i = 0 \<longleftrightarrow> set (deps_of ts i) \<subseteq> set res"
  by (auto simp: unmet_def filter_empty_conv)

lemma unmet_snoc:
  "c \<notin> set res \<Longrightarrow>
   int (unmet ts (res @ [c]) i) = int (unmet ts res i) - int (length (filter (\<lambda>e. e = c) (deps_of ts i)))"
proof -
  assume c: "c \<notin> set res"
  have "length (filter (\<lambda>d. d \<notin> set res) ds)
    = length (filter (\<lambda>d. d \<notin> set (res @ [c])) ds) + length (filter (\<lambda>e. e = c) ds)" for ds
    using c by (induction ds) auto
  then show ?thesis by (simp add: unmet_def)
qed

lemma kahn_inv_step:
  assumes d: "distinct (map t_id ts)"
    and inv: "kahn_inv ts deg (c # ready) res"
    and vis: "visit_dependents (rank ts) (sort_key (rank ts) (dependents ts c)) deg ready = (deg', ready')"
  shows "kahn_inv ts deg' ready' (res @ [c])"
proof -
  let ?ids = "set (map t_id ts)" and ?ds = "sort_key (rank ts) (dependents ts c)"
  have "insert c (set ready) = {i \<in> ?ids - set res. unmet ts res i = 0}" "c \<notin> set ready"
    using inv by (simp_all add: kahn_inv_def)
  then have ready_iff: "i \<in> set ready \<longleftrightarrow> i \<in> ?ids \<and> i \<notin> set res \<and> unmet ts res i = 0 \<and> i \<noteq> c"
    and c: "c \<in> ?ids" "c \<notin> set res" "unmet ts res c = 0" for i
    by blast+
  have deg: "deg i = int (unmet ts res i)" if "i \<in> ?ids" for i
    using inv that unfolding kahn_inv_def by blast
  have cnt: "int (count (mset ?ds) i) = int (unmet ts res i) - int (unmet ts (res @ [c]) i)"
    if "i \<in> ?ids" for i
    using count_dependents [OF d that] unmet_snoc [OF c(2)] by simp
  have ds: "i \<in> ?ids" "c \<in> set (deps_of ts i)" if "i \<in> set ?ds" for i
    using that d by (auto simp: set_dependents deps_of_distinct)
  have blocked: "unmet ts res i \<noteq> 0" if "i \<in> set ?ds" for i
    using ds [OF that] c(2) by (auto simp: unmet_zero_iff)
  have fresh: "i \<notin> set ready \<and> int (count (mset ?ds) i) \<le> deg i" if "i \<in> set ?ds" for i
    using blocked [OF that] cnt [OF ds(1) [OF that]] deg [OF ds(1) [OF that]] ready_iff by simp
  have sorted: "distinct ready" "sorted (map (rank ts) ready)"
    using inv by (auto simp: kahn_inv_def)
  have first: "deps_first ts res" "stable_order ts res"
    using inv by (auto simp: kahn_inv_def)
  note spec = visit_dependents_spec [OF sorted fresh vis]
  have deg': "deg' i = int (unmet ts (res @ [c]) i)" if "i \<in> ?ids" for i
    using spec(1) [of i] deg [OF that] cnt [OF that] by simp
  have mentions: "c \<in> set (deps_of ts i)" if "unmet ts (res @ [c]) i = 0" "unmet ts res i \<noteq> 0" for i
    using that by (auto simp: unmet_zero_iff)
  have ready': "set ready' = {i \<in> ?ids - set (res @ [c]). unmet ts (res @ [c]) i = 0}"
  proof (intro set_eqI iffI)
    fix i assume "i \<in> set ready'"
    then consider "i \<in> set ready" | "i \<in> set ?ds" "deg i = int (count (mset ?ds) i)"
      using spec(2) by auto
    then show "i \<in> {i \<in> ?ids - set (res @ [c]). unmet ts (res @ [c]) i = 0}"
    proof cases
      case 1
      with ready_iff show ?thesis by (auto simp: unmet_zero_iff)
    next
      case 2
      then have i: "unmet ts (res @ [c]) i = 0" "i \<in> ?ids" using cnt deg ds(1) by auto
      moreover have "i \<noteq> c" using blocked [OF 2(1)] c(3) by blast
      moreover have "i \<notin> set res"
        using first blocked [OF 2(1)] deps_first_before unmet_zero_iff by metis
      ultimately show ?thesis by simp
    qed
  next
    fix i assume i: "i \<in> {i \<in> ?ids - set (res @ [c]). unmet ts (res @ [c]) i = 0}"
    show "i \<in> set ready'"
    proof (cases "unmet ts res i = 0")
      case True
      with i ready_iff spec(2) show ?thesis by simp
    next
      case False
      with i mentions have "c \<in> set (deps_of ts i)" by blast
      then have "i \<in> set ?ds" using i d by (auto simp: set_dependents deps_of_distinct)
      then show ?thesis using i spec(2) cnt [of i] deg [of i] by simp
    qed
  qed
  have "rank ts c \<le> rank ts x" if "x \<in> set ready" for x
    using inv that by (simp add: kahn_inv_def)
  then have "earliest ts res c"
    using ready_iff unmet_zero_iff unfolding earliest_def by (metis DiffE order_refl)
  then have "stable_order ts (res @ [c])" "deps_first ts (res @ [c])"
    using first c(3) by (simp_all add: stable_order_snoc deps_first_snoc unmet_zero_iff)
  moreover have "distinct (res @ [c])" "set (res @ [c]) \<subseteq> ?ids"
    using inv c by (simp_all add: kahn_inv_def)
  ultimately show ?thesis
    using spec(3,4) deg' ready' unfolding kahn_inv_def by blast
qed

lemma kahn_inv_init:
  assumes "distinct (map t_id ts)"
  shows "kahn_inv ts (indegree ts)
    (sort_key (rank ts) (filter (\<lambda>i. indegree ts i = 0) (remdups (map t_id ts)))) []"
  by (auto simp: kahn_inv_def unmet_def indegree_deps_of deps_first_def stable_order_def)

lemma kahn_inv_final:
  "distinct (map t_id ts) \<Longrightarrow> kahn_inv ts deg ready res \<Longrightarrow>
   \<exists>deg'. kahn_inv ts deg' [] (kahn ts deg ready res)"
proof (induction ts deg ready res rule: kahn.induct)
  case (1 ts deg res)
  then show ?case by auto
next
  case (2 ts deg c ready res)
  obtain deg' ready' where
    vis: "visit_dependents (rank ts) (sort_key (rank ts) (dependents ts c)) deg ready = (deg', ready')"
    by fastforce
  have "\<exists>deg''. kahn_inv ts deg'' [] (kahn ts deg' ready' (res @ [c]))"
    using "2.IH" [OF vis [symmetric] refl] kahn_inv_step "2.prems" vis by blast
  with vis show ?case by simp
qed

lemma kahn_result:
  assumes "distinct (map t_id ts)"
  obtains deg where "kahn_inv ts deg [] (kahn ts (indegree ts)
    (sort_key (rank ts) (filter (\<lambda>i. indegree ts i = 0) (remdups (map t_id ts)))) [])"
  using kahn_inv_final [OF assms kahn_inv_init [OF assms]] by blast

section \<open>Ranks\<close>

lemma rank_nth:
  assumes "distinct (map t_id ts)" "k < length ts"
  shows "rank ts (map t_id ts ! k) = k"
proof -
  have "map_of (rev (zip (map t_id ts) [0..<length ts])) (map t_id ts ! k) = Some k"
  proof (rule map_of_is_SomeI)
    show "distinct (map fst (rev (zip (map t_id ts) [0..<length ts])))"
      using assms by (simp flip: rev_map)
    show "(map t_id ts ! k, k) \<in> set (rev (zip (map t_id ts) [0..<length ts]))"
      using assms by (force simp: set_zip)
  qed
  then show ?thesis by (simp add: rank_def)
qed

lemma rank_inj:
  assumes "distinct (map t_id ts)" "a \<in> set (map t_id ts)" "b \<in> set (map t_id ts)"
    and "rank ts a = rank ts b"
  shows "a = b"
  using assms rank_nth by (metis in_set_conv_nth length_map)

section \<open>A dependency order exists exactly for an acyclic graph\<close>

lemma deps_first_acyclic:
  assumes d: "distinct (map t_id ts)" and "distinct order" "set order = set (map t_id ts)"
    and first: "deps_first ts order"
  shows "acyclic (dep_rel ts)"
proof -
  define pos where "pos i = (THE k. k < length order \<and> order ! k = i)" for i
  have pos: "pos (order ! k) = k" if "k < length order" for k
    unfolding pos_def using that assms(2) by (auto simp: nth_eq_iff_index_eq)
  have "pos x < pos i" if "(x, i) \<in> dep_rel ts" for x i
  proof -
    have i: "i \<in> set order" "x \<in> set (deps_of ts i)"
      using that d assms(3) by (auto simp: dep_rel_iff)
    then obtain k where k: "k < length order" "order ! k = i" by (auto simp: in_set_conv_nth)
    then have "x \<in> set (take k order)" using first i by (auto simp: deps_first_def)
    then obtain j where "j < k" "order ! j = x" using k by (auto simp: in_set_conv_nth)
    with k pos show ?thesis by auto
  qed
  then have "dep_rel ts \<subseteq> measure pos" by auto
  then show ?thesis using wf_acyclic wf_measure wf_subset by blast
qed

lemma acyclic_minimal_unfinished:
  assumes "distinct (map t_id ts)" "acyclic (dep_rel ts)" "unknown_dependencies ts = []"
    and "i \<in> set (map t_id ts) - set res"
  obtains j where "j \<in> set (map t_id ts) - set res" "set (deps_of ts j) \<subseteq> set res"
proof -
  have "wf (dep_rel ts)"
    using assms(2) finite_dep_rel finite_acyclic_wf by blast
  then obtain j where j: "j \<in> set (map t_id ts) - set res"
    and min: "\<And>x. (x, j) \<in> dep_rel ts \<Longrightarrow> x \<notin> set (map t_id ts) - set res"
    using assms(4) wfE_min by metis
  have known: "set (t_depends_on t) \<subseteq> set (map t_id ts)" if "t \<in> set ts" for t
    using assms(3) that by (force simp: unknown_dependencies_def filter_empty_conv)
  have "set (deps_of ts j) \<subseteq> set res"
  proof
    fix x assume x: "x \<in> set (deps_of ts j)"
    then have "(x, j) \<in> dep_rel ts" using j assms(1) by (simp add: dep_rel_iff)
    moreover have "x \<in> set (map t_id ts)"
    proof -
      obtain t where t: "t \<in> set ts" "t_id t = j" using j by auto
      then show ?thesis using x known [OF t(1)] deps_of_distinct [OF assms(1) t(1)] by auto
    qed
    ultimately show "x \<in> set res" using min by blast
  qed
  with j that show ?thesis by blast
qed

text \<open>
  The specification of \<^verbatim>\<open>topological_order\<close>: a permutation of the task ids, every
  task after its prerequisites, ties broken by declaration order.
\<close>

definition dependency_order :: "task list \<Rightarrow> string list \<Rightarrow> bool" where
  "dependency_order ts order \<longleftrightarrow>
     distinct order \<and> set order = set (map t_id ts) \<and> deps_first ts order \<and> stable_order ts order"

lemma topological_order_sound:
  assumes "distinct (map t_id ts)" "topological_order ts = Inr order"
  shows "dependency_order ts order"
proof -
  obtain deg where inv: "kahn_inv ts deg [] (kahn ts (indegree ts)
    (sort_key (rank ts) (filter (\<lambda>i. indegree ts i = 0) (remdups (map t_id ts)))) [])"
    using kahn_result [OF assms(1)] .
  from assms(2) have k: "kahn_inv ts deg [] order" "length order = length ts"
    using inv by (auto simp: topological_order_def Let_def split: list.splits if_splits)
  then have o: "distinct order" "set order \<subseteq> set (map t_id ts)"
    by (simp_all add: kahn_inv_def)
  then have "card (set order) = card (set (map t_id ts))"
    using k(2) assms(1) by (simp only: distinct_card length_map)
  then have "set order = set (map t_id ts)"
    using o(2) by (simp add: card_subset_eq)
  then show ?thesis
    using k(1) by (simp add: kahn_inv_def dependency_order_def)
qed

lemma topological_order_total:
  assumes d: "distinct (map t_id ts)" and "acyclic (dep_rel ts)" "unknown_dependencies ts = []"
  shows "\<exists>order. topological_order ts = Inr order"
proof -
  let ?order = "kahn ts (indegree ts)
    (sort_key (rank ts) (filter (\<lambda>i. indegree ts i = 0) (remdups (map t_id ts)))) []"
  obtain deg where inv: "kahn_inv ts deg [] ?order" using kahn_result [OF d] .
  have "set (map t_id ts) \<subseteq> set ?order"
  proof (rule ccontr)
    assume "\<not> ?thesis"
    then obtain i where "i \<in> set (map t_id ts) - set ?order" by blast
    then obtain j where "j \<in> set (map t_id ts) - set ?order" "unmet ts ?order j = 0"
      using acyclic_minimal_unfinished [OF assms] unmet_zero_iff by metis
    then show False using inv unfolding kahn_inv_def by auto
  qed
  then have "set ?order = set (map t_id ts)" "distinct ?order"
    using inv unfolding kahn_inv_def by auto
  then have "length ?order = length ts"
    using d distinct_card by (metis length_map)
  then show ?thesis using assms(3) by (simp add: topological_order_def Let_def)
qed

lemma dependency_order_unique:
  assumes d: "distinct (map t_id ts)" and a: "dependency_order ts xs" and b: "dependency_order ts ys"
  shows "xs = ys"
proof -
  have len: "length xs = length ys"
    using a b unfolding dependency_order_def by (metis distinct_card)
  have "take k xs = take k ys" if "k \<le> length xs" for k
    using that
  proof (induction k)
    case 0
    show ?case by simp
  next
    case (Suc k)
    then have k: "k < length xs" "k < length ys" "take k xs = take k ys" using len by auto
    have elig: "zs ! k \<in> set (map t_id ts) - set (take k zs)
        \<and> set (deps_of ts (zs ! k)) \<subseteq> set (take k zs) \<and> earliest ts (take k zs) (zs ! k)"
      if "dependency_order ts zs" "k < length zs" for zs
    proof -
      have "zs ! k \<notin> set (take k zs)"
        using that unfolding dependency_order_def
        by (auto simp: in_set_conv_nth nth_eq_iff_index_eq)
      moreover have "zs ! k \<in> set (map t_id ts)"
        using that nth_mem unfolding dependency_order_def by blast
      ultimately show ?thesis
        using that by (simp add: dependency_order_def deps_first_def stable_order_def)
    qed
    have "rank ts (xs ! k) = rank ts (ys ! k)"
      using elig [OF a k(1)] elig [OF b k(2)] k(3) unfolding earliest_def
      by (metis order_antisym)
    then have "xs ! k = ys ! k"
      using elig [OF a k(1)] elig [OF b k(2)] rank_inj [OF d] by blast
    with k show ?case by (simp add: take_Suc_conv_app_nth)
  qed
  from this [of "length xs"] len show ?thesis by simp
qed

text \<open>
  C1. For a plan whose task ids are distinct and whose dependencies are all declared, the
  algorithm of \<^verbatim>\<open>topological_order\<close> returns a sequence exactly when that
  sequence is the dependency order: every task once, after all its prerequisites, and among
  the tasks that could come next always the one declared first.
\<close>

theorem topological_order_correct:
  assumes "distinct (map t_id ts)" and "unknown_dependencies ts = []"
  shows "topological_order ts = Inr order \<longleftrightarrow> dependency_order ts order"
proof
  assume "topological_order ts = Inr order"
  with assms(1) show "dependency_order ts order" by (rule topological_order_sound)
next
  assume o: "dependency_order ts order"
  then have "acyclic (dep_rel ts)"
    using deps_first_acyclic assms(1) unfolding dependency_order_def by blast
  then obtain order' where o': "topological_order ts = Inr order'"
    using topological_order_total assms by blast
  then show "topological_order ts = Inr order"
    using dependency_order_unique topological_order_sound o assms(1) by metis
qed

theorem topological_order_correct_witness:
  "dependency_order diamond [''a'', ''b'', ''c'', ''d'']"
proof -
  have "topological_order diamond = Inr [''a'', ''b'', ''c'', ''d'']" by code_simp
  moreover have "distinct (map t_id diamond)" "unknown_dependencies diamond = []" by code_simp+
  ultimately show ?thesis
    using topological_order_correct [of diamond "[''a'', ''b'', ''c'', ''d'']"] by simp
qed

text \<open>
  C2. The refusal is exact: under the same assumptions the order is returned if and only if
  the dependency relation is acyclic.
\<close>

theorem topological_order_acyclic_iff:
  assumes "distinct (map t_id ts)" and "unknown_dependencies ts = []"
  shows "(\<exists>order. topological_order ts = Inr order) \<longleftrightarrow> acyclic (dep_rel ts)"
  using assms topological_order_total topological_order_sound deps_first_acyclic
  unfolding dependency_order_def by metis

theorem topological_order_acyclic_iff_witness: "acyclic (dep_rel diamond)"
proof -
  have "\<exists>order. topological_order diamond = Inr order"
  proof
    show "topological_order diamond = Inr [''a'', ''b'', ''c'', ''d'']" by code_simp
  qed
  moreover have "distinct (map t_id diamond)" "unknown_dependencies diamond = []" by code_simp+
  ultimately show ?thesis using topological_order_acyclic_iff [of diamond] by simp
qed

end
