(* ===== verification/TaskStates.thy ===== *)
theory TaskStates
  imports PlanGraph
begin

text \<open>
  \<^verbatim>\<open>task_state.py\<close>: the durable lifecycle states of a task, the table of edges, the
  dependency gate, one transition and the validator of a whole state map. A state map is a
  dictionary from task ids to state texts, as it is stored; a text that names no state is
  refused where the source coerces it. The properties: what a valid map means, what no run
  of transitions can do, and that the map never lets work start before its prerequisites
  were independently accepted.
\<close>

section \<open>States and edges\<close>

datatype task_state =
    WAITING | READY | RUNNING | IMPLEMENTED | VERIFYING | REVISION_REQUIRED
  | REVISING | RETRY_WAIT | VERIFIED | BLOCKED | FAILED | CANCELLED

fun state_value :: "task_state \<Rightarrow> string" where
  "state_value WAITING = ''WAITING''"
| "state_value READY = ''READY''"
| "state_value RUNNING = ''RUNNING''"
| "state_value IMPLEMENTED = ''IMPLEMENTED''"
| "state_value VERIFYING = ''VERIFYING''"
| "state_value REVISION_REQUIRED = ''REVISION_REQUIRED''"
| "state_value REVISING = ''REVISING''"
| "state_value RETRY_WAIT = ''RETRY_WAIT''"
| "state_value VERIFIED = ''VERIFIED''"
| "state_value BLOCKED = ''BLOCKED''"
| "state_value FAILED = ''FAILED''"
| "state_value CANCELLED = ''CANCELLED''"

definition TASK_STATES :: "task_state list" where
  "TASK_STATES = [WAITING, READY, RUNNING, IMPLEMENTED, VERIFYING, REVISION_REQUIRED,
     REVISING, RETRY_WAIT, VERIFIED, BLOCKED, FAILED, CANCELLED]"

definition ACTIVE_TASK_STATES :: "task_state list" where
  "ACTIVE_TASK_STATES = [RUNNING, VERIFYING, REVISING]"

definition TERMINAL_TASK_STATES :: "task_state list" where
  "TERMINAL_TASK_STATES = [VERIFIED, CANCELLED]"

fun TASK_TRANSITIONS :: "task_state \<Rightarrow> task_state list" where
  "TASK_TRANSITIONS WAITING = [READY, BLOCKED, CANCELLED]"
| "TASK_TRANSITIONS READY = [RUNNING, BLOCKED, CANCELLED]"
| "TASK_TRANSITIONS RUNNING = [IMPLEMENTED, RETRY_WAIT, BLOCKED, FAILED, CANCELLED]"
| "TASK_TRANSITIONS IMPLEMENTED = [VERIFYING, BLOCKED, CANCELLED]"
| "TASK_TRANSITIONS VERIFYING =
     [VERIFIED, REVISION_REQUIRED, IMPLEMENTED, RETRY_WAIT, BLOCKED, FAILED, CANCELLED]"
| "TASK_TRANSITIONS REVISION_REQUIRED = [REVISING, BLOCKED, CANCELLED]"
| "TASK_TRANSITIONS REVISING = [IMPLEMENTED, RETRY_WAIT, BLOCKED, FAILED, CANCELLED]"
| "TASK_TRANSITIONS RETRY_WAIT = [READY, BLOCKED, CANCELLED]"
| "TASK_TRANSITIONS BLOCKED = [WAITING, READY, IMPLEMENTED, CANCELLED]"
| "TASK_TRANSITIONS FAILED = [RETRY_WAIT, CANCELLED]"
| "TASK_TRANSITIONS VERIFIED = []"
| "TASK_TRANSITIONS CANCELLED = []"

definition coerce_task_state :: "string \<Rightarrow> task_state result" where
  "coerce_task_state v = (case find (\<lambda>s. state_value s = v) TASK_STATES of
     Some s \<Rightarrow> Inr s | None \<Rightarrow> Inl (ValueError ''unknown task state'' [v]))"

lemma TASK_STATES_all: "s \<in> set TASK_STATES"
  by (cases s) (simp_all add: TASK_STATES_def)

lemma distinct_state_values: "distinct (map state_value TASK_STATES)"
  by (simp add: TASK_STATES_def)

lemma state_value_inj: "state_value s = state_value t \<Longrightarrow> s = t"
  using distinct_state_values TASK_STATES_all by (auto simp: distinct_map inj_on_def)

interpretation ts: string_enum state_value coerce_task_state
proof
  fix v s
  show "(coerce_task_state v = Inr s) = (v = state_value s)"
  proof
    assume "coerce_task_state v = Inr s"
    then show "v = state_value s"
      by (auto simp: coerce_task_state_def find_Some_iff split: option.splits)
  next
    assume "v = state_value s"
    then have "find (\<lambda>t. state_value t = v) TASK_STATES = Some s"
      using state_value_inj TASK_STATES_all by (intro find_Some_unique) auto
    then show "coerce_task_state v = Inr s" by (simp add: coerce_task_state_def)
  qed
qed

declare state_value.simps [simp del] ts.val_inj [simp]

section \<open>The dependency gate\<close>

definition initial_task_states :: "plan \<Rightarrow> string dict" where
  "initial_task_states p = dict_of (map (\<lambda>t. (t_id t,
     if t_depends_on t = [] then state_value READY else state_value WAITING)) (pl_tasks p))"

definition lookup_task :: "plan \<Rightarrow> string \<Rightarrow> task result" where
  "lookup_task p i = (case task_map p i of
     None \<Rightarrow> Inl (ValueError ''unknown task id'' [i]) | Some t \<Rightarrow> Inr t)"

definition dependency_state_satisfies :: "task \<Rightarrow> string \<Rightarrow> bool result" where
  "dependency_state_satisfies t v = bindE (coerce_task_state v) (\<lambda>s. Inr (s = VERIFIED))"

definition dependency_missing :: "plan \<Rightarrow> string dict \<Rightarrow> string \<Rightarrow> bool result" where
  "dependency_missing p states d =
     (case map_of states d of
        None \<Rightarrow> Inr True
      | Some v \<Rightarrow>
         (case task_map p d of
            None \<Rightarrow> Inl (KeyError d)
          | Some t \<Rightarrow> bindE (dependency_state_satisfies t v) (\<lambda>ok. Inr (\<not> ok))))"

definition unmet_dependencies :: "plan \<Rightarrow> string \<Rightarrow> string dict \<Rightarrow> string list result" where
  "unmet_dependencies p i states =
     bindE (lookup_task p i) (\<lambda>t. filterE (dependency_missing p states) (t_depends_on t))"

definition dependencies_eligible :: "plan \<Rightarrow> string \<Rightarrow> string dict \<Rightarrow> bool result" where
  "dependencies_eligible p i states = bindE (unmet_dependencies p i states) (\<lambda>ds. Inr (ds = []))"

section \<open>One transition\<close>

definition validate_transition ::
  "plan \<Rightarrow> string \<Rightarrow> string \<Rightarrow> string \<Rightarrow> string dict \<Rightarrow> task_state result" where
  "validate_transition p i current target states =
     bindE (lookup_task p i) (\<lambda>_.
     bindE (coerce_task_state current) (\<lambda>source.
     bindE (coerce_task_state target) (\<lambda>destination.
     bindE (case map_of states i of None \<Rightarrow> Inr False
            | Some v \<Rightarrow> bindE (coerce_task_state v) (\<lambda>s. Inr (s = source))) (\<lambda>recorded.
     if \<not> recorded then
       Inl (IllegalTaskTransition ''current state does not match the durable state map'' [i])
     else if source = IMPLEMENTED \<and> destination = VERIFIED then
       Inl (IllegalTaskTransition ''requires independent verification'' [i])
     else if destination \<notin> set (TASK_TRANSITIONS source) then
       Inl (IllegalTaskTransition ''illegal task transition''
         [i, state_value source, state_value destination])
     else if destination = READY \<or> destination = RUNNING then
       bindE (unmet_dependencies p i states) (\<lambda>unmet.
         if unmet \<noteq> [] then
           Inl (IllegalTaskTransition ''task is not dependency-eligible'' (i # unmet))
         else Inr destination)
     else Inr destination))))"

definition normalize_states :: "string dict \<Rightarrow> string dict result" where
  "normalize_states states = mapE (\<lambda>(k, v).
     bindE (coerce_task_state v) (\<lambda>s. Inr (k, state_value s))) states"

definition check_gate :: "plan \<Rightarrow> string dict \<Rightarrow> string \<times> string \<Rightarrow> unit result" where
  "check_gate p states kv = (case kv of (i, raw) \<Rightarrow>
     bindE (coerce_task_state raw) (\<lambda>s.
       if s = WAITING \<or> s = BLOCKED \<or> s = CANCELLED then Inr ()
       else bindE (unmet_dependencies p i states) (\<lambda>unmet.
         if unmet \<noteq> [] then
           Inl (ValueError ''task has unmet dependencies'' (i # state_value s # unmet))
         else Inr ())))"

definition validate_task_states :: "plan \<Rightarrow> string dict \<Rightarrow> bool \<Rightarrow> string dict result" where
  "validate_task_states p states require_complete =
     (let unknown = filter (\<lambda>k. k \<notin> set (task_ids p)) (keys states);
          missing = filter (\<lambda>i. i \<notin> set (keys states)) (task_ids p)
      in if unknown \<noteq> [] then
           Inl (ValueError ''task state map references unknown tasks'' (sorted_set unknown))
         else if require_complete \<and> missing \<noteq> [] then
           Inl (ValueError ''task state map is missing tasks'' (sorted_set missing))
         else bindE (normalize_states states) (\<lambda>normalized.
           bindE (forE (check_gate p normalized) normalized) (\<lambda>_. Inr normalized)))"

definition transition_task :: "plan \<Rightarrow> string dict \<Rightarrow> string \<Rightarrow> string \<Rightarrow> string dict result" where
  "transition_task p states i target =
     (case map_of states i of
        None \<Rightarrow> Inl (ValueError ''task state map has no entry for'' [i])
      | Some current \<Rightarrow>
          bindE (validate_transition p i current target states) (\<lambda>destination.
          bindE (normalize_states states) (\<lambda>normalized.
          let updated = AList.update i (state_value destination) normalized
          in bindE (validate_task_states p updated True) (\<lambda>_. Inr updated))))"

section \<open>What a valid state map means\<close>

definition plan_ok :: "plan \<Rightarrow> bool" where
  "plan_ok p \<longleftrightarrow> distinct (task_ids p) \<and> unknown_dependencies (pl_tasks p) = []"

definition state_of :: "string dict \<Rightarrow> string \<Rightarrow> task_state option" where
  "state_of states i = (case map_of states i of None \<Rightarrow> None
     | Some v \<Rightarrow> (case coerce_task_state v of Inl _ \<Rightarrow> None | Inr s \<Rightarrow> Some s))"

definition advanced :: "task_state \<Rightarrow> bool" where
  "advanced s \<longleftrightarrow> s \<notin> {WAITING, BLOCKED, CANCELLED}"

text \<open>
  A map is valid for a plan when it has a state for exactly the plan's tasks and every task
  beyond WAITING, BLOCKED and CANCELLED has all its direct prerequisites VERIFIED.
\<close>

definition valid_map :: "plan \<Rightarrow> string dict \<Rightarrow> bool" where
  "valid_map p states \<longleftrightarrow>
     set (keys states) = set (task_ids p) \<and>
     (\<forall>i \<in> set (task_ids p). \<exists>s. state_of states i = Some s) \<and>
     (\<forall>t \<in> set (pl_tasks p). \<forall>s. state_of states (t_id t) = Some s \<longrightarrow> advanced s \<longrightarrow>
        (\<forall>d \<in> set (t_depends_on t). state_of states d = Some VERIFIED))"

lemma state_of_Some: "state_of states i = Some s \<longleftrightarrow> map_of states i = Some (state_value s)"
  by (auto simp: state_of_def ts.read_iff split: option.splits sum.splits)

lemma state_of_update [simp]:
  "state_of (AList.update i (state_value s) states) j = (if j = i then Some s else state_of states j)"
  by (simp add: state_of_def)

lemma plan_okD:
  assumes "plan_ok p" "t \<in> set (pl_tasks p)"
  shows "task_map p (t_id t) = Some t" "set (t_depends_on t) \<subseteq> set (task_ids p)"
  using assms task_map_distinct
  by (force simp: plan_ok_def unknown_dependencies_def filter_empty_conv)+

lemma normalize_states_Inr:
  "normalize_states states = Inr n \<longleftrightarrow> n = states \<and> (\<forall>(k, v) \<in> set states. \<exists>s. v = state_value s)"
proof (induction states arbitrary: n)
  case Nil
  then show ?case by (auto simp: normalize_states_def)
next
  case (Cons kv states)
  then show ?case by (cases kv) (auto simp: normalize_states_def ts.read_iff)
qed

lemma dependency_missing_False:
  "dependency_missing p states d = Inr False \<longleftrightarrow>
     d \<in> set (task_ids p) \<and> state_of states d = Some VERIFIED"
  unfolding task_map_Some_iff [symmetric] state_of_Some
  by (auto simp: dependency_missing_def dependency_state_satisfies_def ts.read_iff
      split: option.splits)

lemma unmet_dependencies_Nil:
  "unmet_dependencies p i states = Inr [] \<longleftrightarrow>
     (\<exists>t. task_map p i = Some t \<and>
       (\<forall>d \<in> set (t_depends_on t). d \<in> set (task_ids p) \<and> state_of states d = Some VERIFIED))"
  by (auto simp: unmet_dependencies_def lookup_task_def filterE_Nil dependency_missing_False
      split: option.splits)

lemma dependencies_eligible_True:
  "dependencies_eligible p i states = Inr True \<longleftrightarrow> unmet_dependencies p i states = Inr []"
  by (auto simp: dependencies_eligible_def)

lemma unmet_dependencies_total:
  assumes "plan_ok p" "t \<in> set (pl_tasks p)" "\<forall>i \<in> set (task_ids p). \<exists>s. state_of states i = Some s"
  shows "unmet_dependencies p (t_id t) states
    = Inr (filter (\<lambda>d. state_of states d \<noteq> Some VERIFIED) (t_depends_on t))"
proof -
  have "dependency_missing p states d = Inr (state_of states d \<noteq> Some VERIFIED)"
    if "d \<in> set (t_depends_on t)" for d
  proof -
    have d: "d \<in> set (task_ids p)" using that plan_okD(2) [OF assms(1,2)] by blast
    then obtain s u where s: "state_of states d = Some s" "task_map p d = Some u"
      using assms(3) task_map_Some_iff by metis
    then show ?thesis
      by (auto simp: dependency_missing_def dependency_state_satisfies_def state_of_Some)
  qed
  then show ?thesis
    using plan_okD(1) [OF assms(1,2)]
    by (simp add: unmet_dependencies_def lookup_task_def filterE_total)
qed

lemma check_gate_Inr:
  "check_gate p states (i, state_value s) = Inr () \<longleftrightarrow>
     \<not> advanced s \<or> unmet_dependencies p i states = Inr []"
  by (auto simp: check_gate_def advanced_def)

lemma normalize_states_total:
  assumes "distinct (keys states)" "set (keys states) = set (task_ids p)"
  shows "normalize_states states = Inr n \<longleftrightarrow>
    n = states \<and> (\<forall>i \<in> set (task_ids p). \<exists>s. state_of states i = Some s)"
  unfolding normalize_states_Inr dict_all_iff [OF assms(1)] assms(2) state_of_Some by auto

lemma gates_Inr:
  assumes ok: "plan_ok p" and dk: "distinct (keys states)"
    and k: "set (keys states) = set (task_ids p)"
    and c: "\<forall>i \<in> set (task_ids p). \<exists>s. state_of states i = Some s"
  shows "forE (check_gate p states) states = Inr () \<longleftrightarrow>
      (\<forall>t \<in> set (pl_tasks p). \<forall>s. state_of states (t_id t) = Some s \<longrightarrow> advanced s \<longrightarrow>
        (\<forall>d \<in> set (t_depends_on t). state_of states d = Some VERIFIED))"
proof -
  have one: "(\<exists>v. map_of states (t_id t) = Some v \<and> check_gate p states (t_id t, v) = Inr ()) \<longleftrightarrow>
      (\<forall>s. state_of states (t_id t) = Some s \<longrightarrow> advanced s \<longrightarrow>
        (\<forall>d \<in> set (t_depends_on t). state_of states d = Some VERIFIED))"
    if t: "t \<in> set (pl_tasks p)" for t
  proof -
    obtain s where s: "state_of states (t_id t) = Some s" using c t by force
    have "unmet_dependencies p (t_id t) states = Inr [] \<longleftrightarrow>
        (\<forall>d \<in> set (t_depends_on t). state_of states d = Some VERIFIED)"
      using unmet_dependencies_total [OF ok t c] by (auto simp: filter_empty_conv)
    with s show ?thesis unfolding state_of_Some by (auto simp: check_gate_Inr)
  qed
  have "(\<forall>kv \<in> set states. check_gate p states kv = Inr ()) \<longleftrightarrow>
      (\<forall>t \<in> set (pl_tasks p). \<exists>v. map_of states (t_id t) = Some v \<and>
        check_gate p states (t_id t, v) = Inr ())"
    unfolding dict_all_iff [OF dk] k by simp
  with one show ?thesis by simp
qed

lemma validate_task_states_Inr:
  assumes "plan_ok p" "distinct (keys states)"
  shows "validate_task_states p states True = Inr n \<longleftrightarrow> n = states \<and> valid_map p states"
proof -
  have unknown: "filter (\<lambda>k. k \<notin> set (task_ids p)) (keys states) = [] \<longleftrightarrow>
      set (keys states) \<subseteq> set (task_ids p)"
    by (auto simp: filter_empty_conv)
  have missing: "filter (\<lambda>i. i \<notin> set (keys states)) (task_ids p) = [] \<longleftrightarrow>
      set (task_ids p) \<subseteq> set (keys states)"
    by (auto simp: filter_empty_conv)
  show ?thesis
  proof (cases "set (keys states) = set (task_ids p)")
    case True
    then have "validate_task_states p states True =
      bindE (normalize_states states) (\<lambda>normalized.
        bindE (forE (check_gate p normalized) normalized) (\<lambda>_. Inr normalized))"
      using unknown missing by (simp add: validate_task_states_def)
    with True show ?thesis
      using normalize_states_total [OF assms(2) True] gates_Inr [OF assms True]
      by (auto simp: valid_map_def)
  next
    case False
    then have "filter (\<lambda>k. k \<notin> set (task_ids p)) (keys states) \<noteq> []
        \<or> filter (\<lambda>i. i \<notin> set (keys states)) (task_ids p) \<noteq> []"
      using unknown missing by blast
    then show ?thesis
      using False by (elim disjE) (simp_all add: validate_task_states_def valid_map_def Let_def)
  qed
qed

section \<open>One transition, characterised\<close>

lemma to_VERIFIED: "VERIFIED \<in> set (TASK_TRANSITIONS s) \<longleftrightarrow> s = VERIFYING"
  by (cases s) simp_all

lemma to_advanced:
  "d \<in> set (TASK_TRANSITIONS s) \<Longrightarrow> advanced d \<Longrightarrow> \<not> advanced s \<Longrightarrow>
   d = READY \<or> d = IMPLEMENTED \<and> s = BLOCKED"
  by (cases s) (auto simp: advanced_def)

lemma no_edge_from_terminal: "d \<in> set (TASK_TRANSITIONS s) \<Longrightarrow> s \<notin> set TERMINAL_TASK_STATES"
  by (cases s) (simp_all add: TERMINAL_TASK_STATES_def)

lemma validate_transition_Inr:
  "validate_transition p i current target states = Inr d \<longleftrightarrow>
     (\<exists>s. i \<in> set (task_ids p) \<and> current = state_value s \<and> target = state_value d \<and>
       state_of states i = Some s \<and> d \<in> set (TASK_TRANSITIONS s) \<and>
       (d = READY \<or> d = RUNNING \<longrightarrow> unmet_dependencies p i states = Inr []))"
proof
  assume "validate_transition p i current target states = Inr d"
  then show "\<exists>s. i \<in> set (task_ids p) \<and> current = state_value s \<and> target = state_value d \<and>
       state_of states i = Some s \<and> d \<in> set (TASK_TRANSITIONS s) \<and>
       (d = READY \<or> d = RUNNING \<longrightarrow> unmet_dependencies p i states = Inr [])"
    unfolding task_map_Some_iff [symmetric]
    by (auto simp: validate_transition_def lookup_task_def ts.read_iff state_of_Some
        split: option.splits if_splits)
next
  assume "\<exists>s. i \<in> set (task_ids p) \<and> current = state_value s \<and> target = state_value d \<and>
       state_of states i = Some s \<and> d \<in> set (TASK_TRANSITIONS s) \<and>
       (d = READY \<or> d = RUNNING \<longrightarrow> unmet_dependencies p i states = Inr [])"
  then obtain s t where s: "task_map p i = Some t" "current = state_value s" "target = state_value d"
    "map_of states i = Some (state_value s)" "d \<in> set (TASK_TRANSITIONS s)"
    "d = READY \<or> d = RUNNING \<longrightarrow> unmet_dependencies p i states = Inr []"
    unfolding task_map_Some_iff [symmetric] state_of_Some by blast
  moreover have "\<not> (s = IMPLEMENTED \<and> d = VERIFIED)" using s(5) by auto
  ultimately show "validate_transition p i current target states = Inr d"
    by (simp add: validate_transition_def lookup_task_def)
qed

lemma valid_map_covers:
  "valid_map p states \<Longrightarrow> i \<in> set (task_ids p) \<Longrightarrow> \<exists>s. state_of states i = Some s"
  unfolding valid_map_def by (elim conjE) (erule (1) bspec)

lemma valid_mapD:
  assumes "valid_map p states" "t \<in> set (pl_tasks p)"
  shows "\<exists>s. state_of states (t_id t) = Some s"
    and "state_of states (t_id t) = Some s \<Longrightarrow> advanced s \<Longrightarrow> d \<in> set (t_depends_on t) \<Longrightarrow>
      state_of states d = Some VERIFIED"
  using assms unfolding valid_map_def by auto

lemma valid_normalized:
  assumes "distinct (keys states)" "valid_map p states"
  shows "normalize_states states = Inr states"
  using assms normalize_states_total [of states p states] by (simp add: valid_map_def)

lemma unmet_Nil_valid:
  assumes "plan_ok p" "valid_map p states" "t \<in> set (pl_tasks p)"
  shows "unmet_dependencies p (t_id t) states = Inr [] \<longleftrightarrow>
    (\<forall>d \<in> set (t_depends_on t). state_of states d = Some VERIFIED)"
  using unmet_dependencies_total [OF assms(1,3)] assms(2)
  by (auto simp: valid_map_def filter_empty_conv)

lemma valid_map_update:
  assumes ok: "plan_ok p" and v: "valid_map p states" and t: "t \<in> set (pl_tasks p)"
    and s: "state_of states (t_id t) = Some s" and edge: "d \<in> set (TASK_TRANSITIONS s)"
  shows "valid_map p (AList.update (t_id t) (state_value d) states) \<longleftrightarrow>
    (advanced d \<longrightarrow> (\<forall>x \<in> set (t_depends_on t). state_of states x = Some VERIFIED))"
    (is "?valid \<longleftrightarrow> ?gate")
proof -
  let ?new = "AList.update (t_id t) (state_value d) states"
  have i: "t_id t \<in> set (task_ids p)" using t by simp
  have nv: "s \<noteq> VERIFIED" using edge no_edge_from_terminal by (auto simp: TERMINAL_TASK_STATES_def)
  have up: "state_of ?new x = Some VERIFIED" if "state_of states x = Some VERIFIED" for x
    using that s nv by auto
  have down: "state_of states x = Some VERIFIED"
    if "state_of ?new x = Some VERIFIED" "x \<noteq> t_id t" for x
    using that by simp
  have keys: "set (keys ?new) = set (task_ids p)" "\<forall>i \<in> set (task_ids p). \<exists>s. state_of ?new i = Some s"
    using v i unfolding valid_map_def
    by (simp_all del: set_map add: set_keys_update insert_absorb)
  show ?thesis
  proof
    assume new: ?valid
    show ?gate
    proof (intro impI ballI)
      fix x assume a: "advanced d" and x: "x \<in> set (t_depends_on t)"
      then have x': "state_of ?new x = Some VERIFIED"
        using valid_mapD(2) [OF new t, of d] by simp
      show "state_of states x = Some VERIFIED"
      proof (cases "x = t_id t")
        case True
        then have "d = VERIFIED" using x' by simp
        then have "s = VERIFYING" using edge by (simp add: to_VERIFIED)
        then show ?thesis using valid_mapD(2) [OF v t s _ x] by (simp add: advanced_def)
      next
        case False
        then show ?thesis using x' down by blast
      qed
    qed
  next
    assume gate: ?gate
    have "state_of ?new x = Some VERIFIED"
      if u: "u \<in> set (pl_tasks p)" "state_of ?new (t_id u) = Some e" "advanced e"
        "x \<in> set (t_depends_on u)" for u e x
    proof (cases "t_id u = t_id t")
      case True
      then have "u = t" using ok u(1) t by (metis option.inject plan_okD(1))
      then show ?thesis using u gate up by auto
    next
      case False
      then show ?thesis using u valid_mapD(2) [OF v u(1)] up by auto
    qed
    then show ?valid using keys unfolding valid_map_def by blast
  qed
qed

lemma transition_task_Inr:
  assumes ok: "plan_ok p" and dk: "distinct (keys states)" and v: "valid_map p states"
    and t: "t \<in> set (pl_tasks p)" and s: "state_of states (t_id t) = Some s"
  shows "transition_task p states (t_id t) target = Inr states' \<longleftrightarrow>
    (\<exists>d. target = state_value d \<and> d \<in> set (TASK_TRANSITIONS s) \<and>
      (advanced d \<longrightarrow> (\<forall>x \<in> set (t_depends_on t). state_of states x = Some VERIFIED)) \<and>
      states' = AList.update (t_id t) (state_value d) states)"
proof -
  let ?gate = "\<lambda>d. advanced d \<longrightarrow> (\<forall>x \<in> set (t_depends_on t). state_of states x = Some VERIFIED)"
  have i: "t_id t \<in> set (task_ids p)" using t by simp
  have "distinct (keys (AList.update (t_id t) (state_value d) states))" for d
    using dk by (rule distinct_update)
  then have valid: "validate_task_states p (AList.update (t_id t) (state_value d) states) True = Inr n
    \<longleftrightarrow> n = AList.update (t_id t) (state_value d) states \<and> ?gate d"
    if "d \<in> set (TASK_TRANSITIONS s)" for d n
    using validate_task_states_Inr [OF ok] valid_map_update [OF ok v t s that] by simp
  have edge: "validate_transition p (t_id t) (state_value s) target states = Inr d \<longleftrightarrow>
    target = state_value d \<and> d \<in> set (TASK_TRANSITIONS s) \<and>
    (d = READY \<or> d = RUNNING \<longrightarrow> ?gate d)" for d
    using i s unmet_Nil_valid [OF ok v t] by (auto simp: validate_transition_Inr advanced_def)
  show ?thesis
    using s valid edge
    by (auto simp: transition_task_def state_of_Some valid_normalized [OF dk v] Let_def)
qed

lemma transition_task_known:
  assumes "valid_map p states" "transition_task p states i target = Inr states'"
  obtains t where "t \<in> set (pl_tasks p)" "i = t_id t"
proof -
  have "i \<in> set (task_ids p)"
    using assms(2) by (auto simp: transition_task_def validate_transition_Inr split: option.splits)
  with that show ?thesis by auto
qed

section \<open>Runs of transitions\<close>

text \<open>
  A run is a list of requests (a task id and a target state), each applied to the map the
  previous one returned; the first refusal ends it.
\<close>

definition request :: "plan \<Rightarrow> string dict \<Rightarrow> string \<times> task_state \<Rightarrow> string dict result" where
  "request p states r = transition_task p states (fst r) (state_value (snd r))"

definition good_map :: "plan \<Rightarrow> string dict \<Rightarrow> bool" where
  "good_map p states \<longleftrightarrow> plan_ok p \<and> distinct (keys states) \<and> valid_map p states"

lemma request_Inr:
  assumes "good_map p states" "request p states r = Inr states'"
  obtains t s where "t \<in> set (pl_tasks p)" "fst r = t_id t" "state_of states (fst r) = Some s"
    "snd r \<in> set (TASK_TRANSITIONS s)"
    "states' = AList.update (fst r) (state_value (snd r)) states" "good_map p states'"
proof -
  have g: "plan_ok p" "distinct (keys states)" "valid_map p states"
    using assms(1) by (simp_all add: good_map_def)
  have r: "transition_task p states (fst r) (state_value (snd r)) = Inr states'"
    using assms(2) by (simp add: request_def)
  obtain t where t: "t \<in> set (pl_tasks p)" "fst r = t_id t"
    using transition_task_known [OF g(3) r] .
  obtain s where s: "state_of states (t_id t) = Some s" using valid_mapD(1) [OF g(3) t(1)] ..
  have n: "snd r \<in> set (TASK_TRANSITIONS s)"
    "advanced (snd r) \<longrightarrow> (\<forall>x \<in> set (t_depends_on t). state_of states x = Some VERIFIED)"
    "states' = AList.update (t_id t) (state_value (snd r)) states"
    using transition_task_Inr [OF g t(1) s] r t(2) by auto
  moreover have "good_map p states'"
    using valid_map_update [OF g(1,3) t(1) s n(1)] n g distinct_update [OF g(2)]
    by (simp add: good_map_def)
  ultimately show ?thesis using that t s by auto
qed

interpretation tm: guarded_machine "request p" "good_map p" for p
proof
  fix states r states'
  assume "good_map p states" "request p states r = Inr states'"
  then show "good_map p states'" by (rule request_Inr)
qed

lemma good_map_prerequisites:
  assumes good: "good_map p states" and dep: "(d, i) \<in> (dep_rel (pl_tasks p))\<^sup>+"
  shows "state_of states i = Some s \<Longrightarrow> advanced s \<Longrightarrow> state_of states d = Some VERIFIED"
  using dep
proof (induction arbitrary: s rule: trancl_induct)
  case (base i)
  then show ?case using good valid_mapD(2) by (auto simp: good_map_def dep_rel_def)
next
  case (step j i)
  then have "state_of states j = Some VERIFIED"
    using good valid_mapD(2) by (auto simp: good_map_def dep_rel_def)
  then show ?case using step.IH by (simp add: advanced_def)
qed

lemma run_terminal:
  "good_map p states \<Longrightarrow> state_of states i = Some s \<Longrightarrow> s \<in> set TERMINAL_TASK_STATES \<Longrightarrow>
   run_ops (request p) states rs = Inr states' \<Longrightarrow> state_of states' i = Some s"
proof (induction rs arbitrary: states)
  case Nil
  then show ?case by simp
next
  case (Cons r rs)
  then obtain next_states where n: "request p states r = Inr next_states"
    "run_ops (request p) next_states rs = Inr states'" by auto
  obtain s' where r: "state_of states (fst r) = Some s'" "snd r \<in> set (TASK_TRANSITIONS s')"
    "next_states = AList.update (fst r) (state_value (snd r)) states" "good_map p next_states"
    using request_Inr [OF Cons.prems(1) n(1)] .
  then have "fst r \<noteq> i" using Cons.prems(2,3) no_edge_from_terminal by auto
  then have "state_of next_states i = Some s" using r(3) Cons.prems(2) by simp
  with Cons.IH r(4) n(2) Cons.prems(3) show ?case by blast
qed

lemma run_to_VERIFIED:
  "good_map p states \<Longrightarrow> state_of states i \<noteq> Some VERIFIED \<Longrightarrow>
   run_ops (request p) states rs = Inr states' \<Longrightarrow> state_of states' i = Some VERIFIED \<Longrightarrow>
   \<exists>before after mid. rs = before @ (i, VERIFIED) # after \<and>
     run_ops (request p) states before = Inr mid \<and> state_of mid i = Some VERIFYING"
proof (induction rs arbitrary: states)
  case Nil
  then show ?case by simp
next
  case (Cons r rs)
  then obtain next_states where n: "request p states r = Inr next_states"
    "run_ops (request p) next_states rs = Inr states'" by auto
  obtain s where r: "state_of states (fst r) = Some s" "snd r \<in> set (TASK_TRANSITIONS s)"
    "next_states = AList.update (fst r) (state_value (snd r)) states" "good_map p next_states"
    using request_Inr [OF Cons.prems(1) n(1)] .
  show ?case
  proof (cases "state_of next_states i = Some VERIFIED")
    case True
    then have "fst r = i" "snd r = VERIFIED" using r(3) Cons.prems(2) by (auto split: if_splits)
    then have "r # rs = [] @ (i, VERIFIED) # rs" "state_of states i = Some VERIFYING"
      using r(1,2) by (cases r, auto simp: to_VERIFIED)+
    then show ?thesis by (metis run_ops.simps(1))
  next
    case False
    from Cons.IH [OF r(4) False n(2) Cons.prems(4)] obtain before after mid where
      "rs = before @ (i, VERIFIED) # after" "run_ops (request p) next_states before = Inr mid"
      "state_of mid i = Some VERIFYING" by blast
    then have "r # rs = (r # before) @ (i, VERIFIED) # after"
      "run_ops (request p) states (r # before) = Inr mid" using n(1) by simp_all
    then show ?thesis using \<open>state_of mid i = Some VERIFYING\<close> by blast
  qed
qed

lemma initial_state_cases:
  "state_of (initial_task_states p) i = Some s \<Longrightarrow> s = READY \<or> s = WAITING"
  unfolding initial_task_states_def state_of_Some
  by (drule map_of_dict_ofD) (auto split: if_splits)

lemma initial_good_map:
  assumes "plan_ok p"
  shows "good_map p (initial_task_states p)"
proof -
  have d: "distinct (task_ids p)" using assms by (simp add: plan_ok_def)
  have st: "state_of (initial_task_states p) (t_id t)
    = Some (if t_depends_on t = [] then READY else WAITING)" if "t \<in> set (pl_tasks p)" for t
    unfolding state_of_Some initial_task_states_def
    using map_of_dict_of_map [OF d that,
        of "\<lambda>t. if t_depends_on t = [] then state_value READY else state_value WAITING"]
    by (cases "t_depends_on t = []") simp_all
  have "set (keys (initial_task_states p)) = set (task_ids p)"
    by (auto simp: initial_task_states_def simp del: set_map) (auto simp: image_iff)
  moreover have "\<forall>i \<in> set (task_ids p). \<exists>s. state_of (initial_task_states p) i = Some s"
    using st by auto
  ultimately have "valid_map p (initial_task_states p)"
    using st unfolding valid_map_def by (auto simp: advanced_def split: if_splits)
  then show ?thesis using assms by (simp add: good_map_def initial_task_states_def)
qed

section \<open>The properties\<close>

definition diamond_plan :: plan where
  "diamond_plan = sample_plan diamond"

definition diamond_start :: "string dict" where
  "diamond_start = initial_task_states diamond_plan"

lemma diamond_good: "good_map diamond_plan diamond_start"
  unfolding diamond_start_def
proof (rule initial_good_map)
  show "plan_ok diamond_plan" by code_simp
qed

text \<open>
  C3. A task map is accepted by the validator exactly when it names exactly the plan's tasks,
  each with a known state, and no task beyond WAITING, BLOCKED and CANCELLED has a
  prerequisite that is not VERIFIED; the accepted map is returned unchanged.
\<close>

theorem validate_task_states_correct:
  assumes "plan_ok p" "distinct (keys states)"
  shows "validate_task_states p states True = Inr n \<longleftrightarrow> n = states \<and> valid_map p states"
  using assms by (rule validate_task_states_Inr)

theorem validate_task_states_correct_witness: "valid_map diamond_plan diamond_start"
proof -
  have "validate_task_states diamond_plan diamond_start True = Inr diamond_start" by code_simp
  moreover have "plan_ok diamond_plan" "distinct (keys diamond_start)"
    using diamond_good by (simp_all add: good_map_def)
  ultimately show ?thesis using validate_task_states_correct by blast
qed

text \<open>
  C4. On a valid map a transition is accepted exactly along an edge of the table, with every
  prerequisite VERIFIED when the task advances, and it then changes that one entry only.
  Every other request is refused.
\<close>

theorem transition_task_correct:
  assumes "plan_ok p" "distinct (keys states)" "valid_map p states"
    and "t \<in> set (pl_tasks p)" "state_of states (t_id t) = Some s"
  shows "transition_task p states (t_id t) target = Inr states' \<longleftrightarrow>
    (\<exists>d. target = state_value d \<and> d \<in> set (TASK_TRANSITIONS s) \<and>
      (advanced d \<longrightarrow> (\<forall>x \<in> set (t_depends_on t). state_of states x = Some VERIFIED)) \<and>
      states' = AList.update (t_id t) (state_value d) states)"
  using assms by (rule transition_task_Inr)

theorem transition_task_correct_witness:
  "\<not> (\<exists>m. transition_task diamond_plan diamond_start ''d'' ''READY'' = Inr m)"
proof -
  have "sample_task ''d'' [''b'', ''c''] \<in> set (pl_tasks diamond_plan)"
    "t_id (sample_task ''d'' [''b'', ''c'']) = ''d''"
    "t_depends_on (sample_task ''d'' [''b'', ''c'']) = [''b'', ''c'']"
    by (simp_all add: diamond_plan_def sample_plan_def diamond_def sample_task_def)
  moreover have "state_of diamond_start ''d'' = Some WAITING" by code_simp
  moreover have "state_of diamond_start ''b'' = Some WAITING" by code_simp
  moreover have "''READY'' = state_value READY" by (simp add: state_value.simps)
  ultimately show ?thesis
    using diamond_good transition_task_correct [of diamond_plan diamond_start
        "sample_task ''d'' [''b'', ''c'']" WAITING "''READY''"]
    by (auto simp: good_map_def advanced_def)
qed

text \<open>
  C5. In whatever order the runtime requests transitions, work never starts early: at every
  reachable map a task beyond WAITING, BLOCKED and CANCELLED has all its transitive
  prerequisites VERIFIED.
\<close>

theorem run_prerequisites_verified:
  assumes "plan_ok p" "run_ops (request p) (initial_task_states p) rs = Inr states"
    and "state_of states i = Some s" "advanced s" and "(d, i) \<in> (dep_rel (pl_tasks p))\<^sup>+"
  shows "state_of states d = Some VERIFIED"
  using assms tm.run_inv [OF initial_good_map] good_map_prerequisites by blast

definition run_to_b :: "(string \<times> task_state) list" where
  "run_to_b = [(''a'', RUNNING), (''a'', IMPLEMENTED), (''a'', VERIFYING), (''a'', VERIFIED),
     (''b'', READY), (''b'', RUNNING)]"

theorem run_prerequisites_verified_witness:
  "\<exists>m. run_ops (request diamond_plan) diamond_start run_to_b = Inr m \<and>
    state_of m ''b'' = Some RUNNING \<and> state_of m ''a'' = Some VERIFIED"
proof -
  let ?m = "[(''d'', ''WAITING''), (''a'', ''VERIFIED''), (''b'', ''RUNNING''), (''c'', ''WAITING'')]"
  have m: "run_ops (request diamond_plan) (initial_task_states diamond_plan) run_to_b = Inr ?m"
    by code_simp
  have b: "state_of ?m ''b'' = Some RUNNING" by code_simp
  have ok: "plan_ok diamond_plan" using diamond_good by (simp add: good_map_def)
  have "(''a'', ''b'') \<in> dep_rel (pl_tasks diamond_plan)"
    by (force simp: dep_rel_def diamond_plan_def sample_plan_def diamond_def sample_task_def)
  then have "state_of ?m ''a'' = Some VERIFIED"
    using run_prerequisites_verified [OF ok m b] by (auto simp: advanced_def)
  with m b show ?thesis by (auto simp: diamond_start_def)
qed

text \<open>
  Nothing verifies itself (rule R29): in every run, a task that becomes VERIFIED was in
  VERIFYING when the request for VERIFIED was made.
\<close>

theorem run_verified_was_verifying:
  assumes "good_map p states" "run_ops (request p) states rs = Inr states'"
    and "state_of states i \<noteq> Some VERIFIED" "state_of states' i = Some VERIFIED"
  shows "\<exists>before after mid. rs = before @ (i, VERIFIED) # after \<and>
    run_ops (request p) states before = Inr mid \<and> state_of mid i = Some VERIFYING"
  using run_to_VERIFIED assms by blast

theorem run_verified_was_verifying_witness:
  "\<exists>before after mid. run_to_b = before @ (''a'', VERIFIED) # after \<and>
    run_ops (request diamond_plan) diamond_start before = Inr mid \<and>
    state_of mid ''a'' = Some VERIFYING"
proof (rule run_verified_was_verifying [OF diamond_good])
  let ?m = "[(''d'', ''WAITING''), (''a'', ''VERIFIED''), (''b'', ''RUNNING''), (''c'', ''WAITING'')]"
  show "run_ops (request diamond_plan) diamond_start run_to_b = Inr ?m" by code_simp
  show "state_of diamond_start ''a'' \<noteq> Some VERIFIED" by code_simp
  show "state_of ?m ''a'' = Some VERIFIED" by code_simp
qed

text \<open>
  A terminal state is final: no run of transitions moves a VERIFIED or CANCELLED task.
\<close>

theorem run_terminal_final:
  assumes "good_map p states" "run_ops (request p) states rs = Inr states'"
    and "state_of states i = Some s" "s \<in> set TERMINAL_TASK_STATES"
  shows "state_of states' i = Some s"
  using run_terminal assms by blast

definition cancelled_start :: "string dict" where
  "cancelled_start = [(''d'', ''CANCELLED''), (''a'', ''READY''), (''b'', ''WAITING''), (''c'', ''WAITING'')]"

theorem run_terminal_final_witness:
  "\<exists>m. run_ops (request diamond_plan) cancelled_start run_to_b = Inr m \<and>
    state_of m ''d'' = Some CANCELLED"
proof -
  let ?m = "[(''d'', ''CANCELLED''), (''a'', ''VERIFIED''), (''b'', ''RUNNING''), (''c'', ''WAITING'')]"
  have r: "run_ops (request diamond_plan) cancelled_start run_to_b = Inr ?m" by code_simp
  have "plan_ok diamond_plan" "distinct (keys cancelled_start)" by code_simp+
  moreover have "validate_task_states diamond_plan cancelled_start True = Inr cancelled_start"
    by code_simp
  ultimately have g: "good_map diamond_plan cancelled_start"
    using validate_task_states_Inr by (auto simp: good_map_def)
  have d: "state_of cancelled_start ''d'' = Some CANCELLED" by code_simp
  show ?thesis using r run_terminal_final [OF g r d] by (simp add: TERMINAL_TASK_STATES_def)
qed

section \<open>Completing a plan\<close>

lemma request_accepted:
  assumes "good_map p states" "t \<in> set (pl_tasks p)" "state_of states (t_id t) = Some s"
    and "d \<in> set (TASK_TRANSITIONS s)"
    and "\<forall>x \<in> set (t_depends_on t). state_of states x = Some VERIFIED"
  shows "request p states (t_id t, d) = Inr (AList.update (t_id t) (state_value d) states)"
    and "good_map p (AList.update (t_id t) (state_value d) states)"
proof -
  have g: "plan_ok p" "distinct (keys states)" "valid_map p states"
    using assms(1) by (simp_all add: good_map_def)
  show r: "request p states (t_id t, d) = Inr (AList.update (t_id t) (state_value d) states)"
    using transition_task_Inr [OF g assms(2,3)] assms(4,5) by (simp add: request_def)
  show "good_map p (AList.update (t_id t) (state_value d) states)"
    using tm.step_inv [OF assms(1) r] .
qed

lemma follow_edges:
  assumes "t \<in> set (pl_tasks p)"
  shows "good_map p states \<Longrightarrow> state_of states (t_id t) = Some s \<Longrightarrow>
    successively (\<lambda>a b. b \<in> set (TASK_TRANSITIONS a)) (s # ds) \<Longrightarrow>
    \<forall>x \<in> set (t_depends_on t). state_of states x = Some VERIFIED \<Longrightarrow> t_id t \<notin> set (t_depends_on t) \<Longrightarrow>
    \<exists>states'. run_ops (request p) states (map (Pair (t_id t)) ds) = Inr states' \<and> good_map p states' \<and>
      (\<forall>j. state_of states' j = (if j = t_id t then Some (last (s # ds)) else state_of states j))"
proof (induction ds arbitrary: states s)
  case Nil
  then show ?case by simp
next
  case (Cons d ds)
  let ?next = "AList.update (t_id t) (state_value d) states"
  have d: "d \<in> set (TASK_TRANSITIONS s)" "successively (\<lambda>a b. b \<in> set (TASK_TRANSITIONS a)) (d # ds)"
    using Cons.prems(3) by simp_all
  note step = request_accepted [OF Cons.prems(1) assms Cons.prems(2) d(1) Cons.prems(4)]
  have "\<forall>x \<in> set (t_depends_on t). state_of ?next x = Some VERIFIED"
    using Cons.prems(4,5) by auto
  then obtain states' where "run_ops (request p) ?next (map (Pair (t_id t)) ds) = Inr states'"
    "good_map p states'"
    "\<forall>j. state_of states' j = (if j = t_id t then Some (last (d # ds)) else state_of ?next j)"
    using Cons.IH [of ?next d] step(2) d(2) Cons.prems(5) by auto
  then show ?case using step(1) by auto
qed

lemma finish_task:
  assumes "t \<in> set (pl_tasks p)" "good_map p states" "state_of states (t_id t) = Some s"
    and "s = WAITING \<or> s = READY"
    and "\<forall>x \<in> set (t_depends_on t). state_of states x = Some VERIFIED"
  obtains rs states' where "run_ops (request p) states rs = Inr states'" "good_map p states'"
    "\<forall>j. state_of states' j = (if j = t_id t then Some VERIFIED else state_of states j)"
proof -
  let ?ds = "(if s = READY then [] else [READY]) @ [RUNNING, IMPLEMENTED, VERIFYING, VERIFIED]"
  have "t_id t \<notin> set (t_depends_on t)" using assms(3-5) by auto
  moreover have "successively (\<lambda>a b. b \<in> set (TASK_TRANSITIONS a)) (s # ?ds)"
    "last (s # ?ds) = VERIFIED" using assms(4) by auto
  ultimately show ?thesis
    using follow_edges [OF assms(1-3), of ?ds] assms(5) that by metis
qed

lemma complete_acyclic:
  assumes ok: "plan_ok p" "acyclic (dep_rel (pl_tasks p))"
  shows "good_map p states \<Longrightarrow>
    \<forall>i \<in> set (task_ids p). state_of states i \<in> Some ` {WAITING, READY, VERIFIED} \<Longrightarrow>
    \<exists>rs states'. run_ops (request p) states rs = Inr states' \<and>
      (\<forall>i \<in> set (task_ids p). state_of states' i = Some VERIFIED)"
proof (induction "card {i \<in> set (task_ids p). state_of states i \<noteq> Some VERIFIED}"
    arbitrary: states rule: less_induct)
  case less
  let ?open = "\<lambda>st. {i \<in> set (task_ids p). state_of st i \<noteq> Some VERIFIED}"
  let ?done = "filter (\<lambda>i. state_of states i = Some VERIFIED) (task_ids p)"
  show ?case
  proof (cases "?open states = {}")
    case True
    then show ?thesis by (intro exI [of _ "[]"] exI [of _ states]) auto
  next
    case False
    then obtain i where "i \<in> set (task_ids p) - set ?done" by auto
    then obtain j where j: "j \<in> set (task_ids p) - set ?done"
      "set (deps_of (pl_tasks p) j) \<subseteq> set ?done"
      using acyclic_minimal_unfinished ok unfolding plan_ok_def by metis
    then obtain t where t: "t \<in> set (pl_tasks p)" "j = t_id t" by auto
    have deps: "\<forall>x \<in> set (t_depends_on t). state_of states x = Some VERIFIED"
      using j(2) t ok(1) by (auto simp: deps_of_distinct plan_ok_def)
    obtain s where s: "state_of states (t_id t) = Some s" "s = WAITING \<or> s = READY"
      using less.prems(2) j(1) t by auto
    obtain rs mid where mid: "run_ops (request p) states rs = Inr mid" "good_map p mid"
      "\<forall>k. state_of mid k = (if k = t_id t then Some VERIFIED else state_of states k)"
      using finish_task [OF t(1) less.prems(1) s deps] .
    have "?open mid \<subset> ?open states" using mid(3) j(1) t(2) by auto
    then have "card (?open mid) < card (?open states)" by (intro psubset_card_mono) auto
    moreover have "\<forall>i \<in> set (task_ids p). state_of mid i \<in> Some ` {WAITING, READY, VERIFIED}"
      using mid(3) less.prems(2) by simp
    ultimately obtain rs' states' where "run_ops (request p) mid rs' = Inr states'"
      "\<forall>i \<in> set (task_ids p). state_of states' i = Some VERIFIED"
      using less.hyps [OF _ mid(2)] by blast
    then show ?thesis
      using mid(1) tm.run_append [where rs = rs and rs' = rs']
      by (intro exI [of _ "rs @ rs'"] exI [of _ states']) auto
  qed
qed

lemma cyclic_never_completes:
  assumes ok: "plan_ok p" and cyc: "(i, i) \<in> (dep_rel (pl_tasks p))\<^sup>+"
    and run: "run_ops (request p) (initial_task_states p) rs = Inr states"
  shows "state_of states i \<noteq> Some VERIFIED"
proof
  assume v: "state_of states i = Some VERIFIED"
  note good = initial_good_map [OF ok]
  have "state_of (initial_task_states p) i \<noteq> Some VERIFIED"
    using initial_state_cases by blast
  then obtain before mid where "run_ops (request p) (initial_task_states p) before = Inr mid"
    "state_of mid i = Some VERIFYING"
    using run_to_VERIFIED [OF good _ run v] by blast
  then show False
    using good_map_prerequisites [OF tm.run_inv [OF good] cyc] by (auto simp: advanced_def)
qed

text \<open>
  C8. A plan can be driven to the end exactly when it has no cycle: from the initial map
  there is a run that makes every task VERIFIED if and only if the dependency relation is
  acyclic.
\<close>

theorem completable_iff_acyclic:
  assumes "plan_ok p"
  shows "(\<exists>rs states. run_ops (request p) (initial_task_states p) rs = Inr states \<and>
      (\<forall>i \<in> set (task_ids p). state_of states i = Some VERIFIED)) \<longleftrightarrow>
    acyclic (dep_rel (pl_tasks p))"
proof
  assume "\<exists>rs states. run_ops (request p) (initial_task_states p) rs = Inr states \<and>
      (\<forall>i \<in> set (task_ids p). state_of states i = Some VERIFIED)"
  then have "(i, i) \<notin> (dep_rel (pl_tasks p))\<^sup>+" for i
    using cyclic_never_completes [OF assms, of i] dep_rel_field [of i i "pl_tasks p"] by blast
  then show "acyclic (dep_rel (pl_tasks p))" by (simp add: acyclic_def)
next
  assume ac: "acyclic (dep_rel (pl_tasks p))"
  have "state_of (initial_task_states p) i \<in> Some ` {WAITING, READY, VERIFIED}"
    if i: "i \<in> set (task_ids p)" for i
  proof -
    have "valid_map p (initial_task_states p)"
      using initial_good_map [OF assms] by (simp add: good_map_def)
    then obtain s where s: "state_of (initial_task_states p) i = Some s"
      using valid_map_covers [OF _ i] by blast
    then have "s = READY \<or> s = WAITING" by (rule initial_state_cases)
    then show ?thesis using s by auto
  qed
  then show "\<exists>rs states. run_ops (request p) (initial_task_states p) rs = Inr states \<and>
      (\<forall>i \<in> set (task_ids p). state_of states i = Some VERIFIED)"
    by (intro complete_acyclic [OF assms ac initial_good_map [OF assms]]) blast
qed

definition loop_plan :: plan where
  "loop_plan = sample_plan [sample_task ''a'' [''b''], sample_task ''b'' [''a'']]"

theorem completable_iff_acyclic_witness:
  "\<not> (\<exists>rs states. run_ops (request loop_plan) (initial_task_states loop_plan) rs = Inr states \<and>
      (\<forall>i \<in> set (task_ids loop_plan). state_of states i = Some VERIFIED))"
proof -
  have "(''a'', ''b'') \<in> dep_rel (pl_tasks loop_plan)" "(''b'', ''a'') \<in> dep_rel (pl_tasks loop_plan)"
    by (force simp: dep_rel_def loop_plan_def sample_plan_def sample_task_def)+
  then have "(''a'', ''a'') \<in> (dep_rel (pl_tasks loop_plan))\<^sup>+" by (meson trancl.simps)
  moreover have "plan_ok loop_plan" by code_simp
  ultimately show ?thesis using completable_iff_acyclic [of loop_plan] by (auto simp: acyclic_def)
qed

end
