(* ===== verification/TaskMigration.thy ===== *)
theory TaskMigration
  imports TaskStates
begin

text \<open>
  \<^verbatim>\<open>migrate_v08_task_states\<close> of \<^verbatim>\<open>task_state.py\<close>: the serial cursor
  of an old run state (an untyped JSON object) becomes a complete map of task states. The
  definitions follow the function's steps: the clamped index, the ids that count as
  completed, the place of the current task, the tasks that become READY, the validation.
\<close>

section \<open>The old cursor\<close>

definition legacy_index :: "plan \<Rightarrow> pyval dict \<Rightarrow> int" where
  "legacy_index p legacy =
     (let index = (case get_default legacy ''milestone_index'' (PInt 0) of PInt n \<Rightarrow> n | _ \<Rightarrow> 0)
      in max 0 (min index (int (length (pl_tasks p)) - 1)))"

definition history_entry :: "pyval \<Rightarrow> string list result" where
  "history_entry entry = (case entry of
     PDict e \<Rightarrow>
       (case get e ''milestone_id'' of
          PStr i \<Rightarrow> bindE (in_text_set (get e ''status'') [''ROTATE'', ''DONE''])
                    (\<lambda>done. Inr (if done then [i] else []))
        | _ \<Rightarrow> Inr [])
   | _ \<Rightarrow> Inr [])"

definition history_ids :: "pyval dict \<Rightarrow> string list result" where
  "history_ids legacy =
     (let history = get legacy ''worker_history'' in
      bindE (if truthy history then iterate history else Inr []) (\<lambda>entries.
      bindE (mapE history_entry entries) (\<lambda>ids. Inr (concat ids))))"

definition status_done :: "pyval dict \<Rightarrow> bool" where
  "status_done legacy \<longleftrightarrow> get legacy ''status'' = PStr ''DONE''"

definition completed_ids :: "plan \<Rightarrow> pyval dict \<Rightarrow> string list result" where
  "completed_ids p legacy =
     bindE (history_ids legacy) (\<lambda>ids.
     Inr (ids @ take (nat (legacy_index p legacy)) (task_ids p)
       @ (if status_done legacy then task_ids p else [])))"

text \<open>
  \<^verbatim>\<open>str(value or "")\<close>, compared with fixed words: only a text can equal one of them,
  since the text of any other JSON value is none of these words.
\<close>

definition text_is :: "pyval \<Rightarrow> string list \<Rightarrow> bool" where
  "text_is v names = (case v of PStr s \<Rightarrow> s \<in> set names | _ \<Rightarrow> False)"

definition current_state :: "pyval dict \<Rightarrow> task_state" where
  "current_state legacy =
     (let phase = get legacy ''phase''; status = get legacy ''status'' in
      if text_is phase [''WAITING_RATE_LIMIT''] then RETRY_WAIT
      else if text_is status [''BLOCKED''] then BLOCKED
      else if text_is phase [''CREATING_THREAD'', ''CLAIMING_PROJECT_SLOT'',
        ''PREPARING_PROJECT_SLOT'', ''THREAD_CREATED'', ''VERIFYING_MEMORY_MCP'',
        ''STARTING_TURN'', ''RUNNING_TURN''] then RUNNING
      else READY)"

definition current_id :: "plan \<Rightarrow> pyval dict \<Rightarrow> string dict \<Rightarrow> string result" where
  "current_id p legacy states =
     (let fallback = (if nat (legacy_index p legacy) < length (pl_tasks p)
        then Inr (t_id (pl_tasks p ! nat (legacy_index p legacy)))
        else Inl (IndexError ''tuple index out of range'')) in
      case get legacy ''milestone_id'' of
        PStr i \<Rightarrow> if i \<in> set (keys states) then Inr i else fallback
      | _ \<Rightarrow> fallback)"

section \<open>The new map\<close>

definition mark_verified :: "string list \<Rightarrow> string dict \<Rightarrow> string dict" where
  "mark_verified ids states = fold (\<lambda>i st. if i \<in> set (keys st)
     then AList.update i (state_value VERIFIED) st else st) ids states"

definition place_current :: "plan \<Rightarrow> pyval dict \<Rightarrow> string dict \<Rightarrow> string dict result" where
  "place_current p legacy states =
     (if status_done legacy then Inr states
      else bindE (current_id p legacy states) (\<lambda>i.
        Inr (if map_of states i \<noteq> Some (state_value VERIFIED)
             then AList.update i (state_value (current_state legacy)) states else states)))"

fun unlock_ready :: "plan \<Rightarrow> task list \<Rightarrow> string dict \<Rightarrow> string dict result" where
  "unlock_ready p [] states = Inr states"
| "unlock_ready p (t # ts) states =
     bindE (if map_of states (t_id t) = Some (state_value WAITING)
            then dependencies_eligible p (t_id t) states else Inr False) (\<lambda>unlock.
     if unlock then
       let states' = AList.update (t_id t) (state_value READY) states
       in if pl_legacy_serial p then Inr states' else unlock_ready p ts states'
     else unlock_ready p ts states)"

definition migrate_v08_task_states :: "plan \<Rightarrow> pyval dict \<Rightarrow> string dict result" where
  "migrate_v08_task_states p legacy =
     (let states = dict_of (map (\<lambda>t. (t_id t, state_value WAITING)) (pl_tasks p)) in
      bindE (completed_ids p legacy) (\<lambda>done.
      bindE (place_current p legacy (mark_verified done states)) (\<lambda>placed.
      bindE (unlock_ready p (pl_tasks p) placed) (\<lambda>unlocked.
      validate_task_states p unlocked True))))"

section \<open>A migrated chain\<close>

text \<open>
  An old plan is a chain: each task depends on the one before it. The map the cursor
  stands for: everything before it accepted, the rest not started.
\<close>

definition chain :: "task list \<Rightarrow> bool" where
  "chain ts \<longleftrightarrow> (\<forall>k < length ts. t_depends_on (ts ! k) = (if k = 0 then [] else [t_id (ts ! (k - 1))]))"

definition cursor_map :: "task list \<Rightarrow> nat \<Rightarrow> task_state \<Rightarrow> string dict" where
  "cursor_map ts k s = map (\<lambda>t. (t_id t, state_value
     (if t_id t \<in> set (map t_id (take k ts)) then VERIFIED
      else if t_id t = t_id (ts ! k) then s else WAITING))) ts"

text \<open>Maps over all tasks, given by a function of the id.\<close>

definition tab :: "task list \<Rightarrow> (string \<Rightarrow> task_state) \<Rightarrow> string dict" where
  "tab ts f = map (\<lambda>t. (t_id t, state_value (f (t_id t)))) ts"

lemma keys_tab [simp]: "map fst (tab ts f) = map t_id ts"
  by (simp add: tab_def)

lemma fst_tab [simp]: "fst ` set (tab ts f) = t_id ` set ts"
  by (force simp: tab_def)

lemma map_of_tab: "map_of (tab ts f) i = (if i \<in> set (map t_id ts) then Some (state_value (f i)) else None)"
  by (induction ts) (auto simp: tab_def)

lemma state_of_tab: "i \<in> set (map t_id ts) \<Longrightarrow> state_of (tab ts f) i = Some (f i)"
  by (simp add: state_of_Some map_of_tab)

lemma update_tab:
  "distinct (map t_id ts) \<Longrightarrow> i \<in> set (map t_id ts) \<Longrightarrow>
   AList.update i (state_value v) (tab ts f) = tab ts (f(i := v))"
  by (induction ts) (auto simp: tab_def rev_image_eqI)

lemma mark_verified_tab:
  "distinct (map t_id ts) \<Longrightarrow>
   mark_verified ids (tab ts f) = tab ts (\<lambda>i. if i \<in> set ids then VERIFIED else f i)"
proof (induction ids arbitrary: f)
  case Nil
  show ?case by (simp add: mark_verified_def)
next
  case (Cons i ids)
  have step: "mark_verified (i # ids) (tab ts f) = mark_verified ids
    (if i \<in> set (map t_id ts) then tab ts (f(i := VERIFIED)) else tab ts f)"
    using update_tab [OF Cons.prems, of i VERIFIED f] by (simp add: mark_verified_def)
  have "mark_verified (i # ids) (tab ts f) = tab ts (\<lambda>j. if j \<in> set ids then VERIFIED
    else (if i \<in> set (map t_id ts) then f(i := VERIFIED) else f) j)"
    unfolding step using Cons.IH Cons.prems by (simp split: if_splits)
  also have "\<dots> = tab ts (\<lambda>j. if j \<in> set (i # ids) then VERIFIED else f j)"
    by (auto simp: tab_def)
  finally show ?case .
qed

lemma unlock_none:
  "(\<And>t. t \<in> set ts \<Longrightarrow> map_of st (t_id t) = Some (state_value WAITING) \<Longrightarrow>
     dependencies_eligible p (t_id t) st = Inr False) \<Longrightarrow> unlock_ready p ts st = Inr st"
  by (induction ts) auto

lemma tab_covers: "\<forall>i \<in> set (task_ids p). \<exists>s. state_of (tab (pl_tasks p) f) i = Some s"
  using state_of_tab by blast

lemma chain_unlocks_nothing:
  assumes ok: "plan_ok p"
    and blocked: "\<And>t. t \<in> set (pl_tasks p) \<Longrightarrow> f (t_id t) = WAITING \<Longrightarrow>
      \<exists>d \<in> set (t_depends_on t). f d \<noteq> VERIFIED"
  shows "unlock_ready p (pl_tasks p) (tab (pl_tasks p) f) = Inr (tab (pl_tasks p) f)"
proof (rule unlock_none)
  fix t assume t: "t \<in> set (pl_tasks p)"
    and w: "map_of (tab (pl_tasks p) f) (t_id t) = Some (state_value WAITING)"
  from w t have "f (t_id t) = WAITING" by (simp add: map_of_tab)
  then obtain d where d: "d \<in> set (t_depends_on t)" "f d \<noteq> VERIFIED" using blocked t by blast
  then have "state_of (tab (pl_tasks p) f) d \<noteq> Some VERIFIED"
    using state_of_tab plan_okD(2) [OF ok t] by (metis option.inject subsetD)
  then have "filter (\<lambda>d. state_of (tab (pl_tasks p) f) d \<noteq> Some VERIFIED) (t_depends_on t) \<noteq> []"
    using d(1) by (auto simp: filter_empty_conv)
  then show "dependencies_eligible p (t_id t) (tab (pl_tasks p) f) = Inr False"
    using unmet_dependencies_total [OF ok t tab_covers] by (simp add: dependencies_eligible_def)
qed

lemma tab_valid:
  assumes ok: "plan_ok p"
    and gate: "\<And>t d. t \<in> set (pl_tasks p) \<Longrightarrow> advanced (f (t_id t)) \<Longrightarrow> d \<in> set (t_depends_on t) \<Longrightarrow>
      f d = VERIFIED"
  shows "valid_map p (tab (pl_tasks p) f)"
proof -
  have "state_of (tab (pl_tasks p) f) d = Some VERIFIED"
    if "t \<in> set (pl_tasks p)" "state_of (tab (pl_tasks p) f) (t_id t) = Some s" "advanced s"
      "d \<in> set (t_depends_on t)" for t s d
  proof -
    have "s = f (t_id t)" using that(1,2) state_of_tab by (metis list.set_map image_eqI option.inject)
    then show ?thesis
      using gate that state_of_tab plan_okD(2) [OF ok that(1)] by (metis subsetD)
  qed
  then show ?thesis unfolding valid_map_def using tab_covers by (auto simp del: set_map simp: tab_covers)
qed


lemma chain_prerequisite:
  assumes "chain ts" "j < length ts"
  shows "t_depends_on (ts ! j) = (if j = 0 then [] else [t_id (ts ! (j - 1))])"
  using assms by (auto simp: chain_def)

lemma before_cursor:
  assumes "distinct (map t_id ts)" "j < length ts" "k \<le> length ts"
  shows "t_id (ts ! j) \<in> set (map t_id (take k ts)) \<longleftrightarrow> j < k"
proof -
  have "set (map t_id (take k ts)) = (\<lambda>m. map t_id ts ! m) ` {..<k}"
    unfolding take_map [symmetric] lessThan_atLeast0
    by (rule nth_image [symmetric]) (simp add: assms(3))
  then have "t_id (ts ! j) \<in> set (map t_id (take k ts)) \<longleftrightarrow> (\<exists>m < k. map t_id ts ! m = map t_id ts ! j)"
    using assms(2) by (simp add: image_iff Bex_def eq_commute del: set_map)
  also have "\<dots> \<longleftrightarrow> (\<exists>m < k. m = j)"
    using assms nth_eq_iff_index_eq [of "map t_id ts"] by auto
  finally show ?thesis by simp
qed

definition at_cursor :: "task list \<Rightarrow> nat \<Rightarrow> task_state \<Rightarrow> string \<Rightarrow> task_state" where
  "at_cursor ts k s i = (if i \<in> set (map t_id (take k ts)) then VERIFIED
     else if i = t_id (ts ! k) then s else WAITING)"

lemma cursor_map_tab: "cursor_map ts k s = tab ts (at_cursor ts k s)"
  by (simp add: cursor_map_def tab_def at_cursor_def)

lemma at_cursor_nth:
  assumes "distinct (map t_id ts)" "j < length ts" "k < length ts"
  shows "at_cursor ts k s (t_id (ts ! j)) = (if j < k then VERIFIED else if j = k then s else WAITING)"
  using before_cursor [OF assms(1,2), of k] assms nth_eq_iff_index_eq [of "map t_id ts" j k]
  by (auto simp: at_cursor_def)

lemma cursor_map_stable:
  assumes ok: "plan_ok p" and chain: "chain (pl_tasks p)" and k: "k < length (pl_tasks p)"
    and s: "s \<noteq> VERIFIED" "s \<noteq> WAITING"
  shows "unlock_ready p (pl_tasks p) (cursor_map (pl_tasks p) k s) = Inr (cursor_map (pl_tasks p) k s)"
    and "valid_map p (cursor_map (pl_tasks p) k s)"
proof -
  let ?ts = "pl_tasks p" and ?f = "at_cursor (pl_tasks p) k s"
  have d: "distinct (task_ids p)" using ok by (simp add: plan_ok_def)
  show "unlock_ready p ?ts (cursor_map ?ts k s) = Inr (cursor_map ?ts k s)"
    unfolding cursor_map_tab
  proof (rule chain_unlocks_nothing [OF ok])
    fix t assume "t \<in> set ?ts" and w: "?f (t_id t) = WAITING"
    then obtain j where j: "j < length ?ts" "t = ?ts ! j" by (auto simp: in_set_conv_nth)
    then have "k < j" using w at_cursor_nth [OF d j(1) k] s by (auto split: if_splits)
    then have "t_id (?ts ! (j - 1)) \<in> set (t_depends_on t)" "?f (t_id (?ts ! (j - 1))) \<noteq> VERIFIED"
      using chain_prerequisite [OF chain j(1)] j at_cursor_nth [OF d _ k, of "j - 1"] s by auto
    then show "\<exists>x \<in> set (t_depends_on t). ?f x \<noteq> VERIFIED" by blast
  qed
  show "valid_map p (cursor_map ?ts k s)"
    unfolding cursor_map_tab
  proof (rule tab_valid [OF ok])
    fix t x assume "t \<in> set ?ts" and a: "advanced (?f (t_id t))" and x: "x \<in> set (t_depends_on t)"
    then obtain j where j: "j < length ?ts" "t = ?ts ! j" by (auto simp: in_set_conv_nth)
    then have "j \<le> k" using a at_cursor_nth [OF d j(1) k] by (auto simp: advanced_def split: if_splits)
    moreover have "0 < j" "x = t_id (?ts ! (j - 1))"
      using chain_prerequisite [OF chain j(1)] j(2) x by (auto split: if_splits)
    ultimately show "?f x = VERIFIED" using at_cursor_nth [OF d _ k, of "j - 1"] j(1) by simp
  qed
qed

text \<open>
  C9. A v0.8 cursor migrates to what it stood for. For a chain of tasks, with no accepted
  work recorded past the index and the run not done, the tasks before the index become
  VERIFIED, the task at the index takes the state its phase and status say, and every later
  task waits.
\<close>

theorem migrate_chain:
  assumes ok: "plan_ok p" and chain: "chain (pl_tasks p)"
    and k: "legacy_index p legacy = int k" "k < length (pl_tasks p)"
    and hist: "history_ids legacy = Inr ids" "set ids \<subseteq> set (map t_id (take k (pl_tasks p)))"
    and undone: "\<not> status_done legacy"
    and cur: "get legacy ''milestone_id'' \<in> {PNone, PStr (t_id (pl_tasks p ! k))}"
  shows "migrate_v08_task_states p legacy = Inr (cursor_map (pl_tasks p) k (current_state legacy))"
proof -
  let ?ts = "pl_tasks p" and ?s = "current_state legacy"
  let ?done = "ids @ take k (task_ids p)" and ?start = "tab (pl_tasks p) (\<lambda>_. WAITING)"
  let ?verified = "\<lambda>i. if i \<in> set (map t_id (take k ?ts)) then VERIFIED else WAITING"
  have d: "distinct (task_ids p)" using ok by (simp add: plan_ok_def)
  have s: "?s \<noteq> VERIFIED" "?s \<noteq> WAITING" by (simp_all add: current_state_def Let_def)
  have kid: "t_id (?ts ! k) \<in> set (task_ids p)" "t_id (?ts ! k) \<notin> set (map t_id (take k ?ts))"
    using k(2) before_cursor [OF d k(2)] by auto
  have ids: "completed_ids p legacy = Inr ?done"
    using hist(1) undone k(1) by (simp add: completed_ids_def)
  have start: "dict_of (map (\<lambda>t. (t_id t, state_value WAITING)) ?ts) = ?start"
    using d by (simp add: tab_def comp_def)
  have verified: "mark_verified ?done ?start = tab ?ts ?verified"
    unfolding mark_verified_tab [OF d] using hist(2) by (auto simp: tab_def take_map)
  have "current_id p legacy (tab ?ts ?verified) = Inr (t_id (?ts ! k))"
    using cur k by (auto simp: current_id_def Let_def)
  moreover have "map_of (tab ?ts ?verified) (t_id (?ts ! k)) \<noteq> Some (state_value VERIFIED)"
    using kid by (simp add: map_of_tab)
  moreover have "AList.update (t_id (?ts ! k)) (state_value ?s) (tab ?ts ?verified) = cursor_map ?ts k ?s"
    unfolding update_tab [OF d kid(1)] cursor_map_tab using kid(2)
    by (auto simp: tab_def at_cursor_def)
  ultimately have "place_current p legacy (tab ?ts ?verified) = Inr (cursor_map ?ts k ?s)"
    using undone by (simp add: place_current_def)
  then show ?thesis
    using cursor_map_stable [OF ok chain k(2) s] ids start verified d
      validate_task_states_Inr [OF ok, of "cursor_map ?ts k ?s"]
    by (simp add: migrate_v08_task_states_def Let_def cursor_map_tab)
qed

definition chain_plan :: plan where
  "chain_plan = sample_plan [sample_task ''a'' [], sample_task ''b'' [''a''], sample_task ''c'' [''b'']]"

definition sample_cursor :: "pyval dict" where
  "sample_cursor = [(''milestone_index'', PInt 1), (''milestone_id'', PStr ''b''),
     (''worker_history'', PList [PDict [(''milestone_id'', PStr ''a''), (''status'', PStr ''DONE'')]]),
     (''phase'', PStr ''RUNNING_TURN''), (''status'', PStr ''RUNNING'')]"

theorem migrate_chain_witness:
  "migrate_v08_task_states chain_plan sample_cursor
    = Inr [(''a'', ''VERIFIED''), (''b'', ''RUNNING''), (''c'', ''WAITING'')]"
proof -
  have "migrate_v08_task_states chain_plan sample_cursor
    = Inr (cursor_map (pl_tasks chain_plan) 1 (current_state sample_cursor))"
  proof (rule migrate_chain [where ids = "[''a'']"])
    show "plan_ok chain_plan" by code_simp
    show "chain (pl_tasks chain_plan)"
      by (auto simp: chain_def chain_plan_def sample_plan_def sample_task_def less_Suc_eq numeral_3_eq_3)
    show "legacy_index chain_plan sample_cursor = int 1" by code_simp
    show "1 < length (pl_tasks chain_plan)" by code_simp
    show "history_ids sample_cursor = Inr [''a'']" by code_simp
    show "set [''a''] \<subseteq> set (map t_id (take 1 (pl_tasks chain_plan)))" by code_simp
    show "\<not> status_done sample_cursor" by code_simp
    show "get sample_cursor ''milestone_id'' \<in> {PNone, PStr (t_id (pl_tasks chain_plan ! 1))}"
      by code_simp
  qed
  also have "cursor_map (pl_tasks chain_plan) 1 (current_state sample_cursor)
    = [(''a'', ''VERIFIED''), (''b'', ''RUNNING''), (''c'', ''WAITING'')]" by code_simp
  finally show ?thesis .
qed

end
