(* ===== verification/Models.thy ===== *)
theory Models
  imports Prelude "HOL-Library.Product_Lexorder"
begin

text \<open>
  \<^verbatim>\<open>models.py\<close> and \<^verbatim>\<open>reasoning.py\<close>: the pinned models, the effort
  ladder, the routing of an execution mode to a model, and what the served catalog says of
  a pinned model. A catalog entry is the JSON object App Server sends.
\<close>

section \<open>Constants\<close>

definition MODEL_IDS :: "(string \<times> string) list" where
  "MODEL_IDS = [(''sol'', ''gpt-6-sol''), (''astra'', ''gpt-6-astra'')]"
definition MODEL_LABELS :: "(string \<times> string) list" where
  "MODEL_LABELS = [(''sol'', ''GPT-6 Sol''), (''astra'', ''GPT-6 Astra'')]"
definition STRATEGIES :: "string list" where
  "STRATEGIES = [''auto'', ''sol-only'', ''astra-only'', ''host-settings'']"
definition EXECUTION_MODES :: "string list" where
  "EXECUTION_MODES = [''code'', ''computer_use'']"
definition PUBLIC_REASONING :: "string list" where
  "PUBLIC_REASONING = [''medium'', ''high'', ''xhigh'', ''max'']"

section \<open>The effort ladder\<close>

fun index_of :: "string list \<Rightarrow> string \<Rightarrow> nat" where
  "index_of [] x = 0"
| "index_of (y # ys) x = (if y = x then 0 else Suc (index_of ys x))"

definition next_effort_step :: "string option \<Rightarrow> string option result" where
  "next_effort_step current =
     (let value = (case current of None \<Rightarrow> hd PUBLIC_REASONING
        | Some v \<Rightarrow> if v = [] then hd PUBLIC_REASONING else v)
      in if value \<notin> set PUBLIC_REASONING then
           Inl (ModelRoutingError ''reasoning must be one of'' PUBLIC_REASONING)
         else let index = index_of PUBLIC_REASONING value in
           if index + 1 \<ge> length PUBLIC_REASONING then Inr None
           else Inr (Some (PUBLIC_REASONING ! (index + 1))))"

text \<open>\<^verbatim>\<open>min(available, key=...)\<close>: the first element with the least key.\<close>

fun first_min :: "('a \<Rightarrow> 'k::linorder) \<Rightarrow> 'a \<Rightarrow> 'a list \<Rightarrow> 'a" where
  "first_min f best [] = best"
| "first_min f best (x # xs) = first_min f (if f x < f best then x else best) xs"

definition rung_distance :: "nat \<Rightarrow> string \<Rightarrow> nat" where
  "rung_distance target v = nat \<bar>int (index_of PUBLIC_REASONING v) - int target\<bar>"

definition rung_key :: "nat \<Rightarrow> string \<Rightarrow> nat \<times> nat" where
  "rung_key target v = (rung_distance target v, index_of PUBLIC_REASONING v)"

definition resolve_reasoning :: "string \<Rightarrow> string list \<Rightarrow> (string \<times> string option) result" where
  "resolve_reasoning requested supported =
     (if requested \<notin> set PUBLIC_REASONING then
        Inl (ModelRoutingError ''reasoning must be one of'' PUBLIC_REASONING)
      else case filter (\<lambda>v. v \<in> set supported) PUBLIC_REASONING of
        [] \<Rightarrow> Inl (ModelRoutingError
          ''Selected model advertises none of the public Adaptive reasoning efforts.'' [])
      | a # as \<Rightarrow>
          if requested \<in> set (a # as) then Inr (requested, None)
          else let resolved = first_min (rung_key (index_of PUBLIC_REASONING requested)) a as in
            Inr (resolved, Some (''requested '' @ requested
              @ ''; App Server does not support it for this model, resolved to nearest supported ''
              @ resolved)))"

section \<open>Routing\<close>

definition logical_model :: "string \<Rightarrow> string \<Rightarrow> string result" where
  "logical_model strategy execution_mode =
     (if strategy \<notin> set STRATEGIES \<or> strategy = ''host-settings'' then
        Inl (ModelRoutingError ''unsupported model strategy'' [strategy])
      else if execution_mode \<notin> set EXECUTION_MODES then
        Inl (ModelRoutingError ''unsupported execution mode'' [execution_mode])
      else if strategy = ''sol-only'' then
        (if execution_mode = ''computer_use''
         then Inl (ModelRoutingError
           ''This milestone requires Computer Use, but the run is configured as Sol-only.'' [])
         else Inr ''sol'')
      else if strategy = ''astra-only'' then Inr ''astra''
      else Inr (if execution_mode = ''computer_use'' then ''astra'' else ''sol''))"

section \<open>The catalog\<close>

text \<open>The text after the last hyphen, or all of it.\<close>

definition after_last :: "char \<Rightarrow> string \<Rightarrow> string" where
  "after_last c s = rev (takeWhile (\<lambda>d. d \<noteq> c) (rev s))"

definition family :: "string \<Rightarrow> string" where
  "family model_id = lower (strip (after_last (CHR ''-'') model_id))"

text \<open>
  The matches of \<^verbatim>\<open>\d+(?:\.\d+)*\<close>, leftmost and greedy, each already split at its
  dots into numbers. The second argument is the number being read, the third the numbers
  of the match read so far.
\<close>

fun number_runs :: "string \<Rightarrow> nat option \<Rightarrow> nat list \<Rightarrow> nat list list" where
  "number_runs [] None done = (if done = [] then [] else [done])"
| "number_runs [] (Some n) done = [done @ [n]]"
| "number_runs (c # cs) None done =
     (if is_digit c then number_runs cs (Some (of_char c - 48)) done
      else (if done = [] then [] else [done]) @ number_runs cs None [])"
| "number_runs (c # cs) (Some n) done =
     (if is_digit c then number_runs cs (Some (10 * n + (of_char c - 48))) done
      else if c = CHR ''.'' \<and> cs \<noteq> [] \<and> is_digit (hd cs) then number_runs cs None (done @ [n])
      else (done @ [n]) # number_runs cs None [])"

definition version :: "string \<Rightarrow> int list" where
  "version model_id = (case number_runs model_id None [] of
     [] \<Rightarrow> [-1] | runs \<Rightarrow> map int (last runs))"

record catalog_verdict =
  cv_key :: string
  cv_pinned :: string
  cv_state :: string
  cv_newer :: "string option"
  cv_available :: "string list"

definition verdict_message :: "catalog_verdict \<Rightarrow> string" where
  "verdict_message v =
     (if cv_state v = ''missing'' then
        (let offer = (if join '', '' (cv_available v) = [] then ''nothing''
            else join '', '' (cv_available v))
         in cv_pinned v @ '' is no longer served to this account. ''
          @ ''Available instead: '' @ offer @ ''. Nothing is substituted ''
          @ ''automatically - choose one and say so.'')
      else if cv_state v = ''superseded'' then
        cv_pinned v @ '' still works, and ''
        @ (case cv_newer v of None \<Rightarrow> ''None'' | Some n \<Rightarrow> n) @ '' is newer. ''
        @ ''Runs stay on '' @ cv_pinned v @ '' until you say otherwise.''
      else cv_pinned v @ '' is served.'')"

definition served_name :: "(pyval \<Rightarrow> string) \<Rightarrow> pyval \<Rightarrow> string list" where
  "served_name rp item = (case item of
     PDict d \<Rightarrow>
       (let name = strip (str_of rp (py_or (get d ''model'') (py_or (get d ''id'') (PStr []))))
        in if name = [] then [] else [name])
   | _ \<Rightarrow> [])"

text \<open>\<^verbatim>\<open>max(newer, key=_version)\<close>: the first element with the greatest key.\<close>

fun first_max :: "('a \<Rightarrow> 'k::linorder) \<Rightarrow> 'a \<Rightarrow> 'a list \<Rightarrow> 'a" where
  "first_max f best [] = best"
| "first_max f best (x # xs) = first_max f (if f best < f x then x else best) xs"

definition pinned_verdict :: "string list \<Rightarrow> string \<times> string \<Rightarrow> catalog_verdict" where
  "pinned_verdict served kv = (case kv of (key, model_id) \<Rightarrow>
     let siblings = filter (\<lambda>name. family name = family model_id) served in
     if model_id \<notin> set served then
       \<lparr>cv_key = key, cv_pinned = model_id, cv_state = ''missing'', cv_newer = None,
        cv_available = siblings\<rparr>
     else case filter (\<lambda>name. version model_id < version name) siblings of
       n # ns \<Rightarrow> \<lparr>cv_key = key, cv_pinned = model_id, cv_state = ''superseded'',
          cv_newer = Some (first_max version n ns), cv_available = []\<rparr>
     | [] \<Rightarrow> \<lparr>cv_key = key, cv_pinned = model_id, cv_state = ''present'', cv_newer = None,
          cv_available = []\<rparr>)"

definition catalog_verdicts ::
  "(pyval \<Rightarrow> string) \<Rightarrow> pyval list \<Rightarrow> (string \<times> string) list \<Rightarrow> catalog_verdict list" where
  "catalog_verdicts rp catalog pinned =
     (let served = concat (map (served_name rp) catalog)
      in map (pinned_verdict served) (if pinned = [] then MODEL_IDS else pinned))"

section \<open>The selection\<close>

record model_selection =
  ms_key :: string
  ms_model_id :: string
  ms_display_name :: string
  ms_reasoning :: string
  ms_reason :: string
  ms_reasoning_adjustment :: "string option"

definition supported_effort :: "pyval \<Rightarrow> string list" where
  "supported_effort item = (case item of
     PDict d \<Rightarrow> (case get d ''reasoningEffort'' of
         PStr e \<Rightarrow> if e \<in> set PUBLIC_REASONING then [e] else []
       | _ \<Rightarrow> [])
   | _ \<Rightarrow> [])"

definition selection_reason :: "string \<Rightarrow> string \<Rightarrow> string \<Rightarrow> string" where
  "selection_reason strategy key execution_reason = strip
     ((if strategy = ''auto'' then ''AUTO: '' @ (if key = ''astra'' then ''Computer Use is required''
         else ''Computer Use is not required'') @ ''. ''
       else if strategy = ''sol-only'' then ''Sol-only strategy. ''
       else ''Astra-only strategy. '') @ execution_reason)"

text \<open>The catalog entry was found: its id, its efforts, the selection.\<close>

definition entry_selection ::
  "(pyval \<Rightarrow> string) \<Rightarrow> pyval dict \<Rightarrow> string \<Rightarrow> string \<Rightarrow> string \<Rightarrow> string \<Rightarrow> string \<Rightarrow> model_selection result"
where
  "entry_selection rp m key expected strategy requested execution_reason =
     (let actual = str_of rp (py_or (get m ''model'') (py_or (get m ''id'') (PStr []))) in
      if actual \<noteq> expected then
        Inl (ModelRoutingError ''Model registry expected another id'' [expected, actual])
      else
        let offered = get m ''supportedReasoningEfforts'' in
        bindE (if truthy offered then iterate offered else Inr []) (\<lambda>efforts.
        bindE (resolve_reasoning requested (concat (map supported_effort efforts))) (\<lambda>r.
        Inr \<lparr>ms_key = key, ms_model_id = expected, ms_display_name = the (map_of MODEL_LABELS key),
          ms_reasoning = fst r, ms_reason = selection_reason strategy key execution_reason,
          ms_reasoning_adjustment = snd r\<rparr>)))"

definition resolve_selection ::
  "(pyval \<Rightarrow> string) \<Rightarrow> pyval dict list \<Rightarrow> string \<Rightarrow> string \<Rightarrow> string \<Rightarrow> string \<Rightarrow> model_selection result"
where
  "resolve_selection rp catalog strategy execution_mode requested execution_reason =
     bindE (logical_model strategy execution_mode) (\<lambda>key.
     case map_of MODEL_IDS key of
       None \<Rightarrow> Inl (KeyError key)
     | Some expected \<Rightarrow>
        (case find (\<lambda>d. get d ''id'' = PStr expected \<or> get d ''model'' = PStr expected) catalog of
           None \<Rightarrow> Inl (ModelRoutingError ''Required model is unavailable for this account''
              (expected # map verdict_message
                (take 1 (catalog_verdicts rp (map PDict catalog) [(key, expected)]))))
         | Some m \<Rightarrow> entry_selection rp m key expected strategy requested execution_reason))"

section \<open>\<^verbatim>\<open>reasoning.py\<close>\<close>

definition ALIASES :: "(string \<times> string) list" where
  "ALIASES = [(''medium'', ''medium''), (''high'', ''high''), (''xhigh'', ''xhigh''),
     (''max'', ''max''), (''ultra'', ''max'')]"

definition normalize_reasoning :: "string \<Rightarrow> string result" where
  "normalize_reasoning value = (case map_of ALIASES (lower (strip value)) of
     None \<Rightarrow> Inl (ValueError ''reasoning must be one of the levels'' PUBLIC_REASONING)
   | Some r \<Rightarrow> Inr r)"


section \<open>Nearest effort, and no substitution\<close>

lemma first_min_in: "first_min f b xs \<in> set (b # xs)"
  by (induction xs arbitrary: b) (auto split: if_splits)

lemma first_min_le: "x \<in> set (b # xs) \<Longrightarrow> f (first_min f b xs) \<le> f x"
proof (induction xs arbitrary: b x)
  case Nil
  then show ?case by simp
next
  case (Cons y ys)
  let ?b = "if f y < f b then y else b"
  have "f (first_min f ?b ys) \<le> f ?b" by (rule Cons.IH) simp
  moreover have "f ?b \<le> f b" "f ?b \<le> f y" by auto
  moreover have "x \<in> set ys \<Longrightarrow> f (first_min f ?b ys) \<le> f x" by (rule Cons.IH) simp
  ultimately show ?case using Cons.prems by (auto simp del: first_min.simps simp add: first_min.simps(2))
qed

lemma first_max_in: "first_max f b xs \<in> set (b # xs)"
  by (induction xs arbitrary: b) (auto split: if_splits)

lemma first_max_ge: "x \<in> set (b # xs) \<Longrightarrow> f x \<le> f (first_max f b xs)"
proof (induction xs arbitrary: b x)
  case Nil
  then show ?case by simp
next
  case (Cons y ys)
  let ?b = "if f b < f y then y else b"
  have "f ?b \<le> f (first_max f ?b ys)" by (rule Cons.IH) simp
  moreover have "f b \<le> f ?b" "f y \<le> f ?b" by auto
  moreover have "x \<in> set ys \<Longrightarrow> f x \<le> f (first_max f ?b ys)" by (rule Cons.IH) simp
  ultimately show ?case using Cons.prems by (auto simp del: first_max.simps simp add: first_max.simps(2))
qed

definition rung :: "string \<Rightarrow> nat" where
  "rung e = index_of PUBLIC_REASONING e"

lemma index_of_inj: "x \<in> set xs \<Longrightarrow> y \<in> set xs \<Longrightarrow> index_of xs x = index_of xs y \<Longrightarrow> x = y"
  by (induction xs) (auto split: if_splits)

lemma resolve_reasoning_least:
  assumes "resolve_reasoning requested supported = Inr (e, adj)"
  shows "e \<in> set PUBLIC_REASONING \<inter> set supported"
    and "v \<in> set PUBLIC_REASONING \<inter> set supported \<Longrightarrow>
      rung_key (rung requested) e \<le> rung_key (rung requested) v"
    and "adj = None \<longleftrightarrow> requested \<in> set supported"
proof -
  obtain a as where f: "filter (\<lambda>v. v \<in> set supported) PUBLIC_REASONING = a # as"
    and r: "requested \<in> set PUBLIC_REASONING"
    using assms by (auto simp: resolve_reasoning_def split: if_splits list.splits)
  then have av: "set PUBLIC_REASONING \<inter> set supported = set (a # as)" by (metis set_filter Int_def)
  let ?best = "first_min (rung_key (rung requested)) a as"
  have *: "e \<in> set (a # as) \<and> (v \<in> set (a # as) \<longrightarrow> rung_key (rung requested) e \<le> rung_key (rung requested) v)
    \<and> (adj = None \<longleftrightarrow> requested \<in> set (a # as))"
  proof (cases "requested \<in> set (a # as)")
    case True
    then have "e = requested" "adj = None"
      using assms f r by (simp_all add: resolve_reasoning_def)
    moreover have "rung_key (rung requested) requested \<le> rung_key (rung requested) v"
      by (simp add: rung_key_def rung_distance_def rung_def)
    ultimately show ?thesis using True by simp
  next
    case False
    then have "e = ?best" "adj \<noteq> None"
      using assms f r by (auto simp: resolve_reasoning_def Let_def rung_def)
    then show ?thesis using False first_min_in first_min_le by metis
  qed
  show "e \<in> set PUBLIC_REASONING \<inter> set supported" using * av by blast
  show "v \<in> set PUBLIC_REASONING \<inter> set supported \<Longrightarrow>
      rung_key (rung requested) e \<le> rung_key (rung requested) v" using * av by blast
  show "adj = None \<longleftrightarrow> requested \<in> set supported" using * av r by blast
qed

lemma set_supported: "set (concat (map supported_effort efforts)) \<subseteq> set PUBLIC_REASONING"
  by (auto simp: supported_effort_def split: pyval.splits if_splits)

lemma logical_model_route:
  assumes "logical_model strategy mode = Inr key"
  shows "key = (if mode = ''computer_use'' \<or> strategy = ''astra-only'' then ''astra'' else ''sol'')"
    and "strategy = ''sol-only'' \<Longrightarrow> key = ''sol''"
  using assms by (auto simp: logical_model_def split: if_splits)

definition advertised :: "pyval dict \<Rightarrow> string list" where
  "advertised m = (case (if truthy (get m ''supportedReasoningEfforts'')
     then iterate (get m ''supportedReasoningEfforts'') else Inr []) of
     Inl _ \<Rightarrow> [] | Inr efforts \<Rightarrow> concat (map supported_effort efforts))"

lemma entry_selection_Inr:
  assumes "entry_selection rp m key expected strategy requested why = Inr sel"
  shows "str_of rp (py_or (get m ''model'') (py_or (get m ''id'') (PStr []))) = expected
    \<and> (\<exists>efforts e adj. (if truthy (get m ''supportedReasoningEfforts'')
        then iterate (get m ''supportedReasoningEfforts'') else Inr []) = Inr efforts
      \<and> resolve_reasoning requested (concat (map supported_effort efforts)) = Inr (e, adj)
      \<and> ms_key sel = key \<and> ms_model_id sel = expected \<and> ms_reasoning sel = e)"
  using assms by (simp add: entry_selection_def Let_def split: if_splits) auto

lemma selection_cases:
  assumes "resolve_selection rp catalog strategy mode requested why = Inr sel"
  obtains key expected m efforts e adj where
    "logical_model strategy mode = Inr key" "map_of MODEL_IDS key = Some expected"
    "find (\<lambda>d. get d ''id'' = PStr expected \<or> get d ''model'' = PStr expected) catalog = Some m"
    "str_of rp (py_or (get m ''model'') (py_or (get m ''id'') (PStr []))) = expected"
    "(if truthy (get m ''supportedReasoningEfforts'')
      then iterate (get m ''supportedReasoningEfforts'') else Inr []) = Inr efforts"
    "resolve_reasoning requested (concat (map supported_effort efforts)) = Inr (e, adj)"
    "ms_key sel = key" "ms_model_id sel = expected" "ms_reasoning sel = e"
proof -
  obtain key where key: "logical_model strategy mode = Inr key"
    using assms by (cases "logical_model strategy mode") (simp_all add: resolve_selection_def)
  obtain expected where ex: "map_of MODEL_IDS key = Some expected"
    using assms key by (cases "map_of MODEL_IDS key") (simp_all add: resolve_selection_def)
  let ?find = "find (\<lambda>d. get d ''id'' = PStr expected \<or> get d ''model'' = PStr expected) catalog"
  obtain m where m: "?find = Some m"
    using assms key ex by (cases ?find) (simp_all add: resolve_selection_def)
  have "entry_selection rp m key expected strategy requested why = Inr sel"
    using assms key ex m by (simp add: resolve_selection_def)
  from entry_selection_Inr [OF this] key ex m that show ?thesis by blast
qed


definition sample_catalog :: "pyval dict list" where
  "sample_catalog = [[(''id'', PStr ''gpt-6-sol''),
     (''supportedReasoningEfforts'', PList [PDict [(''reasoningEffort'', PStr ''medium'')],
        PDict [(''reasoningEffort'', PStr ''max'')]])]]"


end
