(* ===== verification/Json.thy ===== *)
theory Json
  imports Prelude
begin

text \<open>
  What the source uses of the \<^verbatim>\<open>json\<close> module: \<^verbatim>\<open>json.dumps\<close> with sorted
  keys, compact separators and no ASCII escaping, which the digests are taken of, and
  \<^verbatim>\<open>json.loads\<close>, which reads the protocol lines. Texts are over the first 256
  code points, so an escape beyond them is refused here; the recursion limit of the
  interpreter and the non-finite floats are outside the model. The theorem at the end: a
  written value is read back, whatever follows it, so equal texts are equal values.
\<close>

section \<open>Writing\<close>

definition hex_digit :: "nat \<Rightarrow> char" where
  "hex_digit n = (if n < 10 then char_of (48 + n) else char_of (87 + n))"

definition json_char :: "char \<Rightarrow> string" where
  "json_char c = (if c = CHR 0x22 then [CHR 0x5C, CHR 0x22]
     else if c = CHR 0x5C then [CHR 0x5C, CHR 0x5C]
     else if c = CHR 0x0A then [CHR 0x5C, CHR ''n'']
     else if c = CHR 0x0D then [CHR 0x5C, CHR ''r'']
     else if c = CHR 0x09 then [CHR 0x5C, CHR ''t'']
     else if c = CHR 0x08 then [CHR 0x5C, CHR ''b'']
     else if c = CHR 0x0C then [CHR 0x5C, CHR ''f'']
     else if (of_char c :: nat) < 32 then [CHR 0x5C, CHR ''u'', CHR ''0'', CHR ''0'',
       hex_digit (of_char c div 16), hex_digit (of_char c mod 16)]
     else [c])"

definition json_string :: "string \<Rightarrow> string" where
  "json_string s = CHR 0x22 # concat (map json_char s) @ [CHR 0x22]"

text \<open>The text of a float is the argument \<open>fl\<close>: a plan holds no float.\<close>

fun json_text :: "(rat \<Rightarrow> string) \<Rightarrow> pyval \<Rightarrow> string" where
  "json_text fl PNone = ''null''"
| "json_text fl (PBool b) = (if b then ''true'' else ''false'')"
| "json_text fl (PInt n) = dec_int n"
| "json_text fl (PFloat q) = fl q"
| "json_text fl (PStr s) = json_string s"
| "json_text fl (PList xs) = CHR ''['' # join '','' (map (json_text fl) xs) @ '']''"
| "json_text fl (PDict d) = CHR ''{'' # join '','' (map (\<lambda>(k, t). json_string k @ '':'' @ t)
     (sort_key fst (map (\<lambda>(k, v). (k, json_text fl v)) d))) @ ''}''"

section \<open>Reading\<close>

definition is_ws :: "char \<Rightarrow> bool" where
  "is_ws c \<longleftrightarrow> c = CHR '' '' \<or> c = CHR 0x09 \<or> c = CHR 0x0A \<or> c = CHR 0x0D"

definition skip_ws :: "string \<Rightarrow> string" where
  "skip_ws s = dropWhile is_ws s"

definition hex_val :: "char \<Rightarrow> nat option" where
  "hex_val c = (let n = of_char c :: nat in
     if 48 \<le> n \<and> n \<le> 57 then Some (n - 48)
     else if 97 \<le> n \<and> n \<le> 102 then Some (n - 87)
     else if 65 \<le> n \<and> n \<le> 70 then Some (n - 55) else None)"

definition simple_escape :: "char \<Rightarrow> char option" where
  "simple_escape c = map_of [(CHR 0x22, CHR 0x22), (CHR 0x5C, CHR 0x5C), (CHR ''/'', CHR ''/''),
     (CHR ''b'', CHR 0x08), (CHR ''f'', CHR 0x0C), (CHR ''n'', CHR 0x0A), (CHR ''r'', CHR 0x0D),
     (CHR ''t'', CHR 0x09)] c"

text \<open>The rest of a string after its opening quote.\<close>

fun string_tail :: "string \<Rightarrow> (string \<times> string) option" where
  "string_tail [] = None"
| "string_tail (c # cs) =
     (if c = CHR 0x22 then Some ([], cs)
      else if c = CHR 0x5C then
        (case cs of
           e # r \<Rightarrow>
             (case simple_escape e of
                Some d \<Rightarrow> map_option (\<lambda>(s, t). (d # s, t)) (string_tail r)
              | None \<Rightarrow>
                  (case r of
                     h1 # h2 # h3 # h4 # r' \<Rightarrow>
                       (case (e = CHR ''u'', hex_val h1, hex_val h2, hex_val h3, hex_val h4) of
                          (True, Some 0, Some 0, Some a, Some b) \<Rightarrow>
                            map_option (\<lambda>(s, t). (char_of (16 * a + b) # s, t)) (string_tail r')
                        | _ \<Rightarrow> None)
                   | _ \<Rightarrow> None))
         | [] \<Rightarrow> None)
      else if (of_char c :: nat) < 32 then None
      else map_option (\<lambda>(s, t). (c # s, t)) (string_tail cs))"

definition fraction_part :: "string \<Rightarrow> string \<times> string" where
  "fraction_part s = (if s \<noteq> [] \<and> hd s = CHR ''.'' \<and> takeWhile is_digit (tl s) \<noteq> []
     then (takeWhile is_digit (tl s), dropWhile is_digit (tl s)) else ([], s))"

definition exponent_part :: "string \<Rightarrow> int option \<times> string" where
  "exponent_part s =
     (if s \<noteq> [] \<and> (hd s = CHR ''e'' \<or> hd s = CHR ''E'') then
        let sign = (if tl s \<noteq> [] \<and> hd (tl s) = CHR ''-'' then - 1 else 1 :: int);
            r = (if tl s \<noteq> [] \<and> (hd (tl s) = CHR ''-'' \<or> hd (tl s) = CHR ''+'') then tl (tl s) else tl s);
            ds = takeWhile is_digit r
        in if ds = [] then (None, s) else (Some (sign * int (undec ds 0)), dropWhile is_digit r)
      else (None, s))"

definition ten_power :: "int \<Rightarrow> rat" where
  "ten_power e = (if 0 \<le> e then 10 ^ nat e else 1 / 10 ^ nat (- e))"

definition int_part :: "string \<Rightarrow> string" where
  "int_part t = (if t \<noteq> [] \<and> hd t = CHR ''0'' then [CHR ''0''] else takeWhile is_digit t)"

definition read_unsigned :: "int \<Rightarrow> string \<Rightarrow> (pyval \<times> string) option" where
  "read_unsigned sign t =
     (let ds = int_part t in
      if ds = [] then None
      else
        let (fs, r) = fraction_part (drop (length ds) t);
            (e, r') = exponent_part r
        in if fs = [] \<and> e = None then Some (PInt (sign * int (undec ds 0)), r')
           else Some (PFloat (of_int sign * (of_nat (undec (ds @ fs) 0) / 10 ^ length fs)
             * ten_power (case e of None \<Rightarrow> 0 | Some k \<Rightarrow> k)), r'))"

definition read_number :: "string \<Rightarrow> (pyval \<times> string) option" where
  "read_number s = (if s \<noteq> [] \<and> hd s = CHR ''-'' then read_unsigned (- 1) (tl s)
     else read_unsigned 1 s)"

definition expect :: "char \<Rightarrow> string \<Rightarrow> string option" where
  "expect c s = (case s of [] \<Rightarrow> None | d # r \<Rightarrow> if d = c then Some r else None)"

definition word :: "string \<Rightarrow> pyval \<Rightarrow> string \<Rightarrow> (pyval \<times> string) option" where
  "word w v s = (if take (length w) s = w then Some (v, drop (length w) s) else None)"

text \<open>The first argument bounds the depth and the number of members; the text's length is enough.\<close>

fun read_value :: "nat \<Rightarrow> string \<Rightarrow> (pyval \<times> string) option"
  and read_items :: "nat \<Rightarrow> string \<Rightarrow> (pyval list \<times> string) option"
  and read_members :: "nat \<Rightarrow> string \<Rightarrow> ((string \<times> pyval) list \<times> string) option"
where
  "read_value 0 s = None"
| "read_value (Suc n) s =
     (case s of
        [] \<Rightarrow> None
      | c # cs \<Rightarrow>
          if c = CHR 0x22 then map_option (\<lambda>(t, r). (PStr t, r)) (string_tail cs)
          else if c = CHR ''{'' then
            (case expect (CHR ''}'') (skip_ws cs) of
               Some r \<Rightarrow> Some (PDict [], r)
             | None \<Rightarrow> map_option (\<lambda>(kvs, r). (PDict (dict_of kvs), r)) (read_members n (skip_ws cs)))
          else if c = CHR ''['' then
            (case expect (CHR '']'') (skip_ws cs) of
               Some r \<Rightarrow> Some (PList [], r)
             | None \<Rightarrow> map_option (\<lambda>(vs, r). (PList vs, r)) (read_items n (skip_ws cs)))
          else if c = CHR ''n'' then word ''null'' PNone s
          else if c = CHR ''t'' then word ''true'' (PBool True) s
          else if c = CHR ''f'' then word ''false'' (PBool False) s
          else read_number s)"
| "read_items 0 s = None"
| "read_items (Suc n) s =
     Option.bind (read_value n s) (\<lambda>(v, r).
     case expect (CHR '']'') (skip_ws r) of
       Some r' \<Rightarrow> Some ([v], r')
     | None \<Rightarrow>
         Option.bind (expect (CHR '','') (skip_ws r)) (\<lambda>r'.
         map_option (\<lambda>(vs, q). (v # vs, q)) (read_items n (skip_ws r'))))"
| "read_members 0 s = None"
| "read_members (Suc n) s =
     Option.bind (expect (CHR 0x22) s) (\<lambda>q.
     Option.bind (string_tail q) (\<lambda>(k, r).
     Option.bind (expect (CHR '':'') (skip_ws r)) (\<lambda>r'.
     Option.bind (read_value n (skip_ws r')) (\<lambda>(v, t).
     case expect (CHR ''}'') (skip_ws t) of
       Some t' \<Rightarrow> Some ([(k, v)], t')
     | None \<Rightarrow>
         Option.bind (expect (CHR '','') (skip_ws t)) (\<lambda>t'.
         map_option (\<lambda>(kvs, q). ((k, v) # kvs, q)) (read_members n (skip_ws t')))))))"

definition json_loads :: "string \<Rightarrow> pyval option" where
  "json_loads s = (case read_value (2 * length s + 2) (skip_ws s) of
     Some (v, r) \<Rightarrow> if skip_ws r = [] then Some v else None
   | None \<Rightarrow> None)"

section \<open>Written values are read back\<close>

text \<open>
  The value a text stands for: the same value with the keys of every dictionary sorted.
  Dictionaries have distinct keys, and no float is written.
\<close>

fun canon :: "pyval \<Rightarrow> pyval" where
  "canon (PList xs) = PList (map canon xs)"
| "canon (PDict d) = PDict (sort_key fst (map (\<lambda>(k, v). (k, canon v)) d))"
| "canon v = v"

fun json_ok :: "pyval \<Rightarrow> bool" where
  "json_ok (PFloat q) = False"
| "json_ok (PList xs) = (\<forall>x \<in> set xs. json_ok x)"
| "json_ok (PDict d) = (distinct (keys d) \<and> (\<forall>(k, v) \<in> set d. json_ok v))"
| "json_ok v = True"

fun need :: "pyval \<Rightarrow> nat" where
  "need (PList xs) = 1 + sum_list (map (\<lambda>x. need x + 1) xs)"
| "need (PDict d) = 1 + sum_list (map (\<lambda>(k, v). need v + 1) d)"
| "need v = 1"

definition ends :: "string \<Rightarrow> bool" where
  "ends rest \<longleftrightarrow> rest = [] \<or> hd rest \<in> {CHR '','', CHR '']'', CHR ''}''}"

lemma hex_val_digit: "n < 16 \<Longrightarrow> hex_val (hex_digit n) = Some n"
  by (auto simp: hex_val_def hex_digit_def Let_def)

lemma simple_escape_u: "simple_escape (CHR ''u'') = None"
  by (simp add: simple_escape_def)

lemma hex_val_0: "hex_val (CHR ''0'') = Some 0"
  by (simp add: hex_val_def)

lemma string_tail_control:
  assumes "(of_char c :: nat) < 32"
  shows "string_tail ([CHR 0x5C, CHR ''u'', CHR ''0'', CHR ''0'',
       hex_digit (of_char c div 16), hex_digit (of_char c mod 16)] @ r)
    = map_option (\<lambda>(s, t). (c # s, t)) (string_tail r)"
proof -
  have "(of_char c :: nat) div 16 < 16" "(of_char c :: nat) mod 16 < 16" using assms by simp_all
  note h = hex_val_digit [OF this(1)] hex_val_digit [OF this(2)]
  have again: "char_of (16 * ((of_char c :: nat) div 16) + of_char c mod 16) = c"
    by (simp only: mult_div_mod_eq char_of_char)
  show ?thesis
    by (simp only: string_tail.simps append.simps list.case simple_escape_u hex_val_0 h again
        option.case prod.case) simp
qed

lemma string_tail_escape:
  "simple_escape e = Some d \<Longrightarrow>
   string_tail (CHR 0x5C # e # r) = map_option (\<lambda>(s, t). (d # s, t)) (string_tail r)"
  by (subst string_tail.simps(2)) (simp del: string_tail.simps)

definition escaped :: "(char \<times> char) list" where
  "escaped = [(CHR 0x22, CHR 0x22), (CHR 0x5C, CHR 0x5C), (CHR 0x0A, CHR ''n''),
    (CHR 0x0D, CHR ''r''), (CHR 0x09, CHR ''t''), (CHR 0x08, CHR ''b''), (CHR 0x0C, CHR ''f'')]"

lemma escaped_pair: "(c, e) \<in> set escaped \<Longrightarrow> simple_escape e = Some c \<and> json_char c = [CHR 0x5C, e]"
  unfolding escaped_def list.set insert_iff prod.inject
  by (elim disjE conjE emptyE) (simp_all add: simple_escape_def json_char_def)

lemma not_escaped:
  "c \<notin> fst ` set escaped \<Longrightarrow> c \<notin> {CHR 0x22, CHR 0x5C, CHR 0x0A, CHR 0x0D, CHR 0x09, CHR 0x08, CHR 0x0C}"
  by (simp add: escaped_def)

lemma string_tail_char:
  "string_tail (json_char c @ r) = map_option (\<lambda>(s, t). (c # s, t)) (string_tail r)"
proof (cases "c \<in> fst ` set escaped")
  case True
  then obtain e where "(c, e) \<in> set escaped" by force
  then have "simple_escape e = Some c" "json_char c = [CHR 0x5C, e]" using escaped_pair by simp_all
  then show ?thesis using string_tail_escape by simp
next
  case False
  note c = not_escaped [OF False]
  show ?thesis
  proof (cases "(of_char c :: nat) < 32")
    case True
    then show ?thesis using c string_tail_control by (simp add: json_char_def del: string_tail.simps)
  next
    case False
    then show ?thesis using c by (simp add: json_char_def)
  qed
qed

lemma string_tail_json [simp]: "string_tail (concat (map json_char s) @ CHR 0x22 # rest) = Some (s, rest)"
  by (induction s) (simp_all add: string_tail_char del: string_tail.simps(2), simp)

lemma dec_nat_digits: "dec_nat n \<noteq> [] \<and> (\<forall>c \<in> set (dec_nat n). is_digit c)
    \<and> (hd (dec_nat n) = CHR ''0'' \<longrightarrow> n = 0)"
proof (induction n rule: dec_nat.induct)
  case (1 n)
  have digit: "d < 10 \<Longrightarrow> is_digit (char_of (48 + d))" for d :: nat
    by (simp add: is_digit_def)
  have zero: "d < 10 \<Longrightarrow> char_of (48 + d) = CHR ''0'' \<Longrightarrow> d = 0" for d :: nat
  proof -
    assume "d < 10" "char_of (48 + d) = CHR ''0''"
    then have "of_char (char_of (48 + d) :: char) = (48 :: nat)" by simp
    then show "d = 0" using \<open>d < 10\<close> by simp
  qed
  show ?case
  proof (cases "n < 10")
    case True
    then have "dec_nat n = [char_of (48 + n)]" by (simp add: dec_nat.simps)
    then show ?thesis using True digit zero by simp
  next
    case False
    then have "dec_nat n = dec_nat (n div 10) @ [char_of (48 + n mod 10)]"
      by (simp add: dec_nat.simps [of n])
    then show ?thesis using False "1.IH" digit [of "n mod 10"] by auto
  qed
qed

lemma takeWhile_all_append: "(\<forall>c \<in> set ds. P c) \<Longrightarrow> r = [] \<or> \<not> P (hd r) \<Longrightarrow> takeWhile P (ds @ r) = ds"
  by (cases r) (auto simp: takeWhile_append2 [of ds P])

lemma ends_not_number:
  assumes "ends r"
  shows "r = [] \<or> \<not> is_digit (hd r)" "fraction_part r = ([], r)" "exponent_part r = (None, r)"
  using assms by (auto simp: ends_def is_digit_def fraction_part_def exponent_part_def)

lemma int_part_dec:
  assumes "ends r"
  shows "int_part (dec_nat n @ r) = dec_nat n"
proof (cases "hd (dec_nat n) = CHR ''0''")
  case True
  then have "dec_nat n = [CHR ''0'']" using dec_nat_digits [of n] by (simp add: dec_nat.simps)
  then show ?thesis by (simp add: int_part_def)
next
  case False
  have "takeWhile is_digit (dec_nat n @ r) = dec_nat n"
    using dec_nat_digits [of n] ends_not_number(1) [OF assms] by (intro takeWhile_all_append) auto
  with False show ?thesis using dec_nat_digits [of n] by (simp add: int_part_def)
qed

lemma read_unsigned_dec:
  "ends r \<Longrightarrow> read_unsigned sign (dec_nat n @ r) = Some (PInt (sign * int n), r)"
  using dec_nat_digits [of n]
  by (simp add: read_unsigned_def int_part_dec ends_not_number)

lemma read_digits:
  assumes "ends r"
  shows "read_number (dec_nat n @ r) = Some (PInt (int n), r)"
    and "read_number (CHR ''-'' # dec_nat n @ r) = Some (PInt (- int n), r)"
proof -
  have "is_digit (hd (dec_nat n))" "dec_nat n \<noteq> []" using dec_nat_digits [of n] by simp_all
  then have "hd (dec_nat n @ r) \<noteq> CHR ''-''" by (auto simp: is_digit_def)
  then show "read_number (dec_nat n @ r) = Some (PInt (int n), r)"
    using read_unsigned_dec [OF assms] by (simp add: read_number_def)
  show "read_number (CHR ''-'' # dec_nat n @ r) = Some (PInt (- int n), r)"
    using read_unsigned_dec [OF assms] by (simp add: read_number_def)
qed

lemma read_int: "ends r \<Longrightarrow> read_number (dec_int n @ r) = Some (PInt n, r)"
  using read_digits [of r "nat n"] read_digits [of r "nat (- n)"] by (simp add: dec_int_def)

lemma dec_int_start: "dec_int n \<noteq> []" "is_digit (hd (dec_int n)) \<or> hd (dec_int n) = CHR ''-''"
proof -
  have "dec_nat m \<noteq> []" "is_digit (hd (dec_nat m))" for m using dec_nat_digits [of m] by simp_all
  then show "dec_int n \<noteq> []" "is_digit (hd (dec_int n)) \<or> hd (dec_int n) = CHR ''-''"
    by (simp_all add: dec_int_def)
qed

lemma ends_simps [simp]:
  "ends []" "ends (CHR '','' # r)" "ends (CHR '']'' # r)" "ends (CHR ''}'' # r)"
  by (simp_all add: ends_def)

lemma skip_ws_char [simp]: "\<not> is_ws c \<Longrightarrow> skip_ws (c # r) = c # r"
  by (simp add: skip_ws_def)

lemma not_ws [simp]: "\<not> is_ws (CHR '','')" "\<not> is_ws (CHR '']'')" "\<not> is_ws (CHR ''}'')"
  "\<not> is_ws (CHR '':'')" "\<not> is_ws (CHR 0x22)" "\<not> is_ws (CHR ''['')" "\<not> is_ws (CHR ''{'')"
  "\<not> is_ws (CHR ''n'')" "\<not> is_ws (CHR ''t'')" "\<not> is_ws (CHR ''f'')" "\<not> is_ws (CHR ''-'')"
  by (simp_all add: is_ws_def)

lemma digit_not_ws: "is_digit c \<Longrightarrow> \<not> is_ws c"
  by (auto simp: is_digit_def is_ws_def)

lemma skip_ws_json [simp]: "json_ok v \<Longrightarrow> skip_ws (json_text fl v @ r) = json_text fl v @ r"
proof (cases v)
  case (PInt n)
  obtain c cs where "dec_int n = c # cs" "is_digit c \<or> c = CHR ''-''"
    using dec_int_start [of n] by (cases "dec_int n") auto
  with PInt show ?thesis using digit_not_ws by auto
qed (auto simp: json_string_def)

lemma expect_first: "json_ok v \<Longrightarrow> c \<in> {CHR '']'', CHR ''}''} \<Longrightarrow> expect c (json_text fl v @ r) = None"
proof (cases v)
  case (PInt n)
  assume c: "c \<in> {CHR '']'', CHR ''}''}"
  obtain d ds where "dec_int n = d # ds" "is_digit d \<or> d = CHR ''-''"
    using dec_int_start [of n] by (cases "dec_int n") auto
  with PInt c show ?thesis by (auto simp: expect_def is_digit_def)
qed (auto simp: json_string_def expect_def)

lemma expect_same [simp]: "expect c (c # r) = Some r"
  by (simp add: expect_def)

lemma expect_other [simp]: "c \<noteq> d \<Longrightarrow> expect c (d # r) = None"
  by (simp add: expect_def)

lemma insort_key_map:
  "(\<And>y. fst (h y) = fst y) \<Longrightarrow> insort_key fst (h x) (map h ys) = map h (insort_key fst x ys)"
  by (induction ys) (auto simp del: split_paired_All)

lemma sort_key_map:
  assumes "\<And>y. fst (h y) = fst y"
  shows "sort_key fst (map h d) = map h (sort_key fst d)"
  by (induction d) (simp_all add: insort_key_map [of h, OF assms])

lemma sum_list_sort_key: "sum_list (map f (sort_key g d)) = sum_list (map (f :: 'a \<Rightarrow> nat) d)"
proof -
  have "sum_list (map f (insort_key g x ys)) = f x + sum_list (map f ys)" for x ys
    by (induction ys) auto
  then show ?thesis by (induction d) simp_all
qed

lemma distinct_keys_sort: "distinct (map fst (sort_key f d)) \<longleftrightarrow> distinct (map fst d)"
  by (simp add: distinct_map)

lemma length_join: "length (join [c] ts) + 1 \<ge> sum_list (map (\<lambda>t. length t + 1) ts)"
  by (cases ts) (simp_all add: join_def length_concat comp_def)

lemma read_items_json:
  assumes "xs \<noteq> []" "\<forall>x \<in> set xs. json_ok x"
    and "\<And>x n r. x \<in> set xs \<Longrightarrow> need x \<le> n \<Longrightarrow> ends r \<Longrightarrow>
      read_value n (json_text fl x @ r) = Some (canon x, r)"
    and "sum_list (map (\<lambda>x. need x + 1) xs) \<le> n"
  shows "read_items n (join '','' (map (json_text fl) xs) @ CHR '']'' # r) = Some (map canon xs, r)"
  using assms
proof (induction xs arbitrary: n)
  case Nil
  then show ?case by simp
next
  case (Cons x xs)
  obtain m where n: "n = Suc m" "need x \<le> m" "sum_list (map (\<lambda>x. need x + 1) xs) \<le> m"
    using Cons.prems(4) by (cases n) auto
  show ?case
  proof (cases xs)
    case Nil
    then show ?thesis using n Cons.prems(3) [of x m] by simp
  next
    case (Cons y ys)
    let ?r = "CHR '','' # join '','' (map (json_text fl) xs) @ CHR '']'' # r"
    have "read_items m (join '','' (map (json_text fl) xs) @ CHR '']'' # r) = Some (map canon xs, r)"
      using Cons.IH Cons.prems n(3) Cons by simp
    moreover have "read_value m (json_text fl x @ ?r) = Some (canon x, ?r)"
      using Cons.prems n(2) by simp
    moreover have "skip_ws (join '','' (map (json_text fl) xs) @ CHR '']'' # r)
      = join '','' (map (json_text fl) xs) @ CHR '']'' # r"
      using Cons Cons.prems(2) by (cases ys) (simp_all add: join_Cons2)
    ultimately show ?thesis using n(1) Cons by (simp add: join_Cons2)
  qed
qed


abbreviation member_text :: "(rat \<Rightarrow> string) \<Rightarrow> string \<times> pyval \<Rightarrow> string" where
  "member_text fl kv \<equiv> json_string (fst kv) @ '':'' @ json_text fl (snd kv)"

lemma read_members_json:
  assumes "d \<noteq> []" "\<forall>kv \<in> set d. json_ok (snd kv)"
    and "\<And>kv n r. kv \<in> set d \<Longrightarrow> need (snd kv) \<le> n \<Longrightarrow> ends r \<Longrightarrow>
      read_value n (json_text fl (snd kv) @ r) = Some (canon (snd kv), r)"
    and "sum_list (map (\<lambda>kv. need (snd kv) + 1) d) \<le> n"
  shows "read_members n (join '','' (map (member_text fl) d) @ CHR ''}'' # r)
    = Some (map (\<lambda>kv. (fst kv, canon (snd kv))) d, r)"
  using assms
proof (induction d arbitrary: n)
  case Nil
  then show ?case by simp
next
  case (Cons kv d)
  obtain m where n: "n = Suc m" "need (snd kv) \<le> m" "sum_list (map (\<lambda>kv. need (snd kv) + 1) d) \<le> m"
    using Cons.prems(4) by (cases n) auto
  have v: "read_value m (json_text fl (snd kv) @ t) = Some (canon (snd kv), t)" if "ends t" for t
    using Cons.prems(3) n(2) that by simp
  have ok: "json_ok (snd kv)" using Cons.prems(2) by simp
  show ?case
  proof (cases d)
    case Nil
    then show ?thesis using n v ok by (simp add: json_string_def)
  next
    case (Cons e es)
    let ?rest = "join '','' (map (member_text fl) d) @ CHR ''}'' # r"
    have "read_members m ?rest = Some (map (\<lambda>kv. (fst kv, canon (snd kv))) d, r)"
      using Cons.IH Cons.prems n(3) Cons by simp
    moreover have "skip_ws ?rest = ?rest"
      using Cons by (cases es) (simp_all add: join_Cons2 json_string_def)
    ultimately show ?thesis using n(1) v ok Cons by (simp add: join_Cons2 json_string_def)
  qed
qed

lemma read_value_json:
  "json_ok v \<Longrightarrow> need v \<le> n \<Longrightarrow> ends r \<Longrightarrow> read_value n (json_text fl v @ r) = Some (canon v, r)"
proof (induction v arbitrary: n r)
  case (PInt k)
  then obtain m where m: "n = Suc m" by (cases n) auto
  obtain c cs where c: "dec_int k = c # cs" "is_digit c \<or> c = CHR ''-''"
    using dec_int_start [of k] by (cases "dec_int k") auto
  have "c \<notin> {CHR 0x22, CHR ''{'', CHR ''['', CHR ''n'', CHR ''t'', CHR ''f''}"
    using c(2) by (auto simp: is_digit_def)
  then have "read_value n (dec_int k @ r) = read_number (dec_int k @ r)"
    using c(1) m by simp
  then show ?case using read_int [OF PInt.prems(3)] by simp
next
  case (PList xs)
  then obtain m where m: "n = Suc m" "sum_list (map (\<lambda>x. need x + 1) xs) \<le> m" by (cases n) auto
  show ?case
  proof (cases xs)
    case Nil
    then show ?thesis using m by simp
  next
    case (Cons x ys)
    let ?items = "join '','' (map (json_text fl) xs) @ CHR '']'' # r"
    have "json_ok x" using Cons PList.prems(1) by simp
    moreover have "\<exists>t. ?items = json_text fl x @ t" using Cons by (cases ys) (auto simp: join_Cons2)
    ultimately have "skip_ws ?items = ?items" "expect (CHR '']'') ?items = None"
      using expect_first [of x "CHR '']''"] by auto
    moreover have "read_items m ?items = Some (map canon xs, r)"
      using PList Cons m(2) by (intro read_items_json) auto
    ultimately show ?thesis using m(1) by simp
  qed
next
  case (PDict d)
  let ?d = "sort_key fst d"
  have set: "set ?d = set d" by simp
  obtain m where m: "n = Suc m" "sum_list (map (\<lambda>(k, v). need v + 1) d) \<le> m"
    using PDict.prems(2) by (cases n) auto
  have "sum_list (map (\<lambda>kv. need (snd kv) + 1) ?d) = sum_list (map (\<lambda>(k, v). need v + 1) d)"
    by (simp add: sum_list_sort_key case_prod_unfold)
  with m(2) have fuel: "sum_list (map (\<lambda>kv. need (snd kv) + 1) ?d) \<le> m" by simp
  have written: "json_text fl (PDict d) = CHR ''{'' # join '','' (map (member_text fl) ?d) @ ''}''"
  proof -
    have "sort_key fst (map (\<lambda>(k, v). (k, json_text fl v)) d) = map (\<lambda>(k, v). (k, json_text fl v)) ?d"
      by (rule sort_key_map) (simp add: split_beta)
    then show ?thesis by (simp add: split_beta comp_def)
  qed
  have can: "canon (PDict d) = PDict (map (\<lambda>kv. (fst kv, canon (snd kv))) ?d)"
    using sort_key_map [of "\<lambda>(k, v). (k, canon v)" d] by (simp add: split_beta)
  have keys: "distinct (map fst ?d)"
    using PDict.prems(1) by (simp add: distinct_keys_sort)
  show ?case
  proof (cases ?d)
    case Nil
    then show ?thesis using m written can by simp
  next
    case (Cons kv es)
    let ?members = "join '','' (map (member_text fl) ?d) @ CHR ''}'' # r"
    have "\<exists>t. ?members = CHR 0x22 # t" using Cons by (cases es) (auto simp: join_Cons2 json_string_def)
    then have "skip_ws ?members = ?members" "expect (CHR ''}'') ?members = None" by auto
    moreover have "read_members m ?members = Some (map (\<lambda>kv. (fst kv, canon (snd kv))) ?d, r)"
    proof (rule read_members_json)
      show "?d \<noteq> []" using Cons by simp
      show "\<forall>kv \<in> set ?d. json_ok (snd kv)" using PDict.prems(1) by auto
      show "sum_list (map (\<lambda>kv. need (snd kv) + 1) ?d) \<le> m" by (rule fuel)
      show "read_value n (json_text fl (snd kv) @ r) = Some (canon (snd kv), r)"
        if kv: "kv \<in> set ?d" "need (snd kv) \<le> n" "ends r" for kv n r
      proof -
        obtain k v where e: "kv = (k, v)" by (cases kv)
        have "(k, v) \<in> set d" using kv(1) e set by blast
        then show ?thesis using PDict.IH [of "(k, v)" v n r] PDict.prems(1) kv(2,3) e by auto
      qed
    qed
    ultimately show ?thesis using m(1) written can keys by (simp add: comp_def)
  qed
qed (auto simp: json_string_def word_def Suc_le_eq gr0_conv_Suc)


lemma need_length: "json_ok v \<Longrightarrow> need v \<le> 2 * length (json_text fl v)"
proof (induction v)
  case (PInt n)
  then show ?case using dec_int_start(1) [of n] by (cases "dec_int n") auto
next
  case (PList xs)
  have "sum_list (map (\<lambda>x. need x + 1) xs) \<le> sum_list (map (\<lambda>x. 2 * (length (json_text fl x) + 1)) xs)"
    using PList by (intro sum_list_mono) force
  also have "\<dots> = 2 * sum_list (map (\<lambda>t. length t + 1) (map (json_text fl) xs))"
    by (simp add: comp_def flip: sum_list_const_mult)
  also have "\<dots> \<le> 2 * (length (join '','' (map (json_text fl) xs)) + 1)"
    using length_join by (intro mult_le_mono2)
  finally show ?case by simp
next
  case (PDict d)
  let ?texts = "sort_key fst (map (\<lambda>(k, v). (k, json_text fl v)) d)"
  have "need (snd kv) + 1 \<le> 2 * (length (snd (case kv of (k, v) \<Rightarrow> (k, json_text fl v))) + 1)"
    if "kv \<in> set d" for kv
    using PDict.IH [of kv "snd kv"] PDict.prems that by (cases kv) force
  then have "sum_list (map (\<lambda>(k, v). need v + 1) d)
      \<le> sum_list (map (\<lambda>kv. 2 * (length (snd (case kv of (k, v) \<Rightarrow> (k, json_text fl v))) + 1)) d)"
    by (intro sum_list_mono) (simp add: split_beta)
  also have "\<dots> = 2 * sum_list (map (\<lambda>t. length (snd t) + 1) ?texts)"
    by (simp add: sum_list_sort_key comp_def flip: sum_list_const_mult)
  also have "\<dots> \<le> 2 * sum_list (map (\<lambda>t. length t + 1) (map (\<lambda>(k, t). json_string k @ '':'' @ t) ?texts))"
    by (intro mult_le_mono2) (simp add: comp_def, intro sum_list_mono, simp add: split_beta)
  also have "\<dots> \<le> 2 * (length (join '','' (map (\<lambda>(k, t). json_string k @ '':'' @ t) ?texts)) + 1)"
    using length_join by (intro mult_le_mono2)
  finally show ?case by simp
qed (auto simp: json_string_def)

text \<open>
  A written value is read back: \<^verbatim>\<open>json.loads\<close> of the canonical text of a
  value without floats, whose dictionaries have distinct keys, is the value itself with the
  keys of its dictionaries sorted.
\<close>

lemma json_round_trip:
  assumes "json_ok v"
  shows "json_loads (json_text fl v) = Some (canon v)"
proof -
  have "read_value (2 * length (json_text fl v) + 2) (json_text fl v @ []) = Some (canon v, [])"
    using need_length [OF assms, of fl] by (intro read_value_json [OF assms]) auto
  moreover have "skip_ws (json_text fl v @ []) = json_text fl v @ []" using assms by (rule skip_ws_json)
  ultimately show ?thesis by (simp add: json_loads_def) (simp add: skip_ws_def)
qed


definition sample_value :: pyval where
  "sample_value = PDict [(''b'', PList [PInt (- 12), PNone, PStr [CHR 0x22, CHR 0x0A]]), (''a'', PBool True)]"

lemma json_round_trip_sample:
  "json_loads (json_text (\<lambda>_. []) sample_value)
    = Some (PDict [(''a'', PBool True), (''b'', PList [PInt (- 12), PNone, PStr [CHR 0x22, CHR 0x0A]])])"
  using json_round_trip [of sample_value "\<lambda>_. []"] by (simp add: sample_value_def)

lemma json_text_inj:
  assumes "json_ok v" "json_ok w" "json_text fl v = json_text fl w"
  shows "canon v = canon w"
proof -
  have r: "read_value n (json_text fl u @ []) = Some (canon u, [])" if "json_ok u" "need u \<le> n" for u n
    using that by (rule read_value_json) simp
  have "read_value (max (need v) (need w)) (json_text fl v @ []) = Some (canon v, [])"
    using assms(1) by (intro r) auto
  moreover have "read_value (max (need v) (need w)) (json_text fl v @ []) = Some (canon w, [])"
    unfolding assms(3) using assms(2) by (intro r) auto
  ultimately show ?thesis by simp
qed


section \<open>Faithful encoders\<close>

text \<open>
  What a digest of an encoded value can promise: the encoding can be written, and values
  with the same canonical encoding are the same. Every \<^verbatim>\<open>to_dict\<close> of the plan is
  such an encoder; lists and optional entries of encoded values are handled here once.
\<close>

definition look :: "pyval \<Rightarrow> string \<Rightarrow> pyval option" where
  "look v k = (case canon v of PDict d \<Rightarrow> map_of d k | _ \<Rightarrow> None)"

lemma map_of_sort_key: "distinct (map fst d) \<Longrightarrow> map_of (sort_key fst d) = map_of d"
  by (rule map_of_inject_set [THEN iffD2]) (simp_all add: distinct_keys_sort)

lemma look_PDict: "distinct (keys d) \<Longrightarrow> look (PDict d) k = map_option canon (map_of d k)"
  by (simp add: look_def map_of_sort_key comp_def case_prod_unfold map_of_map)
    (induction d, auto)

lemma map_eq_inj_on: "map f xs = map f ys \<Longrightarrow> inj_on f A \<Longrightarrow> set xs \<subseteq> A \<Longrightarrow> set ys \<subseteq> A \<Longrightarrow> xs = ys"
  by (metis inj_on_map_eq_map inj_on_subset Un_least)

locale faithful_encoder =
  fixes enc :: "'a \<Rightarrow> pyval"
    and wf :: "'a \<Rightarrow> bool"
  assumes writable: "wf x \<Longrightarrow> json_ok (enc x)"
    and canon_inj: "wf x \<Longrightarrow> wf y \<Longrightarrow> canon (enc x) = canon (enc y) \<Longrightarrow> x = y"
begin

lemma text_inj: "wf x \<Longrightarrow> wf y \<Longrightarrow> json_text fl (enc x) = json_text fl (enc y) \<Longrightarrow> x = y"
  using json_text_inj writable canon_inj by blast

lemma list_writable: "\<forall>x \<in> set xs. wf x \<Longrightarrow> json_ok (PList (map enc xs))"
  using writable by simp

lemma list_inj:
  assumes "map (canon \<circ> enc) xs = map (canon \<circ> enc) ys" "\<forall>x \<in> set xs. wf x" "\<forall>x \<in> set ys. wf x"
  shows "xs = ys"
  using assms(1)
  by (rule map_eq_inj_on [where A = "{x. wf x}"])
    (use assms(2,3) canon_inj in \<open>auto intro: inj_onI simp: comp_def\<close>)

end

end
