(* ===== verification/PlanCodec.thy ===== *)
theory PlanCodec
  imports PlanModel Json
begin

text \<open>
  The serialisation of a plan: the \<^verbatim>\<open>to_dict\<close> methods of its parts,
  \<^verbatim>\<open>plan_to_dict\<close> of \<^verbatim>\<open>plan.py\<close>, and the canonical JSON text the
  digests are taken of (\<^verbatim>\<open>json.dumps\<close> with sorted keys, compact separators and no
  ASCII escaping).
\<close>

section \<open>Values\<close>

definition PStrs :: "string list \<Rightarrow> pyval" where
  "PStrs xs = PList (map PStr xs)"

text \<open>
  \<^verbatim>\<open>**({key: value} if present else {})\<close>: a key written only when its value counts
  as true.
\<close>

definition opt_field :: "string \<Rightarrow> string option \<Rightarrow> pyval dict" where
  "opt_field k v = (case v of None \<Rightarrow> [] | Some s \<Rightarrow> if s = [] then [] else [(k, PStr s)])"

definition some_list :: "string \<Rightarrow> pyval list \<Rightarrow> pyval dict" where
  "some_list k xs = (if xs = [] then [] else [(k, PList xs)])"

section \<open>The parts\<close>

definition goal_entry_to_dict :: "goal_entry \<Rightarrow> pyval" where
  "goal_entry_to_dict e = PDict [(''id'', PStr (ge_id e)), (''description'', PStr (ge_description e))]"

definition goal_deliverable_to_dict :: "goal_deliverable \<Rightarrow> pyval" where
  "goal_deliverable_to_dict d = PDict ([(''id'', PStr (gd_id d)),
     (''description'', PStr (gd_description d))] @ opt_field ''path'' (gd_path d))"

definition goal_contract_to_dict :: "goal_contract \<Rightarrow> pyval" where
  "goal_contract_to_dict c = PDict
     [(''required_outcomes'', PList (map goal_entry_to_dict (gc_required_outcomes c))),
      (''deliverables'', PList (map goal_deliverable_to_dict (gc_deliverables c))),
      (''constraints'', PList (map goal_entry_to_dict (gc_constraints c))),
      (''global_acceptance'', PList (map goal_entry_to_dict (gc_global_acceptance c)))]"

definition skill_reference_to_dict :: "skill_reference \<Rightarrow> pyval" where
  "skill_reference_to_dict r = PDict [(''id'', PStr (sr_id r)), (''version'', PStr (sr_version r))]"

definition skill_check_to_dict :: "skill_check \<Rightarrow> pyval" where
  "skill_check_to_dict c = PDict [(''id'', PStr (sc_id c)), (''description'', PStr (sc_description c)),
     (''argv'', PStrs (sc_argv c)), (''expected_exit_code'', PInt (sc_expected_exit_code c))]"

definition promotion_evidence_to_dict :: "promotion_evidence \<Rightarrow> pyval" where
  "promotion_evidence_to_dict e = PDict [(''id'', PStr (pe_id e)), (''kind'', PStr (pe_kind e)),
     (''verified'', PBool (pe_verified e))]"

definition external_source_to_dict :: "external_source \<Rightarrow> pyval" where
  "external_source_to_dict s = PDict ([(''provider'', PStr (es_provider s))]
     @ opt_field ''locator'' (Some (es_locator s)) @ opt_field ''digest'' (Some (es_digest s)))"

definition skill_evidence_requirement_to_dict :: "skill_evidence_requirement \<Rightarrow> pyval" where
  "skill_evidence_requirement_to_dict e =
     PDict [(''role'', PStr (se_role e)), (''kind'', PStr (se_kind e))]"

definition skill_attestation_to_dict :: "skill_attestation \<Rightarrow> pyval" where
  "skill_attestation_to_dict a = PDict ([(''kind'', PStr (sa_kind a)),
     (''skill'', skill_reference_to_dict (sa_skill a))]
     @ some_list ''evidence_roles'' (map PStr (sa_evidence_roles a))
     @ some_list ''promotion_evidence''
         (map skill_evidence_requirement_to_dict (sa_promotion_evidence a)))"

definition skill_pack_to_dict :: "skill_pack \<Rightarrow> pyval" where
  "skill_pack_to_dict s = PDict ([(''id'', PStr (sk_id s)), (''version'', PStr (sk_version s)),
     (''capability'', PStr (sk_capability s)), (''source'', PStr (sk_source s)),
     (''status'', PStr (sk_status s)), (''procedures'', PStrs (sk_procedures s)),
     (''checklists'', PStrs (sk_checklists s)), (''failure_modes'', PStrs (sk_failure_modes s)),
     (''quality_criteria'', PStrs (sk_quality_criteria s)),
     (''required_tools'', PStrs (sk_required_tools s)),
     (''required_mcp_servers'', PStrs (sk_required_mcp_servers s)),
     (''deterministic_checks'', PList (map skill_check_to_dict (sk_deterministic_checks s))),
     (''evidence_roles'', PStrs (sk_evidence_roles s))]
     @ some_list ''conflicts_with'' (map skill_reference_to_dict (sk_conflicts_with s))
     @ some_list ''promotion_evidence'' (map promotion_evidence_to_dict (sk_promotion_evidence s))
     @ some_list ''source_verification_ids'' (map PStr (sk_source_verification_ids s))
     @ some_list ''qualification_verification_ids'' (map PStr (sk_qualification_verification_ids s))
     @ some_list ''external_sources'' (map external_source_to_dict (sk_external_sources s)))"

definition rubric_reference_to_dict :: "rubric_reference \<Rightarrow> pyval" where
  "rubric_reference_to_dict r = PDict [(''record_id'', PStr (rr_record_id r)),
     (''version'', PInt (rr_version r)), (''sha256'', PStr (rr_sha256 r))]"

definition department_contract_to_dict :: "department_contract \<Rightarrow> pyval" where
  "department_contract_to_dict d = PDict ([(''id'', PStr (de_id d)), (''name'', PStr (de_name d)),
     (''lead_role_id'', PStr (de_lead_role_id d))]
     @ (case de_rubric d of None \<Rightarrow> [] | Some r \<Rightarrow> [(''rubric'', rubric_reference_to_dict r)]))"

definition role_profile_to_dict :: "role_profile \<Rightarrow> pyval" where
  "role_profile_to_dict r = PDict ([(''id'', PStr (ro_id r)), (''name'', PStr (ro_name r)),
     (''version'', PStr (ro_version r)), (''responsibilities'', PStrs (ro_responsibilities r))]
     @ some_list ''domain_focus'' (map PStr (ro_domain_focus r))
     @ some_list ''preferred_tools'' (map PStr (ro_preferred_tools r))
     @ some_list ''context_priorities'' (map PStr (ro_context_priorities r))
     @ some_list ''verification_expectations'' (map PStr (ro_verification_expectations r))
     @ some_list ''skill_requirements'' (map skill_reference_to_dict (ro_skill_requirements r)))"

section \<open>Tasks\<close>

definition check_to_dict :: "verification_check \<Rightarrow> pyval" where
  "check_to_dict c = PDict ([(''id'', PStr (vc_id c)), (''kind'', PStr (vc_kind c)),
     (''description'', PStr (vc_description c))]
     @ some_list ''argv'' (map PStr (vc_argv c)) @ opt_field ''path'' (vc_path c)
     @ [(''timeout_seconds'', PInt (vc_timeout_seconds c)),
        (''expected_exit_code'', PInt (vc_expected_exit_code c))])"

definition verification_to_dict :: "verification_policy \<Rightarrow> pyval" where
  "verification_to_dict v = PDict ([(''policy'', PStr (vp_policy v)),
     (''required'', PBool (vp_required v)),
     (''deterministic_checks'', PList (map check_to_dict (vp_deterministic_checks v)))]
     @ opt_field ''verifier_role'' (vp_verifier_role v)
     @ opt_field ''execution_mode'' (vp_execution_mode v)
     @ opt_field ''execution_mode_reason'' (vp_execution_mode_reason v)
     @ opt_field ''reasoning'' (vp_reasoning v)
     @ [(''max_revision_attempts'', PInt (vp_max_revision_attempts v))])"

definition resource_to_dict :: "resource_claim \<Rightarrow> pyval" where
  "resource_to_dict r = PDict ([(''id'', PStr (rc_id r)), (''kind'', PStr (rc_kind r)),
     (''target'', PStr (rc_target r)), (''access'', PStr (rc_access r))]
     @ opt_field ''description'' (rc_description r))"

definition output_to_dict :: "task_output \<Rightarrow> pyval" where
  "output_to_dict u = PDict ([(''id'', PStr (ou_id u)), (''description'', PStr (ou_description u))]
     @ opt_field ''path'' (ou_path u) @ [(''required'', PBool (ou_required u))])"

definition context_to_dict :: "task_context \<Rightarrow> pyval" where
  "context_to_dict c = PDict [(''memory_queries'', PStrs (cx_memory_queries c)),
     (''memory_record_ids'', PStrs (cx_memory_record_ids c)),
     (''dependency_outputs'', PStrs (cx_dependency_outputs c)),
     (''max_memory_records'', PInt (cx_max_memory_records c)),
     (''max_dependency_outputs'', PInt (cx_max_dependency_outputs c))]"

definition task_to_dict :: "task \<Rightarrow> pyval" where
  "task_to_dict t = PDict ([(''id'', PStr (t_id t)), (''title'', PStr (t_title t)),
     (''objective'', PStr (t_objective t)),
     (''definition_of_done'', PStrs (t_definition_of_done t)),
     (''execution_mode'', PStr (t_execution_mode t)),
     (''execution_mode_reason'', PStr (t_execution_mode_reason t))]
     @ opt_field ''reasoning'' (t_reasoning t)
     @ [(''role'', PStr (t_role t)), (''depends_on'', PStrs (t_depends_on t)),
        (''priority'', PInt (t_priority t)),
        (''verification'', verification_to_dict (t_verification t)),
        (''resources'', PList (map resource_to_dict (t_resources t))),
        (''required_capabilities'', PStrs (t_required_capabilities t)),
        (''context'', context_to_dict (t_context t)),
        (''outputs'', PList (map output_to_dict (t_outputs t))), (''tags'', PStrs (t_tags t)),
        (''acceptance_class'', PStr (acceptance_value (t_acceptance_class t)))]
     @ some_list ''loaded_skills'' (map skill_reference_to_dict (t_loaded_skills t))
     @ (case t_skill_attestation t of None \<Rightarrow> []
        | Some a \<Rightarrow> [(''skill_attestation'', skill_attestation_to_dict a)])
     @ some_list ''produces_outcomes'' (map PStr (t_produces_outcomes t)))"

section \<open>The plan\<close>

definition plan_to_dict :: "plan \<Rightarrow> pyval" where
  "plan_to_dict p = PDict ([(''schema_version'', PInt PLAN_SCHEMA_VERSION),
     (''graph_version'', PInt (pl_graph_version p)), (''goal'', PStr (pl_goal p)),
     (''user_request'', PStr (pl_user_request p))]
     @ (case pl_goal_contract p of None \<Rightarrow> []
        | Some c \<Rightarrow> [(''goal_contract'', goal_contract_to_dict c)])
     @ [(''model_strategy'', PStr (pl_model_strategy p)),
        (''execution_strategy'', PStr (pl_execution_strategy p)),
        (''max_parallel_workers'', PInt (pl_max_parallel_workers p)),
        (''computer_use_slots'', PInt (pl_computer_use_slots p)),
        (''roles'', PList (map role_profile_to_dict (pl_roles p)))]
     @ some_list ''skill_packs'' (map skill_pack_to_dict (pl_skill_packs p))
     @ [(''tasks'', PList (map task_to_dict (pl_tasks p)))]
     @ some_list ''departments'' (map department_contract_to_dict (pl_departments p))
     @ (if pl_legacy_serial p then [(''compatibility'',
          PDict [(''migrated_from_schema'', PInt (pl_source_schema_version p)),
            (''legacy_serial'', PBool True)])] else []))"

section \<open>The digest\<close>

text \<open>
  \<^verbatim>\<open>plan_sha256\<close>: the digest of the canonical text; the hash function is an argument.
\<close>

definition plan_text :: "(rat \<Rightarrow> string) \<Rightarrow> plan \<Rightarrow> string" where
  "plan_text fl p = json_text fl (plan_to_dict p)"

definition plan_sha256 :: "(rat \<Rightarrow> string) \<Rightarrow> (string \<Rightarrow> string) \<Rightarrow> plan \<Rightarrow> string" where
  "plan_sha256 fl sha p = sha (plan_text fl p)"

end
