(* ===== verification/PlanVerification.thy ===== *)
theory PlanVerification
  imports PlanCodec PlanGraph
begin

text \<open>
  \<^verbatim>\<open>plan_verification.py\<close>: the gate between a proposed graph and production. The
  deterministic coverage check, the bounded view the verifier sees, the protocol line it
  answers with, the receipt a PASS produces and the check every consumer makes of a stored
  receipt. The float printer \<open>fl\<close> and the hash \<open>sha\<close> are the arguments of
  \<^verbatim>\<open>plan_sha256\<close>.
\<close>

section \<open>Constants and records\<close>

definition PLAN_VERIFIED :: string where "PLAN_VERIFIED = ''PLAN_VERIFIED''"
definition PLAN_PATCH_VERIFICATION :: string where
  "PLAN_PATCH_VERIFICATION = ''PLAN_PATCH_VERIFICATION''"
definition FULL_PLAN_REVALIDATION :: string where
  "FULL_PLAN_REVALIDATION = ''FULL_PLAN_REVALIDATION''"
definition INITIAL_PLAN_VERIFICATION :: string where
  "INITIAL_PLAN_VERIFICATION = ''INITIAL_PLAN_VERIFICATION''"
definition PLAN_VERIFICATION_PREFIX :: string where
  "PLAN_VERIFICATION_PREFIX = ''AUTOPILOT_PLAN_VERIFICATION:''"
definition PLAN_VERIFICATION_ROLE :: string where
  "PLAN_VERIFICATION_ROLE = ''Plan Verification Architect''"
definition PLAN_VERIFICATION_RECEIPT_SCHEMA :: int where
  "PLAN_VERIFICATION_RECEIPT_SCHEMA = 1"
definition DEFAULT_FULL_REVALIDATION_PATCHES :: int where
  "DEFAULT_FULL_REVALIDATION_PATCHES = 3"
definition ISSUE_CATEGORIES :: "string list" where
  "ISSUE_CATEGORIES = [''acceptance_class'', ''coverage'', ''necessity'', ''dependencies'',
     ''dod_sufficiency'', ''integration_completeness'']"

record plan_issue =
  pi_category :: string
  pi_summary :: string
  pi_task_ids :: "string list"
  pi_outcome_ids :: "string list"

record plan_verdict =
  pv_verdict :: string
  pv_issues :: "plan_issue list"

record plan_receipt =
  pr_schema_version :: int
  pr_status :: string
  pr_graph_version :: int
  pr_plan_sha256 :: string
  pr_mode :: string
  pr_verdict :: string
  pr_verifier_role :: string
  pr_verifier_thread_id :: string
  pr_verifier_turn_id :: string
  pr_verified_at :: string
  pr_evidence_ids :: "string list"
  pr_verification_result_id :: "string option"

definition plan_issue_to_dict :: "plan_issue \<Rightarrow> pyval" where
  "plan_issue_to_dict i = PDict [(''category'', PStr (pi_category i)),
     (''summary'', PStr (pi_summary i)), (''task_ids'', PStrs (pi_task_ids i)),
     (''outcome_ids'', PStrs (pi_outcome_ids i))]"

definition plan_verdict_to_dict :: "plan_verdict \<Rightarrow> pyval" where
  "plan_verdict_to_dict v = PDict [(''verdict'', PStr (pv_verdict v)),
     (''issues'', PList (map plan_issue_to_dict (pv_issues v)))]"

definition plan_receipt_to_dict :: "plan_receipt \<Rightarrow> pyval dict" where
  "plan_receipt_to_dict r = [(''schema_version'', PInt (pr_schema_version r)),
     (''status'', PStr (pr_status r)), (''graph_version'', PInt (pr_graph_version r)),
     (''plan_sha256'', PStr (pr_plan_sha256 r)), (''mode'', PStr (pr_mode r)),
     (''verdict'', PStr (pr_verdict r)), (''verifier_role'', PStr (pr_verifier_role r)),
     (''verifier_thread_id'', PStr (pr_verifier_thread_id r)),
     (''verifier_turn_id'', PStr (pr_verifier_turn_id r)),
     (''verified_at'', PStr (pr_verified_at r)), (''evidence_ids'', PStrs (pr_evidence_ids r))]
     @ opt_field ''verification_result_id'' (pr_verification_result_id r)"

section \<open>Field readers\<close>

definition required_text :: "pyval \<Rightarrow> string \<Rightarrow> nat \<Rightarrow> string result" where
  "required_text v name maximum = (case v of
     PStr s \<Rightarrow>
       if strip s = [] then Inl (PlanVerificationError ''must be a non-empty string'' [name])
       else if length (strip s) > maximum then
         Inl (PlanVerificationError ''exceeds the maximum length'' [name])
       else Inr (strip s)
   | _ \<Rightarrow> Inl (PlanVerificationError ''must be a non-empty string'' [name]))"

definition positive_integer :: "pyval \<Rightarrow> string \<Rightarrow> int result" where
  "positive_integer v name = (case v of
     PInt n \<Rightarrow> if n < 1 then Inl (PlanVerificationError ''must be a positive integer'' [name]) else Inr n
   | _ \<Rightarrow> Inl (PlanVerificationError ''must be a positive integer'' [name]))"

fun nonblank :: "pyval \<Rightarrow> bool" where
  "nonblank (PStr s) = (strip s \<noteq> [])"
| "nonblank v = False"

fun text_value :: "pyval \<Rightarrow> string" where
  "text_value (PStr s) = s"
| "text_value v = []"

definition string_array :: "pyval \<Rightarrow> string \<Rightarrow> string list result" where
  "string_array v name = (case v of
     PList xs \<Rightarrow>
       if \<not> list_all nonblank xs then
         Inl (PlanVerificationError ''must be an array of non-empty strings'' [name])
       else
         let res = map (strip \<circ> text_value) xs in
         if \<not> distinct res then Inl (PlanVerificationError ''must not contain duplicates'' [name])
         else Inr res
   | _ \<Rightarrow> Inl (PlanVerificationError ''must be an array of non-empty strings'' [name]))"

definition identifier_array :: "pyval \<Rightarrow> string \<Rightarrow> string list result" where
  "identifier_array v name = bindE (string_array v name) (\<lambda>xs.
     if list_ex (\<lambda>x. \<not> is_identifier x) xs
     then Inl (PlanVerificationError ''contains an invalid identifier'' [name]) else Inr xs)"

section \<open>Coverage\<close>

definition producers :: "task list \<Rightarrow> string \<Rightarrow> string list" where
  "producers ts oc = concat (map (\<lambda>t. map (\<lambda>_. t_id t) (filter (\<lambda>x. x = oc) (t_produces_outcomes t))) ts)"

definition coverage_issues :: "goal_contract \<Rightarrow> task list \<Rightarrow> plan_issue list" where
  "coverage_issues c ts =
     map (\<lambda>oc. \<lparr>pi_category = ''coverage'',
         pi_summary = ''Required Goal Contract outcome '' @ [CHR 0x27] @ oc @ [CHR 0x27] @ '' has no producer.'',
         pi_task_ids = [], pi_outcome_ids = [oc]\<rparr>)
       (filter (\<lambda>oc. producers ts oc = []) (sorted_set (outcome_ids c)))"

definition deterministic_plan_issues :: "plan \<Rightarrow> plan_issue list" where
  "deterministic_plan_issues p = (case pl_goal_contract p of
     None \<Rightarrow> [] | Some c \<Rightarrow> coverage_issues c (pl_tasks p))"

definition require_deterministic_plan_admission :: "plan \<Rightarrow> unit result" where
  "require_deterministic_plan_admission p =
     (if deterministic_plan_issues p \<noteq> []
      then Inl (PlanVerificationError ''issues'' (map pi_summary (deterministic_plan_issues p)))
      else Inr ())"

section \<open>What the verifier sees\<close>

definition admits_semantic_judgment :: "acceptance_class \<Rightarrow> bool" where
  "admits_semantic_judgment a \<longleftrightarrow> a \<in> {MIXED, JUDGMENT}"

definition task_plan_view :: "task \<Rightarrow> pyval" where
  "task_plan_view t = PDict [(''id'', PStr (t_id t)), (''title'', PStr (t_title t)),
     (''objective'', PStr (t_objective t)),
     (''acceptance_class'', PStr (acceptance_value (t_acceptance_class t))),
     (''semantic_judgment_required'', PBool (admits_semantic_judgment (t_acceptance_class t))),
     (''produces_outcomes'', PStrs (t_produces_outcomes t)),
     (''depends_on'', PStrs (t_depends_on t)),
     (''outputs'', PList (map output_to_dict (t_outputs t)))]"

definition constraint_view :: "pyval dict \<Rightarrow> pyval" where
  "constraint_view item = PDict (map (\<lambda>k. (k, get item k))
     (filter (\<lambda>k. get item k \<noteq> PNone) [''id'', ''statement'', ''scope'', ''origin'']))"

definition verifier_payload :: "plan \<Rightarrow> pyval dict list \<Rightarrow> pyval result" where
  "verifier_payload p constraints = (case pl_goal_contract p of
     None \<Rightarrow> Inl (PlanVerificationError
       ''a canonical plan requires a Goal Contract before plan verification'' [])
   | Some c \<Rightarrow> Inr (PDict [(''goal_contract'', goal_contract_to_dict c),
       (''constraints'', PList (map constraint_view constraints)),
       (''proposed_dag'', PList (map task_plan_view (pl_tasks p))),
       (''definition_of_done'', PList (map (\<lambda>t. PDict [(''task_id'', PStr (t_id t)),
          (''criteria'', PStrs (t_definition_of_done t))]) (pl_tasks p)))]))"

section \<open>The protocol line\<close>

definition issue_from_raw :: "pyval \<Rightarrow> plan_issue result" where
  "issue_from_raw raw = (case raw of
     PDict d \<Rightarrow>
       if set (keys d) \<noteq> {''category'', ''summary'', ''task_ids'', ''outcome_ids''} then
         Inl (PlanVerificationError ''must contain exactly the issue fields'' (sorted_set (keys d)))
       else
         bindE (required_text (get d ''category'') ''category'' 64) (\<lambda>category.
         if category \<notin> set ISSUE_CATEGORIES then
           Inl (PlanVerificationError ''unknown issue category'' [category])
         else
           bindE (required_text (get d ''summary'') ''summary'' 2000) (\<lambda>summary.
           bindE (identifier_array (get d ''task_ids'') ''task_ids'') (\<lambda>task_ids.
           bindE (identifier_array (get d ''outcome_ids'') ''outcome_ids'') (\<lambda>outcomes.
           Inr \<lparr>pi_category = category, pi_summary = summary, pi_task_ids = task_ids,
             pi_outcome_ids = outcomes\<rparr>))))
   | _ \<Rightarrow> Inl (PlanVerificationError ''must be an object'' []))"

text \<open>
  \<^verbatim>\<open>str(raw.get("verdict") or "").strip().upper()\<close>, compared with two words: the text
  of a value that is no text is neither.
\<close>

definition verdict_word :: "pyval \<Rightarrow> string" where
  "verdict_word v = upper (strip (text_value v))"

definition verdict_from_raw :: "pyval \<Rightarrow> plan_verdict result" where
  "verdict_from_raw raw = (case raw of
     PDict d \<Rightarrow>
       if set (keys d) \<noteq> {''verdict'', ''issues''} then
         Inl (PlanVerificationError ''plan verification result must contain exactly verdict and issues'' [])
       else let verdict = verdict_word (get d ''verdict'') in
         if verdict \<notin> {''PASS'', ''REVISE''} then
           Inl (PlanVerificationError ''plan verification verdict must be PASS or REVISE'' [])
         else (case get d ''issues'' of
             PList raws \<Rightarrow>
               bindE (mapE issue_from_raw raws) (\<lambda>issues.
               if verdict = ''PASS'' \<and> issues \<noteq> [] then
                 Inl (PlanVerificationError ''PASS plan verification must not contain issues'' [])
               else if verdict = ''REVISE'' \<and> issues = [] then
                 Inl (PlanVerificationError ''REVISE plan verification requires at least one issue'' [])
               else Inr \<lparr>pv_verdict = verdict, pv_issues = issues\<rparr>)
           | _ \<Rightarrow> Inl (PlanVerificationError ''plan verification issues must be an array'' []))
   | _ \<Rightarrow> Inl (PlanVerificationError ''plan verification result must contain exactly verdict and issues'' []))"

text \<open>The lines of a message that are not blank, stripped.\<close>

definition message_lines :: "string \<Rightarrow> string list" where
  "message_lines message = map strip (filter (\<lambda>l. strip l \<noteq> []) (splitlines message))"

definition parse_plan_verification_result :: "string \<Rightarrow> plan_verdict result" where
  "parse_plan_verification_result message =
     (let lines = message_lines message;
          protocol = filter (\<lambda>l. startswith l PLAN_VERIFICATION_PREFIX) lines
      in case protocol of
        [line] \<Rightarrow>
          if line \<noteq> last lines then
            Inl (PlanVerificationError ''plan verifier must finish with exactly one protocol line'' [])
          else (case json_loads (strip (drop (length PLAN_VERIFICATION_PREFIX) line)) of
              None \<Rightarrow> Inl (PlanVerificationError ''payload must be valid JSON'' [])
            | Some raw \<Rightarrow> verdict_from_raw raw)
      | _ \<Rightarrow> Inl (PlanVerificationError ''plan verifier must finish with exactly one protocol line'' []))"

definition validate_verdict_references :: "plan \<Rightarrow> plan_verdict \<Rightarrow> unit result" where
  "validate_verdict_references p v =
     (let outcomes = (case pl_goal_contract p of None \<Rightarrow> [] | Some c \<Rightarrow> outcome_ids c);
          unknown_tasks = filter (\<lambda>i. i \<notin> set (task_ids p)) (concat (map pi_task_ids (pv_issues v)));
          unknown_outcomes = filter (\<lambda>i. i \<notin> set outcomes) (concat (map pi_outcome_ids (pv_issues v)))
      in if unknown_tasks \<noteq> [] then
           Inl (PlanVerificationError ''plan verification issues reference unknown tasks'' (sorted_set unknown_tasks))
         else if unknown_outcomes \<noteq> [] then
           Inl (PlanVerificationError ''plan verification issues reference unknown outcomes'' (sorted_set unknown_outcomes))
         else Inr ())"

section \<open>Receipts\<close>

definition make_plan_verification_receipt ::
  "(rat \<Rightarrow> string) \<Rightarrow> (string \<Rightarrow> string) \<Rightarrow> plan \<Rightarrow> plan_verdict \<Rightarrow> string \<Rightarrow> string \<Rightarrow> string \<Rightarrow> string option \<Rightarrow> string
    \<Rightarrow> plan_receipt result"
where
  "make_plan_verification_receipt fl sha p v mode thread turn verified_at now =
     bindE (require_deterministic_plan_admission p) (\<lambda>_.
     bindE (validate_verdict_references p v) (\<lambda>_.
     if pv_verdict v \<noteq> ''PASS'' then
       Inl (PlanVerificationError ''only a PASS verdict can produce a PLAN_VERIFIED receipt'' [])
     else
       bindE (required_text (PStr thread) ''verifier_thread_id'' 256) (\<lambda>th.
       bindE (required_text (PStr turn) ''verifier_turn_id'' 256) (\<lambda>tu.
       Inr \<lparr>pr_schema_version = PLAN_VERIFICATION_RECEIPT_SCHEMA, pr_status = PLAN_VERIFIED,
         pr_graph_version = pl_graph_version p, pr_plan_sha256 = plan_sha256 fl sha p,
         pr_mode = mode, pr_verdict = ''PASS'', pr_verifier_role = PLAN_VERIFICATION_ROLE,
         pr_verifier_thread_id = th, pr_verifier_turn_id = tu,
         pr_verified_at = (case verified_at of None \<Rightarrow> now | Some a \<Rightarrow> if a = [] then now else a),
         pr_evidence_ids = [], pr_verification_result_id = None\<rparr>))))"

definition RECEIPT_FIELDS :: "string list" where
  "RECEIPT_FIELDS = [''schema_version'', ''status'', ''graph_version'', ''plan_sha256'', ''mode'',
     ''verdict'', ''verifier_role'', ''verifier_thread_id'', ''verifier_turn_id'', ''verified_at'',
     ''evidence_ids'', ''verification_result_id'']"

definition receipt_from_raw :: "pyval dict \<Rightarrow> plan_receipt result" where
  "receipt_from_raw raw =
     (let unknown = filter (\<lambda>k. k \<notin> set RECEIPT_FIELDS) (keys raw) in
      if unknown \<noteq> [] then
        Inl (PlanVerificationError ''plan verification receipt has unknown fields'' (sorted_set unknown))
      else
        bindE (string_array (get_default raw ''evidence_ids'' (PList [])) ''evidence_ids'') (\<lambda>evidence.
        bindE (positive_integer (get raw ''schema_version'') ''schema_version'') (\<lambda>schema.
        bindE (required_text (get raw ''status'') ''status'' 64) (\<lambda>status.
        bindE (positive_integer (get raw ''graph_version'') ''graph_version'') (\<lambda>version.
        bindE (required_text (get raw ''plan_sha256'') ''plan_sha256'' 64) (\<lambda>digest.
        bindE (required_text (get raw ''mode'') ''mode'' 64) (\<lambda>mode.
        bindE (required_text (get raw ''verdict'') ''verdict'' 16) (\<lambda>verdict.
        bindE (required_text (get raw ''verifier_role'') ''verifier_role'' 128) (\<lambda>role.
        bindE (required_text (get raw ''verifier_thread_id'') ''verifier_thread_id'' 256) (\<lambda>thread.
        bindE (required_text (get raw ''verifier_turn_id'') ''verifier_turn_id'' 256) (\<lambda>turn.
        bindE (required_text (get raw ''verified_at'') ''verified_at'' 128) (\<lambda>verified_at.
        bindE (if get raw ''verification_result_id'' = PNone then Inr None
               else bindE (required_text (get raw ''verification_result_id'') ''verification_result_id'' 128)
                 (\<lambda>i. Inr (Some i))) (\<lambda>result_id.
        Inr \<lparr>pr_schema_version = schema, pr_status = status, pr_graph_version = version,
          pr_plan_sha256 = digest, pr_mode = mode, pr_verdict = verdict, pr_verifier_role = role,
          pr_verifier_thread_id = thread, pr_verifier_turn_id = turn, pr_verified_at = verified_at,
          pr_evidence_ids = evidence, pr_verification_result_id = result_id\<rparr>)))))))))))))"

definition check_receipt ::
  "(rat \<Rightarrow> string) \<Rightarrow> (string \<Rightarrow> string) \<Rightarrow> plan \<Rightarrow> plan_receipt \<Rightarrow> bool \<Rightarrow> plan_receipt result"
where
  "check_receipt fl sha p r require_evidence =
     (if pr_schema_version r \<noteq> PLAN_VERIFICATION_RECEIPT_SCHEMA then
        Inl (PlanVerificationError ''unsupported plan verification receipt schema'' [])
      else if pr_status r \<noteq> PLAN_VERIFIED \<or> pr_verdict r \<noteq> ''PASS'' then
        Inl (PlanVerificationError ''plan verification receipt is not PLAN_VERIFIED/PASS'' [])
      else if pr_mode r \<notin> {INITIAL_PLAN_VERIFICATION, PLAN_PATCH_VERIFICATION, FULL_PLAN_REVALIDATION} then
        Inl (PlanVerificationError ''plan verification receipt has an invalid mode'' [])
      else if pr_verifier_role r \<noteq> PLAN_VERIFICATION_ROLE then
        Inl (PlanVerificationError ''plan verification receipt must come from Plan Verification Architect'' [])
      else if pr_graph_version r \<noteq> pl_graph_version p then
        Inl (PlanVerificationError ''plan verification graph version does not match the canonical plan'' [])
      else if pr_plan_sha256 r \<noteq> plan_sha256 fl sha p then
        Inl (PlanVerificationError ''plan verification digest does not match the canonical plan'' [])
      else if require_evidence \<and> (pr_evidence_ids r = [] \<or> pr_verification_result_id r \<in> {None, Some []}) then
        Inl (PlanVerificationError ''PLAN_VERIFIED requires recorded evidence and a verification result'' [])
      else Inr r)"

text \<open>A receipt comes as the object itself or as the stored JSON value.\<close>

datatype receipt_source = Receipt plan_receipt | Stored pyval

definition validate_plan_verification_receipt ::
  "(rat \<Rightarrow> string) \<Rightarrow> (string \<Rightarrow> string) \<Rightarrow> plan \<Rightarrow> receipt_source \<Rightarrow> bool \<Rightarrow> plan_receipt option result"
where
  "validate_plan_verification_receipt fl sha p raw require_evidence =
     (if pl_goal_contract p = None \<and> raw = Stored PNone then Inr None
      else
        bindE (case raw of
            Receipt r \<Rightarrow> Inr r
          | Stored v \<Rightarrow> (case v of
              PDict d \<Rightarrow> receipt_from_raw d
            | _ \<Rightarrow> Inl (PlanVerificationError
                ''canonical plan is PLAN_PROPOSED until a verification receipt is supplied'' []))) (\<lambda>receipt.
        bindE (check_receipt fl sha p receipt require_evidence) (\<lambda>r. Inr (Some r))))"

definition require_plan_verified ::
  "(rat \<Rightarrow> string) \<Rightarrow> (string \<Rightarrow> string) \<Rightarrow> plan \<Rightarrow> pyval \<Rightarrow> unit result"
where
  "require_plan_verified fl sha p stored =
     bindE (validate_plan_verification_receipt fl sha p (Stored stored) True) (\<lambda>_. Inr ())"

end
