(* ===== verification/PlanDigest.thy ===== *)
theory PlanDigest
  imports PlanCodec
begin

text \<open>
  The encoders of \<^verbatim>\<open>PlanCodec\<close> are faithful: each is an instance of the
  interface of \<^verbatim>\<open>Json\<close>, from the smallest part to the whole plan, so the
  canonical text, and with it the digest a verification receipt carries, determines the plan.
\<close>

section \<open>Faithfulness of the encoders\<close>

lemma map_of_opt_field [simp]:
  "map_of (opt_field k v) j = (if j = k \<and> v \<noteq> None \<and> v \<noteq> Some [] then Some (PStr (the v)) else None)"
  by (cases v) (simp_all add: opt_field_def)

lemma map_of_some_list [simp]:
  "map_of (some_list k xs) j = (if j = k \<and> xs \<noteq> [] then Some (PList xs) else None)"
  by (simp add: some_list_def)

lemma keys_opt_field [simp]:
  "fst ` set (opt_field k v) = (if v \<noteq> None \<and> v \<noteq> Some [] then {k} else {})"
  "distinct (keys (opt_field k v))"
  by (cases v; simp add: opt_field_def)+

lemma keys_some_list [simp]:
  "fst ` set (some_list k xs) = (if xs \<noteq> [] then {k} else {})"
  "distinct (keys (some_list k xs))"
  by (simp_all add: some_list_def)

lemma json_ok_PStrs [simp]: "json_ok (PStrs xs)"
  by (simp add: PStrs_def)

lemma canon_PStrs [simp]: "canon (PStrs xs) = PStrs xs"
  by (simp add: PStrs_def comp_def)

lemma PStrs_inj [simp]: "PStrs xs = PStrs ys \<longleftrightarrow> xs = ys"
  by (simp add: PStrs_def inj_map_eq_map inj_def)

lemma canon_strs [simp]: "map (canon \<circ> PStr) xs = map PStr xs" "map PStr xs = map PStr ys \<longleftrightarrow> xs = ys"
  by (simp_all add: comp_def inj_map_eq_map inj_def)

text \<open>An optional text that is present is not empty.\<close>

definition present :: "string option \<Rightarrow> bool" where
  "present v \<longleftrightarrow> v \<noteq> Some []"

lemma look_eq: "canon v = canon w \<Longrightarrow> look v k = look w k"
  by (simp add: look_def)

lemma goal_entry_keys: "distinct (keys (case goal_entry_to_dict x of PDict d \<Rightarrow> d | _ \<Rightarrow> []))"
  by (simp add: goal_entry_to_dict_def split: option.split)

interpretation ge: faithful_encoder goal_entry_to_dict "\<lambda>_. True"
proof
  fix x y :: goal_entry
  show "json_ok (goal_entry_to_dict x)"
    using goal_entry_keys [of x]
    by (auto simp: goal_entry_to_dict_def opt_field_def some_list_def  split: option.splits)
  assume "canon (goal_entry_to_dict x) = canon (goal_entry_to_dict y)"
  note e = look_eq [OF this, unfolded goal_entry_to_dict_def, unfolded look_PDict [OF goal_entry_keys [unfolded goal_entry_to_dict_def pyval.case]]]
  show "x = y" using e [of "''id''"] e [of "''description''"]
    by (cases x; cases y) (auto simp: present_def map_add_def split: if_splits option.splits
      )
qed

definition goal_deliverable_ok :: "goal_deliverable \<Rightarrow> bool" where
  "goal_deliverable_ok x \<longleftrightarrow> present (gd_path x)"

lemma goal_deliverable_keys: "distinct (keys (case goal_deliverable_to_dict x of PDict d \<Rightarrow> d | _ \<Rightarrow> []))"
  by (simp add: goal_deliverable_to_dict_def split: option.split)

interpretation gd: faithful_encoder goal_deliverable_to_dict goal_deliverable_ok
proof
  fix x y :: goal_deliverable
  assume x: "goal_deliverable_ok x"
  show "json_ok (goal_deliverable_to_dict x)"
    using goal_deliverable_keys [of x] x
    by (auto simp: goal_deliverable_to_dict_def goal_deliverable_ok_def opt_field_def some_list_def  split: option.splits)
  assume y: "goal_deliverable_ok y"
  assume "canon (goal_deliverable_to_dict x) = canon (goal_deliverable_to_dict y)"
  note e = look_eq [OF this, unfolded goal_deliverable_to_dict_def, unfolded look_PDict [OF goal_deliverable_keys [unfolded goal_deliverable_to_dict_def pyval.case]]]
  show "x = y" using e [of "''id''"] e [of "''description''"] e [of "''path''"] x y
    by (cases x; cases y) (auto simp: goal_deliverable_ok_def present_def map_add_def split: if_splits option.splits
      )
qed

definition goal_contract_ok :: "goal_contract \<Rightarrow> bool" where
  "goal_contract_ok x \<longleftrightarrow> (\<forall>y \<in> set (gc_deliverables x). goal_deliverable_ok y)"

lemma goal_contract_keys: "distinct (keys (case goal_contract_to_dict x of PDict d \<Rightarrow> d | _ \<Rightarrow> []))"
  by (simp add: goal_contract_to_dict_def split: option.split)

interpretation gc: faithful_encoder goal_contract_to_dict goal_contract_ok
proof
  fix x y :: goal_contract
  assume x: "goal_contract_ok x"
  show "json_ok (goal_contract_to_dict x)"
    using goal_contract_keys [of x] x
    by (auto simp: goal_contract_to_dict_def goal_contract_ok_def opt_field_def some_list_def gd.writable ge.writable split: option.splits)
  assume y: "goal_contract_ok y"
  assume "canon (goal_contract_to_dict x) = canon (goal_contract_to_dict y)"
  note e = look_eq [OF this, unfolded goal_contract_to_dict_def, unfolded look_PDict [OF goal_contract_keys [unfolded goal_contract_to_dict_def pyval.case]]]
  show "x = y" using e [of "''required_outcomes''"] e [of "''deliverables''"] e [of "''constraints''"]
      e [of "''global_acceptance''"] x y
    by (cases x; cases y) (auto simp: goal_contract_ok_def present_def map_add_def split: if_splits option.splits
      intro: gd.list_inj gd.canon_inj ge.list_inj ge.canon_inj)
qed

lemma skill_reference_keys: "distinct (keys (case skill_reference_to_dict x of PDict d \<Rightarrow> d | _ \<Rightarrow> []))"
  by (simp add: skill_reference_to_dict_def split: option.split)

interpretation sr: faithful_encoder skill_reference_to_dict "\<lambda>_. True"
proof
  fix x y :: skill_reference
  show "json_ok (skill_reference_to_dict x)"
    using skill_reference_keys [of x]
    by (auto simp: skill_reference_to_dict_def opt_field_def some_list_def  split: option.splits)
  assume "canon (skill_reference_to_dict x) = canon (skill_reference_to_dict y)"
  note e = look_eq [OF this, unfolded skill_reference_to_dict_def, unfolded look_PDict [OF skill_reference_keys [unfolded skill_reference_to_dict_def pyval.case]]]
  show "x = y" using e [of "''id''"] e [of "''version''"]
    by (cases x; cases y) (auto simp: present_def map_add_def split: if_splits option.splits
      )
qed

lemma skill_check_keys: "distinct (keys (case skill_check_to_dict x of PDict d \<Rightarrow> d | _ \<Rightarrow> []))"
  by (simp add: skill_check_to_dict_def split: option.split)

interpretation sc: faithful_encoder skill_check_to_dict "\<lambda>_. True"
proof
  fix x y :: skill_check
  show "json_ok (skill_check_to_dict x)"
    using skill_check_keys [of x]
    by (auto simp: skill_check_to_dict_def opt_field_def some_list_def  split: option.splits)
  assume "canon (skill_check_to_dict x) = canon (skill_check_to_dict y)"
  note e = look_eq [OF this, unfolded skill_check_to_dict_def, unfolded look_PDict [OF skill_check_keys [unfolded skill_check_to_dict_def pyval.case]]]
  show "x = y" using e [of "''id''"] e [of "''description''"] e [of "''argv''"]
      e [of "''expected_exit_code''"]
    by (cases x; cases y) (auto simp: present_def map_add_def split: if_splits option.splits
      )
qed

lemma promotion_evidence_keys: "distinct (keys (case promotion_evidence_to_dict x of PDict d \<Rightarrow> d | _ \<Rightarrow> []))"
  by (simp add: promotion_evidence_to_dict_def split: option.split)

interpretation pe: faithful_encoder promotion_evidence_to_dict "\<lambda>_. True"
proof
  fix x y :: promotion_evidence
  show "json_ok (promotion_evidence_to_dict x)"
    using promotion_evidence_keys [of x]
    by (auto simp: promotion_evidence_to_dict_def opt_field_def some_list_def  split: option.splits)
  assume "canon (promotion_evidence_to_dict x) = canon (promotion_evidence_to_dict y)"
  note e = look_eq [OF this, unfolded promotion_evidence_to_dict_def, unfolded look_PDict [OF promotion_evidence_keys [unfolded promotion_evidence_to_dict_def pyval.case]]]
  show "x = y" using e [of "''id''"] e [of "''kind''"] e [of "''verified''"]
    by (cases x; cases y) (auto simp: present_def map_add_def split: if_splits option.splits
      )
qed

lemma external_source_keys: "distinct (keys (case external_source_to_dict x of PDict d \<Rightarrow> d | _ \<Rightarrow> []))"
  by (simp add: external_source_to_dict_def split: option.split)

interpretation es: faithful_encoder external_source_to_dict "\<lambda>_. True"
proof
  fix x y :: external_source
  show "json_ok (external_source_to_dict x)"
    using external_source_keys [of x]
    by (auto simp: external_source_to_dict_def opt_field_def some_list_def  split: option.splits)
  assume "canon (external_source_to_dict x) = canon (external_source_to_dict y)"
  note e = look_eq [OF this, unfolded external_source_to_dict_def, unfolded look_PDict [OF external_source_keys [unfolded external_source_to_dict_def pyval.case]]]
  show "x = y" using e [of "''provider''"] e [of "''locator''"] e [of "''digest''"]
    by (cases x; cases y) (auto simp: present_def map_add_def split: if_splits option.splits
      )
qed

lemma skill_evidence_requirement_keys: "distinct (keys (case skill_evidence_requirement_to_dict x of PDict d \<Rightarrow> d | _ \<Rightarrow> []))"
  by (simp add: skill_evidence_requirement_to_dict_def split: option.split)

interpretation se: faithful_encoder skill_evidence_requirement_to_dict "\<lambda>_. True"
proof
  fix x y :: skill_evidence_requirement
  show "json_ok (skill_evidence_requirement_to_dict x)"
    using skill_evidence_requirement_keys [of x]
    by (auto simp: skill_evidence_requirement_to_dict_def opt_field_def some_list_def  split: option.splits)
  assume "canon (skill_evidence_requirement_to_dict x) = canon (skill_evidence_requirement_to_dict y)"
  note e = look_eq [OF this, unfolded skill_evidence_requirement_to_dict_def, unfolded look_PDict [OF skill_evidence_requirement_keys [unfolded skill_evidence_requirement_to_dict_def pyval.case]]]
  show "x = y" using e [of "''role''"] e [of "''kind''"]
    by (cases x; cases y) (auto simp: present_def map_add_def split: if_splits option.splits
      )
qed

lemma skill_attestation_keys: "distinct (keys (case skill_attestation_to_dict x of PDict d \<Rightarrow> d | _ \<Rightarrow> []))"
  by (simp add: skill_attestation_to_dict_def split: option.split)

interpretation sa: faithful_encoder skill_attestation_to_dict "\<lambda>_. True"
proof
  fix x y :: skill_attestation
  show "json_ok (skill_attestation_to_dict x)"
    using skill_attestation_keys [of x]
    by (auto simp: skill_attestation_to_dict_def opt_field_def some_list_def se.writable sr.writable split: option.splits)
  assume "canon (skill_attestation_to_dict x) = canon (skill_attestation_to_dict y)"
  note e = look_eq [OF this, unfolded skill_attestation_to_dict_def, unfolded look_PDict [OF skill_attestation_keys [unfolded skill_attestation_to_dict_def pyval.case]]]
  show "x = y" using e [of "''kind''"] e [of "''skill''"] e [of "''evidence_roles''"]
      e [of "''promotion_evidence''"]
    by (cases x; cases y) (auto simp: present_def map_add_def split: if_splits option.splits
      intro: se.list_inj se.canon_inj sr.list_inj sr.canon_inj)
qed

lemma skill_pack_keys: "distinct (keys (case skill_pack_to_dict x of PDict d \<Rightarrow> d | _ \<Rightarrow> []))"
  by (simp add: skill_pack_to_dict_def split: option.split)

interpretation sk: faithful_encoder skill_pack_to_dict "\<lambda>_. True"
proof
  fix x y :: skill_pack
  show "json_ok (skill_pack_to_dict x)"
    using skill_pack_keys [of x]
    by (auto simp: skill_pack_to_dict_def opt_field_def some_list_def es.writable pe.writable sc.writable sr.writable split: option.splits)
  assume "canon (skill_pack_to_dict x) = canon (skill_pack_to_dict y)"
  note e = look_eq [OF this, unfolded skill_pack_to_dict_def, unfolded look_PDict [OF skill_pack_keys [unfolded skill_pack_to_dict_def pyval.case]]]
  have "sk_id x = sk_id y" using e [of "''id''"] by (simp add: map_add_def)
  moreover have "sk_version x = sk_version y" using e [of "''version''"] by (simp add: map_add_def)
  moreover have "sk_capability x = sk_capability y" using e [of "''capability''"] by (simp add: map_add_def)
  moreover have "sk_source x = sk_source y" using e [of "''source''"] by (simp add: map_add_def)
  moreover have "sk_status x = sk_status y" using e [of "''status''"] by (simp add: map_add_def)
  moreover have "sk_procedures x = sk_procedures y" using e [of "''procedures''"] by (simp add: map_add_def)
  moreover have "sk_checklists x = sk_checklists y" using e [of "''checklists''"] by (simp add: map_add_def)
  moreover have "sk_failure_modes x = sk_failure_modes y" using e [of "''failure_modes''"] by (simp add: map_add_def)
  moreover have "sk_quality_criteria x = sk_quality_criteria y" using e [of "''quality_criteria''"] by (simp add: map_add_def)
  moreover have "sk_required_tools x = sk_required_tools y" using e [of "''required_tools''"] by (simp add: map_add_def)
  moreover have "sk_required_mcp_servers x = sk_required_mcp_servers y" using e [of "''required_mcp_servers''"] by (simp add: map_add_def)
  moreover have "sk_deterministic_checks x = sk_deterministic_checks y" using e [of "''deterministic_checks''"]
    by (intro sc.list_inj) (auto simp: map_add_def split: if_splits option.splits)
  moreover have "sk_evidence_roles x = sk_evidence_roles y" using e [of "''evidence_roles''"] by (simp add: map_add_def)
  moreover have "sk_conflicts_with x = sk_conflicts_with y" using e [of "''conflicts_with''"]
    by (intro sr.list_inj) (auto simp: map_add_def split: if_splits option.splits)
  moreover have "sk_promotion_evidence x = sk_promotion_evidence y" using e [of "''promotion_evidence''"]
    by (intro pe.list_inj) (auto simp: map_add_def split: if_splits option.splits)
  moreover have "sk_source_verification_ids x = sk_source_verification_ids y" using e [of "''source_verification_ids''"]
    by (simp add: map_add_def split: if_splits option.splits)
  moreover have "sk_qualification_verification_ids x = sk_qualification_verification_ids y" using e [of "''qualification_verification_ids''"]
    by (simp add: map_add_def split: if_splits option.splits)
  moreover have "sk_external_sources x = sk_external_sources y" using e [of "''external_sources''"]
    by (intro es.list_inj) (auto simp: map_add_def split: if_splits option.splits)
  ultimately show "x = y" by (cases x; cases y) simp
qed

lemma rubric_reference_keys: "distinct (keys (case rubric_reference_to_dict x of PDict d \<Rightarrow> d | _ \<Rightarrow> []))"
  by (simp add: rubric_reference_to_dict_def split: option.split)

interpretation rr: faithful_encoder rubric_reference_to_dict "\<lambda>_. True"
proof
  fix x y :: rubric_reference
  show "json_ok (rubric_reference_to_dict x)"
    using rubric_reference_keys [of x]
    by (auto simp: rubric_reference_to_dict_def opt_field_def some_list_def  split: option.splits)
  assume "canon (rubric_reference_to_dict x) = canon (rubric_reference_to_dict y)"
  note e = look_eq [OF this, unfolded rubric_reference_to_dict_def, unfolded look_PDict [OF rubric_reference_keys [unfolded rubric_reference_to_dict_def pyval.case]]]
  show "x = y" using e [of "''record_id''"] e [of "''version''"] e [of "''sha256''"]
    by (cases x; cases y) (auto simp: present_def map_add_def split: if_splits option.splits
      )
qed

lemma department_contract_keys: "distinct (keys (case department_contract_to_dict x of PDict d \<Rightarrow> d | _ \<Rightarrow> []))"
  by (simp add: department_contract_to_dict_def split: option.split)

interpretation de: faithful_encoder department_contract_to_dict "\<lambda>_. True"
proof
  fix x y :: department_contract
  show "json_ok (department_contract_to_dict x)"
    using department_contract_keys [of x]
    by (auto simp: department_contract_to_dict_def opt_field_def some_list_def rr.writable split: option.splits)
  assume "canon (department_contract_to_dict x) = canon (department_contract_to_dict y)"
  note e = look_eq [OF this, unfolded department_contract_to_dict_def, unfolded look_PDict [OF department_contract_keys [unfolded department_contract_to_dict_def pyval.case]]]
  show "x = y" using e [of "''id''"] e [of "''name''"] e [of "''lead_role_id''"] e [of "''rubric''"]
    by (cases x; cases y) (auto simp: present_def map_add_def split: if_splits option.splits
      intro: rr.list_inj rr.canon_inj)
qed

lemma role_profile_keys: "distinct (keys (case role_profile_to_dict x of PDict d \<Rightarrow> d | _ \<Rightarrow> []))"
  by (simp add: role_profile_to_dict_def split: option.split)

interpretation ro: faithful_encoder role_profile_to_dict "\<lambda>_. True"
proof
  fix x y :: role_profile
  show "json_ok (role_profile_to_dict x)"
    using role_profile_keys [of x]
    by (auto simp: role_profile_to_dict_def opt_field_def some_list_def sr.writable split: option.splits)
  assume "canon (role_profile_to_dict x) = canon (role_profile_to_dict y)"
  note e = look_eq [OF this, unfolded role_profile_to_dict_def, unfolded look_PDict [OF role_profile_keys [unfolded role_profile_to_dict_def pyval.case]]]
  show "x = y" using e [of "''id''"] e [of "''name''"] e [of "''version''"] e [of "''responsibilities''"]
      e [of "''domain_focus''"] e [of "''preferred_tools''"] e [of "''context_priorities''"]
      e [of "''verification_expectations''"] e [of "''skill_requirements''"]
    by (cases x; cases y) (auto simp: present_def map_add_def split: if_splits option.splits
      intro: sr.list_inj sr.canon_inj)
qed

definition verification_check_ok :: "verification_check \<Rightarrow> bool" where
  "verification_check_ok x \<longleftrightarrow> present (vc_path x)"

lemma verification_check_keys: "distinct (keys (case check_to_dict x of PDict d \<Rightarrow> d | _ \<Rightarrow> []))"
  by (simp add: check_to_dict_def split: option.split)

interpretation vc: faithful_encoder check_to_dict verification_check_ok
proof
  fix x y :: verification_check
  assume x: "verification_check_ok x"
  show "json_ok (check_to_dict x)"
    using verification_check_keys [of x] x
    by (auto simp: check_to_dict_def verification_check_ok_def opt_field_def some_list_def  split: option.splits)
  assume y: "verification_check_ok y"
  assume "canon (check_to_dict x) = canon (check_to_dict y)"
  note e = look_eq [OF this, unfolded check_to_dict_def, unfolded look_PDict [OF verification_check_keys [unfolded check_to_dict_def pyval.case]]]
  show "x = y" using e [of "''id''"] e [of "''kind''"] e [of "''description''"] e [of "''argv''"]
      e [of "''path''"] e [of "''timeout_seconds''"] e [of "''expected_exit_code''"] x y
    by (cases x; cases y) (auto simp: verification_check_ok_def present_def map_add_def split: if_splits option.splits
      )
qed

definition verification_policy_ok :: "verification_policy \<Rightarrow> bool" where
  "verification_policy_ok x \<longleftrightarrow> (\<forall>y \<in> set (vp_deterministic_checks x). verification_check_ok y)
     \<and> present (vp_verifier_role x)
     \<and> present (vp_execution_mode x)
     \<and> present (vp_execution_mode_reason x)
     \<and> present (vp_reasoning x)"

lemma verification_policy_keys: "distinct (keys (case verification_to_dict x of PDict d \<Rightarrow> d | _ \<Rightarrow> []))"
  by (simp add: verification_to_dict_def split: option.split)

interpretation vp: faithful_encoder verification_to_dict verification_policy_ok
proof
  fix x y :: verification_policy
  assume x: "verification_policy_ok x"
  show "json_ok (verification_to_dict x)"
    using verification_policy_keys [of x] x
    by (auto simp: verification_to_dict_def verification_policy_ok_def opt_field_def some_list_def vc.writable split: option.splits)
  assume y: "verification_policy_ok y"
  assume "canon (verification_to_dict x) = canon (verification_to_dict y)"
  note e = look_eq [OF this, unfolded verification_to_dict_def, unfolded look_PDict [OF verification_policy_keys [unfolded verification_to_dict_def pyval.case]]]
  have "vp_policy x = vp_policy y" using e [of "''policy''"] by (simp add: map_add_def)
  moreover have "vp_required x = vp_required y" using e [of "''required''"] by (simp add: map_add_def)
  moreover have "vp_deterministic_checks x = vp_deterministic_checks y" using e [of "''deterministic_checks''"] x y
    by (intro vc.list_inj) (auto simp: map_add_def verification_policy_ok_def split: if_splits option.splits)
  moreover have "vp_verifier_role x = vp_verifier_role y" using e [of "''verifier_role''"] x y
    by (auto simp: map_add_def verification_policy_ok_def present_def split: if_splits option.splits)
  moreover have "vp_execution_mode x = vp_execution_mode y" using e [of "''execution_mode''"] x y
    by (auto simp: map_add_def verification_policy_ok_def present_def split: if_splits option.splits)
  moreover have "vp_execution_mode_reason x = vp_execution_mode_reason y" using e [of "''execution_mode_reason''"] x y
    by (auto simp: map_add_def verification_policy_ok_def present_def split: if_splits option.splits)
  moreover have "vp_reasoning x = vp_reasoning y" using e [of "''reasoning''"] x y
    by (auto simp: map_add_def verification_policy_ok_def present_def split: if_splits option.splits)
  moreover have "vp_max_revision_attempts x = vp_max_revision_attempts y" using e [of "''max_revision_attempts''"] by (simp add: map_add_def)
  ultimately show "x = y" by (cases x; cases y) simp
qed

definition resource_claim_ok :: "resource_claim \<Rightarrow> bool" where
  "resource_claim_ok x \<longleftrightarrow> present (rc_description x)"

lemma resource_claim_keys: "distinct (keys (case resource_to_dict x of PDict d \<Rightarrow> d | _ \<Rightarrow> []))"
  by (simp add: resource_to_dict_def split: option.split)

interpretation rc: faithful_encoder resource_to_dict resource_claim_ok
proof
  fix x y :: resource_claim
  assume x: "resource_claim_ok x"
  show "json_ok (resource_to_dict x)"
    using resource_claim_keys [of x] x
    by (auto simp: resource_to_dict_def resource_claim_ok_def opt_field_def some_list_def  split: option.splits)
  assume y: "resource_claim_ok y"
  assume "canon (resource_to_dict x) = canon (resource_to_dict y)"
  note e = look_eq [OF this, unfolded resource_to_dict_def, unfolded look_PDict [OF resource_claim_keys [unfolded resource_to_dict_def pyval.case]]]
  show "x = y" using e [of "''id''"] e [of "''kind''"] e [of "''target''"] e [of "''access''"]
      e [of "''description''"] x y
    by (cases x; cases y) (auto simp: resource_claim_ok_def present_def map_add_def split: if_splits option.splits
      )
qed

definition task_output_ok :: "task_output \<Rightarrow> bool" where
  "task_output_ok x \<longleftrightarrow> present (ou_path x)"

lemma task_output_keys: "distinct (keys (case output_to_dict x of PDict d \<Rightarrow> d | _ \<Rightarrow> []))"
  by (simp add: output_to_dict_def split: option.split)

interpretation ou: faithful_encoder output_to_dict task_output_ok
proof
  fix x y :: task_output
  assume x: "task_output_ok x"
  show "json_ok (output_to_dict x)"
    using task_output_keys [of x] x
    by (auto simp: output_to_dict_def task_output_ok_def opt_field_def some_list_def  split: option.splits)
  assume y: "task_output_ok y"
  assume "canon (output_to_dict x) = canon (output_to_dict y)"
  note e = look_eq [OF this, unfolded output_to_dict_def, unfolded look_PDict [OF task_output_keys [unfolded output_to_dict_def pyval.case]]]
  show "x = y" using e [of "''id''"] e [of "''description''"] e [of "''path''"] e [of "''required''"] x y
    by (cases x; cases y) (auto simp: task_output_ok_def present_def map_add_def split: if_splits option.splits
      )
qed

lemma task_context_keys: "distinct (keys (case context_to_dict x of PDict d \<Rightarrow> d | _ \<Rightarrow> []))"
  by (simp add: context_to_dict_def split: option.split)

interpretation cx: faithful_encoder context_to_dict "\<lambda>_. True"
proof
  fix x y :: task_context
  show "json_ok (context_to_dict x)"
    using task_context_keys [of x]
    by (auto simp: context_to_dict_def opt_field_def some_list_def  split: option.splits)
  assume "canon (context_to_dict x) = canon (context_to_dict y)"
  note e = look_eq [OF this, unfolded context_to_dict_def, unfolded look_PDict [OF task_context_keys [unfolded context_to_dict_def pyval.case]]]
  show "x = y" using e [of "''memory_queries''"] e [of "''memory_record_ids''"]
      e [of "''dependency_outputs''"] e [of "''max_memory_records''"]
      e [of "''max_dependency_outputs''"]
    by (cases x; cases y) (auto simp: present_def map_add_def split: if_splits option.splits
      )
qed

definition task_ok :: "task \<Rightarrow> bool" where
  "task_ok x \<longleftrightarrow> present (t_reasoning x)
     \<and> verification_policy_ok (t_verification x)
     \<and> (\<forall>y \<in> set (t_resources x). resource_claim_ok y)
     \<and> (\<forall>y \<in> set (t_outputs x). task_output_ok y)"

lemma task_keys: "distinct (keys (case task_to_dict x of PDict d \<Rightarrow> d | _ \<Rightarrow> []))"
  by (simp add: task_to_dict_def split: option.split)

interpretation tk: faithful_encoder task_to_dict task_ok
proof
  fix x y :: task
  assume x: "task_ok x"
  show "json_ok (task_to_dict x)"
    using task_keys [of x] x
    by (auto simp: task_to_dict_def task_ok_def opt_field_def some_list_def cx.writable ou.writable rc.writable sa.writable sr.writable vp.writable split: option.splits)
  assume y: "task_ok y"
  assume "canon (task_to_dict x) = canon (task_to_dict y)"
  note e = look_eq [OF this, unfolded task_to_dict_def, unfolded look_PDict [OF task_keys [unfolded task_to_dict_def pyval.case]]]
  have "t_id x = t_id y" using e [of "''id''"] by (simp add: map_add_def split: option.splits)
  moreover have "t_title x = t_title y" using e [of "''title''"] by (simp add: map_add_def split: option.splits)
  moreover have "t_objective x = t_objective y" using e [of "''objective''"] by (simp add: map_add_def split: option.splits)
  moreover have "t_definition_of_done x = t_definition_of_done y" using e [of "''definition_of_done''"] by (simp add: map_add_def split: option.splits)
  moreover have "t_execution_mode x = t_execution_mode y" using e [of "''execution_mode''"] by (simp add: map_add_def split: option.splits)
  moreover have "t_execution_mode_reason x = t_execution_mode_reason y" using e [of "''execution_mode_reason''"] by (simp add: map_add_def split: option.splits)
  moreover have "t_reasoning x = t_reasoning y" using e [of "''reasoning''"] x y
    by (auto simp: map_add_def task_ok_def present_def split: if_splits option.splits)
  moreover have "t_role x = t_role y" using e [of "''role''"] by (simp add: map_add_def split: option.splits)
  moreover have "t_depends_on x = t_depends_on y" using e [of "''depends_on''"] by (simp add: map_add_def split: option.splits)
  moreover have "t_priority x = t_priority y" using e [of "''priority''"] by (simp add: map_add_def split: option.splits)
  moreover have "t_verification x = t_verification y" using e [of "''verification''"] x y
    by (intro vp.canon_inj) (auto simp: map_add_def task_ok_def split: if_splits option.splits)
  moreover have "t_resources x = t_resources y" using e [of "''resources''"] x y
    by (intro rc.list_inj) (auto simp: map_add_def task_ok_def split: if_splits option.splits)
  moreover have "t_required_capabilities x = t_required_capabilities y" using e [of "''required_capabilities''"] by (simp add: map_add_def split: option.splits)
  moreover have "t_context x = t_context y" using e [of "''context''"] x y
    by (intro cx.canon_inj) (auto simp: map_add_def task_ok_def split: if_splits option.splits)
  moreover have "t_outputs x = t_outputs y" using e [of "''outputs''"] x y
    by (intro ou.list_inj) (auto simp: map_add_def task_ok_def split: if_splits option.splits)
  moreover have "t_tags x = t_tags y" using e [of "''tags''"] by (simp add: map_add_def split: option.splits)
  moreover have "t_acceptance_class x = t_acceptance_class y" using e [of "''acceptance_class''"] by (simp add: map_add_def split: option.splits)
  moreover have "t_loaded_skills x = t_loaded_skills y" using e [of "''loaded_skills''"] x y
    by (intro sr.list_inj) (auto simp: map_add_def task_ok_def split: if_splits option.splits)
  moreover have "t_skill_attestation x = t_skill_attestation y" using e [of "''skill_attestation''"] x y
    by (auto simp: map_add_def split: if_splits option.splits dest!: sa.canon_inj [OF TrueI TrueI])
  moreover have "t_produces_outcomes x = t_produces_outcomes y" using e [of "''produces_outcomes''"]
    by (auto simp: map_add_def split: if_splits option.splits)
  ultimately show "x = y" by (cases x; cases y) simp
qed

section \<open>The plan's digest\<close>

text \<open>
  A plan as the validator admits it: optional texts that are present are not empty, and only
  a migrated plan remembers another schema version than the current one.
\<close>

definition canonical_plan :: "plan \<Rightarrow> bool" where
  "canonical_plan p \<longleftrightarrow> (\<forall>t \<in> set (pl_tasks p). task_ok t)
     \<and> pred_option goal_contract_ok (pl_goal_contract p)
     \<and> (\<not> pl_legacy_serial p \<longrightarrow> pl_source_schema_version p = PLAN_SCHEMA_VERSION)"

lemma plan_keys: "distinct (keys (case plan_to_dict p of PDict d \<Rightarrow> d | _ \<Rightarrow> []))"
  by (simp add: plan_to_dict_def split: option.split)

interpretation pl: faithful_encoder plan_to_dict canonical_plan
proof
  fix x y :: plan
  assume x: "canonical_plan x"
  show "json_ok (plan_to_dict x)"
    using plan_keys [of x] x
    by (auto simp: plan_to_dict_def canonical_plan_def some_list_def ro.writable sk.writable
        tk.writable de.writable gc.writable split: option.splits)
  assume y: "canonical_plan y" and "canon (plan_to_dict x) = canon (plan_to_dict y)"
  note e = look_eq [OF this(2), unfolded plan_to_dict_def,
      unfolded look_PDict [OF plan_keys [unfolded plan_to_dict_def pyval.case]]]
  have "pl_graph_version x = pl_graph_version y" using e [of "''graph_version''"]
    by (auto simp: map_add_def split: option.splits if_splits)
  moreover have "pl_goal x = pl_goal y" using e [of "''goal''"]
    by (auto simp: map_add_def split: option.splits if_splits)
  moreover have "pl_user_request x = pl_user_request y" using e [of "''user_request''"]
    by (auto simp: map_add_def split: option.splits if_splits)
  moreover have "pl_model_strategy x = pl_model_strategy y" using e [of "''model_strategy''"]
    by (auto simp: map_add_def split: option.splits if_splits)
  moreover have "pl_execution_strategy x = pl_execution_strategy y" using e [of "''execution_strategy''"]
    by (auto simp: map_add_def split: option.splits if_splits)
  moreover have "pl_max_parallel_workers x = pl_max_parallel_workers y"
    using e [of "''max_parallel_workers''"] by (auto simp: map_add_def split: option.splits if_splits)
  moreover have "pl_computer_use_slots x = pl_computer_use_slots y"
    using e [of "''computer_use_slots''"] by (auto simp: map_add_def split: option.splits if_splits)
  moreover have "pl_roles x = pl_roles y" using e [of "''roles''"]
    by (intro ro.list_inj) (auto simp: map_add_def split: option.splits if_splits)
  moreover have "pl_tasks x = pl_tasks y" using e [of "''tasks''"] x y
    by (intro tk.list_inj) (auto simp: map_add_def canonical_plan_def split: option.splits if_splits)
  moreover have "pl_skill_packs x = pl_skill_packs y" using e [of "''skill_packs''"]
    by (intro sk.list_inj) (auto simp: map_add_def split: option.splits if_splits)
  moreover have "pl_departments x = pl_departments y" using e [of "''departments''"]
    by (intro de.list_inj) (auto simp: map_add_def split: option.splits if_splits)
  moreover have "pl_goal_contract x = pl_goal_contract y" using e [of "''goal_contract''"] x y
    by (cases "pl_goal_contract x"; cases "pl_goal_contract y")
      (auto simp: map_add_def canonical_plan_def split: if_splits intro: gc.canon_inj)
  moreover have "pl_legacy_serial x = pl_legacy_serial y \<and>
      pl_source_schema_version x = pl_source_schema_version y" using e [of "''compatibility''"] x y
    by (auto simp: map_add_def canonical_plan_def split: option.splits if_splits)
  ultimately show "x = y" by (cases x; cases y) simp
qed

text \<open>
  C13. A digest names one graph: two admitted plans with the same \<^verbatim>\<open>plan_sha256\<close>
  are the same plan, unless their two canonical texts are a collision of the hash.
\<close>

theorem plan_sha256_binds:
  assumes "canonical_plan p" "canonical_plan q"
    and "plan_sha256 fl sha p = plan_sha256 fl sha q"
    and no_collision: "sha (plan_text fl p) = sha (plan_text fl q) \<longrightarrow> plan_text fl p = plan_text fl q"
  shows "p = q"
  using assms pl.text_inj unfolding plan_sha256_def plan_text_def by blast

theorem plan_sha256_binds_witness:
  "plan_sha256 (\<lambda>_. []) (\<lambda>s. s) (sample_plan diamond) \<noteq> plan_sha256 (\<lambda>_. []) (\<lambda>s. s) (sample_plan [])"
proof
  assume e: "plan_sha256 (\<lambda>_. []) (\<lambda>s. s) (sample_plan diamond) = plan_sha256 (\<lambda>_. []) (\<lambda>s. s) (sample_plan [])"
  have "canonical_plan (sample_plan diamond)" "canonical_plan (sample_plan [])"
    by (simp_all add: canonical_plan_def sample_plan_def diamond_def sample_task_def sample_policy_def
        task_ok_def verification_policy_ok_def present_def PLAN_SCHEMA_VERSION_def)
  from plan_sha256_binds [OF this e] have "diamond = []" by (simp add: sample_plan_def)
  then show False by (simp add: diamond_def)
qed

end
