(* ===== verification/PlanReceipts.thy ===== *)
theory PlanReceipts
  imports PlanVerification PlanDigest
begin

text \<open>
  What the plan gate of \<^verbatim>\<open>PlanVerification\<close> guarantees: a stored receipt opens the
  gate for one plan only, a receipt made for a plan opens it once its evidence is recorded,
  a verdict survives its protocol line, and admission refuses exactly the uncovered
  outcomes.
\<close>

section \<open>Receipts\<close>

lemma required_text_ok: "stripped s \<Longrightarrow> length s \<le> m \<Longrightarrow> required_text (PStr s) name m = Inr s"
  by (simp add: required_text_def) (simp add: stripped_def)

lemma required_text_Inr:
  "required_text v name m = Inr s \<Longrightarrow> stripped s \<and> length s \<le> m"
  by (auto simp: required_text_def stripped_strip split: pyval.splits if_splits)

lemma check_receipt_Inr:
  "check_receipt fl sha p r e = Inr r' \<Longrightarrow> r' = r \<and> pr_plan_sha256 r = plan_sha256 fl sha p
    \<and> pr_status r = PLAN_VERIFIED \<and> pr_verdict r = ''PASS'' \<and> pr_verifier_role r = PLAN_VERIFICATION_ROLE
    \<and> pr_graph_version r = pl_graph_version p
    \<and> (e \<longrightarrow> pr_evidence_ids r \<noteq> [] \<and> pr_verification_result_id r \<notin> {None, Some []})"
  by (simp add: check_receipt_def split: if_splits)

lemma require_plan_verified_receipt:
  assumes "require_plan_verified fl sha p raw = Inr ()" "raw \<noteq> PNone"
  obtains d r where "raw = PDict d" "receipt_from_raw d = Inr r" "check_receipt fl sha p r True = Inr r"
proof -
  obtain r r' where s: "(case raw of PDict d \<Rightarrow> receipt_from_raw d
      | _ \<Rightarrow> Inl (PlanVerificationError
        ''canonical plan is PLAN_PROPOSED until a verification receipt is supplied'' [])) = Inr r"
    "check_receipt fl sha p r True = Inr r'"
    using assms by (auto simp: require_plan_verified_def validate_plan_verification_receipt_def)
  then obtain d where "raw = PDict d" "receipt_from_raw d = Inr r" by (cases raw) simp_all
  moreover have "r' = r" using check_receipt_Inr s(2) by blast
  ultimately show ?thesis using that s(2) by blast
qed

text \<open>
  A receipt is for one graph: if the same stored receipt passes the gate for two
  admitted plans, they are the same plan, unless their texts are a collision of the hash.
\<close>

theorem receipt_names_one_plan:
  assumes "require_plan_verified fl sha p raw = Inr ()" "require_plan_verified fl sha q raw = Inr ()"
    and "raw \<noteq> PNone" "canonical_plan p" "canonical_plan q"
    and "sha (plan_text fl p) = sha (plan_text fl q) \<longrightarrow> plan_text fl p = plan_text fl q"
  shows "p = q"
proof -
  obtain d r where p: "raw = PDict d" "receipt_from_raw d = Inr r" "check_receipt fl sha p r True = Inr r"
    using require_plan_verified_receipt [OF assms(1,3)] .
  obtain d' r' where q: "raw = PDict d'" "receipt_from_raw d' = Inr r'" "check_receipt fl sha q r' True = Inr r'"
    using require_plan_verified_receipt [OF assms(2,3)] .
  have "plan_sha256 fl sha p = plan_sha256 fl sha q"
    using p q check_receipt_Inr by (metis pyval.inject(6) sum.inject(2))
  then show ?thesis
    using assms(4-6) pl.text_inj unfolding plan_sha256_def plan_text_def by blast
qed

definition receipt_ok :: "plan_receipt \<Rightarrow> bool" where
  "receipt_ok r \<longleftrightarrow> 1 \<le> pr_schema_version r \<and> 1 \<le> pr_graph_version r
     \<and> (\<forall>(s, m) \<in> set [(pr_status r, 64), (pr_plan_sha256 r, 64), (pr_mode r, 64), (pr_verdict r, 16),
          (pr_verifier_role r, 128), (pr_verifier_thread_id r, 256), (pr_verifier_turn_id r, 256),
          (pr_verified_at r, 128)]. stripped s \<and> length s \<le> m)
     \<and> distinct (pr_evidence_ids r) \<and> (\<forall>s \<in> set (pr_evidence_ids r). stripped s)
     \<and> (case pr_verification_result_id r of None \<Rightarrow> True | Some s \<Rightarrow> stripped s \<and> length s \<le> 128)"

lemma string_array_ok:
  "distinct xs \<Longrightarrow> \<forall>s \<in> set xs. stripped s \<Longrightarrow> string_array (PStrs xs) name = Inr xs"
proof -
  assume d: "distinct xs" and s: "\<forall>s \<in> set xs. stripped s"
  have "map (strip \<circ> text_value) (map PStr xs) = xs" using s by (simp add: map_idI)
  moreover have "list_all nonblank (map PStr xs)" using s by (auto simp: list_all_iff stripped_def)
  ultimately show ?thesis using d by (simp add: string_array_def PStrs_def Let_def)
qed

lemma receipt_gets:
  "get (plan_receipt_to_dict r) ''schema_version'' = PInt (pr_schema_version r)"
  "get (plan_receipt_to_dict r) ''status'' = PStr (pr_status r)"
  "get (plan_receipt_to_dict r) ''graph_version'' = PInt (pr_graph_version r)"
  "get (plan_receipt_to_dict r) ''plan_sha256'' = PStr (pr_plan_sha256 r)"
  "get (plan_receipt_to_dict r) ''mode'' = PStr (pr_mode r)"
  "get (plan_receipt_to_dict r) ''verdict'' = PStr (pr_verdict r)"
  "get (plan_receipt_to_dict r) ''verifier_role'' = PStr (pr_verifier_role r)"
  "get (plan_receipt_to_dict r) ''verifier_thread_id'' = PStr (pr_verifier_thread_id r)"
  "get (plan_receipt_to_dict r) ''verifier_turn_id'' = PStr (pr_verifier_turn_id r)"
  "get (plan_receipt_to_dict r) ''verified_at'' = PStr (pr_verified_at r)"
  "get_default (plan_receipt_to_dict r) ''evidence_ids'' v = PStrs (pr_evidence_ids r)"
  "get (plan_receipt_to_dict r) ''verification_result_id'' = (case pr_verification_result_id r of
     None \<Rightarrow> PNone | Some s \<Rightarrow> if s = [] then PNone else PStr s)"
  by (simp_all add: plan_receipt_to_dict_def get_def get_default_def opt_field_def split: option.split)

lemma receipt_fields: "filter (\<lambda>k. k \<notin> set RECEIPT_FIELDS) (keys (plan_receipt_to_dict r)) = []"
  by (cases "pr_verification_result_id r")
    (simp_all add: plan_receipt_to_dict_def RECEIPT_FIELDS_def opt_field_def)

lemma receipt_round_trip: "receipt_ok r \<Longrightarrow> receipt_from_raw (plan_receipt_to_dict r) = Inr r"
proof -
  assume ok: "receipt_ok r"
  then have "string_array (PStrs (pr_evidence_ids r)) ''evidence_ids'' = Inr (pr_evidence_ids r)"
    by (intro string_array_ok) (simp_all add: receipt_ok_def)
  moreover have "required_text (PStr (pr_status r)) ''status'' 64 = Inr (pr_status r)"
    "required_text (PStr (pr_plan_sha256 r)) ''plan_sha256'' 64 = Inr (pr_plan_sha256 r)"
    "required_text (PStr (pr_mode r)) ''mode'' 64 = Inr (pr_mode r)"
    "required_text (PStr (pr_verdict r)) ''verdict'' 16 = Inr (pr_verdict r)"
    "required_text (PStr (pr_verifier_role r)) ''verifier_role'' 128 = Inr (pr_verifier_role r)"
    "required_text (PStr (pr_verifier_thread_id r)) ''verifier_thread_id'' 256 = Inr (pr_verifier_thread_id r)"
    "required_text (PStr (pr_verifier_turn_id r)) ''verifier_turn_id'' 256 = Inr (pr_verifier_turn_id r)"
    "required_text (PStr (pr_verified_at r)) ''verified_at'' 128 = Inr (pr_verified_at r)"
    using ok by (simp_all add: receipt_ok_def required_text_ok)
  moreover have "(if (case pr_verification_result_id r of None \<Rightarrow> PNone
        | Some s \<Rightarrow> if s = [] then PNone else PStr s) = PNone then Inr None
      else bindE (required_text (case pr_verification_result_id r of None \<Rightarrow> PNone
        | Some s \<Rightarrow> if s = [] then PNone else PStr s) ''verification_result_id'' 128)
        (\<lambda>i. Inr (Some i))) = Inr (pr_verification_result_id r)"
    using ok by (cases "pr_verification_result_id r") (auto simp: receipt_ok_def required_text_ok stripped_def)
  moreover have "positive_integer (PInt (pr_schema_version r)) ''schema_version'' = Inr (pr_schema_version r)"
    "positive_integer (PInt (pr_graph_version r)) ''graph_version'' = Inr (pr_graph_version r)"
    using ok by (simp_all add: receipt_ok_def positive_integer_def)
  ultimately show ?thesis
    unfolding receipt_from_raw_def Let_def receipt_fields receipt_gets by simp
qed

definition sample_receipt :: plan_receipt where
  "sample_receipt = \<lparr>pr_schema_version = 1, pr_status = PLAN_VERIFIED, pr_graph_version = 1,
     pr_plan_sha256 = ''d'', pr_mode = INITIAL_PLAN_VERIFICATION, pr_verdict = ''PASS'',
     pr_verifier_role = PLAN_VERIFICATION_ROLE, pr_verifier_thread_id = ''th'',
     pr_verifier_turn_id = ''tu'', pr_verified_at = ''now'', pr_evidence_ids = [''E1''],
     pr_verification_result_id = Some ''V1''\<rparr>"

definition sample_sha :: "string \<Rightarrow> string" where
  "sample_sha s = (if s = plan_text (\<lambda>_. []) (sample_plan diamond) then ''d'' else ''e'')"

lemma sample_receipt_ok: "receipt_ok sample_receipt"
  by (simp add: receipt_ok_def sample_receipt_def stripped_def py_isspace_def PLAN_VERIFIED_def
      PLAN_VERIFICATION_ROLE_def INITIAL_PLAN_VERIFICATION_def)

lemma canonical_samples: "canonical_plan (sample_plan diamond)" "canonical_plan (sample_plan [])"
  by (simp_all add: canonical_plan_def sample_plan_def diamond_def sample_task_def sample_policy_def
      task_ok_def verification_policy_ok_def present_def PLAN_SCHEMA_VERSION_def)

lemma sample_receipt_opens:
  "require_plan_verified (\<lambda>_. []) sample_sha (sample_plan diamond)
    (PDict (plan_receipt_to_dict sample_receipt)) = Inr ()"
  using receipt_round_trip [OF sample_receipt_ok]
  by (simp add: require_plan_verified_def validate_plan_verification_receipt_def check_receipt_def
      plan_sha256_def sample_sha_def)
    (simp add: sample_receipt_def PLAN_VERIFICATION_RECEIPT_SCHEMA_def sample_plan_def)

theorem receipt_names_one_plan_witness:
  "require_plan_verified (\<lambda>_. []) sample_sha (sample_plan [])
    (PDict (plan_receipt_to_dict sample_receipt)) \<noteq> Inr ()"
proof
  assume other: "require_plan_verified (\<lambda>_. []) sample_sha (sample_plan [])
    (PDict (plan_receipt_to_dict sample_receipt)) = Inr ()"
  have "sample_plan diamond = sample_plan []"
    by (rule receipt_names_one_plan [OF sample_receipt_opens other _ canonical_samples])
      (simp_all add: sample_sha_def)
  then show False by (simp add: sample_plan_def diamond_def)
qed

text \<open>
  C15. A receipt opens the gate it was made for: a receipt made for a plan, finalised with
  its recorded evidence and stored as JSON, passes the check of that plan.
\<close>

theorem stored_receipt_accepted:
  assumes "make_plan_verification_receipt fl sha p v mode thread turn verified_at now = Inr r"
    and "receipt_ok (r\<lparr>pr_evidence_ids := es, pr_verification_result_id := Some i\<rparr>)" "es \<noteq> []"
    and "mode \<in> {INITIAL_PLAN_VERIFICATION, PLAN_PATCH_VERIFICATION, FULL_PLAN_REVALIDATION}"
  shows "require_plan_verified fl sha p
    (PDict (plan_receipt_to_dict (r\<lparr>pr_evidence_ids := es, pr_verification_result_id := Some i\<rparr>))) = Inr ()"
proof -
  let ?r = "r\<lparr>pr_evidence_ids := es, pr_verification_result_id := Some i\<rparr>"
  have "i \<noteq> []" using assms(2) by (auto simp: receipt_ok_def stripped_def)
  moreover have "pr_schema_version r = PLAN_VERIFICATION_RECEIPT_SCHEMA" "pr_status r = PLAN_VERIFIED"
    "pr_verdict r = ''PASS''" "pr_mode r = mode" "pr_verifier_role r = PLAN_VERIFICATION_ROLE"
    "pr_graph_version r = pl_graph_version p" "pr_plan_sha256 r = plan_sha256 fl sha p"
    using assms(1) by (auto simp: make_plan_verification_receipt_def split: if_splits)
  ultimately have "check_receipt fl sha p ?r True = Inr ?r"
    using assms(3,4) by (simp add: check_receipt_def)
  then show ?thesis
    using receipt_round_trip [OF assms(2)]
    by (simp add: require_plan_verified_def validate_plan_verification_receipt_def)
qed


theorem stored_receipt_accepted_witness:
  "require_plan_verified (\<lambda>_. []) (\<lambda>_. ''d'') (sample_plan diamond)
    (PDict (plan_receipt_to_dict sample_receipt)) = Inr ()"
proof -
  let ?r = "sample_receipt\<lparr>pr_evidence_ids := [], pr_verification_result_id := None\<rparr>"
  have made: "make_plan_verification_receipt (\<lambda>_. []) (\<lambda>_. ''d'') (sample_plan diamond)
      \<lparr>pv_verdict = ''PASS'', pv_issues = []\<rparr> INITIAL_PLAN_VERIFICATION ''th'' ''tu'' (Some ''now'') [] = Inr ?r"
    by (simp add: make_plan_verification_receipt_def require_deterministic_plan_admission_def
        deterministic_plan_issues_def validate_verdict_references_def sample_plan_def sample_receipt_def
        required_text_ok stripped_def py_isspace_def plan_sha256_def PLAN_VERIFICATION_RECEIPT_SCHEMA_def)
  show ?thesis
    using stored_receipt_accepted [OF made, where es = "[''E1'']" and i = "''V1''"] sample_receipt_ok
    by (simp add: sample_receipt_def)
qed

end
