(* ===== verification/PlanVerdicts.thy ===== *)
theory PlanVerdicts
  imports PlanVerification
begin

text \<open>
  The verifier's answer and the coverage gate of \<^verbatim>\<open>PlanVerification\<close>: a verdict
  printed as the protocol asks is parsed back, whatever prose precedes it, and
  deterministic admission refuses exactly the uncovered outcomes.
\<close>

section \<open>Lines\<close>

definition nonblank_lines :: "string list \<Rightarrow> string list" where
  "nonblank_lines ls = map strip (filter (\<lambda>l. strip l \<noteq> []) ls)"

lemma message_lines_lines: "message_lines m = nonblank_lines (lines_from [] m)"
  by (simp add: message_lines_def nonblank_lines_def splitlines_def)

lemma nonblank_lines_Cons [simp]:
  "nonblank_lines (l # ls) = (if strip l = [] then [] else [strip l]) @ nonblank_lines ls"
  "nonblank_lines [] = []"
  by (simp_all add: nonblank_lines_def)

lemma lines_from_break:
  "nonblank_lines (lines_from acc (xs @ CHR 0x0A # ys))
    = nonblank_lines (lines_from acc xs) @ nonblank_lines (lines_from [] ys)"
proof (induction acc xs rule: lines_from.induct)
  case (1 acc)
  show ?case by (simp add: is_break_def)
next
  case (2 acc c cs)
  show ?case
  proof (cases "c = CHR 0x0D \<and> cs \<noteq> [] \<and> hd cs = CHR 0x0A")
    case True
    then have "tl (cs @ CHR 0x0A # ys) = tl cs @ CHR 0x0A # ys" by (cases cs) auto
    with True 2 show ?thesis by (auto simp: hd_append)
  next
    case cr: False
    show ?thesis
    proof (cases "cs = []")
      case True
      then show ?thesis by (auto simp: is_break_def)
    next
      case False
      with cr have "\<not> (c = CHR 0x0D \<and> cs @ CHR 0x0A # ys \<noteq> [] \<and> hd (cs @ CHR 0x0A # ys) = CHR 0x0A)"
        by (simp add: hd_append)
      with cr 2 show ?thesis by auto
    qed
  qed
qed

lemma message_lines_append:
  "message_lines (xs @ CHR 0x0A # ys) = message_lines xs @ message_lines ys"
  by (simp add: message_lines_lines lines_from_break)

section \<open>Written values fit on a line\<close>

fun plain :: "pyval \<Rightarrow> bool" where
  "plain (PStr s) = (CHR 0x85 \<notin> set s)"
| "plain (PList xs) = (\<forall>x \<in> set xs. plain x)"
| "plain (PDict d) = (\<forall>(k, v) \<in> set d. CHR 0x85 \<notin> set k \<and> plain v)"
| "plain v = True"

definition one_line :: "string \<Rightarrow> bool" where
  "one_line s \<longleftrightarrow> (\<forall>c \<in> set s. \<not> is_break c)"

lemma one_line_append [simp]: "one_line (s @ t) \<longleftrightarrow> one_line s \<and> one_line t"
  "one_line (c # s) \<longleftrightarrow> \<not> is_break c \<and> one_line s" "one_line []"
  by (auto simp: one_line_def)

lemma one_line_concat: "one_line (concat ss) \<longleftrightarrow> (\<forall>s \<in> set ss. one_line s)"
  by (auto simp: one_line_def)

lemma one_line_join: "(\<forall>s \<in> set ss. one_line s) \<Longrightarrow> one_line sep \<Longrightarrow> one_line (join sep ss)"
  by (cases ss) (auto simp: join_def one_line_concat)

lemma break_small: "is_break c \<Longrightarrow> (of_char c :: nat) < 32 \<or> c = CHR 0x85"
  by (auto simp: is_break_def)

lemma one_line_json_char: "c \<noteq> CHR 0x85 \<Longrightarrow> one_line (json_char c)"
proof -
  assume c: "c \<noteq> CHR 0x85"
  have hex: "\<not> is_break (hex_digit n)" if "n < 16" for n
  proof -
    have "(of_char (hex_digit n) :: nat) = (if n < 10 then 48 + n else 87 + n)"
      using that by (simp add: hex_digit_def)
    then have "32 \<le> (of_char (hex_digit n) :: nat)" "(of_char (hex_digit n) :: nat) \<noteq> of_char (CHR 0x85)"
      using that by (auto split: if_splits)
    then show ?thesis using break_small [of "hex_digit n"] by force
  qed
  show ?thesis
  proof (cases "(of_char c :: nat) < 32")
    case True
    then have "(of_char c :: nat) div 16 < 16" "(of_char c :: nat) mod 16 < 16" by simp_all
    then show ?thesis using True hex by (simp add: json_char_def is_break_def)
  next
    case False
    then have "\<not> is_break c" using c break_small by blast
    then show ?thesis using False by (simp add: json_char_def) (simp add: is_break_def)
  qed
qed

lemma one_line_json_string: "CHR 0x85 \<notin> set s \<Longrightarrow> one_line (json_string s)"
proof -
  assume "CHR 0x85 \<notin> set s"
  then have "\<forall>c \<in> set s. one_line (json_char c)" using one_line_json_char by metis
  then show ?thesis by (simp add: json_string_def one_line_concat) (simp add: is_break_def)
qed

lemma one_line_dec: "one_line (dec_int n)"
proof -
  have "one_line (dec_nat m)" for m
    using dec_nat_digits [of m] break_small unfolding one_line_def is_digit_def by force
  then show ?thesis by (simp add: dec_int_def) (simp add: is_break_def)
qed

lemma one_line_json: "json_ok v \<Longrightarrow> plain v \<Longrightarrow> one_line (json_text fl v)"
proof (induction v)
  case (PList xs)
  then have "one_line (join '','' (map (json_text fl) xs))"
    by (intro one_line_join) (auto simp: is_break_def)
  then show ?case by (simp add: is_break_def)
next
  case (PDict d)
  have "one_line (json_string k @ '':'' @ json_text fl v)" if "(k, v) \<in> set d" for k v
    using that PDict.IH [of "(k, v)" v] PDict.prems one_line_json_string [of k]
    by (auto simp: is_break_def)
  then have "one_line (join '','' (map (\<lambda>(k, t). json_string k @ '':'' @ t)
      (sort_key fst (map (\<lambda>(k, v). (k, json_text fl v)) d))))"
    by (intro one_line_join) (auto simp: is_break_def)
  then show ?case by (simp add: is_break_def)
qed (simp_all add: one_line_json_string one_line_dec, simp_all add: is_break_def)


section \<open>The protocol line\<close>

definition plan_issue_ok :: "plan_issue \<Rightarrow> bool" where
  "plan_issue_ok i \<longleftrightarrow> pi_category i \<in> set ISSUE_CATEGORIES
     \<and> stripped (pi_summary i) \<and> length (pi_summary i) \<le> 2000 \<and> CHR 0x85 \<notin> set (pi_summary i)
     \<and> distinct (pi_task_ids i) \<and> (\<forall>x \<in> set (pi_task_ids i). is_identifier x)
     \<and> distinct (pi_outcome_ids i) \<and> (\<forall>x \<in> set (pi_outcome_ids i). is_identifier x)"

definition plan_verdict_ok :: "plan_verdict \<Rightarrow> bool" where
  "plan_verdict_ok v \<longleftrightarrow> pv_verdict v = (if pv_issues v = [] then ''PASS'' else ''REVISE'')
     \<and> (\<forall>i \<in> set (pv_issues v). plan_issue_ok i)"

lemma identifier_char_visible:
  "is_letter c \<or> is_digit c \<or> c \<in> set ''._-'' \<Longrightarrow> \<not> py_isspace c \<and> c \<noteq> CHR 0x85"
  by (auto simp: is_letter_def is_digit_def py_isspace_def Let_def)

lemma identifier_chars: "is_identifier s \<Longrightarrow> c \<in> set s \<Longrightarrow> \<not> py_isspace c \<and> c \<noteq> CHR 0x85"
  using identifier_char_visible by (cases s) (auto simp: is_identifier_def)

lemma identifier_stripped: "is_identifier s \<Longrightarrow> stripped s"
  using identifier_chars [of s "hd s"] identifier_chars [of s "last s"]
  by (auto simp: stripped_def is_identifier_def)

lemma identifier_array_ok:
  "distinct xs \<Longrightarrow> \<forall>x \<in> set xs. is_identifier x \<Longrightarrow> identifier_array (PStrs xs) name = Inr xs"
proof -
  assume d: "distinct xs" and s: "\<forall>x \<in> set xs. is_identifier x"
  then have "map (strip \<circ> text_value) (map PStr xs) = xs"
    by (simp add: map_idI identifier_stripped)
  moreover have "list_all nonblank (map PStr xs)"
    using s identifier_stripped by (auto simp: list_all_iff stripped_def)
  ultimately have "string_array (PStrs xs) name = Inr xs" using d by (simp add: string_array_def PStrs_def Let_def)
  then show ?thesis using s by (auto simp: identifier_array_def list_ex_iff)
qed

lemma canon_PStrs' [simp]: "canon (PStrs xs) = PStrs xs"
  by (simp add: PStrs_def comp_def)

lemma issue_canon:
  "canon (plan_issue_to_dict i) = PDict [(''category'', PStr (pi_category i)),
     (''outcome_ids'', PStrs (pi_outcome_ids i)), (''summary'', PStr (pi_summary i)),
     (''task_ids'', PStrs (pi_task_ids i))]"
  by (simp add: plan_issue_to_dict_def)

lemma category_text: "c \<in> set ISSUE_CATEGORIES \<Longrightarrow> stripped c \<and> length c \<le> 64 \<and> CHR 0x85 \<notin> set c"
  unfolding ISSUE_CATEGORIES_def list.set insert_iff
  by (elim disjE emptyE) (simp_all add: stripped_def py_isspace_def)

lemma required_text_stripped: "stripped s \<Longrightarrow> length s \<le> m \<Longrightarrow> required_text (PStr s) name m = Inr s"
  by (simp add: required_text_def) (simp add: stripped_def)

lemma issue_read_back:
  assumes "plan_issue_ok i"
  shows "issue_from_raw (canon (plan_issue_to_dict i)) = Inr i"
proof -
  have c: "pi_category i \<in> set ISSUE_CATEGORIES" using assms by (simp add: plan_issue_ok_def)
  have "required_text (PStr (pi_category i)) ''category'' 64 = Inr (pi_category i)"
    "required_text (PStr (pi_summary i)) ''summary'' 2000 = Inr (pi_summary i)"
    "identifier_array (PStrs (pi_task_ids i)) ''task_ids'' = Inr (pi_task_ids i)"
    "identifier_array (PStrs (pi_outcome_ids i)) ''outcome_ids'' = Inr (pi_outcome_ids i)"
    using assms category_text [OF c]
    by (simp_all add: plan_issue_ok_def required_text_stripped identifier_array_ok)
  then show ?thesis using c
    by (simp add: issue_canon issue_from_raw_def get_def insert_commute)
qed

lemma verdict_canon:
  "canon (plan_verdict_to_dict v) = PDict [(''issues'', PList (map (\<lambda>i. canon (plan_issue_to_dict i)) (pv_issues v))),
     (''verdict'', PStr (pv_verdict v))]"
  by (simp add: plan_verdict_to_dict_def comp_def)

lemma verdict_read_back:
  assumes "plan_verdict_ok v"
  shows "verdict_from_raw (canon (plan_verdict_to_dict v)) = Inr v"
proof -
  have issues: "mapE issue_from_raw (map (\<lambda>i. canon (plan_issue_to_dict i)) (pv_issues v)) = Inr (pv_issues v)"
    using mapE_map [of "pv_issues v" issue_from_raw "\<lambda>i. canon (plan_issue_to_dict i)" "\<lambda>i. i"]
      issue_read_back assms by (simp add: plan_verdict_ok_def)
  have "verdict_word (PStr ''PASS'') = ''PASS''" "verdict_word (PStr ''REVISE'') = ''REVISE''"
    by code_simp+
  then show ?thesis using assms issues
    by (cases v) (auto simp: verdict_canon verdict_from_raw_def get_def plan_verdict_ok_def insert_commute)
qed

definition protocol_line :: "(rat \<Rightarrow> string) \<Rightarrow> plan_verdict \<Rightarrow> string" where
  "protocol_line fl v = PLAN_VERIFICATION_PREFIX @ '' '' @ json_text fl (plan_verdict_to_dict v)"

lemma verdict_writable:
  assumes "plan_verdict_ok v"
  shows "json_ok (plan_verdict_to_dict v)" "plain (plan_verdict_to_dict v)"
proof -
  have strs: "json_ok (PStrs xs)" "plain (PStrs xs) \<longleftrightarrow> (\<forall>x \<in> set xs. CHR 0x85 \<notin> set x)" for xs
    by (simp_all add: PStrs_def)
  have "plan_issue_ok i \<Longrightarrow> json_ok (plan_issue_to_dict i) \<and> plain (plan_issue_to_dict i)" for i
    using category_text [of "pi_category i"] identifier_chars
    by (auto simp: plan_issue_to_dict_def plan_issue_ok_def strs)
  then show "json_ok (plan_verdict_to_dict v)" "plain (plan_verdict_to_dict v)"
    using assms by (auto simp: plan_verdict_to_dict_def plan_verdict_ok_def)
qed

lemma dict_text_shape:
  "\<exists>s. json_text fl (PDict d) = CHR ''{'' # s @ [CHR ''}'']"
  by simp

lemma strip_space_before: "stripped s \<Longrightarrow> strip (CHR '' '' # s) = s"
proof -
  assume "stripped s"
  then have "strip s = s" by simp
  then show ?thesis by (simp add: strip_def py_isspace_def)
qed

lemma protocol_line_parts:
  assumes "plan_verdict_ok v"
  shows "one_line (protocol_line fl v)" "stripped (protocol_line fl v)"
    and "startswith (protocol_line fl v) PLAN_VERIFICATION_PREFIX"
    and "strip (drop (length PLAN_VERIFICATION_PREFIX) (protocol_line fl v))
      = json_text fl (plan_verdict_to_dict v)"
proof -
  obtain s where s: "json_text fl (plan_verdict_to_dict v) = CHR ''{'' # s @ [CHR ''}'']"
    using dict_text_shape unfolding plan_verdict_to_dict_def by blast
  have "one_line PLAN_VERIFICATION_PREFIX"
    by (simp add: PLAN_VERIFICATION_PREFIX_def) (simp add: is_break_def)
  then show "one_line (protocol_line fl v)"
    using one_line_json [OF verdict_writable [OF assms]] by (simp add: protocol_line_def) (simp add: is_break_def)
  show "stripped (protocol_line fl v)"
    unfolding protocol_line_def s by (simp add: stripped_def PLAN_VERIFICATION_PREFIX_def py_isspace_def)
  show "startswith (protocol_line fl v) PLAN_VERIFICATION_PREFIX"
    by (simp add: protocol_line_def startswith_def)
  have "stripped (json_text fl (plan_verdict_to_dict v))"
    unfolding s by (simp add: stripped_def py_isspace_def)
  then show "strip (drop (length PLAN_VERIFICATION_PREFIX) (protocol_line fl v))
      = json_text fl (plan_verdict_to_dict v)"
    by (simp add: protocol_line_def strip_space_before)
qed

lemma message_of_line: "one_line l \<Longrightarrow> stripped l \<Longrightarrow> message_lines l = [l]"
proof -
  assume l: "one_line l" "stripped l"
  then have "splitlines l = [l]" by (intro splitlines_line) (auto simp: one_line_def stripped_def)
  moreover have "l \<noteq> []" using l(2) by (simp add: stripped_def)
  ultimately show ?thesis using l(2) by (simp add: message_lines_def)
qed

text \<open>
  C16. The protocol is a faithful channel: a verifier that ends its message with the
  protocol line of a well-formed verdict, after any prose without such a line, is
  understood as that verdict.
\<close>

theorem plan_verdict_round_trip:
  assumes "plan_verdict_ok v"
    and "\<forall>l \<in> set (message_lines prose). \<not> startswith l PLAN_VERIFICATION_PREFIX"
  shows "parse_plan_verification_result (prose @ CHR 0x0A # protocol_line fl v) = Inr v"
proof -
  note l = protocol_line_parts [OF assms(1), of fl]
  have lines: "message_lines (prose @ CHR 0x0A # protocol_line fl v) = message_lines prose @ [protocol_line fl v]"
    using message_lines_append message_of_line [OF l(1,2)] by simp
  have "filter (\<lambda>l. startswith l PLAN_VERIFICATION_PREFIX) (message_lines prose @ [protocol_line fl v])
      = [protocol_line fl v]"
    using assms(2) l(3) by (simp add: filter_empty_conv)
  moreover have "json_loads (json_text fl (plan_verdict_to_dict v)) = Some (canon (plan_verdict_to_dict v))"
    by (rule json_round_trip [OF verdict_writable(1) [OF assms(1)]])
  ultimately show ?thesis
    using verdict_read_back [OF assms(1)] l(4)
    by (simp add: parse_plan_verification_result_def lines)
qed

definition sample_verdict :: plan_verdict where
  "sample_verdict = \<lparr>pv_verdict = ''REVISE'', pv_issues = [\<lparr>pi_category = ''coverage'',
     pi_summary = ''no producer'', pi_task_ids = [''a''], pi_outcome_ids = []\<rparr>]\<rparr>"

theorem plan_verdict_round_trip_witness:
  "parse_plan_verification_result (''I looked.'' @ CHR 0x0A # protocol_line (\<lambda>_. []) sample_verdict)
    = Inr sample_verdict"
proof (rule plan_verdict_round_trip)
  show "plan_verdict_ok sample_verdict"
    by (simp add: plan_verdict_ok_def plan_issue_ok_def sample_verdict_def ISSUE_CATEGORIES_def
        stripped_def py_isspace_def is_identifier_def is_letter_def)
  show "\<forall>l \<in> set (message_lines ''I looked.''). \<not> startswith l PLAN_VERIFICATION_PREFIX" by code_simp
qed

section \<open>Coverage\<close>

lemma producers_Nil: "producers ts oc = [] \<longleftrightarrow> (\<forall>t \<in> set ts. oc \<notin> set (t_produces_outcomes t))"
  by (auto simp: producers_def filter_empty_conv)

text \<open>
  Deterministic admission is exactly coverage: a plan passes if and only if it has no
  Goal Contract or every required outcome is produced by one of its tasks.
\<close>

theorem admission_is_coverage:
  "require_deterministic_plan_admission p = Inr () \<longleftrightarrow>
    (case pl_goal_contract p of None \<Rightarrow> True
     | Some c \<Rightarrow> set (map ge_id (gc_required_outcomes c))
         \<subseteq> (\<Union>t \<in> set (pl_tasks p). set (t_produces_outcomes t)))"
  by (auto simp: require_deterministic_plan_admission_def deterministic_plan_issues_def
      coverage_issues_def filter_empty_conv producers_Nil outcome_ids_def split: option.splits)

end
