(* ===== verification/Usage.thy ===== *)
theory Usage
  imports Prelude
begin

text \<open>
  \<^verbatim>\<open>usage.py\<close>: how many workers may run under the account's rate limits. The
  snapshot is the JSON object App Server sends; a float is modelled by the rational it
  stands for, so not-a-number, the infinities and the negative zero are outside the model.
  The subtraction from 100 is exact on doubles wherever the result decides a comparison. An
  integer too large for a double raises \<^verbatim>\<open>OverflowError\<close>, as
  \<^verbatim>\<open>float\<close> does. The properties bound the budget and show that it only shrinks
  as the window fills.
\<close>

section \<open>The snapshot\<close>

definition snapshot_of :: "pyval \<Rightarrow> pyval dict" where
  "snapshot_of limits = (case limits of
     PDict d \<Rightarrow> (case get d ''rateLimits'' of PDict inner \<Rightarrow> inner | _ \<Rightarrow> d)
   | _ \<Rightarrow> [])"

definition as_mapping :: "pyval \<Rightarrow> pyval dict" where
  "as_mapping v = (case v of PDict d \<Rightarrow> d | _ \<Rightarrow> [])"

definition burns_without_a_wall :: "pyval dict \<Rightarrow> bool" where
  "burns_without_a_wall credits \<longleftrightarrow>
     truthy (get credits ''unlimited'') \<or> truthy (get credits ''hasCredits'')"

text \<open>
  \<^verbatim>\<open>float(value)\<close> of an int, a truth value or a float. The first integer a double
  does not hold, under rounding to nearest, is \<^verbatim>\<open>2**1024 - 2**970\<close>.
\<close>

fun as_float :: "pyval \<Rightarrow> rat result option" where
  "as_float (PInt n) = Some (if \<bar>n\<bar> \<ge> 2 ^ 1024 - 2 ^ 970
     then Inl (OverflowError ''int too large to convert to float'') else Inr (of_int n))"
| "as_float (PFloat q) = Some (Inr q)"
| "as_float (PBool b) = Some (Inr (if b then 1 else 0))"
| "as_float v = None"

definition round_half_even :: "rat \<Rightarrow> int" where
  "round_half_even q = (let f = \<lfloor>q\<rfloor>; r = q - of_int f in
     if r < 1 / 2 then f else if r > 1 / 2 then f + 1 else if even f then f else f + 1)"

definition percent_used :: "rat \<Rightarrow> string" where
  "percent_used q = (if q < 0 \<and> round_half_even q = 0 then ''-0'' else dec_int (round_half_even q))
     @ ''% of the window used''"

section \<open>The budget\<close>

record worker_budget =
  wb_workers :: "int option"
  wb_reason :: string
  wb_limited :: bool

definition budget :: "int option \<Rightarrow> string \<Rightarrow> bool \<Rightarrow> worker_budget" where
  "budget w r l = \<lparr>wb_workers = w, wb_reason = r, wb_limited = l\<rparr>"

text \<open>The last part of \<^verbatim>\<open>worker_budget\<close>: the window's usage is known.\<close>

definition window_budget :: "int \<Rightarrow> rat \<Rightarrow> worker_budget" where
  "window_budget declared used =
     (let remaining = max 0 (100 - used) in
      if remaining \<ge> 50 then budget (Some declared) (percent_used used) False
      else if remaining \<ge> 25 then
        budget (Some (min declared (max 2 (declared div 2)))) (percent_used used) True
      else if remaining \<ge> 10 then budget (Some (min declared 2)) (percent_used used) True
      else budget (Some 1) (percent_used used) True)"

definition worker_budget :: "int \<Rightarrow> pyval \<Rightarrow> bool \<Rightarrow> worker_budget result" where
  "worker_budget declared0 limits declared_by_user =
     (let declared = max 1 declared0;
          snapshot = snapshot_of limits;
          credits = as_mapping (get snapshot ''credits'')
      in if snapshot = [] then Inr (budget (Some declared) ''no rate-limit data'' False)
         else if truthy (get snapshot ''spendControlReached'') then
           Inr (budget (Some 1) ''the spending cap set by the user has been reached'' True)
         else if truthy (get snapshot ''rateLimitReachedType'') then
           Inr (budget (Some 1) ''the limit is already exhausted'' True)
         else if burns_without_a_wall credits then
           (if declared_by_user
            then Inr (budget (Some declared) ''unlimited billing, the number was set by the user'' False)
            else Inr (budget None ''unlimited billing: no ceiling'' False))
         else (case as_float (get (as_mapping (get snapshot ''primary'')) ''usedPercent'') of
             None \<Rightarrow> Inr (budget (Some declared) ''window usage unknown'' False)
           | Some used \<Rightarrow> bindE used (\<lambda>q. Inr (window_budget declared q))))"

section \<open>What the human is told\<close>

definition PLUS_DEFAULT_WORKERS :: int where "PLUS_DEFAULT_WORKERS = 3"
definition STANDARD_DEFAULT_WORKERS :: int where "STANDARD_DEFAULT_WORKERS = 10"
definition PLUS_PLANS :: "string list" where
  "PLUS_PLANS = [''plus'', ''chatgpt-plus'', ''plus-monthly'']"

definition PLAN_NAMES :: "(string \<times> string) list" where
  "PLAN_NAMES = [(''plus'', ''Plus''), (''chatgpt-plus'', ''Plus''), (''plus-monthly'', ''Plus''),
     (''pro'', ''Pro''), (''prolite'', ''Pro''), (''chatgpt-pro'', ''Pro''), (''team'', ''Team''),
     (''business'', ''Business''), (''enterprise'', ''Enterprise'')]"

text \<open>
  \<^verbatim>\<open>str(raw or "").strip().lower()\<close>, which is only ever looked up in the two
  tables: the text of a value that is no text is in neither, as the empty text is not.
\<close>

definition plan_slug :: "pyval \<Rightarrow> string" where
  "plan_slug raw = (case raw of PStr s \<Rightarrow> lower (strip s) | _ \<Rightarrow> [])"

definition is_plus :: "pyval \<Rightarrow> bool" where
  "is_plus raw \<longleftrightarrow> plan_slug raw \<in> set PLUS_PLANS"

definition human_plan_name :: "pyval \<Rightarrow> string" where
  "human_plan_name raw = (case map_of PLAN_NAMES (plan_slug raw) of None \<Rightarrow> [] | Some n \<Rightarrow> n)"

definition default_workers :: "pyval \<Rightarrow> int" where
  "default_workers limits =
     (if plan_slug (get (snapshot_of limits) ''planType'') \<in> set PLUS_PLANS
      then PLUS_DEFAULT_WORKERS else STANDARD_DEFAULT_WORKERS)"

definition capacity_notice :: "pyval \<Rightarrow> int option \<Rightarrow> int option \<Rightarrow> string" where
  "capacity_notice limits declared running =
     (let snapshot = snapshot_of limits;
          credits = as_mapping (get snapshot ''credits'');
          plan_type = human_plan_name (get snapshot ''planType'');
          fallback = default_workers limits;
          actual = (case running of Some n \<Rightarrow> n | None \<Rightarrow> fallback)
      in case declared of
        Some n \<Rightarrow> ''Parallel workers: '' @ dec_int n @ '' - as you specified. ''
          @ ''To change it, name another number and start again.''
      | None \<Rightarrow>
          if burns_without_a_wall credits then
            ''Your billing is unlimited, so there is no ceiling on parallel workers: ''
            @ ''as many tasks run at once as the plan opens, up to '' @ dec_int actual @ ''. ''
            @ ''To cap it, name a number and start again.''
          else if is_plus (get snapshot ''planType'') then
            (let recommendation = (if actual \<noteq> fallback
               then dec_int fallback @ '' is what it comfortably supports''
               else ''that is what it comfortably supports'')
             in ''Plan '' @ plan_type @ '': this run uses '' @ dec_int actual
              @ '' parallel workers. '' @ ''The limit window is narrow here and '' @ recommendation
              @ ''; ten would burn it in one run. ''
              @ ''To change it, name a number and start again.'')
          else if plan_type \<noteq> [] then
            ''Plan '' @ plan_type @ '': this run uses '' @ dec_int actual @ '' parallel workers, ''
            @ ''and they narrow by themselves as the limit window runs low. ''
            @ ''To change it, name a number and start again.''
          else ''This run uses '' @ dec_int actual
            @ '' parallel workers. To change it, name a number and start again; as the limit ''
            @ ''approaches they narrow by themselves.'')"

section \<open>Bounds\<close>

definition spend_capped :: "pyval \<Rightarrow> bool" where
  "spend_capped limits \<longleftrightarrow> truthy (get (snapshot_of limits) ''spendControlReached'') \<or>
     truthy (get (snapshot_of limits) ''rateLimitReachedType'')"

definition unlimited_account :: "pyval \<Rightarrow> bool" where
  "unlimited_account limits \<longleftrightarrow> burns_without_a_wall (as_mapping (get (snapshot_of limits) ''credits''))"

lemma wb_budget [simp]:
  "wb_workers (budget w r l) = w" "wb_reason (budget w r l) = r" "wb_limited (budget w r l) = l"
  by (simp_all add: budget_def)

lemma snapshot_empty [simp]:
  "snapshot_of limits = [] \<Longrightarrow> \<not> spend_capped limits"
  "snapshot_of limits = [] \<Longrightarrow> \<not> unlimited_account limits"
  by (simp_all add: spend_capped_def unlimited_account_def burns_without_a_wall_def
      as_mapping_def get_def)

lemma window_budget_bounds:
  "1 \<le> d \<Longrightarrow> \<exists>n. wb_workers (window_budget d used) = Some n \<and> 1 \<le> n \<and> n \<le> d"
  by (auto simp: window_budget_def Let_def)

lemma window_budget_antitone:
  assumes "1 \<le> d" "used \<le> used'"
  shows "the (wb_workers (window_budget d used')) \<le> the (wb_workers (window_budget d used))"
  using assms by (auto simp: window_budget_def Let_def max_def min_def)

lemma worker_budget_ceiling:
  assumes "worker_budget declared limits by_user = Inr b" "wb_workers b = Some n"
  shows "1 \<le> n \<and> n \<le> max 1 declared"
proof -
  have "wb_workers b \<in> {None, Some 1, Some (max 1 declared)} \<or> (\<exists>q. b = window_budget (max 1 declared) q)"
    using assms(1) by (auto simp: worker_budget_def Let_def split: if_splits option.splits)
  then show ?thesis
  proof
    assume "\<exists>q. b = window_budget (max 1 declared) q"
    then obtain q where q: "b = window_budget (max 1 declared) q" ..
    have "\<exists>m. wb_workers (window_budget (max 1 declared) q) = Some m \<and> 1 \<le> m \<and> m \<le> max 1 declared"
      by (rule window_budget_bounds) simp
    then show ?thesis using assms(2) q by auto
  qed (use assms(2) in auto)
qed

text \<open>
  C10. The budget is a ceiling that only goes down: whenever it names a number, the number
  is at least one and at most the declared one (or one, if less was declared). It names no
  number exactly for an account with unlimited billing whose spending cap and limit are
  not reached and whose owner named no number.
\<close>

theorem worker_budget_bounds:
  assumes "worker_budget declared limits by_user = Inr b"
  shows "(case wb_workers b of
      Some n \<Rightarrow> 1 \<le> n \<and> n \<le> max 1 declared
        \<and> \<not> (unlimited_account limits \<and> \<not> spend_capped limits \<and> \<not> by_user)
    | None \<Rightarrow> unlimited_account limits \<and> \<not> spend_capped limits \<and> \<not> by_user)"
proof (cases "snapshot_of limits = [] \<or> spend_capped limits \<or> unlimited_account limits")
  case True
  with assms show ?thesis
    by (auto simp: worker_budget_def Let_def spend_capped_def unlimited_account_def
        burns_without_a_wall_def as_mapping_def get_def split: if_splits)
next
  case False
  then have "b = budget (Some (max 1 declared)) ''window usage unknown'' False
      \<or> (\<exists>q. b = window_budget (max 1 declared) q)"
    using assms
    by (auto simp: worker_budget_def Let_def spend_capped_def unlimited_account_def
        split: option.splits)
  moreover have "\<exists>n. wb_workers (window_budget (max 1 declared) q) = Some n \<and> 1 \<le> n \<and> n \<le> max 1 declared"
    for q by (rule window_budget_bounds) simp
  ultimately have "\<exists>n. wb_workers b = Some n \<and> 1 \<le> n \<and> n \<le> max 1 declared" by auto
  with False show ?thesis by auto
qed

definition sample_limits :: "rat \<Rightarrow> pyval" where
  "sample_limits q = PDict [(''primary'', PDict [(''usedPercent'', PFloat q)])]"

theorem worker_budget_bounds_witness:
  "wb_workers (window_budget 10 60) = Some 5"
proof -
  have w: "worker_budget 10 (sample_limits 60) False = Inr (window_budget 10 60)"
    by (simp add: worker_budget_def sample_limits_def snapshot_of_def as_mapping_def get_def
        burns_without_a_wall_def Let_def)
  from worker_budget_bounds [OF w] have "wb_workers (window_budget 10 60) \<noteq> None"
    by (auto simp: unlimited_account_def sample_limits_def snapshot_of_def as_mapping_def get_def
        burns_without_a_wall_def split: option.splits)
  then show ?thesis by (simp add: window_budget_def)
qed

text \<open>
  More of the window used never means more workers: of two snapshots of the same
  account that differ in the percentage only, the fuller one gets at most as many.
\<close>

theorem worker_budget_antitone:
  assumes "worker_budget declared limits by_user = Inr b"
    and "worker_budget declared limits' by_user = Inr b'"
    and "get (snapshot_of limits) ''spendControlReached'' = get (snapshot_of limits') ''spendControlReached''"
    and "get (snapshot_of limits) ''rateLimitReachedType'' = get (snapshot_of limits') ''rateLimitReachedType''"
    and "get (snapshot_of limits) ''credits'' = get (snapshot_of limits') ''credits''"
    and "as_float (get (as_mapping (get (snapshot_of limits) ''primary'')) ''usedPercent'') = Some (Inr used)"
    and "as_float (get (as_mapping (get (snapshot_of limits') ''primary'')) ''usedPercent'') = Some (Inr used')"
    and "used \<le> used'"
  shows "(case (wb_workers b, wb_workers b') of
      (Some n, Some n') \<Rightarrow> n' \<le> n | (None, None) \<Rightarrow> True | _ \<Rightarrow> False)"
proof -
  have ne: "snapshot_of limits \<noteq> []" "snapshot_of limits' \<noteq> []"
    using assms(6,7) by (auto simp: get_def as_mapping_def)
  show ?thesis
  proof (cases "spend_capped limits \<or> unlimited_account limits")
    case True
    with ne assms(1-5) show ?thesis
      by (auto simp: worker_budget_def Let_def spend_capped_def unlimited_account_def
          split: if_splits)
  next
    case False
    then have "b = window_budget (max 1 declared) used" "b' = window_budget (max 1 declared) used'"
      using ne assms(1-7)
      by (auto simp: worker_budget_def Let_def spend_capped_def unlimited_account_def)
    then show ?thesis
      using window_budget_antitone [of "max 1 declared", OF _ assms(8)]
        window_budget_bounds [of "max 1 declared" used] window_budget_bounds [of "max 1 declared" used']
      by auto
  qed
qed

theorem worker_budget_antitone_witness:
  "wb_workers (window_budget 10 80) = Some 2 \<and> wb_workers (window_budget 10 60) = Some 5"
proof -
  have w: "worker_budget 10 (sample_limits q) False = Inr (window_budget 10 q)" for q
    by (simp add: worker_budget_def sample_limits_def snapshot_of_def as_mapping_def get_def
        burns_without_a_wall_def Let_def)
  have "case (wb_workers (window_budget 10 60), wb_workers (window_budget 10 80)) of
      (Some n, Some n') \<Rightarrow> n' \<le> n | (None, None) \<Rightarrow> True | _ \<Rightarrow> False"
    by (rule worker_budget_antitone [OF w w, where used = 60 and used' = 80])
      (simp_all add: sample_limits_def snapshot_of_def as_mapping_def get_def)
  then show ?thesis by (simp add: window_budget_def)
qed

end
