(* ===== verification/RunStates.thy ===== *)
theory RunStates
  imports PlanVerification TaskStates Usage
begin

text \<open>
  The durable run state (\<^verbatim>\<open>RunState\<close> of \<^verbatim>\<open>run_state.py\<close>) and the append-only
  journals in it. The record has the fields the modelled operations read or write, with the
  types the class declares; dictionaries the runtime stores as JSON (locks, sessions, plan
  changes, journal entries) stay JSON values. The interface \<open>journal\<close> says what an
  append must keep: entries are never changed and their sequence numbers have no gap.
\<close>

section \<open>The state\<close>

record run_state =
  rs_schema_version :: int
  rs_run_id :: string
  rs_status :: string
  rs_phase :: string
  rs_graph_version :: int
  rs_execution_strategy :: string
  rs_max_parallel_workers :: int
  rs_computer_use_slots :: int
  rs_task_states :: "string dict"
  rs_task_attempts :: "int dict"
  rs_task_revisions :: "int dict"
  rs_task_rehires :: "int dict"
  rs_task_effort :: "string dict"
  rs_task_revision_basis :: "pyval dict"
  rs_active_task_ids :: "string list"
  rs_scheduler_sequence :: int
  rs_task_ready_since :: "int dict"
  rs_resource_journal_sequence :: int
  rs_resource_locks :: "pyval list"
  rs_resource_lock_journal :: "pyval list"
  rs_lifecycle_journal_sequence :: int
  rs_lifecycle_journal :: "pyval list"
  rs_worker_sessions :: "pyval dict list"
  rs_task_retry_at :: "int dict"
  rs_rate_limit_until :: "int option"
  rs_rate_limits :: pyval
  rs_plan_verification :: pyval
  rs_accepted_plan_patches_since_full_revalidation :: int
  rs_plan_change_sequence :: int
  rs_active_plan_change_id :: "string option"
  rs_plan_changes :: "pyval dict list"
  rs_resilience_journal_sequence :: int
  rs_resilience_journal :: "pyval dict list"
  rs_failure_signature_attempts :: "int dict"

section \<open>Journals\<close>

text \<open>\<^verbatim>\<open>list(range(1, n + 1))\<close> as JSON values.\<close>

definition sequence_upto :: "int \<Rightarrow> pyval list" where
  "sequence_upto n = map PInt [1..n]"

locale journal =
  fixes entries :: "'s \<Rightarrow> pyval dict list"
    and sequence :: "'s \<Rightarrow> int"
    and append_event :: "'s \<Rightarrow> 'e \<Rightarrow> 's"
  assumes grows: "\<exists>entry. entries (append_event s e) = entries s @ [entry]
      \<and> get entry ''sequence'' = PInt (sequence (append_event s e))"
    and counts: "sequence (append_event s e) = sequence s + 1"
begin

definition contiguous :: "'s \<Rightarrow> bool" where
  "contiguous s \<longleftrightarrow> 0 \<le> sequence s \<and> map (\<lambda>d. get d ''sequence'') (entries s) = sequence_upto (sequence s)"

lemma append_contiguous: "contiguous s \<Longrightarrow> contiguous (append_event s e)"
proof -
  assume c: "contiguous s"
  obtain entry where e: "entries (append_event s e) = entries s @ [entry]"
    "get entry ''sequence'' = PInt (sequence s + 1)"
    using grows [of s e] counts [of s e] by auto
  have "sequence_upto (sequence s + 1) = sequence_upto (sequence s) @ [PInt (sequence s + 1)]"
    using c by (simp add: sequence_upto_def contiguous_def upto_rec2)
  with c e show ?thesis by (simp add: contiguous_def counts)
qed

lemma run_contiguous: "contiguous s \<Longrightarrow> contiguous (fold (\<lambda>e s. append_event s e) es s)"
  by (induction es arbitrary: s) (simp_all add: append_contiguous)

lemma history_kept: "\<exists>new. entries (fold (\<lambda>e s. append_event s e) es s) = entries s @ new"
proof (induction es arbitrary: s)
  case Nil
  show ?case by simp
next
  case (Cons e es)
  obtain entry where "entries (append_event s e) = entries s @ [entry]" using grows [of s e] by blast
  moreover obtain new where
    "entries (fold (\<lambda>e s. append_event s e) es (append_event s e)) = entries (append_event s e) @ new"
    using Cons [of "append_event s e"] by blast
  ultimately show ?case by simp
qed

end

section \<open>The resilience journal\<close>

text \<open>
  \<^verbatim>\<open>_text\<close> of \<^verbatim>\<open>resilience.py\<close>: a text with its white space collapsed,
  neither empty nor longer than the maximum.
\<close>

definition collapsed_text :: "pyval \<Rightarrow> string \<Rightarrow> nat \<Rightarrow> string result" where
  "collapsed_text v label maximum = (case v of
     PStr s \<Rightarrow>
       if squeeze s = [] \<or> length (squeeze s) > maximum
       then Inl (PlanChangeProtocolError ''must contain a bounded number of characters'' [label])
       else Inr (squeeze s)
   | _ \<Rightarrow> Inl (PlanChangeProtocolError ''must be a string'' [label]))"

definition opt_text :: "string option \<Rightarrow> pyval" where
  "opt_text v = (case v of None \<Rightarrow> PNone | Some s \<Rightarrow> PStr s)"

text \<open>An event: its name, the optional time, task and plan change, and the detail.\<close>

type_synonym resilience_event = "string \<times> string option \<times> string option \<times> string option \<times> pyval dict"

definition resilience_entry :: "string \<Rightarrow> int \<Rightarrow> string \<Rightarrow> resilience_event \<Rightarrow> pyval dict" where
  "resilience_entry now n name e = (case e of (_, moment, task, change, detail) \<Rightarrow>
     [(''sequence'', PInt n), (''event'', PStr name),
      (''at'', PStr (case moment of None \<Rightarrow> now | Some a \<Rightarrow> if a = [] then now else a)),
      (''task_id'', opt_text task), (''plan_change_id'', opt_text change), (''detail'', PDict detail)])"

definition append_resilience_event :: "string \<Rightarrow> run_state \<Rightarrow> resilience_event \<Rightarrow> run_state result" where
  "append_resilience_event now st e =
     (let n = rs_resilience_journal_sequence st + 1 in
      bindE (collapsed_text (PStr (fst e)) ''resilience event'' 128) (\<lambda>name.
      Inr (st\<lparr>rs_resilience_journal_sequence := n,
        rs_resilience_journal := rs_resilience_journal st @ [resilience_entry now n name e]\<rparr>)))"

text \<open>
  Every caller names its event by a word that needs no collapsing, so its append succeeds;
  the total operation is what the journal interface is about.
\<close>

definition journal_event :: "string \<Rightarrow> run_state \<Rightarrow> resilience_event \<Rightarrow> run_state" where
  "journal_event now st e =
     (let n = rs_resilience_journal_sequence st + 1 in
      st\<lparr>rs_resilience_journal_sequence := n,
        rs_resilience_journal := rs_resilience_journal st @ [resilience_entry now n (squeeze (fst e)) e]\<rparr>)"

lemma append_resilience_event_Inr:
  "append_resilience_event now st e = Inr st' \<longleftrightarrow>
     squeeze (fst e) \<noteq> [] \<and> length (squeeze (fst e)) \<le> 128 \<and> st' = journal_event now st e"
  by (auto simp: append_resilience_event_def journal_event_def collapsed_text_def Let_def)

interpretation rj: journal rs_resilience_journal rs_resilience_journal_sequence "journal_event now" for now
proof
  fix st :: run_state and e :: resilience_event
  show "\<exists>entry. rs_resilience_journal (journal_event now st e) = rs_resilience_journal st @ [entry]
      \<and> get entry ''sequence'' = PInt (rs_resilience_journal_sequence (journal_event now st e))"
    by (simp add: journal_event_def resilience_entry_def get_def Let_def split: prod.split)
  show "rs_resilience_journal_sequence (journal_event now st e) = rs_resilience_journal_sequence st + 1"
    by (simp add: journal_event_def Let_def)
qed

section \<open>A sample state\<close>

definition sample_state :: "plan \<Rightarrow> string dict \<Rightarrow> string list \<Rightarrow> run_state" where
  "sample_state p states active = \<lparr>rs_schema_version = 5, rs_run_id = ''run'', rs_status = ''RUNNING'',
     rs_phase = ''RUNNING'', rs_graph_version = pl_graph_version p, rs_execution_strategy = ''auto'',
     rs_max_parallel_workers = 10, rs_computer_use_slots = 1, rs_task_states = states,
     rs_task_attempts = [], rs_task_revisions = [], rs_task_rehires = [], rs_task_effort = [],
     rs_task_revision_basis = [], rs_active_task_ids = active, rs_scheduler_sequence = 0,
     rs_task_ready_since = [], rs_resource_journal_sequence = 0, rs_resource_locks = [],
     rs_resource_lock_journal = [], rs_lifecycle_journal_sequence = 0, rs_lifecycle_journal = [],
     rs_worker_sessions = [], rs_task_retry_at = [], rs_rate_limit_until = None,
     rs_rate_limits = PNone, rs_plan_verification = PNone,
     rs_accepted_plan_patches_since_full_revalidation = 0, rs_plan_change_sequence = 0,
     rs_active_plan_change_id = None, rs_plan_changes = [], rs_resilience_journal_sequence = 0,
     rs_resilience_journal = [], rs_failure_signature_attempts = []\<rparr>"

end
