(* ===== verification/GraphRelevance.thy ===== *)
theory GraphRelevance
  imports PlanGraph
begin

text \<open>
  \<^verbatim>\<open>_graph_relevance\<close> of \<^verbatim>\<open>scheduler.py\<close>: for every task the length of the
  longest dependency chain it starts and the number of tasks that transitively depend on
  it, by a memoised depth-first search. The recursion has an explicit depth bound whose
  exhaustion stands for the interpreter's \<^verbatim>\<open>RecursionError\<close>; the number of tasks
  is enough for every acyclic plan.
\<close>

section \<open>The search\<close>

type_synonym relevance = "int dict \<times> string list dict"

definition max_default :: "int list \<Rightarrow> int" where
  "max_default ns = foldr max ns 0"

text \<open>
  One visit and the visits of the children in turn. A descendant set is a list without
  repetition.
\<close>

definition finish_visit :: "(string \<Rightarrow> string list) \<Rightarrow> string \<Rightarrow> relevance \<Rightarrow> relevance" where
  "finish_visit children i st = (case st of (critical, descendants) \<Rightarrow>
     (AList.update i (1 + max_default (map (\<lambda>c. the (map_of critical c)) (children i))) critical,
      AList.update i (remdups (children i @ concat (map (\<lambda>c. the (map_of descendants c)) (children i))))
        descendants))"

fun visit :: "nat \<Rightarrow> (string \<Rightarrow> string list) \<Rightarrow> string \<Rightarrow> relevance \<Rightarrow> relevance option"
  and visit_children :: "nat \<Rightarrow> (string \<Rightarrow> string list) \<Rightarrow> string list \<Rightarrow> relevance \<Rightarrow> relevance option"
where
  "visit 0 children i st = None"
| "visit (Suc n) children i st =
     (if i \<in> set (keys (fst st)) then Some st
      else map_option (finish_visit children i) (visit_children n children (children i) st))"
| "visit_children n children [] st = Some st"
| "visit_children n children (c # cs) st =
     Option.bind (visit n children c st) (\<lambda>st'. visit_children n children cs st')"

definition graph_relevance :: "task list \<Rightarrow> (int dict \<times> int dict) result" where
  "graph_relevance ts =
     (case unknown_dependencies ts of
        d # _ \<Rightarrow> Inl (KeyError d)
      | [] \<Rightarrow>
         (case visit_children (Suc (length ts)) (dependents ts) (rev (map t_id ts)) ([], []) of
            None \<Rightarrow> Inl (RecursionError ''maximum recursion depth exceeded'')
          | Some (critical, descendants) \<Rightarrow>
              Inr (critical, map (\<lambda>(i, items). (i, int (length items))) descendants)))"

section \<open>Chains\<close>

text \<open>A chain of dependencies: each task is a prerequisite of the next.\<close>

definition dep_chain :: "task list \<Rightarrow> string list \<Rightarrow> bool" where
  "dep_chain ts c \<longleftrightarrow> c \<noteq> [] \<and> successively (\<lambda>a b. b \<in> set (dependents ts a)) c"

definition longest_from :: "task list \<Rightarrow> string \<Rightarrow> int \<Rightarrow> bool" where
  "longest_from ts i n \<longleftrightarrow>
     (\<exists>c. dep_chain ts c \<and> hd c = i \<and> int (length c) = n) \<and>
     (\<forall>c. dep_chain ts c \<and> hd c = i \<longrightarrow> int (length c) \<le> n)"

definition relevance_inv :: "task list \<Rightarrow> relevance \<Rightarrow> bool" where
  "relevance_inv ts st \<longleftrightarrow>
     map fst (snd st) = map fst (fst st) \<and> distinct (keys (fst st)) \<and>
     (\<forall>i n. map_of (fst st) i = Some n \<longrightarrow> longest_from ts i n) \<and>
     (\<forall>i ds. map_of (snd st) i = Some ds \<longrightarrow> distinct ds \<and> set ds = (dep_rel ts)\<^sup>+ `` {i})"

definition depth_ok :: "task list \<Rightarrow> string \<Rightarrow> nat \<Rightarrow> bool" where
  "depth_ok ts i n \<longleftrightarrow> (\<forall>c. dep_chain ts c \<and> hd c = i \<longrightarrow> length c \<le> n)"

lemma dep_rel_dependents: "(a, b) \<in> dep_rel ts \<longleftrightarrow> b \<in> set (dependents ts a)"
  by (auto simp: dep_rel_def set_dependents)

lemma dep_chain_single [simp]: "dep_chain ts [i]"
  by (simp add: dep_chain_def)

lemma dep_chain_Cons: "dep_chain ts (i # c) \<longleftrightarrow> c = [] \<or> hd c \<in> set (dependents ts i) \<and> dep_chain ts c"
  by (cases c) (auto simp: dep_chain_def)

lemma depth_ok_pos: "depth_ok ts i n \<Longrightarrow> 0 < n"
  unfolding depth_ok_def by (metis dep_chain_single list.sel(1) length_greater_0_conv list.discI
      le_zero_eq neq0_conv)

lemma depth_ok_child: "depth_ok ts i (Suc n) \<Longrightarrow> c \<in> set (dependents ts i) \<Longrightarrow> depth_ok ts c n"
  unfolding depth_ok_def
proof (intro allI impI)
  fix ch
  assume d: "\<forall>c. dep_chain ts c \<and> hd c = i \<longrightarrow> length c \<le> Suc n" and c: "c \<in> set (dependents ts i)"
    and ch: "dep_chain ts ch \<and> hd ch = c"
  then have "dep_chain ts (i # ch)" by (simp add: dep_chain_Cons)
  with d show "length ch \<le> n" by (metis Suc_le_mono length_Cons list.sel(1))
qed

lemma max_default_ge: "n \<in> set ns \<Longrightarrow> n \<le> max_default ns"
  by (induction ns) (auto simp: max_default_def)

lemma max_default_in: "max_default ns = 0 \<or> max_default ns \<in> set ns"
  by (induction ns) (auto simp: max_default_def max_def)

lemma longest_unique: "longest_from ts i m \<Longrightarrow> longest_from ts i n \<Longrightarrow> m = n"
  unfolding longest_from_def by (metis order_antisym)

lemma longest_pos: "longest_from ts i n \<Longrightarrow> 1 \<le> n"
  unfolding longest_from_def using dep_chain_single [of ts i] by fastforce

lemma longest_step:
  assumes "\<And>c. c \<in> set (dependents ts i) \<Longrightarrow> longest_from ts c (f c)"
  shows "longest_from ts i (1 + max_default (map f (dependents ts i)))"
proof -
  let ?m = "max_default (map f (dependents ts i))"
  have ub: "int (length ch) \<le> 1 + ?m" if ch: "dep_chain ts ch" "hd ch = i" for ch
  proof (cases "tl ch = []")
    case True
    then have "length ch \<le> 1" by (cases ch) auto
    moreover have "0 \<le> ?m"
    proof (cases "dependents ts i = []")
      case False
      then obtain c where c: "c \<in> set (dependents ts i)" by (cases "dependents ts i") auto
      then have "f c \<le> ?m" by (intro max_default_ge) auto
      then show ?thesis using longest_pos [OF assms [OF c]] by simp
    qed (simp add: max_default_def)
    ultimately show ?thesis by simp
  next
    case False
    then have "ch = i # tl ch" using ch by (cases ch) auto
    then have t: "hd (tl ch) \<in> set (dependents ts i)" "dep_chain ts (tl ch)"
      using ch(1) False dep_chain_Cons by metis+
    then have "int (length (tl ch)) \<le> f (hd (tl ch))" using assms unfolding longest_from_def by blast
    also have "\<dots> \<le> ?m" using t(1) by (intro max_default_ge) auto
    finally show ?thesis by simp
  qed
  have ex: "\<exists>ch. dep_chain ts ch \<and> hd ch = i \<and> int (length ch) = 1 + ?m"
  proof (cases "?m = 0")
    case True
    then show ?thesis by (intro exI [of _ "[i]"]) simp
  next
    case False
    then obtain c where c: "c \<in> set (dependents ts i)" "?m = f c"
      using max_default_in [of "map f (dependents ts i)"] by auto
    then obtain ch where "dep_chain ts ch" "hd ch = c" "int (length ch) = ?m"
      using assms unfolding longest_from_def by metis
    then show ?thesis using c(1) by (intro exI [of _ "i # ch"]) (simp add: dep_chain_Cons)
  qed
  show ?thesis using ub ex unfolding longest_from_def by blast
qed

section \<open>The search keeps its tables right\<close>

lemma descendants_step: "(dep_rel ts)\<^sup>+ `` {i}
    = set (dependents ts i) \<union> (\<Union>c \<in> set (dependents ts i). (dep_rel ts)\<^sup>+ `` {c})"
proof (intro set_eqI iffI)
  fix j assume "j \<in> (dep_rel ts)\<^sup>+ `` {i}"
  then obtain c where "(i, c) \<in> dep_rel ts" "(c, j) \<in> (dep_rel ts)\<^sup>*" by (auto dest: tranclD)
  then show "j \<in> set (dependents ts i) \<union> (\<Union>c \<in> set (dependents ts i). (dep_rel ts)\<^sup>+ `` {c})"
    by (auto simp: dep_rel_dependents rtrancl_eq_or_trancl)
next
  fix j assume "j \<in> set (dependents ts i) \<union> (\<Union>c \<in> set (dependents ts i). (dep_rel ts)\<^sup>+ `` {c})"
  then show "j \<in> (dep_rel ts)\<^sup>+ `` {i}"
    by (auto simp flip: dep_rel_dependents intro: trancl_into_trancl2)
qed

lemma relevance_covers:
  assumes "relevance_inv ts st" "i \<in> set (keys (fst st))"
  obtains n ds where "map_of (fst st) i = Some n" "longest_from ts i n"
    "map_of (snd st) i = Some ds" "set ds = (dep_rel ts)\<^sup>+ `` {i}"
proof -
  have "map_of (fst st) i \<noteq> None" "map_of (snd st) i \<noteq> None"
    using assms unfolding relevance_inv_def map_of_eq_None_keys by simp_all
  with assms(1) that show ?thesis unfolding relevance_inv_def by blast
qed

lemma finish_visit_inv:
  assumes inv: "relevance_inv ts st" and cs: "set (dependents ts i) \<subseteq> set (keys (fst st))"
  shows "relevance_inv ts (finish_visit (dependents ts) i st)"
    and "set (keys (fst (finish_visit (dependents ts) i st))) = insert i (set (keys (fst st)))"
proof -
  obtain cr de where st: "st = (cr, de)" by (cases st)
  let ?n = "1 + max_default (map (\<lambda>c. the (map_of cr c)) (dependents ts i))"
  let ?ds = "remdups (dependents ts i @ concat (map (\<lambda>c. the (map_of de c)) (dependents ts i)))"
  have child: "longest_from ts c (the (map_of cr c)) \<and> set (the (map_of de c)) = (dep_rel ts)\<^sup>+ `` {c}"
    if "c \<in> set (dependents ts i)" for c
  proof -
    have "c \<in> set (keys (fst st))" using cs that by blast
    with inv show ?thesis by (rule relevance_covers) (simp add: st)
  qed
  have n: "longest_from ts i ?n" using child by (intro longest_step) blast
  have ds: "set ?ds = (dep_rel ts)\<^sup>+ `` {i}" "distinct ?ds"
    using child by (auto simp: descendants_step [of ts i])
  have keys: "map fst de = map fst cr" "distinct (map fst cr)"
    using inv st by (simp_all add: relevance_inv_def)
  have upd: "finish_visit (dependents ts) i (cr, de) = (AList.update i ?n cr, AList.update i ?ds de)"
    by (simp add: finish_visit_def)
  show "set (keys (fst (finish_visit (dependents ts) i st))) = insert i (set (keys (fst st)))"
    unfolding st upd fst_conv by (rule set_keys_update)
  have "map fst (AList.update i ?ds de) = map fst (AList.update i ?n cr)"
    using keys(1) by (simp add: update_keys)
  moreover have "distinct (map fst (AList.update i ?n cr))" using keys(2) by (rule distinct_update)
  ultimately show "relevance_inv ts (finish_visit (dependents ts) i st)"
    unfolding st upd using inv n ds st by (auto simp: relevance_inv_def)
qed

definition visited :: "task list \<Rightarrow> relevance \<Rightarrow> string set \<Rightarrow> relevance option \<Rightarrow> bool" where
  "visited ts st new r \<longleftrightarrow> (\<exists>st'. r = Some st' \<and> relevance_inv ts st' \<and>
     set (keys (fst st)) \<union> new \<subseteq> set (keys (fst st')))"

lemma visit_children_ok:
  assumes "\<And>c st. relevance_inv ts st \<Longrightarrow> depth_ok ts c n \<Longrightarrow> visited ts st {c} (visit n (dependents ts) c st)"
  shows "relevance_inv ts st \<Longrightarrow> \<forall>c \<in> set cs. depth_ok ts c n \<Longrightarrow>
    visited ts st (set cs) (visit_children n (dependents ts) cs st)"
proof (induction cs arbitrary: st)
  case Nil
  then show ?case by (simp add: visited_def)
next
  case (Cons c cs)
  then obtain st' where st': "visit n (dependents ts) c st = Some st'" "relevance_inv ts st'"
    "set (keys (fst st)) \<union> {c} \<subseteq> set (keys (fst st'))"
    using assms [of st c] unfolding visited_def by (metis list.set_intros(1))
  have "visited ts st' (set cs) (visit_children n (dependents ts) cs st')"
    using Cons.IH [of st'] st'(2) Cons.prems(2) by simp
  then obtain st'' where "visit_children n (dependents ts) cs st' = Some st''" "relevance_inv ts st''"
    "set (keys (fst st')) \<union> set cs \<subseteq> set (keys (fst st''))"
    unfolding visited_def by blast
  with st' show ?case unfolding visited_def by (intro exI [of _ st'']) auto
qed

lemma visit_ok: "relevance_inv ts st \<Longrightarrow> depth_ok ts i n \<Longrightarrow> visited ts st {i} (visit n (dependents ts) i st)"
proof (induction n arbitrary: i st)
  case 0
  then show ?case using depth_ok_pos by blast
next
  case (Suc n)
  show ?case
  proof (cases "i \<in> set (keys (fst st))")
    case True
    then show ?thesis using Suc.prems by (simp add: visited_def)
  next
    case False
    have "visited ts st (set (dependents ts i)) (visit_children n (dependents ts) (dependents ts i) st)"
      using visit_children_ok [OF Suc.IH] Suc.prems depth_ok_child by blast
    then obtain st' where "visit_children n (dependents ts) (dependents ts i) st = Some st'"
      "relevance_inv ts st'" "set (keys (fst st)) \<union> set (dependents ts i) \<subseteq> set (keys (fst st'))"
      unfolding visited_def by blast
    then show ?thesis
      using False finish_visit_inv [of ts st' i] by (auto simp: visited_def simp del: set_map)
  qed
qed

section \<open>Acyclic graphs have short chains\<close>

lemma dep_chain_trancl: "dep_chain ts c \<Longrightarrow> sorted_wrt (\<lambda>a b. (a, b) \<in> (dep_rel ts)\<^sup>+) c"
proof (induction c)
  case Nil
  then show ?case by simp
next
  case (Cons i c)
  show ?case
  proof (cases c)
    case Nil
    then show ?thesis by simp
  next
    case (Cons j d)
    then have "(i, j) \<in> dep_rel ts" and s: "sorted_wrt (\<lambda>a b. (a, b) \<in> (dep_rel ts)\<^sup>+) c"
      using Cons.prems Cons.IH by (auto simp: dep_chain_Cons dep_rel_dependents)
    then have "(i, b) \<in> (dep_rel ts)\<^sup>+" if "b \<in> set c" for b
      using that Cons by (auto intro: trancl_into_trancl2)
    with s show ?thesis by simp
  qed
qed

lemma dep_chain_bounded:
  assumes "acyclic (dep_rel ts)" "dep_chain ts c" "hd c \<in> set (map t_id ts)"
  shows "length c \<le> length ts"
proof -
  have "distinct c"
    using dep_chain_trancl [OF assms(2)] assms(1)
    by (induction c) (auto simp: acyclic_def)
  moreover have "set c \<subseteq> set (map t_id ts)"
    using assms(2,3)
  proof (induction c)
    case (Cons i c)
    then show ?case by (cases c) (auto simp: dep_chain_Cons set_dependents)
  qed simp
  ultimately have "length c \<le> card (set (map t_id ts))"
    by (metis List.finite_set card_mono distinct_card)
  also have "\<dots> \<le> length ts" by (metis card_length length_map)
  finally show ?thesis .
qed

text \<open>
  C18. The scheduler ranks by what it claims to: for an acyclic plan whose dependencies are
  declared, the search ends, and gives every task the length of the longest dependency chain
  it starts and the number of tasks that transitively depend on it.
\<close>

theorem graph_relevance_correct:
  assumes "unknown_dependencies ts = []" "acyclic (dep_rel ts)"
  shows "\<exists>critical fan_out. graph_relevance ts = Inr (critical, fan_out) \<and>
    (\<forall>i \<in> set (map t_id ts). (\<exists>n. map_of critical i = Some n \<and> longest_from ts i n) \<and>
      map_of fan_out i = Some (int (card ((dep_rel ts)\<^sup>+ `` {i}))))"
proof -
  have "relevance_inv ts ([], [])" by (simp add: relevance_inv_def)
  moreover have "depth_ok ts i (Suc (length ts))" if "i \<in> set (map t_id ts)" for i
    using dep_chain_bounded [OF assms(2)] that unfolding depth_ok_def by (metis le_SucI)
  ultimately have "visited ts ([], []) (set (rev (map t_id ts)))
      (visit_children (Suc (length ts)) (dependents ts) (rev (map t_id ts)) ([], []))"
    by (intro visit_children_ok visit_ok) (simp_all del: set_map)
  then obtain cr de where r: "visit_children (Suc (length ts)) (dependents ts) (rev (map t_id ts)) ([], [])
      = Some (cr, de)" and inv: "relevance_inv ts (cr, de)" and cov: "set (map t_id ts) \<subseteq> set (keys cr)"
    unfolding visited_def by auto
  have "(\<exists>n. map_of cr i = Some n \<and> longest_from ts i n) \<and>
      map_of (map (\<lambda>(i, items). (i, int (length items))) de) i = Some (int (card ((dep_rel ts)\<^sup>+ `` {i})))"
    if i: "i \<in> set (map t_id ts)" for i
  proof -
    have "i \<in> set (keys (fst (cr, de)))" using cov i by (metis fst_conv subsetD)
    then obtain n ds where "map_of cr i = Some n" "longest_from ts i n" "map_of de i = Some ds"
      "set ds = (dep_rel ts)\<^sup>+ `` {i}"
      using relevance_covers [OF inv] by (metis fst_conv snd_conv)
    moreover from this have "distinct ds" using inv by (simp add: relevance_inv_def)
    ultimately show ?thesis by (auto simp: map_of_map_values distinct_card [symmetric])
  qed
  moreover have "graph_relevance ts = Inr (cr, map (\<lambda>(i, items). (i, int (length items))) de)"
    using assms(1) r by (simp add: graph_relevance_def del: visit_children.simps)
  ultimately show ?thesis by blast
qed

theorem graph_relevance_correct_witness:
  "longest_from diamond ''a'' 3 \<and> card ((dep_rel diamond)\<^sup>+ `` {''a''}) = 3"
proof -
  have "topological_order diamond = Inr [''a'', ''b'', ''c'', ''d'']" by code_simp
  then have "acyclic (dep_rel diamond)"
    using topological_order_sound deps_first_acyclic unfolding dependency_order_def
    by (metis (no_types) diamond_distinct)
  moreover have u: "unknown_dependencies diamond = []" by code_simp
  ultimately obtain cr fo where "graph_relevance diamond = Inr (cr, fo)"
    and c: "\<And>i. i \<in> set (map t_id diamond) \<Longrightarrow> (\<exists>n. map_of cr i = Some n \<and> longest_from diamond i n) \<and>
      map_of fo i = Some (int (card ((dep_rel diamond)\<^sup>+ `` {i})))"
    using graph_relevance_correct by blast
  moreover have "graph_relevance diamond = Inr ([(''d'', 1), (''c'', 2), (''b'', 2), (''a'', 3)],
      [(''d'', 0), (''c'', 1), (''b'', 1), (''a'', 3)])" by code_simp
  moreover have "''a'' \<in> set (map t_id diamond)" by code_simp
  ultimately have "\<exists>n. map_of [(''d'', 1::int), (''c'', 2), (''b'', 2), (''a'', 3)] ''a'' = Some n \<and> longest_from diamond ''a'' n"
    "map_of [(''d'', 0::int), (''c'', 1), (''b'', 1), (''a'', 3)] ''a''
      = Some (int (card ((dep_rel diamond)\<^sup>+ `` {''a''})))"
    by (metis Pair_inject sum.inject(2))+
  then show ?thesis by simp
qed

end
