(* ===== verification/Scheduler.thy ===== *)
theory Scheduler
  imports RunStates GraphRelevance Models "HOL-Library.Product_Lexorder" "HOL-Library.Multiset"
begin

text \<open>
  \<^verbatim>\<open>scheduler.py\<close>: which tasks are READY, in which order they are considered and
  which of them may be launched now. The availability snapshot and the decision are records;
  a usage counter is the list of the capabilities in use, one element per use. The checks
  of \<^verbatim>\<open>_validate_availability\<close> that only test the type of a field are left out,
  since the record's field types say the same.
\<close>

section \<open>Data\<close>

definition COMPUTER_USE_CAPABILITY :: string where "COMPUTER_USE_CAPABILITY = ''computer_use''"

record scheduler_availability =
  av_available_capabilities :: "string list option"
  av_capability_limits :: "int dict"
  av_resource_available :: "bool dict"
  av_resource_conflicts :: "string list dict"
  av_blocked_reasons :: "string list dict"

record priority_score =
  ps_task_id :: string
  ps_resource_available :: bool
  ps_explicit_priority :: int
  ps_critical_path_length :: int
  ps_transitive_fan_out :: int
  ps_ready_sequence :: int
  ps_declaration_index :: int

record deferred_task =
  df_task_id :: string
  df_reasons :: "string list"

record scheduler_decision =
  sd_strategy :: string
  sd_worker_limit :: int
  sd_open_worker_slots :: int
  sd_ready_task_ids :: "string list"
  sd_selected_task_ids :: "string list"
  sd_priorities :: "priority_score list"
  sd_deferred :: "deferred_task list"

text \<open>A subscript: \<^verbatim>\<open>d[k]\<close>; and \<^verbatim>\<open>d.get(k, v)\<close>.\<close>

definition subscript :: "'v dict \<Rightarrow> string \<Rightarrow> 'v result" where
  "subscript d k = (case map_of d k of None \<Rightarrow> Inl (KeyError k) | Some v \<Rightarrow> Inr v)"

definition lookup_or :: "'v dict \<Rightarrow> string \<Rightarrow> 'v \<Rightarrow> 'v" where
  "lookup_or d k v = (case map_of d k of None \<Rightarrow> v | Some w \<Rightarrow> w)"

lemma subscript_Inr [simp]: "subscript d k = Inr v \<longleftrightarrow> map_of d k = Some v"
  by (auto simp: subscript_def split: option.splits)

section \<open>Validation\<close>

definition active_ids :: "string dict \<Rightarrow> string list result" where
  "active_ids states = bindE (filterE (\<lambda>(i, v). bindE (coerce_task_state v)
     (\<lambda>s. Inr (s \<in> set ACTIVE_TASK_STATES))) states) (\<lambda>kvs. Inr (map fst kvs))"

definition validate_scheduler_state :: "plan \<Rightarrow> run_state \<Rightarrow> unit result" where
  "validate_scheduler_state p st =
     (if rs_graph_version st \<noteq> pl_graph_version p then
        Inl (ValueError ''scheduler graph version mismatch''
          [dec_int (pl_graph_version p), dec_int (rs_graph_version st)])
      else bindE (validate_task_states p (rs_task_states st) True) (\<lambda>normalized.
        bindE (active_ids normalized) (\<lambda>active.
        if set active \<noteq> set (rs_active_task_ids st) then
          Inl (ValueError ''scheduler active_task_ids must exactly match tasks in active states'' [])
        else if \<not> set (keys (rs_task_ready_since st)) \<subseteq> set (keys normalized) then
          Inl (ValueError ''scheduler READY age references an unknown task'' [])
        else Inr ())))"

definition unknown_tasks :: "plan \<Rightarrow> string list \<Rightarrow> string list" where
  "unknown_tasks p ids = sorted_set (filter (\<lambda>i. i \<notin> set (task_ids p)) ids)"

definition check_conflict_entry ::
  "plan \<Rightarrow> string list dict \<Rightarrow> string \<times> string list \<Rightarrow> unit result" where
  "check_conflict_entry p conflicts entry = (case entry of (i, others) \<Rightarrow>
     if unknown_tasks p others \<noteq> [] then
       Inl (ValueError ''resource conflicts reference unknown tasks'' (i # unknown_tasks p others))
     else if i \<in> set others then
       Inl (ValueError ''a task cannot resource-conflict with itself'' [])
     else if \<exists>j \<in> set others. i \<notin> set (lookup_or conflicts j []) then
       Inl (ValueError ''resource conflict snapshots must be symmetric'' [])
     else Inr ())"

definition validate_availability :: "plan \<Rightarrow> scheduler_availability \<Rightarrow> unit result" where
  "validate_availability p av =
     (if (case av_available_capabilities av of None \<Rightarrow> False | Some cs \<Rightarrow> [] \<in> set cs) then
        Inl (ValueError ''available capabilities must be non-empty strings'' [])
      else bindE (forE (\<lambda>(c, limit).
          if c = [] then Inl (ValueError ''capability limit names must be non-empty strings'' [])
          else if limit < 0 then
            Inl (ValueError ''capability limit must be a non-negative integer'' [c])
          else Inr ()) (av_capability_limits av)) (\<lambda>_.
        if unknown_tasks p (keys (av_resource_available av)) \<noteq> [] then
          Inl (ValueError ''resource availability references unknown tasks''
            (unknown_tasks p (keys (av_resource_available av))))
        else if unknown_tasks p (keys (av_resource_conflicts av)) \<noteq> [] then
          Inl (ValueError ''resource conflicts reference unknown tasks''
            (unknown_tasks p (keys (av_resource_conflicts av))))
        else bindE (forE (check_conflict_entry p (av_resource_conflicts av))
            (av_resource_conflicts av)) (\<lambda>_.
          if unknown_tasks p (keys (av_blocked_reasons av)) \<noteq> [] then
            Inl (ValueError ''blocked reasons reference unknown tasks''
              (unknown_tasks p (keys (av_blocked_reasons av))))
          else if \<exists>rs \<in> set (map snd (av_blocked_reasons av)). [] \<in> set rs then
            Inl (ValueError ''blocked reasons must be tuples of non-empty strings'' [])
          else Inr ())))"

section \<open>Readiness\<close>

definition ready_candidate :: "plan \<Rightarrow> string dict \<Rightarrow> string \<Rightarrow> bool result" where
  "ready_candidate p normalized i =
     bindE (subscript normalized i) (\<lambda>v.
     bindE (coerce_task_state v) (\<lambda>s.
     if s \<noteq> WAITING \<and> s \<noteq> READY then Inr False else dependencies_eligible p i normalized))"

definition compute_ready_task_ids :: "plan \<Rightarrow> string dict \<Rightarrow> string list result" where
  "compute_ready_task_ids p states =
     bindE (validate_task_states p states True) (\<lambda>normalized.
       filterE (ready_candidate p normalized) (task_ids p))"

definition mark_ready :: "string list \<Rightarrow> string dict \<Rightarrow> string dict" where
  "mark_ready eligible states = fold (\<lambda>i st. if map_of st i = Some (state_value WAITING)
     then AList.update i (state_value READY) st else st) eligible states"

text \<open>The logical age of a task that has none yet is the next sequence number.\<close>

fun assign_ages :: "string list \<Rightarrow> int \<times> int dict \<Rightarrow> int \<times> int dict" where
  "assign_ages [] acc = acc"
| "assign_ages (i # is) (n, since) =
     (if i \<in> set (keys since) then assign_ages is (n, since)
      else assign_ages is (n + 1, AList.update i (n + 1) since))"

definition reconcile_ready_tasks ::
  "(rat \<Rightarrow> string) \<Rightarrow> (string \<Rightarrow> string) \<Rightarrow> plan \<Rightarrow> run_state \<Rightarrow> (run_state \<times> string list) result"
where
  "reconcile_ready_tasks fl sha p st =
     bindE (require_plan_verified fl sha p (rs_plan_verification st)) (\<lambda>_.
     bindE (validate_scheduler_state p st) (\<lambda>_.
     bindE (validate_task_states p (rs_task_states st) True) (\<lambda>normalized.
     bindE (compute_ready_task_ids p normalized) (\<lambda>eligible.
     let states = mark_ready eligible normalized;
         ready_ids = filter (\<lambda>i. map_of states i = Some (state_value READY)) (task_ids p);
         kept = filter (\<lambda>(i, _). i \<in> set ready_ids) (rs_task_ready_since st);
         ages = assign_ages ready_ids (rs_scheduler_sequence st, kept)
     in Inr (st\<lparr>rs_task_states := states, rs_task_ready_since := snd ages,
               rs_scheduler_sequence := fst ages\<rparr>, ready_ids)))))"

section \<open>Limits\<close>

definition effective_strategy :: "plan \<Rightarrow> run_state \<Rightarrow> string" where
  "effective_strategy p st =
     (if pl_legacy_serial p \<or> ''serial'' \<in> {pl_execution_strategy p, rs_execution_strategy st}
      then ''serial''
      else if ''auto'' \<in> {pl_execution_strategy p, rs_execution_strategy st} then ''auto''
      else ''parallel'')"

definition worker_budget_for :: "plan \<Rightarrow> run_state \<Rightarrow> worker_budget result" where
  "worker_budget_for p st =
     worker_budget (min (pl_max_parallel_workers p) (rs_max_parallel_workers st))
       (rs_rate_limits st) False"

definition effective_worker_limit :: "plan \<Rightarrow> run_state \<Rightarrow> int result" where
  "effective_worker_limit p st =
     (if effective_strategy p st = ''serial'' then Inr 1
      else bindE (worker_budget_for p st) (\<lambda>b.
        Inr (case wb_workers b of None \<Rightarrow> int (length (pl_tasks p)) | Some n \<Rightarrow> n)))"

definition effective_capability_limits ::
  "plan \<Rightarrow> run_state \<Rightarrow> scheduler_availability \<Rightarrow> int dict" where
  "effective_capability_limits p st av =
     (let limits = av_capability_limits av;
          slots = min (pl_computer_use_slots p) (rs_computer_use_slots st);
          slots' = (case map_of limits COMPUTER_USE_CAPABILITY of None \<Rightarrow> slots | Some n \<Rightarrow> min slots n)
      in AList.update COMPUTER_USE_CAPABILITY slots' limits)"

text \<open>A model strategy the router refuses does not need the surface.\<close>

definition task_capabilities :: "task \<Rightarrow> plan \<Rightarrow> string list" where
  "task_capabilities t p =
     (let needs_surface = (t_execution_mode t = ''computer_use''
            \<or> logical_model (pl_model_strategy p) (t_execution_mode t) = Inr ''astra'')
      in if needs_surface \<and> COMPUTER_USE_CAPABILITY \<notin> set (t_required_capabilities t)
         then t_required_capabilities t @ [COMPUTER_USE_CAPABILITY] else t_required_capabilities t)"

definition capabilities_of :: "plan \<Rightarrow> string \<Rightarrow> string list result" where
  "capabilities_of p i = (case task_map p i of None \<Rightarrow> Inl (KeyError i)
     | Some t \<Rightarrow> Inr (task_capabilities t p))"

definition active_capability_usage :: "plan \<Rightarrow> run_state \<Rightarrow> string list result" where
  "active_capability_usage p st =
     bindE (mapE (capabilities_of p) (rs_active_task_ids st)) (\<lambda>css. Inr (concat css))"

section \<open>One decision\<close>

definition availability_reasons ::
  "task \<Rightarrow> priority_score \<Rightarrow> scheduler_availability \<Rightarrow> int dict \<Rightarrow> string list \<Rightarrow> plan \<Rightarrow> string list"
where
  "availability_reasons t score av limits usage p =
     lookup_or (av_blocked_reasons av) (t_id t) []
     @ (if \<not> ps_resource_available score then [''resource_unavailable''] else [])
     @ (case av_available_capabilities av of
          None \<Rightarrow> []
        | Some available \<Rightarrow> map (\<lambda>c. ''capability_unavailable:'' @ c)
            (sorted_set (filter (\<lambda>c. c \<notin> set available) (t_required_capabilities t))))
     @ map (\<lambda>c. ''capability_capacity:'' @ c)
         (filter (\<lambda>c. case map_of limits c of None \<Rightarrow> False
            | Some limit \<Rightarrow> limit \<le> int (count_list usage c)) (sort (task_capabilities t p)))"

definition priority_key ::
  "priority_score \<Rightarrow> int \<times> int \<times> int \<times> int \<times> int \<times> int \<times> string" where
  "priority_key s = (if ps_resource_available s then 0 else 1, - ps_explicit_priority s,
     - ps_critical_path_length s, - ps_transitive_fan_out s, ps_ready_sequence s,
     ps_declaration_index s, ps_task_id s)"

definition score_task ::
  "run_state \<Rightarrow> scheduler_availability \<Rightarrow> int dict \<Rightarrow> int dict \<Rightarrow> nat \<times> task \<Rightarrow> priority_score result"
where
  "score_task st av critical_paths fan_out entry = (case entry of (index, t) \<Rightarrow>
     bindE (subscript critical_paths (t_id t)) (\<lambda>path.
     bindE (subscript fan_out (t_id t)) (\<lambda>fan.
     bindE (subscript (rs_task_ready_since st) (t_id t)) (\<lambda>age.
     Inr \<lparr>ps_task_id = t_id t,
       ps_resource_available = lookup_or (av_resource_available av) (t_id t) True,
       ps_explicit_priority = t_priority t, ps_critical_path_length = path,
       ps_transitive_fan_out = fan, ps_ready_sequence = age,
       ps_declaration_index = int index\<rparr>))))"

text \<open>The greedy pass; the state is what was selected, what was deferred and the usage.\<close>

type_synonym pass = "string list \<times> deferred_task list \<times> string list"

definition defer_reasons ::
  "plan \<Rightarrow> scheduler_availability \<Rightarrow> int dict \<Rightarrow> int \<Rightarrow> pass \<Rightarrow> priority_score \<Rightarrow> task \<Rightarrow> string list"
where
  "defer_reasons p av limits open_slots acc score t = (case acc of (selected, deferred, usage) \<Rightarrow>
     availability_reasons t score av limits usage p
     @ map (\<lambda>j. ''resource_conflict:'' @ j)
         (filter (\<lambda>j. j \<in> set (lookup_or (av_resource_conflicts av) (t_id t) [])) selected)
     @ (if open_slots \<le> int (length selected) then [''worker_capacity''] else []))"

definition consider_task ::
  "plan \<Rightarrow> scheduler_availability \<Rightarrow> int dict \<Rightarrow> int \<Rightarrow> pass \<Rightarrow> priority_score \<Rightarrow> pass result"
where
  "consider_task p av limits open_slots acc score =
     (case task_map p (ps_task_id score) of
        None \<Rightarrow> Inl (KeyError (ps_task_id score))
      | Some t \<Rightarrow>
          let reasons = defer_reasons p av limits open_slots acc score t in
          case acc of (selected, deferred, usage) \<Rightarrow>
            if reasons \<noteq> [] then
              Inr (selected, deferred @ [\<lparr>df_task_id = t_id t, df_reasons = reasons\<rparr>], usage)
            else Inr (selected @ [t_id t], deferred, usage @ task_capabilities t p))"

definition cap_event :: "int \<Rightarrow> int \<Rightarrow> string \<Rightarrow> resilience_event" where
  "cap_event old new reason = (''worker_cap_followed_budget'', None, None, None,
     [(''from'', PInt old), (''to'', PInt new), (''reason'', PStr reason)])"

definition follow_budget :: "string \<Rightarrow> worker_budget \<Rightarrow> int \<Rightarrow> run_state \<Rightarrow> run_state result" where
  "follow_budget now b worker_limit st =
     (if wb_workers b = None \<and> rs_max_parallel_workers st < worker_limit then
        bindE (append_resilience_event now st
            (cap_event (rs_max_parallel_workers st) worker_limit (wb_reason b))) (\<lambda>st'.
          Inr (st'\<lparr>rs_max_parallel_workers := worker_limit\<rparr>))
      else Inr st)"

definition ready_entries :: "plan \<Rightarrow> run_state \<Rightarrow> (nat \<times> task) list" where
  "ready_entries p st = filter (\<lambda>(_, t). map_of (rs_task_states st) (t_id t) = Some (state_value READY))
     (enumerate 0 (pl_tasks p))"

definition schedule ::
  "(rat \<Rightarrow> string) \<Rightarrow> (string \<Rightarrow> string) \<Rightarrow> string \<Rightarrow> plan \<Rightarrow> run_state \<Rightarrow> scheduler_availability
    \<Rightarrow> (run_state \<times> scheduler_decision) result"
where
  "schedule fl sha now p st0 av =
     bindE (require_plan_verified fl sha p (rs_plan_verification st0)) (\<lambda>_.
     bindE (validate_availability p av) (\<lambda>_.
     bindE (validate_scheduler_state p st0) (\<lambda>_.
     bindE (reconcile_ready_tasks fl sha p st0) (\<lambda>(st1, _).
     let strategy = effective_strategy p st1 in
     bindE (worker_budget_for p st1) (\<lambda>b.
     bindE (effective_worker_limit p st1) (\<lambda>worker_limit.
     if strategy = ''serial'' \<and> 1 < length (rs_active_task_ids st1) then
       Inl (ValueError ''serial scheduler cannot contain more than one active task'' [])
     else
       bindE (follow_budget now b worker_limit st1) (\<lambda>st.
       let open_slots = max 0 (worker_limit - int (length (rs_active_task_ids st))) in
       bindE (graph_relevance (pl_tasks p)) (\<lambda>(critical_paths, fan_out).
       bindE (mapE (score_task st av critical_paths fan_out) (ready_entries p st)) (\<lambda>scores.
       let ordered = sort_key priority_key scores in
       bindE (active_capability_usage p st) (\<lambda>usage.
       bindE (run_ops (consider_task p av (effective_capability_limits p st av) open_slots)
           ([], [], usage) ordered) (\<lambda>(selected, deferred, _).
       Inr (st, \<lparr>sd_strategy = strategy, sd_worker_limit = worker_limit,
          sd_open_worker_slots = open_slots, sd_ready_task_ids = map ps_task_id ordered,
          sd_selected_task_ids = selected, sd_priorities = ordered,
          sd_deferred = deferred\<rparr>))))))))))))"

section \<open>Readiness, characterised\<close>

definition eligible :: "plan \<Rightarrow> string dict \<Rightarrow> string \<Rightarrow> bool" where
  "eligible p states i \<longleftrightarrow> state_of states i \<in> {Some WAITING, Some READY} \<and>
     (\<exists>t. task_map p i = Some t \<and> (\<forall>d \<in> set (t_depends_on t). state_of states d = Some VERIFIED))"

lemma ready_candidate_valid:
  assumes ok: "plan_ok p" and v: "valid_map p states" and i: "i \<in> set (task_ids p)"
  shows "ready_candidate p states i = Inr (eligible p states i)"
proof -
  obtain t where t: "t \<in> set (pl_tasks p)" "t_id t = i" using i by auto
  have m: "task_map p i = Some t" using plan_okD(1) [OF ok t(1)] t(2) by simp
  obtain s where s: "state_of states i = Some s" using valid_map_covers [OF v i] ..
  have c: "\<forall>i \<in> set (task_ids p). \<exists>s. state_of states i = Some s" using v by (simp add: valid_map_def)
  have u: "unmet_dependencies p i states
      = Inr (filter (\<lambda>d. state_of states d \<noteq> Some VERIFIED) (t_depends_on t))"
    using unmet_dependencies_total [OF ok t(1) c] t(2) by simp
  show ?thesis
    using s m u unfolding state_of_Some
    by (auto simp: ready_candidate_def dependencies_eligible_def eligible_def subscript_def
        filter_empty_conv state_of_Some)
qed

lemma compute_ready_valid:
  assumes "plan_ok p" "distinct (keys states)" "valid_map p states"
  shows "compute_ready_task_ids p states = Inr (filter (eligible p states) (task_ids p))"
proof -
  have "filterE (ready_candidate p states) (task_ids p) = Inr (filter (eligible p states) (task_ids p))"
    by (rule filterE_total) (rule ready_candidate_valid [OF assms(1,3)])
  then show ?thesis
    using assms validate_task_states_Inr [of p states states] by (simp add: compute_ready_task_ids_def)
qed

lemma mark_ready_props:
  "distinct (keys states) \<Longrightarrow> distinct (keys (mark_ready is states))"
  "set (keys (mark_ready is states)) = set (keys states)"
  "state_of (mark_ready is states) i =
     (if i \<in> set is \<and> state_of states i = Some WAITING then Some READY else state_of states i)"
proof (induction "is" arbitrary: states)
  case Nil
  { case 1 then show ?case by (simp add: mark_ready_def) }
  { case 2 then show ?case by (simp add: mark_ready_def) }
  { case 3 then show ?case by (simp add: mark_ready_def) }
next
  case (Cons j "is")
  let ?next = "\<lambda>st. if map_of st j = Some (state_value WAITING)
    then AList.update j (state_value READY) st else st"
  have step: "mark_ready (j # is) st = mark_ready is (?next st)" for st by (simp add: mark_ready_def)
  have keys: "set (keys (?next st)) = set (keys st)" for st
    by (auto simp del: set_map dest: map_of_keys)
  { case 1 then show ?case unfolding step by (intro Cons.IH) (simp add: distinct_update) }
  { case 2 then show ?case unfolding step by (simp only: Cons.IH(2) keys) }
  { case 3 then show ?case unfolding step Cons.IH(3) by (simp add: state_of_Some [symmetric]) }
qed

lemma mark_ready_valid:
  assumes ok: "plan_ok p" and v: "valid_map p states"
    and e: "\<And>i. i \<in> set is \<Longrightarrow> eligible p states i"
  shows "valid_map p (mark_ready is states)"
proof -
  let ?new = "mark_ready is states"
  have up: "state_of ?new d = Some VERIFIED" if "state_of states d = Some VERIFIED" for d
    using that by (simp add: mark_ready_props)
  have "\<forall>t \<in> set (pl_tasks p). \<forall>s. state_of ?new (t_id t) = Some s \<longrightarrow> advanced s \<longrightarrow>
      (\<forall>d \<in> set (t_depends_on t). state_of ?new d = Some VERIFIED)"
  proof (intro ballI allI impI)
    fix t s d assume t: "t \<in> set (pl_tasks p)" and s: "state_of ?new (t_id t) = Some s"
      and a: "advanced s" and d: "d \<in> set (t_depends_on t)"
    show "state_of ?new d = Some VERIFIED"
    proof (cases "t_id t \<in> set is")
      case True
      then have "\<forall>d \<in> set (t_depends_on t). state_of states d = Some VERIFIED"
        using e plan_okD(1) [OF ok t] by (fastforce simp: eligible_def)
      with d up show ?thesis by blast
    next
      case False
      then have "state_of states (t_id t) = Some s" using s by (simp add: mark_ready_props)
      then show ?thesis using valid_mapD(2) [OF v t] a d up by blast
    qed
  qed
  moreover have "\<forall>i \<in> set (task_ids p). \<exists>s. state_of ?new i = Some s"
    using valid_map_covers [OF v] by (auto simp: mark_ready_props simp del: set_map)
  ultimately show ?thesis
    using v unfolding valid_map_def mark_ready_props(2) by blast
qed

section \<open>Ages\<close>

text \<open>Ages are distinct and none is above the sequence counter.\<close>

definition ages_ok :: "int \<times> int dict \<Rightarrow> bool" where
  "ages_ok acc \<longleftrightarrow> distinct (keys (snd acc)) \<and> distinct (map snd (snd acc))
     \<and> (\<forall>n \<in> set (map snd (snd acc)). n \<le> fst acc)"

lemma assign_ages_ok: "ages_ok acc \<Longrightarrow> ages_ok (assign_ages is acc)"
proof (induction "is" acc rule: assign_ages.induct)
  case (1 acc)
  then show ?case by simp
next
  case (2 i "is" n since)
  show ?case
  proof (cases "i \<in> set (keys since)")
    case True
    then show ?thesis using 2 by simp
  next
    case False
    have "ages_ok (n + 1, AList.update i (n + 1) since)"
      using "2.prems" False by (fastforce simp: ages_ok_def update_fresh)
    then show ?thesis using "2.IH"(2) False by simp
  qed
qed

lemma assign_ages_distinct: "distinct (keys (snd acc)) \<Longrightarrow> distinct (keys (snd (assign_ages is acc)))"
proof (induction "is" acc rule: assign_ages.induct)
  case (1 acc)
  then show ?case by simp
next
  case (2 i "is" n since)
  then show ?case by (cases "i \<in> set (keys since)") (simp_all add: distinct_update)
qed

lemma assign_ages_keeps:
  "fst acc \<le> fst (assign_ages is acc)"
  "set (keys (snd (assign_ages is acc))) = set (keys (snd acc)) \<union> set is"
  "i \<in> set (keys (snd acc)) \<Longrightarrow> map_of (snd (assign_ages is acc)) i = map_of (snd acc) i"
  "i \<in> set is \<Longrightarrow> i \<notin> set (keys (snd acc)) \<Longrightarrow>
     \<exists>n. map_of (snd (assign_ages is acc)) i = Some n \<and> fst acc < n"
proof (induction "is" arbitrary: acc)
  case Nil
  { case 1 then show ?case by simp }
  { case 2 then show ?case by simp }
  { case 3 then show ?case by simp }
  { case 4 then show ?case by simp }
next
  case (Cons j "is")
  let ?next = "\<lambda>a. if j \<in> set (keys (snd a)) then a
    else (fst a + 1, AList.update j (fst a + 1) (snd a :: int dict))"
  have step: "assign_ages (j # is) a = assign_ages is (?next a)" for a by (cases a) simp
  { case 1 show ?case unfolding step using Cons.IH(1) [of "?next acc"] by (simp split: if_splits) }
  { case 2 show ?case unfolding step Cons.IH(2) by (auto simp del: set_map) }
  { case 3 then show ?case unfolding step by (subst Cons.IH(3)) (auto simp del: set_map) }
  { case 4 then show ?case unfolding step
      using Cons.IH(3) [of "?next acc"] Cons.IH(4) [of "?next acc"]
      by (cases "i = j"; cases "j \<in> set (keys (snd acc))") (fastforce simp del: set_map)+ }
qed

section \<open>Reconciliation\<close>

text \<open>The dictionaries of a run state have distinct keys.\<close>

definition state_dicts :: "run_state \<Rightarrow> bool" where
  "state_dicts st \<longleftrightarrow> distinct (keys (rs_task_states st)) \<and> distinct (keys (rs_task_ready_since st))"

abbreviation ready_in :: "plan \<Rightarrow> run_state \<Rightarrow> string list" where
  "ready_in p st \<equiv> filter (\<lambda>i. state_of (rs_task_states st) i = Some READY) (task_ids p)"

lemma kept_ages: "distinct (keys since) \<Longrightarrow>
    map_of (filter (\<lambda>(i, _). P i) since) i = (if P i then map_of since i else None)"
  by (induction since) (auto simp: map_of_eq_None_iff)

lemma kept_ages_ok: "ages_ok (n, since) \<Longrightarrow> ages_ok (n, filter Q since)"
  by (auto simp: ages_ok_def distinct_map_filter)

lemma reconcile_Inr:
  assumes ok: "plan_ok p" and d: "state_dicts st"
    and r: "reconcile_ready_tasks fl sha p st = Inr (st', ready)"
  shows "valid_map p (rs_task_states st) \<and> state_dicts st'
    \<and> valid_map p (rs_task_states st') \<and> ready = ready_in p st'
    \<and> (\<forall>i. state_of (rs_task_states st') i =
        (if i \<in> set (task_ids p) \<and> state_of (rs_task_states st) i = Some WAITING
            \<and> eligible p (rs_task_states st) i then Some READY else state_of (rs_task_states st) i))
    \<and> (rs_scheduler_sequence st', rs_task_ready_since st') =
        assign_ages ready (rs_scheduler_sequence st,
          filter (\<lambda>(i, _). i \<in> set ready) (rs_task_ready_since st))
    \<and> st' = st\<lparr>rs_task_states := rs_task_states st', rs_task_ready_since := rs_task_ready_since st',
        rs_scheduler_sequence := rs_scheduler_sequence st'\<rparr>"
proof -
  let ?old = "rs_task_states st"
  have dk: "distinct (keys ?old)" using d by (simp add: state_dicts_def)
  obtain n where n: "validate_task_states p ?old True = Inr n"
    using r by (auto simp: reconcile_ready_tasks_def)
  then have v: "valid_map p ?old" and n: "validate_task_states p ?old True = Inr ?old"
    using validate_task_states_Inr [OF ok dk] by auto
  let ?es = "filter (eligible p ?old) (task_ids p)"
  let ?new = "mark_ready ?es ?old"
  let ?ready = "filter (\<lambda>i. state_of ?new i = Some READY) (task_ids p)"
  let ?ages = "assign_ages ?ready (rs_scheduler_sequence st,
    filter (\<lambda>(i, _). i \<in> set ?ready) (rs_task_ready_since st))"
  have st': "st' = st\<lparr>rs_task_states := ?new, rs_task_ready_since := snd ?ages,
      rs_scheduler_sequence := fst ?ages\<rparr>" and ready: "ready = ?ready"
    using r n compute_ready_valid [OF ok dk v]
    by (auto simp: reconcile_ready_tasks_def Let_def state_of_Some simp del: set_map)
  have "valid_map p ?new" by (rule mark_ready_valid [OF ok v]) simp
  moreover have "distinct (keys ?new)" using dk by (rule mark_ready_props)
  moreover have "distinct (keys (snd ?ages))"
    using d by (intro assign_ages_distinct) (simp add: state_dicts_def distinct_map_filter)
  moreover have f: "rs_task_states st' = ?new" "rs_task_ready_since st' = snd ?ages"
    "rs_scheduler_sequence st' = fst ?ages" unfolding st' by simp_all
  moreover have "\<forall>i. state_of ?new i =
        (if i \<in> set (task_ids p) \<and> state_of ?old i = Some WAITING
            \<and> eligible p ?old i then Some READY else state_of ?old i)"
    by (simp add: mark_ready_props)
  moreover have "st' = st\<lparr>rs_task_states := rs_task_states st', rs_task_ready_since := rs_task_ready_since st',
        rs_scheduler_sequence := rs_scheduler_sequence st'\<rparr>"
    unfolding st' by simp
  ultimately show ?thesis
    using v unfolding state_dicts_def f ready by (metis prod.collapse)
qed

text \<open>
  C19. Reconciliation makes exactly the WAITING tasks READY whose prerequisites are all
  VERIFIED and changes no other state; the READY tasks, and only they, have a logical age:
  a task that had one keeps it, a task that becomes READY now is younger than all of them,
  and no two tasks have the same age.
\<close>

theorem reconcile_ready_correct:
  assumes "plan_ok p" "state_dicts st" "ages_ok (rs_scheduler_sequence st, rs_task_ready_since st)"
    and "reconcile_ready_tasks fl sha p st = Inr (st', ready)"
  shows "valid_map p (rs_task_states st') \<and> ready = ready_in p st'
    \<and> (\<forall>t \<in> set (pl_tasks p). state_of (rs_task_states st') (t_id t) =
        (if state_of (rs_task_states st) (t_id t) = Some WAITING
            \<and> (\<forall>d \<in> set (t_depends_on t). state_of (rs_task_states st) d = Some VERIFIED)
         then Some READY else state_of (rs_task_states st) (t_id t)))
    \<and> ages_ok (rs_scheduler_sequence st', rs_task_ready_since st')
    \<and> set (keys (rs_task_ready_since st')) = set ready
    \<and> (\<forall>i \<in> set ready. case map_of (rs_task_ready_since st) i of
          Some n \<Rightarrow> map_of (rs_task_ready_since st') i = Some n
        | None \<Rightarrow> \<exists>n. map_of (rs_task_ready_since st') i = Some n \<and> rs_scheduler_sequence st < n)"
proof -
  let ?kept = "filter (\<lambda>(i, _). i \<in> set ready) (rs_task_ready_since st)"
  let ?acc = "(rs_scheduler_sequence st, ?kept)"
  note r = reconcile_Inr [OF assms(1,2,4)]
  then have ages: "(rs_scheduler_sequence st', rs_task_ready_since st') = assign_ages ready ?acc" by blast
  then have since: "rs_task_ready_since st' = snd (assign_ages ready ?acc)" by (metis snd_conv)
  have kept: "map_of ?kept i = (if i \<in> set ready then map_of (rs_task_ready_since st) i else None)" for i
    using assms(2) by (intro kept_ages) (simp add: state_dicts_def)
  have "ages_ok (rs_scheduler_sequence st', rs_task_ready_since st')"
    unfolding ages by (intro assign_ages_ok kept_ages_ok assms(3))
  moreover have "set (keys (rs_task_ready_since st')) = set ready"
    unfolding since assign_ages_keeps by auto
  moreover have "\<forall>i \<in> set ready. case map_of (rs_task_ready_since st) i of
      Some n \<Rightarrow> map_of (rs_task_ready_since st') i = Some n
    | None \<Rightarrow> \<exists>n. map_of (rs_task_ready_since st') i = Some n \<and> rs_scheduler_sequence st < n"
  proof
    fix i assume i: "i \<in> set ready"
    show "case map_of (rs_task_ready_since st) i of
        Some n \<Rightarrow> map_of (rs_task_ready_since st') i = Some n
      | None \<Rightarrow> \<exists>n. map_of (rs_task_ready_since st') i = Some n \<and> rs_scheduler_sequence st < n"
    proof (cases "map_of (rs_task_ready_since st) i")
      case None
      then have "map_of (snd ?acc) i = None" using kept i by simp
      then have "i \<notin> set (keys (snd ?acc))" by (simp only: map_of_eq_None_keys not_False_eq_True)
      then show ?thesis unfolding since using assign_ages_keeps(4) [OF i, of ?acc] None by simp
    next
      case (Some n)
      then have "map_of (snd ?acc) i = Some n" using kept i by simp
      then have "map_of (snd (assign_ages ready ?acc)) i = Some n"
        using assign_ages_keeps(3) [of i ?acc ready, OF map_of_keys] by simp
      then show ?thesis unfolding since using Some by simp
    qed
  qed
  moreover have "\<forall>t \<in> set (pl_tasks p). state_of (rs_task_states st') (t_id t) =
        (if state_of (rs_task_states st) (t_id t) = Some WAITING
            \<and> (\<forall>d \<in> set (t_depends_on t). state_of (rs_task_states st) d = Some VERIFIED)
         then Some READY else state_of (rs_task_states st) (t_id t))"
    using r plan_okD(1) [OF assms(1)] by (auto simp: eligible_def)
  ultimately show ?thesis using r by blast
qed

lemma sample_reconcile:
  "reconcile_ready_tasks (\<lambda>_. []) (\<lambda>s. s) diamond_plan (sample_state diamond_plan diamond_start [])
    = Inr ((sample_state diamond_plan diamond_start [])\<lparr>rs_task_ready_since := [(''a'', 1)],
        rs_scheduler_sequence := 1\<rparr>, [''a''])"
  by code_simp

theorem reconcile_ready_correct_witness:
  "valid_map diamond_plan diamond_start"
  using reconcile_ready_correct [OF _ _ _ sample_reconcile] diamond_good
  by (simp add: good_map_def state_dicts_def ages_ok_def sample_state_def del: set_map)

section \<open>The greedy pass\<close>

definition caps :: "plan \<Rightarrow> string \<Rightarrow> string list" where
  "caps p i = (case task_map p i of None \<Rightarrow> [] | Some t \<Rightarrow> task_capabilities t p)"

definition caps_ok :: "plan \<Rightarrow> bool" where
  "caps_ok p \<longleftrightarrow> (\<forall>t \<in> set (pl_tasks p). distinct (t_required_capabilities t))"

lemma distinct_count: "distinct xs \<Longrightarrow> count_list xs x \<le> 1"
  by (induction xs) (auto simp: count_list_0_iff)

lemma caps_once: "caps_ok p \<Longrightarrow> count_list (caps p i) c \<le> 1"
proof -
  assume ok: "caps_ok p"
  have "distinct (caps p i)"
    using ok by (auto simp: caps_def caps_ok_def task_capabilities_def Let_def
        split: option.splits dest: task_map_SomeD)
  then show ?thesis by (rule distinct_count)
qed

text \<open>What holds a task back, given the tasks selected and the capabilities in use.\<close>

definition hindered ::
  "plan \<Rightarrow> scheduler_availability \<Rightarrow> int dict \<Rightarrow> string list \<Rightarrow> string list \<Rightarrow> string \<Rightarrow> bool"
where
  "hindered p av limits sel usage i \<longleftrightarrow>
     lookup_or (av_blocked_reasons av) i [] \<noteq> [] \<or> \<not> lookup_or (av_resource_available av) i True \<or>
     (\<exists>cs. av_available_capabilities av = Some cs \<and>
        (\<exists>t. task_map p i = Some t \<and> \<not> set (t_required_capabilities t) \<subseteq> set cs)) \<or>
     (\<exists>c \<in> set (caps p i). \<exists>l. map_of limits c = Some l \<and> l \<le> int (count_list usage c)) \<or>
     (\<exists>j \<in> set sel. j \<in> set (lookup_or (av_resource_conflicts av) i []))"

lemma hindered_mono: "hindered p av limits sel us i \<Longrightarrow> hindered p av limits (sel @ sel') (us @ us') i"
  unfolding hindered_def by (fastforce simp del: count_list_append simp: count_list_append)

definition pass_inv ::
  "plan \<Rightarrow> scheduler_availability \<Rightarrow> int dict \<Rightarrow> int \<Rightarrow> string list \<Rightarrow> pass \<Rightarrow> bool"
where
  "pass_inv p av limits n u0 acc = (case acc of (sel, def, us) \<Rightarrow>
     int (length sel) \<le> n
     \<and> us = u0 @ concat (map (caps p) sel)
     \<and> (\<forall>i \<in> set sel. lookup_or (av_blocked_reasons av) i [] = []
          \<and> lookup_or (av_resource_available av) i True)
     \<and> sorted_wrt (\<lambda>j i. j \<notin> set (lookup_or (av_resource_conflicts av) i [])) sel
     \<and> (\<forall>c l. map_of limits c = Some l \<longrightarrow> int (count_list us c) \<le> max l (int (count_list u0 c)))
     \<and> (\<forall>d \<in> set def. df_reasons d \<noteq> [] \<and>
          (int (length sel) = n \<or> hindered p av limits sel us (df_task_id d))))"

text \<open>A score is right about its task's resources.\<close>

definition score_ok :: "scheduler_availability \<Rightarrow> priority_score \<Rightarrow> bool" where
  "score_ok av s \<longleftrightarrow> ps_resource_available s = lookup_or (av_resource_available av) (ps_task_id s) True"

lemma reasons_Nil:
  assumes t: "task_map p (ps_task_id s) = Some t" and s: "score_ok av s"
  shows "defer_reasons p av limits n (sel, def, us) s t = [] \<longleftrightarrow>
    \<not> hindered p av limits sel us (ps_task_id s) \<and> int (length sel) < n"
proof -
  have i: "t_id t = ps_task_id s" using task_map_SomeD [OF t] by simp
  have cap: "filter (\<lambda>c. case map_of limits c of None \<Rightarrow> False
        | Some limit \<Rightarrow> limit \<le> int (count_list us c)) (sort (task_capabilities t p)) = []
      \<longleftrightarrow> \<not> (\<exists>c \<in> set (caps p (ps_task_id s)). \<exists>l. map_of limits c = Some l \<and> l \<le> int (count_list us c))"
    using t by (auto simp: filter_empty_conv caps_def split: option.splits)
  have av: "(case av_available_capabilities av of None \<Rightarrow> []
        | Some available \<Rightarrow> map (\<lambda>c. ''capability_unavailable:'' @ c)
            (sorted_set (filter (\<lambda>c. c \<notin> set available) (t_required_capabilities t)))) = []
      \<longleftrightarrow> \<not> (\<exists>cs. av_available_capabilities av = Some cs \<and>
        (\<exists>t. task_map p (ps_task_id s) = Some t \<and> \<not> set (t_required_capabilities t) \<subseteq> set cs))"
  proof (cases "av_available_capabilities av")
    case (Some cs)
    have "sorted_set xs = [] \<longleftrightarrow> xs = []" for xs by (metis set_empty set_sorted_set)
    then show ?thesis using Some t by (auto simp: filter_empty_conv)
  qed simp
  show ?thesis
    using s unfolding defer_reasons_def availability_reasons_def hindered_def prod.case
      append_is_Nil_conv map_is_Nil_conv cap av i score_ok_def
    by (auto simp: filter_empty_conv)
qed

lemma consider_task_Inr:
  assumes "score_ok av s"
  shows "consider_task p av limits n (sel, def, us) s = Inr acc \<longleftrightarrow>
    ps_task_id s \<in> set (task_ids p) \<and>
    (if \<not> hindered p av limits sel us (ps_task_id s) \<and> int (length sel) < n
     then acc = (sel @ [ps_task_id s], def, us @ caps p (ps_task_id s))
     else \<exists>rs. rs \<noteq> [] \<and> acc = (sel, def @ [\<lparr>df_task_id = ps_task_id s, df_reasons = rs\<rparr>], us)
        \<and> rs = defer_reasons p av limits n (sel, def, us) s (the (task_map p (ps_task_id s))))"
proof (cases "task_map p (ps_task_id s)")
  case None
  then have "ps_task_id s \<notin> set (task_ids p)" using dom_task_map by blast
  with None show ?thesis by (simp add: consider_task_def)
next
  case (Some t)
  then have "ps_task_id s \<in> set (task_ids p)" "t_id t = ps_task_id s"
    using dom_task_map task_map_SomeD by (metis option.distinct(1), blast)
  then show ?thesis
    using Some reasons_Nil [OF Some assms, of limits n sel "def" us]
    by (auto simp: consider_task_def Let_def caps_def)
qed

lemma consider_task_inv:
  assumes ok: "caps_ok p" and s: "score_ok av s"
    and inv: "pass_inv p av limits n u0 acc" and step: "consider_task p av limits n acc s = Inr acc'"
  shows "pass_inv p av limits n u0 acc'"
proof -
  obtain sel "def" us where acc: "acc = (sel, def, us)" by (cases acc)
  let ?i = "ps_task_id s"
  note step' = step [unfolded acc consider_task_Inr [OF s]]
  show ?thesis
  proof (cases "\<not> hindered p av limits sel us ?i \<and> int (length sel) < n")
    case True
    then have acc': "acc' = (sel @ [?i], def, us @ caps p ?i)" using step' by simp
    have limit: "int (count_list (us @ caps p ?i) c) \<le> max l (int (count_list u0 c))"
      if l: "map_of limits c = Some l" for c l
    proof (cases "c \<in> set (caps p ?i)")
      case in_caps: True
      then have "int (count_list us c) < l" using True l by (force simp: hindered_def)
      then show ?thesis using caps_once [OF ok, of ?i c] by simp
    next
      case False
      have "int (count_list us c) \<le> max l (int (count_list u0 c))"
        using inv l unfolding pass_inv_def acc by blast
      then show ?thesis using False by simp
    qed
    have deferred: "\<forall>d \<in> set def. df_reasons d \<noteq> [] \<and>
        (int (length (sel @ [?i])) = n \<or>
         hindered p av limits (sel @ [?i]) (us @ caps p ?i) (df_task_id d))"
      using inv True hindered_mono [of p av limits sel us] by (auto simp: pass_inv_def acc)
    show ?thesis
      using inv True limit deferred
      by (auto simp: pass_inv_def acc acc' sorted_wrt_append hindered_def)
  next
    case False
    then obtain rs where "rs \<noteq> []" "acc' = (sel, def @ [\<lparr>df_task_id = ?i, df_reasons = rs\<rparr>], us)"
      using step' by auto
    then show ?thesis using inv False by (auto simp: pass_inv_def acc)
  qed
qed

lemma pass_run:
  assumes ok: "caps_ok p"
  shows "\<forall>s \<in> set ss. score_ok av s \<Longrightarrow> pass_inv p av limits n u0 acc \<Longrightarrow>
    run_ops (consider_task p av limits n) acc ss = Inr acc' \<Longrightarrow> pass_inv p av limits n u0 acc'"
proof (induction ss arbitrary: acc)
  case Nil
  then show ?case by simp
next
  case (Cons s ss)
  then obtain b where b: "consider_task p av limits n acc s = Inr b"
    "run_ops (consider_task p av limits n) b ss = Inr acc'" by auto
  then have "pass_inv p av limits n u0 b" using consider_task_inv [OF ok _ Cons.prems(2) b(1)] Cons.prems(1) by simp
  with b Cons show ?case by auto
qed

lemma pass_partition:
  "\<forall>s \<in> set ss. score_ok av s \<Longrightarrow>
   run_ops (consider_task p av limits n) (sel, def, us) ss = Inr (sel', def', us') \<Longrightarrow>
   mset (sel' @ map df_task_id def') = mset (sel @ map df_task_id def @ map ps_task_id ss)"
proof (induction ss arbitrary: sel "def" us)
  case Nil
  then show ?case by simp
next
  case (Cons s ss)
  then obtain b where b: "consider_task p av limits n (sel, def, us) s = Inr b"
    "run_ops (consider_task p av limits n) b ss = Inr (sel', def', us')" by auto
  moreover have "score_ok av s" using Cons.prems by simp
  ultimately consider us1 where "b = (sel @ [ps_task_id s], def, us1)"
    | rs us1 where "b = (sel, def @ [\<lparr>df_task_id = ps_task_id s, df_reasons = rs\<rparr>], us1)"
    by (auto simp: consider_task_Inr split: if_splits)
  then show ?case
  proof cases
    case 1
    with Cons b show ?thesis by auto
  next
    case 2
    with Cons b show ?thesis by auto
  qed
qed

section \<open>One decision, characterised\<close>

lemma enumerate_ids: "map (\<lambda>(_, t). t_id t) (enumerate k ts) = map t_id ts"
  by (induction ts arbitrary: k) auto

lemma score_task_Inr:
  "score_task st av cp fo (k, t) = Inr s \<Longrightarrow> score_ok av s \<and> ps_task_id s = t_id t"
  by (auto simp: score_task_def score_ok_def)

lemma scores_Inr:
  assumes "mapE (score_task st av cp fo) es = Inr scores"
  shows "(\<forall>s \<in> set scores. score_ok av s) \<and> map ps_task_id scores = map (\<lambda>(_, t). t_id t) es"
proof -
  have "list_all2 (\<lambda>e s. score_task st av cp fo e = Inr s) es scores" using assms by (simp add: mapE_eq_Inr)
  then show ?thesis
    by (induction rule: list_all2_induct) (auto dest: score_task_Inr)
qed

lemma ready_entries_ids:
  "map (\<lambda>(_, t). t_id t) (ready_entries p st) = ready_in p st"
proof -
  have "map (\<lambda>(_, t). t_id t) (filter (\<lambda>(_, t). P (t_id t)) (enumerate k ts)) = filter P (map t_id ts)"
    for k P and ts :: "task list"
    by (induction ts arbitrary: k) auto
  then show ?thesis by (simp add: ready_entries_def state_of_Some)
qed

lemma follow_budget_Inr:
  assumes "follow_budget now b n st = Inr st'"
  shows "rs_task_states st' = rs_task_states st \<and> rs_active_task_ids st' = rs_active_task_ids st
    \<and> rs_max_parallel_workers st' = (if wb_workers b = None then max n (rs_max_parallel_workers st)
        else rs_max_parallel_workers st)
    \<and> rs_computer_use_slots st' = rs_computer_use_slots st
    \<and> rs_task_ready_since st' = rs_task_ready_since st"
  using assms
  by (auto simp: follow_budget_def append_resilience_event_Inr journal_event_def Let_def split: if_splits)

lemma schedule_Inr:
  assumes ok: "plan_ok p" "caps_ok p" "state_dicts st0"
    and s: "schedule fl sha now p st0 av = Inr (st, d)"
  obtains st1 b u0 scores us where
    "validate_availability p av = Inr ()" "validate_scheduler_state p st0 = Inr ()"
    "reconcile_ready_tasks fl sha p st0 = Inr (st1, ready_in p st1)"
    "worker_budget_for p st1 = Inr b" "effective_worker_limit p st1 = Inr (sd_worker_limit d)"
    "follow_budget now b (sd_worker_limit d) st1 = Inr st"
    "sd_open_worker_slots d = max 0 (sd_worker_limit d - int (length (rs_active_task_ids st)))"
    "active_capability_usage p st = Inr u0"
    "sd_priorities d = sort_key priority_key scores"
    "map ps_task_id scores = ready_in p st"
    "sd_ready_task_ids d = map ps_task_id (sd_priorities d)"
    "pass_inv p av (effective_capability_limits p st av) (sd_open_worker_slots d) u0
       (sd_selected_task_ids d, sd_deferred d, us)"
    "mset (sd_selected_task_ids d @ map df_task_id (sd_deferred d)) = mset (sd_ready_task_ids d)"
proof -
  from s obtain st1 ready b limit cp fo scores u0 sel "def" us where
    v: "validate_availability p av = Inr ()" "validate_scheduler_state p st0 = Inr ()"
    and r: "reconcile_ready_tasks fl sha p st0 = Inr (st1, ready)"
    and b: "worker_budget_for p st1 = Inr b" and l: "effective_worker_limit p st1 = Inr limit"
    and f: "follow_budget now b limit st1 = Inr st"
    and m: "mapE (score_task st av cp fo) (ready_entries p st) = Inr scores"
    and u: "active_capability_usage p st = Inr u0"
    and run: "run_ops (consider_task p av (effective_capability_limits p st av)
        (max 0 (limit - int (length (rs_active_task_ids st))))) ([], [], u0)
        (sort_key priority_key scores) = Inr (sel, def, us)"
    and d: "d = \<lparr>sd_strategy = effective_strategy p st1, sd_worker_limit = limit,
          sd_open_worker_slots = max 0 (limit - int (length (rs_active_task_ids st))),
          sd_ready_task_ids = map ps_task_id (sort_key priority_key scores),
          sd_selected_task_ids = sel, sd_priorities = sort_key priority_key scores,
          sd_deferred = def\<rparr>"
    by (auto simp: schedule_def Let_def split: prod.splits if_splits)
  have r': "ready = ready_in p st1" using reconcile_Inr [OF ok(1,3) r] by blast
  have sc: "\<forall>s \<in> set scores. score_ok av s" "map ps_task_id scores = ready_in p st"
    using scores_Inr [OF m] unfolding ready_entries_ids by blast+
  let ?n = "max 0 (limit - int (length (rs_active_task_ids st)))"
  have "pass_inv p av (effective_capability_limits p st av) ?n u0 ([], [], u0)"
    by (simp add: pass_inv_def)
  then have "pass_inv p av (effective_capability_limits p st av) ?n u0 (sel, def, us)"
    using pass_run [OF ok(2) _ _ run] sc(1) by simp
  moreover have "mset (sel @ map df_task_id def) = mset (map ps_task_id (sort_key priority_key scores))"
    using pass_partition [OF _ run] sc(1) by simp
  ultimately show thesis
    using that [of st1 b u0 scores us] v r r' b l f u sc(2) d by simp
qed

lemma same_active:
  "st' = st\<lparr>rs_task_states := a, rs_task_ready_since := b, rs_scheduler_sequence := c\<rparr> \<Longrightarrow>
   rs_active_task_ids st' = rs_active_task_ids st"
  by simp

lemma ready_in_distinct: "plan_ok p \<Longrightarrow> distinct (ready_in p st)"
  by (simp add: plan_ok_def)

lemma usage_Inr:
  "active_capability_usage p st = Inr u0 \<Longrightarrow> u0 = concat (map (caps p) (rs_active_task_ids st))"
proof -
  assume "active_capability_usage p st = Inr u0"
  then obtain css where css: "list_all2 (\<lambda>i cs. capabilities_of p i = Inr cs) (rs_active_task_ids st) css"
    "u0 = concat css" by (auto simp: active_capability_usage_def mapE_eq_Inr)
  from css(1) have "css = map (caps p) (rs_active_task_ids st)"
    by (induction rule: list_all2_induct) (auto simp: capabilities_of_def caps_def split: option.splits)
  with css(2) show ?thesis by simp
qed

lemma availability_symmetric:
  assumes "validate_availability p av = Inr ()"
    and "j \<in> set (lookup_or (av_resource_conflicts av) i [])"
  shows "i \<in> set (lookup_or (av_resource_conflicts av) j [])"
proof -
  obtain js where js: "map_of (av_resource_conflicts av) i = Some js" "j \<in> set js"
    using assms(2) by (cases "map_of (av_resource_conflicts av) i") (simp_all add: lookup_or_def)
  have "check_conflict_entry p (av_resource_conflicts av) (i, js) = Inr ()"
    using assms(1) map_of_SomeD [OF js(1)]
    by (auto simp: validate_availability_def split: if_splits)
  with js(2) show ?thesis by (auto simp: check_conflict_entry_def split: if_splits)
qed

lemma no_self_conflict:
  assumes "validate_availability p av = Inr ()"
  shows "i \<notin> set (lookup_or (av_resource_conflicts av) i [])"
proof (cases "map_of (av_resource_conflicts av) i")
  case (Some js)
  have "check_conflict_entry p (av_resource_conflicts av) (i, js) = Inr ()"
    using assms map_of_SomeD [OF Some] by (auto simp: validate_availability_def split: if_splits)
  then show ?thesis using Some by (auto simp: check_conflict_entry_def lookup_or_def split: if_splits)
qed (simp add: lookup_or_def)

lemma filterE_set: "filterE f xs = Inr ys \<Longrightarrow> set ys = {x \<in> set xs. f x = Inr True}"
  by (induction xs arbitrary: ys) (auto split: if_splits)

lemma active_state:
  assumes "plan_ok p" "state_dicts st" "validate_scheduler_state p st = Inr ()"
    and "i \<in> set (rs_active_task_ids st)"
  shows "\<exists>s \<in> set ACTIVE_TASK_STATES. state_of (rs_task_states st) i = Some s"
proof -
  let ?states = "rs_task_states st"
  have dk: "distinct (keys ?states)" using assms(2) by (simp add: state_dicts_def)
  obtain kvs where kvs: "filterE (\<lambda>(i, v). bindE (coerce_task_state v)
      (\<lambda>s. Inr (s \<in> set ACTIVE_TASK_STATES))) ?states = Inr kvs" "i \<in> set (map fst kvs)"
    using assms(3,4) validate_task_states_Inr [OF assms(1) dk]
    by (auto simp: validate_scheduler_state_def active_ids_def split: if_splits)
  then obtain v s where v: "(i, v) \<in> set ?states" "coerce_task_state v = Inr s" "s \<in> set ACTIVE_TASK_STATES"
    using filterE_set [OF kvs(1)] by auto
  then have "map_of ?states i = Some v" using dk by simp
  with v show ?thesis by (auto simp: state_of_Some ts.read_iff)
qed

lemma selection_safe:
  assumes "plan_ok p" "caps_ok p" "state_dicts st0"
    and "schedule fl sha now p st0 av = Inr (st, d)"
  shows "distinct (sd_selected_task_ids d)
    \<and> (\<forall>i \<in> set (sd_selected_task_ids d). state_of (rs_task_states st) i = Some READY
        \<and> (\<exists>t. task_map p i = Some t \<and> (\<forall>x \<in> set (t_depends_on t). state_of (rs_task_states st) x = Some VERIFIED))
        \<and> i \<notin> set (rs_active_task_ids st)
        \<and> lookup_or (av_blocked_reasons av) i [] = [] \<and> lookup_or (av_resource_available av) i True)
    \<and> (\<forall>i \<in> set (sd_selected_task_ids d). \<forall>j \<in> set (sd_selected_task_ids d).
        j \<notin> set (lookup_or (av_resource_conflicts av) i []))
    \<and> int (length (rs_active_task_ids st @ sd_selected_task_ids d))
        \<le> max (sd_worker_limit d) (int (length (rs_active_task_ids st)))
    \<and> (\<forall>c l. map_of (effective_capability_limits p st av) c = Some l \<longrightarrow>
        int (count_list (concat (map (caps p) (rs_active_task_ids st @ sd_selected_task_ids d))) c)
          \<le> max l (int (count_list (concat (map (caps p) (rs_active_task_ids st))) c)))"
proof -
  obtain st1 b u0 scores us where
    va: "validate_availability p av = Inr ()" and vs: "validate_scheduler_state p st0 = Inr ()"
    and r: "reconcile_ready_tasks fl sha p st0 = Inr (st1, ready_in p st1)"
    and f: "follow_budget now b (sd_worker_limit d) st1 = Inr st"
    and n: "sd_open_worker_slots d = max 0 (sd_worker_limit d - int (length (rs_active_task_ids st)))"
    and u: "active_capability_usage p st = Inr u0" and ids: "map ps_task_id scores = ready_in p st"
    and pr: "sd_priorities d = sort_key priority_key scores"
      "sd_ready_task_ids d = map ps_task_id (sd_priorities d)"
    and inv: "pass_inv p av (effective_capability_limits p st av) (sd_open_worker_slots d) u0
       (sd_selected_task_ids d, sd_deferred d, us)"
    and part: "mset (sd_selected_task_ids d @ map df_task_id (sd_deferred d)) = mset (sd_ready_task_ids d)"
    by (rule schedule_Inr [OF assms])
  let ?sel = "sd_selected_task_ids d"
  note rec = reconcile_Inr [OF assms(1,3) r]
  note fol = follow_budget_Inr [OF f]
  have "mset (sd_ready_task_ids d) = mset (ready_in p st)"
    unfolding pr ids [symmetric] by simp
  then have m: "mset (?sel @ map df_task_id (sd_deferred d)) = mset (ready_in p st)" using part by simp
  then have dist: "distinct (?sel @ map df_task_id (sd_deferred d))"
    using ready_in_distinct [OF assms(1)] mset_eq_imp_distinct_iff by blast
  have sub: "set ?sel \<subseteq> set (ready_in p st)"
    using m by (metis Un_upper1 set_append set_mset_mset)
  have ready: "state_of (rs_task_states st) i = Some READY \<and>
      (\<exists>t. task_map p i = Some t \<and> (\<forall>x \<in> set (t_depends_on t). state_of (rs_task_states st) x = Some VERIFIED))
      \<and> i \<notin> set (rs_active_task_ids st)"
    if i: "i \<in> set ?sel" for i
  proof -
    have st: "state_of (rs_task_states st) i = Some READY" "i \<in> set (task_ids p)" using i sub by auto
    then obtain t where t: "t \<in> set (pl_tasks p)" "t_id t = i" by auto
    have "valid_map p (rs_task_states st)" using rec fol by simp
    then have "\<forall>x \<in> set (t_depends_on t). state_of (rs_task_states st) x = Some VERIFIED"
      using valid_mapD(2) [OF _ t(1), of "rs_task_states st" READY] st(1) t(2) by (simp add: advanced_def)
    moreover have "task_map p i = Some t" using plan_okD(1) [OF assms(1) t(1)] t(2) by simp
    moreover have "i \<notin> set (rs_active_task_ids st)"
    proof
      assume "i \<in> set (rs_active_task_ids st)"
      then have "i \<in> set (rs_active_task_ids st0)" using rec fol by (metis same_active)
      then obtain s where s: "s \<in> set ACTIVE_TASK_STATES" "state_of (rs_task_states st0) i = Some s"
        using active_state [OF assms(1,3) vs] by blast
      then have "state_of (rs_task_states st) i = Some s"
        using rec fol by (auto simp: ACTIVE_TASK_STATES_def)
      with s(1) st(1) show False by (auto simp: ACTIVE_TASK_STATES_def)
    qed
    ultimately show ?thesis using st(1) by blast
  qed
  have conf: "j \<notin> set (lookup_or (av_resource_conflicts av) i [])"
    if "i \<in> set ?sel" "j \<in> set ?sel" for i j
  proof
    assume c: "j \<in> set (lookup_or (av_resource_conflicts av) i [])"
    then have c': "i \<in> set (lookup_or (av_resource_conflicts av) j [])"
      by (rule availability_symmetric [OF va])
    have ne: "i \<noteq> j" using c no_self_conflict [OF va] by blast
    from that(1) obtain a where a: "a < length ?sel" "?sel ! a = i" unfolding in_set_conv_nth by blast
    from that(2) obtain b where b: "b < length ?sel" "?sel ! b = j" unfolding in_set_conv_nth by blast
    have sw: "sorted_wrt (\<lambda>j i. j \<notin> set (lookup_or (av_resource_conflicts av) i [])) ?sel"
      using inv by (simp add: pass_inv_def)
    from ne a b have "a < b \<or> b < a" by (cases a b rule: linorder_cases) simp_all
    then show False using sorted_wrt_nth_less [OF sw] a b c c' by blast
  qed
  have us: "us = concat (map (caps p) (rs_active_task_ids st @ ?sel))"
    and len: "int (length ?sel) \<le> sd_open_worker_slots d"
    and lim: "\<forall>c l. map_of (effective_capability_limits p st av) c = Some l \<longrightarrow>
      int (count_list us c) \<le> max l (int (count_list u0 c))"
    and free: "\<forall>i \<in> set ?sel. lookup_or (av_blocked_reasons av) i [] = []
        \<and> lookup_or (av_resource_available av) i True"
    using inv usage_Inr [OF u] by (auto simp: pass_inv_def)
  have slots: "int (length (rs_active_task_ids st @ ?sel))
      \<le> max (sd_worker_limit d) (int (length (rs_active_task_ids st)))"
    using len n by simp
  show ?thesis
    using dist ready conf slots lim [unfolded us usage_Inr [OF u]] free unfolding distinct_append by blast
qed

text \<open>
  C20. A decision is safe. Every selected task is READY with all prerequisites VERIFIED, is
  not active already, is selected once, and is neither blocked nor without its resources;
  no two selected tasks conflict over a resource; launching all of them fills at most the
  worker limit; and of every limited capability (the Computer Use surface among them) no
  more is then in use than its limit, unless the active tasks alone already used more.
\<close>

theorem schedule_safe:
  assumes "plan_ok p" "caps_ok p" "state_dicts st0"
    and "schedule fl sha now p st0 av = Inr (st, d)"
  shows "distinct (sd_selected_task_ids d)
    \<and> (\<forall>i \<in> set (sd_selected_task_ids d). state_of (rs_task_states st) i = Some READY
        \<and> (\<exists>t. task_map p i = Some t \<and> (\<forall>x \<in> set (t_depends_on t). state_of (rs_task_states st) x = Some VERIFIED))
        \<and> i \<notin> set (rs_active_task_ids st)
        \<and> lookup_or (av_blocked_reasons av) i [] = [] \<and> lookup_or (av_resource_available av) i True)
    \<and> (\<forall>i \<in> set (sd_selected_task_ids d). \<forall>j \<in> set (sd_selected_task_ids d).
        j \<notin> set (lookup_or (av_resource_conflicts av) i []))
    \<and> int (length (rs_active_task_ids st @ sd_selected_task_ids d))
        \<le> max (sd_worker_limit d) (int (length (rs_active_task_ids st)))
    \<and> (\<forall>c l. map_of (effective_capability_limits p st av) c = Some l \<longrightarrow>
        int (count_list (concat (map (caps p) (rs_active_task_ids st @ sd_selected_task_ids d))) c)
          \<le> max l (int (count_list (concat (map (caps p) (rs_active_task_ids st))) c)))"
  using assms by (rule selection_safe)

definition pair_plan :: plan where
  "pair_plan = sample_plan [sample_task ''x'' [], sample_task ''y'' []]"

definition pair_state :: run_state where
  "pair_state = sample_state pair_plan (initial_task_states pair_plan) []"

text \<open>Two tasks that write the same resource.\<close>

definition pair_availability :: scheduler_availability where
  "pair_availability = \<lparr>av_available_capabilities = None, av_capability_limits = [],
     av_resource_available = [], av_resource_conflicts = [(''x'', [''y'']), (''y'', [''x''])],
     av_blocked_reasons = []\<rparr>"

definition pair_decision :: "(run_state \<times> scheduler_decision) result" where
  "pair_decision = schedule (\<lambda>_. []) (\<lambda>s. s) ''now'' pair_plan pair_state pair_availability"

lemma pair_selected:
  obtains st d where
    "schedule (\<lambda>_. []) (\<lambda>s. s) ''now'' pair_plan pair_state pair_availability = Inr (st, d)"
    "sd_selected_task_ids d = [''x'']" "map df_task_id (sd_deferred d) = [''y'']"
    "sd_worker_limit d = 10" "rs_active_task_ids st = []"
proof -
  have c: "case pair_decision of Inl e \<Rightarrow> False | Inr (st, d) \<Rightarrow> sd_selected_task_ids d = [''x'']
    \<and> map df_task_id (sd_deferred d) = [''y''] \<and> sd_worker_limit d = 10 \<and> rs_active_task_ids st = []"
    by code_simp
  then obtain st d where "pair_decision = Inr (st, d)" by (auto split: sum.splits)
  with c show thesis using that unfolding pair_decision_def by simp
qed

lemma pair_ok: "plan_ok pair_plan" "caps_ok pair_plan" "state_dicts pair_state"
  by code_simp+

theorem schedule_safe_witness:
  "\<exists>st d. pair_decision = Inr (st, d) \<and> sd_selected_task_ids d = [''x'']
    \<and> state_of (rs_task_states st) ''x'' = Some READY"
proof -
  obtain st d where d: "schedule (\<lambda>_. []) (\<lambda>s. s) ''now'' pair_plan pair_state pair_availability = Inr (st, d)"
    "sd_selected_task_ids d = [''x'']" "map df_task_id (sd_deferred d) = [''y'']"
    "sd_worker_limit d = 10" "rs_active_task_ids st = []"
    by (rule pair_selected)
  from schedule_safe [OF pair_ok d(1)] d show ?thesis by (simp add: pair_decision_def)
qed

text \<open>
  C21. A decision is complete, ordered and maximal. Every READY task is selected or deferred,
  exactly once; the tasks were considered in the order of the priority key; and a deferred
  task could not have been added: either every open slot is taken, or the task is blocked,
  without resources or a capability, or in conflict with what is running and selected.
\<close>

theorem schedule_maximal:
  assumes "plan_ok p" "caps_ok p" "state_dicts st0"
    and "schedule fl sha now p st0 av = Inr (st, d)"
  shows "mset (sd_selected_task_ids d @ map df_task_id (sd_deferred d)) = mset (ready_in p st)
    \<and> sorted (map priority_key (sd_priorities d)) \<and> map ps_task_id (sd_priorities d) = sd_ready_task_ids d
    \<and> mset (sd_ready_task_ids d) = mset (ready_in p st)
    \<and> (\<forall>x \<in> set (sd_deferred d). df_reasons x \<noteq> [] \<and>
        (int (length (sd_selected_task_ids d)) = sd_open_worker_slots d
         \<or> hindered p av (effective_capability_limits p st av) (sd_selected_task_ids d)
            (concat (map (caps p) (rs_active_task_ids st @ sd_selected_task_ids d))) (df_task_id x)))"
proof -
  obtain u0 scores us where
    u: "active_capability_usage p st = Inr u0" and ids: "map ps_task_id scores = ready_in p st"
    and pr: "sd_priorities d = sort_key priority_key scores"
      "sd_ready_task_ids d = map ps_task_id (sd_priorities d)"
    and inv: "pass_inv p av (effective_capability_limits p st av) (sd_open_worker_slots d) u0
       (sd_selected_task_ids d, sd_deferred d, us)"
    and part: "mset (sd_selected_task_ids d @ map df_task_id (sd_deferred d)) = mset (sd_ready_task_ids d)"
    by (rule schedule_Inr [OF assms])
  have r: "mset (sd_ready_task_ids d) = mset (ready_in p st)"
    unfolding pr ids [symmetric] by simp
  have us: "us = concat (map (caps p) (rs_active_task_ids st @ sd_selected_task_ids d))"
    and dfr: "\<forall>x \<in> set (sd_deferred d). df_reasons x \<noteq> [] \<and>
        (int (length (sd_selected_task_ids d)) = sd_open_worker_slots d
         \<or> hindered p av (effective_capability_limits p st av) (sd_selected_task_ids d) us (df_task_id x))"
    using inv usage_Inr [OF u] by (auto simp: pass_inv_def)
  have "sorted (map priority_key (sd_priorities d))" unfolding pr by (rule sorted_sort_key)
  moreover have "mset (sd_selected_task_ids d @ map df_task_id (sd_deferred d)) = mset (ready_in p st)"
    using part r by simp
  ultimately show ?thesis using r pr(2) [symmetric] dfr unfolding us by blast
qed

theorem schedule_maximal_witness:
  "\<exists>st d. pair_decision = Inr (st, d) \<and> map df_task_id (sd_deferred d) = [''y'']
    \<and> hindered pair_plan pair_availability (effective_capability_limits pair_plan st pair_availability)
        [''x''] (caps pair_plan ''x'') ''y''"
proof -
  obtain st d where d: "schedule (\<lambda>_. []) (\<lambda>s. s) ''now'' pair_plan pair_state pair_availability = Inr (st, d)"
    "sd_selected_task_ids d = [''x'']" "map df_task_id (sd_deferred d) = [''y'']"
    "sd_worker_limit d = 10" "rs_active_task_ids st = []"
    by (rule pair_selected)
  obtain x where x: "sd_deferred d = [x]" "df_task_id x = ''y''" using d(3) by auto
  have "sd_open_worker_slots d = 10"
    using schedule_Inr [OF pair_ok d(1)] d(4,5) by (metis list.size(3) of_nat_0 diff_zero max.absorb2 zero_le_numeral)
  then show ?thesis
    using schedule_maximal [OF pair_ok d(1)] d x by (simp add: pair_decision_def)
qed



end
