(* ===== verification/ResourceClaims.thy ===== *)
theory ResourceClaims
  imports PlanModel "HOL-Library.Sublist"
begin

text \<open>
  The identity of a resource claim and when two claims collide: \<^verbatim>\<open>normalize_claim\<close>,
  \<^verbatim>\<open>claims_match\<close>, \<^verbatim>\<open>claims_conflict\<close> and the path and glob functions of
  \<^verbatim>\<open>resources.py\<close>. Paths are POSIX path text as \<^verbatim>\<open>pathlib\<close> reads it: a root,
  and the components that are neither empty nor a single dot. What depends on the machine (resolving
  symbolic links, Unicode normalisation and case folding, reading ISO-8601 text) comes in
  the record \<open>host\<close>.
\<close>

section \<open>The host\<close>

text \<open>
  \<^verbatim>\<open>Path.resolve\<close> as text to text, \<^verbatim>\<open>unicodedata.normalize("NFKC", _)\<close>,
  \<^verbatim>\<open>str.casefold\<close>, and \<^verbatim>\<open>datetime.fromisoformat\<close>: nothing for text that is
  no timestamp, otherwise whether it carries a time zone.
\<close>

record host =
  h_resolve :: "string \<Rightarrow> string"
  h_nfkc :: "string \<Rightarrow> string"
  h_casefold :: "string \<Rightarrow> string"
  h_fromisoformat :: "string \<Rightarrow> bool option"

section \<open>Paths\<close>

definition path_root :: "string \<Rightarrow> string" where
  "path_root s = (if take 2 s = ''//'' \<and> take 3 s \<noteq> ''///'' then ''//''
     else if take 1 s = ''/'' then ''/'' else [])"

definition path_tail :: "string \<Rightarrow> string list" where
  "path_tail s = filter (\<lambda>x. x \<noteq> [] \<and> x \<noteq> ''.'') (split_on (CHR ''/'') (drop (length (path_root s)) s))"

definition path_parts :: "string \<Rightarrow> string list" where
  "path_parts s = (if path_root s = [] then path_tail s else path_root s # path_tail s)"

definition path_str :: "string \<Rightarrow> string list \<Rightarrow> string" where
  "path_str base tail = (if base = [] \<and> tail = [] then ''.'' else base @ join ''/'' tail)"

definition is_absolute :: "string \<Rightarrow> bool" where
  "is_absolute s \<longleftrightarrow> path_root s \<noteq> []"

text \<open>\<^verbatim>\<open>Path(base) / other\<close>, and \<^verbatim>\<open>Path(base).joinpath(*parts)\<close> for relative parts.\<close>

definition path_join :: "string \<Rightarrow> string list \<Rightarrow> string" where
  "path_join base tail = path_str (path_root base) (path_tail base @ tail)"

definition is_within :: "string \<Rightarrow> string \<Rightarrow> bool" where
  "is_within path directory \<longleftrightarrow> path_root path = path_root directory \<and> prefix (path_tail directory) (path_tail path)"

definition paths_nested :: "string \<Rightarrow> string \<Rightarrow> bool" where
  "paths_nested left right \<longleftrightarrow> is_within left right \<or> is_within right left"

section \<open>Globs\<close>

definition has_magic :: "string \<Rightarrow> bool" where
  "has_magic part \<longleftrightarrow> (\<exists>c \<in> set part. c \<in> set ''*?['')"

text \<open>
  \<^verbatim>\<open>fnmatch.fnmatchcase\<close>: the pattern as tokens, and the match. A character class is
  the text up to the next closing bracket, which may be its first character; a hyphen between
  two characters makes a range, a leading exclamation mark negates, and an opening bracket
  without a closing one stands for itself.
\<close>

datatype fn_token = FnStar | FnAny | FnSet bool "(char \<times> char) list" | FnLit char

fun class_items :: "string \<Rightarrow> (char \<times> char) list" where
  "class_items (a # b # c # rest) =
     (if b = CHR ''-'' then (a, c) # class_items rest else (a, a) # class_items (b # c # rest))"
| "class_items [a, b] = [(a, a), (b, b)]"
| "class_items [a] = [(a, a)]"
| "class_items [] = []"

definition class_split :: "string \<Rightarrow> (string \<times> string) option" where
  "class_split s =
     (let i = (if take 1 s = ''!'' then 1 else 0);
          j = (if take 1 (drop i s) = '']'' then i + 1 else i);
          n = j + length (takeWhile (\<lambda>c. c \<noteq> CHR '']'') (drop j s))
      in if length s \<le> n then None else Some (take n s, drop (Suc n) s))"

lemma class_split_shorter: "class_split s = Some (stuff, rest) \<Longrightarrow> length rest < length s"
  by (auto simp: class_split_def Let_def split: if_splits)

function fn_tokens :: "string \<Rightarrow> fn_token list" where
  "fn_tokens [] = []"
| "fn_tokens (c # cs) =
     (if c = CHR ''*'' then FnStar # fn_tokens cs
      else if c = CHR ''?'' then FnAny # fn_tokens cs
      else if c = CHR ''['' then
        (case class_split cs of
           None \<Rightarrow> FnLit c # fn_tokens cs
         | Some (stuff, rest) \<Rightarrow>
             (if take 1 stuff = ''!'' then FnSet True (class_items (tl stuff))
              else FnSet False (class_items stuff)) # fn_tokens rest)
      else FnLit c # fn_tokens cs)"
  by pat_completeness auto
termination
  by (relation "measure length") (auto dest: class_split_shorter)

fun fn_match :: "fn_token list \<Rightarrow> string \<Rightarrow> bool" where
  "fn_match [] s = (s = [])"
| "fn_match (FnStar # ts) [] = fn_match ts []"
| "fn_match (FnStar # ts) (c # s) = (fn_match ts (c # s) \<or> fn_match (FnStar # ts) s)"
| "fn_match (FnAny # ts) [] = False"
| "fn_match (FnAny # ts) (c # s) = fn_match ts s"
| "fn_match (FnSet neg items # ts) [] = False"
| "fn_match (FnSet neg items # ts) (c # s) =
     (neg \<noteq> list_ex (\<lambda>(lo, hi). lo \<le> c \<and> c \<le> hi) items \<and> fn_match ts s)"
| "fn_match (FnLit d # ts) [] = False"
| "fn_match (FnLit d # ts) (c # s) = (c = d \<and> fn_match ts s)"

definition fnmatchcase :: "string \<Rightarrow> string \<Rightarrow> bool" where
  "fnmatchcase name pat = fn_match (fn_tokens pat) name"

text \<open>
  \<^verbatim>\<open>_glob_matches\<close>: a double star component matches any number of components, and the
  answers are remembered by the two positions. The positions never exceed the lengths.
\<close>

type_synonym memo = "((nat \<times> nat) \<times> bool) list"

function glob_visit :: "string list \<Rightarrow> string list \<Rightarrow> nat \<Rightarrow> nat \<Rightarrow> memo \<Rightarrow> bool \<times> memo" where
  "glob_visit ps qs i j memo =
     (case map_of memo (i, j) of
        Some known \<Rightarrow> (known, memo)
      | None \<Rightarrow>
          (case (if length ps \<le> i then (j = length qs, memo)
             else if ps ! i = ''**'' then
               (case glob_visit ps qs (i + 1) j memo of (rest, memo1) \<Rightarrow>
                  if rest then (True, memo1)
                  else if j < length qs then glob_visit ps qs i (j + 1) memo1 else (False, memo1))
             else if j < length qs \<and> fnmatchcase (qs ! j) (ps ! i) then
               glob_visit ps qs (i + 1) (j + 1) memo
             else (False, memo)) of
           (res, memo2) \<Rightarrow> (res, ((i, j), res) # memo2)))"
  by pat_completeness auto
termination
  by (relation "measure (\<lambda>(ps, qs, i, j, memo). (length ps - i) + (length qs - j))") auto

declare glob_visit.simps [simp del]

definition glob_matches :: "string \<Rightarrow> string \<Rightarrow> bool" where
  "glob_matches pattern path =
     fst (glob_visit (split_on (CHR ''/'') pattern) (split_on (CHR ''/'') path) 0 0 [])"

definition literal_parts :: "string list \<Rightarrow> string list" where
  "literal_parts parts = takeWhile (\<lambda>p. \<not> has_magic p) parts"

definition glob_static_root :: "string \<Rightarrow> string" where
  "glob_static_root pattern =
     (let literal = literal_parts (path_parts pattern) in
      if literal = [] then ''/''
      else if path_root pattern = [] then path_str [] literal
      else path_str (path_root pattern) (tl literal))"

definition normalize_glob :: "host \<Rightarrow> string \<Rightarrow> string \<Rightarrow> string" where
  "normalize_glob h target base =
     (let parts = path_parts target;
          literal = literal_parts parts;
          suffix = drop (length literal) parts;
          prefix_text = (if is_absolute target then path_str (path_root target) (tl literal)
             else path_join base literal);
          normalized = h_resolve h prefix_text
      in if suffix = [] then normalized
         else normalized @ (if normalized = ''/'' then [] else ''/'') @ join ''/'' suffix)"

section \<open>Claims\<close>

record normalized_claim =
  nc_id :: string
  nc_kind :: string
  nc_target :: string
  nc_access :: string

definition FILESYSTEM_RESOURCE_KINDS :: "string list" where
  "FILESYSTEM_RESOURCE_KINDS = [''path'', ''directory'', ''glob'']"

definition normalize_claim :: "host \<Rightarrow> resource_claim \<Rightarrow> string \<Rightarrow> normalized_claim result" where
  "normalize_claim h claim project_root =
     (if CHR 0x00 \<in> set (rc_target claim) then
        Inl (ValueError ''resource claim contains a NUL byte'' [rc_id claim])
      else
        let base = h_resolve h project_root;
            target = (if rc_kind claim = ''glob'' then normalize_glob h (rc_target claim) base
              else if rc_kind claim = ''path'' \<or> rc_kind claim = ''directory'' then
                h_resolve h (if is_absolute (rc_target claim)
                  then path_str (path_root (rc_target claim)) (path_tail (rc_target claim))
                  else path_join base (path_tail (rc_target claim)))
              else h_casefold h (squeeze (h_nfkc h (rc_target claim))))
        in Inr \<lparr>nc_id = rc_id claim, nc_kind = rc_kind claim, nc_target = target,
             nc_access = rc_access claim\<rparr>)"

definition normalize_task_claims :: "host \<Rightarrow> task \<Rightarrow> string \<Rightarrow> normalized_claim list result" where
  "normalize_task_claims h t project_root = mapE (\<lambda>c. normalize_claim h c project_root) (t_resources t)"

definition filesystem_targets_overlap ::
  "host \<Rightarrow> normalized_claim \<Rightarrow> normalized_claim \<Rightarrow> bool result" where
  "filesystem_targets_overlap h left right =
     (let l = h_casefold h (nc_target left); r = h_casefold h (nc_target right);
          lk = nc_kind left; rk = nc_kind right
      in if lk = ''path'' \<and> rk = ''path'' then Inr (l = r)
         else if lk = ''directory'' \<and> rk = ''directory'' then Inr (paths_nested l r)
         else if lk = ''directory'' \<and> rk = ''path'' then Inr (is_within r l)
         else if lk = ''path'' \<and> rk = ''directory'' then Inr (is_within l r)
         else if lk = ''glob'' \<and> rk = ''path'' then Inr (glob_matches l r)
         else if lk = ''path'' \<and> rk = ''glob'' then Inr (glob_matches r l)
         else if lk = ''glob'' \<and> rk = ''glob'' then
           Inr (paths_nested (glob_static_root l) (glob_static_root r))
         else if lk = ''glob'' \<and> rk = ''directory'' then Inr (paths_nested (glob_static_root l) r)
         else if lk = ''directory'' \<and> rk = ''glob'' then Inr (paths_nested l (glob_static_root r))
         else Inl (AssertionError ''unsupported filesystem resource pair''))"

definition claims_match :: "host \<Rightarrow> normalized_claim \<Rightarrow> normalized_claim \<Rightarrow> bool result" where
  "claims_match h left right =
     (if nc_kind left \<in> set FILESYSTEM_RESOURCE_KINDS \<and> nc_kind right \<in> set FILESYSTEM_RESOURCE_KINDS
      then filesystem_targets_overlap h left right
      else Inr (nc_kind left = nc_kind right \<and> nc_target left = nc_target right))"

definition claims_conflict :: "host \<Rightarrow> normalized_claim \<Rightarrow> normalized_claim \<Rightarrow> bool result" where
  "claims_conflict h left right =
     bindE (claims_match h left right) (\<lambda>matching.
       Inr (matching \<and> (''exclusive'' \<in> {nc_access left, nc_access right}
         \<or> \<not> (nc_access left = ''read'' \<and> nc_access right = ''read''))))"

section \<open>The pattern language\<close>

text \<open>What a list of pattern components matches, as a relation.\<close>

inductive glob_lang :: "string list \<Rightarrow> string list \<Rightarrow> bool" where
  glob_Nil: "glob_lang [] []"
| glob_part: "p \<noteq> ''**'' \<Longrightarrow> fnmatchcase q p \<Longrightarrow> glob_lang ps qs \<Longrightarrow> glob_lang (p # ps) (q # qs)"
| glob_stop: "glob_lang ps qs \<Longrightarrow> glob_lang (''**'' # ps) qs"
| glob_more: "glob_lang (''**'' # ps) qs \<Longrightarrow> glob_lang (''**'' # ps) (q # qs)"

inductive_simps glob_lang_Nil: "glob_lang [] qs"
inductive_simps glob_lang_Cons_Nil: "glob_lang (p # ps) []"
inductive_simps glob_lang_Cons: "glob_lang (p # ps) (q # qs)"

lemmas glob_lang_simps = glob_lang_Nil glob_lang_Cons_Nil glob_lang_Cons

definition memo_ok :: "string list \<Rightarrow> string list \<Rightarrow> memo \<Rightarrow> bool" where
  "memo_ok ps qs memo \<longleftrightarrow>
     (\<forall>i j b. map_of memo (i, j) = Some b \<longrightarrow> b = glob_lang (drop i ps) (drop j qs))"

lemma memo_ok_store:
  "memo_ok ps qs memo \<Longrightarrow> b = glob_lang (drop i ps) (drop j qs) \<Longrightarrow> memo_ok ps qs (((i, j), b) # memo)"
  by (auto simp: memo_ok_def)

lemma glob_visit_correct:
  "i \<le> length ps \<Longrightarrow> j \<le> length qs \<Longrightarrow> memo_ok ps qs memo \<Longrightarrow>
   fst (glob_visit ps qs i j memo) = glob_lang (drop i ps) (drop j qs)
   \<and> memo_ok ps qs (snd (glob_visit ps qs i j memo))"
proof (induction ps qs i j memo rule: glob_visit.induct)
  case (1 ps qs i j memo)
  let ?lang = "\<lambda>i j. glob_lang (drop i ps) (drop j qs)"
  show ?case
  proof (cases "map_of memo (i, j)")
    case (Some known)
    then show ?thesis using "1.prems"(3) by (subst (1 2) glob_visit.simps) (simp add: memo_ok_def)
  next
    case None
    have fin: "fst (glob_visit ps qs i j memo) = ?lang i j
        \<and> memo_ok ps qs (snd (glob_visit ps qs i j memo))"
      if "(if length ps \<le> i then (j = length qs, memo)
             else if ps ! i = ''**'' then
               (case glob_visit ps qs (i + 1) j memo of (rest, memo1) \<Rightarrow>
                  if rest then (True, memo1)
                  else if j < length qs then glob_visit ps qs i (j + 1) memo1 else (False, memo1))
             else if j < length qs \<and> fnmatchcase (qs ! j) (ps ! i) then
               glob_visit ps qs (i + 1) (j + 1) memo
             else (False, memo)) = (res, memo2)" "res = ?lang i j" "memo_ok ps qs memo2" for res memo2
    proof -
      have "glob_visit ps qs i j memo = (res, ((i, j), res) # memo2)"
        by (subst glob_visit.simps) (simp add: None that(1) del: if_split)
      then show ?thesis using that(2,3) memo_ok_store by simp
    qed
    show ?thesis
    proof (cases "length ps \<le> i")
      case True
      then show ?thesis using "1.prems" by (intro fin [of "j = length qs" memo]) (auto simp: glob_lang_simps)
    next
      case i: False
      then have ps: "drop i ps = ps ! i # drop (i + 1) ps" by (simp add: Cons_nth_drop_Suc)
      have qs: "drop j qs = qs ! j # drop (j + 1) qs" if "j < length qs"
        using that by (simp add: Cons_nth_drop_Suc)
      have qs': "drop j qs = []" if "\<not> j < length qs" using that "1.prems"(2) by simp
      show ?thesis
      proof (cases "ps ! i = ''**''")
        case star: True
        obtain rest memo1 where r: "glob_visit ps qs (i + 1) j memo = (rest, memo1)" by (cases "glob_visit ps qs (i + 1) j memo")
        then have r': "rest = ?lang (i + 1) j" "memo_ok ps qs memo1"
          using "1.IH"(1) [OF None i star] "1.prems" i by auto
        show ?thesis
        proof (cases "\<not> rest \<and> j < length qs")
          case True
          obtain res memo2 where s: "glob_visit ps qs i (j + 1) memo1 = (res, memo2)"
            by (cases "glob_visit ps qs i (j + 1) memo1")
          then have "res = ?lang i (j + 1)" "memo_ok ps qs memo2"
            using "1.IH"(2) [OF None i star r [symmetric]] "1.prems" True r' i by auto
          then show ?thesis using i star r r' s True ps qs
            by (intro fin [of res memo2]) (auto simp: glob_lang_simps)
        next
          case False
          then show ?thesis using i star r r' ps qs'
            by (intro fin [of rest memo1]) (auto simp: glob_lang_simps intro: glob_stop)
        qed
      next
        case part: False
        show ?thesis
        proof (cases "j < length qs \<and> fnmatchcase (qs ! j) (ps ! i)")
          case True
          obtain res memo2 where s: "glob_visit ps qs (i + 1) (j + 1) memo = (res, memo2)"
            by (cases "glob_visit ps qs (i + 1) (j + 1) memo")
          then have "res = ?lang (i + 1) (j + 1)" "memo_ok ps qs memo2"
            using "1.IH"(3) [OF None i part True] "1.prems" True i by auto
          then show ?thesis using i part s True ps qs
            by (intro fin [of res memo2]) (auto simp: glob_lang_simps)
        next
          case False
          have "\<not> ?lang i j"
          proof (cases "j < length qs")
            case True
            show ?thesis unfolding ps qs [OF True] using False True part by (simp add: glob_lang_simps)
          next
            case False
            show ?thesis unfolding ps qs' [OF False] using part by (simp add: glob_lang_simps)
          qed
          then show ?thesis using i part False "1.prems" by (intro fin [of False memo]) auto
        qed
      qed
    qed
  qed
qed

lemma glob_matches_lang:
  "glob_matches pattern path = glob_lang (split_on (CHR ''/'') pattern) (split_on (CHR ''/'') path)"
  using glob_visit_correct [of 0 "split_on (CHR ''/'') pattern" 0 "split_on (CHR ''/'') path" "[]"]
  by (simp add: glob_matches_def memo_ok_def)

text \<open>
  C23. The memoised matcher decides the pattern language: a path matches exactly when its
  components match the pattern's, where a double star stands for any number of components
  and every other component is matched by \<^verbatim>\<open>fnmatch\<close>.
\<close>

theorem glob_matches_correct:
  "glob_matches pattern path = glob_lang (split_on (CHR ''/'') pattern) (split_on (CHR ''/'') path)"
  by (rule glob_matches_lang)

section \<open>Literal components\<close>

lemma fn_tokens_literal: "\<not> has_magic p \<Longrightarrow> fn_tokens p = map FnLit p"
  by (induction p) (auto simp: has_magic_def)

lemma fn_match_literal: "fn_match (map FnLit p) s \<longleftrightarrow> s = p"
  by (induction p arbitrary: s) (case_tac s; auto)+

lemma fnmatch_literal: "\<not> has_magic p \<Longrightarrow> fnmatchcase s p \<longleftrightarrow> s = p"
  by (simp add: fnmatchcase_def fn_tokens_literal fn_match_literal)

lemma glob_literal_prefix:
  "glob_lang ps qs \<Longrightarrow> prefix (literal_parts ps) qs"
proof (induction rule: glob_lang.induct)
  case (glob_part p q ps qs)
  then show ?case by (auto simp: literal_parts_def fnmatch_literal)
qed (simp_all add: literal_parts_def has_magic_def)

section \<open>Canonical paths\<close>

text \<open>
  What \<^verbatim>\<open>resolve\<close> gives: the root directory or a rooted path whose components are
  neither empty nor a dot and contain no separator.
\<close>

definition component :: "string \<Rightarrow> bool" where
  "component x \<longleftrightarrow> x \<noteq> [] \<and> x \<noteq> ''.'' \<and> CHR ''/'' \<notin> set x"

definition rooted :: "string list \<Rightarrow> string" where
  "rooted xs = CHR ''/'' # join ''/'' xs"

definition canonical :: "string \<Rightarrow> bool" where
  "canonical s \<longleftrightarrow> (\<exists>xs. list_all component xs \<and> s = rooted xs)"

lemma split_from_plain: "CHR ''/'' \<notin> set x \<Longrightarrow> split_from (CHR ''/'') acc x = [acc @ x]"
  by (induction x arbitrary: acc) auto

lemma split_from_sep:
  "CHR ''/'' \<notin> set x \<Longrightarrow> split_from (CHR ''/'') acc (x @ CHR ''/'' # s) = (acc @ x) # split_from (CHR ''/'') [] s"
  by (induction x arbitrary: acc) auto

lemma split_join: "xs \<noteq> [] \<Longrightarrow> \<forall>x \<in> set xs. CHR ''/'' \<notin> set x \<Longrightarrow>
    split_on (CHR ''/'') (join ''/'' xs) = xs"
  unfolding split_on_def
proof (induction xs)
  case (Cons x xs)
  show ?case
  proof (cases xs)
    case Nil
    then show ?thesis using Cons.prems by (simp add: split_from_plain)
  next
    case (Cons y ys)
    then have "split_from (CHR ''/'') [] (join ''/'' xs) = xs" using Cons.IH Cons.prems by simp
    then show ?thesis using Cons Cons.prems by (simp add: join_Cons2 split_from_sep)
  qed
qed simp

lemma split_rooted:
  "list_all component xs \<Longrightarrow>
   split_on (CHR ''/'') (rooted xs) = (if xs = [] then [[], []] else [] # xs)"
proof -
  assume xs: "list_all component xs"
  have "split_on (CHR ''/'') (rooted xs) = [] # split_on (CHR ''/'') (join ''/'' xs)"
    by (simp add: rooted_def split_on_def)
  moreover have "xs \<noteq> [] \<Longrightarrow> split_on (CHR ''/'') (join ''/'' xs) = xs"
    using xs by (intro split_join) (auto simp: list_all_iff component_def)
  ultimately show ?thesis by (auto simp: split_on_def)
qed

lemma hd_join: "list_all component xs \<Longrightarrow> xs \<noteq> [] \<Longrightarrow> \<exists>c s. join ''/'' xs = c # s \<and> c \<noteq> CHR ''/''"
  by (cases xs; cases "hd xs") (auto simp: component_def join_def)

lemma path_root_rooted: "list_all component xs \<Longrightarrow> path_root (rooted xs) = ''/''"
proof (cases "xs = []")
  case True
  then show ?thesis by (simp add: rooted_def path_root_def)
next
  case False
  moreover assume "list_all component xs"
  ultimately obtain c s where "join ''/'' xs = c # s" "c \<noteq> CHR ''/''" using hd_join by blast
  then show ?thesis by (simp add: rooted_def path_root_def)
qed

lemma path_tail_rooted: "list_all component xs \<Longrightarrow> path_tail (rooted xs) = xs"
proof -
  assume xs: "list_all component xs"
  have "drop (length (path_root (rooted xs))) (rooted xs) = join ''/'' xs"
    by (simp add: path_root_rooted [OF xs]) (simp add: rooted_def)
  moreover have "filter (\<lambda>x. x \<noteq> [] \<and> x \<noteq> ''.'') xs = xs"
    using xs by (intro filter_True) (auto simp: list_all_iff component_def)
  moreover have "xs \<noteq> [] \<Longrightarrow> split_on (CHR ''/'') (join ''/'' xs) = xs"
    using xs by (intro split_join) (auto simp: list_all_iff component_def)
  ultimately show ?thesis by (cases "xs = []") (simp_all add: path_tail_def split_on_def)
qed

lemma is_within_rooted:
  "list_all component xs \<Longrightarrow> list_all component ys \<Longrightarrow> is_within (rooted xs) (rooted ys) \<longleftrightarrow> prefix ys xs"
  by (simp add: is_within_def path_root_rooted path_tail_rooted)

lemma static_root_rooted:
  "list_all component xs \<Longrightarrow> glob_static_root (rooted xs) = rooted (literal_parts xs)"
  by (simp add: glob_static_root_def path_parts_def path_root_rooted path_tail_rooted Let_def
      literal_parts_def has_magic_def path_str_def) (simp add: rooted_def)

lemma literal_components: "list_all component xs \<Longrightarrow> list_all component (literal_parts xs)"
  unfolding literal_parts_def list_all_iff by (meson set_takeWhileD)

lemma glob_in_static_root:
  assumes "list_all component xs" "list_all component qs" "glob_matches (rooted xs) (rooted qs)"
  shows "prefix (literal_parts xs) qs"
proof (cases "xs = []")
  case True
  then show ?thesis by (simp add: literal_parts_def)
next
  case False
  have "prefix (literal_parts ([] # xs)) (split_on (CHR ''/'') (rooted qs))"
    using assms(3) False unfolding glob_matches_lang split_rooted [OF assms(1)]
    by (auto intro: glob_literal_prefix)
  then have "prefix (literal_parts xs) (if qs = [] then [[]] else qs)"
    by (auto simp: split_rooted [OF assms(2)] literal_parts_def has_magic_def split: if_splits)
  moreover have "[] \<notin> set (literal_parts xs)"
    using literal_components [OF assms(1)] by (auto simp: list_all_iff component_def)
  ultimately show ?thesis by (cases "literal_parts xs"; cases "qs = []") auto
qed

section \<open>Conflicts\<close>

text \<open>
  The interface a lock table needs from its claims: a symmetric conflict relation. A table is
  exclusive when the bundles of different locks have no conflicting claims.
\<close>

locale conflict_relation =
  fixes conflict :: "'c \<Rightarrow> 'c \<Rightarrow> bool"
  assumes conflict_sym: "conflict a b \<Longrightarrow> conflict b a"
begin

definition bundles_conflict :: "'c list \<Rightarrow> 'c list \<Rightarrow> bool" where
  "bundles_conflict xs ys \<longleftrightarrow> (\<exists>x \<in> set xs. \<exists>y \<in> set ys. conflict x y)"

definition exclusive_table :: "'c list list \<Rightarrow> bool" where
  "exclusive_table t \<longleftrightarrow> sorted_wrt (\<lambda>a b. \<not> bundles_conflict a b) t"

lemma bundles_sym: "bundles_conflict xs ys \<Longrightarrow> bundles_conflict ys xs"
  unfolding bundles_conflict_def using conflict_sym by blast

lemma exclusive_snoc:
  "exclusive_table (t @ [b]) \<longleftrightarrow> exclusive_table t \<and> (\<forall>a \<in> set t. \<not> bundles_conflict a b)"
  by (simp add: exclusive_table_def sorted_wrt_append)

lemma exclusive_filter: "exclusive_table (map f t) \<Longrightarrow> exclusive_table (map f (filter P t))"
  unfolding exclusive_table_def sorted_wrt_map by (rule sorted_wrt_filter)

lemma exclusive_pair:
  assumes "exclusive_table t" "i < length t" "j < length t" "i \<noteq> j"
  shows "\<not> bundles_conflict (t ! i) (t ! j)"
  using assms bundles_sym unfolding exclusive_table_def
  by (metis linorder_neqE_nat sorted_wrt_nth_less)

end

definition conflicting :: "host \<Rightarrow> normalized_claim \<Rightarrow> normalized_claim \<Rightarrow> bool" where
  "conflicting h left right \<longleftrightarrow> claims_conflict h left right = Inr True"

lemma claims_conflict_total [simp]: "claims_conflict h l r = Inr (conflicting h l r)"
proof -
  have "\<exists>b. claims_match h l r = Inr b"
    by (auto simp: claims_match_def filesystem_targets_overlap_def FILESYSTEM_RESOURCE_KINDS_def Let_def)
  then obtain b where "claims_conflict h l r = Inr b" by (auto simp: claims_conflict_def)
  then show ?thesis by (cases b) (simp_all add: conflicting_def)
qed

lemma paths_nested_sym: "paths_nested a b = paths_nested b a"
  unfolding paths_nested_def by blast

lemma filesystem_overlap_sym: "filesystem_targets_overlap h l r = filesystem_targets_overlap h r l"
proof -
  let ?kind = "\<lambda>c k. nc_kind c = k"
  show ?thesis
    by (cases "?kind l ''path''"; cases "?kind l ''directory''"; cases "?kind l ''glob''";
        cases "?kind r ''path''"; cases "?kind r ''directory''"; cases "?kind r ''glob''";
        simp add: filesystem_targets_overlap_def Let_def eq_commute)
      (simp_all only: paths_nested_sym)
qed

lemma claims_match_sym: "claims_match h l r = claims_match h r l"
  using filesystem_overlap_sym [of h l r] by (auto simp: claims_match_def)

lemma conflicting_iff:
  "conflicting h l r \<longleftrightarrow> claims_match h l r = Inr True \<and>
     (nc_access l = ''exclusive'' \<or> nc_access r = ''exclusive'' \<or> nc_access l \<noteq> ''read'' \<or> nc_access r \<noteq> ''read'')"
  by (auto simp: conflicting_def claims_conflict_def simp del: claims_conflict_total)

interpretation cc: conflict_relation "conflicting h" for h
proof
  fix a b
  show "conflicting h a b \<Longrightarrow> conflicting h b a"
    unfolding conflicting_iff by (subst claims_match_sym) blast
qed

text \<open>The files a filesystem claim stands for, with letter case folded away.\<close>

definition covers :: "host \<Rightarrow> normalized_claim \<Rightarrow> string \<Rightarrow> bool" where
  "covers h c file =
     (if nc_kind c = ''path'' then file = h_casefold h (nc_target c)
      else if nc_kind c = ''directory'' then is_within file (h_casefold h (nc_target c))
      else nc_kind c = ''glob'' \<and> glob_matches (h_casefold h (nc_target c)) file)"

lemma covers_prefix:
  assumes "nc_kind c \<in> {''directory'', ''glob''}" "h_casefold h (nc_target c) = rooted xs"
    and "list_all component xs" "list_all component qs" "covers h c (rooted qs)"
  shows "prefix (if nc_kind c = ''glob'' then literal_parts xs else xs) qs"
proof (cases "nc_kind c = ''glob''")
  case True
  then have "glob_matches (rooted xs) (rooted qs)" using assms(2,5) by (simp add: covers_def)
  then show ?thesis using glob_in_static_root [OF assms(3,4)] True by simp
next
  case False
  then have "nc_kind c = ''directory''" using assms(1) by simp
  then have "is_within (rooted qs) (rooted xs)" using assms(2,5) by (simp add: covers_def)
  then show ?thesis using is_within_rooted [OF assms(4,3)] False by simp
qed

lemma overlap_sound:
  assumes "nc_kind l \<in> set FILESYSTEM_RESOURCE_KINDS" "nc_kind r \<in> set FILESYSTEM_RESOURCE_KINDS"
    and "canonical (h_casefold h (nc_target l))" "canonical (h_casefold h (nc_target r))" "canonical file"
    and "covers h l file" "covers h r file"
  shows "filesystem_targets_overlap h l r = Inr True"
proof -
  obtain xs ys qs where c: "list_all component xs" "h_casefold h (nc_target l) = rooted xs"
    "list_all component ys" "h_casefold h (nc_target r) = rooted ys"
    "list_all component qs" "file = rooted qs"
    using assms(3-5) unfolding canonical_def by blast
  let ?b = "\<lambda>c zs. if nc_kind c = ''glob'' then literal_parts zs else zs"
  have k: "nc_kind l = ''path'' \<or> nc_kind l = ''directory'' \<or> nc_kind l = ''glob''"
    "nc_kind r = ''path'' \<or> nc_kind r = ''directory'' \<or> nc_kind r = ''glob''"
    using assms(1,2) by (auto simp: FILESYSTEM_RESOURCE_KINDS_def)
  have pl: "nc_kind l \<noteq> ''path'' \<Longrightarrow> prefix (?b l xs) qs"
    and pr: "nc_kind r \<noteq> ''path'' \<Longrightarrow> prefix (?b r ys) qs"
    using covers_prefix [OF _ c(2,1,5)] covers_prefix [OF _ c(4,3,5)] k assms(6,7) c(6) by blast+
  show ?thesis
  proof (cases "nc_kind l = ''path'' \<or> nc_kind r = ''path''")
    case True
    then show ?thesis using k(1)
    proof (elim disjE)
      assume "nc_kind l = ''path''"
      then show ?thesis using k(2) assms(6,7)
        by (elim disjE) (simp_all add: filesystem_targets_overlap_def covers_def)
    qed (use assms(6,7) k(2) in \<open>simp_all add: filesystem_targets_overlap_def covers_def\<close>)
  next
    case False
    then have "prefix (?b l xs) (?b r ys) \<or> prefix (?b r ys) (?b l xs)"
      using pl pr prefix_same_cases by blast
    moreover have "nc_kind l = ''directory'' \<or> nc_kind l = ''glob''" "nc_kind r = ''directory'' \<or> nc_kind r = ''glob''"
      using False k by blast+
    ultimately show ?thesis using c(1-4) literal_components [OF c(1)] literal_components [OF c(3)]
      by (elim disjE)
        (simp_all add: filesystem_targets_overlap_def paths_nested_def static_root_rooted is_within_rooted)
  qed
qed

text \<open>
  C24. Two filesystem claims that stand for a common file conflict unless both only read it,
  however the two targets are spelled (a path, a directory, a glob; any letter case); claims
  that only read never conflict; and the relation is symmetric.
\<close>

theorem claims_conflict_sound:
  assumes "nc_kind l \<in> set FILESYSTEM_RESOURCE_KINDS" "nc_kind r \<in> set FILESYSTEM_RESOURCE_KINDS"
    and "canonical (h_casefold h (nc_target l))" "canonical (h_casefold h (nc_target r))" "canonical file"
    and "covers h l file" "covers h r file"
  shows "claims_conflict h l r = Inr (\<not> (nc_access l = ''read'' \<and> nc_access r = ''read''))
    \<and> claims_conflict h r l = claims_conflict h l r"
proof -
  have "claims_match h l r = Inr True"
    using overlap_sound [OF assms] assms(1,2) by (simp add: claims_match_def)
  then have "claims_conflict h l r = Inr (\<not> (nc_access l = ''read'' \<and> nc_access r = ''read''))"
    unfolding claims_conflict_total sum.inject conflicting_iff by auto
  moreover have "conflicting h r l = conflicting h l r" using cc.conflict_sym by blast
  ultimately show ?thesis by simp
qed

definition plain_host :: host where
  "plain_host = \<lparr>h_resolve = (\<lambda>s. s), h_nfkc = (\<lambda>s. s), h_casefold = lower,
     h_fromisoformat = (\<lambda>s. if s = ''now'' then Some True else None)\<rparr>"

definition claim :: "string \<Rightarrow> string \<Rightarrow> string \<Rightarrow> string \<Rightarrow> normalized_claim" where
  "claim i kind target access = \<lparr>nc_id = i, nc_kind = kind, nc_target = target, nc_access = access\<rparr>"

theorem claims_conflict_sound_witness:
  "claims_conflict plain_host (claim ''a'' ''glob'' ''/src/**/*.py'' ''write'')
     (claim ''b'' ''path'' ''/SRC/sub/Main.py'' ''read'') = Inr True"
proof -
  let ?l = "claim ''a'' ''glob'' ''/src/**/*.py'' ''write''"
  let ?r = "claim ''b'' ''path'' ''/SRC/sub/Main.py'' ''read''"
  have "canonical ''/src/**/*.py''"
    unfolding canonical_def by (rule exI [of _ "[''src'', ''**'', ''*.py'']"]) code_simp
  moreover have "canonical ''/src/sub/main.py''"
    unfolding canonical_def by (rule exI [of _ "[''src'', ''sub'', ''main.py'']"]) code_simp
  moreover have "h_casefold plain_host (nc_target ?l) = ''/src/**/*.py''"
    "h_casefold plain_host (nc_target ?r) = ''/src/sub/main.py''"
    "covers plain_host ?l ''/src/sub/main.py''" "covers plain_host ?r ''/src/sub/main.py''"
    "nc_kind ?l \<in> set FILESYSTEM_RESOURCE_KINDS" "nc_kind ?r \<in> set FILESYSTEM_RESOURCE_KINDS" by code_simp+
  ultimately show ?thesis
    using claims_conflict_sound [of ?l ?r plain_host "''/src/sub/main.py''"] by (simp add: claim_def)
qed

end
