(* ===== verification/ResourceLocks.thy ===== *)
theory ResourceLocks
  imports ResourceClaims Scheduler
begin

text \<open>
  The durable resource locks of \<^verbatim>\<open>resources.py\<close>: owners, locks and their JSON
  form, the validation of the persisted lock table against its journal, acquisition and
  release inside the caller's transaction, and the availability snapshot for the scheduler.
  A lock table is a list of JSON objects in the run state; the journal is append-only. The
  file lock around a transaction is not modelled: the operations are atomic steps.
\<close>

section \<open>Reading fields\<close>

definition LOCK_EVENTS :: "string list" where
  "LOCK_EVENTS = [''acquired'', ''released'', ''reconciled_release'']"

definition require_exact_keys :: "pyval dict \<Rightarrow> string list \<Rightarrow> string \<Rightarrow> unit result" where
  "require_exact_keys raw expected label =
     (if set (keys raw) \<noteq> set expected then
        Inl (ValueError ''keys are invalid'' (label
          # sorted_set (filter (\<lambda>k. k \<notin> set (keys raw)) expected)
          @ sorted_set (filter (\<lambda>k. k \<notin> set expected) (keys raw))))
      else Inr ())"

definition nonempty_string :: "pyval \<Rightarrow> string \<Rightarrow> string result" where
  "nonempty_string v label = (case v of
     PStr s \<Rightarrow> if strip s = [] then Inl (ValueError ''must be a non-empty string'' [label])
       else Inr (strip s)
   | _ \<Rightarrow> Inl (ValueError ''must be a non-empty string'' [label]))"

definition optional_string :: "pyval \<Rightarrow> string \<Rightarrow> string option result" where
  "optional_string v label =
     (if v = PNone then Inr None else bindE (nonempty_string v label) (\<lambda>s. Inr (Some s)))"

definition timestamp :: "host \<Rightarrow> pyval \<Rightarrow> string \<Rightarrow> string result" where
  "timestamp h v label =
     bindE (nonempty_string v label) (\<lambda>stamp.
       case h_fromisoformat h stamp of
         None \<Rightarrow> Inl (ValueError ''must be an ISO-8601 timestamp'' [label])
       | Some zoned \<Rightarrow> if zoned then Inr stamp
           else Inl (ValueError ''must include a timezone'' [label]))"

definition optional_slot :: "pyval \<Rightarrow> string \<Rightarrow> int option result" where
  "optional_slot v label = (case v of
     PNone \<Rightarrow> Inr None
   | PInt n \<Rightarrow> if n < 0 then Inl (ValueError label []) else Inr (Some n)
   | _ \<Rightarrow> Inl (ValueError label []))"

definition as_object :: "pyval \<Rightarrow> string \<Rightarrow> pyval dict result" where
  "as_object v message = (case v of PDict d \<Rightarrow> Inr d | _ \<Rightarrow> Inl (ValueError message []))"

section \<open>Claims, owners and locks\<close>

definition claim_to_dict :: "normalized_claim \<Rightarrow> pyval dict" where
  "claim_to_dict c = [(''id'', PStr (nc_id c)), (''kind'', PStr (nc_kind c)),
     (''target'', PStr (nc_target c)), (''access'', PStr (nc_access c))]"

definition claim_from_dict :: "pyval dict \<Rightarrow> normalized_claim result" where
  "claim_from_dict raw =
     bindE (require_exact_keys raw [''id'', ''kind'', ''target'', ''access''] ''resource claim'') (\<lambda>_.
     bindE (nonempty_string (get raw ''id'') ''resource claim id'') (\<lambda>i.
     bindE (nonempty_string (get raw ''kind'') ''resource claim kind'') (\<lambda>kind.
     bindE (nonempty_string (get raw ''target'') ''resource claim target'') (\<lambda>target.
     bindE (nonempty_string (get raw ''access'') ''resource claim access'') (\<lambda>access.
     if kind \<notin> set RESOURCE_KINDS then Inl (ValueError ''unknown normalized resource kind'' [kind])
     else if access \<notin> set RESOURCE_ACCESS_MODES then
       Inl (ValueError ''unknown normalized resource access'' [access])
     else if kind \<in> set FILESYSTEM_RESOURCE_KINDS \<and> \<not> is_absolute target then
       Inl (ValueError ''normalized filesystem resource targets must be absolute'' [])
     else Inr \<lparr>nc_id = i, nc_kind = kind, nc_target = target, nc_access = access\<rparr>)))))"

record lock_owner =
  lo_ownership_token :: string
  lo_run_id :: string
  lo_task_id :: string
  lo_attempt :: int
  lo_worker_id :: string
  lo_thread_id :: "string option"
  lo_turn_id :: "string option"

definition OWNER_KEYS :: "string list" where
  "OWNER_KEYS = [''ownership_token'', ''run_id'', ''task_id'', ''attempt'', ''worker_id'', ''thread_id'', ''turn_id'']"

definition owner_to_dict :: "lock_owner \<Rightarrow> pyval dict" where
  "owner_to_dict o1 = [(''ownership_token'', PStr (lo_ownership_token o1)),
     (''run_id'', PStr (lo_run_id o1)), (''task_id'', PStr (lo_task_id o1)),
     (''attempt'', PInt (lo_attempt o1)), (''worker_id'', PStr (lo_worker_id o1)),
     (''thread_id'', opt_text (lo_thread_id o1)), (''turn_id'', opt_text (lo_turn_id o1))]"

definition owner_from_dict :: "pyval dict \<Rightarrow> lock_owner result" where
  "owner_from_dict raw =
     bindE (require_exact_keys raw OWNER_KEYS ''lock owner'') (\<lambda>_.
     bindE (case get raw ''attempt'' of
         PInt n \<Rightarrow> if n < 0 then Inl (ValueError ''lock owner attempt must be a non-negative integer'' [])
           else Inr n
       | _ \<Rightarrow> Inl (ValueError ''lock owner attempt must be a non-negative integer'' [])) (\<lambda>attempt.
     bindE (nonempty_string (get raw ''ownership_token'') ''ownership token'') (\<lambda>token.
     bindE (nonempty_string (get raw ''run_id'') ''owner run id'') (\<lambda>run.
     bindE (nonempty_string (get raw ''task_id'') ''owner task id'') (\<lambda>task.
     bindE (nonempty_string (get raw ''worker_id'') ''owner worker id'') (\<lambda>worker.
     bindE (optional_string (get raw ''thread_id'') ''owner thread id'') (\<lambda>thread.
     bindE (optional_string (get raw ''turn_id'') ''owner turn id'') (\<lambda>turn.
     Inr \<lparr>lo_ownership_token = token, lo_run_id = run, lo_task_id = task, lo_attempt = attempt,
       lo_worker_id = worker, lo_thread_id = thread, lo_turn_id = turn\<rparr>))))))))"

record resource_lock =
  lk_lock_id :: string
  lk_owner :: lock_owner
  lk_claims :: "normalized_claim list"
  lk_acquired_at :: string
  lk_heartbeat_at :: string
  lk_computer_use_slot :: "int option"

definition LOCK_KEYS :: "string list" where
  "LOCK_KEYS = [''lock_id'', ''owner'', ''claims'', ''acquired_at'', ''heartbeat_at'', ''computer_use_slot'']"

definition opt_int :: "int option \<Rightarrow> pyval" where
  "opt_int v = (case v of None \<Rightarrow> PNone | Some n \<Rightarrow> PInt n)"

definition lock_to_dict :: "resource_lock \<Rightarrow> pyval dict" where
  "lock_to_dict l = [(''lock_id'', PStr (lk_lock_id l)), (''owner'', PDict (owner_to_dict (lk_owner l))),
     (''claims'', PList (map (\<lambda>c. PDict (claim_to_dict c)) (lk_claims l))), (''acquired_at'', PStr (lk_acquired_at l)),
     (''heartbeat_at'', PStr (lk_heartbeat_at l)), (''computer_use_slot'', opt_int (lk_computer_use_slot l))]"

definition claim_objects :: "pyval \<Rightarrow> pyval dict list result" where
  "claim_objects v = (case v of
     PList xs \<Rightarrow> mapE (\<lambda>x. as_object x ''resource lock claims must be an array of objects'') xs
   | _ \<Rightarrow> Inl (ValueError ''resource lock claims must be an array of objects'' []))"

definition lock_from_dict :: "host \<Rightarrow> pyval dict \<Rightarrow> resource_lock result" where
  "lock_from_dict h raw =
     bindE (require_exact_keys raw LOCK_KEYS ''resource lock'') (\<lambda>_.
     bindE (as_object (get raw ''owner'') ''resource lock owner must be an object'') (\<lambda>owner_raw.
     bindE (claim_objects (get raw ''claims'')) (\<lambda>claims_raw.
     bindE (optional_slot (get raw ''computer_use_slot'')
       ''computer_use_slot must be a non-negative integer or null'') (\<lambda>slot.
     bindE (timestamp h (get raw ''acquired_at'') ''resource lock acquired_at'') (\<lambda>acquired.
     bindE (timestamp h (get raw ''heartbeat_at'') ''resource lock heartbeat_at'') (\<lambda>heartbeat.
     bindE (nonempty_string (get raw ''lock_id'') ''resource lock id'') (\<lambda>i.
     bindE (owner_from_dict owner_raw) (\<lambda>owner.
     bindE (mapE claim_from_dict claims_raw) (\<lambda>claims.
     Inr \<lparr>lk_lock_id = i, lk_owner = owner, lk_claims = claims, lk_acquired_at = acquired,
       lk_heartbeat_at = heartbeat, lk_computer_use_slot = slot\<rparr>)))))))))"

section \<open>The journal, replayed\<close>

type_synonym holding = "string \<times> string \<times> string list \<times> int option"

record replay =
  rp_sequences :: "int list"
  rp_lock_ids :: "string list"
  rp_tokens :: "string list"
  rp_replayed :: "holding dict"

definition JOURNAL_KEYS :: "string list" where
  "JOURNAL_KEYS = [''sequence'', ''event'', ''lock_id'', ''ownership_token'', ''task_id'', ''at'',
     ''claim_ids'', ''computer_use_slot'', ''reason'']"

definition claim_id_texts :: "pyval \<Rightarrow> string list result" where
  "claim_id_texts v = (case v of
     PList xs \<Rightarrow> mapE (\<lambda>x. case x of
         PStr s \<Rightarrow> if s = [] then Inl (ValueError ''journal claim_ids must be an array of non-empty strings'' [])
           else Inr s
       | _ \<Rightarrow> Inl (ValueError ''journal claim_ids must be an array of non-empty strings'' [])) xs
   | _ \<Rightarrow> Inl (ValueError ''journal claim_ids must be an array of non-empty strings'' []))"

definition replay_event ::
  "string \<Rightarrow> string \<Rightarrow> holding \<Rightarrow> string option \<Rightarrow> replay \<Rightarrow> replay result"
where
  "replay_event event lock_id holding reason r =
     (if event = ''acquired'' then
        if lock_id \<in> set (rp_lock_ids r) then
          Inl (ValueError ''resource lock has duplicate acquisition events'' [lock_id])
        else if fst holding \<in> set (rp_tokens r) then
          Inl (ValueError ''ownership token has duplicate acquisition events'' [fst holding])
        else if reason \<noteq> None then
          Inl (ValueError ''resource lock acquisition events must not have a reason'' [])
        else Inr (r\<lparr>rp_lock_ids := rp_lock_ids r @ [lock_id], rp_tokens := rp_tokens r @ [fst holding],
          rp_replayed := AList.update lock_id holding (rp_replayed r)\<rparr>)
      else if reason = None then
        Inl (ValueError ''resource lock release events require a reason'' [])
      else (case map_of (rp_replayed r) lock_id of
          None \<Rightarrow> Inl (ValueError ''resource lock was released without an active acquisition'' [lock_id])
        | Some active \<Rightarrow>
            if active \<noteq> holding then
              Inl (ValueError ''resource lock release metadata differs from acquisition'' [lock_id])
            else Inr (r\<lparr>rp_replayed := AList.delete lock_id (rp_replayed r)\<rparr>)))"

definition replay_entry :: "host \<Rightarrow> replay \<Rightarrow> pyval \<Rightarrow> replay result" where
  "replay_entry h r raw0 =
     bindE (as_object raw0 ''resource lock journal entries must be objects'') (\<lambda>raw.
     bindE (require_exact_keys raw JOURNAL_KEYS ''resource lock journal entry'') (\<lambda>_.
     bindE (case get raw ''sequence'' of
         PInt n \<Rightarrow> if n \<le> 0 then Inl (ValueError ''resource lock journal sequence must be a positive integer'' [])
           else Inr n
       | _ \<Rightarrow> Inl (ValueError ''resource lock journal sequence must be a positive integer'' [])) (\<lambda>n.
     bindE (nonempty_string (get raw ''event'') ''resource lock journal event'') (\<lambda>event.
     if event \<notin> set LOCK_EVENTS then Inl (ValueError ''unknown resource lock journal event'' [event])
     else
     bindE (nonempty_string (get raw ''lock_id'') ''journal lock id'') (\<lambda>lock_id.
     bindE (nonempty_string (get raw ''ownership_token'') ''journal ownership token'') (\<lambda>token.
     bindE (nonempty_string (get raw ''task_id'') ''journal task id'') (\<lambda>task.
     bindE (timestamp h (get raw ''at'') ''journal timestamp'') (\<lambda>_.
     bindE (claim_id_texts (get raw ''claim_ids'')) (\<lambda>claim_ids.
     if \<not> distinct claim_ids then Inl (ValueError ''journal claim_ids must not contain duplicates'' [])
     else
     bindE (optional_slot (get raw ''computer_use_slot'')
       ''journal computer_use_slot must be a non-negative integer or null'') (\<lambda>slot.
     bindE (optional_string (get raw ''reason'') ''journal reason'') (\<lambda>reason.
     replay_event event lock_id (token, task, claim_ids, slot) reason
       (r\<lparr>rp_sequences := rp_sequences r @ [n]\<rparr>))))))))))))"

definition empty_replay :: replay where
  "empty_replay = \<lparr>rp_sequences = [], rp_lock_ids = [], rp_tokens = [], rp_replayed = []\<rparr>"

definition holding_of :: "resource_lock \<Rightarrow> holding" where
  "holding_of l = (lo_ownership_token (lk_owner l), lo_task_id (lk_owner l), map nc_id (lk_claims l),
     lk_computer_use_slot l)"

section \<open>Validating the persisted state\<close>

definition locks_conflict :: "host \<Rightarrow> resource_lock \<Rightarrow> resource_lock \<Rightarrow> bool result" where
  "locks_conflict h a b =
     bindE (mapE (\<lambda>(x, y). claims_conflict h x y) (List.product (lk_claims a) (lk_claims b)))
       (\<lambda>bs. Inr (True \<in> set bs))"

fun check_exclusive :: "host \<Rightarrow> resource_lock list \<Rightarrow> unit result" where
  "check_exclusive h [] = Inr ()"
| "check_exclusive h (l # ls) =
     bindE (forE (\<lambda>other. bindE (locks_conflict h l other) (\<lambda>bad.
         if bad then Inl (ValueError ''held resource locks conflict'' [lk_lock_id l, lk_lock_id other])
         else Inr ())) ls) (\<lambda>_. check_exclusive h ls)"

definition slots_of :: "resource_lock list \<Rightarrow> int list" where
  "slots_of ls = List.map_filter lk_computer_use_slot ls"

definition check_locks :: "host \<Rightarrow> resource_lock list \<Rightarrow> unit result" where
  "check_locks h locks =
     (if \<not> distinct (map lk_lock_id locks) then Inl (ValueError ''resource lock ids must be unique'' [])
      else if \<not> distinct (map (\<lambda>l. lo_ownership_token (lk_owner l)) locks) then
        Inl (ValueError ''resource lock ownership tokens must be unique'' [])
      else if \<not> distinct (map (\<lambda>l. lo_task_id (lk_owner l)) locks) then
        Inl (ValueError ''a task must not have more than one held resource lock'' [])
      else if \<not> distinct (slots_of locks) then
        Inl (ValueError ''computer_use slots must not have duplicate owners'' [])
      else bindE (forE (\<lambda>l. if distinct (map nc_id (lk_claims l)) then Inr ()
          else Inl (ValueError ''resource lock has duplicate claim ids'' [lk_lock_id l])) locks) (\<lambda>_.
        check_exclusive h locks))"

definition same_dict :: "'v dict \<Rightarrow> 'v dict \<Rightarrow> bool" where
  "same_dict a b \<longleftrightarrow> set (keys a) = set (keys b) \<and> (\<forall>k \<in> set (keys a). map_of a k = map_of b k)"

definition validate_persisted_resource_state ::
  "host \<Rightarrow> pyval list \<Rightarrow> pyval list \<Rightarrow> int \<Rightarrow> resource_lock list result"
where
  "validate_persisted_resource_state h raw_locks raw_journal seq =
     (if seq < 0 then Inl (ValueError ''resource journal sequence must be a non-negative integer'' [])
      else bindE (mapE (\<lambda>x. as_object x ''resource_locks entries must be objects'') raw_locks) (\<lambda>objects.
      bindE (mapE (lock_from_dict h) objects) (\<lambda>locks.
      bindE (check_locks h locks) (\<lambda>_.
      bindE (run_ops (replay_entry h) empty_replay raw_journal) (\<lambda>r.
      if rp_sequences r \<noteq> [1..seq] then
        Inl (ValueError ''resource lock journal must be contiguous and end at its sequence'' [])
      else if \<not> same_dict (rp_replayed r) (dict_of (map (\<lambda>l. (lk_lock_id l, holding_of l)) locks)) then
        Inl (ValueError ''held resource locks do not match the replayed durable journal'' [])
      else Inr locks)))))"

definition state_locks :: "host \<Rightarrow> run_state \<Rightarrow> resource_lock list result" where
  "state_locks h st = validate_persisted_resource_state h (rs_resource_locks st)
     (rs_resource_lock_journal st) (rs_resource_journal_sequence st)"

section \<open>Acquiring and releasing\<close>

record resource_conflict =
  cf_requested_claim_id :: string
  cf_held_lock_id :: string
  cf_held_task_id :: string
  cf_held_claim_id :: string

record acquisition_result =
  ar_acquired :: bool
  ar_lock_id :: "string option"
  ar_computer_use_slot :: "int option"
  ar_conflicts :: "resource_conflict list"
  ar_reason :: "string option"
  ar_reused :: bool

definition resource_event ::
  "int \<Rightarrow> resource_lock \<Rightarrow> string \<Rightarrow> string \<Rightarrow> string option \<Rightarrow> pyval dict" where
  "resource_event n l event stamp reason =
     [(''sequence'', PInt n), (''event'', PStr event), (''lock_id'', PStr (lk_lock_id l)),
      (''ownership_token'', PStr (lo_ownership_token (lk_owner l))),
      (''task_id'', PStr (lo_task_id (lk_owner l))), (''at'', PStr stamp),
      (''claim_ids'', PList (map (\<lambda>c. PStr (nc_id c)) (lk_claims l))),
      (''computer_use_slot'', opt_int (lk_computer_use_slot l)), (''reason'', opt_text reason)]"

definition append_resource_event ::
  "run_state \<Rightarrow> resource_lock \<Rightarrow> string \<Rightarrow> string \<Rightarrow> string option \<Rightarrow> run_state" where
  "append_resource_event st l event stamp reason =
     (let n = rs_resource_journal_sequence st + 1 in
      st\<lparr>rs_resource_journal_sequence := n,
        rs_resource_lock_journal := rs_resource_lock_journal st @ [PDict (resource_event n l event stamp reason)]\<rparr>)"

definition refused :: "resource_conflict list \<Rightarrow> string \<Rightarrow> acquisition_result" where
  "refused conflicts reason = \<lparr>ar_acquired = False, ar_lock_id = None, ar_computer_use_slot = None,
     ar_conflicts = conflicts, ar_reason = Some reason, ar_reused = False\<rparr>"

definition find_conflicts ::
  "host \<Rightarrow> normalized_claim list \<Rightarrow> resource_lock list \<Rightarrow> resource_conflict list result" where
  "find_conflicts h claims locks =
     bindE (filterE (\<lambda>(requested, l, held). claims_conflict h requested held)
       (concat (map (\<lambda>requested. concat (map (\<lambda>l. map (\<lambda>held. (requested, l, held)) (lk_claims l)) locks)) claims)))
       (\<lambda>hits. Inr (map (\<lambda>(requested, l, held).
          \<lparr>cf_requested_claim_id = nc_id requested, cf_held_lock_id = lk_lock_id l,
           cf_held_task_id = lo_task_id (lk_owner l), cf_held_claim_id = nc_id held\<rparr>) hits))"

definition free_slot :: "int \<Rightarrow> resource_lock list \<Rightarrow> int option" where
  "free_slot limit locks = find (\<lambda>s. s \<notin> set (slots_of locks)) [0..limit - 1]"

definition grant ::
  "run_state \<Rightarrow> lock_owner \<Rightarrow> normalized_claim list \<Rightarrow> string \<Rightarrow> int option \<Rightarrow> run_state \<times> acquisition_result"
where
  "grant st owner claims stamp slot =
     (let l = \<lparr>lk_lock_id = ''resource-lock-'' @ dec_pad 6 (nat (rs_resource_journal_sequence st + 1)),
            lk_owner = owner, lk_claims = claims, lk_acquired_at = stamp, lk_heartbeat_at = stamp,
            lk_computer_use_slot = slot\<rparr>
      in (append_resource_event (st\<lparr>rs_resource_locks := rs_resource_locks st @ [PDict (lock_to_dict l)]\<rparr>)
            l ''acquired'' stamp None,
          \<lparr>ar_acquired = True, ar_lock_id = Some (lk_lock_id l), ar_computer_use_slot = slot,
           ar_conflicts = [], ar_reason = None, ar_reused = False\<rparr>))"

definition check_owner :: "plan \<Rightarrow> run_state \<Rightarrow> string \<Rightarrow> lock_owner \<Rightarrow> unit result" where
  "check_owner p st task_id owner =
     (if task_id \<notin> set (task_ids p) then Inl (ValueError ''unknown task id'' [task_id])
      else if lo_task_id owner \<noteq> task_id then
        Inl (ValueError ''lock owner task id must match the acquired task'' [])
      else bindE (owner_from_dict (owner_to_dict owner)) (\<lambda>_.
        if rs_run_id st \<noteq> lo_run_id owner then
          Inl (ValueError ''lock owner run id does not match durable run state'' [])
        else if rs_graph_version st \<noteq> pl_graph_version p then
          Inl (ValueError ''resource coordinator graph version mismatch'' [])
        else if rs_task_states st \<noteq> [] \<and> lo_task_id owner \<notin> set (keys (rs_task_states st)) then
          Inl (ValueError ''lock owner task does not exist in durable task state'' [])
        else (case map_of (rs_task_attempts st) (lo_task_id owner) of
            Some n \<Rightarrow> if lo_attempt owner \<noteq> n
              then Inl (ValueError ''lock owner attempt does not match durable task attempt'' []) else Inr ()
          | None \<Rightarrow> Inr ())))"

definition effective_mode :: "task \<Rightarrow> string option \<Rightarrow> string" where
  "effective_mode t mode = (case mode of Some m \<Rightarrow> if m = [] then t_execution_mode t else m
     | None \<Rightarrow> t_execution_mode t)"

definition slot_limit :: "plan \<Rightarrow> run_state \<Rightarrow> int" where
  "slot_limit p st = min (pl_computer_use_slots p) (rs_computer_use_slots st)"

definition decide_acquisition ::
  "host \<Rightarrow> plan \<Rightarrow> run_state \<Rightarrow> string \<Rightarrow> lock_owner \<Rightarrow> string \<Rightarrow> string \<Rightarrow> resource_lock list
    \<Rightarrow> normalized_claim list \<Rightarrow> (run_state \<times> acquisition_result) result"
where
  "decide_acquisition h p st task_id owner mode stamp locks claims =
     (case find (\<lambda>l. lo_ownership_token (lk_owner l) = lo_ownership_token owner) locks of
       Some l \<Rightarrow>
         if lk_owner l \<noteq> owner \<or> lk_claims l \<noteq> claims then
           Inl (ValueError ''ownership token is already bound to different lock metadata'' [])
         else Inr (st, \<lparr>ar_acquired = True, ar_lock_id = Some (lk_lock_id l),
             ar_computer_use_slot = lk_computer_use_slot l, ar_conflicts = [], ar_reason = None,
             ar_reused = True\<rparr>)
     | None \<Rightarrow>
         if task_id \<in> set (map (\<lambda>l. lo_task_id (lk_owner l)) locks) then
           Inr (st, refused [] ''owner_conflict'')
         else bindE (find_conflicts h claims locks) (\<lambda>conflicts.
           if conflicts \<noteq> [] then Inr (st, refused conflicts ''resource_conflict'')
           else if mode = ''computer_use'' then
             (case free_slot (slot_limit p st) locks of
                None \<Rightarrow> Inr (st, refused [] ''computer_use_capacity'')
              | Some s \<Rightarrow> Inr (grant st owner claims stamp (Some s)))
           else Inr (grant st owner claims stamp None)))"

definition acquire_resources_in_state ::
  "host \<Rightarrow> plan \<Rightarrow> run_state \<Rightarrow> string \<Rightarrow> string \<Rightarrow> lock_owner \<Rightarrow> string option \<Rightarrow> string
    \<Rightarrow> (run_state \<times> acquisition_result) result"
where
  "acquire_resources_in_state h p st project_root task_id owner execution_mode now =
     bindE (check_owner p st task_id owner) (\<lambda>_.
     bindE (lookup_task p task_id) (\<lambda>t.
     let mode = effective_mode t execution_mode in
     if mode \<noteq> ''code'' \<and> mode \<noteq> ''computer_use'' then
       Inl (ValueError ''resource execution_mode must be code or computer_use'' [])
     else
     bindE (timestamp h (PStr now) ''acquisition timestamp'') (\<lambda>stamp.
     bindE (state_locks h st) (\<lambda>locks.
     bindE (normalize_task_claims h t project_root) (\<lambda>claims.
     decide_acquisition h p st task_id owner mode stamp locks claims)))))"

definition release_resources_in_state ::
  "host \<Rightarrow> run_state \<Rightarrow> string \<Rightarrow> string \<Rightarrow> string \<Rightarrow> (run_state \<times> bool) result"
where
  "release_resources_in_state h st ownership_token reason now =
     bindE (nonempty_string (PStr ownership_token) ''ownership token'') (\<lambda>token.
     bindE (nonempty_string (PStr reason) ''release reason'') (\<lambda>release_reason.
     bindE (timestamp h (PStr now) ''release timestamp'') (\<lambda>stamp.
     bindE (state_locks h st) (\<lambda>locks.
     case find (\<lambda>l. lo_ownership_token (lk_owner l) = token) locks of
       None \<Rightarrow> Inr (st, False)
     | Some l \<Rightarrow>
         Inr (append_resource_event
           (st\<lparr>rs_resource_locks := map (\<lambda>k. PDict (lock_to_dict k))
              (filter (\<lambda>k. lo_ownership_token (lk_owner k) \<noteq> token) locks)\<rparr>)
           l ''released'' stamp (Some release_reason), True)))))"

section \<open>Availability for the scheduler\<close>

text \<open>
  The incident store's status snapshot: the paused tasks, and the id, phase and affected tasks
  of each incident.
\<close>

record incident_status =
  is_incident_id :: string
  is_phase :: string
  is_affected_task_ids :: "string list"

definition incident_reasons ::
  "plan \<Rightarrow> string list \<Rightarrow> incident_status list \<Rightarrow> string list dict" where
  "incident_reasons p paused incidents =
     fold (\<lambda>(inc, i) reasons. if i \<in> set (task_ids p) \<and> i \<in> set paused
        then AList.update i (lookup_or reasons i []
          @ [''incident:'' @ is_incident_id inc @ '':'' @ is_phase inc]) reasons else reasons)
       (concat (map (\<lambda>inc. map (\<lambda>i. (inc, i)) (is_affected_task_ids inc)) incidents)) []"

definition any_conflict :: "host \<Rightarrow> normalized_claim list \<Rightarrow> normalized_claim list \<Rightarrow> bool result" where
  "any_conflict h xs ys =
     bindE (mapE (\<lambda>(x, y). claims_conflict h x y) (List.product xs ys)) (\<lambda>bs. Inr (True \<in> set bs))"

definition task_available ::
  "host \<Rightarrow> plan \<Rightarrow> run_state \<Rightarrow> resource_lock list \<Rightarrow> string list \<Rightarrow> task \<times> normalized_claim list \<Rightarrow> bool result"
where
  "task_available h p st locks paused entry = (case entry of (t, claims) \<Rightarrow>
     bindE (any_conflict h claims (concat (map lk_claims locks))) (\<lambda>held.
       let computer_available = \<not> (t_execution_mode t = ''computer_use''
             \<and> min (pl_computer_use_slots p) (rs_computer_use_slots st) \<le> int (length (slots_of locks)))
       in Inr (\<not> held \<and> computer_available \<and> t_id t \<notin> set paused)))"

definition task_conflicts ::
  "host \<Rightarrow> (task \<times> normalized_claim list) list \<Rightarrow> task \<times> normalized_claim list \<Rightarrow> string list result"
where
  "task_conflicts h entries entry = (case entry of (t, claims) \<Rightarrow>
     bindE (filterE (\<lambda>(other, theirs). if t_id t = t_id other then Inr False
       else any_conflict h claims theirs) entries) (\<lambda>hits. Inr (map (\<lambda>(other, _). t_id other) hits)))"

definition build_scheduler_availability ::
  "host \<Rightarrow> plan \<Rightarrow> run_state \<Rightarrow> string \<Rightarrow> string list \<Rightarrow> incident_status list \<Rightarrow> scheduler_availability result"
where
  "build_scheduler_availability h p st project_root paused incidents =
     bindE (state_locks h st) (\<lambda>locks.
     bindE (mapE (\<lambda>t. normalize_task_claims h t project_root) (pl_tasks p)) (\<lambda>claims.
     let entries = zip (pl_tasks p) claims in
     bindE (mapE (task_available h p st locks paused) entries) (\<lambda>available.
     bindE (mapE (task_conflicts h entries) entries) (\<lambda>pairwise.
     Inr \<lparr>av_available_capabilities = None, av_capability_limits = [],
       av_resource_available = dict_of (zip (task_ids p) available),
       av_resource_conflicts = dict_of (zip (task_ids p) pairwise),
       av_blocked_reasons = incident_reasons p paused incidents\<rparr>))))"

section \<open>Written and read back\<close>

lemma nonempty_string_Inr [simp]:
  "nonempty_string (PStr s) label = Inr t \<longleftrightarrow> strip s \<noteq> [] \<and> t = strip s"
  by (auto simp: nonempty_string_def)

lemma nonempty_string_stripped: "nonempty_string v label = Inr t \<Longrightarrow> stripped t"
  by (cases v) (auto simp: nonempty_string_def stripped_strip split: if_splits)

lemma nonempty_string_round: "stripped s \<Longrightarrow> nonempty_string (PStr s) label = Inr s"
  by (auto simp: stripped_def)

definition opt_stripped :: "string option \<Rightarrow> bool" where
  "opt_stripped v \<longleftrightarrow> (case v of None \<Rightarrow> True | Some s \<Rightarrow> stripped s)"

lemma optional_string_stripped: "optional_string v label = Inr t \<Longrightarrow> opt_stripped t"
  by (auto simp: optional_string_def opt_stripped_def split: if_splits dest: nonempty_string_stripped)

lemma optional_string_round: "opt_stripped v \<Longrightarrow> optional_string (opt_text v) label = Inr v"
  by (cases v) (auto simp: optional_string_def opt_stripped_def opt_text_def nonempty_string_round)

definition stamp_ok :: "host \<Rightarrow> string \<Rightarrow> bool" where
  "stamp_ok h s \<longleftrightarrow> stripped s \<and> h_fromisoformat h s = Some True"

lemma timestamp_ok: "timestamp h v label = Inr t \<Longrightarrow> stamp_ok h t"
proof -
  assume "timestamp h v label = Inr t"
  then obtain s where s: "nonempty_string v label = Inr s" and r: "(case h_fromisoformat h s of
      None \<Rightarrow> Inl (ValueError ''must be an ISO-8601 timestamp'' [label])
    | Some zoned \<Rightarrow> if zoned then Inr s else Inl (ValueError ''must include a timezone'' [label])) = Inr t"
    unfolding timestamp_def bindE_eq_Inr by blast
  from r have "h_fromisoformat h s = Some True" "t = s"
    by (cases "h_fromisoformat h s"; simp split: if_splits)+
  then show ?thesis using nonempty_string_stripped [OF s] by (simp add: stamp_ok_def)
qed

lemma timestamp_round: "stamp_ok h s \<Longrightarrow> timestamp h (PStr s) label = Inr s"
  by (simp add: timestamp_def stamp_ok_def nonempty_string_round)

definition slot_ok :: "int option \<Rightarrow> bool" where
  "slot_ok v \<longleftrightarrow> (case v of None \<Rightarrow> True | Some n \<Rightarrow> 0 \<le> n)"

lemma optional_slot_ok: "optional_slot v label = Inr t \<Longrightarrow> slot_ok t"
  by (cases v) (auto simp: optional_slot_def slot_ok_def split: if_splits)

lemma optional_slot_round: "slot_ok v \<Longrightarrow> optional_slot (opt_int v) label = Inr v"
  by (cases v) (auto simp: optional_slot_def slot_ok_def opt_int_def)

definition claim_ok :: "normalized_claim \<Rightarrow> bool" where
  "claim_ok c \<longleftrightarrow> stripped (nc_id c) \<and> stripped (nc_target c) \<and> nc_kind c \<in> set RESOURCE_KINDS
     \<and> nc_access c \<in> set RESOURCE_ACCESS_MODES
     \<and> (nc_kind c \<in> set FILESYSTEM_RESOURCE_KINDS \<longrightarrow> is_absolute (nc_target c))"

lemma kinds_stripped: "k \<in> set RESOURCE_KINDS \<Longrightarrow> stripped k" "a \<in> set RESOURCE_ACCESS_MODES \<Longrightarrow> stripped a"
proof -
  have "list_all stripped RESOURCE_KINDS" "list_all stripped RESOURCE_ACCESS_MODES" by code_simp+
  then show "k \<in> set RESOURCE_KINDS \<Longrightarrow> stripped k" "a \<in> set RESOURCE_ACCESS_MODES \<Longrightarrow> stripped a"
    by (auto simp: list_all_iff)
qed

interpretation claim_codec: codec claim_to_dict claim_from_dict claim_ok
proof
  fix d c assume "claim_from_dict d = Inr c"
  then show "claim_ok c"
    unfolding claim_from_dict_def bindE_eq_Inr
  proof (elim exE conjE)
    fix i kind target access
    assume i: "nonempty_string (get d ''id'') ''resource claim id'' = Inr i"
      and t: "nonempty_string (get d ''target'') ''resource claim target'' = Inr target"
    have "stripped i" "stripped target"
      by (rule nonempty_string_stripped [OF i], rule nonempty_string_stripped [OF t])
    moreover assume "(if kind \<notin> set RESOURCE_KINDS then Inl (ValueError ''unknown normalized resource kind'' [kind])
     else if access \<notin> set RESOURCE_ACCESS_MODES then
       Inl (ValueError ''unknown normalized resource access'' [access])
     else if kind \<in> set FILESYSTEM_RESOURCE_KINDS \<and> \<not> is_absolute target then
       Inl (ValueError ''normalized filesystem resource targets must be absolute'' [])
     else Inr \<lparr>nc_id = i, nc_kind = kind, nc_target = target, nc_access = access\<rparr>) = Inr c"
    ultimately show "claim_ok c" by (auto simp: claim_ok_def split: if_split_asm)
  qed
next
  fix c assume ok: "claim_ok c"
  then have "stripped (nc_kind c)" "stripped (nc_access c)" using kinds_stripped by (auto simp: claim_ok_def)
  with ok show "claim_from_dict (claim_to_dict c) = Inr c"
    by (simp add: claim_from_dict_def claim_to_dict_def require_exact_keys_def get_def claim_ok_def
        nonempty_string_round)
qed

definition owner_ok :: "lock_owner \<Rightarrow> bool" where
  "owner_ok o1 \<longleftrightarrow> stripped (lo_ownership_token o1) \<and> stripped (lo_run_id o1) \<and> stripped (lo_task_id o1)
     \<and> 0 \<le> lo_attempt o1 \<and> stripped (lo_worker_id o1) \<and> opt_stripped (lo_thread_id o1)
     \<and> opt_stripped (lo_turn_id o1)"

interpretation owner_codec: codec owner_to_dict owner_from_dict owner_ok
proof
  fix d x assume "owner_from_dict d = Inr x"
  then show "owner_ok x"
    by (auto simp: owner_from_dict_def owner_ok_def split: pyval.splits if_splits
        dest: nonempty_string_stripped optional_string_stripped)
next
  fix x assume "owner_ok x"
  then show "owner_from_dict (owner_to_dict x) = Inr x"
    by (simp add: owner_from_dict_def owner_to_dict_def OWNER_KEYS_def require_exact_keys_def get_def
        owner_ok_def nonempty_string_round optional_string_round)
qed

definition lock_ok :: "host \<Rightarrow> resource_lock \<Rightarrow> bool" where
  "lock_ok h l \<longleftrightarrow> stripped (lk_lock_id l) \<and> owner_ok (lk_owner l) \<and> (\<forall>c \<in> set (lk_claims l). claim_ok c)
     \<and> stamp_ok h (lk_acquired_at l) \<and> stamp_ok h (lk_heartbeat_at l) \<and> slot_ok (lk_computer_use_slot l)"

lemma claim_objects_round: "claim_objects (PList (map (\<lambda>c. PDict (f c)) cs)) = Inr (map f cs)"
  by (simp add: claim_objects_def mapE_map as_object_def)

interpretation lock_codec: codec lock_to_dict "lock_from_dict h" "lock_ok h" for h
proof
  fix d l assume "lock_from_dict h d = Inr l"
  then show "lock_ok h l"
    by (auto simp: lock_from_dict_def lock_ok_def dest: nonempty_string_stripped timestamp_ok
        optional_slot_ok owner_codec.dec_ok claim_codec.all_ok)
next
  fix l assume "lock_ok h l"
  then show "lock_from_dict h (lock_to_dict l) = Inr l"
    by (simp add: lock_from_dict_def lock_to_dict_def LOCK_KEYS_def require_exact_keys_def get_def
        lock_ok_def as_object_def claim_objects_round nonempty_string_round timestamp_round
        optional_slot_round owner_codec.round_trip claim_codec.dec_all)
qed

section \<open>A valid lock table\<close>

definition token_of :: "resource_lock \<Rightarrow> string" where
  "token_of l = lo_ownership_token (lk_owner l)"

definition task_of :: "resource_lock \<Rightarrow> string" where
  "task_of l = lo_task_id (lk_owner l)"

definition table_ok :: "host \<Rightarrow> resource_lock list \<Rightarrow> bool" where
  "table_ok h locks \<longleftrightarrow> distinct (map lk_lock_id locks) \<and> distinct (map token_of locks)
     \<and> distinct (map task_of locks) \<and> distinct (slots_of locks)
     \<and> (\<forall>l \<in> set locks. distinct (map nc_id (lk_claims l)))
     \<and> cc.exclusive_table h (map lk_claims locks)"

lemma mapE_total: "(\<And>x. x \<in> set xs \<Longrightarrow> f x = Inr (g x)) \<Longrightarrow> mapE f xs = Inr (map g xs)"
  by (induction xs) auto

lemma any_conflict_Inr: "any_conflict h xs ys = Inr (cc.bundles_conflict h xs ys)"
proof -
  have "mapE (\<lambda>(x, y). claims_conflict h x y) (List.product xs ys)
      = Inr (map (\<lambda>(x, y). conflicting h x y) (List.product xs ys))"
    by (rule mapE_total) auto
  moreover have "True \<in> set (map (\<lambda>(x, y). conflicting h x y) (List.product xs ys))
      \<longleftrightarrow> cc.bundles_conflict h xs ys"
    unfolding cc.bundles_conflict_def by (auto simp: image_iff)
  ultimately show ?thesis by (simp add: any_conflict_def)
qed

lemma locks_conflict_Inr: "locks_conflict h a b = Inr (cc.bundles_conflict h (lk_claims a) (lk_claims b))"
  using any_conflict_Inr [of h "lk_claims a" "lk_claims b"] by (simp add: locks_conflict_def any_conflict_def)

lemma check_exclusive_Inr: "check_exclusive h ls = Inr () \<longleftrightarrow> cc.exclusive_table h (map lk_claims ls)"
  by (induction ls) (auto simp: locks_conflict_Inr cc.exclusive_table_def)

lemma check_locks_Inr: "check_locks h locks = Inr () \<longleftrightarrow> table_ok h locks"
  unfolding check_locks_def table_ok_def token_of_def [abs_def] task_of_def [abs_def]
  by (auto simp: check_exclusive_Inr split: if_splits)

lemma slots_of_append: "slots_of (ks @ ls) = slots_of ks @ slots_of ls"
  by (simp add: slots_of_def map_filter_def)

lemma slots_of_single: "slots_of [l] = (case lk_computer_use_slot l of None \<Rightarrow> [] | Some s \<Rightarrow> [s])"
  by (simp add: slots_of_def map_filter_def split: option.split)

lemma table_ok_snoc:
  assumes "table_ok h locks" "lk_lock_id l \<notin> set (map lk_lock_id locks)"
    and "token_of l \<notin> set (map token_of locks)" "task_of l \<notin> set (map task_of locks)"
    and "\<And>s. lk_computer_use_slot l = Some s \<Longrightarrow> s \<notin> set (slots_of locks)"
    and "distinct (map nc_id (lk_claims l))"
    and "\<And>k. k \<in> set locks \<Longrightarrow> \<not> cc.bundles_conflict h (lk_claims k) (lk_claims l)"
  shows "table_ok h (locks @ [l])"
  using assms
  by (auto simp: table_ok_def cc.exclusive_snoc slots_of_append slots_of_single split: option.splits)

lemma table_ok_filter: "table_ok h locks \<Longrightarrow> table_ok h (filter P locks)"
proof -
  assume t: "table_ok h locks"
  have "distinct (slots_of (filter P ls))" if "distinct (slots_of ls)" for ls
    using that by (induction ls) (auto simp: slots_of_def map_filter_def split: if_splits)
  with t show ?thesis
    by (auto simp: table_ok_def distinct_map_filter intro: cc.exclusive_filter)
qed

text \<open>The replay only knows locks and tokens whose acquisition it has seen.\<close>

definition replay_inv :: "replay \<Rightarrow> bool" where
  "replay_inv r \<longleftrightarrow> distinct (keys (rp_replayed r)) \<and> set (keys (rp_replayed r)) \<subseteq> set (rp_lock_ids r)
     \<and> (\<forall>i held. map_of (rp_replayed r) i = Some held \<longrightarrow> fst held \<in> set (rp_tokens r))"

lemma replay_event_inv:
  assumes "replay_inv r" "replay_event event i held reason r = Inr r'"
  shows "replay_inv r'"
proof (cases "event = ''acquired''")
  case True
  then have "r' = r\<lparr>rp_lock_ids := rp_lock_ids r @ [i], rp_tokens := rp_tokens r @ [fst held],
      rp_replayed := AList.update i held (rp_replayed r)\<rparr>"
    using assms(2) by (auto simp: replay_event_def split: if_splits)
  then show ?thesis using assms(1)
    by (auto simp: replay_inv_def distinct_update simp del: set_map split: if_splits)
next
  case False
  then have "r' = r\<lparr>rp_replayed := AList.delete i (rp_replayed r)\<rparr>"
    using assms(2) by (auto simp: replay_event_def split: if_splits option.splits)
  then show ?thesis using assms(1)
    by (auto simp: replay_inv_def distinct_delete distinct_removeAll delete_keys AList.delete_conv' simp del: set_map
        split: if_splits)
qed

interpretation replaying: guarded_machine "replay_entry h" replay_inv for h
proof
  fix r raw r' assume inv: "replay_inv r" and step: "replay_entry h r raw = Inr r'"
  then obtain n event i held reason where
    "replay_event event i held reason (r\<lparr>rp_sequences := rp_sequences r @ [n]\<rparr>) = Inr r'"
    unfolding replay_entry_def bindE_eq_Inr by (auto split: if_splits)
  moreover have "replay_inv (r\<lparr>rp_sequences := rp_sequences r @ [n]\<rparr>)" using inv by (simp add: replay_inv_def)
  ultimately show "replay_inv r'" using replay_event_inv by blast
qed

lemma state_locks_Inr:
  "state_locks h st = Inr locks \<longleftrightarrow> 0 \<le> rs_resource_journal_sequence st \<and>
     (\<exists>ds. rs_resource_locks st = map PDict ds \<and> mapE (lock_from_dict h) ds = Inr locks) \<and>
     table_ok h locks \<and>
     (\<exists>r. run_ops (replay_entry h) empty_replay (rs_resource_lock_journal st) = Inr r \<and>
        rp_sequences r = [1..rs_resource_journal_sequence st] \<and>
        same_dict (rp_replayed r) (dict_of (map (\<lambda>l. (lk_lock_id l, holding_of l)) locks)))"
proof -
  have objects: "mapE (\<lambda>x. as_object x m) xs = Inr ds \<longleftrightarrow> xs = map PDict ds" for m xs ds
    by (induction xs arbitrary: ds) (auto simp: as_object_def split: pyval.splits)
  show ?thesis
    unfolding state_locks_def validate_persisted_resource_state_def
    by (auto simp: objects check_locks_Inr split: if_splits)
qed

section \<open>Every step keeps the table valid\<close>

abbreviation lock_name :: "nat \<Rightarrow> string" where
  "lock_name k \<equiv> ''resource-lock-'' @ dec_pad 6 k"

lemma dec_nat_last: "dec_nat n \<noteq> [] \<and> last (dec_nat n) = char_of (48 + n mod 10)"
  by (subst (1 2) dec_nat.simps) simp

lemma digit_visible: "d < 10 \<Longrightarrow> \<not> py_isspace (char_of (48 + d :: nat))"
proof -
  assume "d < 10"
  then have "d \<in> {0, 1, 2, 3, 4, 5, 6, 7, 8, 9}" by auto
  moreover have "\<forall>d \<in> {0, 1, 2, 3, 4, 5, 6, 7, 8, 9}. \<not> py_isspace (char_of (48 + d :: nat))" by code_simp
  ultimately show ?thesis by blast
qed

lemma lock_name_stripped: "stripped (lock_name k)"
proof -
  have "last (lock_name k) = char_of (48 + k mod 10)"
    using dec_nat_last [of k] by (simp add: dec_pad_def)
  then have "\<not> py_isspace (last (lock_name k))" using digit_visible [of "k mod 10"] by simp
  then show ?thesis by (simp add: stripped_def py_isspace_def)
qed

lemma replay_resource_event:
  assumes "0 < n" "event \<in> set LOCK_EVENTS" "lock_ok h l" "distinct (map nc_id (lk_claims l))"
    and "stamp_ok h stamp" "opt_stripped reason"
  shows "replay_entry h r (PDict (resource_event n l event stamp reason))
    = replay_event event (lk_lock_id l) (holding_of l) reason (r\<lparr>rp_sequences := rp_sequences r @ [n]\<rparr>)"
proof -
  have "list_all stripped LOCK_EVENTS" by code_simp
  then have e: "stripped event" using assms(2) by (auto simp: list_all_iff)
  have ids: "claim_id_texts (PList (map (\<lambda>c. PStr (nc_id c)) (lk_claims l))) = Inr (map nc_id (lk_claims l))"
    using assms(3) by (auto simp: claim_id_texts_def lock_ok_def claim_ok_def stripped_def intro!: mapE_map)
  have k: "require_exact_keys (resource_event n l event stamp reason) JOURNAL_KEYS label = Inr ()" for label
    by (simp add: resource_event_def require_exact_keys_def JOURNAL_KEYS_def)
  have g: "get (resource_event n l event stamp reason) ''sequence'' = PInt n"
    "get (resource_event n l event stamp reason) ''event'' = PStr event"
    "get (resource_event n l event stamp reason) ''lock_id'' = PStr (lk_lock_id l)"
    "get (resource_event n l event stamp reason) ''ownership_token'' = PStr (token_of l)"
    "get (resource_event n l event stamp reason) ''task_id'' = PStr (task_of l)"
    "get (resource_event n l event stamp reason) ''at'' = PStr stamp"
    "get (resource_event n l event stamp reason) ''claim_ids'' = PList (map (\<lambda>c. PStr (nc_id c)) (lk_claims l))"
    "get (resource_event n l event stamp reason) ''computer_use_slot'' = opt_int (lk_computer_use_slot l)"
    "get (resource_event n l event stamp reason) ''reason'' = opt_text reason"
    by (simp_all add: resource_event_def get_def token_of_def task_of_def)
  have s: "stripped (lk_lock_id l)" "stripped (token_of l)" "stripped (task_of l)" "slot_ok (lk_computer_use_slot l)"
    using assms(3) by (simp_all add: lock_ok_def owner_ok_def token_of_def task_of_def)
  show ?thesis
    unfolding replay_entry_def as_object_def pyval.case bindE_simps k g
    using assms(1,2,4-6) e s
    by (simp add: ids nonempty_string_round timestamp_round optional_slot_round optional_string_round
        holding_of_def token_of_def task_of_def)
qed

text \<open>
  The invariant of a lock table that only these operations have written: it validates, every
  lock id the journal has seen was made from an earlier sequence number, every token it has
  seen is among the used ones, and every Computer Use slot in it is below the limit.
\<close>

definition lock_inv :: "host \<Rightarrow> int \<Rightarrow> string set \<Rightarrow> run_state \<Rightarrow> resource_lock list \<Rightarrow> bool" where
  "lock_inv h limit used st locks \<longleftrightarrow> state_locks h st = Inr locks
     \<and> (\<exists>r. run_ops (replay_entry h) empty_replay (rs_resource_lock_journal st) = Inr r
          \<and> (\<forall>i \<in> set (rp_lock_ids r). \<exists>k. int k \<le> rs_resource_journal_sequence st \<and> i = lock_name k)
          \<and> set (rp_tokens r) \<subseteq> used)
     \<and> (\<forall>s \<in> set (slots_of locks). 0 \<le> s \<and> s < limit)"

lemma map_of_held:
  "distinct (map lk_lock_id locks) \<Longrightarrow>
   map_of (dict_of (map (\<lambda>l. (lk_lock_id l, holding_of l)) locks)) i = Some held \<longleftrightarrow>
     (\<exists>l \<in> set locks. lk_lock_id l = i \<and> held = holding_of l)"
proof -
  assume d: "distinct (map lk_lock_id locks)"
  then have "dict_of (map (\<lambda>l. (lk_lock_id l, holding_of l)) locks) = map (\<lambda>l. (lk_lock_id l, holding_of l)) locks"
    by (intro dict_of_distinct) (simp add: comp_def)
  then show ?thesis using d by (auto simp: map_of_eq_Some_iff comp_def)
qed

lemma same_dict_iff: "same_dict a b \<longleftrightarrow> map_of a = map_of b"
proof
  assume s: "same_dict a b"
  show "map_of a = map_of b"
  proof
    fix k
    show "map_of a k = map_of b k"
    proof (cases "k \<in> set (keys a)")
      case True
      then show ?thesis using s unfolding same_dict_def by blast
    next
      case False
      then have "map_of a k = None" "map_of b k = None"
        using s by (simp_all only: same_dict_def map_of_eq_None_keys not_False_eq_True)
      then show ?thesis by simp
    qed
  qed
next
  assume e: "map_of a = map_of b"
  then have "k \<in> set (keys a) \<longleftrightarrow> k \<in> set (keys b)" for k by (metis map_of_eq_None_keys)
  with e show "same_dict a b" by (auto simp: same_dict_def simp del: set_map)
qed

lemma lock_invD:
  assumes "lock_inv h limit used st locks"
  obtains ds r where "0 \<le> rs_resource_journal_sequence st" "rs_resource_locks st = map PDict ds"
    "mapE (lock_from_dict h) ds = Inr locks" "table_ok h locks"
    "run_ops (replay_entry h) empty_replay (rs_resource_lock_journal st) = Inr r"
    "rp_sequences r = [1..rs_resource_journal_sequence st]"
    "map_of (rp_replayed r) = map_of (dict_of (map (\<lambda>l. (lk_lock_id l, holding_of l)) locks))"
    "\<forall>i \<in> set (rp_lock_ids r). \<exists>k. int k \<le> rs_resource_journal_sequence st \<and> i = lock_name k"
    "set (rp_tokens r) \<subseteq> used" "\<forall>s \<in> set (slots_of locks). 0 \<le> s \<and> s < limit"
    "replay_inv r" "\<forall>l \<in> set locks. lock_ok h l"
proof -
  from assms obtain r where r: "run_ops (replay_entry h) empty_replay (rs_resource_lock_journal st) = Inr r"
    "\<forall>i \<in> set (rp_lock_ids r). \<exists>k. int k \<le> rs_resource_journal_sequence st \<and> i = lock_name k"
    "set (rp_tokens r) \<subseteq> used" "\<forall>s \<in> set (slots_of locks). 0 \<le> s \<and> s < limit"
    "state_locks h st = Inr locks" by (auto simp: lock_inv_def)
  from r(5) obtain ds where ds: "0 \<le> rs_resource_journal_sequence st" "rs_resource_locks st = map PDict ds"
    "mapE (lock_from_dict h) ds = Inr locks" "table_ok h locks"
    "rp_sequences r = [1..rs_resource_journal_sequence st]"
    "map_of (rp_replayed r) = map_of (dict_of (map (\<lambda>l. (lk_lock_id l, holding_of l)) locks))"
    unfolding state_locks_Inr same_dict_iff using r(1) by auto
  have "replay_inv r" using replaying.run_inv [OF _ r(1)] by (simp add: replay_inv_def empty_replay_def)
  then show thesis using that ds r lock_codec.all_ok [OF ds(3)] by blast
qed

lemma journal_fresh:
  assumes "\<forall>i \<in> set ids. \<exists>k. int k \<le> n \<and> i = lock_name k" "0 \<le> n"
  shows "lock_name (nat (n + 1)) \<notin> set ids"
proof
  assume "lock_name (nat (n + 1)) \<in> set ids"
  then obtain k where "int k \<le> n" "k = nat (n + 1)" using assms(1) by auto
  then show False using assms(2) by simp
qed

lemma run_ops_snoc: "run_ops step s (rs @ [r]) = bindE (run_ops step s rs) (\<lambda>t. step t r)"
proof (induction rs arbitrary: s)
  case Nil
  show ?case by (cases "step s r") simp_all
next
  case (Cons r' rs)
  then show ?case by (cases "step s r'") simp_all
qed

lemma upto_snoc: "0 \<le> n \<Longrightarrow> [1..n] @ [n + 1] = [1..n + 1]" for n :: int
  by (simp add: upto_rec2)

lemma grant_inv:
  assumes inv: "lock_inv h limit used st locks"
    and own: "owner_ok owner" "lo_ownership_token owner \<notin> used"
    and task: "lo_task_id owner \<notin> set (map task_of locks)"
    and claims: "\<forall>c \<in> set claims. claim_ok c" "distinct (map nc_id claims)"
    and free: "\<And>l. l \<in> set locks \<Longrightarrow> \<not> cc.bundles_conflict h (lk_claims l) claims"
    and slot: "\<And>s. slot = Some s \<Longrightarrow> 0 \<le> s \<and> s < limit \<and> s \<notin> set (slots_of locks)"
    and stamp: "stamp_ok h stamp"
  shows "\<exists>l. lk_owner l = owner \<and> lk_claims l = claims \<and> lk_computer_use_slot l = slot
    \<and> ar_lock_id (snd (grant st owner claims stamp slot)) = Some (lk_lock_id l)
    \<and> lock_inv h limit (insert (lo_ownership_token owner) used)
        (fst (grant st owner claims stamp slot)) (locks @ [l])"
proof -
  obtain ds r where n: "0 \<le> rs_resource_journal_sequence st" and ds: "rs_resource_locks st = map PDict ds"
    "mapE (lock_from_dict h) ds = Inr locks" and t: "table_ok h locks"
    and r: "run_ops (replay_entry h) empty_replay (rs_resource_lock_journal st) = Inr r"
    "rp_sequences r = [1..rs_resource_journal_sequence st]"
    "map_of (rp_replayed r) = map_of (dict_of (map (\<lambda>l. (lk_lock_id l, holding_of l)) locks))"
    "\<forall>i \<in> set (rp_lock_ids r). \<exists>k. int k \<le> rs_resource_journal_sequence st \<and> i = lock_name k"
    "set (rp_tokens r) \<subseteq> used" "\<forall>s \<in> set (slots_of locks). 0 \<le> s \<and> s < limit"
    and ri: "replay_inv r" by (rule lock_invD [OF inv])
  let ?n = "rs_resource_journal_sequence st + 1"
  define l where "l = \<lparr>lk_lock_id = lock_name (nat ?n), lk_owner = owner, lk_claims = claims,
    lk_acquired_at = stamp, lk_heartbeat_at = stamp, lk_computer_use_slot = slot\<rparr>"
  define st' where "st' = fst (grant st owner claims stamp slot)"
  have st': "rs_resource_locks st' = map PDict (ds @ [lock_to_dict l])"
    "rs_resource_journal_sequence st' = ?n"
    "rs_resource_lock_journal st' = rs_resource_lock_journal st @ [PDict (resource_event ?n l ''acquired'' stamp None)]"
    by (simp_all add: st'_def grant_def Let_def append_resource_event_def l_def ds)
  have lok: "lock_ok h l"
    using own claims(1) stamp slot lock_name_stripped
    by (auto simp: lock_ok_def l_def slot_ok_def split: option.split)
  have fresh: "lock_name (nat ?n) \<notin> set (rp_lock_ids r)" by (rule journal_fresh [OF r(4) n])
  have held: "lk_lock_id k \<in> set (rp_lock_ids r) \<and> token_of k \<in> set (rp_tokens r)" if k: "k \<in> set locks" for k
  proof -
    have "distinct (map lk_lock_id locks)" using t by (simp add: table_ok_def)
    then have m: "map_of (rp_replayed r) (lk_lock_id k) = Some (holding_of k)"
      unfolding r(3) using k map_of_held by blast
    have "fst (holding_of k) \<in> set (rp_tokens r)" using ri m unfolding replay_inv_def by blast
    moreover have "lk_lock_id k \<in> set (rp_lock_ids r)"
      using ri map_of_keys [OF m] unfolding replay_inv_def by blast
    ultimately show ?thesis by (simp add: token_of_def holding_of_def)
  qed
  have "lk_lock_id l \<noteq> lk_lock_id k \<and> token_of l \<noteq> token_of k" if k: "k \<in> set locks" for k
  proof -
    have "lk_lock_id k \<noteq> lock_name (nat ?n)" using held [OF k] fresh by metis
    moreover have "token_of k \<noteq> lo_ownership_token owner" using held [OF k] r(5) own(2) by (metis subsetD)
    ultimately show ?thesis by (simp add: l_def token_of_def)
  qed
  then have ids: "lk_lock_id l \<notin> set (map lk_lock_id locks)" and toks: "token_of l \<notin> set (map token_of locks)"
    unfolding set_map by blast+
  define r' where "r' = r\<lparr>rp_sequences := [1..?n], rp_lock_ids := rp_lock_ids r @ [lk_lock_id l],
          rp_tokens := rp_tokens r @ [token_of l],
          rp_replayed := AList.update (lk_lock_id l) (holding_of l) (rp_replayed r)\<rparr>"
  have "replay_entry h r (PDict (resource_event ?n l ''acquired'' stamp None)) = Inr r'"
    using replay_resource_event [of ?n "''acquired''" h l stamp None r] n lok claims(2) stamp fresh own(2) r(2,5)
      upto_snoc [OF n]
    by (auto simp: LOCK_EVENTS_def opt_stripped_def replay_event_def l_def holding_of_def token_of_def r'_def)
  then have run: "run_ops (replay_entry h) empty_replay (rs_resource_lock_journal st') = Inr r'"
    unfolding st' run_ops_snoc r(1) bindE_simps .
  have table: "table_ok h (locks @ [l])"
    using t ids toks task claims(2) free slot
    by (intro table_ok_snoc) (auto simp: l_def task_of_def)
  have dec: "mapE (lock_from_dict h) (ds @ [lock_to_dict l]) = Inr (locks @ [l])"
    using ds(2) lock_codec.round_trip [OF lok] by (simp add: mapE_append)
  have same: "map_of (rp_replayed r') = map_of (dict_of (map (\<lambda>l. (lk_lock_id l, holding_of l)) (locks @ [l])))"
    by (simp add: r'_def r(3))
  have "state_locks h st' = Inr (locks @ [l])"
    unfolding state_locks_Inr same_dict_iff run st'(1,2)
    using n dec table same by (intro conjI exI) (auto simp: r'_def)
  moreover have "\<forall>i \<in> set (rp_lock_ids r'). \<exists>k. int k \<le> ?n \<and> i = lock_name k"
  proof
    fix i assume "i \<in> set (rp_lock_ids r')"
    then consider "i \<in> set (rp_lock_ids r)" | "i = lock_name (nat ?n)" by (auto simp: r'_def l_def)
    then show "\<exists>k. int k \<le> ?n \<and> i = lock_name k"
    proof cases
      case 1
      then obtain k where "int k \<le> rs_resource_journal_sequence st" "i = lock_name k" using r(4) by blast
      then show ?thesis by (intro exI [of _ k]) simp
    next
      case 2
      then show ?thesis using n by (intro exI [of _ "nat ?n"]) simp
    qed
  qed
  moreover have "set (rp_tokens r') \<subseteq> insert (lo_ownership_token owner) used"
    using r(5) by (auto simp: r'_def l_def token_of_def)
  moreover have "\<forall>s \<in> set (slots_of (locks @ [l])). 0 \<le> s \<and> s < limit"
    using r(6) slot by (auto simp: slots_of_append slots_of_single l_def split: option.splits)
  ultimately have "lock_inv h limit (insert (lo_ownership_token owner) used) st' (locks @ [l])"
    unfolding lock_inv_def st'(2) using run by blast
  then show ?thesis
    unfolding st'_def by (intro exI [of _ l]) (simp add: l_def grant_def Let_def)
qed

lemma option_ext: "(\<And>x. a = Some x \<longleftrightarrow> b = Some x) \<Longrightarrow> a = b"
  by (cases a; cases b) auto

lemma release_inv:
  assumes inv: "lock_inv h limit used st locks"
    and rel: "release_resources_in_state h st token reason now = Inr (st', b)"
  shows "lock_inv h limit used st' (filter (\<lambda>l. token_of l \<noteq> strip token) locks)
    \<and> b = (strip token \<in> set (map token_of locks))"
proof -
  obtain r where n: "0 \<le> rs_resource_journal_sequence st" and t: "table_ok h locks"
    and r: "run_ops (replay_entry h) empty_replay (rs_resource_lock_journal st) = Inr r"
    "rp_sequences r = [1..rs_resource_journal_sequence st]"
    "map_of (rp_replayed r) = map_of (dict_of (map (\<lambda>l. (lk_lock_id l, holding_of l)) locks))"
    "\<forall>i \<in> set (rp_lock_ids r). \<exists>k. int k \<le> rs_resource_journal_sequence st \<and> i = lock_name k"
    "set (rp_tokens r) \<subseteq> used" "\<forall>s \<in> set (slots_of locks). 0 \<le> s \<and> s < limit"
    and ri: "replay_inv r" and lok: "\<forall>l \<in> set locks. lock_ok h l" by (rule lock_invD [OF inv])
  have sl: "state_locks h st = Inr locks" using inv by (simp add: lock_inv_def)
  let ?kept = "filter (\<lambda>l. token_of l \<noteq> strip token) locks"
  from rel obtain rr stamp where rr: "nonempty_string (PStr reason) ''release reason'' = Inr rr"
    and stamp: "timestamp h (PStr now) ''release timestamp'' = Inr stamp"
    and c: "(case find (\<lambda>l. token_of l = strip token) locks of
       None \<Rightarrow> Inr (st, False)
     | Some l \<Rightarrow> Inr (append_resource_event
           (st\<lparr>rs_resource_locks := map (\<lambda>k. PDict (lock_to_dict k)) ?kept\<rparr>)
           l ''released'' stamp (Some rr), True)) = (Inr (st', b) :: (run_state \<times> bool) result)"
    unfolding release_resources_in_state_def bindE_eq_Inr nonempty_string_Inr sl token_of_def by auto
  show ?thesis
  proof (cases "find (\<lambda>l. token_of l = strip token) locks")
    case None
    then have "?kept = locks" "strip token \<notin> set (map token_of locks)"
      by (auto simp: find_None_iff intro: filter_True)
    then show ?thesis using None c inv by simp
  next
    case (Some l)
    then have l: "l \<in> set locks" "token_of l = strip token" by (auto simp: find_Some_iff)
    let ?n = "rs_resource_journal_sequence st + 1"
    have st': "rs_resource_locks st' = map PDict (map lock_to_dict ?kept)"
      "rs_resource_journal_sequence st' = ?n"
      "rs_resource_lock_journal st' = rs_resource_lock_journal st @ [PDict (resource_event ?n l ''released'' stamp (Some rr))]"
      and b: "b = True"
      using Some c by (auto simp: append_resource_event_def Let_def)
    have d: "distinct (map lk_lock_id locks)" "distinct (map token_of locks)" using t by (simp_all add: table_ok_def)
    have m: "map_of (rp_replayed r) (lk_lock_id l) = Some (holding_of l)"
      unfolding r(3) using l(1) map_of_held [OF d(1)] by blast
    define r' where "r' = r\<lparr>rp_sequences := [1..?n], rp_replayed := AList.delete (lk_lock_id l) (rp_replayed r)\<rparr>"
    have "replay_entry h r (PDict (resource_event ?n l ''released'' stamp (Some rr))) = Inr r'"
      using replay_resource_event [of ?n "''released''" h l stamp "Some rr" r] n lok l(1) t m r(2)
        timestamp_ok [OF stamp] nonempty_string_stripped [OF rr] upto_snoc [OF n]
      by (auto simp: LOCK_EVENTS_def opt_stripped_def replay_event_def r'_def table_ok_def)
    then have run: "run_ops (replay_entry h) empty_replay (rs_resource_lock_journal st') = Inr r'"
      unfolding st' run_ops_snoc r(1) bindE_simps .
    have kept: "k \<in> set ?kept \<longleftrightarrow> k \<in> set locks \<and> lk_lock_id k \<noteq> lk_lock_id l" for k
    proof -
      have "k \<in> set locks \<Longrightarrow> token_of k = token_of l \<longleftrightarrow> lk_lock_id k = lk_lock_id l"
        using d l(1) by (metis distinct_map inj_onD)
      then show ?thesis using l(2) by auto
    qed
    have d': "distinct (map lk_lock_id ?kept)" using d(1) by (rule distinct_map_filter)
    have same: "map_of (rp_replayed r') = map_of (dict_of (map (\<lambda>l. (lk_lock_id l, holding_of l)) ?kept))"
    proof
      fix i
      have "map_of (rp_replayed r') i = Some x \<longleftrightarrow>
          map_of (dict_of (map (\<lambda>l. (lk_lock_id l, holding_of l)) ?kept)) i = Some x" for x
        unfolding map_of_held [OF d'] r'_def using map_of_held [OF d(1), of i x] kept r(3)
        by (auto simp: AList.delete_conv')
      then show "map_of (rp_replayed r') i = map_of (dict_of (map (\<lambda>l. (lk_lock_id l, holding_of l)) ?kept)) i"
        by (rule option_ext)
    qed
    have dec: "mapE (lock_from_dict h) (map lock_to_dict ?kept) = Inr ?kept"
      using lok by (intro lock_codec.dec_all) simp
    have "state_locks h st' = Inr ?kept"
      unfolding state_locks_Inr same_dict_iff run st'(1,2)
      using n dec table_ok_filter [OF t] same by (intro conjI exI) (auto simp: r'_def)
    moreover have "\<forall>i \<in> set (rp_lock_ids r'). \<exists>k. int k \<le> ?n \<and> i = lock_name k"
    proof
      fix i assume "i \<in> set (rp_lock_ids r')"
      then obtain k where "int k \<le> rs_resource_journal_sequence st" "i = lock_name k"
        using r(4) by (auto simp: r'_def)
      then show "\<exists>k. int k \<le> ?n \<and> i = lock_name k" by (intro exI [of _ k]) simp
    qed
    moreover have "set (rp_tokens r') \<subseteq> used" using r(5) by (simp add: r'_def)
    moreover have "\<forall>s \<in> set (slots_of ?kept). 0 \<le> s \<and> s < limit"
    proof -
      have "set (slots_of ?kept) \<subseteq> set (slots_of locks)" by (auto simp: slots_of_def map_filter_def)
      with r(6) show ?thesis by blast
    qed
    ultimately have "lock_inv h limit used st' ?kept" unfolding lock_inv_def st'(2) using run by blast
    moreover have "strip token \<in> set (map token_of locks)" using l by (metis image_eqI image_set)
    ultimately show ?thesis using b by simp
  qed
qed

lemma find_conflicts_Nil:
  "find_conflicts h claims locks = Inr cs \<Longrightarrow>
   cs = [] \<longleftrightarrow> (\<forall>l \<in> set locks. \<not> cc.bundles_conflict h (lk_claims l) claims)"
proof -
  let ?pairs = "concat (map (\<lambda>requested. concat (map (\<lambda>l. map (\<lambda>held. (requested, l, held)) (lk_claims l)) locks)) claims)"
  assume "find_conflicts h claims locks = Inr cs"
  moreover have "filterE (\<lambda>(requested, l, held). claims_conflict h requested held) ?pairs
      = Inr (filter (\<lambda>(requested, l, held). conflicting h requested held) ?pairs)"
    by (rule filterE_total) auto
  ultimately have "cs = [] \<longleftrightarrow> (\<forall>(requested, l, held) \<in> set ?pairs. \<not> conflicting h requested held)"
    by (auto simp: find_conflicts_def filter_empty_conv)
  also have "\<dots> \<longleftrightarrow> (\<forall>x \<in> set claims. \<forall>l \<in> set locks. \<forall>y \<in> set (lk_claims l). \<not> conflicting h x y)"
    by auto
  also have "\<dots> \<longleftrightarrow> (\<forall>l \<in> set locks. \<not> cc.bundles_conflict h (lk_claims l) claims)"
    unfolding cc.bundles_conflict_def using cc.conflict_sym [of h] by blast
  finally show ?thesis .
qed

text \<open>The claims of every task normalise to claims that can be stored, with distinct ids.\<close>

definition storable_claims :: "host \<Rightarrow> plan \<Rightarrow> string \<Rightarrow> bool" where
  "storable_claims h p base \<longleftrightarrow> (\<forall>t \<in> set (pl_tasks p). \<forall>cs. normalize_task_claims h t base = Inr cs \<longrightarrow>
     (\<forall>c \<in> set cs. claim_ok c) \<and> distinct (map nc_id cs))"

lemma free_slot_Some:
  "free_slot n locks = Some s \<Longrightarrow> 0 \<le> s \<and> s < n \<and> s \<notin> set (slots_of locks)"
  by (auto simp: free_slot_def find_Some_iff dest: nth_mem)

lemma held_tokens: "lock_inv h limit used st locks \<Longrightarrow> token_of ` set locks \<subseteq> used"
proof (rule lock_invD, assumption)
  fix r assume t: "table_ok h locks" and ri: "replay_inv r" and u: "set (rp_tokens r) \<subseteq> used"
    and m: "map_of (rp_replayed r) = map_of (dict_of (map (\<lambda>l. (lk_lock_id l, holding_of l)) locks))"
  have d: "distinct (map lk_lock_id locks)" using t by (simp add: table_ok_def)
  show "token_of ` set locks \<subseteq> used"
  proof (rule image_subsetI)
    fix k assume "k \<in> set locks"
    then have "map_of (rp_replayed r) (lk_lock_id k) = Some (holding_of k)"
      unfolding m using map_of_held [OF d] by blast
    then have "fst (holding_of k) \<in> set (rp_tokens r)" using ri unfolding replay_inv_def by blast
    then show "token_of k \<in> used" using u by (auto simp: token_of_def holding_of_def)
  qed
qed

lemma acquire_inv:
  assumes inv: "lock_inv h (slot_limit p st) used st locks"
    and own: "owner_ok owner" "lo_ownership_token owner \<notin> used"
    and good: "storable_claims h p base"
    and acq: "acquire_resources_in_state h p st base i owner mode now = Inr (st', res)"
  obtains t claims where "task_map p i = Some t" "normalize_task_claims h t base = Inr claims"
    "ar_acquired res \<longleftrightarrow> i \<notin> set (map task_of locks)
       \<and> (\<forall>l \<in> set locks. \<not> cc.bundles_conflict h (lk_claims l) claims)
       \<and> (effective_mode t mode = ''computer_use'' \<longrightarrow> free_slot (slot_limit p st) locks \<noteq> None)"
    "if ar_acquired res
     then \<exists>l. lk_owner l = owner \<and> lk_claims l = claims \<and> ar_lock_id res = Some (lk_lock_id l)
        \<and> lk_computer_use_slot l = (if effective_mode t mode = ''computer_use''
             then free_slot (slot_limit p st) locks else None)
        \<and> lock_inv h (slot_limit p st) (insert (lo_ownership_token owner) used) st' (locks @ [l])
        \<and> rs_computer_use_slots st' = rs_computer_use_slots st
     else st' = st"
proof -
  have sl: "state_locks h st = Inr locks" using inv by (simp add: lock_inv_def)
  from acq obtain t stamp claims where
    co: "check_owner p st i owner = Inr ()" and t: "lookup_task p i = Inr t"
    and stamp: "timestamp h (PStr now) ''acquisition timestamp'' = Inr stamp"
    and cl: "normalize_task_claims h t base = Inr claims"
    and c: "decide_acquisition h p st i owner (effective_mode t mode) stamp locks claims = Inr (st', res)"
    unfolding acquire_resources_in_state_def bindE_eq_Inr sl Let_def by (auto split: if_split_asm)
  have tm: "task_map p i = Some t" using t by (auto simp: lookup_task_def split: option.splits)
  have "t \<in> set (pl_tasks p)" using task_map_SomeD [OF tm] by simp
  then have cok: "\<forall>c \<in> set claims. claim_ok c" "distinct (map nc_id claims)"
    using good cl unfolding storable_claims_def by blast+
  have oi: "lo_task_id owner = i" using co by (auto simp: check_owner_def split: if_splits)
  have "find (\<lambda>l. lo_ownership_token (lk_owner l) = lo_ownership_token owner) locks = None"
    using held_tokens [OF inv] own(2) by (auto simp: find_None_iff token_of_def)
  note c = c [unfolded decide_acquisition_def this option.case task_of_def [abs_def, symmetric]]
  have grant: "\<exists>l. lk_owner l = owner \<and> lk_claims l = claims \<and> ar_lock_id res = Some (lk_lock_id l)
      \<and> lk_computer_use_slot l = slot
      \<and> lock_inv h (slot_limit p st) (insert (lo_ownership_token owner) used) st' (locks @ [l])"
    if "(st', res) = grant st owner claims stamp slot" "i \<notin> set (map task_of locks)"
      "\<forall>l \<in> set locks. \<not> cc.bundles_conflict h (lk_claims l) claims"
      "slot = None \<or> slot = free_slot (slot_limit p st) locks" for slot
    using grant_inv [OF inv own, of claims slot stamp] that oi cok timestamp_ok [OF stamp]
      free_slot_Some [of "slot_limit p st" locks] by (metis fst_conv snd_conv option.distinct(1))
  have cu: "rs_computer_use_slots (fst (grant st owner claims stamp slot)) = rs_computer_use_slots st"
    and ga: "ar_acquired (snd (grant st owner claims stamp slot))" for slot
    by (simp_all add: grant_def Let_def append_resource_event_def)
  have ref: "\<not> ar_acquired (refused x y)" for x y by (simp add: refused_def)
  show thesis
  proof (cases "i \<in> set (map task_of locks)")
    case True
    then have "st' = st \<and> res = refused [] ''owner_conflict''"
      using c by simp
    then show thesis using that [OF tm cl] True ref by simp
  next
    case free: False
    then obtain cs where cs: "find_conflicts h claims locks = Inr cs" and
      c': "(if cs \<noteq> [] then Inr (st, refused cs ''resource_conflict'')
           else if effective_mode t mode = ''computer_use'' then
             (case free_slot (slot_limit p st) locks of
                None \<Rightarrow> Inr (st, refused [] ''computer_use_capacity'')
              | Some s \<Rightarrow> Inr (grant st owner claims stamp (Some s)))
           else Inr (grant st owner claims stamp None)) = (Inr (st', res) :: (run_state \<times> acquisition_result) result)"
      using c by auto
    note nil = find_conflicts_Nil [OF cs]
    show thesis
    proof (cases "cs = []")
      case False
      then have "st' = st \<and> res = refused cs ''resource_conflict''" using c' by simp
      then show thesis using that [OF tm cl] False nil ref by simp
    next
      case no: True
      then have nc: "\<forall>l \<in> set locks. \<not> cc.bundles_conflict h (lk_claims l) claims" using nil by simp
      show thesis
      proof (cases "effective_mode t mode = ''computer_use''")
        case cuse: True
        show thesis
        proof (cases "free_slot (slot_limit p st) locks")
          case None
          then have "st' = st \<and> res = refused [] ''computer_use_capacity''" using c' no cuse by simp
          then show thesis using that [OF tm cl] None cuse ref by simp
        next
          case (Some s)
          then have g: "(st', res) = grant st owner claims stamp (Some s)" using c' no cuse by simp
          then have "ar_acquired res" "rs_computer_use_slots st' = rs_computer_use_slots st"
            using ga cu by (metis snd_conv, metis fst_conv)
          then show thesis using that [OF tm cl] grant [OF g free nc] Some cuse free nc by simp
        qed
      next
        case False
        then have g: "(st', res) = grant st owner claims stamp None" using c' no by simp
        then have "ar_acquired res" "rs_computer_use_slots st' = rs_computer_use_slots st"
          using ga cu by (metis snd_conv, metis fst_conv)
        then show thesis using that [OF tm cl] grant [OF g free nc] False free nc by simp
      qed
    qed
  qed
qed

section \<open>Runs\<close>

datatype lock_request =
    Acquire string lock_owner "string option" string
  | Release string string string

fun lock_step :: "host \<Rightarrow> plan \<Rightarrow> string \<Rightarrow> run_state \<Rightarrow> lock_request \<Rightarrow> run_state result" where
  "lock_step h p base st (Acquire i owner mode now) =
     bindE (acquire_resources_in_state h p st base i owner mode now) (\<lambda>(st', _). Inr st')"
| "lock_step h p base st (Release token reason now) =
     bindE (release_resources_in_state h st token reason now) (\<lambda>(st', _). Inr st')"

fun fresh_owners :: "string set \<Rightarrow> lock_request list \<Rightarrow> bool" where
  "fresh_owners used [] = True"
| "fresh_owners used (Acquire i owner mode now # rs) =
     (owner_ok owner \<and> lo_ownership_token owner \<notin> used
      \<and> fresh_owners (insert (lo_ownership_token owner) used) rs)"
| "fresh_owners used (Release token reason now # rs) = fresh_owners used rs"

lemma fresh_owners_mono: "fresh_owners used rs \<Longrightarrow> used' \<subseteq> used \<Longrightarrow> fresh_owners used' rs"
proof (induction used rs arbitrary: used' rule: fresh_owners.induct)
  case (2 used i owner mode now rs)
  then show ?case by (simp add: insert_mono subset_iff) blast
qed simp_all

lemma lock_inv_mono: "lock_inv h n used st locks \<Longrightarrow> used \<subseteq> used' \<Longrightarrow> lock_inv h n used' st locks"
  unfolding lock_inv_def by blast

lemma release_slots:
  "release_resources_in_state h st token reason now = Inr (st', b) \<Longrightarrow>
   rs_computer_use_slots st' = rs_computer_use_slots st"
  by (auto simp: release_resources_in_state_def append_resource_event_def Let_def split: option.splits)

lemma lock_run:
  assumes good: "storable_claims h p base"
  shows "lock_inv h (slot_limit p st) used st locks \<Longrightarrow> fresh_owners used rs \<Longrightarrow>
    run_ops (lock_step h p base) st rs = Inr st' \<Longrightarrow>
    slot_limit p st' = slot_limit p st \<and> (\<exists>used' locks'. lock_inv h (slot_limit p st) used' st' locks')"
proof (induction rs arbitrary: st used locks)
  case Nil
  then show ?case by auto
next
  case (Cons r rs)
  from Cons.prems(3) obtain s where s: "lock_step h p base st r = Inr s"
    "run_ops (lock_step h p base) s rs = Inr st'" by auto
  show ?case
  proof (cases r)
    case (Acquire i owner mode now)
    then obtain res where a: "acquire_resources_in_state h p st base i owner mode now = Inr (s, res)"
      using s(1) by auto
    let ?used = "insert (lo_ownership_token owner) used"
    have own: "owner_ok owner" "lo_ownership_token owner \<notin> used" "fresh_owners ?used rs"
      using Cons.prems(2) Acquire by simp_all
    obtain l' where inv: "lock_inv h (slot_limit p st) ?used s l'"
      and cu: "rs_computer_use_slots s = rs_computer_use_slots st"
      by (rule acquire_inv [OF Cons.prems(1) own(1,2) good a])
        (metis lock_inv_mono Cons.prems(1) subset_insertI)
    then have "slot_limit p s = slot_limit p st" by (simp add: slot_limit_def)
    then show ?thesis using Cons.IH [of s ?used l'] inv own(3) s(2) by simp
  next
    case (Release token reason now)
    then obtain b where a: "release_resources_in_state h st token reason now = Inr (s, b)"
      using s(1) by auto
    have "slot_limit p s = slot_limit p st" using release_slots [OF a] by (simp add: slot_limit_def)
    moreover have "fresh_owners used rs" using Cons.prems(2) Release by simp
    ultimately show ?thesis using Cons.IH [of s used] release_inv [OF Cons.prems(1) a] s(2) by metis
  qed
qed

lemma empty_inv:
  assumes "rs_resource_locks st = []" "rs_resource_lock_journal st = []" "rs_resource_journal_sequence st = 0"
  shows "lock_inv h n {} st []"
  using assms by (simp add: lock_inv_def state_locks_Inr table_ok_def slots_of_def map_filter_def
      cc.exclusive_table_def empty_replay_def same_dict_def)

text \<open>
  A lock is stored faithfully: what is read from the state is well-formed, and writing
  it and reading it again gives the same lock.
\<close>

theorem lock_round_trip:
  assumes "lock_from_dict h d = Inr l"
  shows "lock_from_dict h (lock_to_dict l) = Inr l \<and> lock_ok h l"
  using lock_codec.stable [OF assms] lock_codec.dec_ok [OF assms] by simp

definition sample_owner :: "string \<Rightarrow> string \<Rightarrow> lock_owner" where
  "sample_owner token task = \<lparr>lo_ownership_token = token, lo_run_id = ''run'', lo_task_id = task,
     lo_attempt = 0, lo_worker_id = ''w'', lo_thread_id = None, lo_turn_id = Some ''t''\<rparr>"

definition sample_lock :: resource_lock where
  "sample_lock = \<lparr>lk_lock_id = ''resource-lock-000001'', lk_owner = sample_owner ''k'' ''x'',
     lk_claims = [claim ''c'' ''path'' ''/f'' ''write''], lk_acquired_at = ''now'', lk_heartbeat_at = ''now'',
     lk_computer_use_slot = Some 0\<rparr>"

theorem lock_round_trip_witness: "lock_ok plain_host sample_lock"
proof -
  have "lock_from_dict plain_host (lock_to_dict sample_lock) = Inr sample_lock" by code_simp
  from lock_round_trip [OF this] show ?thesis ..
qed


definition lock_plan :: plan where
  "lock_plan = sample_plan
     [(sample_task ''x'' [])\<lparr>t_resources := [\<lparr>rc_id = ''c'', rc_kind = ''path'', rc_target = ''f'',
        rc_access = ''write'', rc_description = None\<rparr>]\<rparr>,
      (sample_task ''y'' [])\<lparr>t_resources := [\<lparr>rc_id = ''d'', rc_kind = ''glob'', rc_target = ''*'',
        rc_access = ''read'', rc_description = None\<rparr>]\<rparr>]"

definition lock_state :: run_state where
  "lock_state = sample_state lock_plan (initial_task_states lock_plan) []"

definition acquire_x :: "(run_state \<times> acquisition_result) result" where
  "acquire_x = acquire_resources_in_state plain_host lock_plan lock_state ''/w'' ''x''
     (sample_owner ''k'' ''x'') None ''now''"

lemma lock_plan_storable: "storable_claims plain_host lock_plan ''/w''"
proof -
  have "list_all (\<lambda>t. case normalize_task_claims plain_host t ''/w'' of Inl e \<Rightarrow> True
      | Inr cs \<Rightarrow> list_all claim_ok cs \<and> distinct (map nc_id cs)) (pl_tasks lock_plan)" by code_simp
  note all = this [unfolded list_all_iff, rule_format]
  show ?thesis
    unfolding storable_claims_def
  proof (intro ballI allI impI)
    fix t cs assume t: "t \<in> set (pl_tasks lock_plan)" and n: "normalize_task_claims plain_host t ''/w'' = Inr cs"
    from all [OF t] show "(\<forall>c \<in> set cs. claim_ok c) \<and> distinct (map nc_id cs)"
      unfolding n sum.case by (simp add: list_all_iff)
  qed
qed

lemma lock_state_empty: "lock_inv plain_host (slot_limit lock_plan lock_state) {} lock_state []"
  by (rule empty_inv) (simp_all add: lock_state_def sample_state_def)

lemma sample_owner_ok: "owner_ok (sample_owner ''k'' ''x'')" "owner_ok (sample_owner ''m'' ''y'')"
  by code_simp+


text \<open>
  C27. Locks are exclusive in every reachable table. Whatever acquisitions and releases a run
  performs from an empty table, each under a new token, the persisted table stays valid
  against its journal; no claim of one held lock conflicts with a claim of another; a task
  holds at most one lock; and the Computer Use slots in use are distinct and below the limit.
\<close>

theorem reachable_locks_exclusive:
  assumes "rs_resource_locks st = []" "rs_resource_lock_journal st = []" "rs_resource_journal_sequence st = 0"
    and "storable_claims h p base" "fresh_owners {} rs" "run_ops (lock_step h p base) st rs = Inr st'"
  shows "\<exists>locks. state_locks h st' = Inr locks
    \<and> (\<forall>a < length locks. \<forall>b < length locks. a \<noteq> b \<longrightarrow>
        (\<forall>x \<in> set (lk_claims (locks ! a)). \<forall>y \<in> set (lk_claims (locks ! b)). claims_conflict h x y = Inr False))
    \<and> distinct (map task_of locks)
    \<and> distinct (slots_of locks) \<and> (\<forall>s \<in> set (slots_of locks). 0 \<le> s \<and> s < slot_limit p st)"
proof -
  obtain used locks where inv: "lock_inv h (slot_limit p st) used st' locks"
    using lock_run [OF assms(4) empty_inv [OF assms(1-3)] assms(5,6)] by blast
  then have sl: "state_locks h st' = Inr locks" by (simp add: lock_inv_def)
  then have t: "table_ok h locks" using state_locks_Inr by blast
  have "\<not> cc.bundles_conflict h (lk_claims (locks ! a)) (lk_claims (locks ! b))"
    if "a < length locks" "b < length locks" "a \<noteq> b" for a b
    using cc.exclusive_pair [of h "map lk_claims locks" a b] t that by (simp add: table_ok_def)
  then have "\<forall>a < length locks. \<forall>b < length locks. a \<noteq> b \<longrightarrow>
        (\<forall>x \<in> set (lk_claims (locks ! a)). \<forall>y \<in> set (lk_claims (locks ! b)). claims_conflict h x y = Inr False)"
    unfolding cc.bundles_conflict_def by simp
  then show ?thesis using sl t inv unfolding table_ok_def lock_inv_def by blast
qed

definition lock_requests :: "lock_request list" where
  "lock_requests = [Acquire ''x'' (sample_owner ''k'' ''x'') None ''now'',
     Acquire ''y'' (sample_owner ''m'' ''y'') None ''now'', Release ''k'' ''done'' ''now'']"

theorem reachable_locks_exclusive_witness:
  "\<exists>st' locks. run_ops (lock_step plain_host lock_plan ''/w'') lock_state lock_requests = Inr st'
     \<and> state_locks plain_host st' = Inr locks \<and> distinct (map task_of locks)"
proof -
  have "\<not> isl (run_ops (lock_step plain_host lock_plan ''/w'') lock_state lock_requests)" by code_simp
  then obtain st' where r: "run_ops (lock_step plain_host lock_plan ''/w'') lock_state lock_requests = Inr st'"
    unfolding isl_def by (metis sum.exhaust)
  have "fresh_owners {} lock_requests" using sample_owner_ok by (simp add: lock_requests_def sample_owner_def)
  moreover have "rs_resource_locks lock_state = []" "rs_resource_lock_journal lock_state = []"
    "rs_resource_journal_sequence lock_state = 0"
    by (simp_all add: lock_state_def sample_state_def)
  ultimately obtain locks where "state_locks plain_host st' = Inr locks" "distinct (map task_of locks)"
    using reachable_locks_exclusive [OF _ _ _ lock_plan_storable _ r] by blast
  with r show ?thesis by blast
qed

end
