(* ===== verification/ScheduledLaunch.thy ===== *)
theory ScheduledLaunch
  imports ResourceLocks
begin

text \<open>
  The scheduler and the lock table together: the availability snapshot
  \<^verbatim>\<open>build_scheduler_availability\<close> makes from the lock table is one the scheduler
  accepts, and what the scheduler selects from it can be locked.
\<close>

section \<open>The snapshot\<close>

definition claims_of :: "host \<Rightarrow> string \<Rightarrow> task \<Rightarrow> normalized_claim list" where
  "claims_of h base t = projr (normalize_task_claims h t base)"

lemma mapE_projr: "mapE f xs = Inr ys \<Longrightarrow> ys = map (\<lambda>x. projr (f x)) xs \<and> (\<forall>x \<in> set xs. f x = Inr (projr (f x)))"
  unfolding mapE_eq_Inr by (induction rule: list_all2_induct) auto

definition apart :: "host \<Rightarrow> normalized_claim list \<Rightarrow> normalized_claim list \<Rightarrow> bool" where
  "apart h xs ys \<longleftrightarrow> (\<forall>x \<in> set xs. \<forall>y \<in> set ys. claims_conflict h x y = Inr False)"

lemma bundles_apart: "cc.bundles_conflict h xs ys \<longleftrightarrow> \<not> apart h xs ys"
  by (simp add: apart_def cc.bundles_conflict_def)

lemma apart_sym: "apart h xs ys \<Longrightarrow> apart h ys xs"
  using cc.bundles_sym bundles_apart by blast

definition available :: "host \<Rightarrow> plan \<Rightarrow> run_state \<Rightarrow> string \<Rightarrow> resource_lock list \<Rightarrow> string list \<Rightarrow> task \<Rightarrow> bool" where
  "available h p st base locks paused t \<longleftrightarrow> apart h (claims_of h base t) (concat (map lk_claims locks))
     \<and> (t_execution_mode t = ''computer_use'' \<longrightarrow> int (length (slots_of locks)) < slot_limit p st)
     \<and> t_id t \<notin> set paused"

definition conflicts_of :: "host \<Rightarrow> plan \<Rightarrow> string \<Rightarrow> task \<Rightarrow> string list" where
  "conflicts_of h p base t = map t_id (filter (\<lambda>u. t_id t \<noteq> t_id u
     \<and> \<not> apart h (claims_of h base t) (claims_of h base u)) (pl_tasks p))"

lemma build_Inr:
  assumes "build_scheduler_availability h p st base paused incidents = Inr av" "state_locks h st = Inr locks"
  shows "av = \<lparr>av_available_capabilities = None, av_capability_limits = [],
       av_resource_available = dict_of (map (\<lambda>t. (t_id t, available h p st base locks paused t)) (pl_tasks p)),
       av_resource_conflicts = dict_of (map (\<lambda>t. (t_id t, conflicts_of h p base t)) (pl_tasks p)),
       av_blocked_reasons = incident_reasons p paused incidents\<rparr>
     \<and> (\<forall>t \<in> set (pl_tasks p). normalize_task_claims h t base = Inr (claims_of h base t))"
proof -
  from assms obtain claims a c where
    cl: "mapE (\<lambda>t. normalize_task_claims h t base) (pl_tasks p) = Inr claims"
    and a: "mapE (task_available h p st locks paused) (zip (pl_tasks p) claims) = Inr a"
    and c: "mapE (task_conflicts h (zip (pl_tasks p) claims)) (zip (pl_tasks p) claims) = Inr c"
    and av: "av = \<lparr>av_available_capabilities = None, av_capability_limits = [],
       av_resource_available = dict_of (zip (task_ids p) a),
       av_resource_conflicts = dict_of (zip (task_ids p) c),
       av_blocked_reasons = incident_reasons p paused incidents\<rparr>"
    unfolding build_scheduler_availability_def Let_def by auto
  from mapE_projr [OF cl] have claims: "claims = map (claims_of h base) (pl_tasks p)"
    and n: "\<forall>t \<in> set (pl_tasks p). normalize_task_claims h t base = Inr (claims_of h base t)"
    by (simp_all add: claims_of_def)
  have z: "zip (pl_tasks p) claims = map (\<lambda>t. (t, claims_of h base t)) (pl_tasks p)"
    unfolding claims by (simp add: zip_map2 zip_same_conv_map comp_def)
  have "mapE (task_available h p st locks paused) (zip (pl_tasks p) claims)
      = Inr (map (available h p st base locks paused) (pl_tasks p))"
    unfolding z by (intro mapE_map) (auto simp: task_available_def any_conflict_Inr available_def
        bundles_apart slot_limit_def Let_def)
  then have a: "a = map (available h p st base locks paused) (pl_tasks p)" using a by simp
  have f: "filterE (\<lambda>(other, theirs). if t_id t = t_id other then Inr False
       else any_conflict h (claims_of h base t) theirs) (map (\<lambda>t. (t, claims_of h base t)) (pl_tasks p))
      = Inr (filter (\<lambda>(other, theirs). t_id t \<noteq> t_id other \<and> \<not> apart h (claims_of h base t) theirs)
          (map (\<lambda>t. (t, claims_of h base t)) (pl_tasks p)))" for t
    by (intro filterE_total) (auto simp: any_conflict_Inr bundles_apart)
  have "map (\<lambda>(other, _). t_id other) (filter (\<lambda>(other, theirs). P other theirs)
      (map (\<lambda>t. (t, g t)) ts)) = map t_id (filter (\<lambda>u. P u (g u)) ts)"
    for P :: "task \<Rightarrow> normalized_claim list \<Rightarrow> bool" and g ts
    by (induction ts) auto
  then have "mapE (task_conflicts h (zip (pl_tasks p) claims)) (zip (pl_tasks p) claims)
      = Inr (map (conflicts_of h p base) (pl_tasks p))"
    unfolding z by (intro mapE_map) (simp add: task_conflicts_def f conflicts_of_def)
  then have c: "c = map (conflicts_of h p base) (pl_tasks p)" using c by simp
  show ?thesis using av n unfolding a c by (simp add: zip_map_map zip_same_conv_map comp_def)
qed

lemma reasons_keys:
  "set (keys (incident_reasons p paused incidents)) \<subseteq> set (task_ids p)
   \<and> (\<forall>rs \<in> set (map snd (incident_reasons p paused incidents)). [] \<notin> set rs)"
proof -
  let ?step = "\<lambda>(inc, i) reasons. if i \<in> set (task_ids p) \<and> i \<in> set paused
        then AList.update i (lookup_or reasons i []
          @ [''incident:'' @ is_incident_id inc @ '':'' @ is_phase inc]) reasons else reasons"
  have upd: "set (AList.update i v d) \<subseteq> insert (i, v) (set d)" for i and v :: "string list" and d
    by (induction d) auto
  have K: "set (keys (fold ?step es d)) \<subseteq> set (task_ids p) \<and> (\<forall>(_, rs) \<in> set (fold ?step es d). [] \<notin> set rs)"
    if "set (keys d) \<subseteq> set (task_ids p)" "\<forall>(_, rs) \<in> set d. [] \<notin> set rs" for es d
    using that
  proof (induction es arbitrary: d)
    case Nil
    then show ?case by simp
  next
    case (Cons e es)
    obtain inc i where e: "e = (inc, i)" by (cases e)
    show ?case
    proof (cases "i \<in> set (task_ids p) \<and> i \<in> set paused")
      case True
      let ?v = "lookup_or d i [] @ [''incident:'' @ is_incident_id inc @ '':'' @ is_phase inc]"
      have "[] \<notin> set (lookup_or d i [])"
        using Cons.prems(2) by (cases "map_of d i") (auto simp: lookup_or_def dest: map_of_SomeD)
      then have "\<forall>(_, rs) \<in> set (AList.update i ?v d). [] \<notin> set rs"
        using upd [of i ?v d] Cons.prems(2) by fastforce
      moreover have "set (keys (AList.update i ?v d)) \<subseteq> set (task_ids p)"
        unfolding set_keys_update using Cons.prems(1) True by blast
      ultimately have ih: "set (keys (fold ?step es (AList.update i ?v d))) \<subseteq> set (task_ids p)
          \<and> (\<forall>(_, rs) \<in> set (fold ?step es (AList.update i ?v d)). [] \<notin> set rs)"
        by (intro Cons.IH)
      have f: "fold ?step (e # es) d = fold ?step es (AList.update i ?v d)"
        using True by (simp only: e fold_simps comp_apply case_prod_conv if_True simp_thms)
      from ih show ?thesis unfolding f .
    next
      case False
      then have f: "fold ?step (e # es) d = fold ?step es d"
        by (simp only: e fold_simps comp_apply case_prod_conv if_False simp_thms)
      from Cons.IH [OF Cons.prems] show ?thesis unfolding f .
    qed
  qed
  have g: "set (keys (incident_reasons p paused incidents)) \<subseteq> set (task_ids p)
      \<and> (\<forall>(_, rs) \<in> set (incident_reasons p paused incidents). [] \<notin> set rs)"
    unfolding incident_reasons_def by (rule K) simp_all
  have "\<forall>rs \<in> set (map snd d). [] \<notin> set rs" if "\<forall>(_, rs) \<in> set d. [] \<notin> set rs" for d :: "string list dict"
    using that by auto
  with g show ?thesis by blast
qed

lemma built_accepted:
  assumes ok: "plan_ok p" and b: "build_scheduler_availability h p st base paused incidents = Inr av"
    and l: "state_locks h st = Inr locks"
  shows "validate_availability p av = Inr ()"
proof -
  let ?C = "\<lambda>t. conflicts_of h p base t"
  have d: "distinct (map t_id (pl_tasks p))" using ok by (simp add: plan_ok_def)
  have av: "av_available_capabilities av = None" "av_capability_limits av = []"
    "av_resource_available av = map (\<lambda>t. (t_id t, available h p st base locks paused t)) (pl_tasks p)"
    "av_resource_conflicts av = map (\<lambda>t. (t_id t, ?C t)) (pl_tasks p)"
    "av_blocked_reasons av = incident_reasons p paused incidents"
    using build_Inr [OF b l] d by (simp_all add: comp_def)
  have known: "unknown_tasks p ids = []" if "set ids \<subseteq> set (task_ids p)" for ids
  proof -
    have "filter (\<lambda>i. i \<notin> set (task_ids p)) ids = []" using that unfolding filter_empty_conv by blast
    then show ?thesis by (simp only: unknown_tasks_def sorted_set_def) simp
  qed
  have look: "lookup_or (av_resource_conflicts av) (t_id t) [] = ?C t" if "t \<in> set (pl_tasks p)" for t
  proof -
    have "map_of (av_resource_conflicts av) (t_id t) = Some (?C t)"
      unfolding av using d that by (intro map_of_is_SomeI) (auto simp: comp_def)
    then show ?thesis by (simp add: lookup_or_def)
  qed
  have "check_conflict_entry p (av_resource_conflicts av) (t_id t, ?C t) = Inr ()"
    if t: "t \<in> set (pl_tasks p)" for t
  proof -
    have "t_id t \<in> set (lookup_or (av_resource_conflicts av) j [])" if "j \<in> set (?C t)" for j
    proof -
      from that obtain u where u: "u \<in> set (pl_tasks p)" "j = t_id u" "t_id t \<noteq> t_id u"
        "\<not> apart h (claims_of h base t) (claims_of h base u)" by (auto simp: conflicts_of_def)
      then have "t_id t \<in> set (?C u)" using t apart_sym by (fastforce simp: conflicts_of_def)
      then show ?thesis using look [OF u(1)] u(2) by simp
    qed
    moreover have "unknown_tasks p (?C t) = []" by (rule known) (auto simp: conflicts_of_def)
    moreover have "t_id t \<notin> set (?C t)" by (auto simp: conflicts_of_def)
    ultimately show ?thesis by (simp add: check_conflict_entry_def)
  qed
  then have "forE (check_conflict_entry p (av_resource_conflicts av)) (av_resource_conflicts av) = Inr ()"
    unfolding forE_eq_Inr av(4) by auto
  moreover have "unknown_tasks p (keys (av_resource_available av)) = []"
    "unknown_tasks p (keys (av_resource_conflicts av)) = []"
    "unknown_tasks p (keys (av_blocked_reasons av)) = []"
    using reasons_keys [of p paused incidents] by (intro known; simp add: av comp_def)+
  ultimately show ?thesis
    using reasons_keys [of p paused incidents] av by (simp add: validate_availability_def)
qed

section \<open>Selected work can be locked\<close>

text \<open>
  C28. Scheduling and locking fit together. The snapshot built from a valid lock table passes
  the scheduler's own check, and no claim of a selected task conflicts with a claim
  that is held or with a claim of another selected task, so the acquisitions that follow
  a decision cannot collide; a task an incident has paused is not selected.
\<close>

theorem selection_lockable:
  assumes "plan_ok p" "caps_ok p" "state_dicts st" "state_locks h st = Inr locks"
    and "build_scheduler_availability h p st base paused incidents = Inr av"
    and "schedule fl sha now p st av = Inr (st', d)"
  shows "validate_availability p av = Inr ()
    \<and> (\<forall>i \<in> set (sd_selected_task_ids d). i \<notin> set paused \<and>
        (\<exists>t. task_map p i = Some t \<and> normalize_task_claims h t base = Inr (claims_of h base t)
          \<and> (\<forall>l \<in> set locks. apart h (claims_of h base t) (lk_claims l))
          \<and> (\<forall>u \<in> set (pl_tasks p). t_id u \<in> set (sd_selected_task_ids d) \<longrightarrow> t_id u \<noteq> i \<longrightarrow>
              apart h (claims_of h base t) (claims_of h base u))))"
proof -
  note safe = selection_safe [OF assms(1-3,6)] and built = build_Inr [OF assms(5,4)]
  have d: "distinct (map t_id (pl_tasks p))" using assms(1) by (simp add: plan_ok_def)
  have "i \<notin> set paused \<and>
        (\<exists>t. task_map p i = Some t \<and> normalize_task_claims h t base = Inr (claims_of h base t)
          \<and> (\<forall>l \<in> set locks. apart h (claims_of h base t) (lk_claims l))
          \<and> (\<forall>u \<in> set (pl_tasks p). t_id u \<in> set (sd_selected_task_ids d) \<longrightarrow> t_id u \<noteq> i \<longrightarrow>
              apart h (claims_of h base t) (claims_of h base u)))"
    if i: "i \<in> set (sd_selected_task_ids d)" for i
  proof -
    from safe i obtain t where tm: "task_map p i = Some t" by blast
    then have t: "t \<in> set (pl_tasks p)" "t_id t = i" using task_map_SomeD by blast+
    have m: "map_of (av_resource_available av) i = Some (available h p st base locks paused t)"
      "map_of (av_resource_conflicts av) i = Some (conflicts_of h p base t)"
      using built d t by (auto simp: comp_def intro!: map_of_is_SomeI)
    have "lookup_or (av_resource_available av) i True" using safe i by blast
    then have av: "available h p st base locks paused t" using m(1) by (simp add: lookup_or_def)
    have "apart h (claims_of h base t) (claims_of h base u)"
      if u: "u \<in> set (pl_tasks p)" "t_id u \<in> set (sd_selected_task_ids d)" "t_id u \<noteq> i" for u
    proof -
      have "t_id u \<notin> set (lookup_or (av_resource_conflicts av) i [])" using safe i u(2) by blast
      then show ?thesis using m(2) u t(2) by (force simp: lookup_or_def conflicts_of_def)
    qed
    then show ?thesis
      using tm t av built by (auto simp: available_def apart_def)
  qed
  then show ?thesis using built_accepted [OF assms(1,5,4)] by blast
qed

definition launch :: "(run_state \<times> scheduler_decision) result" where
  "launch = bindE (build_scheduler_availability plain_host lock_plan lock_state ''/w'' [] [])
     (schedule (\<lambda>_. []) (\<lambda>s. s) ''now'' lock_plan lock_state)"

theorem selection_lockable_witness:
  "\<exists>st d. launch = Inr (st, d) \<and> sd_selected_task_ids d = [''x'']
    \<and> normalize_task_claims plain_host (hd (pl_tasks lock_plan)) ''/w''
      = Inr (claims_of plain_host ''/w'' (hd (pl_tasks lock_plan)))"
proof -
  have c: "case launch of Inl e \<Rightarrow> False | Inr (st, d) \<Rightarrow> sd_selected_task_ids d = [''x'']" by code_simp
  then obtain st d where l: "launch = Inr (st, d)" by (auto split: sum.splits)
  from c have s: "sd_selected_task_ids d = [''x'']" unfolding l by simp
  from l obtain av where av: "build_scheduler_availability plain_host lock_plan lock_state ''/w'' [] [] = Inr av"
    "schedule (\<lambda>_. []) (\<lambda>s. s) ''now'' lock_plan lock_state av = Inr (st, d)"
    by (auto simp: launch_def)
  have ok: "plan_ok lock_plan" "caps_ok lock_plan" "state_dicts lock_state" by code_simp+
  have "state_locks plain_host lock_state = Inr []" using lock_state_empty by (simp add: lock_inv_def)
  from selection_lockable [OF ok this av] s obtain t where
    "task_map lock_plan ''x'' = Some t" "normalize_task_claims plain_host t ''/w'' = Inr (claims_of plain_host ''/w'' t)"
    by auto
  moreover have "task_map lock_plan ''x'' = Some (hd (pl_tasks lock_plan))"
    by (simp add: task_map_def lock_plan_def sample_plan_def sample_task_def)
  ultimately have "normalize_task_claims plain_host (hd (pl_tasks lock_plan)) ''/w''
      = Inr (claims_of plain_host ''/w'' (hd (pl_tasks lock_plan)))" by (simp only: option.inject)
  with l s show ?thesis by (intro exI conjI)
qed

end
