(* ===== verification/PlanChanges.thy ===== *)
theory PlanChanges
  imports PlanVerdicts Scheduler
begin

text \<open>
  Plan changes (\<^verbatim>\<open>resilience.py\<close>): the request a worker writes as the last line of
  its answer, its registration in the run state, and the reconciliation of the mutable run
  state with the candidate graph the replanner proposes. The refusals are the branches of
  the code; a refused reconciliation leaves the caller's state file as it was, so the
  state of a refusal is not modelled.
\<close>

section \<open>The request line\<close>

definition PLAN_CHANGE_REQUEST_PREFIX :: string where
  "PLAN_CHANGE_REQUEST_PREFIX = ''PLAN_CHANGE_REQUEST:''"

definition PLAN_CHANGE_REQUEST_KINDS :: "string list" where
  "PLAN_CHANGE_REQUEST_KINDS = [''prerequisite'', ''dependency'', ''resource'', ''verification'']"

record plan_change_request =
  pc_request_version :: int
  pc_kind :: string
  pc_target_task_id :: string
  pc_summary :: string
  pc_rationale :: string
  pc_change :: "pyval dict"
  pc_evidence_ids :: "string list"

definition plan_change_request_to_dict :: "plan_change_request \<Rightarrow> pyval dict" where
  "plan_change_request_to_dict r =
    [(''request_version'', PInt (pc_request_version r)), (''kind'', PStr (pc_kind r)),
     (''target_task_id'', PStr (pc_target_task_id r)), (''summary'', PStr (pc_summary r)),
     (''rationale'', PStr (pc_rationale r)), (''change'', PDict (pc_change r)),
     (''evidence_ids'', PStrs (pc_evidence_ids r))]"

definition exact_keys :: "pyval dict \<Rightarrow> string list \<Rightarrow> string \<Rightarrow> unit result" where
  "exact_keys value expected label =
     (if set (keys value) \<noteq> set expected
      then Inl (PlanChangeProtocolError ''fields must be exactly'' (label # sorted_set (keys value)))
      else Inr ())"

definition keys_subset :: "pyval dict \<Rightarrow> string list \<Rightarrow> string \<Rightarrow> unit result" where
  "keys_subset value allowed label =
     (let unknown = filter (\<lambda>k. k \<notin> set allowed) (keys value) in
      if unknown \<noteq> [] then Inl (PlanChangeProtocolError ''has unknown fields'' (label # sorted_set unknown))
      else Inr ())"

text \<open>\<^verbatim>\<open>_TASK_ID\<close> and \<^verbatim>\<open>_EVIDENCE_ID\<close>, matched in full.\<close>

definition is_task_id :: "string \<Rightarrow> bool" where
  "is_task_id s \<longleftrightarrow> s \<noteq> [] \<and> is_letter (hd s) \<and> length s \<le> 64
     \<and> (\<forall>c \<in> set (tl s). is_letter c \<or> is_digit c \<or> c \<in> set ''._-'')"

definition is_evidence_id :: "string \<Rightarrow> bool" where
  "is_evidence_id s \<longleftrightarrow> startswith s ''EVID-'' \<and> 3 \<le> length (drop 5 s) \<and> (\<forall>c \<in> set (drop 5 s). is_digit c)"

definition task_identifier :: "pyval \<Rightarrow> string \<Rightarrow> string result" where
  "task_identifier v label = bindE (collapsed_text v label 64) (\<lambda>s.
     if is_task_id s then Inr s
     else Inl (PlanChangeProtocolError ''is not a valid task identifier'' [label]))"

definition single_final_protocol_object :: "string \<Rightarrow> string \<Rightarrow> pyval dict option result" where
  "single_final_protocol_object message prefix =
     (let lines = message_lines message; matching = filter (\<lambda>l. startswith l prefix) lines in
      case matching of
        [] \<Rightarrow> Inr None
      | line # others \<Rightarrow>
          if others \<noteq> [] \<or> last lines \<noteq> line then
            Inl (PlanChangeProtocolError ''must occur exactly once as the final non-empty line'' [prefix])
          else (case json_loads (strip (drop (length prefix) line)) of
              None \<Rightarrow> Inl (PlanChangeProtocolError ''payload must be valid JSON'' [prefix])
            | Some (PDict d) \<Rightarrow> Inr (Some d)
            | Some _ \<Rightarrow> Inl (PlanChangeProtocolError ''payload must be an object'' [prefix])))"

definition is_object :: "pyval \<Rightarrow> bool" where
  "is_object v = (case v of PDict _ \<Rightarrow> True | _ \<Rightarrow> False)"

definition validate_change_payload :: "string \<Rightarrow> pyval dict \<Rightarrow> unit result" where
  "validate_change_payload kind change =
     (if kind = ''prerequisite'' then
        bindE (keys_subset change [''description'', ''suggested_task_id''] ''prerequisite change'') (\<lambda>_.
        bindE (collapsed_text (get change ''description'') ''prerequisite description'' 4000) (\<lambda>_.
        if ''suggested_task_id'' \<in> set (keys change) then
          bindE (task_identifier (get change ''suggested_task_id'') ''suggested_task_id'') (\<lambda>_. Inr ())
        else Inr ()))
      else if kind = ''dependency'' then
        bindE (exact_keys change [''dependency_task_id''] ''dependency change'') (\<lambda>_.
        bindE (task_identifier (get change ''dependency_task_id'') ''dependency_task_id'') (\<lambda>_. Inr ()))
      else if kind = ''resource'' then
        bindE (exact_keys change [''resources''] ''resource change'') (\<lambda>_.
        case get change ''resources'' of
          PList items \<Rightarrow>
            if items \<noteq> [] \<and> (\<forall>x \<in> set items. is_object x) then Inr ()
            else Inl (PlanChangeProtocolError ''resource change resources must be non-empty objects'' [])
        | _ \<Rightarrow> Inl (PlanChangeProtocolError ''resource change resources must be non-empty objects'' []))
      else
        bindE (exact_keys change [''verification''] ''verification change'') (\<lambda>_.
        if is_object (get change ''verification'') then Inr ()
        else Inl (PlanChangeProtocolError ''verification change must contain an object'' [])))"

text \<open>\<^verbatim>\<open>raw["request_version"] != 1\<close>: a truth value and a float equal to one pass.\<close>

definition equals_one :: "pyval \<Rightarrow> bool" where
  "equals_one v \<longleftrightarrow> v = PInt 1 \<or> v = PBool True \<or> v = PFloat 1"

definition evidence_id_texts :: "pyval \<Rightarrow> string list result" where
  "evidence_id_texts v = (case v of
     PList items \<Rightarrow>
       if \<forall>x \<in> set items. case x of PStr s \<Rightarrow> is_evidence_id s | _ \<Rightarrow> False then
         (let ids = map text_value items in
          if distinct ids then Inr ids
          else Inl (PlanChangeProtocolError ''evidence_ids must not contain duplicates'' []))
       else Inl (PlanChangeProtocolError ''evidence_ids must contain Project Memory evidence IDs'' [])
   | _ \<Rightarrow> Inl (PlanChangeProtocolError ''evidence_ids must contain Project Memory evidence IDs'' []))"

definition request_from_raw :: "pyval dict \<Rightarrow> plan_change_request result" where
  "request_from_raw raw =
     bindE (exact_keys raw [''request_version'', ''kind'', ''target_task_id'', ''summary'', ''rationale'',
       ''change'', ''evidence_ids''] ''plan change request'') (\<lambda>_.
     if \<not> equals_one (get raw ''request_version'') then
       Inl (PlanChangeProtocolError ''plan change request_version must be 1'' [])
     else
       bindE (collapsed_text (get raw ''kind'') ''plan change kind'' 8000) (\<lambda>kind.
       if kind \<notin> set PLAN_CHANGE_REQUEST_KINDS then
         Inl (PlanChangeProtocolError ''plan change kind must be one of'' PLAN_CHANGE_REQUEST_KINDS)
       else
         bindE (task_identifier (get raw ''target_task_id'') ''target_task_id'') (\<lambda>target.
         bindE (case get raw ''change'' of PDict d \<Rightarrow> Inr d
                | _ \<Rightarrow> Inl (PlanChangeProtocolError ''plan change change must be an object'' [])) (\<lambda>change.
         bindE (validate_change_payload kind change) (\<lambda>_.
         bindE (evidence_id_texts (get raw ''evidence_ids'')) (\<lambda>evidence.
         bindE (collapsed_text (get raw ''summary'') ''plan change summary'' 240) (\<lambda>summary.
         bindE (collapsed_text (get raw ''rationale'') ''plan change rationale'' 4000) (\<lambda>rationale.
         Inr \<lparr>pc_request_version = 1, pc_kind = kind, pc_target_task_id = target,
           pc_summary = summary, pc_rationale = rationale, pc_change = change,
           pc_evidence_ids = evidence\<rparr>))))))))"

definition parse_plan_change_request :: "string \<Rightarrow> plan_change_request option result" where
  "parse_plan_change_request message =
     bindE (single_final_protocol_object message PLAN_CHANGE_REQUEST_PREFIX) (\<lambda>raw.
     case raw of None \<Rightarrow> Inr None | Some d \<Rightarrow> bindE (request_from_raw d) (\<lambda>r. Inr (Some r)))"

section \<open>Registration\<close>

definition active_plan_change :: "run_state \<Rightarrow> string option \<Rightarrow> (nat \<times> pyval dict) result" where
  "active_plan_change st request_id =
     (let selected = (case request_id of Some r \<Rightarrow> if r = [] then opt_text (rs_active_plan_change_id st) else PStr r
                      | None \<Rightarrow> opt_text (rs_active_plan_change_id st))
      in case filter (\<lambda>(_, d). get d ''id'' = selected) (enumerate 0 (rs_plan_changes st)) of
           [m] \<Rightarrow> Inr m
         | _ \<Rightarrow> Inl (PlanChangeConflictError ''active plan change is missing or non-unique'' []))"

definition or_now :: "string option \<Rightarrow> string \<Rightarrow> string" where
  "or_now moment now = (case moment of None \<Rightarrow> now | Some a \<Rightarrow> if a = [] then now else a)"

definition plan_change_record ::
  "run_state \<Rightarrow> plan_change_request \<Rightarrow> string \<Rightarrow> string \<Rightarrow> string \<Rightarrow> string \<Rightarrow> pyval dict"
where
  "plan_change_record st r i task token created =
     [(''id'', PStr i), (''status'', PStr ''DRAINING''), (''requester_task_id'', PStr task),
      (''requester_session_token'', PStr token), (''base_graph_version'', PInt (rs_graph_version st)),
      (''request'', PDict (plan_change_request_to_dict r)), (''created_at'', PStr created)]"

definition register_plan_change_request ::
  "string \<Rightarrow> run_state \<Rightarrow> plan_change_request \<Rightarrow> string \<Rightarrow> string \<Rightarrow> string option
    \<Rightarrow> (run_state \<times> pyval dict) result"
where
  "register_plan_change_request now st r task token moment =
     (if rs_active_plan_change_id st \<noteq> None then
        Inl (PlanChangeConflictError ''another plan change is already active'' [])
      else if pc_target_task_id r \<noteq> task then
        Inl (PlanChangeProtocolError ''a worker may request a plan change only for its own task'' [])
      else
        let n = rs_plan_change_sequence st + 1; i = ''PC'' @ dec_int n;
            rec = plan_change_record st r i task token (or_now moment now)
        in bindE (append_resilience_event now
             (st\<lparr>rs_plan_change_sequence := n, rs_plan_changes := rs_plan_changes st @ [rec],
                 rs_active_plan_change_id := Some i\<rparr>)
             (''plan_change_requested'', Some (or_now moment now), Some task, Some i,
              plan_change_request_to_dict r)) (\<lambda>st'. Inr (st', rec)))"

section \<open>Reconciling the run state with a candidate graph\<close>

definition with_lead :: "task \<Rightarrow> string option \<Rightarrow> task" where
  "with_lead t lead = t\<lparr>t_verification := (t_verification t)\<lparr>vp_verifier_role := lead\<rparr>\<rparr>"

definition lead_of :: "task \<Rightarrow> string option" where
  "lead_of t = vp_verifier_role (t_verification t)"

definition names_only_its_lead :: "task \<Rightarrow> task \<Rightarrow> bool" where
  "names_only_its_lead before after \<longleftrightarrow>
     lead_of before \<noteq> lead_of after \<and> with_lead before (lead_of after) = after"

definition profession_leads :: "plan \<Rightarrow> string \<Rightarrow> string list" where
  "profession_leads p role = remdups (concat (map (\<lambda>t.
     if t_role t = role then
       (case lead_of t of Some l \<Rightarrow> if l \<noteq> [] \<and> l \<noteq> role then [l] else [] | None \<Rightarrow> [])
     else []) (pl_tasks p)))"

text \<open>
  One task of the current graph against its successor: unchanged, or given a lead
  its profession already has (\<^verbatim>\<open>Inr False\<close>), or changed (\<^verbatim>\<open>Inr True\<close>), or a refusal.
\<close>

definition in_leads :: "string option \<Rightarrow> string list \<Rightarrow> bool" where
  "in_leads lead named = (case lead of Some l \<Rightarrow> l \<in> set named | None \<Rightarrow> False)"

definition compare_task :: "plan \<Rightarrow> plan \<Rightarrow> string dict \<Rightarrow> string \<Rightarrow> string \<times> task \<Rightarrow> bool result" where
  "compare_task current candidate states requester entry = (case entry of (i, before) \<Rightarrow>
     (case task_map candidate i of
        None \<Rightarrow> Inl (KeyError i)
      | Some after \<Rightarrow>
         (case map_of states i of
            None \<Rightarrow> Inl (KeyError i)
          | Some v \<Rightarrow> bindE (coerce_task_state v) (\<lambda>s.
              if s = VERIFIED \<and> before \<noteq> after then
                Inl (PlanChangeConflictError ''verified task is immutable during plan evolution'' [i])
              else if before = after then Inr False
              else if i \<noteq> requester \<and> s \<noteq> CANCELLED \<and> names_only_its_lead before after then
                (let named = profession_leads current (t_role before) in
                 if named = [] \<or> in_leads (lead_of after) named then Inr False
                 else Inl (PlanChangeConflictError
                   ''advanced task can take only a lead its profession already has'' (i # sort named)))
              else if i \<noteq> requester \<and> s \<notin> {WAITING, READY, BLOCKED} then
                Inl (PlanChangeConflictError ''advanced task cannot be rewritten by a plan change'' [i])
              else Inr True))))"

text \<open>
  The guards, in the order of the code; what passes them is the list of the tasks whose
  contract changed.
\<close>

definition check_plan_change :: "plan \<Rightarrow> plan \<Rightarrow> run_state \<Rightarrow> string \<Rightarrow> string list result" where
  "check_plan_change current candidate st requester =
     (let removed = filter (\<lambda>i. i \<notin> set (task_ids candidate)) (task_ids current);
          unexpected = filter (\<lambda>i. i \<noteq> requester) (rs_active_task_ids st)
      in if rs_graph_version st \<noteq> pl_graph_version current then
           Inl (PlanChangeStateConflict ''run state graph version is not the replanner base'' [])
         else if pl_graph_version candidate \<noteq> pl_graph_version current + 1 then
           Inl (PlanChangeConflictError ''candidate graph version is not the next version'' [])
         else if requester \<notin> set (task_ids current) \<or> requester \<notin> set (task_ids candidate) then
           Inl (PlanChangeConflictError ''plan change requester must remain in the graph'' [])
         else if removed \<noteq> [] then
           Inl (PlanChangeConflictError ''plan changes cannot remove tasks with durable history'' (sorted_set removed))
         else if unexpected \<noteq> [] then
           Inl (PlanChangeStateConflict ''plan change apply requires drained workers'' (sorted_set unexpected))
         else if rs_resource_locks st \<noteq> [] then
           Inl (PlanChangeStateConflict ''plan change apply requires reconciled resource locks'' [])
         else bindE (filterE (compare_task current candidate (rs_task_states st) requester)
             (dict_of (map (\<lambda>t. (t_id t, t)) (pl_tasks current)))) (\<lambda>changed. Inr (keys changed)))"

text \<open>
  The descendants of the changed tasks: a work list over the candidate's dependents. The
  code pops a stack it filled from a set, so the order of its elements has no meaning.
\<close>

function spread :: "task list \<Rightarrow> string list \<Rightarrow> string list \<Rightarrow> string list" where
  "spread ts [] affected = affected"
| "spread ts (parent # frontier) affected =
     (let new = filter (\<lambda>c. c \<notin> set affected) (remdups (dependents ts parent))
      in spread ts (rev new @ frontier) (affected @ new))"
  by pat_completeness auto
termination
proof (relation "measures [\<lambda>(ts, frontier, affected). card (set (map t_id ts) - set affected),
    \<lambda>(ts, frontier, affected). length frontier]")
  fix ts parent frontier affected new
  assume new: "new = filter (\<lambda>c. c \<notin> set affected) (remdups (dependents ts parent))"
  have sub: "set new \<subseteq> set (map t_id ts) - set affected"
    using set_dependents [of ts parent] by (auto simp: new)
  have "card (set (map t_id ts) - set (affected @ new)) < card (set (map t_id ts) - set affected)"
    if "new \<noteq> []"
  proof (rule psubset_card_mono)
    have "hd new \<in> set (map t_id ts) - set affected" using sub that hd_in_set by blast
    moreover have "hd new \<notin> set (map t_id ts) - set (affected @ new)" using that by simp
    moreover have "set (map t_id ts) - set (affected @ new) \<subseteq> set (map t_id ts) - set affected" by auto
    ultimately show "set (map t_id ts) - set (affected @ new) \<subset> set (map t_id ts) - set affected" by blast
  qed simp
  then show "((ts, rev new @ frontier, affected @ new), ts, parent # frontier, affected)
      \<in> measures [\<lambda>(ts, frontier, affected). card (set (map t_id ts) - set affected),
    \<lambda>(ts, frontier, affected). length frontier]"
    by (cases "new = []") simp_all
qed simp

definition affected_tasks :: "plan \<Rightarrow> string list \<Rightarrow> string \<Rightarrow> string list result" where
  "affected_tasks candidate changed requester =
     (case unknown_dependencies (pl_tasks candidate) of
        d # _ \<Rightarrow> Inl (KeyError d)
      | [] \<Rightarrow> let start = remdups (changed @ [requester])
             in Inr (spread (pl_tasks candidate) start start))"

definition carried_state :: "plan \<Rightarrow> string dict \<Rightarrow> string list \<Rightarrow> string \<Rightarrow> (string \<times> string) result" where
  "carried_state current states affected i =
     (if i \<notin> set (task_ids current) \<or> i \<in> set affected then Inr (i, state_value WAITING)
      else bindE (subscript states i) (\<lambda>v. Inr (i, v)))"

definition promote :: "plan \<Rightarrow> string dict \<Rightarrow> string \<Rightarrow> string dict result" where
  "promote p states i =
     bindE (subscript states i) (\<lambda>v.
     if v \<noteq> state_value WAITING then Inr states
     else bindE (dependencies_eligible p i states) (\<lambda>ok.
       Inr (if ok then AList.update i (state_value READY) states else states)))"

text \<open>The state map of the candidate.\<close>

definition candidate_states :: "plan \<Rightarrow> plan \<Rightarrow> string dict \<Rightarrow> string list \<Rightarrow> string dict result" where
  "candidate_states current candidate states affected =
     bindE (mapE (carried_state current states affected) (task_ids candidate)) (\<lambda>carried.
     bindE (topological_order (pl_tasks candidate)) (\<lambda>order.
     bindE (run_ops (promote candidate) (dict_of carried) order) (\<lambda>promoted.
     validate_task_states candidate promoted True)))"

definition counters_of :: "plan \<Rightarrow> int dict \<Rightarrow> int dict" where
  "counters_of p counters = dict_of (map (\<lambda>i. (i, lookup_or counters i 0)) (task_ids p))"

text \<open>The run state with the candidate's limits and map, before its record is closed.\<close>

definition adopt_candidate :: "plan \<Rightarrow> string list \<Rightarrow> string dict \<Rightarrow> run_state \<Rightarrow> run_state" where
  "adopt_candidate candidate affected states st =
     (let ready = filter (\<lambda>i. map_of states i = Some (state_value READY)) (task_ids candidate);
          kept = filter (\<lambda>(i, _). i \<in> set ready \<and> i \<notin> set affected) (rs_task_ready_since st);
          ages = assign_ages ready (rs_scheduler_sequence st, kept)
      in st\<lparr>rs_task_states := states, rs_active_task_ids := [],
           rs_graph_version := pl_graph_version candidate,
           rs_execution_strategy := pl_execution_strategy candidate,
           rs_max_parallel_workers := pl_max_parallel_workers candidate,
           rs_computer_use_slots := pl_computer_use_slots candidate,
           rs_task_attempts := counters_of candidate (rs_task_attempts st),
           rs_task_revisions := counters_of candidate (rs_task_revisions st),
           rs_task_retry_at := filter (\<lambda>(i, _). map_of states i = Some (state_value RETRY_WAIT))
             (rs_task_retry_at st),
           rs_task_ready_since := snd ages, rs_scheduler_sequence := fst ages,
           rs_active_plan_change_id := None,
           rs_status := (if ready \<noteq> [] then ''READY'' else ''WAITING''),
           rs_phase := ''PLAN_CHANGE_APPLIED''\<rparr>)"

definition close_record :: "int \<Rightarrow> string \<Rightarrow> pyval dict \<Rightarrow> pyval dict" where
  "close_record n completed record =
     AList.update ''completed_at'' (PStr completed)
       (AList.update ''applied_graph_version'' (PInt n)
         (AList.update ''status'' (PStr ''APPLIED'') record))"

definition reconcile_plan_change_state ::
  "string \<Rightarrow> plan \<Rightarrow> plan \<Rightarrow> run_state \<Rightarrow> string \<Rightarrow> string \<Rightarrow> string option \<Rightarrow> run_state result"
where
  "reconcile_plan_change_state now current candidate st request_id requester moment =
     bindE (check_plan_change current candidate st requester) (\<lambda>changed.
     bindE (affected_tasks candidate changed requester) (\<lambda>affected.
     bindE (candidate_states current candidate (rs_task_states st) affected) (\<lambda>states.
     let adopted = adopt_candidate candidate affected states st in
     bindE (active_plan_change adopted (Some request_id)) (\<lambda>(k, record).
     let completed = or_now moment now in
     append_resilience_event now
       (adopted\<lparr>rs_plan_changes := (rs_plan_changes adopted)
          [k := close_record (pl_graph_version candidate) completed record]\<rparr>)
       (''plan_change_applied'', Some completed, Some requester, Some request_id,
        [(''base_graph_version'', PInt (pl_graph_version current)),
         (''graph_version'', PInt (pl_graph_version candidate)),
         (''affected_task_ids'', PStrs (sorted_set affected))])))))"

section \<open>What is affected\<close>

lemma spread_reaches:
  "set frontier \<subseteq> set affected \<Longrightarrow>
   (\<forall>a \<in> set affected - set frontier. set (dependents ts a) \<subseteq> set affected) \<Longrightarrow>
   set (spread ts frontier affected) = (dep_rel ts)\<^sup>* `` set affected"
proof (induction ts frontier affected rule: spread.induct)
  case (1 ts affected)
  have "b \<in> set affected" if "(a, b) \<in> (dep_rel ts)\<^sup>*" "a \<in> set affected" for a b
    using that(1)
  proof (induction rule: rtrancl_induct)
    case base
    show ?case by fact
  next
    case (step b c)
    then show ?case using 1 by (auto simp: dep_rel_dependents)
  qed
  then show ?case by auto
next
  case (2 ts parent frontier affected)
  define new where "new = filter (\<lambda>c. c \<notin> set affected) (remdups (dependents ts parent))"
  have "set (spread ts (rev new @ frontier) (affected @ new)) = (dep_rel ts)\<^sup>* `` set (affected @ new)"
    unfolding new_def using 2(2,3) by (intro 2(1) refl) auto
  moreover have "(dep_rel ts)\<^sup>* `` set (affected @ new) = (dep_rel ts)\<^sup>* `` set affected"
  proof -
    have "x \<in> (dep_rel ts)\<^sup>* `` set affected" if "x \<in> set new" for x
    proof -
      have "(parent, x) \<in> dep_rel ts" using that by (simp add: new_def dep_rel_dependents)
      then show ?thesis using 2(2) by auto
    qed
    then show ?thesis by (auto intro: rtrancl_trans)
  qed
  ultimately show ?case by (simp add: new_def Let_def)
qed

lemma affected_tasks_Inr:
  assumes "unknown_dependencies (pl_tasks candidate) = []"
  obtains affected where "affected_tasks candidate changed requester = Inr affected"
    "set affected = (dep_rel (pl_tasks candidate))\<^sup>* `` insert requester (set changed)"
  using assms spread_reaches [of "remdups (changed @ [requester])" "remdups (changed @ [requester])"]
  by (simp add: affected_tasks_def Let_def)

section \<open>What the guards leave\<close>

definition only_lead :: "task \<Rightarrow> task \<Rightarrow> bool" where
  "only_lead before after \<longleftrightarrow> with_lead before (lead_of after) = after"

lemma only_lead_fields:
  "only_lead before after \<Longrightarrow> t_depends_on after = t_depends_on before"
  unfolding only_lead_def with_lead_def by (cases before, cases after) simp

lemma compare_task_cases:
  assumes "compare_task current candidate states requester (i, before) = Inr b"
  obtains after s where "task_map candidate i = Some after" "state_of states i = Some s"
    "b \<Longrightarrow> i = requester \<or> s \<in> {WAITING, READY, BLOCKED}"
    "\<not> b \<Longrightarrow> only_lead before after" "s = VERIFIED \<Longrightarrow> after = before \<and> \<not> b"
  using assms
  by (auto simp: compare_task_def only_lead_def names_only_its_lead_def with_lead_def lead_of_def
      state_of_Some ts.read_iff Let_def split: option.splits if_splits)

lemma guards_facts:
  assumes ok: "plan_ok current" "plan_ok candidate" and c: "check_plan_change current candidate st requester = Inr changed"
  shows "set (task_ids current) \<subseteq> set (task_ids candidate)" "requester \<in> set (task_ids candidate)"
    and "set changed \<subseteq> set (task_ids current)"
    and "t \<in> set (pl_tasks current) \<Longrightarrow> \<exists>after s. after \<in> set (pl_tasks candidate) \<and> t_id after = t_id t
      \<and> state_of (rs_task_states st) (t_id t) = Some s
      \<and> (t_id t \<in> set changed \<longrightarrow> t_id t = requester \<or> s \<in> {WAITING, READY, BLOCKED})
      \<and> (t_id t \<notin> set changed \<longrightarrow> only_lead t after)
      \<and> (s = VERIFIED \<longrightarrow> after = t \<and> t_id t \<notin> set changed)"
proof -
  let ?f = "compare_task current candidate (rs_task_states st) requester"
  let ?es = "map (\<lambda>t. (t_id t, t)) (pl_tasks current)"
  have d: "distinct (keys ?es)" using ok(1) by (simp add: plan_ok_def comp_def)
  then have "dict_of ?es = ?es" by (rule dict_of_distinct)
  with c obtain entries where e: "filterE ?f ?es = Inr entries" "changed = keys entries"
    and r: "filter (\<lambda>i. i \<notin> set (task_ids candidate)) (task_ids current) = []" "requester \<in> set (task_ids candidate)"
    unfolding check_plan_change_def Let_def by (auto split: if_splits simp del: set_map)
  show "set (task_ids current) \<subseteq> set (task_ids candidate)" using r(1) unfolding filter_empty_conv by blast
  show "requester \<in> set (task_ids candidate)" by fact
  note s = filterE_set [OF e(1)]
  show "set changed \<subseteq> set (task_ids current)" unfolding e(2) using s by auto
  assume t: "t \<in> set (pl_tasks current)"
  then obtain b where b: "?f (t_id t, t) = Inr b" using filterE_Inr_all [OF e(1)] by fastforce
  have ch: "t_id t \<in> set changed \<longleftrightarrow> b"
  proof
    assume "t_id t \<in> set changed"
    then obtain u where u: "(t_id t, u) \<in> set entries" unfolding e(2) by auto
    then have "u \<in> set (pl_tasks current)" "t_id u = t_id t" "?f (t_id t, u) = Inr True" using s by auto
    moreover have "u = t" using ok(1) t calculation(1,2) task_map_distinct
      by (metis option.inject plan_ok_def)
    ultimately show b using b by simp
  next
    assume b
    then have "(t_id t, t) \<in> set entries" using s t \<open>?f (t_id t, t) = Inr b\<close> by auto
    then show "t_id t \<in> set changed" unfolding e(2) by force
  qed
  obtain after s where "task_map candidate (t_id t) = Some after" "state_of (rs_task_states st) (t_id t) = Some s"
    "b \<Longrightarrow> t_id t = requester \<or> s \<in> {WAITING, READY, BLOCKED}"
    "\<not> b \<Longrightarrow> only_lead t after" "s = VERIFIED \<Longrightarrow> after = t \<and> \<not> b"
    using compare_task_cases [OF b] by blast
  then show "\<exists>after s. after \<in> set (pl_tasks candidate) \<and> t_id after = t_id t
      \<and> state_of (rs_task_states st) (t_id t) = Some s
      \<and> (t_id t \<in> set changed \<longrightarrow> t_id t = requester \<or> s \<in> {WAITING, READY, BLOCKED})
      \<and> (t_id t \<notin> set changed \<longrightarrow> only_lead t after)
      \<and> (s = VERIFIED \<longrightarrow> after = t \<and> t_id t \<notin> set changed)"
    using task_map_SomeD unfolding ch by metis
qed

lemma candidate_task:
  assumes "plan_ok candidate" "after \<in> set (pl_tasks candidate)" "(y, t_id after) \<in> dep_rel (pl_tasks candidate)"
  shows "y \<in> set (t_depends_on after)"
proof -
  obtain u where u: "u \<in> set (pl_tasks candidate)" "t_id u = t_id after" "y \<in> set (t_depends_on u)"
    using assms(3) by (auto simp: dep_rel_def)
  then have "u = after" using assms(1,2) plan_okD(1) by (metis option.inject)
  with u show ?thesis by simp
qed

text \<open>The setting of the following lemmas: an admissible change of a valid state.\<close>

definition admissible :: "plan \<Rightarrow> plan \<Rightarrow> run_state \<Rightarrow> string \<Rightarrow> string list \<Rightarrow> bool" where
  "admissible current candidate st requester changed \<longleftrightarrow>
     good_map current (rs_task_states st) \<and> plan_ok candidate
     \<and> state_of (rs_task_states st) requester \<noteq> Some VERIFIED
     \<and> check_plan_change current candidate st requester = Inr changed"

abbreviation reached :: "plan \<Rightarrow> string list \<Rightarrow> string \<Rightarrow> string set" where
  "reached candidate changed requester \<equiv> (dep_rel (pl_tasks candidate))\<^sup>* `` insert requester (set changed)"

lemma admissibleD:
  assumes "admissible current candidate st requester changed"
  shows "plan_ok current" "plan_ok candidate" "distinct (keys (rs_task_states st))"
    "valid_map current (rs_task_states st)"
    "state_of (rs_task_states st) requester \<noteq> Some VERIFIED"
    "check_plan_change current candidate st requester = Inr changed"
  using assms by (simp_all add: admissible_def good_map_def)

lemma verified_not_reached:
  assumes a: "admissible current candidate st requester changed"
    and x: "x \<in> reached candidate changed requester"
  shows "state_of (rs_task_states st) x \<noteq> Some VERIFIED"
proof -
  note A = admissibleD [OF a]
  note G = guards_facts [OF A(1,2,6)]
  have known: "\<exists>t \<in> set (pl_tasks current). t_id t = z" if "state_of (rs_task_states st) z = Some s" for z s
  proof -
    have "z \<in> set (keys (rs_task_states st))" using that unfolding state_of_Some by (rule map_of_keys)
    then show ?thesis using A(4) unfolding valid_map_def by auto
  qed
  from x obtain b where b: "(b, x) \<in> (dep_rel (pl_tasks candidate))\<^sup>*" "b \<in> insert requester (set changed)" by blast
  from b(1) show ?thesis
  proof (induction rule: rtrancl_induct)
    case base
    show ?case
    proof
      assume v: "state_of (rs_task_states st) b = Some VERIFIED"
      then obtain t where t: "t \<in> set (pl_tasks current)" "t_id t = b" using known by blast
      then have "b \<notin> set changed" using G(4) [OF t(1)] v by auto
      then show False using b(2) v A(5) by auto
    qed
  next
    case (step y z)
    show ?case
    proof
      assume v: "state_of (rs_task_states st) z = Some VERIFIED"
      then obtain t where t: "t \<in> set (pl_tasks current)" "t_id t = z" using known by blast
      then have "t \<in> set (pl_tasks candidate)" using G(4) [OF t(1)] v by auto
      then have "y \<in> set (t_depends_on t)" using candidate_task A(2) step(2) t(2) by blast
      then have "state_of (rs_task_states st) y = Some VERIFIED"
        using valid_mapD(2) [OF A(4) t(1), of VERIFIED y] v t(2) by (simp add: advanced_def)
      with step.IH show False by simp
    qed
  qed
qed

lemma kept_dependencies:
  assumes a: "admissible current candidate st requester changed"
    and t: "t \<in> set (pl_tasks current)" "t_id t \<notin> set changed"
    and s: "state_of (rs_task_states st) (t_id t) = Some s" "advanced s"
    and u: "u \<in> set (pl_tasks candidate)" "t_id u = t_id t" and d: "d \<in> set (t_depends_on u)"
  shows "state_of (rs_task_states st) d = Some VERIFIED"
proof -
  note A = admissibleD [OF a]
  obtain after where "after \<in> set (pl_tasks candidate)" "t_id after = t_id t" "only_lead t after"
    using guards_facts(4) [OF A(1,2,6) t(1)] t(2) by blast
  moreover have "after = u" using A(2) u calculation(1,2) plan_okD(1) by (metis option.inject)
  ultimately have "d \<in> set (t_depends_on t)" using d only_lead_fields by metis
  then show ?thesis using valid_mapD(2) [OF A(4) t(1) s] by blast
qed

lemma advanced_not_reached:
  assumes a: "admissible current candidate st requester changed"
    and t: "t \<in> set (pl_tasks current)" "t_id t \<noteq> requester"
    and s: "state_of (rs_task_states st) (t_id t) = Some s" "advanced s" "s \<noteq> READY"
  shows "t_id t \<notin> reached candidate changed requester"
proof
  assume r: "t_id t \<in> reached candidate changed requester"
  note A = admissibleD [OF a]
  note G = guards_facts(4) [OF A(1,2,6) t(1)]
  have nc: "t_id t \<notin> set changed" using G s t(2) by (auto simp: advanced_def)
  from r obtain b where "(b, t_id t) \<in> (dep_rel (pl_tasks candidate))\<^sup>*" "b \<in> insert requester (set changed)" by blast
  with nc t(2) obtain y where y: "y \<in> reached candidate changed requester" "(y, t_id t) \<in> dep_rel (pl_tasks candidate)"
    by (metis ImageI insertE rtranclE)
  obtain after where after: "after \<in> set (pl_tasks candidate)" "t_id after = t_id t" using G by blast
  then have "y \<in> set (t_depends_on after)" using candidate_task [OF A(2) after(1)] y(2) by simp
  then have "state_of (rs_task_states st) y = Some VERIFIED"
    using kept_dependencies [OF a t(1) nc s(1,2) after] by blast
  with verified_not_reached [OF a y(1)] show False by simp
qed

section \<open>The candidate's state map\<close>

definition base_state :: "plan \<Rightarrow> string dict \<Rightarrow> string set \<Rightarrow> string \<Rightarrow> task_state option" where
  "base_state current states reach i =
     (if i \<notin> set (task_ids current) \<or> i \<in> reach then Some WAITING else state_of states i)"

lemma carried_valid:
  assumes a: "admissible current candidate st requester changed"
    and aff: "set affected = reached candidate changed requester"
  shows "\<exists>carried. mapE (carried_state current (rs_task_states st) affected) (task_ids candidate) = Inr carried
    \<and> good_map candidate (dict_of carried)
    \<and> (\<forall>i \<in> set (task_ids candidate). state_of (dict_of carried) i
        = base_state current (rs_task_states st) (set affected) i)"
proof -
  note A = admissibleD [OF a]
  let ?st = "rs_task_states st"
  let ?base = "base_state current ?st (set affected)"
  let ?c = "\<lambda>i. state_value (the (?base i))"
  have some: "\<exists>s. ?base i = Some s" for i
    using valid_map_covers [OF A(4)] by (simp add: base_state_def)
  have "carried_state current ?st affected i = Inr (i, ?c i)" for i
  proof (cases "i \<notin> set (task_ids current) \<or> i \<in> set affected")
    case True
    then show ?thesis by (simp add: carried_state_def base_state_def del: set_map)
  next
    case False
    then obtain s where s: "state_of ?st i = Some s" using valid_map_covers [OF A(4)] by blast
    then have "map_of ?st i = Some (state_value s)" by (simp add: state_of_Some)
    with s False show ?thesis
      by (simp add: carried_state_def base_state_def subscript_def del: set_map)
  qed
  then have m: "mapE (carried_state current ?st affected) (task_ids candidate)
      = Inr (map (\<lambda>i. (i, ?c i)) (task_ids candidate))"
    using mapE_map [of "task_ids candidate" "carried_state current ?st affected" "\<lambda>i. i"] by simp
  let ?d = "map (\<lambda>i. (i, ?c i)) (task_ids candidate)"
  have d: "distinct (keys ?d)" using A(2) by (simp add: plan_ok_def comp_def)
  then have dd: "dict_of ?d = ?d" by (rule dict_of_distinct)
  have look: "state_of ?d i = ?base i" if "i \<in> set (task_ids candidate)" for i
  proof -
    have "map_of ?d i = Some (?c i)" using that by (intro map_of_is_SomeI [OF d]) auto
    then show ?thesis using some [of i] by (auto simp: state_of_Some)
  qed
  have "valid_map candidate ?d"
    unfolding valid_map_def
  proof (intro conjI ballI allI impI)
    show "set (keys ?d) = set (task_ids candidate)" by (simp add: comp_def)
    show "\<exists>s. state_of ?d i = Some s" if "i \<in> set (task_ids candidate)" for i
      using look [OF that] some by simp
    fix u s x assume u: "u \<in> set (pl_tasks candidate)" "state_of ?d (t_id u) = Some s" "advanced s"
      and x: "x \<in> set (t_depends_on u)"
    have "?base (t_id u) = Some s" using look u(1,2) by simp
    with u(3) have b: "t_id u \<in> set (task_ids current)" "t_id u \<notin> set affected" "state_of ?st (t_id u) = Some s"
      by (auto simp: base_state_def advanced_def simp del: set_map split: if_splits)
    then obtain t where t: "t \<in> set (pl_tasks current)" "t_id t = t_id u" by auto
    have "t_id t \<notin> set changed" using b(2) t(2) unfolding aff by auto
    then have v: "state_of ?st x = Some VERIFIED"
      using kept_dependencies [OF a t(1)] b(3) t(2) u(1,3) x by simp
    then have nr: "x \<notin> set affected" using verified_not_reached [OF a] unfolding aff by blast
    have "x \<in> set (keys ?st)" using v unfolding state_of_Some by (rule map_of_keys)
    then have "x \<in> set (task_ids current)" using A(4) by (simp add: valid_map_def del: set_map)
    moreover have "x \<in> set (task_ids candidate)" using plan_okD(2) [OF A(2) u(1)] x by blast
    ultimately show "state_of ?d x = Some VERIFIED" using look v nr by (simp add: base_state_def del: set_map)
  qed
  then have "good_map candidate ?d" using A(2) d by (simp add: good_map_def)
  with m dd look show ?thesis by (intro exI [of _ ?d]) (simp del: set_map)
qed

definition opens :: "plan \<Rightarrow> string dict \<Rightarrow> string \<Rightarrow> bool" where
  "opens p states i \<longleftrightarrow> state_of states i = Some WAITING
     \<and> (\<forall>d \<in> set (deps_of (pl_tasks p) i). state_of states d = Some VERIFIED)"

lemma promote_Inr:
  assumes g: "good_map p states" and i: "i \<in> set (task_ids p)"
  defines "states' \<equiv> if opens p states i then AList.update i (state_value READY) states else states"
  shows "promote p states i = Inr states' \<and> good_map p states'"
proof -
  have G: "plan_ok p" "distinct (keys states)" "valid_map p states" using g by (simp_all add: good_map_def)
  obtain t where t: "t \<in> set (pl_tasks p)" "t_id t = i" using i by auto
  obtain s where s: "state_of states i = Some s" using valid_map_covers [OF G(3) i] by blast
  have deps: "deps_of (pl_tasks p) i = t_depends_on t"
    using deps_of_distinct [of "pl_tasks p" t] G(1) t by (simp add: plan_ok_def)
  have "dependencies_eligible p i states
      = Inr (\<forall>d \<in> set (t_depends_on t). state_of states d = Some VERIFIED)"
    using unmet_dependencies_total [OF G(1) t(1)] valid_map_covers [OF G(3)] t(2)
    by (auto simp: dependencies_eligible_def filter_empty_conv)
  then have "promote p states i = Inr states'"
    using s by (auto simp: promote_def states'_def opens_def deps subscript_def state_of_Some)
  moreover have "good_map p states'"
  proof (cases "opens p states i")
    case True
    then have "valid_map p (AList.update (t_id t) (state_value READY) states)"
      using valid_map_update [OF G(1,3) t(1), of WAITING READY] t(2) by (simp add: opens_def deps)
    then show ?thesis using True G distinct_update [OF G(2)] t(2) by (simp add: states'_def good_map_def)
  qed (use g in \<open>simp add: states'_def\<close>)
  ultimately show ?thesis ..
qed

lemma promote_run:
  assumes "good_map p states" "set is \<subseteq> set (task_ids p)"
  shows "\<exists>states'. run_ops (promote p) states is = Inr states' \<and> good_map p states'
    \<and> (\<forall>j. state_of states' j = (if j \<in> set is \<and> opens p states j then Some READY else state_of states j))"
  using assms
proof (induction "is" arbitrary: states)
  case Nil
  then show ?case by simp
next
  case (Cons i "is")
  define mid where "mid = (if opens p states i then AList.update i (state_value READY) states else states)"
  have m: "promote p states i = Inr mid" "good_map p mid"
    using promote_Inr [OF Cons.prems(1), of i] Cons.prems(2) by (simp_all add: mid_def)
  have st: "state_of mid j = (if j = i \<and> opens p states i then Some READY else state_of states j)" for j
    by (simp add: mid_def)
  have verified: "state_of mid d = Some VERIFIED \<longleftrightarrow> state_of states d = Some VERIFIED" for d
    using st [of d] by (auto simp: opens_def)
  have op: "opens p mid j \<longleftrightarrow> opens p states j \<and> j \<noteq> i" if "i \<noteq> j \<or> opens p states i" for j
    using that st [of j] verified by (auto simp: opens_def)
  obtain states' where "run_ops (promote p) mid is = Inr states'" "good_map p states'"
    "\<forall>j. state_of states' j = (if j \<in> set is \<and> opens p mid j then Some READY else state_of mid j)"
    using Cons.IH [OF m(2)] Cons.prems(2) by auto
  moreover have "(if j \<in> set is \<and> opens p mid j then Some READY else state_of mid j)
      = (if j \<in> set (i # is) \<and> opens p states j then Some READY else state_of states j)" for j
  proof (cases "i \<noteq> j \<or> opens p states i")
    case True
    then show ?thesis using op [OF True] st [of j] by auto
  next
    case False
    then have "mid = states" "j = i" by (auto simp: mid_def)
    with False show ?thesis by auto
  qed
  ultimately show ?case using m(1) by auto
qed

text \<open>
  The reference: what is not reached by the change keeps its state, the rest starts
  over, and what waits for nothing is READY.
\<close>

definition next_state :: "plan \<Rightarrow> plan \<Rightarrow> string dict \<Rightarrow> string set \<Rightarrow> string \<Rightarrow> task_state option" where
  "next_state current candidate states reach i =
     (if base_state current states reach i = Some WAITING
         \<and> (\<forall>d \<in> set (deps_of (pl_tasks candidate) i). base_state current states reach d = Some VERIFIED)
      then Some READY else base_state current states reach i)"

lemma candidate_states_Inr:
  assumes a: "admissible current candidate st requester changed"
    and aff: "set affected = reached candidate changed requester"
    and acyclic: "acyclic (dep_rel (pl_tasks candidate))"
  shows "\<exists>states. candidate_states current candidate (rs_task_states st) affected = Inr states
    \<and> good_map candidate states
    \<and> (\<forall>i \<in> set (task_ids candidate). state_of states i
        = next_state current candidate (rs_task_states st) (set affected) i)"
proof -
  note A = admissibleD [OF a]
  let ?base = "base_state current (rs_task_states st) (set affected)"
  obtain carried where c: "mapE (carried_state current (rs_task_states st) affected) (task_ids candidate) = Inr carried"
    "good_map candidate (dict_of carried)" "\<forall>i \<in> set (task_ids candidate). state_of (dict_of carried) i = ?base i"
    using carried_valid [OF a aff] by blast
  have d: "distinct (map t_id (pl_tasks candidate))" "unknown_dependencies (pl_tasks candidate) = []"
    using A(2) by (simp_all add: plan_ok_def)
  obtain order where o: "topological_order (pl_tasks candidate) = Inr order"
    using topological_order_total [OF d(1) acyclic d(2)] by blast
  then have so: "set order = set (task_ids candidate)"
    using topological_order_sound [OF d(1) o] by (simp add: dependency_order_def)
  then obtain states where s: "run_ops (promote candidate) (dict_of carried) order = Inr states"
    "good_map candidate states"
    "\<forall>j. state_of states j = (if j \<in> set order \<and> opens candidate (dict_of carried) j then Some READY
        else state_of (dict_of carried) j)"
    using promote_run [OF c(2), of order] by blast
  have "state_of states i = next_state current candidate (rs_task_states st) (set affected) i"
    if i: "i \<in> set (task_ids candidate)" for i
  proof -
    have "set (deps_of (pl_tasks candidate) i) \<subseteq> set (task_ids candidate)"
      using i plan_okD(2) [OF A(2)] deps_of_distinct [OF d(1)] by force
    then have "opens candidate (dict_of carried) i \<longleftrightarrow> ?base i = Some WAITING
        \<and> (\<forall>d \<in> set (deps_of (pl_tasks candidate) i). ?base d = Some VERIFIED)"
      using c(3) i unfolding opens_def by (metis subsetD)
    then show ?thesis using s(3) c(3) so i by (simp add: next_state_def del: set_map)
  qed
  moreover have "validate_task_states candidate states True = Inr states"
    using s(2) validate_task_states_Inr by (simp add: good_map_def)
  ultimately show ?thesis using c(1) o s(1,2) by (intro exI [of _ states]) (simp add: candidate_states_def del: set_map)
qed

section \<open>The reconciled state\<close>

lemma adopt_candidate_fields [simp]:
  "rs_task_states (adopt_candidate c aff states st) = states"
  "rs_plan_changes (adopt_candidate c aff states st) = rs_plan_changes st"
  "rs_active_plan_change_id (adopt_candidate c aff states st) = None"
  "rs_graph_version (adopt_candidate c aff states st) = pl_graph_version c"
  "rs_task_attempts (adopt_candidate c aff states st) = counters_of c (rs_task_attempts st)"
  "rs_task_revisions (adopt_candidate c aff states st) = counters_of c (rs_task_revisions st)"
  by (simp_all add: adopt_candidate_def Let_def)

lemma counters_kept:
  "i \<in> set (task_ids p) \<Longrightarrow> lookup_or (counters_of p c) i 0 = lookup_or c i 0"
proof -
  assume i: "i \<in> set (task_ids p)"
  have "map_of (map (\<lambda>i. (i, lookup_or c i 0)) is) j = (if j \<in> set is then Some (lookup_or c j 0) else None)"
    for "is" j by (induction "is") auto
  from this [of "rev (task_ids p)" i] have "map_of (counters_of p c) i = Some (lookup_or c i 0)"
    using i unfolding counters_of_def map_of_dict_of by (simp add: rev_map comp_def)
  then show ?thesis by (simp add: lookup_or_def)
qed

lemma same_plan_change:
  "request_id \<noteq> [] \<Longrightarrow> active_plan_change (adopt_candidate c aff states st) (Some request_id)
    = active_plan_change st (Some request_id)"
  by (simp add: active_plan_change_def)

lemma active_plan_change_index: "active_plan_change st r = Inr (k, record) \<Longrightarrow> k < length (rs_plan_changes st)"
proof -
  assume "active_plan_change st r = Inr (k, record)"
  then obtain P where "filter P (enumerate 0 (rs_plan_changes st)) = [(k, record)]"
    unfolding active_plan_change_def Let_def by (auto split: list.splits)
  then have "(k, record) \<in> set (enumerate 0 (rs_plan_changes st))" by (metis filter_is_subset list.set_intros(1) subsetD)
  then show ?thesis by (simp add: in_set_enumerate_eq)
qed

lemma plan_change_event_logged:
  "append_resilience_event now st (''plan_change_applied'', rest) = Inr (journal_event now st (''plan_change_applied'', rest))"
proof -
  have "squeeze ''plan_change_applied'' \<noteq> [] \<and> length (squeeze ''plan_change_applied'') \<le> 128" by code_simp
  then show ?thesis by (simp add: append_resilience_event_Inr)
qed

lemma journal_event_fields [simp]:
  "rs_task_states (journal_event now st e) = rs_task_states st"
  "rs_plan_changes (journal_event now st e) = rs_plan_changes st"
  "rs_active_plan_change_id (journal_event now st e) = rs_active_plan_change_id st"
  "rs_graph_version (journal_event now st e) = rs_graph_version st"
  "rs_task_attempts (journal_event now st e) = rs_task_attempts st"
  "rs_task_revisions (journal_event now st e) = rs_task_revisions st"
  by (simp_all add: journal_event_def Let_def)

lemma plan_change_Inr:
  assumes "reconcile_plan_change_state now current candidate st request_id requester moment = Inr st'"
  obtains changed affected where "check_plan_change current candidate st requester = Inr changed"
    "affected_tasks candidate changed requester = Inr affected"
    "candidate_states current candidate (rs_task_states st) affected = Inr (rs_task_states st')"
    "rs_task_attempts st' = counters_of candidate (rs_task_attempts st)"
    "rs_task_revisions st' = counters_of candidate (rs_task_revisions st)"
proof -
  from assms obtain changed affected states k entry where
    "check_plan_change current candidate st requester = Inr changed"
    "affected_tasks candidate changed requester = Inr affected"
    "candidate_states current candidate (rs_task_states st) affected = Inr states"
    "active_plan_change (adopt_candidate candidate affected states st) (Some request_id) = Inr (k, entry)"
    and e: "append_resilience_event now
       ((adopt_candidate candidate affected states st)\<lparr>rs_plan_changes := (rs_plan_changes st)
          [k := close_record (pl_graph_version candidate) (or_now moment now) entry]\<rparr>)
       (''plan_change_applied'', Some (or_now moment now), Some requester, Some request_id,
        [(''base_graph_version'', PInt (pl_graph_version current)),
         (''graph_version'', PInt (pl_graph_version candidate)),
         (''affected_task_ids'', PStrs (sorted_set affected))]) = Inr st'"
    unfolding reconcile_plan_change_state_def Let_def by (auto split: prod.splits)
  moreover have "rs_task_states st' = states" "rs_task_attempts st' = counters_of candidate (rs_task_attempts st)"
    "rs_task_revisions st' = counters_of candidate (rs_task_revisions st)"
    using e unfolding plan_change_event_logged by auto
  ultimately show ?thesis using that by simp
qed

lemma plan_change_admitted:
  assumes "good_map current (rs_task_states st)" "plan_ok candidate"
    and "state_of (rs_task_states st) requester \<noteq> Some VERIFIED"
    and "check_plan_change current candidate st requester = Inr changed"
  shows "admissible current candidate st requester changed"
  using assms by (simp add: admissible_def)

section \<open>The properties\<close>

text \<open>
  C29. An admissible change is applied, and the result is the one the specification asks
  for: a task reached from the requester or a changed task starts over, every other task keeps
  its state, a waiting task whose prerequisites are VERIFIED becomes READY; the final
  validation cannot refuse it, and the change is closed.
\<close>

theorem plan_change_applied:
  assumes "good_map current (rs_task_states st)" "plan_ok candidate" "acyclic (dep_rel (pl_tasks candidate))"
    and "state_of (rs_task_states st) requester \<noteq> Some VERIFIED"
    and "check_plan_change current candidate st requester = Inr changed"
    and "request_id \<noteq> []" "active_plan_change st (Some request_id) = Inr (k, entry)"
  shows "\<exists>st'. reconcile_plan_change_state now current candidate st request_id requester moment = Inr st'
    \<and> good_map candidate (rs_task_states st')
    \<and> (\<forall>i \<in> set (task_ids candidate). state_of (rs_task_states st') i
        = next_state current candidate (rs_task_states st) (reached candidate changed requester) i)
    \<and> rs_graph_version st' = pl_graph_version candidate \<and> rs_active_plan_change_id st' = None
    \<and> get (rs_plan_changes st' ! k) ''status'' = PStr ''APPLIED''"
proof -
  note a = plan_change_admitted [OF assms(1,2,4,5)]
  obtain affected where aff: "affected_tasks candidate changed requester = Inr affected"
    "set affected = reached candidate changed requester"
    using affected_tasks_Inr assms(2) unfolding plan_ok_def by blast
  obtain states where s: "candidate_states current candidate (rs_task_states st) affected = Inr states"
    "good_map candidate states" "\<forall>i \<in> set (task_ids candidate). state_of states i
        = next_state current candidate (rs_task_states st) (set affected) i"
    using candidate_states_Inr [OF a aff(2) assms(3)] by blast
  let ?closed = "(adopt_candidate candidate affected states st)\<lparr>rs_plan_changes := (rs_plan_changes st)
          [k := close_record (pl_graph_version candidate) (or_now moment now) entry]\<rparr>"
  have "reconcile_plan_change_state now current candidate st request_id requester moment
    = Inr (journal_event now ?closed (''plan_change_applied'', Some (or_now moment now), Some requester,
        Some request_id, [(''base_graph_version'', PInt (pl_graph_version current)),
         (''graph_version'', PInt (pl_graph_version candidate)),
         (''affected_task_ids'', PStrs (sorted_set affected))]))"
    using assms(5) aff(1) s(1) assms(7) same_plan_change [OF assms(6)]
    by (simp add: reconcile_plan_change_state_def Let_def plan_change_event_logged)
  moreover have "get ((rs_plan_changes st)[k := close_record n c entry] ! k) ''status'' = PStr ''APPLIED''" for n c
    using active_plan_change_index [OF assms(7)] by (simp add: close_record_def get_def)
  ultimately show ?thesis using s(2,3) aff(2) by simp
qed

text \<open>
  C30. No accepted plan change costs or invents finished work: a VERIFIED task stays VERIFIED
  with an unchanged contract, every other task in progress but the requester keeps its state
  and at most gains a lead, no task becomes VERIFIED, and the counters
  of attempts and revisions survive.
\<close>

theorem plan_change_keeps_work:
  assumes "good_map current (rs_task_states st)" "plan_ok candidate"
    and "state_of (rs_task_states st) requester \<noteq> Some VERIFIED"
    and "reconcile_plan_change_state now current candidate st request_id requester moment = Inr st'"
    and "t \<in> set (pl_tasks current)" "state_of (rs_task_states st) (t_id t) = Some s"
  shows "(s = VERIFIED \<longrightarrow> t \<in> set (pl_tasks candidate))
    \<and> (t_id t \<noteq> requester \<and> advanced s \<and> s \<noteq> READY \<longrightarrow> state_of (rs_task_states st') (t_id t) = Some s
        \<and> (\<exists>after \<in> set (pl_tasks candidate). t_id after = t_id t \<and> only_lead t after))
    \<and> (state_of (rs_task_states st') (t_id t) = Some VERIFIED \<longrightarrow> s = VERIFIED)
    \<and> lookup_or (rs_task_attempts st') (t_id t) 0 = lookup_or (rs_task_attempts st) (t_id t) 0
    \<and> lookup_or (rs_task_revisions st') (t_id t) 0 = lookup_or (rs_task_revisions st) (t_id t) 0"
proof -
  obtain changed affected where r: "check_plan_change current candidate st requester = Inr changed"
    "affected_tasks candidate changed requester = Inr affected"
    "candidate_states current candidate (rs_task_states st) affected = Inr (rs_task_states st')"
    "rs_task_attempts st' = counters_of candidate (rs_task_attempts st)"
    "rs_task_revisions st' = counters_of candidate (rs_task_revisions st)"
    using plan_change_Inr [OF assms(4)] .
  note a = plan_change_admitted [OF assms(1,2,3) r(1)]
  note A = admissibleD [OF a]
  note G = guards_facts [OF A(1,2,6)]
  have i: "t_id t \<in> set (task_ids candidate)" "t_id t \<in> set (task_ids current)" using G(1) assms(5) by auto
  have aff: "set affected = reached candidate changed requester"
    using affected_tasks_Inr assms(2) r(2) unfolding plan_ok_def by (metis sum.inject(2))
  obtain order where o: "topological_order (pl_tasks candidate) = Inr order"
    using r(3) unfolding candidate_states_def by auto
  have d: "distinct (map t_id (pl_tasks candidate))" using assms(2) by (simp add: plan_ok_def)
  have "acyclic (dep_rel (pl_tasks candidate))"
    using topological_order_sound [OF d o] deps_first_acyclic [OF d, of order]
    unfolding dependency_order_def by blast
  then have n: "state_of (rs_task_states st') (t_id t)
      = next_state current candidate (rs_task_states st) (set affected) (t_id t)"
    using candidate_states_Inr [OF a aff] r(3) i(1) by auto
  have keep: "state_of (rs_task_states st') (t_id t) = Some s"
    if "t_id t \<noteq> requester" "advanced s" "s \<noteq> READY"
  proof -
    have "t_id t \<notin> set affected" using advanced_not_reached [OF a assms(5) that(1) assms(6) that(2,3)] aff by simp
    then show ?thesis using n assms(6) i(2) that(2) by (auto simp: next_state_def base_state_def advanced_def)
  qed
  have lead: "\<exists>after \<in> set (pl_tasks candidate). t_id after = t_id t \<and> only_lead t after"
    if "t_id t \<noteq> requester" "advanced s" "s \<noteq> READY"
    using G(4) [OF assms(5)] assms(6) that by (auto simp: advanced_def)
  have "state_of (rs_task_states st') (t_id t) = Some VERIFIED \<longrightarrow> s = VERIFIED"
    using n assms(6) by (auto simp: next_state_def base_state_def split: if_splits)
  moreover have "s = VERIFIED \<longrightarrow> t \<in> set (pl_tasks candidate)"
    using G(4) [OF assms(5)] assms(6) by auto
  moreover have "lookup_or (rs_task_attempts st') (t_id t) 0 = lookup_or (rs_task_attempts st) (t_id t) 0"
    "lookup_or (rs_task_revisions st') (t_id t) 0 = lookup_or (rs_task_revisions st) (t_id t) 0"
    unfolding r(4,5) by (simp_all only: counters_kept [OF i(1)])
  ultimately show ?thesis using keep lead by blast
qed

section \<open>A change of a running plan\<close>

text \<open>
  Task b of the diamond is running and asks for a prerequisite; the candidate adds task e
  under it.
\<close>

definition running_state :: run_state where
  "running_state = (sample_state diamond_plan [(''d'', ''WAITING''), (''a'', ''VERIFIED''),
     (''b'', ''RUNNING''), (''c'', ''READY'')] [''b''])\<lparr>rs_task_attempts := [(''b'', 2)],
       rs_plan_changes := [[(''id'', PStr ''PC1''), (''status'', PStr ''REPLANNING'')]],
       rs_active_plan_change_id := Some ''PC1''\<rparr>"

definition widened_plan :: plan where
  "widened_plan = (sample_plan [sample_task ''d'' [''b'', ''c''], sample_task ''a'' [],
     sample_task ''e'' [], sample_task ''b'' [''a'', ''e''], sample_task ''c'' [''a'']])\<lparr>pl_graph_version := 2\<rparr>"

definition widening :: "run_state result" where
  "widening = reconcile_plan_change_state ''now'' diamond_plan widened_plan running_state ''PC1'' ''b'' None"

lemma widening_checked:
  "check_plan_change diamond_plan widened_plan running_state ''b'' = Inr [''b'']" "plan_ok widened_plan"
  "plan_ok diamond_plan" "distinct (keys (rs_task_states running_state))"
  "validate_task_states diamond_plan (rs_task_states running_state) True = Inr (rs_task_states running_state)"
  "state_of (rs_task_states running_state) ''b'' = Some RUNNING"
  "state_of (rs_task_states running_state) ''a'' = Some VERIFIED"
  "active_plan_change running_state (Some ''PC1'') = Inr (0, [(''id'', PStr ''PC1''), (''status'', PStr ''REPLANNING'')])"
  by code_simp+

lemma widening_good: "good_map diamond_plan (rs_task_states running_state)"
  using widening_checked validate_task_states_Inr by (simp add: good_map_def)

theorem plan_change_applied_witness:
  "\<exists>st'. widening = Inr st' \<and> good_map widened_plan (rs_task_states st') \<and> rs_graph_version st' = 2"
proof -
  have d: "distinct (map t_id (pl_tasks widened_plan))" using widening_checked(2) by (simp add: plan_ok_def)
  have "topological_order (pl_tasks widened_plan) = Inr [''a'', ''e'', ''b'', ''c'', ''d'']" by code_simp
  from topological_order_sound [OF d this] have "acyclic (dep_rel (pl_tasks widened_plan))"
    using deps_first_acyclic [OF d] unfolding dependency_order_def by blast
  moreover have "state_of (rs_task_states running_state) ''b'' \<noteq> Some VERIFIED" using widening_checked(6) by simp
  moreover have "pl_graph_version widened_plan = 2" by (simp add: widened_plan_def)
  ultimately show ?thesis
    using plan_change_applied [OF widening_good widening_checked(2) _ _ widening_checked(1) _ widening_checked(8),
        of "''now''" None]
    unfolding widening_def by auto
qed

theorem plan_change_keeps_work_witness:
  "\<exists>st'. widening = Inr st' \<and> state_of (rs_task_states st') ''a'' = Some VERIFIED
    \<and> lookup_or (rs_task_attempts st') ''b'' 0 = 2"
proof -
  have "case widening of Inl e \<Rightarrow> False | Inr st' \<Rightarrow> True" by code_simp
  then obtain st' where w: "widening = Inr st'" by (auto split: sum.splits)
  then have r: "reconcile_plan_change_state ''now'' diamond_plan widened_plan running_state ''PC1'' ''b'' None = Inr st'"
    by (simp add: widening_def)
  have t: "sample_task ''a'' [] \<in> set (pl_tasks diamond_plan)" "t_id (sample_task ''a'' []) = ''a''"
    "sample_task ''b'' [''a''] \<in> set (pl_tasks diamond_plan)" "t_id (sample_task ''b'' [''a'']) = ''b''"
    by (simp_all add: diamond_plan_def sample_plan_def diamond_def sample_task_def)
  have nv: "state_of (rs_task_states running_state) ''b'' \<noteq> Some VERIFIED" using widening_checked(6) by simp
  note keeps = plan_change_keeps_work [OF widening_good widening_checked(2) nv r]
  have "state_of (rs_task_states st') ''a'' = Some VERIFIED"
    using keeps [OF t(1), of VERIFIED] widening_checked(7) t(2) by (simp add: advanced_def)
  moreover have "lookup_or (rs_task_attempts running_state) ''b'' 0 = 2" by code_simp
  then have "lookup_or (rs_task_attempts st') ''b'' 0 = 2"
    using keeps [OF t(3), of RUNNING] widening_checked(6) t(4) by simp
  ultimately show ?thesis using w by blast
qed

section \<open>Requests are stored as they are read\<close>

lemma collapsed_text_Inr:
  "collapsed_text v label n = Inr s \<Longrightarrow> collapsed_text (PStr s) label' n = Inr s"
  by (auto simp: collapsed_text_def squeeze_squeeze split: pyval.splits if_splits)

lemma task_identifier_Inr:
  "task_identifier v label = Inr s \<Longrightarrow> is_task_id s \<and> task_identifier (PStr s) label' = Inr s"
  by (auto simp: task_identifier_def collapsed_text_Inr split: if_splits)

lemma evidence_id_texts_Inr:
  assumes "evidence_id_texts v = Inr ids"
  shows "distinct ids" "\<forall>i \<in> set ids. is_evidence_id i" "evidence_id_texts (PStrs ids) = Inr ids"
proof -
  from assms obtain items where i: "v = PList items" "ids = map text_value items" "distinct ids"
    "\<forall>x \<in> set items. case x of PStr s \<Rightarrow> is_evidence_id s | _ \<Rightarrow> False"
    by (auto simp: evidence_id_texts_def Let_def split: pyval.splits if_splits)
  show "distinct ids" by fact
  have "is_evidence_id (text_value x)" if "case x of PStr s \<Rightarrow> is_evidence_id s | _ \<Rightarrow> False" for x
    using that by (cases x) simp_all
  then show e: "\<forall>i \<in> set ids. is_evidence_id i" using i(4) unfolding i(2) by simp
  have "map text_value (map PStr ids) = ids" by (induction ids) simp_all
  then show "evidence_id_texts (PStrs ids) = Inr ids"
    using e i(3) by (simp add: evidence_id_texts_def PStrs_def Let_def)
qed

lemma request_from_raw_Inr:
  assumes "request_from_raw raw = Inr r"
  shows "pc_kind r \<in> set PLAN_CHANGE_REQUEST_KINDS" "is_task_id (pc_target_task_id r)"
    "validate_change_payload (pc_kind r) (pc_change r) = Inr ()"
    "distinct (pc_evidence_ids r)" "\<forall>i \<in> set (pc_evidence_ids r). is_evidence_id i"
    "request_from_raw (plan_change_request_to_dict r) = Inr r"
proof -
  from assms obtain kind target change evidence summary rationale where
    k: "collapsed_text (get raw ''kind'') ''plan change kind'' 8000 = Inr kind" "kind \<in> set PLAN_CHANGE_REQUEST_KINDS"
    and t: "task_identifier (get raw ''target_task_id'') ''target_task_id'' = Inr target"
    and c: "validate_change_payload kind change = Inr ()"
    and e: "evidence_id_texts (get raw ''evidence_ids'') = Inr evidence"
    and s: "collapsed_text (get raw ''summary'') ''plan change summary'' 240 = Inr summary"
      "collapsed_text (get raw ''rationale'') ''plan change rationale'' 4000 = Inr rationale"
    and r: "r = \<lparr>pc_request_version = 1, pc_kind = kind, pc_target_task_id = target,
           pc_summary = summary, pc_rationale = rationale, pc_change = change,
           pc_evidence_ids = evidence\<rparr>"
    unfolding request_from_raw_def by (auto split: if_splits)
  show "pc_kind r \<in> set PLAN_CHANGE_REQUEST_KINDS" using k(2) r by simp
  show "is_task_id (pc_target_task_id r)" using task_identifier_Inr [OF t] r by simp
  show "validate_change_payload (pc_kind r) (pc_change r) = Inr ()" using c r by simp
  show "distinct (pc_evidence_ids r)" "\<forall>i \<in> set (pc_evidence_ids r). is_evidence_id i"
    using evidence_id_texts_Inr [OF e] r by simp_all
  have g: "get (plan_change_request_to_dict r) ''request_version'' = PInt 1"
    "get (plan_change_request_to_dict r) ''kind'' = PStr kind"
    "get (plan_change_request_to_dict r) ''target_task_id'' = PStr target"
    "get (plan_change_request_to_dict r) ''summary'' = PStr summary"
    "get (plan_change_request_to_dict r) ''rationale'' = PStr rationale"
    "get (plan_change_request_to_dict r) ''change'' = PDict change"
    "get (plan_change_request_to_dict r) ''evidence_ids'' = PStrs evidence"
    by (simp_all add: plan_change_request_to_dict_def r get_def)
  have x: "exact_keys (plan_change_request_to_dict r) [''request_version'', ''kind'', ''target_task_id'',
      ''summary'', ''rationale'', ''change'', ''evidence_ids''] ''plan change request'' = Inr ()"
    by (simp add: exact_keys_def plan_change_request_to_dict_def)
  note back_again = collapsed_text_Inr [OF k(1)] task_identifier_Inr [OF t] collapsed_text_Inr [OF s(1)]
    collapsed_text_Inr [OF s(2)] evidence_id_texts_Inr(3) [OF e]
  show "request_from_raw (plan_change_request_to_dict r) = Inr r"
    unfolding request_from_raw_def g x using back_again k(2) c r by (simp add: equals_one_def)
qed



end
