(* ===== verification/CrashReconciliation.thy ===== *)
theory CrashReconciliation
  imports PlanChanges ResourceLocks
begin

text \<open>
  \<^verbatim>\<open>reconcile_running_work\<close> of \<^verbatim>\<open>resilience.py\<close>: after a crash every pending worker
  session is compared with what the App Server says of it. Silence retires nothing; a
  terminal or absent worker has its session retired, its task sent to RETRY_WAIT and its
  lock released. A session is a dictionary of the run state; the code keeps references to it, the
  model its index.
\<close>

section \<open>Pending sessions\<close>

definition AUTHORITATIVE_WORKER_STATES :: "string list" where
  "AUTHORITATIVE_WORKER_STATES = [''active'', ''terminal'', ''absent'', ''unknown'']"

definition PENDING_STATUSES :: "string list" where
  "PENDING_STATUSES = [''RESERVED'', ''CREATE_REQUESTED'', ''RELAYING'', ''CREATED'', ''PREPARING'',
     ''PREPARED'', ''SEND_RELAYING'', ''ACTIVE'', ''AMBIGUOUS'']"

record runtime_reconciliation =
  rr_retried_task_ids :: "string list"
  rr_retained_task_ids :: "string list"
  rr_unresolved_task_ids :: "string list"
  rr_released_lock_ids :: "string list"

definition session_token :: "(pyval \<Rightarrow> string) \<Rightarrow> pyval dict \<Rightarrow> string" where
  "session_token rp d = str_of rp (py_or (get d ''resource_ownership_token'')
     (py_or (get d ''reservation_token'') (PStr [])))"

definition pending_sessions :: "(pyval \<Rightarrow> string) \<Rightarrow> run_state \<Rightarrow> nat dict result" where
  "pending_sessions rp st =
     bindE (filterE (\<lambda>(_, d). in_text_set (get d ''status'') PENDING_STATUSES)
       (enumerate 0 (rs_worker_sessions st))) (\<lambda>entries.
     Inr (dict_of (map (\<lambda>(k, d). (session_token rp d, k)) entries)))"

definition check_observation :: "string \<times> string \<Rightarrow> unit result" where
  "check_observation entry =
     (if fst entry = [] \<or> snd entry \<notin> set AUTHORITATIVE_WORKER_STATES
      then Inl (ValueError ''authoritative worker states contain an invalid entry'' []) else Inr ())"

definition lock_id_entry :: "(pyval \<Rightarrow> string) \<Rightarrow> pyval \<Rightarrow> (string \<times> string) list result" where
  "lock_id_entry rp item = (case item of
     PDict d \<Rightarrow> Inr (case get d ''owner'' of
         PDict owner \<Rightarrow> [(str_of rp (get owner ''ownership_token''), str_of rp (get d ''lock_id''))]
       | _ \<Rightarrow> [])
   | _ \<Rightarrow> Inl (AttributeError ''get''))"

definition lock_ids_by_token :: "(pyval \<Rightarrow> string) \<Rightarrow> run_state \<Rightarrow> string dict result" where
  "lock_ids_by_token rp st =
     bindE (mapE (lock_id_entry rp) (rs_resource_locks st)) (\<lambda>entries. Inr (dict_of (concat entries)))"

section \<open>One session\<close>

definition retire_session :: "nat \<Rightarrow> string \<Rightarrow> run_state \<Rightarrow> run_state" where
  "retire_session k reason st =
     (let d = rs_worker_sessions st ! k in
      st\<lparr>rs_worker_sessions := (rs_worker_sessions st)[k :=
        AList.update ''failure_reason'' (PStr reason) (AList.update ''status'' (PStr ''RETRY_WAIT'') d)]\<rparr>)"

type_synonym crash_state = "run_state \<times> runtime_reconciliation"

definition release_retired ::
  "host \<Rightarrow> string \<Rightarrow> string dict \<Rightarrow> string \<Rightarrow> string \<Rightarrow> crash_state \<Rightarrow> crash_state result"
where
  "release_retired h stamp lock_ids token observed acc = (case acc of (st, r) \<Rightarrow>
     bindE (release_resources_in_state h st token
       (''authoritative crash reconciliation: '' @ observed) stamp) (\<lambda>(st', gone).
     Inr (st', if gone then r\<lparr>rr_released_lock_ids := rr_released_lock_ids r @ [lookup_or lock_ids token token]\<rparr>
               else r)))"

definition retire_task :: "string \<Rightarrow> int \<Rightarrow> run_state \<Rightarrow> run_state" where
  "retire_task i retry_at st = st\<lparr>
     rs_task_states := AList.update i (state_value RETRY_WAIT) (rs_task_states st),
     rs_active_task_ids := filter (\<lambda>j. j \<noteq> i) (rs_active_task_ids st),
     rs_task_retry_at := AList.update i retry_at (rs_task_retry_at st)\<rparr>"

definition retire_worker ::
  "host \<Rightarrow> string dict \<Rightarrow> int \<Rightarrow> string \<Rightarrow> string \<Rightarrow> string \<Rightarrow> nat \<Rightarrow> string \<Rightarrow> crash_state \<Rightarrow> crash_state result"
where
  "retire_worker h lock_ids due stamp observed token k i acc = (case acc of (st, r) \<Rightarrow>
     bindE (subscript (rs_task_states st) i) (\<lambda>v.
     bindE (coerce_task_state v) (\<lambda>s.
     if s \<noteq> RETRY_WAIT \<and> s \<notin> set ACTIVE_TASK_STATES then
       Inl (PlanChangeConflictError ''pending session is not in an active task state'' [i])
     else
       let retry_at = max (lookup_or (rs_task_retry_at st) i 0) due in
       bindE (release_retired h stamp lock_ids token observed
         (retire_session k (''crash reconciliation observed worker '' @ observed) (retire_task i retry_at st), r)) (\<lambda>(st', r').
       bindE (append_resilience_event stamp st' (''worker_crash_reconciled'', Some stamp, Some i, None,
         [(''worker_state'', PStr observed), (''retry_at'', PInt retry_at), (''token'', PStr token)])) (\<lambda>st''.
       Inr (st'', r'\<lparr>rr_retried_task_ids := rr_retried_task_ids r' @ [i]\<rparr>))))))"

definition observed_state :: "string dict \<Rightarrow> string \<Rightarrow> string" where
  "observed_state authoritative token = lookup_or authoritative token ''unknown''"

definition reconcile_session ::
  "host \<Rightarrow> (pyval \<Rightarrow> string) \<Rightarrow> string dict \<Rightarrow> string dict \<Rightarrow> int \<Rightarrow> string \<Rightarrow> crash_state \<Rightarrow> string \<times> nat
    \<Rightarrow> crash_state result"
where
  "reconcile_session h rp authoritative lock_ids due stamp acc entry = (case acc of (st, r) \<Rightarrow>
     case entry of (token, k) \<Rightarrow>
     let session = rs_worker_sessions st ! k; observed = observed_state authoritative token in
     bindE (subscript session ''task_id'') (\<lambda>task.
     let i = str_of rp task in
     if observed = ''active'' then Inr (st, r\<lparr>rr_retained_task_ids := rr_retained_task_ids r @ [i]\<rparr>)
     else if observed = ''unknown'' then
       Inr (st, r\<lparr>rr_unresolved_task_ids := rr_unresolved_task_ids r @ [i]\<rparr>)
     else if str_of rp (py_or (get session ''kind'') (PStr [])) = ''pipeline_engineer'' then
       release_retired h stamp lock_ids token observed
         (retire_session k (''crash reconciliation observed pipeline engineer '' @ observed) st, r)
     else retire_worker h lock_ids due stamp observed token k i (st, r)))"

definition nothing_reconciled :: runtime_reconciliation where
  "nothing_reconciled = \<lparr>rr_retried_task_ids = [], rr_retained_task_ids = [],
     rr_unresolved_task_ids = [], rr_released_lock_ids = []\<rparr>"

definition reconcile_running_work ::
  "host \<Rightarrow> (pyval \<Rightarrow> string) \<Rightarrow> string \<Rightarrow> plan \<Rightarrow> run_state \<Rightarrow> string dict \<Rightarrow> int \<Rightarrow> int \<Rightarrow> string option
    \<Rightarrow> crash_state result"
where
  "reconcile_running_work h rp now p st authoritative now_epoch delay moment =
     bindE (forE check_observation authoritative) (\<lambda>_.
     bindE (pending_sessions rp st) (\<lambda>pending.
     bindE (lock_ids_by_token rp st) (\<lambda>lock_ids.
     bindE (run_ops (reconcile_session h rp authoritative lock_ids (now_epoch + delay) (or_now moment now))
       (st, nothing_reconciled) pending) (\<lambda>(st', r).
     bindE (validate_task_states p (rs_task_states st') True) (\<lambda>_. Inr (st', r))))))"

section \<open>What every step keeps\<close>

lemma release_fields:
  "release_resources_in_state h st token reason now = Inr (st', b) \<Longrightarrow>
   rs_task_states st' = rs_task_states st \<and> rs_active_task_ids st' = rs_active_task_ids st"
  by (auto simp: release_resources_in_state_def append_resource_event_def Let_def split: option.splits)

lemma lock_inv_fields:
  "rs_resource_locks st' = rs_resource_locks st \<Longrightarrow> rs_resource_lock_journal st' = rs_resource_lock_journal st \<Longrightarrow>
   rs_resource_journal_sequence st' = rs_resource_journal_sequence st \<Longrightarrow>
   lock_inv h limit used st' locks = lock_inv h limit used st locks"
  by (simp add: lock_inv_def state_locks_def)

lemma retired_locks [simp]:
  "lock_inv h limit used (retire_session k reason st) locks = lock_inv h limit used st locks"
  "lock_inv h limit used (retire_task i due st) locks = lock_inv h limit used st locks"
  "lock_inv h limit used (journal_event now st e) locks = lock_inv h limit used st locks"
  by (rule lock_inv_fields; simp add: retire_session_def retire_task_def journal_event_def Let_def)+

lemma retired_fields [simp]:
  "rs_task_states (retire_session k reason st) = rs_task_states st"
  "rs_active_task_ids (retire_session k reason st) = rs_active_task_ids st"
  "rs_active_task_ids (journal_event now st e) = rs_active_task_ids st"
  "rs_task_states (retire_task i due st) = AList.update i (state_value RETRY_WAIT) (rs_task_states st)"
  "rs_active_task_ids (retire_task i due st) = filter (\<lambda>j. j \<noteq> i) (rs_active_task_ids st)"
  by (simp_all add: retire_session_def retire_task_def journal_event_def Let_def)

text \<open>A lock no retired worker names.\<close>

definition spared :: "string dict \<Rightarrow> string set \<Rightarrow> resource_lock \<Rightarrow> bool" where
  "spared authoritative toks l \<longleftrightarrow> (\<forall>tok \<in> toks. strip tok = token_of l \<longrightarrow>
     observed_state authoritative tok \<in> {''active'', ''unknown''})"

text \<open>A task either keeps its state or was active and now waits for a retry.\<close>

definition only_retired :: "string dict \<Rightarrow> string dict \<Rightarrow> bool" where
  "only_retired before after \<longleftrightarrow> (\<forall>i. state_of after i = state_of before i
     \<or> state_of after i = Some RETRY_WAIT \<and> (\<exists>s \<in> set ACTIVE_TASK_STATES. state_of before i = Some s))"

definition crash_inv ::
  "host \<Rightarrow> plan \<Rightarrow> int \<Rightarrow> string set \<Rightarrow> run_state \<Rightarrow> resource_lock set \<Rightarrow> crash_state \<Rightarrow> bool"
where
  "crash_inv h p limit used st0 kept acc \<longleftrightarrow> (case acc of (st, r) \<Rightarrow>
     good_map p (rs_task_states st) \<and> only_retired (rs_task_states st0) (rs_task_states st)
     \<and> (\<exists>locks. lock_inv h limit used st locks \<and> kept \<subseteq> set locks)
     \<and> (\<forall>i \<in> set (rr_retried_task_ids r). state_of (rs_task_states st) i = Some RETRY_WAIT
          \<and> i \<notin> set (rs_active_task_ids st)))"

lemma release_retired_inv:
  assumes c: "crash_inv h p limit used st0 kept (st, r)"
    and rel: "release_retired h stamp lock_ids token observed (st, r) = Inr (st', r')"
    and k: "\<forall>l \<in> kept. token_of l \<noteq> strip token"
  shows "crash_inv h p limit used st0 kept (st', r')"
    "rs_task_states st' = rs_task_states st" "rs_active_task_ids st' = rs_active_task_ids st"
proof -
  from rel obtain gone where
    rl: "release_resources_in_state h st token (''authoritative crash reconciliation: '' @ observed) stamp = Inr (st', gone)"
    and r': "rr_retried_task_ids r' = rr_retried_task_ids r"
    unfolding release_retired_def by (auto split: if_splits)
  note f = release_fields [OF rl]
  show "rs_task_states st' = rs_task_states st" "rs_active_task_ids st' = rs_active_task_ids st"
    using f by simp_all
  from c obtain locks where l: "lock_inv h limit used st locks" "kept \<subseteq> set locks"
    unfolding crash_inv_def by auto
  have "lock_inv h limit used st' (filter (\<lambda>l. token_of l \<noteq> strip token) locks)"
    using release_inv [OF l(1) rl] by blast
  moreover have "kept \<subseteq> set (filter (\<lambda>l. token_of l \<noteq> strip token) locks)" using l(2) k by auto
  ultimately have "\<exists>locks. lock_inv h limit used st' locks \<and> kept \<subseteq> set locks" by blast
  then show "crash_inv h p limit used st0 kept (st', r')"
    using c f r' unfolding crash_inv_def prod.case by metis
qed

lemma retry_edge: "s \<in> set ACTIVE_TASK_STATES \<Longrightarrow> RETRY_WAIT \<in> set (TASK_TRANSITIONS s) \<and> advanced s"
  by (auto simp: ACTIVE_TASK_STATES_def advanced_def)

lemma retire_task_inv:
  assumes c: "crash_inv h p limit used st0 kept (st, r)"
    and s: "state_of (rs_task_states st) i = Some s" "s = RETRY_WAIT \<or> s \<in> set ACTIVE_TASK_STATES"
  shows "crash_inv h p limit used st0 kept (retire_session k reason (retire_task i due st), r)"
proof -
  let ?new = "AList.update i (state_value RETRY_WAIT) (rs_task_states st)"
  from c have g: "plan_ok p" "distinct (keys (rs_task_states st))" "valid_map p (rs_task_states st)"
    and o: "only_retired (rs_task_states st0) (rs_task_states st)"
    and r: "\<forall>i \<in> set (rr_retried_task_ids r). state_of (rs_task_states st) i = Some RETRY_WAIT
          \<and> i \<notin> set (rs_active_task_ids st)"
    by (auto simp: crash_inv_def good_map_def)
  have "i \<in> set (keys (rs_task_states st))" using s(1) unfolding state_of_Some by (rule map_of_keys)
  then obtain t where t: "t \<in> set (pl_tasks p)" "t_id t = i" using g(3) unfolding valid_map_def by auto
  have "valid_map p ?new"
  proof (cases "s = RETRY_WAIT")
    case True
    then have "state_of ?new j = state_of (rs_task_states st) j" for j using s(1) by simp
    moreover have "set (keys ?new) = set (keys (rs_task_states st))"
      using \<open>i \<in> set (keys (rs_task_states st))\<close> by (simp add: insert_absorb del: set_map)
    ultimately show ?thesis using g(3) unfolding valid_map_def by (simp del: set_map)
  next
    case False
    then have e: "RETRY_WAIT \<in> set (TASK_TRANSITIONS s)" "advanced s" using s(2) retry_edge by blast+
    then show ?thesis
      using valid_map_update [OF g(1,3) t(1), of s RETRY_WAIT] valid_mapD(2) [OF g(3) t(1), of s] s(1) t(2)
      by simp
  qed
  then have "good_map p ?new" using g distinct_update [OF g(2)] by (simp add: good_map_def)
  moreover have "only_retired (rs_task_states st0) ?new"
    unfolding only_retired_def
  proof
    fix j
    show "state_of ?new j = state_of (rs_task_states st0) j
      \<or> state_of ?new j = Some RETRY_WAIT \<and> (\<exists>s \<in> set ACTIVE_TASK_STATES. state_of (rs_task_states st0) j = Some s)"
      using o s unfolding only_retired_def by (cases "j = i") (force, simp)
  qed
  ultimately show ?thesis using c r unfolding crash_inv_def by auto
qed

lemma reconcile_session_inv:
  assumes c: "crash_inv h p limit used st0 kept acc" and k: "\<forall>l \<in> kept. spared authoritative toks l"
    and tok: "fst entry \<in> toks"
    and step: "reconcile_session h rp authoritative lock_ids due stamp acc entry = Inr acc'"
  shows "crash_inv h p limit used st0 kept acc'"
proof -
  obtain st r token k where e: "acc = (st, r)" "entry = (token, k)" by (cases acc, cases entry)
  let ?o = "observed_state authoritative token"
  from step obtain i where cases: "?o = ''active'' \<and> acc' = (st, r\<lparr>rr_retained_task_ids := rr_retained_task_ids r @ [i]\<rparr>)
    \<or> ?o = ''unknown'' \<and> acc' = (st, r\<lparr>rr_unresolved_task_ids := rr_unresolved_task_ids r @ [i]\<rparr>)
    \<or> ?o \<notin> {''active'', ''unknown''} \<and> release_retired h stamp lock_ids token ?o
         (retire_session k (''crash reconciliation observed pipeline engineer '' @ ?o) st, r) = Inr acc'
    \<or> ?o \<notin> {''active'', ''unknown''} \<and> retire_worker h lock_ids due stamp ?o token k i (st, r) = Inr acc'"
    unfolding reconcile_session_def e Let_def by (auto split: if_splits)
  have free: "\<forall>l \<in> kept. token_of l \<noteq> strip token" if "?o \<notin> {''active'', ''unknown''}"
  proof
    fix l assume "l \<in> kept"
    then have "spared authoritative toks l" using k by blast
    then show "token_of l \<noteq> strip token" using tok that e(2) unfolding spared_def by auto
  qed
  from cases show ?thesis
  proof (elim disjE conjE)
    assume "acc' = (st, r\<lparr>rr_retained_task_ids := rr_retained_task_ids r @ [i]\<rparr>)"
    then show ?thesis using c unfolding e(1) crash_inv_def by simp
  next
    assume "acc' = (st, r\<lparr>rr_unresolved_task_ids := rr_unresolved_task_ids r @ [i]\<rparr>)"
    then show ?thesis using c unfolding e(1) crash_inv_def by simp
  next
    let ?st = "retire_session k (''crash reconciliation observed pipeline engineer '' @ ?o) st"
    assume o: "?o \<notin> {''active'', ''unknown''}" and rel: "release_retired h stamp lock_ids token ?o (?st, r) = Inr acc'"
    have "crash_inv h p limit used st0 kept (?st, r)" using c unfolding e(1) crash_inv_def by simp
    moreover obtain st' r' where "acc' = (st', r')" by (cases acc')
    ultimately show ?thesis using release_retired_inv(1) [OF _ _ free [OF o]] rel by blast
  next
    assume o: "?o \<notin> {''active'', ''unknown''}" and w: "retire_worker h lock_ids due stamp ?o token k i (st, r) = Inr acc'"
    from w obtain s st' r' st'' where s: "map_of (rs_task_states st) i = Some (state_value s)"
      "s = RETRY_WAIT \<or> s \<in> set ACTIVE_TASK_STATES"
      and rel: "release_retired h stamp lock_ids token ?o (retire_session k (''crash reconciliation observed worker '' @ ?o)
          (retire_task i (max (lookup_or (rs_task_retry_at st) i 0) due) st), r) = Inr (st', r')"
      and ev: "append_resilience_event stamp st' (''worker_crash_reconciled'', Some stamp, Some i, None,
         [(''worker_state'', PStr ?o), (''retry_at'', PInt (max (lookup_or (rs_task_retry_at st) i 0) due)),
          (''token'', PStr token)]) = Inr st''"
      and acc': "acc' = (st'', r'\<lparr>rr_retried_task_ids := rr_retried_task_ids r' @ [i]\<rparr>)"
      unfolding retire_worker_def Let_def
      by (auto simp: subscript_Inr ts.read_iff split: if_splits)
    have i1: "crash_inv h p limit used st0 kept (retire_session k (''crash reconciliation observed worker '' @ ?o)
          (retire_task i (max (lookup_or (rs_task_retry_at st) i 0) due) st), r)"
      using retire_task_inv c s unfolding e(1) state_of_Some [symmetric] by blast
    note i2 = release_retired_inv [OF i1 rel free [OF o]]
    have "state_of (rs_task_states st') i = Some RETRY_WAIT" "i \<notin> set (rs_active_task_ids st')"
      using i2(2,3) by simp_all
    then show ?thesis using i2(1) ev unfolding acc' append_resilience_event_Inr crash_inv_def by auto
  qed
qed

lemma reconcile_sessions_inv:
  "crash_inv h p limit used st0 kept acc \<Longrightarrow> \<forall>l \<in> kept. spared authoritative toks l \<Longrightarrow>
   set (keys entries) \<subseteq> toks \<Longrightarrow>
   run_ops (reconcile_session h rp authoritative lock_ids due stamp) acc entries = Inr acc' \<Longrightarrow>
   crash_inv h p limit used st0 kept acc'"
proof (induction entries arbitrary: acc)
  case Nil
  then show ?case by simp
next
  case (Cons e es)
  then obtain mid where m: "reconcile_session h rp authoritative lock_ids due stamp acc e = Inr mid"
    "run_ops (reconcile_session h rp authoritative lock_ids due stamp) mid es = Inr acc'" by auto
  have "fst e \<in> toks" using Cons.prems(3) by simp
  then have "crash_inv h p limit used st0 kept mid"
    using reconcile_session_inv [OF Cons.prems(1,2) _ m(1)] by blast
  then show ?case using Cons.IH Cons.prems(2,3) m(2) by simp
qed

section \<open>The property\<close>

text \<open>
  C32. Crash reconciliation never treats silence as completion: a task keeps its state unless
  it was active, and then it waits for a retry, so nothing advances and the map stays
  valid; every retried task has left the active list; the lock table stays valid against its
  journal, and it still holds every lock that no retired worker names.
\<close>

theorem crash_reconciliation_safe:
  assumes "good_map p (rs_task_states st)" "lock_inv h limit used st locks"
    and "pending_sessions rp st = Inr pending"
    and "reconcile_running_work h rp now p st authoritative now_epoch delay moment = Inr (st', r)"
  shows "good_map p (rs_task_states st') \<and> only_retired (rs_task_states st) (rs_task_states st')
    \<and> (\<forall>i \<in> set (rr_retried_task_ids r). state_of (rs_task_states st') i = Some RETRY_WAIT
         \<and> i \<notin> set (rs_active_task_ids st'))
    \<and> (\<exists>locks'. state_locks h st' = Inr locks'
         \<and> (\<forall>l \<in> set locks. spared authoritative (set (keys pending)) l \<longrightarrow> l \<in> set locks'))"
proof -
  let ?kept = "{l \<in> set locks. spared authoritative (set (keys pending)) l}"
  from assms(3,4) obtain lock_ids where
    run: "run_ops (reconcile_session h rp authoritative lock_ids (now_epoch + delay) (or_now moment now))
       (st, nothing_reconciled) pending = Inr (st', r)"
    unfolding reconcile_running_work_def by (auto simp del: set_map)
  have "crash_inv h p limit used st ?kept (st, nothing_reconciled)"
    using assms(1,2) unfolding crash_inv_def only_retired_def nothing_reconciled_def by auto
  then have "crash_inv h p limit used st ?kept (st', r)"
    by (rule reconcile_sessions_inv [OF _ _ order_refl run]) blast
  then show ?thesis unfolding crash_inv_def lock_inv_def by auto
qed

definition crashed_state :: "run_state \<Rightarrow> run_state" where
  "crashed_state st = st\<lparr>rs_task_states := [(''x'', ''RUNNING''), (''y'', ''READY'')],
     rs_active_task_ids := [''x''],
     rs_worker_sessions := [[(''task_id'', PStr ''x''), (''status'', PStr ''ACTIVE''),
       (''resource_ownership_token'', PStr ''k'')]]\<rparr>"

definition locked_x :: "run_state result" where
  "locked_x = run_ops (lock_step plain_host lock_plan ''/w'') lock_state
     [Acquire ''x'' (sample_owner ''k'' ''x'') None ''now'']"

definition recover_x :: "run_state \<Rightarrow> crash_state result" where
  "recover_x st = reconcile_running_work plain_host (\<lambda>_. []) ''now'' lock_plan (crashed_state st)
     [(''k'', ''terminal'')] 100 60 None"

theorem crash_reconciliation_safe_witness:
  "\<exists>st st' r. locked_x = Inr st \<and> recover_x st = Inr (st', r)
     \<and> state_of (rs_task_states st') ''x'' = Some RETRY_WAIT \<and> ''x'' \<notin> set (rs_active_task_ids st')"
proof -
  have "case locked_x of Inl e \<Rightarrow> False | Inr st \<Rightarrow> (case recover_x st of Inl e \<Rightarrow> False
     | Inr (st', r) \<Rightarrow> rr_retried_task_ids r = [''x''])
     \<and> pending_sessions (\<lambda>_. []) (crashed_state st) = Inr [(''k'', 0)]" by code_simp
  then obtain st st' r where s: "locked_x = Inr st" and w: "recover_x st = Inr (st', r)"
    and x: "rr_retried_task_ids r = [''x'']" and pend: "pending_sessions (\<lambda>_. []) (crashed_state st) = Inr [(''k'', 0)]"
    by (auto split: sum.splits)
  have "fresh_owners {} [Acquire ''x'' (sample_owner ''k'' ''x'') None ''now'']"
    using sample_owner_ok by (simp add: sample_owner_def)
  then obtain used locks where "lock_inv plain_host (slot_limit lock_plan lock_state) used st locks"
    using lock_run [OF lock_plan_storable lock_state_empty _ s [unfolded locked_x_def]] by blast
  then have l: "lock_inv plain_host (slot_limit lock_plan lock_state) used (crashed_state st) locks"
    using lock_inv_fields [of "crashed_state st" st] by (simp add: crashed_state_def)
  have "plan_ok lock_plan" "distinct (keys [(''x'', ''RUNNING''), (''y'', ''READY'')])"
    "validate_task_states lock_plan [(''x'', ''RUNNING''), (''y'', ''READY'')] True
      = Inr [(''x'', ''RUNNING''), (''y'', ''READY'')]" by code_simp+
  then have "good_map lock_plan (rs_task_states (crashed_state st))"
    using validate_task_states_Inr by (simp add: good_map_def crashed_state_def)
  from crash_reconciliation_safe [OF this l pend w [unfolded recover_x_def]] x s w show ?thesis by auto
qed

end
