(* ===== verification/Trust.thy ===== *)
theory Trust
  imports Prelude
begin

text \<open>
  \<^verbatim>\<open>trust.py\<close>: the trust boundary around evidence. Every piece of evidence has a
  provenance, which fixes its trust level; a promotion needs a level, and one item below it
  refuses the whole set. The levels are ordered by their rank.
\<close>

section \<open>Provenance and levels\<close>

datatype evidence_provenance =
    EXTERNAL_TEXT | LEGACY_MIGRATION | HUMAN_INPUT | DETERMINISTIC_TOOL_OUTPUT | HUMAN_VERIFICATION

datatype trust_level = UNVERIFIED | DETERMINISTIC | HUMAN_VERIFIED

datatype promotion_target = PROJECT_MEMORY_TRUTH | TRUSTED_SKILL

fun provenance_value :: "evidence_provenance \<Rightarrow> string" where
  "provenance_value EXTERNAL_TEXT = ''external_text''"
| "provenance_value LEGACY_MIGRATION = ''legacy_migration''"
| "provenance_value HUMAN_INPUT = ''human_input''"
| "provenance_value DETERMINISTIC_TOOL_OUTPUT = ''deterministic_tool_output''"
| "provenance_value HUMAN_VERIFICATION = ''human_verified''"

fun level_value :: "trust_level \<Rightarrow> string" where
  "level_value UNVERIFIED = ''unverified''"
| "level_value DETERMINISTIC = ''deterministic''"
| "level_value HUMAN_VERIFIED = ''human_verified''"

fun target_value :: "promotion_target \<Rightarrow> string" where
  "target_value PROJECT_MEMORY_TRUTH = ''project_memory_truth''"
| "target_value TRUSTED_SKILL = ''trusted_skill''"

definition coerce_provenance :: "string \<Rightarrow> evidence_provenance result" where
  "coerce_provenance v = (case find (\<lambda>p. provenance_value p = v)
       [EXTERNAL_TEXT, LEGACY_MIGRATION, HUMAN_INPUT, DETERMINISTIC_TOOL_OUTPUT, HUMAN_VERIFICATION] of
     Some p \<Rightarrow> Inr p | None \<Rightarrow> Inl (ValueError ''unknown evidence provenance'' [v]))"

definition coerce_level :: "string \<Rightarrow> trust_level result" where
  "coerce_level v = (case find (\<lambda>l. level_value l = v) [UNVERIFIED, DETERMINISTIC, HUMAN_VERIFIED] of
     Some l \<Rightarrow> Inr l | None \<Rightarrow> Inl (ValueError ''unknown trust level'' [v]))"

interpretation provenances: string_enum provenance_value coerce_provenance
proof
  fix v p
  show "(coerce_provenance v = Inr p) = (v = provenance_value p)"
    by (cases p) (auto simp: coerce_provenance_def split: if_splits)
qed

interpretation levels: string_enum level_value coerce_level
proof
  fix v l
  show "(coerce_level v = Inr l) = (v = level_value l)"
    by (cases l) (auto simp: coerce_level_def split: if_splits)
qed

fun TRUST_RANK :: "trust_level \<Rightarrow> nat" where
  "TRUST_RANK UNVERIFIED = 0"
| "TRUST_RANK DETERMINISTIC = 1"
| "TRUST_RANK HUMAN_VERIFIED = 2"

instantiation trust_level :: linorder
begin

definition less_eq_trust_level :: "trust_level \<Rightarrow> trust_level \<Rightarrow> bool" where
  "less_eq_trust_level a b \<longleftrightarrow> TRUST_RANK a \<le> TRUST_RANK b"

definition less_trust_level :: "trust_level \<Rightarrow> trust_level \<Rightarrow> bool" where
  "less_trust_level a b \<longleftrightarrow> TRUST_RANK a < TRUST_RANK b"

instance
proof
  fix a b c :: trust_level
  show "a < b \<longleftrightarrow> a \<le> b \<and> \<not> b \<le> a" by (auto simp: less_eq_trust_level_def less_trust_level_def)
  show "a \<le> a" by (simp add: less_eq_trust_level_def)
  show "a \<le> b \<Longrightarrow> b \<le> c \<Longrightarrow> a \<le> c" by (simp add: less_eq_trust_level_def)
  show "a \<le> b \<Longrightarrow> b \<le> a \<Longrightarrow> a = b" by (cases a; cases b) (simp_all add: less_eq_trust_level_def)
  show "a \<le> b \<or> b \<le> a" by (auto simp: less_eq_trust_level_def)
qed

end

section \<open>Classified evidence\<close>

record evidence_trust =
  et_provenance :: evidence_provenance
  et_level :: trust_level
  et_source_kind :: string

fun expected_level :: "evidence_provenance \<Rightarrow> trust_level" where
  "expected_level EXTERNAL_TEXT = UNVERIFIED"
| "expected_level LEGACY_MIGRATION = UNVERIFIED"
| "expected_level HUMAN_INPUT = UNVERIFIED"
| "expected_level DETERMINISTIC_TOOL_OUTPUT = DETERMINISTIC"
| "expected_level HUMAN_VERIFICATION = HUMAN_VERIFIED"

text \<open>The constructor with its check.\<close>

definition make_trust :: "evidence_provenance \<Rightarrow> trust_level \<Rightarrow> string \<Rightarrow> evidence_trust result" where
  "make_trust p l kind =
     (if l \<noteq> expected_level p then
        Inl (TrustBoundaryViolation ''R18: evidence provenance and trust level disagree''
          [provenance_value p, level_value l])
      else if strip kind = [] then
        Inl (TrustBoundaryViolation ''R18: evidence source_kind is required'' [])
      else Inr \<lparr>et_provenance = p, et_level = l, et_source_kind = kind\<rparr>)"

text \<open>\<^verbatim>\<open>from_storage\<close>: every failure is one refusal.\<close>

definition unclassified :: exn where
  "unclassified = TrustBoundaryViolation
     ''R18: evidence is missing a valid provenance/trust classification'' []"

definition from_storage :: "(pyval \<Rightarrow> string) \<Rightarrow> pyval dict \<Rightarrow> evidence_trust result" where
  "from_storage rp evidence =
     (case (map_of evidence ''provenance'', map_of evidence ''trust_level'', map_of evidence ''kind'') of
        (Some p, Some l, Some k) \<Rightarrow>
          (case bindE (coerce_provenance (str_of rp p)) (\<lambda>p'. bindE (coerce_level (str_of rp l)) (\<lambda>l'.
             make_trust p' l' (str_of rp k))) of
             Inl _ \<Rightarrow> Inl unclassified | Inr t \<Rightarrow> Inr t)
      | _ \<Rightarrow> Inl unclassified)"

definition human_verified :: "string \<Rightarrow> evidence_trust result" where
  "human_verified source_kind = make_trust HUMAN_VERIFICATION HUMAN_VERIFIED source_kind"

definition trust_to_storage :: "evidence_trust \<Rightarrow> pyval dict" where
  "trust_to_storage t = [(''provenance'', PStr (provenance_value (et_provenance t))),
     (''trust_level'', PStr (level_value (et_level t)))]"

section \<open>The policy\<close>

definition TRUTH_THRESHOLD :: trust_level where "TRUTH_THRESHOLD = DETERMINISTIC"

definition SKILL_THRESHOLD :: trust_level where "SKILL_THRESHOLD = HUMAN_VERIFIED"

definition OUTCOME_THRESHOLD :: trust_level where "OUTCOME_THRESHOLD = DETERMINISTIC"

definition DETERMINISTIC_KINDS :: "string list" where
  "DETERMINISTIC_KINDS = [''artifact'', ''build'', ''environment_probe'', ''file'', ''git'',
     ''screenshot'', ''test'', ''tool'']"

text \<open>The callers choose the exception class: it is the argument \<open>err\<close>.\<close>

definition classify_evidence :: "(string \<Rightarrow> string list \<Rightarrow> exn) \<Rightarrow> string \<Rightarrow> string option \<Rightarrow> evidence_trust result" where
  "classify_evidence err kind provider =
     (let normalized = strip kind in
      if normalized = ''external'' then
        (if strip (case provider of None \<Rightarrow> [] | Some p \<Rightarrow> p) = [] then
           Inl (err ''R18: external evidence requires provenance naming its provider'' [])
         else make_trust EXTERNAL_TEXT UNVERIFIED normalized)
      else if normalized = ''migration'' then make_trust LEGACY_MIGRATION UNVERIFIED normalized
      else if normalized = ''user_instruction'' then make_trust HUMAN_INPUT UNVERIFIED normalized
      else if normalized \<in> set DETERMINISTIC_KINDS then
        make_trust DETERMINISTIC_TOOL_OUTPUT DETERMINISTIC normalized
      else Inl (err ''R18: evidence kind has no trust classification'' [normalized]))"

definition level_meets :: "trust_level \<Rightarrow> trust_level \<Rightarrow> bool" where
  "level_meets level threshold \<longleftrightarrow> threshold \<le> level"

definition truth_evidence_kinds :: "string list \<Rightarrow> string list result" where
  "truth_evidence_kinds kinds =
     bindE (filterE (\<lambda>kind. bindE (classify_evidence TrustBoundaryViolation kind
         (if kind = ''external'' then Some ''classification-only'' else None)) (\<lambda>t.
       Inr (level_meets (et_level t) TRUTH_THRESHOLD))) kinds) (\<lambda>ks. Inr (remdups ks))"

record promotion_assessment =
  pa_target :: promotion_target
  pa_allowed :: bool
  pa_required_level :: trust_level
  pa_observed_level :: "trust_level option"
  pa_reasons :: "string list"
  pa_outcome_evidence_required :: bool

definition evidence_label :: "evidence_trust \<Rightarrow> string" where
  "evidence_label t = et_source_kind t @ '':'' @ provenance_value (et_provenance t) @ ''/'' @ level_value (et_level t)"

definition minimum_level :: "evidence_trust list \<Rightarrow> trust_level option" where
  "minimum_level items = (case map et_level items of [] \<Rightarrow> None | l # ls \<Rightarrow> Some (fold min ls l))"

definition below :: "trust_level \<Rightarrow> evidence_trust list \<Rightarrow> evidence_trust list" where
  "below threshold items = filter (\<lambda>t. \<not> level_meets (et_level t) threshold) items"

definition required_level :: "promotion_target \<Rightarrow> trust_level" where
  "required_level target = (if target = PROJECT_MEMORY_TRUTH then TRUTH_THRESHOLD else SKILL_THRESHOLD)"

definition evidence_reasons :: "trust_level \<Rightarrow> evidence_trust list \<Rightarrow> string list" where
  "evidence_reasons required items =
     (if items = [] then [''NO EVIDENCE -> NO TRUTH: promotion requires evidence'']
      else if below required items \<noteq> [] then
        [''supporting evidence is below '' @ level_value required @ '': ''
          @ join '', '' (map evidence_label (below required items))]
      else [])"

definition outcome_reasons :: "promotion_target \<Rightarrow> evidence_trust list \<Rightarrow> string list" where
  "outcome_reasons target outcomes =
     (if target \<noteq> TRUSTED_SKILL then []
      else if outcomes = [] then [''trusted Skill promotion requires evidence of improved outcome'']
      else if below OUTCOME_THRESHOLD outcomes \<noteq> [] then
        [''outcome evidence is below deterministic: ''
          @ join '', '' (map evidence_label (below OUTCOME_THRESHOLD outcomes))]
      else [])"

definition assess_promotion ::
  "promotion_target \<Rightarrow> evidence_trust list \<Rightarrow> evidence_trust list \<Rightarrow> promotion_assessment" where
  "assess_promotion target items outcomes =
     (let required = required_level target;
          reasons = evidence_reasons required items @ outcome_reasons target outcomes
      in \<lparr>pa_target = target, pa_allowed = (reasons = []), pa_required_level = required,
          pa_observed_level = minimum_level items, pa_reasons = reasons,
          pa_outcome_evidence_required = (target = TRUSTED_SKILL)\<rparr>)"

definition promotion_assessment_to_dict :: "promotion_assessment \<Rightarrow> pyval dict" where
  "promotion_assessment_to_dict a =
     [(''target'', PStr (target_value (pa_target a))), (''allowed'', PBool (pa_allowed a)),
      (''required_level'', PStr (level_value (pa_required_level a))),
      (''observed_level'', case pa_observed_level a of None \<Rightarrow> PNone | Some l \<Rightarrow> PStr (level_value l)),
      (''reasons'', PList (map PStr (pa_reasons a))),
      (''outcome_evidence_required'', PBool (pa_outcome_evidence_required a))]"

definition require_promotion ::
  "(string \<Rightarrow> string list \<Rightarrow> exn) \<Rightarrow> string \<Rightarrow> promotion_target \<Rightarrow> evidence_trust list \<Rightarrow> evidence_trust list
    \<Rightarrow> promotion_assessment result"
where
  "require_promotion err prefix target items outcomes =
     (let a = assess_promotion target items outcomes in
      if \<not> pa_allowed a then Inl (err prefix (target_value target # pa_reasons a)) else Inr a)"

definition rows_trust :: "(string \<Rightarrow> string list \<Rightarrow> exn) \<Rightarrow> (pyval \<Rightarrow> string) \<Rightarrow> pyval dict \<Rightarrow> evidence_trust result" where
  "rows_trust err rp row = (case from_storage rp row of
     Inl _ \<Rightarrow> Inl (err ''R18: evidence is missing a valid provenance/trust classification'' [])
   | Inr t \<Rightarrow> Inr t)"

definition require_truth_rows ::
  "(string \<Rightarrow> string list \<Rightarrow> exn) \<Rightarrow> (pyval \<Rightarrow> string) \<Rightarrow> string \<Rightarrow> pyval dict list \<Rightarrow> promotion_assessment result"
where
  "require_truth_rows err rp prefix rows =
     bindE (mapE (rows_trust err rp) rows) (\<lambda>evidence.
     require_promotion err prefix PROJECT_MEMORY_TRUTH evidence [])"

definition row_is_below_truth :: "(string \<Rightarrow> string list \<Rightarrow> exn) \<Rightarrow> (pyval \<Rightarrow> string) \<Rightarrow> pyval dict \<Rightarrow> bool result" where
  "row_is_below_truth err rp row =
     bindE (rows_trust err rp row) (\<lambda>t. Inr (\<not> level_meets (et_level t) TRUTH_THRESHOLD))"

text \<open>\<^verbatim>\<open>any\<close> stops at the first row below the threshold.\<close>

fun any_row_is_below_truth ::
  "(string \<Rightarrow> string list \<Rightarrow> exn) \<Rightarrow> (pyval \<Rightarrow> string) \<Rightarrow> pyval dict list \<Rightarrow> bool result"
where
  "any_row_is_below_truth err rp [] = Inr False"
| "any_row_is_below_truth err rp (row # rows) =
     bindE (row_is_below_truth err rp row) (\<lambda>b. if b then Inr True else any_row_is_below_truth err rp rows)"

section \<open>What can be promoted\<close>

lemma make_trust_Inr: "make_trust p l k = Inr t \<longleftrightarrow>
    l = expected_level p \<and> strip k \<noteq> [] \<and> t = \<lparr>et_provenance = p, et_level = l, et_source_kind = k\<rparr>"
  by (auto simp: make_trust_def)

definition trust_ok :: "evidence_trust \<Rightarrow> bool" where
  "trust_ok t \<longleftrightarrow> et_level t = expected_level (et_provenance t) \<and> strip (et_source_kind t) \<noteq> []"

lemma from_storage_ok: "from_storage rp row = Inr t \<Longrightarrow> trust_ok t"
  by (auto simp: from_storage_def make_trust_Inr trust_ok_def unclassified_def split: option.splits sum.splits)

lemma meets_truth:
  "trust_ok t \<Longrightarrow> level_meets (et_level t) TRUTH_THRESHOLD \<longleftrightarrow>
    et_provenance t \<in> {DETERMINISTIC_TOOL_OUTPUT, HUMAN_VERIFICATION}"
  by (cases "et_provenance t")
    (simp_all add: trust_ok_def level_meets_def TRUTH_THRESHOLD_def less_eq_trust_level_def)

lemma evidence_reasons_Nil:
  "evidence_reasons required items = [] \<longleftrightarrow> items \<noteq> [] \<and> (\<forall>t \<in> set items. required \<le> et_level t)"
  by (auto simp: evidence_reasons_def below_def level_meets_def filter_empty_conv)

lemma outcome_reasons_Nil:
  "outcome_reasons target outcomes = [] \<longleftrightarrow>
     (target = TRUSTED_SKILL \<longrightarrow> outcomes \<noteq> [] \<and> (\<forall>t \<in> set outcomes. DETERMINISTIC \<le> et_level t))"
  by (auto simp: outcome_reasons_def below_def level_meets_def filter_empty_conv OUTCOME_THRESHOLD_def)

lemma require_truth_rows_iff:
  "(\<exists>a. require_truth_rows err rp prefix rows = Inr a) \<longleftrightarrow>
     rows \<noteq> [] \<and> (\<forall>row \<in> set rows. \<exists>t. from_storage rp row = Inr t
       \<and> et_provenance t \<in> {DETERMINISTIC_TOOL_OUTPUT, HUMAN_VERIFICATION})"
proof -
  have r: "rows_trust err rp row = Inr t \<longleftrightarrow> from_storage rp row = Inr t" for row t
    by (auto simp: rows_trust_def split: sum.splits)
  have p: "(\<exists>a. require_promotion err prefix PROJECT_MEMORY_TRUTH ts [] = Inr a) \<longleftrightarrow>
      ts \<noteq> [] \<and> (\<forall>t \<in> set ts. level_meets (et_level t) TRUTH_THRESHOLD)" for ts
  proof -
    have "pa_allowed (assess_promotion PROJECT_MEMORY_TRUTH ts []) \<longleftrightarrow>
        ts \<noteq> [] \<and> (\<forall>t \<in> set ts. level_meets (et_level t) TRUTH_THRESHOLD)"
      by (simp add: assess_promotion_def Let_def evidence_reasons_Nil outcome_reasons_Nil
          required_level_def level_meets_def)
    then show ?thesis by (simp add: require_promotion_def Let_def)
  qed
  show ?thesis
  proof
    assume "\<exists>a. require_truth_rows err rp prefix rows = Inr a"
    then obtain ts where m: "mapE (rows_trust err rp) rows = Inr ts"
      "\<exists>a. require_promotion err prefix PROJECT_MEMORY_TRUTH ts [] = Inr a"
      unfolding require_truth_rows_def bindE_eq_Inr by blast
    have ts: "list_all2 (\<lambda>row t. from_storage rp row = Inr t) rows ts"
      "ts \<noteq> []" "\<forall>t \<in> set ts. level_meets (et_level t) TRUTH_THRESHOLD"
      using m(1) m(2) [unfolded p] unfolding mapE_eq_Inr r by blast+
    have "\<exists>t. from_storage rp row = Inr t \<and> et_provenance t \<in> {DETERMINISTIC_TOOL_OUTPUT, HUMAN_VERIFICATION}"
      if row: "row \<in> set rows" for row
    proof -
      obtain t where t: "t \<in> set ts" "from_storage rp row = Inr t"
        using ts(1) row by (induction rule: list_all2_induct) auto
      then show ?thesis using ts(3) from_storage_ok meets_truth by blast
    qed
    moreover have "rows \<noteq> []" using ts(1,2) by (cases rows) auto
    ultimately show "rows \<noteq> [] \<and> (\<forall>row \<in> set rows. \<exists>t. from_storage rp row = Inr t
       \<and> et_provenance t \<in> {DETERMINISTIC_TOOL_OUTPUT, HUMAN_VERIFICATION})" by blast
  next
    assume a: "rows \<noteq> [] \<and> (\<forall>row \<in> set rows. \<exists>t. from_storage rp row = Inr t
       \<and> et_provenance t \<in> {DETERMINISTIC_TOOL_OUTPUT, HUMAN_VERIFICATION})"
    define f where "f row = projr (from_storage rp row)" for row
    have f: "from_storage rp row = Inr (f row)" "level_meets (et_level (f row)) TRUTH_THRESHOLD"
      if "row \<in> set rows" for row
      using a that from_storage_ok meets_truth by (auto simp: f_def)
    have "mapE (rows_trust err rp) rows = Inr (map f rows)"
      using mapE_map [of rows "rows_trust err rp" "\<lambda>x. x" f] f(1) r by simp
    moreover have "\<exists>a. require_promotion err prefix PROJECT_MEMORY_TRUTH (map f rows) [] = Inr a"
      using a f(2) unfolding p by simp
    ultimately show "\<exists>a. require_truth_rows err rp prefix rows = Inr a"
      by (simp add: require_truth_rows_def)
  qed
qed

lemma row_above_truth:
  "from_storage rp row = Inr t \<Longrightarrow> et_provenance t \<in> {DETERMINISTIC_TOOL_OUTPUT, HUMAN_VERIFICATION}
   \<Longrightarrow> row_is_below_truth err rp row = Inr False"
  using meets_truth [OF from_storage_ok] by (auto simp: row_is_below_truth_def rows_trust_def)

text \<open>
  The trust boundary: a set of stored rows is accepted as truth exactly when it is not
  empty, every row carries a consistent classification and every row comes from a deterministic
  tool or a verified human judgment; one external, migrated or merely human row
  refuses the whole set.
\<close>

theorem truth_rows_accepted:
  "(\<exists>a. require_truth_rows err rp prefix rows = Inr a) \<longleftrightarrow>
     rows \<noteq> [] \<and> (\<forall>row \<in> set rows. \<exists>t. from_storage rp row = Inr t
       \<and> et_provenance t \<in> {DETERMINISTIC_TOOL_OUTPUT, HUMAN_VERIFICATION})"
  by (rule require_truth_rows_iff)

theorem truth_rows_accepted_witness:
  "\<nexists>a. require_truth_rows TrustBoundaryViolation (\<lambda>_. []) ''p''
     [[(''provenance'', PStr ''deterministic_tool_output''), (''trust_level'', PStr ''deterministic''), (''kind'', PStr ''test'')],
      [(''provenance'', PStr ''external_text''), (''trust_level'', PStr ''unverified''), (''kind'', PStr ''external'')]] = Inr a"
proof -
  have "from_storage (\<lambda>_. []) [(''provenance'', PStr ''external_text''), (''trust_level'', PStr ''unverified''),
      (''kind'', PStr ''external'')] = Inr \<lparr>et_provenance = EXTERNAL_TEXT, et_level = UNVERIFIED, et_source_kind = ''external''\<rparr>"
    by code_simp
  then show ?thesis unfolding truth_rows_accepted by simp
qed

end
