(* ===== verification/SkillPacks.thy ===== *)
theory SkillPacks
  imports Trust PlanDigest
begin

text \<open>
  The readers of \<^verbatim>\<open>skill_packs.py\<close>: identifiers, exact semantic versions, skill references,
  attestations and whole packs from submitted JSON. A reader strips its texts and refuses
  what it does not know; what it accepts is read back from the encoder of
  \<^verbatim>\<open>PlanCodec\<close> as itself.
\<close>

section \<open>Values\<close>

definition SKILL_SOURCES :: "string list" where
  "SKILL_SOURCES = [''vetted'', ''project_generated'', ''synthesized'', ''learned'']"

definition SKILL_STATUSES :: "string list" where
  "SKILL_STATUSES = [''candidate'', ''trusted'']"

definition SKILL_ATTESTATION_KINDS :: "string list" where
  "SKILL_ATTESTATION_KINDS = [''source'', ''promotion'', ''qualification'']"

definition PROMOTION_EVIDENCE_KINDS :: "string list" where
  "PROMOTION_EVIDENCE_KINDS = [''authoritative_documentation'', ''real_tool'', ''deterministic_test'',
     ''independent_verification'', ''verified_work_outcome'']"

definition PROMOTION_QUALIFIERS :: "string list" where
  "PROMOTION_QUALIFIERS = filter (\<lambda>k. k \<noteq> ''independent_verification'') PROMOTION_EVIDENCE_KINDS"

definition MODEL_FIELDS :: "string list" where
  "MODEL_FIELDS = [''model'', ''model_id'', ''model_strategy'', ''reasoning'']"

definition SOURCE_ATTESTATION_REQUIRED :: "string list" where
  "SOURCE_ATTESTATION_REQUIRED = [''vetted'', ''project_generated'']"

definition reject_unknown_fields :: "pyval dict \<Rightarrow> string list \<Rightarrow> string \<Rightarrow> unit result" where
  "reject_unknown_fields raw allowed label =
     (let unknown = filter (\<lambda>k. k \<notin> set allowed) (keys raw) in
      if unknown \<noteq> [] then Inl (SkillPackError ''has unknown fields'' (label # sorted_set unknown)) else Inr ())"

definition object_of :: "pyval \<Rightarrow> string \<Rightarrow> pyval dict result" where
  "object_of raw label = (case raw of PDict d \<Rightarrow> Inr d | _ \<Rightarrow> Inl (SkillPackError ''must be an object'' [label]))"

definition required_string :: "pyval \<Rightarrow> string \<Rightarrow> string result" where
  "required_string v label = (case v of
     PStr s \<Rightarrow> if strip s = [] then Inl (SkillPackError ''must be a non-empty string'' [label]) else Inr (strip s)
   | _ \<Rightarrow> Inl (SkillPackError ''must be a non-empty string'' [label]))"

text \<open>\<^verbatim>\<open>_IDENTIFIER\<close>, matched in full.\<close>

definition is_skill_id :: "string \<Rightarrow> bool" where
  "is_skill_id s \<longleftrightarrow> s \<noteq> [] \<and> is_letter (hd s) \<and> length s \<le> 64
     \<and> (\<forall>c \<in> set (tl s). is_letter c \<or> is_digit c \<or> c \<in> set ''._-'')"

definition skill_identifier :: "pyval \<Rightarrow> string \<Rightarrow> string result" where
  "skill_identifier v label = bindE (required_string v label) (\<lambda>s.
     if is_skill_id s then Inr s else Inl (SkillPackError ''must be a stable identifier'' [label]))"

text \<open>
  \<^verbatim>\<open>_SEMVER\<close>: three numbers without leading zeroes, an optional prerelease after the first
  hyphen and an optional build after the first plus, both dotted lists of words; the second
  test of the code refuses a numeric prerelease word with a leading zero.
\<close>

definition cut_at :: "char \<Rightarrow> string \<Rightarrow> string \<times> string option" where
  "cut_at c s = (takeWhile (\<lambda>x. x \<noteq> c) s,
     case dropWhile (\<lambda>x. x \<noteq> c) s of [] \<Rightarrow> None | _ # r \<Rightarrow> Some r)"

definition version_number :: "string \<Rightarrow> bool" where
  "version_number s \<longleftrightarrow> s \<noteq> [] \<and> (\<forall>c \<in> set s. is_digit c) \<and> (s = ''0'' \<or> hd s \<noteq> CHR ''0'')"

definition version_words :: "string option \<Rightarrow> bool" where
  "version_words v = (case v of None \<Rightarrow> True
     | Some s \<Rightarrow> (\<forall>w \<in> set (split_on (CHR ''.'') s). w \<noteq> []
         \<and> (\<forall>c \<in> set w. is_letter c \<or> is_digit c \<or> c = CHR ''-'')))"

definition leading_zero :: "string \<Rightarrow> bool" where
  "leading_zero w \<longleftrightarrow> (\<forall>c \<in> set w. is_digit c) \<and> 1 < length w \<and> hd w = CHR ''0''"

definition version_parts :: "string \<Rightarrow> string list \<times> string option \<times> string option" where
  "version_parts s = (let (rest, build) = cut_at (CHR ''+'') s; (core, pre) = cut_at (CHR ''-'') rest
     in (split_on (CHR ''.'') core, pre, build))"

definition version_shape :: "string \<Rightarrow> bool" where
  "version_shape s = (case version_parts s of (numbers, pre, build) \<Rightarrow>
     length numbers = 3 \<and> (\<forall>n \<in> set numbers. version_number n) \<and> version_words pre \<and> version_words build)"

definition zeroed_prerelease :: "string \<Rightarrow> bool" where
  "zeroed_prerelease s = (case version_parts s of
     (_, Some p, _) \<Rightarrow> \<exists>w \<in> set (split_on (CHR ''.'') p). leading_zero w | _ \<Rightarrow> False)"

definition semantic_version :: "pyval \<Rightarrow> string \<Rightarrow> string result" where
  "semantic_version v label = bindE (required_string v label) (\<lambda>s.
     if \<not> version_shape s then Inl (SkillPackError ''must be an exact semantic version'' [label])
     else if zeroed_prerelease s then
       Inl (SkillPackError ''numeric prerelease identifiers cannot contain leading zeroes'' [label])
     else Inr s)"

definition choice_of :: "pyval \<Rightarrow> string list \<Rightarrow> string \<Rightarrow> string result" where
  "choice_of v allowed label = bindE (required_string v label) (\<lambda>s.
     if s \<in> set allowed then Inr s else Inl (SkillPackError ''must be one of'' (label # sort allowed)))"

definition array_of :: "pyval \<Rightarrow> string \<Rightarrow> pyval list result" where
  "array_of v label = (case v of PList xs \<Rightarrow> Inr xs | _ \<Rightarrow> Inl (SkillPackError ''must be an array'' [label]))"

definition nonempty_array :: "pyval \<Rightarrow> string \<Rightarrow> pyval list result" where
  "nonempty_array v label = bindE (array_of v label) (\<lambda>xs.
     if xs = [] then Inl (SkillPackError ''must not be empty'' [label]) else Inr xs)"

definition unique_of :: "'a list \<Rightarrow> string \<Rightarrow> unit result" where
  "unique_of xs label = (if distinct xs then Inr () else Inl (SkillPackError ''duplicate'' [label]))"

definition strings_of :: "pyval \<Rightarrow> string \<Rightarrow> string list result" where
  "strings_of v label = bindE (array_of v label) (\<lambda>xs.
     bindE (mapE (\<lambda>x. required_string x label) xs) (\<lambda>ss. bindE (unique_of ss label) (\<lambda>_. Inr ss)))"

definition nonempty_strings :: "pyval \<Rightarrow> string \<Rightarrow> string list result" where
  "nonempty_strings v label = bindE (strings_of v label) (\<lambda>ss.
     if ss = [] then Inl (SkillPackError ''must not be empty'' [label]) else Inr ss)"

section \<open>The parts of a pack\<close>

definition skill_reference_from_raw :: "pyval \<Rightarrow> string \<Rightarrow> skill_reference result" where
  "skill_reference_from_raw raw label = bindE (object_of raw label) (\<lambda>d.
     bindE (reject_unknown_fields d [''id'', ''version''] label) (\<lambda>_.
     bindE (skill_identifier (get d ''id'') label) (\<lambda>i.
     bindE (semantic_version (get d ''version'') label) (\<lambda>v.
     Inr \<lparr>sr_id = i, sr_version = v\<rparr>))))"

definition skill_references_from_raw :: "pyval \<Rightarrow> string \<Rightarrow> skill_reference list result" where
  "skill_references_from_raw raw label = bindE (array_of raw label) (\<lambda>xs.
     bindE (mapE (\<lambda>x. skill_reference_from_raw x label) xs) (\<lambda>rs.
     bindE (unique_of rs label) (\<lambda>_. Inr rs)))"

definition check_from_raw :: "pyval \<Rightarrow> string \<Rightarrow> skill_check result" where
  "check_from_raw raw label = bindE (object_of raw label) (\<lambda>d.
     bindE (reject_unknown_fields d [''id'', ''description'', ''argv'', ''expected_exit_code''] label) (\<lambda>_.
     bindE (case get_default d ''expected_exit_code'' (PInt 0) of PInt n \<Rightarrow> Inr n
       | _ \<Rightarrow> Inl (SkillPackError ''expected_exit_code must be an integer'' [label])) (\<lambda>code.
     bindE (skill_identifier (get d ''id'') label) (\<lambda>i.
     bindE (required_string (get d ''description'') label) (\<lambda>description.
     bindE (nonempty_strings (get d ''argv'') label) (\<lambda>argv.
     Inr \<lparr>sc_id = i, sc_description = description, sc_argv = argv, sc_expected_exit_code = code\<rparr>))))))"

definition promotion_from_raw :: "pyval \<Rightarrow> string \<Rightarrow> promotion_evidence result" where
  "promotion_from_raw raw label = bindE (object_of raw label) (\<lambda>d.
     bindE (reject_unknown_fields d [''id'', ''kind'', ''verified''] label) (\<lambda>_.
     if get d ''verified'' \<noteq> PBool True then Inl (SkillPackError ''verified must be true'' [label])
     else
     bindE (required_string (get d ''id'') label) (\<lambda>i.
     bindE (choice_of (get d ''kind'') PROMOTION_EVIDENCE_KINDS label) (\<lambda>kind.
     Inr \<lparr>pe_id = i, pe_kind = kind, pe_verified = True\<rparr>))))"

definition text_or_empty :: "pyval \<Rightarrow> string \<Rightarrow> string result" where
  "text_or_empty v label = (if v = PNone then Inr [] else required_string v label)"

definition external_source_from_raw :: "pyval \<Rightarrow> string \<Rightarrow> external_source result" where
  "external_source_from_raw raw label = bindE (object_of raw label) (\<lambda>d.
     bindE (reject_unknown_fields d [''provider'', ''locator'', ''digest''] label) (\<lambda>_.
     bindE (required_string (get d ''provider'') label) (\<lambda>provider.
     bindE (text_or_empty (get d ''locator'') label) (\<lambda>locator.
     bindE (text_or_empty (get d ''digest'') label) (\<lambda>digest.
     Inr \<lparr>es_provider = provider, es_locator = locator, es_digest = digest\<rparr>)))))"

definition skill_evidence_requirement_from_raw :: "pyval \<Rightarrow> string \<Rightarrow> skill_evidence_requirement result" where
  "skill_evidence_requirement_from_raw raw label = bindE (object_of raw label) (\<lambda>d.
     bindE (reject_unknown_fields d [''role'', ''kind''] label) (\<lambda>_.
     bindE (skill_identifier (get d ''role'') label) (\<lambda>role.
     bindE (choice_of (get d ''kind'') PROMOTION_QUALIFIERS label) (\<lambda>kind.
     Inr \<lparr>se_role = role, se_kind = kind\<rparr>))))"

definition array_default :: "pyval dict \<Rightarrow> string \<Rightarrow> string \<Rightarrow> pyval list result" where
  "array_default d k label = array_of (get_default d k (PList [])) label"

definition check_attestation_kind ::
  "string \<Rightarrow> string list \<Rightarrow> skill_evidence_requirement list \<Rightarrow> string \<Rightarrow> unit result" where
  "check_attestation_kind kind roles promotion label =
     (if kind = ''source'' then
        (if roles = [] then Inl (SkillPackError ''evidence_roles must be non-empty for source review'' [label])
         else if promotion \<noteq> [] then Inl (SkillPackError ''source review cannot declare promotion_evidence'' [label])
         else Inr ())
      else if kind = ''promotion'' then
        (if promotion = [] then Inl (SkillPackError ''promotion_evidence must be non-empty for promotion review'' [label])
         else if roles \<noteq> [] then Inl (SkillPackError ''promotion review uses promotion_evidence roles'' [label])
         else Inr ())
      else if roles \<noteq> [] \<or> promotion \<noteq> [] then
        Inl (SkillPackError ''qualification derives evidence from declared skill checks'' [label])
      else Inr ())"

definition skill_attestation_from_raw :: "pyval \<Rightarrow> string \<Rightarrow> skill_attestation option result" where
  "skill_attestation_from_raw raw label = (if raw = PNone then Inr None else
     bindE (object_of raw label) (\<lambda>d.
     bindE (reject_unknown_fields d [''kind'', ''skill'', ''evidence_roles'', ''promotion_evidence''] label) (\<lambda>_.
     bindE (choice_of (get d ''kind'') SKILL_ATTESTATION_KINDS label) (\<lambda>kind.
     bindE (skill_reference_from_raw (get d ''skill'') label) (\<lambda>skill.
     bindE (array_default d ''evidence_roles'' label) (\<lambda>raw_roles.
     bindE (mapE (\<lambda>x. skill_identifier x label) raw_roles) (\<lambda>roles.
     bindE (unique_of roles label) (\<lambda>_.
     bindE (array_default d ''promotion_evidence'' label) (\<lambda>raw_promotion.
     bindE (mapE (\<lambda>x. skill_evidence_requirement_from_raw x label) raw_promotion) (\<lambda>promotion.
     bindE (unique_of (map se_role promotion) label) (\<lambda>_.
     bindE (check_attestation_kind kind roles promotion label) (\<lambda>_.
     Inr (Some \<lparr>sa_kind = kind, sa_skill = skill, sa_evidence_roles = roles,
       sa_promotion_evidence = promotion\<rparr>)))))))))))))"

section \<open>Packs\<close>

definition verified_kinds :: "promotion_evidence list \<Rightarrow> string list" where
  "verified_kinds evidence = map pe_kind (filter pe_verified evidence)"

definition validate_synthesized_promotion :: "promotion_evidence list \<Rightarrow> string \<Rightarrow> unit result" where
  "validate_synthesized_promotion evidence label =
     (if ''independent_verification'' \<notin> set (verified_kinds evidence)
         \<or> (\<forall>k \<in> set (verified_kinds evidence). k \<notin> set PROMOTION_QUALIFIERS)
      then Inl (SkillPackError ''is synthesized and cannot be declared trusted'' [label]) else Inr ())"

definition validate_learned_promotion :: "promotion_evidence list \<Rightarrow> string \<Rightarrow> unit result" where
  "validate_learned_promotion evidence label =
     (if ''independent_verification'' \<notin> set (verified_kinds evidence)
         \<or> ''verified_work_outcome'' \<notin> set (verified_kinds evidence)
      then Inl (SkillPackError ''is learned and cannot be declared trusted'' [label]) else Inr ())"

definition PACK_FIELDS :: "string list" where
  "PACK_FIELDS = [''id'', ''version'', ''capability'', ''source'', ''status'', ''procedures'',
     ''checklists'', ''failure_modes'', ''quality_criteria'', ''required_tools'', ''required_mcp_servers'',
     ''deterministic_checks'', ''evidence_roles'', ''conflicts_with'', ''promotion_evidence'',
     ''source_verification_ids'', ''qualification_verification_ids'', ''external_sources'']"

definition reference_of :: "skill_pack \<Rightarrow> skill_reference" where
  "reference_of p = \<lparr>sr_id = sk_id p, sr_version = sk_version p\<rparr>"

definition check_pack_trust :: "string \<Rightarrow> string \<Rightarrow> external_source list \<Rightarrow> promotion_evidence list \<Rightarrow> string \<Rightarrow> unit result" where
  "check_pack_trust source status externals promotion label =
     (if externals \<noteq> [] \<and> source \<in> set SOURCE_ATTESTATION_REQUIRED then
        Inl (SkillPackError ''text read from outside is synthesized or learned'' [label, source])
      else
        bindE (if source = ''synthesized'' \<and> status = ''trusted''
               then validate_synthesized_promotion promotion label else Inr ()) (\<lambda>_.
        if source = ''learned'' \<and> status = ''trusted''
        then validate_learned_promotion promotion label else Inr ()))"

definition skill_pack_from_raw :: "pyval \<Rightarrow> string \<Rightarrow> skill_pack result" where
  "skill_pack_from_raw raw label =
     bindE (object_of raw label) (\<lambda>d.
     let forbidden = filter (\<lambda>k. k \<in> set MODEL_FIELDS) (keys d) in
     if forbidden \<noteq> [] then Inl (SkillPackError ''cannot select a model'' (label # sorted_set forbidden)) else
     bindE (reject_unknown_fields d PACK_FIELDS label) (\<lambda>_.
     bindE (choice_of (get d ''source'') SKILL_SOURCES label) (\<lambda>source.
     bindE (choice_of (get d ''status'') SKILL_STATUSES label) (\<lambda>status.
     bindE (nonempty_array (get d ''deterministic_checks'') label) (\<lambda>raw_checks.
     bindE (mapE (\<lambda>x. check_from_raw x label) raw_checks) (\<lambda>checks.
     bindE (unique_of (map sc_id checks) label) (\<lambda>_.
     bindE (array_default d ''conflicts_with'' label) (\<lambda>raw_conflicts.
     bindE (mapE (\<lambda>x. skill_reference_from_raw x label) raw_conflicts) (\<lambda>conflicts.
     bindE (unique_of conflicts label) (\<lambda>_.
     bindE (array_default d ''promotion_evidence'' label) (\<lambda>raw_promotion.
     bindE (mapE (\<lambda>x. promotion_from_raw x label) raw_promotion) (\<lambda>promotion.
     bindE (unique_of (map pe_id promotion) label) (\<lambda>_.
     bindE (array_default d ''external_sources'' label) (\<lambda>raw_externals.
     bindE (mapE (\<lambda>x. external_source_from_raw x label) raw_externals) (\<lambda>externals.
     bindE (check_pack_trust source status externals promotion label) (\<lambda>_.
     bindE (skill_identifier (get d ''id'') label) (\<lambda>i.
     bindE (semantic_version (get d ''version'') label) (\<lambda>version.
     bindE (skill_identifier (get d ''capability'') label) (\<lambda>capability.
     bindE (nonempty_strings (get d ''procedures'') label) (\<lambda>procedures.
     bindE (nonempty_strings (get d ''checklists'') label) (\<lambda>checklists.
     bindE (nonempty_strings (get d ''failure_modes'') label) (\<lambda>failure_modes.
     bindE (nonempty_strings (get d ''quality_criteria'') label) (\<lambda>quality.
     bindE (strings_of (get_default d ''required_tools'' (PList [])) label) (\<lambda>tools.
     bindE (strings_of (get_default d ''required_mcp_servers'' (PList [])) label) (\<lambda>servers.
     bindE (nonempty_strings (get d ''evidence_roles'') label) (\<lambda>roles.
     bindE (strings_of (get_default d ''source_verification_ids'' (PList [])) label) (\<lambda>source_ids.
     bindE (strings_of (get_default d ''qualification_verification_ids'' (PList [])) label) (\<lambda>qualification_ids.
     let pack = \<lparr>sk_id = i, sk_version = version, sk_capability = capability, sk_source = source,
       sk_status = status, sk_procedures = procedures, sk_checklists = checklists,
       sk_failure_modes = failure_modes, sk_quality_criteria = quality, sk_required_tools = tools,
       sk_required_mcp_servers = servers, sk_deterministic_checks = checks, sk_evidence_roles = roles,
       sk_conflicts_with = conflicts, sk_promotion_evidence = promotion,
       sk_source_verification_ids = source_ids, sk_qualification_verification_ids = qualification_ids,
       sk_external_sources = externals\<rparr>
     in if reference_of pack \<in> set conflicts then Inl (SkillPackError ''cannot conflict with itself'' [label])
        else Inr pack))))))))))))))))))))))))))))"

definition skill_packs_from_raw :: "pyval \<Rightarrow> string \<Rightarrow> skill_pack list result" where
  "skill_packs_from_raw raw label = bindE (array_of raw label) (\<lambda>xs. mapE (\<lambda>x. skill_pack_from_raw x label) xs)"

section \<open>Read back as written\<close>

named_theorems skill_read "what the readers return" and skill_round "what the readers accept"

lemma required_string_read [skill_read]: "required_string v label = Inr s \<Longrightarrow> stripped s"
  by (auto simp: required_string_def stripped_strip split: pyval.splits if_splits)

lemma required_string_round [skill_round]: "stripped s \<Longrightarrow> required_string (PStr s) label = Inr s"
  by (auto simp: required_string_def stripped_def)

definition id_ok :: "string \<Rightarrow> bool" where
  "id_ok s \<longleftrightarrow> stripped s \<and> is_skill_id s"

lemma skill_identifier_read [skill_read]: "skill_identifier v label = Inr s \<Longrightarrow> id_ok s"
  by (auto simp: skill_identifier_def id_ok_def split: if_splits dest: required_string_read)

lemma skill_identifier_round [skill_round]: "id_ok s \<Longrightarrow> skill_identifier (PStr s) label = Inr s"
  by (simp add: skill_identifier_def id_ok_def required_string_round)

definition version_ok :: "string \<Rightarrow> bool" where
  "version_ok s \<longleftrightarrow> stripped s \<and> version_shape s \<and> \<not> zeroed_prerelease s"

lemma semantic_version_read [skill_read]: "semantic_version v label = Inr s \<Longrightarrow> version_ok s"
  by (auto simp: semantic_version_def version_ok_def split: if_splits dest: required_string_read)

lemma semantic_version_round [skill_round]: "version_ok s \<Longrightarrow> semantic_version (PStr s) label = Inr s"
  by (simp add: semantic_version_def version_ok_def required_string_round)

definition choice_ok :: "string list \<Rightarrow> string \<Rightarrow> bool" where
  "choice_ok allowed s \<longleftrightarrow> stripped s \<and> s \<in> set allowed"

lemma choice_of_read [skill_read]: "choice_of v allowed label = Inr s \<Longrightarrow> choice_ok allowed s"
  by (auto simp: choice_of_def choice_ok_def split: if_splits dest: required_string_read)

lemma choice_of_round [skill_round]: "choice_ok allowed s \<Longrightarrow> choice_of (PStr s) allowed label = Inr s"
  by (simp add: choice_of_def choice_ok_def required_string_round)

lemma array_of_read: "array_of v label = Inr xs \<longleftrightarrow> v = PList xs"
  by (auto simp: array_of_def split: pyval.splits)

lemma object_of_read: "object_of v label = Inr d \<longleftrightarrow> v = PDict d"
  by (auto simp: object_of_def split: pyval.splits)

lemma unique_of_Inr [simp]: "unique_of xs label = Inr u \<longleftrightarrow> distinct xs"
  by (simp add: unique_of_def)

definition strings_ok :: "string list \<Rightarrow> bool" where
  "strings_ok ss \<longleftrightarrow> distinct ss \<and> (\<forall>s \<in> set ss. stripped s)"

lemma mapE_all: "mapE f xs = Inr ys \<Longrightarrow> (\<And>x y. f x = Inr y \<Longrightarrow> P y) \<Longrightarrow> \<forall>y \<in> set ys. P y"
  unfolding mapE_eq_Inr by (induction rule: list_all2_induct) auto

lemma strings_of_read [skill_read]: "strings_of v label = Inr ss \<Longrightarrow> strings_ok ss"
  by (auto simp: strings_of_def strings_ok_def dest: mapE_all [where P = stripped] intro: required_string_read)

lemma strings_of_round [skill_round]: "strings_ok ss \<Longrightarrow> strings_of (PStrs ss) label = Inr ss"
  "strings_ok ss \<Longrightarrow> strings_of (PList (map PStr ss)) label = Inr ss"
proof -
  have "mapE (\<lambda>x. required_string x label) (map PStr ss) = Inr (map (\<lambda>s. s) ss)" if "strings_ok ss"
    using that by (intro mapE_map) (simp add: strings_ok_def required_string_round)
  then show "strings_ok ss \<Longrightarrow> strings_of (PStrs ss) label = Inr ss"
    "strings_ok ss \<Longrightarrow> strings_of (PList (map PStr ss)) label = Inr ss"
    by (simp_all add: strings_of_def PStrs_def array_of_def unique_of_def strings_ok_def)
qed

lemma nonempty_strings_read [skill_read]: "nonempty_strings v label = Inr ss \<Longrightarrow> strings_ok ss \<and> ss \<noteq> []"
  by (auto simp: nonempty_strings_def split: if_splits dest: strings_of_read)

lemma nonempty_strings_round [skill_round]:
  "strings_ok ss \<and> ss \<noteq> [] \<Longrightarrow> nonempty_strings (PStrs ss) label = Inr ss"
  by (simp add: nonempty_strings_def strings_of_round)

text \<open>A dictionary with an optional array field.\<close>

lemma array_default_round:
  "get_default d k (PList []) = PList xs \<Longrightarrow> array_default d k label = Inr xs"
  by (simp add: array_default_def array_of_def)

definition reference_ok :: "skill_reference \<Rightarrow> bool" where
  "reference_ok r \<longleftrightarrow> id_ok (sr_id r) \<and> version_ok (sr_version r)"

interpretation reference_codec: codec skill_reference_to_dict "\<lambda>v. skill_reference_from_raw v label" reference_ok
  for label
proof
  fix d r assume "skill_reference_from_raw d label = Inr r"
  then show "reference_ok r" by (auto simp: skill_reference_from_raw_def reference_ok_def dest: skill_read)
next
  fix r assume "reference_ok r"
  then show "skill_reference_from_raw (skill_reference_to_dict r) label = Inr r"
    by (simp add: skill_reference_from_raw_def skill_reference_to_dict_def object_of_def
        reject_unknown_fields_def get_def reference_ok_def skill_round)
qed

definition check_ok :: "skill_check \<Rightarrow> bool" where
  "check_ok c \<longleftrightarrow> id_ok (sc_id c) \<and> stripped (sc_description c) \<and> strings_ok (sc_argv c) \<and> sc_argv c \<noteq> []"

interpretation check_codec: codec skill_check_to_dict "\<lambda>v. check_from_raw v label" check_ok for label
proof
  fix d c assume "check_from_raw d label = Inr c"
  then show "check_ok c" by (auto simp: check_from_raw_def check_ok_def dest: skill_read)
next
  fix c assume "check_ok c"
  then show "check_from_raw (skill_check_to_dict c) label = Inr c"
    by (simp add: check_from_raw_def skill_check_to_dict_def object_of_def reject_unknown_fields_def
        get_def get_default_def check_ok_def skill_round)
qed

definition promotion_ok :: "promotion_evidence \<Rightarrow> bool" where
  "promotion_ok e \<longleftrightarrow> stripped (pe_id e) \<and> choice_ok PROMOTION_EVIDENCE_KINDS (pe_kind e) \<and> pe_verified e"

interpretation promotion_codec: codec promotion_evidence_to_dict "\<lambda>v. promotion_from_raw v label" promotion_ok
  for label
proof
  fix d e assume "promotion_from_raw d label = Inr e"
  then show "promotion_ok e"
    by (auto simp: promotion_from_raw_def promotion_ok_def split: if_splits dest: skill_read)
next
  fix e assume "promotion_ok e"
  then show "promotion_from_raw (promotion_evidence_to_dict e) label = Inr e"
    by (simp add: promotion_from_raw_def promotion_evidence_to_dict_def object_of_def
        reject_unknown_fields_def get_def promotion_ok_def skill_round)
qed

definition external_ok :: "external_source \<Rightarrow> bool" where
  "external_ok s \<longleftrightarrow> stripped (es_provider s) \<and> (es_locator s = [] \<or> stripped (es_locator s))
     \<and> (es_digest s = [] \<or> stripped (es_digest s))"

lemma text_or_empty_read: "text_or_empty v label = Inr s \<Longrightarrow> s = [] \<or> stripped s"
  by (auto simp: text_or_empty_def split: if_splits dest: required_string_read)

interpretation external_codec: codec external_source_to_dict "\<lambda>v. external_source_from_raw v label" external_ok
  for label
proof
  fix d s assume "external_source_from_raw d label = Inr s"
  then show "external_ok s"
    by (auto simp: external_source_from_raw_def external_ok_def dest: skill_read text_or_empty_read)
next
  fix s assume "external_ok s"
  then show "external_source_from_raw (external_source_to_dict s) label = Inr s"
    by (auto simp: external_source_from_raw_def external_source_to_dict_def object_of_def opt_field_def
        reject_unknown_fields_def get_def external_ok_def text_or_empty_def skill_round stripped_def)
qed

definition requirement_ok :: "skill_evidence_requirement \<Rightarrow> bool" where
  "requirement_ok e \<longleftrightarrow> id_ok (se_role e) \<and> choice_ok PROMOTION_QUALIFIERS (se_kind e)"

interpretation requirement_codec: codec skill_evidence_requirement_to_dict
  "\<lambda>v. skill_evidence_requirement_from_raw v label" requirement_ok for label
proof
  fix d e assume "skill_evidence_requirement_from_raw d label = Inr e"
  then show "requirement_ok e"
    by (auto simp: skill_evidence_requirement_from_raw_def requirement_ok_def dest: skill_read)
next
  fix e assume "requirement_ok e"
  then show "skill_evidence_requirement_from_raw (skill_evidence_requirement_to_dict e) label = Inr e"
    by (simp add: skill_evidence_requirement_from_raw_def skill_evidence_requirement_to_dict_def
        object_of_def reject_unknown_fields_def get_def requirement_ok_def skill_round)
qed

definition pack_trust_ok :: "string \<Rightarrow> string \<Rightarrow> external_source list \<Rightarrow> promotion_evidence list \<Rightarrow> bool" where
  "pack_trust_ok source status externals promotion \<longleftrightarrow>
     (externals = [] \<or> source \<notin> set SOURCE_ATTESTATION_REQUIRED)
     \<and> (source = ''synthesized'' \<and> status = ''trusted'' \<longrightarrow>
          ''independent_verification'' \<in> set (verified_kinds promotion)
          \<and> (\<exists>k \<in> set (verified_kinds promotion). k \<in> set PROMOTION_QUALIFIERS))
     \<and> (source = ''learned'' \<and> status = ''trusted'' \<longrightarrow>
          ''independent_verification'' \<in> set (verified_kinds promotion)
          \<and> ''verified_work_outcome'' \<in> set (verified_kinds promotion))"

lemma check_pack_trust_Inr:
  "check_pack_trust source status externals promotion label = Inr u \<longleftrightarrow> pack_trust_ok source status externals promotion"
  unfolding check_pack_trust_def pack_trust_ok_def validate_synthesized_promotion_def validate_learned_promotion_def
  by (cases "externals = [] \<or> source \<notin> set SOURCE_ATTESTATION_REQUIRED") auto

definition pack_ok :: "skill_pack \<Rightarrow> bool" where
  "pack_ok p \<longleftrightarrow> id_ok (sk_id p) \<and> version_ok (sk_version p) \<and> id_ok (sk_capability p)
     \<and> choice_ok SKILL_SOURCES (sk_source p) \<and> choice_ok SKILL_STATUSES (sk_status p)
     \<and> (strings_ok (sk_procedures p) \<and> sk_procedures p \<noteq> []) \<and> (strings_ok (sk_checklists p) \<and> sk_checklists p \<noteq> [])
     \<and> (strings_ok (sk_failure_modes p) \<and> sk_failure_modes p \<noteq> [])
     \<and> (strings_ok (sk_quality_criteria p) \<and> sk_quality_criteria p \<noteq> [])
     \<and> strings_ok (sk_required_tools p) \<and> strings_ok (sk_required_mcp_servers p)
     \<and> (strings_ok (sk_evidence_roles p) \<and> sk_evidence_roles p \<noteq> [])
     \<and> strings_ok (sk_source_verification_ids p) \<and> strings_ok (sk_qualification_verification_ids p)
     \<and> (sk_deterministic_checks p \<noteq> [] \<and> (\<forall>c \<in> set (sk_deterministic_checks p). check_ok c)
         \<and> distinct (map sc_id (sk_deterministic_checks p)))
     \<and> ((\<forall>r \<in> set (sk_conflicts_with p). reference_ok r) \<and> distinct (sk_conflicts_with p)
         \<and> reference_of p \<notin> set (sk_conflicts_with p))
     \<and> ((\<forall>e \<in> set (sk_promotion_evidence p). promotion_ok e) \<and> distinct (map pe_id (sk_promotion_evidence p)))
     \<and> (\<forall>s \<in> set (sk_external_sources p). external_ok s)
     \<and> pack_trust_ok (sk_source p) (sk_status p) (sk_external_sources p) (sk_promotion_evidence p)"

lemma skill_pack_read: "skill_pack_from_raw v label = Inr p \<Longrightarrow> pack_ok p"
  unfolding skill_pack_from_raw_def Let_def
  by (clarsimp split: if_split_asm)
    (auto simp: pack_ok_def check_pack_trust_Inr nonempty_array_def split: if_split_asm
      dest: skill_read check_codec.all_ok reference_codec.all_ok promotion_codec.all_ok external_codec.all_ok
        mapE_length)

lemma skill_pack_gets:
  assumes "skill_pack_to_dict p = PDict d"
  shows "get d ''id'' = PStr (sk_id p)" "get d ''version'' = PStr (sk_version p)"
    "get d ''capability'' = PStr (sk_capability p)" "get d ''source'' = PStr (sk_source p)"
    "get d ''status'' = PStr (sk_status p)" "get d ''procedures'' = PStrs (sk_procedures p)"
    "get d ''checklists'' = PStrs (sk_checklists p)" "get d ''failure_modes'' = PStrs (sk_failure_modes p)"
    "get d ''quality_criteria'' = PStrs (sk_quality_criteria p)"
    "get_default d ''required_tools'' (PList []) = PStrs (sk_required_tools p)"
    "get_default d ''required_mcp_servers'' (PList []) = PStrs (sk_required_mcp_servers p)"
    "get d ''deterministic_checks'' = PList (map skill_check_to_dict (sk_deterministic_checks p))"
    "get d ''evidence_roles'' = PStrs (sk_evidence_roles p)"
    "get_default d ''conflicts_with'' (PList []) = PList (map skill_reference_to_dict (sk_conflicts_with p))"
    "get_default d ''promotion_evidence'' (PList []) = PList (map promotion_evidence_to_dict (sk_promotion_evidence p))"
    "get_default d ''source_verification_ids'' (PList []) = PStrs (sk_source_verification_ids p)"
    "get_default d ''qualification_verification_ids'' (PList []) = PStrs (sk_qualification_verification_ids p)"
    "get_default d ''external_sources'' (PList []) = PList (map external_source_to_dict (sk_external_sources p))"
  using assms unfolding skill_pack_to_dict_def pyval.inject
  by (auto simp: get_def get_default_def map_add_def PStrs_def simp del: keys_some_list)

lemma skill_pack_known:
  assumes "skill_pack_to_dict p = PDict d"
  shows "set (keys d) \<subseteq> set PACK_FIELDS"
  using assms by (auto simp: skill_pack_to_dict_def PACK_FIELDS_def some_list_def split: if_splits)

lemma skill_pack_round:
  assumes p: "pack_ok p"
  shows "skill_pack_from_raw (skill_pack_to_dict p) label = Inr p"
proof -
  obtain d where d: "skill_pack_to_dict p = PDict d" by (simp add: skill_pack_to_dict_def)
  note gets = skill_pack_gets [OF d]
  have keys: "filter (\<lambda>k. k \<in> set MODEL_FIELDS) (keys d) = []" "filter (\<lambda>k. k \<notin> set PACK_FIELDS) (keys d) = []"
    using skill_pack_known [OF d] by (auto simp: filter_empty_conv PACK_FIELDS_def MODEL_FIELDS_def)
  have lists:
    "mapE (\<lambda>x. check_from_raw x label) (map skill_check_to_dict (sk_deterministic_checks p)) = Inr (sk_deterministic_checks p)"
    "mapE (\<lambda>x. skill_reference_from_raw x label) (map skill_reference_to_dict (sk_conflicts_with p)) = Inr (sk_conflicts_with p)"
    "mapE (\<lambda>x. promotion_from_raw x label) (map promotion_evidence_to_dict (sk_promotion_evidence p)) = Inr (sk_promotion_evidence p)"
    "mapE (\<lambda>x. external_source_from_raw x label) (map external_source_to_dict (sk_external_sources p)) = Inr (sk_external_sources p)"
    using p unfolding pack_ok_def
    by (blast intro: check_codec.dec_all reference_codec.dec_all promotion_codec.dec_all external_codec.dec_all)+
  have trust: "check_pack_trust (sk_source p) (sk_status p) (sk_external_sources p) (sk_promotion_evidence p) label = Inr ()"
    using p by (simp add: check_pack_trust_Inr pack_ok_def)
  show ?thesis
    using p unfolding skill_pack_from_raw_def d Let_def pack_ok_def reject_unknown_fields_def
    by (simp add: object_of_def keys gets lists trust nonempty_array_def array_default_def array_of_def
        skill_round reference_of_def)
qed

interpretation pack_codec: codec skill_pack_to_dict "\<lambda>v. skill_pack_from_raw v label" pack_ok for label
  by unfold_locales (rule skill_pack_read skill_pack_round; assumption)+

text \<open>
  C34. What the pack reader accepts is stable and fits the trust ladder: the pack written back by
  the encoder is read as the same pack, so restarts and digests see one value; a pack whose
  text came from outside never claims a reviewed origin, and when such a pack is declared trusted it
  lists an independent verification together with a qualifying kind; no pack conflicts with itself.
\<close>

theorem skill_pack_round_trip:
  assumes "skill_pack_from_raw v label = Inr p"
  shows "skill_pack_from_raw (skill_pack_to_dict p) label' = Inr p
     \<and> (sk_external_sources p \<noteq> [] \<longrightarrow> sk_source p = ''synthesized'' \<or> sk_source p = ''learned'')
     \<and> (sk_external_sources p \<noteq> [] \<and> sk_status p = ''trusted'' \<longrightarrow>
          ''independent_verification'' \<in> set (verified_kinds (sk_promotion_evidence p))
          \<and> (\<exists>k \<in> set (verified_kinds (sk_promotion_evidence p)). k \<in> set PROMOTION_QUALIFIERS))
     \<and> reference_of p \<notin> set (sk_conflicts_with p)"
proof -
  have ok: "pack_ok p" by (rule pack_codec.dec_ok [OF assms])
  then have t: "pack_trust_ok (sk_source p) (sk_status p) (sk_external_sources p) (sk_promotion_evidence p)"
    "choice_ok SKILL_SOURCES (sk_source p)" "reference_of p \<notin> set (sk_conflicts_with p)"
    by (simp_all add: pack_ok_def)
  have q: "''verified_work_outcome'' \<in> set PROMOTION_QUALIFIERS"
    by (simp add: PROMOTION_QUALIFIERS_def PROMOTION_EVIDENCE_KINDS_def)
  have s: "sk_external_sources p \<noteq> [] \<Longrightarrow> sk_source p = ''synthesized'' \<or> sk_source p = ''learned''"
    using t(1,2) by (auto simp: pack_trust_ok_def choice_ok_def SKILL_SOURCES_def SOURCE_ATTESTATION_REQUIRED_def)
  have k: "''independent_verification'' \<in> set (verified_kinds (sk_promotion_evidence p))
      \<and> (\<exists>k \<in> set (verified_kinds (sk_promotion_evidence p)). k \<in> set PROMOTION_QUALIFIERS)"
    if "sk_external_sources p \<noteq> []" "sk_status p = ''trusted''"
    using s [OF that(1)] t(1) q that(2) unfolding pack_trust_ok_def by blast
  show ?thesis
    using pack_codec.round_trip [OF ok] s k t(3) by blast
qed

text \<open>A learned pack read from outside, with texts to strip.\<close>

definition sample_pack_raw :: pyval where
  "sample_pack_raw = PDict [(''id'', PStr '' api-review ''), (''version'', PStr ''1.2.0-rc.1''),
     (''capability'', PStr ''api-review''), (''source'', PStr ''learned''), (''status'', PStr ''trusted''),
     (''procedures'', PList [PStr '' read the schema '']), (''checklists'', PList [PStr ''names'']),
     (''failure_modes'', PList [PStr ''drift'']), (''quality_criteria'', PList [PStr ''stable'']),
     (''deterministic_checks'', PList [PDict [(''id'', PStr ''lint''), (''description'', PStr ''lint''),
        (''argv'', PList [PStr ''make'', PStr ''lint''])]]),
     (''evidence_roles'', PList [PStr ''lint'']),
     (''conflicts_with'', PList [PDict [(''id'', PStr ''api-review''), (''version'', PStr ''1.1.0'')]]),
     (''promotion_evidence'', PList
        [PDict [(''id'', PStr ''VERIFY-001''), (''kind'', PStr ''independent_verification''), (''verified'', PBool True)],
         PDict [(''id'', PStr ''EVID-004''), (''kind'', PStr ''verified_work_outcome''), (''verified'', PBool True)]]),
     (''external_sources'', PList [PDict [(''provider'', PStr ''docs'')]])]"

theorem skill_pack_round_trip_witness:
  "\<exists>p. skill_pack_from_raw sample_pack_raw [] = Inr p
     \<and> skill_pack_from_raw (skill_pack_to_dict p) [] = Inr p \<and> sk_external_sources p \<noteq> []"
proof -
  have "case skill_pack_from_raw sample_pack_raw [] of Inl _ \<Rightarrow> False | Inr p \<Rightarrow> sk_external_sources p \<noteq> []"
    by code_simp
  then obtain p where p: "skill_pack_from_raw sample_pack_raw [] = Inr p" "sk_external_sources p \<noteq> []"
    by (auto split: sum.splits)
  from skill_pack_round_trip [OF p(1), where label' = "[]"] p show ?thesis by blast
qed

end
