(* ===== verification/MemoryStore.thy ===== *)
theory MemoryStore
  imports Trust Json RunStates
begin

text \<open>
  The tables of Project Memory (\<^verbatim>\<open>memory.py\<close>) and its two ledgers: evidence, and the
  verification results of \<^verbatim>\<open>memory_verification.py\<close>. A table is the list of its rows in
  insertion order; a write transaction that raises is rolled back, so an operation returns the
  new tables or the exception. The columns are those of the schema; the primary keys refuse a
  second row. The clock of a transaction, the digest of a file and the resolution of a path are
  arguments.
\<close>

section \<open>The tables\<close>

record evidence_item =
  ev_id :: string
  ev_kind :: string
  ev_provenance :: string
  ev_trust_level :: string
  ev_summary :: string
  ev_path :: "string option"
  ev_line_start :: "int option"
  ev_line_end :: "int option"
  ev_content_sha256 :: "string option"
  ev_command :: "string option"
  ev_result :: "string option"
  ev_exit_code :: "int option"
  ev_tool_name :: "string option"
  ev_artifact_path :: "string option"
  ev_user_instruction :: "string option"
  ev_environment_probe :: "string option"
  ev_created_by :: string
  ev_provider :: "string option"
  ev_provider_thread_id :: "string option"
  ev_created_at :: string

record memory_record =
  mr_id :: string
  mr_category :: string
  mr_statement :: string
  mr_origin :: string
  mr_status :: string
  mr_reason :: "string option"
  mr_scope :: string
  mr_needed_for :: "string option"
  mr_confidence :: "string option"
  mr_verification_method :: "string option"
  mr_created_by :: string
  mr_provider :: "string option"
  mr_provider_thread_id :: "string option"
  mr_supersedes_id :: "string option"
  mr_created_at :: string
  mr_updated_at :: string

record evidence_link =
  li_record_id :: string
  li_evidence_id :: string
  li_relation :: string
  li_created_at :: string

record milestone_link =
  ml_milestone_id :: string
  ml_evidence_id :: string
  ml_role :: string
  ml_created_at :: string

record milestone_completion =
  mc_milestone_id :: string
  mc_run_id :: string
  mc_worker_sequence :: int
  mc_evidence_count :: nat
  mc_source :: string
  mc_completed_at :: string

record verification_row =
  vr_id :: string
  vr_task_id :: string
  vr_check_id :: string
  vr_policy :: string
  vr_verdict :: string
  vr_summary :: string
  vr_details_json :: string
  vr_created_by :: string
  vr_provider :: "string option"
  vr_provider_thread_id :: string
  vr_provider_turn_id :: string
  vr_created_at :: string

record verification_link =
  vl_verification_id :: string
  vl_evidence_id :: string
  vl_created_at :: string

record conflict_row =
  cf_id :: string
  cf_existing_record_id :: string
  cf_incoming_record_id :: "string option"
  cf_incoming_evidence_id :: "string option"
  cf_statement :: string
  cf_status :: string
  cf_resolution :: "string option"
  cf_created_by :: string
  cf_created_at :: string
  cf_resolved_at :: "string option"

record conflict_event =
  ce_conflict_id :: string
  ce_action :: string
  ce_details :: string
  ce_actor :: string
  ce_created_at :: string

text \<open>
  The details of an audit entry are stored as the JSON text of a dictionary, which is only
  ever read back with \<^verbatim>\<open>json.loads\<close>; here the entry keeps the dictionary.
\<close>

record audit_entry =
  au_id :: int
  au_action :: string
  au_entity_type :: string
  au_entity_id :: string
  au_actor :: string
  au_details :: "pyval dict"
  au_created_at :: string

record memory =
  mm_sequences :: "int dict"
  mm_evidence :: "evidence_item list"
  mm_records :: "memory_record list"
  mm_links :: "evidence_link list"
  mm_milestones :: "milestone_link list"
  mm_completions :: "milestone_completion list"
  mm_verifications :: "verification_row list"
  mm_verification_links :: "verification_link list"
  mm_conflicts :: "conflict_row list"
  mm_conflict_history :: "conflict_event list"
  mm_audit :: "audit_entry list"

definition empty_memory :: memory where
  "empty_memory = \<lparr>mm_sequences = [], mm_evidence = [], mm_records = [], mm_links = [],
     mm_milestones = [], mm_completions = [], mm_verifications = [], mm_verification_links = [],
     mm_conflicts = [], mm_conflict_history = [], mm_audit = []\<rparr>"

section \<open>Constants and helpers\<close>

definition CATEGORIES :: "string list" where
  "CATEGORIES = [''truth'', ''decision'', ''constraint'', ''question'', ''observation'']"

definition ORIGINS :: "string list" where
  "ORIGINS = [''user'', ''agent'', ''project'', ''environment'']"

definition EVIDENCE_KINDS :: "string list" where
  "EVIDENCE_KINDS = [''user_instruction'', ''file'', ''git'', ''test'', ''build'', ''tool'', ''screenshot'',
     ''artifact'', ''environment_probe'', ''migration'', ''external'']"

definition RESERVED_RUBRIC_SCOPE :: string where
  "RESERVED_RUBRIC_SCOPE = ''department-acceptance-rubric:''"

definition MAX_STATEMENT_CHARS :: int where "MAX_STATEMENT_CHARS = 8000"

definition MAX_FIELD_CHARS :: int where "MAX_FIELD_CHARS = 16000"

definition PREFIXES :: "string dict" where
  "PREFIXES = [(''truth'', ''FACT''), (''decision'', ''DEC''), (''constraint'', ''CON''), (''question'', ''Q''),
     (''observation'', ''OBS''), (''evidence'', ''EVID''), (''conflict'', ''CONFLICT''),
     (''verification'', ''VERIFY'')]"

definition required :: "string \<Rightarrow> string \<Rightarrow> int \<Rightarrow> string result" where
  "required value name maximum =
     (if strip value = [] then Inl (MemoryValidationError ''is required'' [name])
      else if maximum < int (length (strip value)) then Inl (MemoryValidationError ''exceeds characters'' [name])
      else Inr (strip value))"

definition optional :: "string option \<Rightarrow> string \<Rightarrow> int \<Rightarrow> string option result" where
  "optional value name maximum = (case value of None \<Rightarrow> Inr None
     | Some v \<Rightarrow> if strip v = [] then Inr None
         else if maximum < int (length (strip v)) then Inl (MemoryValidationError ''exceeds characters'' [name])
         else Inr (Some (strip v)))"

text \<open>\<^verbatim>\<open>_next_id\<close>: the counter of the kind's prefix, zero-padded to three places.\<close>

definition id_text :: "string \<Rightarrow> int \<Rightarrow> string" where
  "id_text prefix n = prefix @ ''-'' @ dec_pad 3 (nat n)"

definition next_id :: "memory \<Rightarrow> string \<Rightarrow> (string \<times> memory) result" where
  "next_id m kind = (case map_of PREFIXES kind of
     None \<Rightarrow> Inl (KeyError kind)
   | Some prefix \<Rightarrow>
       let n = (case map_of (mm_sequences m) prefix of None \<Rightarrow> 1 | Some v \<Rightarrow> v + 1)
       in Inr (id_text prefix n, m\<lparr>mm_sequences := AList.update prefix n (mm_sequences m)\<rparr>))"

definition audit :: "memory \<Rightarrow> string \<Rightarrow> string \<Rightarrow> string \<Rightarrow> string \<Rightarrow> pyval dict \<Rightarrow> string \<Rightarrow> memory" where
  "audit m action etype eid actor details now = m\<lparr>mm_audit := mm_audit m @
     [\<lparr>au_id = int (length (mm_audit m)) + 1, au_action = action, au_entity_type = etype,
       au_entity_id = eid, au_actor = actor, au_details = details, au_created_at = now\<rparr>]\<rparr>"

section \<open>Rows\<close>

definition opt_number :: "int option \<Rightarrow> pyval" where
  "opt_number v = (case v of None \<Rightarrow> PNone | Some n \<Rightarrow> PInt n)"

definition evidence_row :: "evidence_item \<Rightarrow> pyval dict" where
  "evidence_row e = [(''id'', PStr (ev_id e)), (''kind'', PStr (ev_kind e)),
     (''provenance'', PStr (ev_provenance e)), (''trust_level'', PStr (ev_trust_level e)),
     (''summary'', PStr (ev_summary e)), (''path'', opt_text (ev_path e)),
     (''line_start'', opt_number (ev_line_start e)), (''line_end'', opt_number (ev_line_end e)),
     (''content_sha256'', opt_text (ev_content_sha256 e)), (''command'', opt_text (ev_command e)),
     (''result'', opt_text (ev_result e)), (''exit_code'', opt_number (ev_exit_code e)),
     (''tool_name'', opt_text (ev_tool_name e)), (''artifact_path'', opt_text (ev_artifact_path e)),
     (''user_instruction'', opt_text (ev_user_instruction e)),
     (''environment_probe'', opt_text (ev_environment_probe e)), (''created_by'', PStr (ev_created_by e)),
     (''provider'', opt_text (ev_provider e)), (''provider_thread_id'', opt_text (ev_provider_thread_id e)),
     (''created_at'', PStr (ev_created_at e))]"

definition find_evidence :: "memory \<Rightarrow> string \<Rightarrow> evidence_item option" where
  "find_evidence m i = find (\<lambda>e. ev_id e = i) (mm_evidence m)"

definition find_record :: "memory \<Rightarrow> string \<Rightarrow> memory_record option" where
  "find_record m i = find (\<lambda>r. mr_id r = i) (mm_records m)"

definition find_conflict :: "memory \<Rightarrow> string \<Rightarrow> conflict_row option" where
  "find_conflict m i = find (\<lambda>c. cf_id c = i) (mm_conflicts m)"

definition find_verification :: "memory \<Rightarrow> string \<Rightarrow> verification_row option" where
  "find_verification m i = find (\<lambda>v. vr_id v = i) (mm_verifications m)"

text \<open>The columns are texts, so the printer of other values is never asked.\<close>

abbreviation column_text :: "pyval \<Rightarrow> string" where
  "column_text \<equiv> \<lambda>_. []"

definition evidence_below_truth :: "evidence_item \<Rightarrow> bool result" where
  "evidence_below_truth e = row_is_below_truth MemoryValidationError column_text (evidence_row e)"

section \<open>Evidence\<close>

text \<open>The arguments of \<^verbatim>\<open>record_evidence\<close>.\<close>

record evidence_request =
  eq_kind :: string
  eq_summary :: string
  eq_created_by :: string
  eq_milestone_id :: "string option"
  eq_role :: string
  eq_path :: "string option"
  eq_line_start :: "int option"
  eq_line_end :: "int option"
  eq_command :: "string option"
  eq_result :: "string option"
  eq_exit_code :: "int option"
  eq_tool_name :: "string option"
  eq_artifact_path :: "string option"
  eq_user_instruction :: "string option"
  eq_environment_probe :: "string option"
  eq_provider :: "string option"
  eq_provider_thread_id :: "string option"
  eq_writer_thread :: "string option"

text \<open>
  A project directory: \<^verbatim>\<open>_resolve_project_path\<close> gives the project-relative path of a name inside
  it and, for a regular file, the digest and the number of lines of its content.
\<close>

type_synonym project_files = "string \<Rightarrow> (string \<times> (string \<times> int) option) result"

definition resolve_project_path :: "project_files \<Rightarrow> string \<Rightarrow> (string \<times> (string \<times> int) option) result" where
  "resolve_project_path fs raw = bindE (required raw ''path'' 4096) fs"

definition check_evidence_lines :: "int option \<Rightarrow> int option \<Rightarrow> unit result" where
  "check_evidence_lines start stop =
     (if (case start of None \<Rightarrow> False | Some a \<Rightarrow> a < 1) then
        Inl (MemoryValidationError ''line_start must be a positive integer'' [])
      else if (case stop of None \<Rightarrow> False | Some b \<Rightarrow> (case start of None \<Rightarrow> True | Some a \<Rightarrow> b < a)) then
        Inl (MemoryValidationError ''line_end must be >= line_start'' [])
      else Inr ())"

text \<open>The path of the evidence: its relative name and the digest of the file it names.\<close>

definition evidence_path ::
  "project_files \<Rightarrow> string \<Rightarrow> string option \<Rightarrow> int option \<Rightarrow> int option \<Rightarrow> (string option \<times> string option) result"
where
  "evidence_path fs kind path start stop = (case path of None \<Rightarrow> Inr (None, None)
     | Some p \<Rightarrow> bindE (resolve_project_path fs p) (\<lambda>(relative, file). case file of
         Some (digest, lines) \<Rightarrow>
           (case start of None \<Rightarrow> Inr (Some relative, Some digest)
            | Some a \<Rightarrow>
                if a > max 1 lines \<or> (case stop of None \<Rightarrow> False | Some b \<Rightarrow> b > max 1 lines)
                then Inl (MemoryValidationError ''evidence line range exceeds the referenced file'' [])
                else Inr (Some relative, Some digest))
       | None \<Rightarrow> if kind = ''file''
           then Inl (MemoryValidationError ''file evidence path must reference a regular file'' [])
           else Inr (Some relative, None)))"

definition evidence_artifact ::
  "project_files \<Rightarrow> string option \<Rightarrow> string option \<Rightarrow> (string option \<times> string option) result"
where
  "evidence_artifact fs artifact content = (case artifact of None \<Rightarrow> Inr (None, content)
     | Some p \<Rightarrow> bindE (resolve_project_path fs p) (\<lambda>(relative, file).
         Inr (Some relative, case (content, file) of (None, Some (digest, _)) \<Rightarrow> Some digest | _ \<Rightarrow> content)))"

definition missing_text :: "string option \<Rightarrow> string \<Rightarrow> bool result" where
  "missing_text v name = bindE (optional v name MAX_FIELD_CHARS) (\<lambda>t. Inr (t = None))"

definition check_run_evidence :: "evidence_request \<Rightarrow> unit result" where
  "check_run_evidence q = (if eq_kind q \<notin> {''test'', ''build''} then Inr () else
     bindE (missing_text (eq_command q) ''command'') (\<lambda>c.
     if c \<or> eq_exit_code q = None then
       Inl (MemoryValidationError ''evidence requires command, result, and exit_code'' [eq_kind q])
     else bindE (missing_text (eq_result q) ''result'') (\<lambda>r.
     if r then Inl (MemoryValidationError ''evidence requires command, result, and exit_code'' [eq_kind q])
     else Inr ())))"

definition check_needed :: "string \<Rightarrow> string \<Rightarrow> string option \<Rightarrow> string \<Rightarrow> unit result" where
  "check_needed kind wanted value name = (if kind \<noteq> wanted then Inr () else
     bindE (missing_text value name) (\<lambda>b.
     if b then Inl (MemoryValidationError ''evidence requires its text'' [kind, name]) else Inr ()))"

text \<open>
  The milestone and role of the evidence, when it names one: \<open>allowed\<close> is the test of the
  loaded skill packs (\<^verbatim>\<open>require_allowed_skill_evidence_role\<close>).
\<close>

definition evidence_milestone ::
  "(string \<Rightarrow> string \<Rightarrow> unit result) \<Rightarrow> string option \<Rightarrow> string \<Rightarrow> (string \<times> string) option result"
where
  "evidence_milestone allowed milestone role =
     (if (case milestone of None \<Rightarrow> True | Some i \<Rightarrow> i = []) then Inr None else
      bindE (required (case milestone of None \<Rightarrow> [] | Some i \<Rightarrow> i) ''milestone_id'' 128) (\<lambda>i.
      bindE (required role ''role'' 64) (\<lambda>r. bindE (allowed i r) (\<lambda>_. Inr (Some (i, r))))))"

text \<open>
  The checks before the transaction give the normalized request with its trust, relative
  paths, content digest and milestone.
\<close>

definition check_evidence ::
  "project_files \<Rightarrow> (string \<Rightarrow> string \<Rightarrow> unit result) \<Rightarrow> evidence_request
    \<Rightarrow> (evidence_request \<times> evidence_trust \<times> string option \<times> (string \<times> string) option) result"
where
  "check_evidence fs allowed q =
     bindE (required (eq_kind q) ''kind'' 64) (\<lambda>kind.
     if kind \<notin> set EVIDENCE_KINDS then
       Inl (MemoryValidationError ''unsupported evidence kind'' (kind # sorted_set EVIDENCE_KINDS))
     else
     bindE (required (eq_summary q) ''summary'' MAX_FIELD_CHARS) (\<lambda>summary.
     bindE (required (eq_created_by q) ''created_by'' 256) (\<lambda>actor.
     if kind = ''external'' \<and> strip (case eq_provider q of None \<Rightarrow> [] | Some p \<Rightarrow> p) = [] then
       Inl (MemoryValidationError ''R18: external evidence requires a non-empty provider'' [])
     else
     bindE (classify_evidence MemoryValidationError kind (eq_provider q)) (\<lambda>trust.
     bindE (check_evidence_lines (eq_line_start q) (eq_line_end q)) (\<lambda>_.
     bindE (evidence_path fs kind (eq_path q) (eq_line_start q) (eq_line_end q)) (\<lambda>(relative, content).
     if kind \<in> {''file'', ''artifact'', ''screenshot''} \<and> relative = None \<and> eq_artifact_path q = None then
       Inl (MemoryValidationError ''evidence requires a project path'' [kind])
     else
     bindE (evidence_artifact fs (eq_artifact_path q) content) (\<lambda>(artifact, digest).
     bindE (check_run_evidence (q\<lparr>eq_kind := kind\<rparr>)) (\<lambda>_.
     bindE (check_needed kind ''tool'' (eq_tool_name q) ''tool_name'') (\<lambda>_.
     bindE (check_needed kind ''user_instruction'' (eq_user_instruction q) ''user_instruction'') (\<lambda>_.
     bindE (check_needed kind ''environment_probe'' (eq_environment_probe q) ''environment_probe'') (\<lambda>_.
     bindE (evidence_milestone allowed (eq_milestone_id q) (eq_role q)) (\<lambda>milestone.
     Inr (q\<lparr>eq_kind := kind, eq_summary := summary, eq_created_by := actor, eq_path := relative,
       eq_artifact_path := artifact\<rparr>, trust, digest, milestone)))))))))))))"

text \<open>The row of the transaction, whose texts are trimmed when they are bound.\<close>

definition evidence_of ::
  "string \<Rightarrow> string \<Rightarrow> evidence_request \<Rightarrow> evidence_trust \<Rightarrow> string option \<Rightarrow> evidence_item result"
where
  "evidence_of now i q trust digest =
     bindE (optional (eq_command q) ''command'' MAX_FIELD_CHARS) (\<lambda>command.
     bindE (optional (eq_result q) ''result'' MAX_FIELD_CHARS) (\<lambda>outcome.
     bindE (optional (eq_tool_name q) ''tool_name'' 256) (\<lambda>tool.
     bindE (optional (eq_user_instruction q) ''user_instruction'' MAX_FIELD_CHARS) (\<lambda>instruction.
     bindE (optional (eq_environment_probe q) ''environment_probe'' MAX_FIELD_CHARS) (\<lambda>probe.
     bindE (optional (eq_provider q) ''provider'' 128) (\<lambda>provider.
     bindE (optional (eq_provider_thread_id q) ''provider_thread_id'' 256) (\<lambda>thread.
     Inr \<lparr>ev_id = i, ev_kind = eq_kind q, ev_provenance = provenance_value (et_provenance trust),
       ev_trust_level = level_value (et_level trust), ev_summary = eq_summary q, ev_path = eq_path q,
       ev_line_start = eq_line_start q, ev_line_end = eq_line_end q, ev_content_sha256 = digest,
       ev_command = command, ev_result = outcome, ev_exit_code = eq_exit_code q, ev_tool_name = tool,
       ev_artifact_path = eq_artifact_path q, ev_user_instruction = instruction,
       ev_environment_probe = probe, ev_created_by = eq_created_by q, ev_provider = provider,
       ev_provider_thread_id = thread, ev_created_at = now\<rparr>)))))))"

definition insert_evidence :: "memory \<Rightarrow> evidence_item \<Rightarrow> memory result" where
  "insert_evidence m e = (if ev_id e \<in> set (map ev_id (mm_evidence m)) then Inl (IntegrityError ''evidence.id'')
     else Inr (m\<lparr>mm_evidence := mm_evidence m @ [e]\<rparr>))"

definition link_milestone :: "string \<Rightarrow> memory \<Rightarrow> (string \<times> string) option \<Rightarrow> string \<Rightarrow> memory" where
  "link_milestone now m milestone i = (case milestone of None \<Rightarrow> m
     | Some (milestone_id, role) \<Rightarrow> m\<lparr>mm_milestones := mm_milestones m @
         [\<lparr>ml_milestone_id = milestone_id, ml_evidence_id = i, ml_role = role, ml_created_at = now\<rparr>]\<rparr>)"

definition record_evidence ::
  "project_files \<Rightarrow> (string \<Rightarrow> string \<Rightarrow> unit result) \<Rightarrow> string \<Rightarrow> memory \<Rightarrow> evidence_request \<Rightarrow> (string \<times> memory) result"
where
  "record_evidence fs allowed now m q =
     bindE (check_evidence fs allowed q) (\<lambda>(q', trust, digest, milestone).
     bindE (next_id m ''evidence'') (\<lambda>(i, m1).
     bindE (evidence_of now i q' trust digest) (\<lambda>e.
     bindE (insert_evidence m1 e) (\<lambda>m2.
     Inr (i, audit (link_milestone now m2 milestone i) ''record'' ''evidence'' i (eq_created_by q')
       ([(''kind'', PStr (eq_kind q')), (''milestone_id'', opt_text (map_option fst milestone))]
        @ (case eq_writer_thread q' of None \<Rightarrow> [] | Some w \<Rightarrow> if w = [] then [] else [(''writer_thread'', PStr w)]))
       now)))))"

text \<open>What a caller gets back: \<^verbatim>\<open>get_evidence\<close> of the new row.\<close>

definition get_evidence :: "memory \<Rightarrow> string \<Rightarrow> pyval dict result" where
  "get_evidence m i = (case find_evidence m i of
     None \<Rightarrow> Inl (MemoryValidationError ''unknown evidence'' [i])
   | Some e \<Rightarrow> Inr (evidence_row e
       @ [(''records'', PList (map (\<lambda>l. PDict [(''record_id'', PStr (li_record_id l)), (''relation'', PStr (li_relation l))])
            (sort_key li_record_id (filter (\<lambda>l. li_evidence_id l = i) (mm_links m))))),
          (''verification_results'', PList (map PStr (sort
            (map vl_verification_id (filter (\<lambda>l. vl_evidence_id l = i) (mm_verification_links m))))))]))"

text \<open>\<^verbatim>\<open>evidence_writer_thread\<close>, from the first audit entry of the recording.\<close>

definition evidence_writer_thread :: "(pyval \<Rightarrow> string) \<Rightarrow> memory \<Rightarrow> string \<Rightarrow> string" where
  "evidence_writer_thread rp m i =
     (case find (\<lambda>a. au_entity_type a = ''evidence'' \<and> au_entity_id a = i \<and> au_action a = ''record'') (mm_audit m) of
        None \<Rightarrow> []
      | Some a \<Rightarrow> str_of rp (py_or (get (au_details a) ''writer_thread'') (PStr [])))"

section \<open>The verification ledger\<close>

definition RUNTIME_ATTESTATION_KEY :: string where
  "RUNTIME_ATTESTATION_KEY = ''runtime_attestation''"

definition RUNTIME_VERIFICATION_AUTHORITY :: string where
  "RUNTIME_VERIFICATION_AUTHORITY = ''codex-autopilot-runtime''"

text \<open>The arguments of \<^verbatim>\<open>record_verification_result\<close>.\<close>

record verification_request =
  vq_task_id :: string
  vq_check_id :: string
  vq_policy :: string
  vq_verdict :: string
  vq_summary :: string
  vq_evidence_ids :: "string list"
  vq_created_by :: string
  vq_provider_thread_id :: string
  vq_provider_turn_id :: string
  vq_details :: "pyval dict option"
  vq_provider :: "string option"

definition authority_kind :: "string \<Rightarrow> string option" where
  "authority_kind policy = (if policy = ''deterministic'' then Some ''deterministic_runner''
     else if policy = ''independent'' then Some ''fresh_verifier'' else None)"

text \<open>The attestation of a row: who observed which check of which task, in which turn.\<close>

definition attestation_for ::
  "string \<Rightarrow> pyval \<Rightarrow> pyval \<Rightarrow> pyval \<Rightarrow> pyval \<Rightarrow> pyval \<Rightarrow> pyval \<Rightarrow> pyval dict"
where
  "attestation_for kind task check policy provider thread turn =
     [(''schema_version'', PInt 1), (''authority'', PStr RUNTIME_VERIFICATION_AUTHORITY),
      (''authority_kind'', PStr kind), (''task_id'', task), (''check_id'', check), (''policy'', policy),
      (''provider'', provider), (''provider_thread_id'', thread), (''provider_turn_id'', turn)]"

text \<open>The details of a trimmed request, with the attestation when the runtime records it.\<close>

definition request_details :: "verification_request \<Rightarrow> pyval dict" where
  "request_details q = (case vq_details q of None \<Rightarrow> [] | Some d \<Rightarrow> d)"

definition attest :: "bool \<Rightarrow> verification_request \<Rightarrow> (verification_request \<times> pyval dict) result" where
  "attest attested q =
     (if vq_evidence_ids q = [] then
        Inl (MemoryValidationError ''verification results require at least one existing evidence ID'' [])
      else if [] \<in> set (vq_evidence_ids q) \<or> \<not> distinct (vq_evidence_ids q) then
        Inl (MemoryValidationError ''verification evidence IDs must be unique'' [])
      else if RUNTIME_ATTESTATION_KEY \<in> set (keys (request_details q)) then
        Inl (MemoryValidationError ''details field is reserved for the runtime'' [RUNTIME_ATTESTATION_KEY])
      else if attested then (case authority_kind (vq_policy q) of
          None \<Rightarrow> Inl (MemoryValidationError ''runtime attestation requires deterministic or independent policy'' [])
        | Some kind \<Rightarrow> Inr (q, request_details q @ [(RUNTIME_ATTESTATION_KEY, PDict (attestation_for kind
            (PStr (vq_task_id q)) (PStr (vq_check_id q)) (PStr (vq_policy q)) (opt_text (vq_provider q))
            (PStr (vq_provider_thread_id q)) (PStr (vq_provider_turn_id q))))]))
      else Inr (q, request_details q))"

text \<open>The request with its texts trimmed, and its details.\<close>

definition check_verification :: "bool \<Rightarrow> verification_request \<Rightarrow> (verification_request \<times> pyval dict) result" where
  "check_verification attested q =
     bindE (required (vq_task_id q) ''task_id'' 128) (\<lambda>task.
     bindE (required (vq_check_id q) ''check_id'' 128) (\<lambda>check.
     if vq_policy q \<notin> {''self'', ''deterministic'', ''independent'', ''auto''} then
       Inl (MemoryValidationError ''unsupported verification policy'' [])
     else
     bindE (required (vq_verdict q) ''verdict'' 16) (\<lambda>verdict.
     if upper verdict \<notin> {''PASS'', ''REVISE''} then
       Inl (MemoryValidationError ''verification verdict must be PASS or REVISE'' [])
     else
     bindE (required (vq_summary q) ''summary'' MAX_FIELD_CHARS) (\<lambda>summary.
     bindE (required (vq_created_by q) ''created_by'' 256) (\<lambda>actor.
     bindE (required (vq_provider_thread_id q) ''provider_thread_id'' 256) (\<lambda>thread.
     bindE (required (vq_provider_turn_id q) ''provider_turn_id'' 256) (\<lambda>turn.
     bindE (optional (vq_provider q) ''provider'' 128) (\<lambda>provider.
     attest attested (q\<lparr>vq_task_id := task, vq_check_id := check, vq_verdict := upper verdict, vq_summary := summary,
       vq_evidence_ids := map strip (vq_evidence_ids q), vq_created_by := actor, vq_provider_thread_id := thread,
       vq_provider_turn_id := turn, vq_provider := provider\<rparr>)))))))))"

definition cited :: "memory \<Rightarrow> string list \<Rightarrow> evidence_item list result" where
  "cited m ids =
     (let missing = filter (\<lambda>i. find_evidence m i = None) ids in
      if missing \<noteq> [] then Inl (MemoryValidationError ''unknown evidence'' missing)
      else Inr (map (\<lambda>i. the (find_evidence m i)) ids))"

text \<open>A row with the same causal identity: only the same payload is accepted again.\<close>

definition same_verification :: "memory \<Rightarrow> verification_request \<Rightarrow> string \<Rightarrow> verification_row \<Rightarrow> bool" where
  "same_verification m q details_json v \<longleftrightarrow>
     vr_policy v = vq_policy q \<and> vr_verdict v = vq_verdict q \<and> vr_summary v = vq_summary q
     \<and> vr_details_json v = details_json \<and> vr_created_by v = vq_created_by q \<and> vr_provider v = vq_provider q
     \<and> set (map vl_evidence_id (filter (\<lambda>l. vl_verification_id l = vr_id v) (mm_verification_links m)))
         = set (vq_evidence_ids q)"

definition find_causal :: "memory \<Rightarrow> verification_request \<Rightarrow> verification_row option" where
  "find_causal m q = find (\<lambda>v. vr_task_id v = vq_task_id q \<and> vr_check_id v = vq_check_id q
     \<and> vr_provider_thread_id v = vq_provider_thread_id q \<and> vr_provider_turn_id v = vq_provider_turn_id q)
     (mm_verifications m)"

definition verification_of :: "string \<Rightarrow> string \<Rightarrow> verification_request \<Rightarrow> string \<Rightarrow> verification_row" where
  "verification_of now i q details_json =
     \<lparr>vr_id = i, vr_task_id = vq_task_id q, vr_check_id = vq_check_id q, vr_policy = vq_policy q,
      vr_verdict = vq_verdict q, vr_summary = vq_summary q, vr_details_json = details_json,
      vr_created_by = vq_created_by q, vr_provider = vq_provider q,
      vr_provider_thread_id = vq_provider_thread_id q, vr_provider_turn_id = vq_provider_turn_id q,
      vr_created_at = now\<rparr>"

definition insert_verification :: "string \<Rightarrow> bool \<Rightarrow> memory \<Rightarrow> verification_request \<Rightarrow> string \<Rightarrow> (string \<times> memory) result" where
  "insert_verification now attested m q details_json =
     bindE (next_id m ''verification'') (\<lambda>(i, m1).
     if i \<in> set (map vr_id (mm_verifications m1)) then Inl (IntegrityError ''verification_results.id'') else
     let m2 = m1\<lparr>mm_verifications := mm_verifications m1 @ [verification_of now i q details_json],
           mm_verification_links := mm_verification_links m1 @
             map (\<lambda>e. \<lparr>vl_verification_id = i, vl_evidence_id = e, vl_created_at = now\<rparr>) (vq_evidence_ids q)\<rparr>
     in Inr (i, audit m2 ''record'' ''verification'' i (vq_created_by q)
          [(''task_id'', PStr (vq_task_id q)), (''check_id'', PStr (vq_check_id q)), (''policy'', PStr (vq_policy q)),
           (''verdict'', PStr (vq_verdict q)), (''evidence_ids'', PList (map PStr (vq_evidence_ids q))),
           (''provider_thread_id'', PStr (vq_provider_thread_id q)),
           (''provider_turn_id'', PStr (vq_provider_turn_id q)), (''runtime_attested'', PBool attested)] now))"

definition record_verification_result ::
  "(rat \<Rightarrow> string) \<Rightarrow> string \<Rightarrow> bool \<Rightarrow> memory \<Rightarrow> verification_request \<Rightarrow> (string \<times> memory) result"
where
  "record_verification_result fl now attested m q =
     bindE (check_verification attested q) (\<lambda>(q', details).
     let details_json = json_text fl (PDict details) in
     if MAX_FIELD_CHARS < int (length details_json) then
       Inl (MemoryValidationError ''verification details exceed characters'' [])
     else
     bindE (cited m (vq_evidence_ids q')) (\<lambda>items.
     bindE (require_truth_rows MemoryValidationError column_text
       ''R18: untrusted material cannot support verification outcomes'' (map evidence_row items)) (\<lambda>_.
     case find_causal m q' of
       Some v \<Rightarrow> if same_verification m q' details_json v then Inr (vr_id v, m)
         else Inl (MemoryValidationError ''verification causal identity already has a different payload'' [])
     | None \<Rightarrow> insert_verification now attested m q' details_json)))"

text \<open>\<^verbatim>\<open>get_verification_result\<close>: the row, its details read back and its evidence rows in order.\<close>

definition verification_evidence :: "memory \<Rightarrow> string \<Rightarrow> evidence_item list" where
  "verification_evidence m i = sort_key ev_created_at (sort_key ev_id
     (filter (\<lambda>e. (i, ev_id e) \<in> set (map (\<lambda>l. (vl_verification_id l, vl_evidence_id l)) (mm_verification_links m)))
       (mm_evidence m)))"

definition verification_dict :: "memory \<Rightarrow> verification_row \<Rightarrow> pyval \<Rightarrow> pyval dict" where
  "verification_dict m v details = [(''id'', PStr (vr_id v)), (''task_id'', PStr (vr_task_id v)),
     (''check_id'', PStr (vr_check_id v)), (''policy'', PStr (vr_policy v)), (''verdict'', PStr (vr_verdict v)),
     (''summary'', PStr (vr_summary v)), (''created_by'', PStr (vr_created_by v)),
     (''provider'', opt_text (vr_provider v)), (''provider_thread_id'', PStr (vr_provider_thread_id v)),
     (''provider_turn_id'', PStr (vr_provider_turn_id v)), (''created_at'', PStr (vr_created_at v)),
     (''details'', details),
     (''evidence'', PList (map (\<lambda>e. PDict (evidence_row e)) (verification_evidence m (vr_id v))))]"

definition get_verification_result :: "memory \<Rightarrow> string \<Rightarrow> pyval dict result" where
  "get_verification_result m i = (case find_verification m i of
     None \<Rightarrow> Inl (MemoryValidationError ''unknown verification result'' [i])
   | Some v \<Rightarrow> (case json_loads (vr_details_json v) of
       None \<Rightarrow> Inl JSONDecodeError
     | Some details \<Rightarrow> Inr (verification_dict m v details)))"

text \<open>\<^verbatim>\<open>evidence_that_may_support\<close>: the ids of the rows an outcome may rest on.\<close>

definition evidence_that_may_support :: "(pyval \<Rightarrow> string) \<Rightarrow> pyval dict list \<Rightarrow> string list result" where
  "evidence_that_may_support rp rows =
     bindE (filterE (\<lambda>row. bindE (row_is_below_truth TrustBoundaryViolation rp row) (\<lambda>b. Inr (\<not> b))) rows) (\<lambda>ok.
     mapE (\<lambda>row. case map_of row ''id'' of None \<Rightarrow> Inl (KeyError ''id'') | Some v \<Rightarrow> Inr (str_of rp v)) ok)"

section \<open>Milestones\<close>

text \<open>\<^verbatim>\<open>milestone_evidence\<close>: the linked evidence recorded after an audit entry, in audit order.\<close>

definition milestone_evidence :: "memory \<Rightarrow> string \<Rightarrow> int \<Rightarrow> int \<Rightarrow> pyval dict list result" where
  "milestone_evidence m milestone after limit =
     (if limit < 1 \<or> 100 < limit then Inl (MemoryValidationError ''limit must be between 1 and 100'' [])
      else Inr (take (nat limit) (concat (map (\<lambda>a.
        concat (map (\<lambda>l. case find_evidence m (ml_evidence_id l) of
            None \<Rightarrow> [] | Some e \<Rightarrow> [evidence_row e @ [(''role'', PStr (ml_role l))]])
          (filter (\<lambda>l. ml_milestone_id l = milestone \<and> ml_evidence_id l = au_entity_id a) (mm_milestones m))))
        (filter (\<lambda>a. au_entity_type a = ''evidence'' \<and> au_action a = ''record'' \<and> after < au_id a) (mm_audit m))))))"

definition audit_highwater :: "memory \<Rightarrow> int" where
  "audit_highwater m = fold max (map au_id (mm_audit m)) 0"

definition mark_milestone_complete :: "string \<Rightarrow> memory \<Rightarrow> string \<Rightarrow> string \<Rightarrow> int \<Rightarrow> string \<Rightarrow> (nat \<times> memory) result" where
  "mark_milestone_complete now m milestone_id run_id worker_sequence source =
     bindE (required milestone_id ''milestone_id'' 128) (\<lambda>milestone.
     bindE (required run_id ''run_id'' 256) (\<lambda>run.
     bindE (required source ''source'' 128) (\<lambda>src.
     let count = length (filter (\<lambda>l. ml_milestone_id l = milestone) (mm_milestones m));
         row = \<lparr>mc_milestone_id = milestone, mc_run_id = run, mc_worker_sequence = worker_sequence,
           mc_evidence_count = count, mc_source = src, mc_completed_at = now\<rparr>
     in if count = 0 then Inl (MemoryValidationError ''milestone has no recorded evidence'' [milestone])
        else Inr (count, audit (m\<lparr>mm_completions :=
            (if milestone \<in> set (map mc_milestone_id (mm_completions m))
             then map (\<lambda>c. if mc_milestone_id c = milestone then row else c) (mm_completions m)
             else mm_completions m @ [row])\<rparr>)
          ''complete'' ''milestone'' milestone (''dispatcher:'' @ run)
          [(''evidence_count'', PInt (int count)), (''source'', PStr src)] now))))"

end
