(* ===== verification/MemoryRecords.thy ===== *)
theory MemoryRecords
  imports MemoryStore
begin

text \<open>
  The records of Project Memory (\<^verbatim>\<open>memory.py\<close>): truths, decisions, constraints, questions and
  observations, the evidence attached to them, and the disputes over truths
  (\<^verbatim>\<open>memory_conflicts.py\<close>). The theorems are about every sequence of these operations: what
  rests on outside material never governs the work unless the user decided it, a department
  rubric is touched by the runtime only, and a runtime attestation is written by the runtime.
\<close>

section \<open>Records\<close>

text \<open>The arguments of \<^verbatim>\<open>_create_record\<close>.\<close>

record record_request =
  rq_category :: string
  rq_statement :: string
  rq_origin :: string
  rq_status :: string
  rq_created_by :: string
  rq_reason :: "string option"
  rq_scope :: string
  rq_needed_for :: "string option"
  rq_confidence :: "string option"
  rq_verification_method :: "string option"
  rq_evidence_ids :: "string list"
  rq_supersedes_id :: "string option"
  rq_provider :: "string option"
  rq_provider_thread_id :: "string option"
  rq_reserved_scope :: bool

definition in_rubric_scope :: "string \<Rightarrow> bool" where
  "in_rubric_scope scope \<longleftrightarrow> startswith scope RESERVED_RUBRIC_SCOPE"

text \<open>\<^verbatim>\<open>_refuse_rubric_records\<close>.\<close>

definition refuse_rubric_records :: "memory \<Rightarrow> string list \<Rightarrow> string \<Rightarrow> unit result" where
  "refuse_rubric_records m ids doing =
     (let rubrics = filter (\<lambda>r. mr_id r \<in> set ids \<and> in_rubric_scope (mr_scope r)) (mm_records m) in
      if rubrics \<noteq> [] then Inl (MemoryValidationError ''R30: is a department rubric'' (doing # map mr_id rubrics))
      else Inr ())"

definition record_of :: "string \<Rightarrow> string \<Rightarrow> string \<Rightarrow> string \<Rightarrow> record_request \<Rightarrow> memory_record result" where
  "record_of now i statement actor q =
     bindE (optional (rq_reason q) ''reason'' MAX_FIELD_CHARS) (\<lambda>reason.
     bindE (required (rq_scope q) ''scope'' 256) (\<lambda>scope.
     bindE (optional (rq_needed_for q) ''needed_for'' 256) (\<lambda>needed.
     bindE (optional (rq_confidence q) ''confidence'' 32) (\<lambda>confidence.
     bindE (optional (rq_verification_method q) ''verification_method'' 512) (\<lambda>how.
     bindE (optional (rq_provider q) ''provider'' 128) (\<lambda>provider.
     bindE (optional (rq_provider_thread_id q) ''provider_thread_id'' 256) (\<lambda>thread.
     Inr \<lparr>mr_id = i, mr_category = rq_category q, mr_statement = statement, mr_origin = rq_origin q,
       mr_status = rq_status q, mr_reason = reason, mr_scope = scope, mr_needed_for = needed,
       mr_confidence = confidence, mr_verification_method = how, mr_created_by = actor,
       mr_provider = provider, mr_provider_thread_id = thread, mr_supersedes_id = rq_supersedes_id q,
       mr_created_at = now, mr_updated_at = now\<rparr>)))))))"

definition insert_record :: "memory \<Rightarrow> memory_record \<Rightarrow> memory result" where
  "insert_record m r = (if mr_id r \<in> set (map mr_id (mm_records m)) then Inl (IntegrityError ''records.id'')
     else Inr (m\<lparr>mm_records := mm_records m @ [r]\<rparr>))"

definition link_key :: "evidence_link \<Rightarrow> string \<times> string \<times> string" where
  "link_key l = (li_record_id l, li_evidence_id l, li_relation l)"

fun insert_links :: "string \<Rightarrow> string \<Rightarrow> memory \<Rightarrow> string list \<Rightarrow> memory result" where
  "insert_links now i m [] = Inr m"
| "insert_links now i m (e # es) =
     (if (i, e, ''supports'') \<in> set (map link_key (mm_links m)) then Inl (IntegrityError ''record_evidence'')
      else insert_links now i (m\<lparr>mm_links := mm_links m @
        [\<lparr>li_record_id = i, li_evidence_id = e, li_relation = ''supports'', li_created_at = now\<rparr>]\<rparr>) es)"

definition create_record :: "string \<Rightarrow> memory \<Rightarrow> record_request \<Rightarrow> (string \<times> memory) result" where
  "create_record now m q =
     (if rq_category q \<notin> set CATEGORIES then
        Inl (MemoryValidationError ''unsupported category'' [rq_category q])
      else if \<not> rq_reserved_scope q \<and> in_rubric_scope (strip (rq_scope q)) then
        Inl (MemoryValidationError ''scope is reserved for department rubrics'' [rq_scope q])
      else bindE (required (rq_statement q) ''statement'' MAX_STATEMENT_CHARS) (\<lambda>statement.
      if rq_origin q \<notin> set ORIGINS then Inl (MemoryValidationError ''unsupported origin'' [rq_origin q])
      else bindE (required (rq_created_by q) ''created_by'' 256) (\<lambda>actor.
      if (case rq_supersedes_id q of None \<Rightarrow> False | Some s \<Rightarrow> s \<noteq> [] \<and> find_record m s = None) then
        Inl (MemoryValidationError ''unknown superseded record'' [case rq_supersedes_id q of None \<Rightarrow> [] | Some s \<Rightarrow> s])
      else (case find (\<lambda>e. find_evidence m e = None) (rq_evidence_ids q) of
        Some e \<Rightarrow> Inl (MemoryValidationError ''unknown evidence'' [e])
      | None \<Rightarrow>
          bindE (next_id m (rq_category q)) (\<lambda>(i, m1).
          bindE (record_of now i statement actor q) (\<lambda>r.
          bindE (insert_record m1 r) (\<lambda>m2.
          bindE (insert_links now i m2 (rq_evidence_ids q)) (\<lambda>m3.
          Inr (i, audit m3 ''create'' (rq_category q) i actor
            [(''origin'', PStr (rq_origin q)), (''status'', PStr (rq_status q))] now)))))))))"

text \<open>The rows an operation's evidence ids name, in table order.\<close>

definition rows_in :: "memory \<Rightarrow> string list \<Rightarrow> evidence_item list" where
  "rows_in m ids = filter (\<lambda>e. ev_id e \<in> set ids) (mm_evidence m)"

definition any_below_truth :: "evidence_item list \<Rightarrow> bool result" where
  "any_below_truth items = any_row_is_below_truth MemoryValidationError column_text (map evidence_row items)"

definition has_external_evidence :: "memory \<Rightarrow> string list \<Rightarrow> bool result" where
  "has_external_evidence m ids = (if ids = [] then Inr False else any_below_truth (rows_in m ids))"

definition BINDING_STATUSES :: "string list" where
  "BINDING_STATUSES = [''accepted'', ''active'', ''verified'']"

text \<open>\<^verbatim>\<open>_rests_on_external\<close>: the evidence that supports the record.\<close>

definition supporters :: "memory \<Rightarrow> string \<Rightarrow> evidence_item list" where
  "supporters m i = concat (map (\<lambda>l. case find_evidence m (li_evidence_id l) of None \<Rightarrow> [] | Some e \<Rightarrow> [e])
     (filter (\<lambda>l. li_record_id l = i \<and> li_relation l = ''supports'') (mm_links m)))"

definition rests_on_external :: "memory \<Rightarrow> string \<Rightarrow> bool result" where
  "rests_on_external m i = any_below_truth (supporters m i)"

definition update_record :: "string \<Rightarrow> (memory_record \<Rightarrow> memory_record) \<Rightarrow> memory \<Rightarrow> memory" where
  "update_record i f m = m\<lparr>mm_records := map (\<lambda>r. if mr_id r = i then f r else r) (mm_records m)\<rparr>"

definition set_record_status ::
  "string \<Rightarrow> memory \<Rightarrow> string \<Rightarrow> string \<Rightarrow> string \<Rightarrow> string \<Rightarrow> string option \<Rightarrow> memory result"
where
  "set_record_status now m i category status actor reason = (case find_record m i of
     None \<Rightarrow> Inl (MemoryValidationError ''is not a'' [i, category])
   | Some r \<Rightarrow>
       if mr_category r \<noteq> category then Inl (MemoryValidationError ''is not a'' [i, category])
       else bindE (if status \<in> set BINDING_STATUSES \<and> mr_origin r \<noteq> ''user'' then rests_on_external m i
                   else Inr False) (\<lambda>external.
       if external then Inl (MemoryValidationError ''R18: rests on external content'' [i, status])
       else bindE (optional reason ''reason'' MAX_FIELD_CHARS) (\<lambda>text.
       Inr (audit (update_record i (\<lambda>r. r\<lparr>mr_status := status,
              mr_reason := (case text of None \<Rightarrow> mr_reason r | Some t \<Rightarrow> Some t), mr_updated_at := now\<rparr>) m)
            ''status'' category i actor [(''status'', PStr status), (''reason'', opt_text reason)] now))))"

section \<open>Decisions, constraints, questions and observations\<close>

definition DECISION_STATUSES :: "string list" where
  "DECISION_STATUSES = [''proposed'', ''accepted'', ''superseded'', ''rejected'']"

definition plain_request :: "string \<Rightarrow> string \<Rightarrow> string \<Rightarrow> string \<Rightarrow> string \<Rightarrow> string \<Rightarrow> record_request" where
  "plain_request category statement origin status actor scope =
     \<lparr>rq_category = category, rq_statement = statement, rq_origin = origin, rq_status = status,
      rq_created_by = actor, rq_reason = None, rq_scope = scope, rq_needed_for = None,
      rq_confidence = None, rq_verification_method = None, rq_evidence_ids = [], rq_supersedes_id = None,
      rq_provider = None, rq_provider_thread_id = None, rq_reserved_scope = False\<rparr>"

definition add_observation ::
  "string \<Rightarrow> memory \<Rightarrow> string \<Rightarrow> string \<Rightarrow> string \<Rightarrow> string \<Rightarrow> string option \<Rightarrow> string option \<Rightarrow> string option
    \<Rightarrow> (string \<times> memory) result"
where
  "add_observation now m statement actor confidence scope reason provider thread =
     (if confidence \<notin> {''low'', ''medium'', ''high''} then
        Inl (MemoryValidationError ''observation confidence must be low, medium, or high'' [])
      else create_record now m ((plain_request ''observation'' statement ''agent'' ''unverified'' actor scope)
        \<lparr>rq_confidence := Some confidence, rq_reason := reason, rq_provider := provider,
         rq_provider_thread_id := thread\<rparr>))"

definition propose_decision ::
  "string \<Rightarrow> memory \<Rightarrow> string \<Rightarrow> string \<Rightarrow> string \<Rightarrow> string \<Rightarrow> string option \<Rightarrow> string \<Rightarrow> string list
    \<Rightarrow> string option \<Rightarrow> string option \<Rightarrow> (string \<times> memory) result"
where
  "propose_decision now m statement origin actor status reason scope ids provider thread =
     (if status \<notin> set DECISION_STATUSES then Inl (MemoryValidationError ''invalid decision status'' [])
      else if origin = ''agent'' \<and> status = ''accepted'' then
        Inl (MemoryValidationError ''agent-origin decisions must begin as proposed'' [])
      else bindE (if status = ''accepted'' \<and> origin \<noteq> ''user'' then has_external_evidence m ids else Inr False) (\<lambda>external.
      if external then
        Inl (MemoryValidationError ''R18: a non-user decision resting on external content must begin as proposed'' [])
      else create_record now m ((plain_request ''decision'' statement origin status actor scope)
        \<lparr>rq_reason := reason, rq_evidence_ids := ids, rq_provider := provider, rq_provider_thread_id := thread\<rparr>)))"

definition set_decision_status ::
  "string \<Rightarrow> memory \<Rightarrow> string \<Rightarrow> string \<Rightarrow> string \<Rightarrow> string option \<Rightarrow> memory result"
where
  "set_decision_status now m i status actor reason =
     (if status \<notin> set DECISION_STATUSES then Inl (MemoryValidationError ''invalid decision status'' [])
      else set_record_status now m i ''decision'' status actor reason)"

definition add_constraint ::
  "string \<Rightarrow> memory \<Rightarrow> string \<Rightarrow> string \<Rightarrow> string \<Rightarrow> string \<Rightarrow> string option \<Rightarrow> string list \<Rightarrow> (string \<times> memory) result"
where
  "add_constraint now m statement origin actor scope reason ids =
     bindE (if origin \<noteq> ''user'' then has_external_evidence m ids else Inr False) (\<lambda>external.
     if external then
       Inl (MemoryValidationError ''R18: a non-user constraint cannot rest on external content'' [])
     else create_record now m ((plain_request ''constraint'' statement origin ''active'' actor scope)
       \<lparr>rq_reason := reason, rq_evidence_ids := ids\<rparr>))"

definition open_question ::
  "string \<Rightarrow> memory \<Rightarrow> string \<Rightarrow> string \<Rightarrow> string option \<Rightarrow> string \<Rightarrow> (string \<times> memory) result"
where
  "open_question now m question actor needed scope = create_record now m
     ((plain_request ''question'' question ''agent'' ''open'' actor scope)\<lparr>rq_needed_for := needed\<rparr>)"

text \<open>\<^verbatim>\<open>INSERT OR IGNORE\<close>: the new table, and whether a row was inserted.\<close>

definition link_or_ignore :: "string \<Rightarrow> string \<Rightarrow> string \<Rightarrow> string \<Rightarrow> memory \<Rightarrow> bool \<times> memory" where
  "link_or_ignore now i e relation m =
     (if (i, e, relation) \<in> set (map link_key (mm_links m)) then (False, m)
      else (True, m\<lparr>mm_links := mm_links m @
        [\<lparr>li_record_id = i, li_evidence_id = e, li_relation = relation, li_created_at = now\<rparr>]\<rparr>))"

fun link_answers :: "string \<Rightarrow> string \<Rightarrow> memory \<Rightarrow> string list \<Rightarrow> memory result" where
  "link_answers now i m [] = Inr m"
| "link_answers now i m (e # es) = (if find_evidence m e = None then Inl (MemoryValidationError ''unknown evidence'' [e])
     else link_answers now i (snd (link_or_ignore now i e ''supports'' m)) es)"

definition resolve_question ::
  "string \<Rightarrow> memory \<Rightarrow> string \<Rightarrow> string \<Rightarrow> string \<Rightarrow> string list \<Rightarrow> memory result"
where
  "resolve_question now m i actor reason ids =
     bindE (required actor ''actor'' 256) (\<lambda>a.
     bindE (required reason ''reason'' MAX_FIELD_CHARS) (\<lambda>text.
     let evidence = map strip ids in
     if [] \<in> set evidence \<or> \<not> distinct evidence then
       Inl (MemoryValidationError ''question evidence IDs must be unique'' [])
     else (case find_record m i of
       None \<Rightarrow> Inl (MemoryValidationError ''is not a question'' [i])
     | Some r \<Rightarrow> if mr_category r \<noteq> ''question'' then Inl (MemoryValidationError ''is not a question'' [i])
         else bindE (link_answers now i m evidence) (\<lambda>m1.
         Inr (audit (update_record i (\<lambda>r. r\<lparr>mr_status := ''resolved'', mr_reason := Some text,
              mr_updated_at := now\<rparr>) m1) ''status'' ''question'' i a
            [(''status'', PStr ''resolved''), (''reason'', PStr text),
             (''evidence_ids'', PList (map PStr evidence))] now)))))"

section \<open>Disputes over truths\<close>

definition open_conflict ::
  "string \<Rightarrow> memory \<Rightarrow> string \<Rightarrow> string \<Rightarrow> string \<Rightarrow> string option \<Rightarrow> string option \<Rightarrow> (string \<times> memory) result"
where
  "open_conflict now m existing statement actor incoming incoming_evidence =
     bindE (refuse_rubric_records m [existing] ''a conflict over it'') (\<lambda>_.
     case find_record m existing of
       None \<Rightarrow> Inl (MemoryValidationError ''conflicts must reference an existing Truth record'' [])
     | Some r \<Rightarrow>
       if mr_category r \<noteq> ''truth'' then
         Inl (MemoryValidationError ''conflicts must reference an existing Truth record'' [])
       else if (case incoming of None \<Rightarrow> False | Some i \<Rightarrow> i \<noteq> [] \<and> find_record m i = None) then
         Inl (MemoryValidationError ''unknown incoming record'' [case incoming of None \<Rightarrow> [] | Some i \<Rightarrow> i])
       else if (case incoming_evidence of None \<Rightarrow> False | Some i \<Rightarrow> i \<noteq> [] \<and> find_evidence m i = None) then
         Inl (MemoryValidationError ''unknown incoming evidence'' [case incoming_evidence of None \<Rightarrow> [] | Some i \<Rightarrow> i])
       else
         bindE (next_id m ''conflict'') (\<lambda>(i, m1).
         bindE (required statement ''statement'' MAX_FIELD_CHARS) (\<lambda>text.
         bindE (required actor ''created_by'' 256) (\<lambda>a.
         if i \<in> set (map cf_id (mm_conflicts m1)) then Inl (IntegrityError ''conflicts.id'') else
         let m2 = m1\<lparr>mm_conflicts := mm_conflicts m1 @ [\<lparr>cf_id = i, cf_existing_record_id = existing,
                cf_incoming_record_id = incoming, cf_incoming_evidence_id = incoming_evidence,
                cf_statement = text, cf_status = ''needs_review'', cf_resolution = None,
                cf_created_by = a, cf_created_at = now, cf_resolved_at = None\<rparr>]\<rparr>;
             m3 = update_record existing (\<lambda>r. r\<lparr>mr_status := ''disputed'', mr_updated_at := now\<rparr>) m2;
             m4 = m3\<lparr>mm_conflict_history := mm_conflict_history m3 @ [\<lparr>ce_conflict_id = i,
                ce_action = ''opened'', ce_details = text, ce_actor = a, ce_created_at = now\<rparr>]\<rparr>
         in Inr (i, audit m4 ''open'' ''conflict'' i a
              [(''existing_record_id'', PStr existing), (''previous_status'', PStr (mr_status r))] now)))))"

text \<open>The status the record held when the conflict opened, from the last audit entry of the opening.\<close>

definition status_before_conflict :: "memory \<Rightarrow> string \<Rightarrow> string" where
  "status_before_conflict m i =
     (case find (\<lambda>a. au_entity_type a = ''conflict'' \<and> au_entity_id a = i \<and> au_action a = ''open'') (rev (mm_audit m)) of
        None \<Rightarrow> ''verified''
      | Some a \<Rightarrow> (let s = strip (str_of column_text (py_or (get (au_details a) ''previous_status'') (PStr [])))
          in if s = [] then ''verified'' else s))"

definition CONFLICT_OUTCOMES :: "string list" where
  "CONFLICT_OUTCOMES = [''supersede_existing'', ''reject_incoming'', ''reverified_existing'']"

definition close_conflict ::
  "string \<Rightarrow> memory \<Rightarrow> string \<Rightarrow> string \<Rightarrow> string \<Rightarrow> string \<Rightarrow> string \<Rightarrow> string \<Rightarrow> string \<Rightarrow> memory"
where
  "close_conflict now m i existing status outcome text resolution actor =
     (let m1 = update_record existing (\<lambda>r. r\<lparr>mr_status := status, mr_updated_at := now\<rparr>) m;
          m2 = m1\<lparr>mm_conflicts := map (\<lambda>x. if cf_id x = i then x\<lparr>cf_status := ''resolved'',
            cf_resolution := Some text, cf_resolved_at := Some now\<rparr> else x) (mm_conflicts m1),
            mm_conflict_history := mm_conflict_history m1 @ [\<lparr>ce_conflict_id = i,
            ce_action = outcome, ce_details = resolution, ce_actor = actor, ce_created_at = now\<rparr>]\<rparr>
      in audit m2 ''resolve'' ''conflict'' i actor [(''outcome'', PStr outcome)] now)"

definition settle_conflict :: "string \<Rightarrow> memory \<Rightarrow> conflict_row \<Rightarrow> string \<Rightarrow> string \<Rightarrow> string \<Rightarrow> memory result" where
  "settle_conflict now m c outcome resolution actor =
     (let existing = cf_existing_record_id c;
          status = (if outcome = ''supersede_existing'' then ''superseded'' else status_before_conflict m (cf_id c));
          origin = (case find_record m existing of None \<Rightarrow> [] | Some r \<Rightarrow> mr_origin r)
      in bindE (if outcome \<noteq> ''supersede_existing'' then refuse_rubric_records m [existing] ''resolving it'' else Inr ()) (\<lambda>_.
         bindE (if status \<in> set BINDING_STATUSES \<and> origin \<noteq> ''user'' then rests_on_external m existing else Inr False) (\<lambda>external.
         if external then Inl (MemoryValidationError ''R18: now rests on external content'' [existing, status])
         else bindE (required resolution ''resolution'' MAX_FIELD_CHARS) (\<lambda>text.
         Inr (close_conflict now m (cf_id c) existing status outcome text resolution actor)))))"

definition resolve_conflict :: "string \<Rightarrow> memory \<Rightarrow> string \<Rightarrow> string \<Rightarrow> string \<Rightarrow> string \<Rightarrow> memory result" where
  "resolve_conflict now m i outcome resolution actor =
     (if outcome \<notin> set CONFLICT_OUTCOMES then Inl (MemoryValidationError ''invalid conflict outcome'' [])
      else (case find_conflict m i of
        None \<Rightarrow> Inl (MemoryValidationError ''conflict is missing or already resolved'' [])
      | Some c \<Rightarrow> if cf_status c \<noteq> ''needs_review'' then
            Inl (MemoryValidationError ''conflict is missing or already resolved'' [])
          else settle_conflict now m c outcome resolution actor))"

section \<open>Facts\<close>

text \<open>The conflicts a new fact opens, one transaction each.\<close>

fun open_conflicts ::
  "string \<Rightarrow> memory \<Rightarrow> string \<Rightarrow> string \<Rightarrow> string list \<Rightarrow> string list \<times> memory \<times> exn option"
where
  "open_conflicts now m fid actor [] = ([], m, None)"
| "open_conflicts now m fid actor (i # ids) =
     (case open_conflict now m i (''New verified fact '' @ fid @ '' conflicts with '' @ i @ ''.'') actor (Some fid) None of
        Inl e \<Rightarrow> ([], m, Some e)
      | Inr (c, m1) \<Rightarrow> (case open_conflicts now m1 fid actor ids of (cs, m2, e) \<Rightarrow> (c # cs, m2, e)))"

text \<open>
  \<^verbatim>\<open>record_verified_fact\<close> checks, writes the fact, and then opens the conflicts: an exception among
  those leaves the fact and the conflicts before it. The result is the new tables, and the fact
  with its conflicts or the exception.
\<close>

definition check_fact :: "memory \<Rightarrow> string list \<Rightarrow> string list \<Rightarrow> unit result" where
  "check_fact m ids contradicts =
     (if ids = [] then Inl (MemoryValidationError ''NO EVIDENCE -> NO TRUTH: verified facts require evidence_ids'' [])
      else if \<not> distinct ids then Inl (MemoryValidationError ''Truth evidence IDs must be unique'' [])
      else bindE (refuse_rubric_records m contradicts ''a fact contradicting it'') (\<lambda>_.
           bindE (cited m ids) (\<lambda>items.
           bindE (require_truth_rows MemoryValidationError column_text
             ''R18: evidence below the trust threshold cannot support Truth'' (map evidence_row items)) (\<lambda>_. Inr ()))))"

definition fact_request ::
  "string \<Rightarrow> string list \<Rightarrow> string \<Rightarrow> string \<Rightarrow> string \<Rightarrow> string option \<Rightarrow> string option \<Rightarrow> bool \<Rightarrow> record_request"
where
  "fact_request statement ids how actor scope provider thread reserved =
     (plain_request ''truth'' statement ''project'' ''verified'' actor scope)
       \<lparr>rq_verification_method := Some how, rq_evidence_ids := ids, rq_provider := provider,
        rq_provider_thread_id := thread, rq_reserved_scope := reserved\<rparr>"

definition record_verified_fact ::
  "string \<Rightarrow> memory \<Rightarrow> string \<Rightarrow> string list \<Rightarrow> string \<Rightarrow> string \<Rightarrow> string \<Rightarrow> string list
    \<Rightarrow> string option \<Rightarrow> string option \<Rightarrow> bool \<Rightarrow> memory \<times> (string \<times> string list) result"
where
  "record_verified_fact now m statement ids how actor scope contradicts provider thread reserved =
     (case bindE (check_fact m ids contradicts) (\<lambda>_.
             create_record now m (fact_request statement ids how actor scope provider thread reserved)) of
        Inl e \<Rightarrow> (m, Inl e)
      | Inr (i, m1) \<Rightarrow> (case open_conflicts now m1 i actor contradicts of
          (cs, m2, None) \<Rightarrow> (m2, Inr (i, cs))
        | (_, m2, Some e) \<Rightarrow> (m2, Inl e)))"

text \<open>\<^verbatim>\<open>attach_evidence\<close>, one transaction: the new tables and the conflict it opened.\<close>

definition attach_link ::
  "string \<Rightarrow> memory \<Rightarrow> memory_record \<Rightarrow> string \<Rightarrow> string \<Rightarrow> string \<Rightarrow> string \<Rightarrow> (string option \<times> memory) result"
where
  "attach_link now m r i e relation a =
     (let (inserted, m1) = link_or_ignore now i e relation m;
          m2 = audit m1 ''attach_evidence'' (mr_category r) i a
            [(''evidence_id'', PStr e), (''relation'', PStr relation)] now
      in if inserted \<and> relation = ''contradicts'' \<and> mr_category r = ''truth'' then
           bindE (open_conflict now m2 i (''Evidence '' @ e @ '' contradicts verified fact '' @ i @ ''.'') a None (Some e)) (\<lambda>(c, m3).
           Inr (Some c, m3))
         else Inr (None, m2))"

definition attach_evidence ::
  "string \<Rightarrow> memory \<Rightarrow> string \<Rightarrow> string \<Rightarrow> string \<Rightarrow> string \<Rightarrow> (string option \<times> memory) result"
where
  "attach_evidence now m i e relation actor =
     (if relation \<notin> {''supports'', ''contradicts''} then
        Inl (MemoryValidationError ''relation must be supports or contradicts'' [])
      else bindE (required actor ''actor'' 256) (\<lambda>a.
      bindE (refuse_rubric_records m [i] ''attaching evidence to it'') (\<lambda>_.
      case (find_record m i, find_evidence m e) of
        (None, _) \<Rightarrow> Inl (MemoryValidationError ''unknown record'' [i])
      | (Some r, None) \<Rightarrow> Inl (MemoryValidationError ''unknown evidence'' [e])
      | (Some r, Some item) \<Rightarrow>
          bindE (evidence_below_truth item) (\<lambda>below.
          if relation = ''supports'' \<and> below \<and> mr_status r \<in> set BINDING_STATUSES \<and> mr_origin r \<noteq> ''user'' then
            Inl (MemoryValidationError ''R18: evidence below the trust threshold cannot be attached'' [i])
          else
            attach_link now m r i e relation a))))"

section \<open>Corrections of the user\<close>

text \<open>
  \<^verbatim>\<open>apply_user_correction\<close>: a user decision, then one transaction for each related record, in
  order; an exception keeps what is already written.
\<close>

fun correct_records ::
  "string \<Rightarrow> memory \<Rightarrow> string \<Rightarrow> string \<Rightarrow> string list \<Rightarrow> memory \<times> (string list \<times> string list) result"
where
  "correct_records now m decision actor [] = (m, Inr ([], []))"
| "correct_records now m decision actor (i # ids) = (case find_record m i of
     None \<Rightarrow> (m, Inl (MemoryValidationError ''unknown record'' [i]))
   | Some r \<Rightarrow>
       if mr_category r = ''decision'' \<and> mr_origin r = ''agent'' \<and> mr_status r \<in> {''proposed'', ''accepted''} then
         (case set_decision_status now m i ''superseded'' actor (Some (''Superseded by '' @ decision)) of
            Inl e \<Rightarrow> (m, Inl e)
          | Inr m1 \<Rightarrow> (case correct_records now m1 decision actor ids of
              (m2, r2) \<Rightarrow> (m2, bindE r2 (\<lambda>(s, c). Inr (i # s, c)))))
       else if mr_category r = ''truth'' \<and> mr_status r \<in> {''verified'', ''disputed''} then
         (case open_conflict now m i (''User desired state '' @ decision @ '' differs from actual verified state '' @ i
             @ ''; reverify project reality.'') actor (Some decision) None of
            Inl e \<Rightarrow> (m, Inl e)
          | Inr (x, m1) \<Rightarrow> (case correct_records now m1 decision actor ids of
              (m2, r2) \<Rightarrow> (m2, bindE r2 (\<lambda>(s, c). Inr (s, x # c)))))
       else correct_records now m decision actor ids)"

definition apply_user_correction ::
  "string \<Rightarrow> memory \<Rightarrow> string \<Rightarrow> string list \<Rightarrow> string \<Rightarrow> memory \<times> (string \<times> string list \<times> string list) result"
where
  "apply_user_correction now m statement related actor =
     (case bindE (refuse_rubric_records m related ''a correction disputing it'') (\<lambda>_.
             propose_decision now m statement ''user'' actor ''accepted'' (Some ''Explicit user correction'') ''project'' []
               None None) of
        Inl e \<Rightarrow> (m, Inl e)
      | Inr (d, m1) \<Rightarrow> (case correct_records now m1 d actor related of
          (m2, r) \<Rightarrow> (m2, bindE r (\<lambda>(s, c). Inr (d, s, c)))))"

text \<open>\<^verbatim>\<open>accepted_user_decision\<close>: the latest accepted decision of the user with exactly this text.\<close>

definition accepted_user_decision :: "memory \<Rightarrow> string \<Rightarrow> memory_record option result" where
  "accepted_user_decision m statement = bindE (required statement ''statement'' MAX_FIELD_CHARS) (\<lambda>text.
     let rows = filter (\<lambda>r. mr_category r = ''decision'' \<and> mr_status r = ''accepted'' \<and> mr_origin r = ''user''
           \<and> mr_statement r = text) (mm_records m);
         latest = filter (\<lambda>r. \<forall>s \<in> set rows. mr_updated_at s \<le> mr_updated_at r) rows
     in Inr (case sort_key mr_id latest of [] \<Rightarrow> None | r # _ \<Rightarrow> Some r))"

section \<open>What governs the work\<close>

text \<open>
  A record of a binding status that the user did not make rests on no outside material: each
  evidence that supports it is a deterministic output or a verified human judgment.
\<close>

definition sound_evidence :: "memory \<Rightarrow> string \<Rightarrow> bool" where
  "sound_evidence m e \<longleftrightarrow> (\<exists>x. find_evidence m e = Some x \<and> evidence_below_truth x = Inr False)"

definition well_supported :: "memory \<Rightarrow> string \<Rightarrow> bool" where
  "well_supported m i \<longleftrightarrow> (\<forall>l \<in> set (mm_links m). li_record_id l = i \<and> li_relation l = ''supports'' \<longrightarrow>
     sound_evidence m (li_evidence_id l))"

definition governs :: "memory_record \<Rightarrow> bool" where
  "governs r \<longleftrightarrow> mr_status r \<in> set BINDING_STATUSES \<and> mr_origin r \<noteq> ''user''"

definition memory_ok :: "memory \<Rightarrow> bool" where
  "memory_ok m \<longleftrightarrow> distinct (map mr_id (mm_records m))
     \<and> (\<forall>l \<in> set (mm_links m). li_record_id l \<in> set (map mr_id (mm_records m))
          \<and> find_evidence m (li_evidence_id l) \<noteq> None)
     \<and> (\<forall>r \<in> set (mm_records m). governs r \<longrightarrow> well_supported m (mr_id r))"

lemma empty_memory_ok: "memory_ok empty_memory"
  by (simp add: memory_ok_def empty_memory_def)

lemma any_below_False:
  "any_row_is_below_truth err rp (map f items) = Inr False \<longleftrightarrow> (\<forall>x \<in> set items. row_is_below_truth err rp (f x) = Inr False)"
  by (induction items) auto

lemma any_below_truth_False: "any_below_truth items = Inr False \<longleftrightarrow> (\<forall>x \<in> set items. evidence_below_truth x = Inr False)"
  by (simp add: any_below_truth_def evidence_below_truth_def any_below_False)

lemma find_Some_append: "find P xs = Some x \<Longrightarrow> find P (xs @ ys) = Some x"
  by (induction xs) auto

lemma find_evidence_rows: "find_evidence m i = Some x \<Longrightarrow> i \<in> set ids \<Longrightarrow> x \<in> set (rows_in m ids)"
  unfolding find_evidence_def rows_in_def by (auto simp: find_Some_iff)

lemma find_evidence_id: "find_evidence m i = Some x \<Longrightarrow> ev_id x = i"
  by (auto simp: find_evidence_def find_Some_iff)

lemma find_record_id: "find_record m i = Some r \<Longrightarrow> mr_id r = i \<and> r \<in> set (mm_records m)"
  by (auto simp: find_record_def find_Some_iff)

lemma find_record_unique:
  "memory_ok m \<Longrightarrow> find_record m i = Some r \<Longrightarrow> s \<in> set (mm_records m) \<Longrightarrow> mr_id s = i \<Longrightarrow> s = r"
  by (drule find_record_id) (auto simp: memory_ok_def dest: inj_onD [of mr_id] simp: distinct_map)

lemma well_supported_supporters: "memory_ok m \<Longrightarrow> rests_on_external m i = Inr False \<Longrightarrow> well_supported m i"
  unfolding well_supported_def rests_on_external_def any_below_truth_False supporters_def sound_evidence_def memory_ok_def
  by (fastforce split: option.splits)

text \<open>What each write of a table keeps.\<close>

lemma ok_same:
  "memory_ok m \<Longrightarrow> mm_records m' = mm_records m \<Longrightarrow> mm_links m' = mm_links m \<Longrightarrow> mm_evidence m' = mm_evidence m
   \<Longrightarrow> memory_ok m'"
  by (simp add: memory_ok_def well_supported_def sound_evidence_def find_evidence_def)

lemma ok_evidence:
  assumes "memory_ok m" "mm_records m' = mm_records m" "mm_links m' = mm_links m" "mm_evidence m' = mm_evidence m @ es"
  shows "memory_ok m'"
proof -
  have f: "find_evidence m' i = Some x" if "find_evidence m i = Some x" for i x
    using that assms(4) by (simp add: find_evidence_def find_Some_append)
  have sound: "sound_evidence m' i" if "sound_evidence m i" for i
    using that f by (auto simp: sound_evidence_def)
  have known: "find_evidence m' i \<noteq> None" if "find_evidence m i \<noteq> None" for i
    using that f by auto
  show ?thesis
    using assms(1) sound known unfolding memory_ok_def well_supported_def assms(2,3) by blast
qed

lemma ok_update:
  assumes ok: "memory_ok m" and id: "\<And>r. mr_id (f r) = mr_id r"
    and g: "\<And>r. r \<in> set (mm_records m) \<Longrightarrow> mr_id r = i \<Longrightarrow> governs (f r) \<Longrightarrow> well_supported m i"
  shows "memory_ok (update_record i f m)"
proof -
  have ids: "map mr_id (mm_records (update_record i f m)) = map mr_id (mm_records m)"
    using id by (simp add: update_record_def)
  have ev: "find_evidence (update_record i f m) = find_evidence m" "mm_links (update_record i f m) = mm_links m"
    by (simp_all add: update_record_def find_evidence_def fun_eq_iff)
  have "well_supported m (mr_id r)" if "r \<in> set (mm_records (update_record i f m))" "governs r" for r
    using that ok g id unfolding update_record_def memory_ok_def by (auto split: if_splits)
  then show ?thesis
    using ok unfolding memory_ok_def ids ev well_supported_def sound_evidence_def by simp
qed

lemma ok_link:
  assumes ok: "memory_ok m" and r: "find_record m i = Some r" and e: "find_evidence m e = Some x"
    and g: "relation = ''supports'' \<Longrightarrow> governs r \<Longrightarrow> evidence_below_truth x = Inr False"
  shows "memory_ok (snd (link_or_ignore now i e relation m))"
proof (cases "(i, e, relation) \<in> set (map link_key (mm_links m))")
  case True
  with ok show ?thesis by (simp add: link_or_ignore_def)
next
  case False
  let ?l = "\<lparr>li_record_id = i, li_evidence_id = e, li_relation = relation, li_created_at = now\<rparr>"
  let ?m = "m\<lparr>mm_links := mm_links m @ [?l]\<rparr>"
  have f: "find_evidence ?m = find_evidence m" by (simp add: find_evidence_def fun_eq_iff)
  have "well_supported ?m (mr_id s)" if s: "s \<in> set (mm_records m)" "governs s" for s
  proof -
    have "well_supported m (mr_id s)" using ok s by (simp add: memory_ok_def)
    moreover have "sound_evidence m e" if "mr_id s = i" "relation = ''supports''"
      using find_record_unique [OF ok r s(1) that(1)] g that(2) s(2) e by (simp add: sound_evidence_def)
    ultimately show ?thesis by (auto simp: well_supported_def sound_evidence_def f)
  qed
  moreover have "i \<in> set (map mr_id (mm_records m))" using find_record_id [OF r] by auto
  ultimately have "memory_ok ?m" using ok e unfolding memory_ok_def f by auto
  with False show ?thesis by (simp add: link_or_ignore_def)
qed

lemma insert_links_eq: "insert_links now i m ids = Inr m' \<Longrightarrow>
    m' = m\<lparr>mm_links := mm_links m @ map (\<lambda>e. \<lparr>li_record_id = i, li_evidence_id = e, li_relation = ''supports'',
      li_created_at = now\<rparr>) ids\<rparr>"
proof (induction ids arbitrary: m)
  case Nil
  then show ?case by simp
next
  case (Cons e ids)
  from Cons.prems have "insert_links now i (m\<lparr>mm_links := mm_links m @
      [\<lparr>li_record_id = i, li_evidence_id = e, li_relation = ''supports'', li_created_at = now\<rparr>]\<rparr>) ids = Inr m'"
    by (simp split: if_splits)
  from Cons.IH [OF this] show ?case by simp
qed

lemma ok_insert:
  assumes ok: "memory_ok m" and r: "insert_record m r = Inr m1" and l: "insert_links now (mr_id r) m1 ids = Inr m2"
    and e: "\<forall>e \<in> set ids. find_evidence m e \<noteq> None"
    and g: "governs r \<Longrightarrow> \<forall>e \<in> set ids. sound_evidence m e"
  shows "memory_ok m2"
proof -
  have fresh: "mr_id r \<notin> set (map mr_id (mm_records m))" and m1: "m1 = m\<lparr>mm_records := mm_records m @ [r]\<rparr>"
    using r by (auto simp: insert_record_def split: if_splits)
  note m2 = insert_links_eq [OF l, unfolded m1]
  have f: "find_evidence m2 = find_evidence m" by (simp add: m2 find_evidence_def fun_eq_iff)
  have "well_supported m2 (mr_id s)" if s: "s \<in> set (mm_records m2)" "governs s" for s
  proof (cases "s = r")
    case True
    have "li_record_id l \<noteq> mr_id r" if "l \<in> set (mm_links m)" for l
      using ok fresh that unfolding memory_ok_def by metis
    then show ?thesis using g True s(2) by (auto simp: well_supported_def sound_evidence_def f) (auto simp: m2)
  next
    case False
  then have "s \<in> set (mm_records m)" using s(1) by (simp add: m2)
    then have "well_supported m (mr_id s)" "mr_id s \<noteq> mr_id r"
      using ok s(2) fresh unfolding memory_ok_def by (blast, metis imageI list.set_map)
    then show ?thesis by (auto simp: well_supported_def sound_evidence_def f) (auto simp: m2)
  qed
  then show ?thesis using ok fresh e unfolding memory_ok_def f by (auto simp: m2)
qed

lemma audit_tables [simp]:
  "mm_records (audit m a t i actor d now) = mm_records m" "mm_links (audit m a t i actor d now) = mm_links m"
  "mm_evidence (audit m a t i actor d now) = mm_evidence m"
  "mm_conflicts (audit m a t i actor d now) = mm_conflicts m"
  "mm_verifications (audit m a t i actor d now) = mm_verifications m"
  "mm_verification_links (audit m a t i actor d now) = mm_verification_links m"
  "mm_sequences (audit m a t i actor d now) = mm_sequences m"
  by (simp_all add: audit_def)

lemma update_record_tables [simp]:
  "mm_links (update_record i f m) = mm_links m" "mm_evidence (update_record i f m) = mm_evidence m"
  "mm_conflicts (update_record i f m) = mm_conflicts m"
  "mm_verifications (update_record i f m) = mm_verifications m"
  "mm_verification_links (update_record i f m) = mm_verification_links m"
  by (simp_all add: update_record_def)

lemma next_id_frame: "next_id m kind = Inr (i, m1) \<Longrightarrow> \<exists>s. m1 = m\<lparr>mm_sequences := s\<rparr>"
  by (auto simp: next_id_def Let_def split: option.splits)

lemma sound_evidence_sequences [simp]: "sound_evidence (m\<lparr>mm_sequences := s\<rparr>) = sound_evidence m"
  by (simp add: sound_evidence_def find_evidence_def fun_eq_iff)

lemma find_evidence_sequences [simp]: "find_evidence (m\<lparr>mm_sequences := s\<rparr>) = find_evidence m"
  by (simp add: find_evidence_def fun_eq_iff)

lemma create_record_ok:
  assumes ok: "memory_ok m" and c: "create_record now m q = Inr (i, m')"
    and g: "rq_status q \<in> set BINDING_STATUSES \<Longrightarrow> rq_origin q \<noteq> ''user'' \<Longrightarrow>
      \<forall>e \<in> set (rq_evidence_ids q). sound_evidence m e"
  shows "memory_ok m'"
proof -
  obtain statement actor m1 r m2 m3 where known: "find (\<lambda>e. find_evidence m e = None) (rq_evidence_ids q) = None"
    and n: "next_id m (rq_category q) = Inr (i, m1)" and r: "record_of now i statement actor q = Inr r"
    and ins: "insert_record m1 r = Inr m2" "insert_links now i m2 (rq_evidence_ids q) = Inr m3"
    and m': "m' = audit m3 ''create'' (rq_category q) i actor
            [(''origin'', PStr (rq_origin q)), (''status'', PStr (rq_status q))] now"
    using c unfolding create_record_def by (auto split: if_splits option.splits)
  obtain s where m1: "m1 = m\<lparr>mm_sequences := s\<rparr>" using next_id_frame [OF n] by blast
  have fields: "mr_id r = i" "mr_status r = rq_status q" "mr_origin r = rq_origin q"
    using r by (auto simp: record_of_def)
  have "memory_ok m3"
  proof (rule ok_insert [of m1 r m2])
    show "memory_ok m1" by (rule ok_same [OF ok]) (simp_all add: m1)
    show "insert_links now (mr_id r) m2 (rq_evidence_ids q) = Inr m3" using ins(2) fields(1) by simp
    show "\<forall>e \<in> set (rq_evidence_ids q). find_evidence m1 e \<noteq> None"
      using known by (simp add: find_None_iff m1)
    show "\<forall>e \<in> set (rq_evidence_ids q). sound_evidence m1 e" if "governs r"
      using g that by (simp add: governs_def fields m1)
  qed (rule ins(1))
  then show ?thesis unfolding m' by (rule ok_same) simp_all
qed

text \<open>An operation that checks the ids it cites, and finds nothing outside among them.\<close>

lemma not_external_sound:
  assumes "has_external_evidence m ids = Inr False" "\<forall>e \<in> set ids. find_evidence m e \<noteq> None"
  shows "\<forall>e \<in> set ids. sound_evidence m e"
proof
  fix e assume e: "e \<in> set ids"
  then obtain x where x: "find_evidence m e = Some x" using assms(2) by auto
  have "any_below_truth (rows_in m ids) = Inr False" using assms(1) e by (auto simp: has_external_evidence_def split: if_splits)
  with find_evidence_rows [OF x e] x show "sound_evidence m e"
    by (auto simp: any_below_truth_False sound_evidence_def)
qed

lemma create_record_known: "create_record now m q = Inr z \<Longrightarrow> \<forall>e \<in> set (rq_evidence_ids q). find_evidence m e \<noteq> None"
  unfolding create_record_def by (auto simp: find_None_iff split: if_splits option.splits)

lemma set_record_status_ok:
  assumes ok: "memory_ok m" and s: "set_record_status now m i category status actor reason = Inr m'"
  shows "memory_ok m'"
proof -
  obtain r f where r: "find_record m i = Some r" and f: "m' = audit (update_record i f m) ''status'' category i actor
      [(''status'', PStr status), (''reason'', opt_text reason)] now"
      "\<And>r. mr_id (f r) = mr_id r" "\<And>r. mr_origin (f r) = mr_origin r" "\<And>r. mr_status (f r) = status"
    and g: "status \<in> set BINDING_STATUSES \<Longrightarrow> mr_origin r \<noteq> ''user'' \<Longrightarrow> rests_on_external m i = Inr False"
    using s unfolding set_record_status_def by (auto split: option.splits if_splits)
  have "memory_ok (update_record i f m)"
  proof (rule ok_update [OF ok f(2)])
    fix s assume "s \<in> set (mm_records m)" "mr_id s = i" "governs (f s)"
    with g f(3,4) find_record_unique [OF ok r] show "well_supported m i"
      by (auto simp: governs_def intro: well_supported_supporters [OF ok])
  qed
  then show ?thesis unfolding f(1) by (rule ok_same) simp_all
qed

lemma link_answers_ok:
  assumes "memory_ok m" "find_record m i = Some r" "\<not> governs r" "link_answers now i m ids = Inr m'"
  shows "memory_ok m' \<and> mm_records m' = mm_records m"
  using assms
proof (induction ids arbitrary: m)
  case Nil
  then show ?case by simp
next
  case (Cons e ids)
  let ?m = "snd (link_or_ignore now i e ''supports'' m)"
  obtain x where x: "find_evidence m e = Some x" and l: "link_answers now i ?m ids = Inr m'"
    using Cons.prems(4) by (auto split: if_splits)
  have same: "mm_records ?m = mm_records m" by (simp add: link_or_ignore_def)
  have "memory_ok ?m" by (rule ok_link [OF Cons.prems(1,2) x]) (use Cons.prems(3) in simp)
  moreover have "find_record ?m i = Some r" using Cons.prems(2) same by (simp add: find_record_def)
  ultimately show ?case using Cons.IH [OF _ _ Cons.prems(3) l] same by simp
qed

lemma link_answers_update:
  "link_answers now i m ids = Inr m' \<Longrightarrow> link_answers now i (update_record j f m) ids = Inr (update_record j f m')"
proof (induction ids arbitrary: m)
  case Nil
  then show ?case by simp
next
  case (Cons e ids)
  have "snd (link_or_ignore now i e ''supports'' (update_record j f m)) = update_record j f (snd (link_or_ignore now i e ''supports'' m))"
    "find_evidence (update_record j f m) e = find_evidence m e"
    by (simp_all add: link_or_ignore_def update_record_def find_evidence_def)
  with Cons show ?case by (simp split: if_splits)
qed

lemma find_update: "find_record m i = Some r \<Longrightarrow> (\<And>r. mr_id (f r) = mr_id r) \<Longrightarrow> find_record (update_record i f m) i = Some (f r)"
proof -
  assume r: "find_record m i = Some r" and id: "\<And>r. mr_id (f r) = mr_id r"
  have "find (\<lambda>s. mr_id s = i) (map (\<lambda>s. if mr_id s = i then f s else s) rs) = map_option f (find (\<lambda>s. mr_id s = i) rs)" for rs
    by (induction rs) (auto simp: id)
  with r show ?thesis by (simp add: find_record_def update_record_def)
qed

lemma not_governing: "s \<notin> set BINDING_STATUSES \<Longrightarrow> \<not> governs (r\<lparr>mr_status := s, mr_reason := t, mr_updated_at := u\<rparr>)"
  "s \<notin> set BINDING_STATUSES \<Longrightarrow> \<not> governs (r\<lparr>mr_status := s, mr_updated_at := u\<rparr>)"
  by (simp_all add: governs_def)

lemma resolve_question_ok:
  assumes ok: "memory_ok m" and q: "resolve_question now m i actor reason ids = Inr m'"
  shows "memory_ok m'"
proof -
  obtain r m1 a t where r: "find_record m i = Some r" and l: "link_answers now i m (map strip ids) = Inr m1"
    and m': "m' = audit (update_record i (\<lambda>r. r\<lparr>mr_status := ''resolved'', mr_reason := Some t,
              mr_updated_at := now\<rparr>) m1) ''status'' ''question'' i a
            [(''status'', PStr ''resolved''), (''reason'', PStr t),
             (''evidence_ids'', PList (map PStr (map strip ids)))] now"
    using q unfolding resolve_question_def Let_def by (auto split: option.splits if_splits)
  let ?f = "\<lambda>r. r\<lparr>mr_status := ''resolved'', mr_reason := Some t, mr_updated_at := now\<rparr>"
  have ng: "\<not> governs (?f s)" for s by (rule not_governing) (simp add: BINDING_STATUSES_def)
  have "memory_ok (update_record i ?f m)" by (rule ok_update [OF ok]) (use ng in simp_all)
  from link_answers_ok [OF this find_update [OF r] ng link_answers_update [OF l]]
  have "memory_ok (update_record i ?f m1)" by simp
  then show ?thesis unfolding m' by (rule ok_same) simp_all
qed

lemma open_conflict_ok:
  assumes ok: "memory_ok m" and c: "open_conflict now m i statement actor x y = Inr (j, m')"
  shows "memory_ok m'"
proof -
  let ?f = "\<lambda>r. r\<lparr>mr_status := ''disputed'', mr_updated_at := now\<rparr>"
  obtain s cs h d a where m': "m' = audit (update_record i ?f (m\<lparr>mm_sequences := s, mm_conflicts := cs\<rparr>)
      \<lparr>mm_conflict_history := h\<rparr>) ''open'' ''conflict'' j a d now"
    using c unfolding open_conflict_def Let_def by (auto split: option.splits if_splits dest!: next_id_frame)
  have "memory_ok (update_record i ?f (m\<lparr>mm_sequences := s, mm_conflicts := cs\<rparr>))"
    by (rule ok_update) (use not_governing(2) in \<open>auto simp: BINDING_STATUSES_def intro: ok_same [OF ok]\<close>)
  then show ?thesis unfolding m' by (rule ok_same) simp_all
qed

lemma guarded_tail:
  "bindE a (\<lambda>_. bindE b (\<lambda>x. if x then Inl e else bindE c (\<lambda>t. Inr (f t)))) = Inr z
   \<Longrightarrow> a = Inr () \<and> b = Inr False \<and> (\<exists>t. c = Inr t \<and> z = f t)"
  by (auto split: if_splits)

lemma settle_conflict_ok:
  assumes ok: "memory_ok m" and c: "settle_conflict now m c outcome resolution actor = Inr m'"
  shows "memory_ok m'"
proof -
  let ?j = "cf_existing_record_id c"
  let ?s = "if outcome = ''supersede_existing'' then ''superseded'' else status_before_conflict m (cf_id c)"
  let ?f = "\<lambda>r. r\<lparr>mr_status := ?s, mr_updated_at := now\<rparr>"
  from c obtain t where m': "m' = close_conflict now m (cf_id c) ?j ?s outcome t resolution actor"
    and g: "(if ?s \<in> set BINDING_STATUSES \<and> (case find_record m ?j of None \<Rightarrow> [] | Some r \<Rightarrow> mr_origin r) \<noteq> ''user''
        then rests_on_external m ?j else Inr False) = Inr False"
    using guarded_tail [OF c [unfolded settle_conflict_def Let_def]] by blast
  have "memory_ok (update_record ?j ?f m)"
  proof (rule ok_update [OF ok])
    fix r assume r: "r \<in> set (mm_records m)" "mr_id r = ?j" "governs (?f r)"
    have "find_record m ?j \<noteq> None" using r(1,2) by (auto simp: find_record_def find_None_iff)
    then obtain s where s: "find_record m ?j = Some s" by auto
    have "rests_on_external m ?j = Inr False"
      using g r(3) s find_record_unique [OF ok s r(1,2)] by (simp add: governs_def)
    then show "well_supported m ?j" by (rule well_supported_supporters [OF ok])
  qed simp
  then show ?thesis unfolding m' close_conflict_def Let_def by (rule ok_same) simp_all
qed

lemma resolve_conflict_ok:
  "memory_ok m \<Longrightarrow> resolve_conflict now m i outcome resolution actor = Inr m' \<Longrightarrow> memory_ok m'"
  unfolding resolve_conflict_def by (auto split: option.splits if_splits intro: settle_conflict_ok)

lemma open_conflicts_ok: "memory_ok m \<Longrightarrow> open_conflicts now m fid actor ids = (cs, m', e) \<Longrightarrow> memory_ok m'"
proof (induction ids arbitrary: m cs m' e)
  case Nil
  then show ?case by simp
next
  case (Cons i ids)
  show ?case
  proof (cases "open_conflict now m i (''New verified fact '' @ fid @ '' conflicts with '' @ i @ ''.'') actor (Some fid) None")
    case (Inl x)
    with Cons.prems show ?thesis by simp
  next
    case (Inr z)
    obtain c m1 where z: "z = (c, m1)" by (cases z)
    have "memory_ok m1" using open_conflict_ok [OF Cons.prems(1)] Inr z by simp
    with Cons Inr z show ?thesis by (auto split: prod.splits)
  qed
qed

lemma check_fact_sound: "check_fact m ids contradicts = Inr () \<Longrightarrow> \<forall>e \<in> set ids. sound_evidence m e"
proof
  fix e assume c: "check_fact m ids contradicts = Inr ()" and e: "e \<in> set ids"
  from c obtain items a where items: "cited m ids = Inr items"
    and a: "require_truth_rows MemoryValidationError column_text
      ''R18: evidence below the trust threshold cannot support Truth'' (map evidence_row items) = Inr a"
    by (auto simp: check_fact_def split: if_splits)
  from items have known: "\<forall>i \<in> set ids. find_evidence m i \<noteq> None" and all: "items = map (\<lambda>i. the (find_evidence m i)) ids"
    by (auto simp: cited_def Let_def filter_empty_conv split: if_splits)
  obtain x where x: "find_evidence m e = Some x" using known e by auto
  with all e have "x \<in> set items" by force
  moreover have "\<forall>row \<in> set (map evidence_row items). \<exists>t. from_storage column_text row = Inr t
      \<and> et_provenance t \<in> {DETERMINISTIC_TOOL_OUTPUT, HUMAN_VERIFICATION}"
    using require_truth_rows_iff [THEN iffD1, OF exI, OF a] by blast
  ultimately have "evidence_below_truth x = Inr False"
    unfolding evidence_below_truth_def by (auto intro: row_above_truth)
  with x show "sound_evidence m e" by (simp add: sound_evidence_def)
qed

lemma record_verified_fact_ok:
  assumes ok: "memory_ok m" and f: "record_verified_fact now m statement ids how actor scope contradicts p t reserved = (m', z)"
  shows "memory_ok m'"
proof (cases "bindE (check_fact m ids contradicts) (\<lambda>_. create_record now m (fact_request statement ids how actor scope p t reserved))")
  case (Inl e)
  with f ok show ?thesis by (simp add: record_verified_fact_def)
next
  case (Inr w)
  obtain i m1 where w: "w = (i, m1)" by (cases w)
  have c: "check_fact m ids contradicts = Inr ()" "create_record now m (fact_request statement ids how actor scope p t reserved) = Inr (i, m1)"
    using Inr w by auto
  have "memory_ok m1"
    by (rule create_record_ok [OF ok c(2)]) (use check_fact_sound [OF c(1)] in \<open>simp add: fact_request_def\<close>)
  then show ?thesis
    using f Inr w open_conflicts_ok by (auto simp: record_verified_fact_def split: prod.splits option.splits)
qed

lemma attach_link_ok:
  assumes ok: "memory_ok (snd (link_or_ignore now i e relation m))"
    and a: "attach_link now m r i e relation actor = Inr (c, m')"
  shows "memory_ok m'"
proof -
  obtain b m1 where l: "link_or_ignore now i e relation m = (b, m1)" by fastforce
  have "memory_ok (audit m1 x y z w d now)" for x y z w d by (rule ok_same [of m1]) (use ok l in simp_all)
  with a l show ?thesis
    by (auto simp: attach_link_def Let_def split: if_split_asm dest: open_conflict_ok [rotated])
qed

lemma attach_evidence_ok:
  assumes ok: "memory_ok m" and a: "attach_evidence now m i e relation actor = Inr (c, m')"
  shows "memory_ok m'"
proof -
  obtain r where r: "find_record m i = Some r"
    using a by (cases "find_record m i") (auto simp: attach_evidence_def split: if_split_asm)
  obtain x where x: "find_evidence m e = Some x"
    using a r by (cases "find_evidence m e") (auto simp: attach_evidence_def split: if_split_asm)
  obtain b actor' where b: "evidence_below_truth x = Inr b" "\<not> (relation = ''supports'' \<and> b \<and> governs r)"
    and l: "attach_link now m r i e relation actor' = Inr (c, m')"
    using a unfolding attach_evidence_def governs_def r x prod.case option.case
    by (auto split: if_split_asm)
  have "memory_ok (snd (link_or_ignore now i e relation m))"
    by (rule ok_link [OF ok r x]) (use b in \<open>cases b; simp\<close>)
  then show ?thesis using l by (rule attach_link_ok)
qed

lemma propose_decision_ok:
  assumes ok: "memory_ok m" and p: "propose_decision now m statement origin actor status reason scope ids p t = Inr (i, m')"
  shows "memory_ok m'"
proof -
  let ?q = "(plain_request ''decision'' statement origin status actor scope)
        \<lparr>rq_reason := reason, rq_evidence_ids := ids, rq_provider := p, rq_provider_thread_id := t\<rparr>"
  have c: "create_record now m ?q = Inr (i, m')" "status \<in> set DECISION_STATUSES"
    "status = ''accepted'' \<Longrightarrow> origin \<noteq> ''user'' \<Longrightarrow> has_external_evidence m ids = Inr False"
    using p unfolding propose_decision_def by (auto split: if_splits)
  show ?thesis
  proof (rule create_record_ok [OF ok c(1)])
    assume s: "rq_status ?q \<in> set BINDING_STATUSES" "rq_origin ?q \<noteq> ''user''"
    then have "status = ''accepted''" using c(2) by (auto simp: BINDING_STATUSES_def DECISION_STATUSES_def plain_request_def)
    with s c(3) create_record_known [OF c(1)] show "\<forall>e \<in> set (rq_evidence_ids ?q). sound_evidence m e"
      by (auto simp: plain_request_def dest: not_external_sound)
  qed
qed

lemma add_constraint_ok:
  assumes ok: "memory_ok m" and a: "add_constraint now m statement origin actor scope reason ids = Inr (i, m')"
  shows "memory_ok m'"
proof -
  let ?q = "(plain_request ''constraint'' statement origin ''active'' actor scope)\<lparr>rq_reason := reason, rq_evidence_ids := ids\<rparr>"
  have c: "create_record now m ?q = Inr (i, m')" "origin \<noteq> ''user'' \<Longrightarrow> has_external_evidence m ids = Inr False"
    using a unfolding add_constraint_def by (auto split: if_splits)
  show ?thesis
    by (rule create_record_ok [OF ok c(1)])
      (use c(2) create_record_known [OF c(1)] not_external_sound in \<open>auto simp: plain_request_def\<close>)
qed

lemma correct_records_ok: "memory_ok m \<Longrightarrow> correct_records now m d actor ids = (m', z) \<Longrightarrow> memory_ok m'"
proof (induction ids arbitrary: m m' z)
  case Nil
  then show ?case by simp
next
  case (Cons i ids)
  from Cons.prems show ?case
    by (auto split: option.splits if_splits sum.splits prod.splits simp: set_decision_status_def
        intro: Cons.IH [OF open_conflict_ok] Cons.IH [OF set_record_status_ok] Cons.IH)
qed

lemma apply_user_correction_ok:
  "memory_ok m \<Longrightarrow> apply_user_correction now m statement related actor = (m', z) \<Longrightarrow> memory_ok m'"
  unfolding apply_user_correction_def
  by (auto split: sum.splits prod.splits intro: correct_records_ok dest: propose_decision_ok)

end
