(* ===== verification/MemoryRuns.thy ===== *)
theory MemoryRuns
  imports MemoryRecords
begin

text \<open>
  Project Memory under every sequence of its operations, in the order their transactions
  commit. The operations of a model go through the public interface; the runtime has three of
  its own: an attested verification result, a version of a department rubric, and the
  retirement of a stray rubric record.
\<close>

section \<open>Operations and runs\<close>

datatype memory_op =
    RecordEvidence evidence_request
  | RecordVerification verification_request
  | VerifiedFact string "string list" string string string "string list" "string option" "string option"
  | AddObservation string string string string "string option" "string option" "string option"
  | ProposeDecision string string string string "string option" string "string list" "string option" "string option"
  | SetDecisionStatus string string string "string option"
  | AddConstraint string string string string "string option" "string list"
  | OpenQuestion string string "string option" string
  | ResolveQuestion string string string "string list"
  | AttachEvidence string string string string
  | OpenConflict string string string "string option" "string option"
  | ResolveConflict string string string string
  | UserCorrection string "string list" string
  | CompleteMilestone string string int string
  | RuntimeVerification verification_request
  | RuntimeRubric string "string list" string string
  | RetireRubric string string "string option"

definition after :: "memory \<Rightarrow> memory result \<Rightarrow> memory" where
  "after m r = (case r of Inl _ \<Rightarrow> m | Inr m' \<Rightarrow> m')"

definition after_id :: "memory \<Rightarrow> ('a \<times> memory) result \<Rightarrow> memory" where
  "after_id m r = (case r of Inl _ \<Rightarrow> m | Inr (_, m') \<Rightarrow> m')"

fun memory_step ::
  "project_files \<Rightarrow> (string \<Rightarrow> string \<Rightarrow> unit result) \<Rightarrow> (rat \<Rightarrow> string) \<Rightarrow> memory \<Rightarrow> string \<times> memory_op \<Rightarrow> memory"
where
  "memory_step fs allowed fl m (now, RecordEvidence q) = after_id m (record_evidence fs allowed now m q)"
| "memory_step fs allowed fl m (now, RecordVerification q) = after_id m (record_verification_result fl now False m q)"
| "memory_step fs allowed fl m (now, VerifiedFact statement ids how actor scope contradicts p t) =
     fst (record_verified_fact now m statement ids how actor scope contradicts p t False)"
| "memory_step fs allowed fl m (now, AddObservation statement actor confidence scope reason p t) =
     after_id m (add_observation now m statement actor confidence scope reason p t)"
| "memory_step fs allowed fl m (now, ProposeDecision statement origin actor status reason scope ids p t) =
     after_id m (propose_decision now m statement origin actor status reason scope ids p t)"
| "memory_step fs allowed fl m (now, SetDecisionStatus i status actor reason) =
     after m (set_decision_status now m i status actor reason)"
| "memory_step fs allowed fl m (now, AddConstraint statement origin actor scope reason ids) =
     after_id m (add_constraint now m statement origin actor scope reason ids)"
| "memory_step fs allowed fl m (now, OpenQuestion question actor needed scope) =
     after_id m (open_question now m question actor needed scope)"
| "memory_step fs allowed fl m (now, ResolveQuestion i actor reason ids) =
     after m (resolve_question now m i actor reason ids)"
| "memory_step fs allowed fl m (now, AttachEvidence i e relation actor) =
     after_id m (attach_evidence now m i e relation actor)"
| "memory_step fs allowed fl m (now, OpenConflict i statement actor x y) =
     after_id m (open_conflict now m i statement actor x y)"
| "memory_step fs allowed fl m (now, ResolveConflict i outcome resolution actor) =
     after m (resolve_conflict now m i outcome resolution actor)"
| "memory_step fs allowed fl m (now, UserCorrection statement related actor) =
     fst (apply_user_correction now m statement related actor)"
| "memory_step fs allowed fl m (now, CompleteMilestone i run n source) =
     after_id m (mark_milestone_complete now m i run n source)"
| "memory_step fs allowed fl m (now, RuntimeVerification q) = after_id m (record_verification_result fl now True m q)"
| "memory_step fs allowed fl m (now, RuntimeRubric statement ids actor scope) =
     fst (record_verified_fact now m statement ids ''department rubric outcome review'' actor scope [] None None True)"
| "memory_step fs allowed fl m (now, RetireRubric i actor reason) =
     after m (set_record_status now m i ''truth'' ''superseded'' actor reason)"

definition run_memory ::
  "project_files \<Rightarrow> (string \<Rightarrow> string \<Rightarrow> unit result) \<Rightarrow> (rat \<Rightarrow> string) \<Rightarrow> (string \<times> memory_op) list \<Rightarrow> memory"
where
  "run_memory fs allowed fl ops = foldl (memory_step fs allowed fl) empty_memory ops"

lemma run_memory_snoc [simp]:
  "run_memory fs allowed fl (ops @ [op]) = memory_step fs allowed fl (run_memory fs allowed fl ops) op"
  by (simp add: run_memory_def)

section \<open>The order is kept\<close>

lemma record_evidence_ok: "memory_ok m \<Longrightarrow> record_evidence fs allowed now m q = Inr (i, m') \<Longrightarrow> memory_ok m'"
proof -
  assume ok: "memory_ok m" and r: "record_evidence fs allowed now m q = Inr (i, m')"
  from r obtain m1 e a b c d x where n: "next_id m ''evidence'' = Inr (i, m1)"
    and m': "m' = audit (link_milestone now (m1\<lparr>mm_evidence := mm_evidence m1 @ [e]\<rparr>) x i) ''record'' ''evidence'' i a b now"
    by (auto simp: record_evidence_def insert_evidence_def split: if_split_asm)
  obtain s where "m1 = m\<lparr>mm_sequences := s\<rparr>" using next_id_frame [OF n] by blast
  then show "memory_ok m'"
    unfolding m' by (intro ok_evidence [OF ok, where es = "[e]"]) (simp_all add: link_milestone_def split: option.split prod.split)
qed

lemma verification_frame: "record_verification_result fl now b m q = Inr (i, m') \<Longrightarrow>
    mm_records m' = mm_records m \<and> mm_links m' = mm_links m \<and> mm_evidence m' = mm_evidence m
    \<and> mm_conflicts m' = mm_conflicts m"
  unfolding record_verification_result_def insert_verification_def Let_def
  by (auto split: if_split_asm option.split_asm dest!: next_id_frame)

lemma mark_milestone_frame: "mark_milestone_complete now m x run n src = Inr (i, m') \<Longrightarrow>
    mm_records m' = mm_records m \<and> mm_links m' = mm_links m \<and> mm_evidence m' = mm_evidence m
    \<and> mm_conflicts m' = mm_conflicts m"
  unfolding mark_milestone_complete_def Let_def by (auto split: if_split_asm)

lemma after_ok: "memory_ok m \<Longrightarrow> (\<And>m'. r = Inr m' \<Longrightarrow> memory_ok m') \<Longrightarrow> memory_ok (after m r)"
  "memory_ok m \<Longrightarrow> (\<And>x m'. r' = Inr (x, m') \<Longrightarrow> memory_ok m') \<Longrightarrow> memory_ok (after_id m r')"
  by (auto simp: after_def after_id_def split: sum.split)

lemma plain_ok: "memory_ok m \<Longrightarrow> create_record now m q = Inr (i, m') \<Longrightarrow> rq_status q \<notin> set BINDING_STATUSES \<Longrightarrow> memory_ok m'"
  by (rule create_record_ok) auto

lemma add_observation_ok: "memory_ok m \<Longrightarrow> add_observation now m s a c sc r p t = Inr (i, m') \<Longrightarrow> memory_ok m'"
  unfolding add_observation_def
  by (auto split: if_splits intro: plain_ok simp: plain_request_def BINDING_STATUSES_def)

lemma open_question_ok: "memory_ok m \<Longrightarrow> open_question now m q a n sc = Inr (i, m') \<Longrightarrow> memory_ok m'"
  unfolding open_question_def by (rule plain_ok) (auto simp: plain_request_def BINDING_STATUSES_def)

lemma step_ok: "memory_ok m \<Longrightarrow> memory_ok (memory_step fs allowed fl m op)"
proof -
  assume ok: "memory_ok m"
  obtain now o' where op: "op = (now, o')" by (cases op)
  show ?thesis unfolding op
    by (cases o'; simp only: memory_step.simps; (intro after_ok ok)?)
      (auto intro: record_evidence_ok [OF ok] ok_same [OF ok] add_observation_ok [OF ok] propose_decision_ok [OF ok]
        set_record_status_ok [OF ok] add_constraint_ok [OF ok] open_question_ok [OF ok] resolve_question_ok [OF ok]
        attach_evidence_ok [OF ok] open_conflict_ok [OF ok] resolve_conflict_ok [OF ok]
        apply_user_correction_ok [OF ok surjective_pairing] record_verified_fact_ok [OF ok surjective_pairing]
        dest: verification_frame mark_milestone_frame simp: set_decision_status_def split: if_splits)
qed

lemma run_ok: "memory_ok (run_memory fs allowed fl ops)"
  by (induction ops rule: rev_induct) (simp_all add: run_memory_def empty_memory_ok step_ok)

section \<open>External content does not decide\<close>

lemma below_truth_provenance:
  assumes "evidence_below_truth x = Inr False"
  shows "ev_provenance x = ''deterministic_tool_output'' \<or> ev_provenance x = ''human_verified''"
proof -
  from assms obtain t where t: "from_storage column_text (evidence_row x) = Inr t" "level_meets (et_level t) TRUTH_THRESHOLD"
    unfolding evidence_below_truth_def row_is_below_truth_def rows_trust_def by (auto split: sum.splits)
  have "map_of (evidence_row x) ''provenance'' = Some (PStr (ev_provenance x))" by (simp add: evidence_row_def)
  with t(1) have "coerce_provenance (ev_provenance x) = Inr (et_provenance t)"
    by (auto simp: from_storage_def make_trust_Inr unclassified_def split: option.splits sum.splits)
  then show ?thesis
    using meets_truth [OF from_storage_ok [OF t(1)]] t(2) by (auto simp: provenances.read_iff)
qed

text \<open>
  C35. Project Memory never lets outside material decide (R18): after every sequence of operations
  of models and runtime, a record in force (an accepted decision, an active constraint, a verified
  truth) that the user did not make is supported only by deterministic tool output or
  verified human judgment, however its evidence was attached, its status changed or a dispute over it resolved.
\<close>

theorem nothing_external_governs:
  assumes "r \<in> set (mm_records (run_memory fs allowed fl ops))"
    and "mr_status r \<in> set BINDING_STATUSES" "mr_origin r \<noteq> ''user''"
    and "l \<in> set (mm_links (run_memory fs allowed fl ops))" "li_record_id l = mr_id r" "li_relation l = ''supports''"
  shows "\<exists>e. find_evidence (run_memory fs allowed fl ops) (li_evidence_id l) = Some e
     \<and> (ev_provenance e = ''deterministic_tool_output'' \<or> ev_provenance e = ''human_verified'')"
proof -
  have "well_supported (run_memory fs allowed fl ops) (mr_id r)"
    using run_ok assms(1-3) by (auto simp: memory_ok_def governs_def)
  then have "sound_evidence (run_memory fs allowed fl ops) (li_evidence_id l)"
    using assms(4-6) by (auto simp: well_supported_def)
  then show ?thesis by (auto simp: sound_evidence_def dest: below_truth_provenance)
qed

text \<open>A project with no files, where every role is allowed, and two pieces of evidence.\<close>

definition no_files :: project_files where
  "no_files p = Inl (MemoryValidationError ''evidence path cannot be resolved'' [p])"

definition any_role :: "string \<Rightarrow> string \<Rightarrow> unit result" where
  "any_role i r = Inr ()"

definition plain_evidence :: "string \<Rightarrow> evidence_request" where
  "plain_evidence kind = \<lparr>eq_kind = kind, eq_summary = ''seen'', eq_created_by = ''worker'', eq_milestone_id = None,
     eq_role = ''verification'', eq_path = None, eq_line_start = None, eq_line_end = None,
     eq_command = Some ''make test'', eq_result = Some ''ok'', eq_exit_code = Some 0, eq_tool_name = Some ''make'',
     eq_artifact_path = None, eq_user_instruction = None, eq_environment_probe = None,
     eq_provider = Some ''web'', eq_provider_thread_id = None, eq_writer_thread = None\<rparr>"

definition run_sample :: "memory_op list \<Rightarrow> memory" where
  "run_sample ops = run_memory no_files any_role (\<lambda>_. []) (map (\<lambda>o'. (''t'', o')) ops)"

text \<open>
  A test supports a fact; an external page contradicts it, which opens a dispute; the page is then
  attached in support while the fact is disputed, and the resolution that would put the fact back in
  force is refused.
\<close>

definition disputed_ops :: "memory_op list" where
  "disputed_ops = [RecordEvidence (plain_evidence ''test''), RecordEvidence (plain_evidence ''external''),
     VerifiedFact ''the build passes'' [''EVID-001''] ''ran it'' ''worker'' ''project'' [] None None,
     AttachEvidence ''FACT-001'' ''EVID-002'' ''contradicts'' ''worker'',
     AttachEvidence ''FACT-001'' ''EVID-002'' ''supports'' ''worker'',
     ResolveConflict ''CONFLICT-001'' ''reject_incoming'' ''seen again'' ''worker'']"

lemma disputed_ops_refused:
  "map mr_status (mm_records (run_sample disputed_ops)) = [''disputed'']"
  by code_simp

theorem nothing_external_governs_witness:
  "\<exists>e. find_evidence (run_sample (take 3 disputed_ops)) ''EVID-001'' = Some e
     \<and> (ev_provenance e = ''deterministic_tool_output'' \<or> ev_provenance e = ''human_verified'')"
proof -
  have e: "let m = run_sample (take 3 disputed_ops) in case (mm_records m, mm_links m) of
      ([r], [l]) \<Rightarrow> mr_status r \<in> set BINDING_STATUSES \<and> mr_origin r \<noteq> ''user'' \<and> li_record_id l = mr_id r
        \<and> li_relation l = ''supports'' \<and> li_evidence_id l = ''EVID-001''
    | _ \<Rightarrow> False"
    by code_simp
  then obtain r l where m: "mm_records (run_sample (take 3 disputed_ops)) = [r]"
      "mm_links (run_sample (take 3 disputed_ops)) = [l]"
    and rl: "mr_status r \<in> set BINDING_STATUSES" "mr_origin r \<noteq> ''user''" "li_record_id l = mr_id r"
      "li_relation l = ''supports''" "li_evidence_id l = ''EVID-001''"
    unfolding Let_def by (auto split: list.splits)
  show ?thesis
    using nothing_external_governs [of r no_files any_role "\<lambda>_. []" "map (\<lambda>o'. (''t'', o')) (take 3 disputed_ops)" l]
      m rl unfolding run_sample_def by simp
qed

section \<open>A department rubric is the runtime's\<close>

definition is_rubric :: "memory_record \<Rightarrow> bool" where
  "is_rubric r \<longleftrightarrow> in_rubric_scope (mr_scope r)"

definition rubric_records :: "memory \<Rightarrow> memory_record list" where
  "rubric_records m = filter is_rubric (mm_records m)"

definition rubric_inv :: "memory \<Rightarrow> bool" where
  "rubric_inv m \<longleftrightarrow> memory_ok m \<and> (\<forall>r \<in> set (mm_records m). is_rubric r \<longrightarrow> mr_category r = ''truth'')
     \<and> (\<forall>c \<in> set (mm_conflicts m). \<exists>r. find_record m (cf_existing_record_id c) = Some r \<and> \<not> is_rubric r)"

text \<open>A step that keeps the invariant and leaves every rubric record as it is.\<close>

definition spares_rubrics :: "memory \<Rightarrow> memory \<Rightarrow> bool" where
  "spares_rubrics m m' \<longleftrightarrow> rubric_inv m' \<and> rubric_records m' = rubric_records m"

lemma spares_refl: "rubric_inv m \<Longrightarrow> spares_rubrics m m"
  by (simp add: spares_rubrics_def)

lemma spares_trans: "spares_rubrics m m1 \<Longrightarrow> spares_rubrics m1 m2 \<Longrightarrow> spares_rubrics m m2"
  by (simp add: spares_rubrics_def)

lemma spares_inv: "spares_rubrics m m' \<Longrightarrow> rubric_inv m'"
  by (simp add: spares_rubrics_def)

lemma spares_same:
  "rubric_inv m \<Longrightarrow> memory_ok m' \<Longrightarrow> mm_records m' = mm_records m \<Longrightarrow> mm_conflicts m' = mm_conflicts m \<Longrightarrow> spares_rubrics m m'"
  by (simp add: spares_rubrics_def rubric_inv_def rubric_records_def find_record_def)

lemma find_record_update:
  assumes "\<And>r. mr_id (f r) = mr_id r"
  shows "find_record (update_record i f m) j = map_option (\<lambda>r. if mr_id r = i then f r else r) (find_record m j)"
proof -
  have "find (\<lambda>s. mr_id s = j) (map (\<lambda>s. if mr_id s = i then f s else s) rs)
      = map_option (\<lambda>r. if mr_id r = i then f r else r) (find (\<lambda>s. mr_id s = j) rs)" for rs
    by (induction rs) (auto simp: assms)
  then show ?thesis by (simp add: find_record_def update_record_def)
qed

lemma spares_update:
  assumes inv: "rubric_inv m" and ok: "memory_ok m'" and r: "find_record m i = Some r" "\<not> is_rubric r"
    and f: "\<And>r. mr_id (f r) = mr_id r" "\<And>r. mr_scope (f r) = mr_scope r" "\<And>r. mr_category (f r) = mr_category r"
    and m': "mm_records m' = mm_records (update_record i f m)"
    and c: "\<And>c. c \<in> set (mm_conflicts m') \<Longrightarrow> cf_existing_record_id c = i \<or> cf_existing_record_id c \<in> cf_existing_record_id ` set (mm_conflicts m)"
  shows "spares_rubrics m m'"
proof -
  have unique: "s = r" if "s \<in> set (mm_records m)" "mr_id s = i" for s
    using find_record_unique [OF _ r(1) that] inv by (simp add: rubric_inv_def)
  have "filter is_rubric (map (\<lambda>s. if mr_id s = i then f s else s) rs) = filter is_rubric rs"
    if "set rs \<subseteq> set (mm_records m)" for rs
    using that by (induction rs) (use unique r(2) f(2) in \<open>auto simp: is_rubric_def\<close>)
  then have same: "rubric_records m' = rubric_records m"
    by (simp add: rubric_records_def m' update_record_def)
  have truths: "\<forall>r \<in> set (mm_records m'). is_rubric r \<longrightarrow> mr_category r = ''truth''"
    using inv f(2,3) by (auto simp: m' update_record_def rubric_inv_def is_rubric_def)
  have find: "find_record m' j = map_option (\<lambda>r. if mr_id r = i then f r else r) (find_record m j)" for j
    using find_record_update [of f i m j] f(1) m' by (simp add: find_record_def)
  have "\<exists>s. find_record m' (cf_existing_record_id x) = Some s \<and> \<not> is_rubric s" if x: "x \<in> set (mm_conflicts m')" for x
  proof -
    obtain s where "find_record m (cf_existing_record_id x) = Some s" "\<not> is_rubric s"
      using c [OF x] r inv by (auto simp: rubric_inv_def)
    then show ?thesis using f(2) by (auto simp: find is_rubric_def)
  qed
  with ok truths same show ?thesis by (simp add: spares_rubrics_def rubric_inv_def)
qed

text \<open>A new record is outside the rubric scopes unless the runtime reserved the scope.\<close>

lemma create_record_frame:
  assumes "create_record now m q = Inr (i, m')"
  shows "\<exists>r. mm_records m' = mm_records m @ [r] \<and> mm_conflicts m' = mm_conflicts m
     \<and> mr_category r = rq_category q \<and> (is_rubric r \<longrightarrow> rq_reserved_scope q)"
proof -
  obtain statement actor m1 r m2 m3 where scope: "rq_reserved_scope q \<or> \<not> in_rubric_scope (strip (rq_scope q))"
    and n: "next_id m (rq_category q) = Inr (i, m1)" and r: "record_of now i statement actor q = Inr r"
    and ins: "insert_record m1 r = Inr m2" "insert_links now i m2 (rq_evidence_ids q) = Inr m3"
    and m': "m' = audit m3 ''create'' (rq_category q) i actor
            [(''origin'', PStr (rq_origin q)), (''status'', PStr (rq_status q))] now"
    using assms unfolding create_record_def by (auto split: if_splits option.splits)
  obtain s where m1: "m1 = m\<lparr>mm_sequences := s\<rparr>" using next_id_frame [OF n] by blast
  have m2: "m2 = m1\<lparr>mm_records := mm_records m1 @ [r]\<rparr>" using ins(1) by (simp add: insert_record_def split: if_splits)
  have "mr_category r = rq_category q" "mr_scope r = strip (rq_scope q)"
    using r by (auto simp: record_of_def required_def split: if_splits)
  with scope show ?thesis
    by (auto simp: m' insert_links_eq [OF ins(2)] m2 m1 is_rubric_def)
qed

lemma spares_create:
  assumes inv: "rubric_inv m" and ok: "memory_ok m'" and c: "create_record now m q = Inr (i, m')"
    and q: "\<not> rq_reserved_scope q"
  shows "spares_rubrics m m'"
proof -
  obtain r where r: "mm_records m' = mm_records m @ [r]" "mm_conflicts m' = mm_conflicts m" "\<not> is_rubric r"
    using create_record_frame [OF c] q by blast
  have find: "find_record m' j = Some s" if "find_record m j = Some s" for j s
    using that by (simp add: find_record_def r(1) find_Some_append)
  have "\<exists>s. find_record m' (cf_existing_record_id x) = Some s \<and> \<not> is_rubric s" if "x \<in> set (mm_conflicts m')" for x
    using that inv find unfolding r(2) rubric_inv_def by blast
  with inv ok r show ?thesis by (auto simp: spares_rubrics_def rubric_inv_def rubric_records_def)
qed

lemma refuse_rubric_Inr:
  "refuse_rubric_records m ids doing = Inr () \<longleftrightarrow> (\<forall>r \<in> set (mm_records m). mr_id r \<in> set ids \<longrightarrow> \<not> is_rubric r)"
  by (auto simp: refuse_rubric_records_def Let_def filter_empty_conv is_rubric_def)

lemma rubric_inv_ok: "rubric_inv m \<Longrightarrow> memory_ok m"
  by (simp add: rubric_inv_def)

lemma spares_open_conflict:
  assumes inv: "rubric_inv m" and c: "open_conflict now m i statement actor x y = Inr (j, m')"
  shows "spares_rubrics m m'"
proof -
  let ?f = "\<lambda>r. r\<lparr>mr_status := ''disputed'', mr_updated_at := now\<rparr>"
  obtain s row h d a where m': "m' = audit (update_record i ?f (m\<lparr>mm_sequences := s, mm_conflicts := mm_conflicts m @ [row]\<rparr>)
      \<lparr>mm_conflict_history := h\<rparr>) ''open'' ''conflict'' j a d now" and row: "cf_existing_record_id row = i"
    using c unfolding open_conflict_def Let_def
    by (auto split: option.splits if_splits dest!: next_id_frame)
  obtain r where r: "find_record m i = Some r" and n: "refuse_rubric_records m [i] ''a conflict over it'' = Inr ()"
    using c unfolding open_conflict_def by (auto split: option.splits)
  have nr: "\<not> is_rubric r" using n find_record_id [OF r] unfolding refuse_rubric_Inr by auto
  show ?thesis
    by (rule spares_update [OF inv open_conflict_ok [OF rubric_inv_ok [OF inv] c] r nr, of ?f])
      (use row in \<open>auto simp: m' update_record_def\<close>)
qed

lemma spares_resolve_conflict:
  assumes inv: "rubric_inv m" and c: "resolve_conflict now m i outcome resolution actor = Inr m'"
  shows "spares_rubrics m m'"
proof -
  obtain x where x: "find_conflict m i = Some x" "settle_conflict now m x outcome resolution actor = Inr m'"
    using c unfolding resolve_conflict_def by (auto split: option.splits if_splits)
  then have "x \<in> set (mm_conflicts m)" by (auto simp: find_conflict_def find_Some_iff)
  then obtain r where r: "find_record m (cf_existing_record_id x) = Some r" "\<not> is_rubric r"
    using inv unfolding rubric_inv_def by blast
  obtain s t where m': "m' = close_conflict now m (cf_id x) (cf_existing_record_id x) s outcome t resolution actor"
    using guarded_tail [OF x(2) [unfolded settle_conflict_def Let_def]] by blast
  show ?thesis
    by (rule spares_update [OF inv resolve_conflict_ok [OF rubric_inv_ok [OF inv] c] r,
          of "\<lambda>r. r\<lparr>mr_status := s, mr_updated_at := now\<rparr>"])
      (auto simp: m' close_conflict_def Let_def update_record_def split: if_splits)
qed

lemma spares_set_status:
  assumes inv: "rubric_inv m" and s: "set_record_status now m i category status actor reason = Inr m'"
    and c: "category \<noteq> ''truth''"
  shows "spares_rubrics m m'"
proof -
  obtain r t where r: "find_record m i = Some r" "mr_category r = category"
    and m': "m' = audit (update_record i (\<lambda>r. r\<lparr>mr_status := status,
              mr_reason := (case t of None \<Rightarrow> mr_reason r | Some t \<Rightarrow> Some t), mr_updated_at := now\<rparr>) m)
            ''status'' category i actor [(''status'', PStr status), (''reason'', opt_text reason)] now"
    using s unfolding set_record_status_def by (auto split: option.split_asm if_split_asm)
  have "\<not> is_rubric r" using inv r c find_record_id [OF r(1)] by (auto simp: rubric_inv_def)
  from spares_update [OF inv set_record_status_ok [OF rubric_inv_ok [OF inv] s] r(1) this,
      of "\<lambda>r. r\<lparr>mr_status := status, mr_reason := (case t of None \<Rightarrow> mr_reason r | Some t \<Rightarrow> Some t), mr_updated_at := now\<rparr>"]
  show ?thesis by (simp add: m' update_record_def)
qed

lemma spares_resolve_question:
  assumes inv: "rubric_inv m" and q: "resolve_question now m i actor reason ids = Inr m'"
  shows "spares_rubrics m m'"
proof -
  obtain r where r: "find_record m i = Some r" "mr_category r = ''question''"
    using q unfolding resolve_question_def Let_def by (auto split: option.split_asm if_split_asm)
  obtain m1 a t where l: "link_answers now i m (map strip ids) = Inr m1"
    and m': "m' = audit (update_record i (\<lambda>r. r\<lparr>mr_status := ''resolved'', mr_reason := Some t,
              mr_updated_at := now\<rparr>) m1) ''status'' ''question'' i a
            [(''status'', PStr ''resolved''), (''reason'', PStr t),
             (''evidence_ids'', PList (map PStr (map strip ids)))] now"
    using q unfolding resolve_question_def Let_def by (auto split: option.split_asm if_split_asm)
  have frame: "mm_records m1 = mm_records m \<and> mm_conflicts m1 = mm_conflicts m"
    using l by (induction ids arbitrary: m) (auto split: if_splits simp: link_or_ignore_def)
  have nr: "\<not> is_rubric r" using inv r find_record_id [OF r(1)] by (auto simp: rubric_inv_def)
  show ?thesis
    by (rule spares_update [OF inv resolve_question_ok [OF rubric_inv_ok [OF inv] q] r(1) nr,
          of "\<lambda>r. r\<lparr>mr_status := ''resolved'', mr_reason := Some t, mr_updated_at := now\<rparr>"])
      (use frame in \<open>auto simp: m' update_record_def\<close>)
qed

lemma spares_open_conflicts:
  "rubric_inv m \<Longrightarrow> open_conflicts now m fid actor ids = (cs, m', e) \<Longrightarrow> spares_rubrics m m'"
proof (induction ids arbitrary: m cs m' e)
  case Nil
  then show ?case by (simp add: spares_refl)
next
  case (Cons i ids)
  show ?case
  proof (cases "open_conflict now m i (''New verified fact '' @ fid @ '' conflicts with '' @ i @ ''.'') actor (Some fid) None")
    case (Inl x)
    with Cons.prems show ?thesis by (simp add: spares_refl)
  next
    case (Inr z)
    obtain c m1 where z: "z = (c, m1)" by (cases z)
    have s: "spares_rubrics m m1" using spares_open_conflict [OF Cons.prems(1)] Inr z by simp
    obtain cs' e' where "open_conflicts now m1 fid actor ids = (cs', m', e')"
      using Cons.prems(2) Inr z by (auto split: prod.splits)
    from spares_trans [OF s Cons.IH [OF spares_inv [OF s] this]] show ?thesis .
  qed
qed

lemma spares_fact:
  assumes inv: "rubric_inv m"
    and f: "record_verified_fact now m statement ids how actor scope contradicts p t False = (m', z)"
  shows "spares_rubrics m m'"
proof (cases "bindE (check_fact m ids contradicts) (\<lambda>_. create_record now m (fact_request statement ids how actor scope p t False))")
  case (Inl e)
  with f inv show ?thesis by (simp add: record_verified_fact_def spares_refl)
next
  case (Inr w)
  obtain i m1 where w: "w = (i, m1)" by (cases w)
  have c: "check_fact m ids contradicts = Inr ()"
      "create_record now m (fact_request statement ids how actor scope p t False) = Inr (i, m1)"
    using Inr w by auto
  have "memory_ok m1"
    by (rule create_record_ok [OF rubric_inv_ok [OF inv] c(2)])
      (use check_fact_sound [OF c(1)] in \<open>simp add: fact_request_def\<close>)
  then have s: "spares_rubrics m m1"
    by (rule spares_create [OF inv _ c(2)]) (simp add: fact_request_def plain_request_def)
  obtain cs e where "open_conflicts now m1 i actor contradicts = (cs, m', e)"
    using f Inr w by (auto simp: record_verified_fact_def split: prod.splits option.splits)
  from spares_trans [OF s spares_open_conflicts [OF spares_inv [OF s] this]] show ?thesis .
qed

lemma spares_attach:
  assumes inv: "rubric_inv m" and a: "attach_evidence now m i e relation actor = Inr (c, m')"
  shows "spares_rubrics m m'"
proof -
  obtain r where r: "find_record m i = Some r"
    using a by (cases "find_record m i") (auto simp: attach_evidence_def split: if_split_asm)
  obtain actor' where l: "attach_link now m r i e relation actor' = Inr (c, m')"
    using a unfolding attach_evidence_def r prod.case option.case by (auto split: if_split_asm option.split_asm)
  have ok: "memory_ok m'" by (rule attach_evidence_ok [OF rubric_inv_ok [OF inv] a])
  obtain b m1 where m1: "link_or_ignore now i e relation m = (b, m1)" by fastforce
  have frame: "mm_records m1 = mm_records m" "mm_conflicts m1 = mm_conflicts m"
    using m1 by (auto simp: link_or_ignore_def split: if_splits)
  let ?m2 = "audit m1 ''attach_evidence'' (mr_category r) i actor' [(''evidence_id'', PStr e), (''relation'', PStr relation)] now"
  have ok1: "memory_ok ?m2"
  proof -
    obtain x where x: "find_evidence m e = Some x"
      using a r by (cases "find_evidence m e") (auto simp: attach_evidence_def split: if_split_asm)
    obtain b where b: "evidence_below_truth x = Inr b" "\<not> (relation = ''supports'' \<and> b \<and> governs r)"
      using a unfolding attach_evidence_def governs_def r x prod.case option.case by (auto split: if_split_asm)
    have "memory_ok (snd (link_or_ignore now i e relation m))"
      by (rule ok_link [OF rubric_inv_ok [OF inv] r x]) (use b in \<open>cases b; simp\<close>)
    then show ?thesis by (rule ok_same) (simp_all add: m1)
  qed
  have s: "spares_rubrics m ?m2" by (rule spares_same [OF inv ok1]) (simp_all add: frame)
  from l have "m' = ?m2 \<or> (\<exists>c x y. open_conflict now ?m2 i x actor' None y = Inr (c, m'))"
    by (auto simp: attach_link_def m1 Let_def split: if_split_asm)
  with s spares_trans [OF s spares_open_conflict [OF spares_inv [OF s]]] show ?thesis by blast
qed

lemma spares_decision:
  assumes inv: "rubric_inv m" and p: "propose_decision now m statement origin actor status reason scope ids p t = Inr (i, m')"
  shows "spares_rubrics m m'"
proof -
  have "create_record now m ((plain_request ''decision'' statement origin status actor scope)
        \<lparr>rq_reason := reason, rq_evidence_ids := ids, rq_provider := p, rq_provider_thread_id := t\<rparr>) = Inr (i, m')"
    using p unfolding propose_decision_def by (auto split: if_splits)
  from spares_create [OF inv propose_decision_ok [OF rubric_inv_ok [OF inv] p] this]
  show ?thesis by (simp add: plain_request_def)
qed

lemma spares_correct: "rubric_inv m \<Longrightarrow> correct_records now m d actor ids = (m', z) \<Longrightarrow> spares_rubrics m m'"
proof (induction ids arbitrary: m m' z)
  case Nil
  then show ?case by (simp add: spares_refl)
next
  case (Cons i ids)
  have step: "spares_rubrics m m'" if "spares_rubrics m m1" "correct_records now m1 d actor ids = (m', z')" for m1 z'
    using spares_trans [OF that(1) Cons.IH [OF spares_inv [OF that(1)] that(2)]] .
  note decided = step [OF spares_set_status [OF Cons.prems(1)]]
  note disputed = step [OF spares_open_conflict [OF Cons.prems(1)]]
  from Cons.prems show ?case
    by (auto split: option.splits if_splits sum.splits prod.splits simp: set_decision_status_def
        intro: decided disputed Cons.IH spares_refl)
qed

lemma spares_correction:
  assumes inv: "rubric_inv m" and a: "apply_user_correction now m statement related actor = (m', z)"
  shows "spares_rubrics m m'"
proof (cases "propose_decision now m statement ''user'' actor ''accepted'' (Some ''Explicit user correction'') ''project'' [] None None")
  case (Inl e)
  with a inv show ?thesis
    by (cases "refuse_rubric_records m related ''a correction disputing it''")
      (auto simp: apply_user_correction_def spares_refl)
next
  case (Inr w)
  obtain d m1 where w: "w = (d, m1)" by (cases w)
  have s: "spares_rubrics m m1" using spares_decision [OF inv] Inr w by blast
  show ?thesis
  proof (cases "refuse_rubric_records m related ''a correction disputing it''")
    case (Inl e)
    with a inv show ?thesis by (simp add: apply_user_correction_def spares_refl)
  next
    case r: (Inr u)
    obtain y where "correct_records now m1 d actor related = (m', y)"
      using a Inr w r by (auto simp: apply_user_correction_def split: prod.splits)
    from spares_trans [OF s spares_correct [OF spares_inv [OF s] this]] show ?thesis .
  qed
qed

lemma spares_after:
  "rubric_inv m \<Longrightarrow> (\<And>m'. r = Inr m' \<Longrightarrow> spares_rubrics m m') \<Longrightarrow> spares_rubrics m (after m r)"
  "rubric_inv m \<Longrightarrow> (\<And>x m'. r' = Inr (x, m') \<Longrightarrow> spares_rubrics m m') \<Longrightarrow> spares_rubrics m (after_id m r')"
  by (auto simp: after_def after_id_def spares_refl split: sum.split)

fun runtime_op :: "memory_op \<Rightarrow> bool" where
  "runtime_op (RuntimeVerification q) = True"
| "runtime_op (RuntimeRubric statement ids actor scope) = True"
| "runtime_op (RetireRubric i actor reason) = True"
| "runtime_op _ = False"

lemma record_evidence_frame: "record_evidence fs allowed now m q = Inr (i, m') \<Longrightarrow>
    mm_records m' = mm_records m \<and> mm_conflicts m' = mm_conflicts m"
  by (auto simp: record_evidence_def insert_evidence_def link_milestone_def
      split: if_split_asm option.split prod.split dest!: next_id_frame)

lemma spares_plain:
  assumes inv: "rubric_inv m" and c: "create_record now m q = Inr (i, m')"
    and q: "\<not> rq_reserved_scope q" "rq_status q \<notin> set BINDING_STATUSES"
  shows "spares_rubrics m m'"
  by (rule spares_create [OF inv plain_ok [OF rubric_inv_ok [OF inv] c q(2)] c q(1)])

lemma spares_simple:
  assumes inv: "rubric_inv m"
  shows "record_evidence fs allowed now m q = Inr (i, m') \<Longrightarrow> spares_rubrics m m'"
    "record_verification_result fl now b m vq = Inr (i, m') \<Longrightarrow> spares_rubrics m m'"
    "mark_milestone_complete now m x run n src = Inr (k, m') \<Longrightarrow> spares_rubrics m m'"
    "add_observation now m st a cf sc reason p t = Inr (i, m') \<Longrightarrow> spares_rubrics m m'"
    "open_question now m st a needed sc = Inr (i, m') \<Longrightarrow> spares_rubrics m m'"
    "add_constraint now m st org a sc reason ids = Inr (i, m') \<Longrightarrow> spares_rubrics m m'"
proof -
  note ok = rubric_inv_ok [OF inv]
  show "record_evidence fs allowed now m q = Inr (i, m') \<Longrightarrow> spares_rubrics m m'"
    using spares_same [OF inv record_evidence_ok [OF ok]] record_evidence_frame by blast
  show "record_verification_result fl now b m vq = Inr (i, m') \<Longrightarrow> spares_rubrics m m'"
    using spares_same [OF inv ok_same [OF ok]] verification_frame by metis
  show "mark_milestone_complete now m x run n src = Inr (k, m') \<Longrightarrow> spares_rubrics m m'"
    using spares_same [OF inv ok_same [OF ok]] mark_milestone_frame by metis
  show "add_observation now m st a cf sc reason p t = Inr (i, m') \<Longrightarrow> spares_rubrics m m'"
    unfolding add_observation_def
    by (auto split: if_splits intro: spares_plain [OF inv] simp: plain_request_def BINDING_STATUSES_def)
  show "open_question now m st a needed sc = Inr (i, m') \<Longrightarrow> spares_rubrics m m'"
    unfolding open_question_def
    by (rule spares_plain [OF inv]) (auto simp: plain_request_def BINDING_STATUSES_def)
  assume c: "add_constraint now m st org a sc reason ids = Inr (i, m')"
  then have "create_record now m ((plain_request ''constraint'' st org ''active'' a sc)
      \<lparr>rq_reason := reason, rq_evidence_ids := ids\<rparr>) = Inr (i, m')"
    unfolding add_constraint_def by (auto split: if_splits)
  from spares_create [OF inv add_constraint_ok [OF ok c] this]
  show "spares_rubrics m m'" by (simp add: plain_request_def)
qed

lemma spares_decision_status:
  "rubric_inv m \<Longrightarrow> set_decision_status now m i status actor reason = Inr m' \<Longrightarrow> spares_rubrics m m'"
  unfolding set_decision_status_def by (rule spares_set_status) (auto split: if_splits)

lemmas spares_steps = spares_simple spares_decision spares_decision_status spares_resolve_question
  spares_attach spares_open_conflict spares_resolve_conflict

lemma model_step_spares:
  assumes inv: "rubric_inv m" and o': "\<not> runtime_op o'"
  shows "spares_rubrics m (memory_step fs allowed fl m (now, o'))"
  using o' by (cases o') (auto intro!: spares_after [OF inv] spares_fact [OF inv surjective_pairing]
    spares_correction [OF inv surjective_pairing] dest: spares_steps [OF inv])

text \<open>The runtime's operations keep the invariant too.\<close>

lemma runtime_step_inv:
  assumes inv: "rubric_inv m" and o': "runtime_op o'"
  shows "rubric_inv (memory_step fs allowed fl m (now, o'))"
proof (cases o')
  case (RuntimeVerification q)
  then show ?thesis
    using spares_inv [OF spares_after(2) [OF inv spares_simple(2) [OF inv]]] by simp
next
  case (RuntimeRubric statement ids actor scope)
  let ?q = "fact_request statement ids ''department rubric outcome review'' actor scope None None True"
  show ?thesis
  proof (cases "bindE (check_fact m ids []) (\<lambda>_. create_record now m ?q)")
    case (Inl e)
    with inv RuntimeRubric show ?thesis by (simp add: record_verified_fact_def)
  next
    case (Inr w)
    obtain i m1 where w: "w = (i, m1)" by (cases w)
    have c: "check_fact m ids [] = Inr ()" "create_record now m ?q = Inr (i, m1)" using Inr w by auto
    have ok: "memory_ok m1"
      by (rule create_record_ok [OF rubric_inv_ok [OF inv] c(2)])
        (use check_fact_sound [OF c(1)] in \<open>simp add: fact_request_def\<close>)
    obtain r where r: "mm_records m1 = mm_records m @ [r]" "mm_conflicts m1 = mm_conflicts m" "mr_category r = ''truth''"
      using create_record_frame [OF c(2)] by (auto simp: fact_request_def plain_request_def)
    have "find_record m1 j = Some s" if "find_record m j = Some s" for j s
      using that by (simp add: find_record_def r(1) find_Some_append)
    with inv ok r have "rubric_inv m1" unfolding rubric_inv_def by auto
    with RuntimeRubric Inr w show ?thesis by (simp add: record_verified_fact_def)
  qed
next
  case (RetireRubric i actor reason)
  have "rubric_inv m'" if s: "set_record_status now m i ''truth'' ''superseded'' actor reason = Inr m'" for m'
  proof -
    obtain r t where r: "find_record m i = Some r"
      and m': "m' = audit (update_record i (\<lambda>r. r\<lparr>mr_status := ''superseded'',
              mr_reason := (case t of None \<Rightarrow> mr_reason r | Some t \<Rightarrow> Some t), mr_updated_at := now\<rparr>) m)
            ''status'' ''truth'' i actor [(''status'', PStr ''superseded''), (''reason'', opt_text reason)] now"
      using s unfolding set_record_status_def by (auto split: option.split_asm if_split_asm)
    have truths: "\<forall>r \<in> set (mm_records m'). is_rubric r \<longrightarrow> mr_category r = ''truth''"
      using inv by (auto simp: m' update_record_def rubric_inv_def is_rubric_def)
    have "find_record m' j = find_record (update_record i (\<lambda>r. r\<lparr>mr_status := ''superseded'',
              mr_reason := (case t of None \<Rightarrow> mr_reason r | Some t \<Rightarrow> Some t), mr_updated_at := now\<rparr>) m) j" for j
      by (simp add: find_record_def m')
    then have find: "find_record m' j = map_option (\<lambda>r. if mr_id r = i then r\<lparr>mr_status := ''superseded'',
              mr_reason := (case t of None \<Rightarrow> mr_reason r | Some t \<Rightarrow> Some t), mr_updated_at := now\<rparr> else r) (find_record m j)" for j
      by (subst find_record_update [symmetric]) simp_all
    have "\<forall>c \<in> set (mm_conflicts m'). \<exists>r. find_record m' (cf_existing_record_id c) = Some r \<and> \<not> is_rubric r"
    proof
      fix c assume "c \<in> set (mm_conflicts m')"
      then have "c \<in> set (mm_conflicts m)" by (simp add: m')
      then obtain s where "find_record m (cf_existing_record_id c) = Some s" "\<not> is_rubric s"
        using inv unfolding rubric_inv_def by blast
      then show "\<exists>r. find_record m' (cf_existing_record_id c) = Some r \<and> \<not> is_rubric r"
        by (simp add: find is_rubric_def)
    qed
    with truths set_record_status_ok [OF rubric_inv_ok [OF inv] s] show ?thesis by (simp add: rubric_inv_def)
  qed
  with RetireRubric inv show ?thesis by (simp add: after_def split: sum.split)
qed (use o' in simp_all)

lemma run_rubric_inv: "rubric_inv (run_memory fs allowed fl ops)"
proof (induction ops rule: rev_induct)
  case Nil
  show ?case by (simp add: rubric_inv_def run_memory_def empty_memory_ok) (simp add: empty_memory_def)
next
  case (snoc op ops)
  obtain now o' where op: "op = (now, o')" by (cases op)
  with snoc show ?case
    using spares_inv [OF model_step_spares] runtime_step_inv by (cases "runtime_op o'") auto
qed

text \<open>
  C36. A department rubric is the runtime's (R30): whatever happened before, an operation a model
  can make (evidence, facts with contradictions, decisions, questions, attachments, disputes and
  their resolution, corrections of the user) neither adds a record to a rubric scope nor
  changes one in it.
\<close>

theorem model_spares_rubrics:
  assumes "\<not> runtime_op o'"
  shows "rubric_records (memory_step fs allowed fl (run_memory fs allowed fl ops) (now, o'))
    = rubric_records (run_memory fs allowed fl ops)"
  using model_step_spares [OF run_rubric_inv assms] unfolding spares_rubrics_def by blast

definition rubric_ops :: "memory_op list" where
  "rubric_ops = [RecordEvidence (plain_evidence ''test''),
     RuntimeRubric ''criteria'' [''EVID-001''] ''runtime'' ''department-acceptance-rubric:core'']"

theorem model_spares_rubrics_witness:
  "map mr_status (rubric_records (run_sample (rubric_ops
     @ [AttachEvidence ''FACT-001'' ''EVID-001'' ''contradicts'' ''worker'']))) = [''verified'']"
proof -
  have v: "map mr_status (rubric_records (run_sample rubric_ops)) = [''verified'']" by code_simp
  have "rubric_records (run_sample (rubric_ops @ [AttachEvidence ''FACT-001'' ''EVID-001'' ''contradicts'' ''worker'']))
      = rubric_records (run_sample rubric_ops)"
    unfolding run_sample_def map_append list.map run_memory_snoc
    by (rule model_spares_rubrics) simp
  with v show ?thesis by (simp only:)
qed

section \<open>Attestations are the runtime's\<close>

text \<open>Every operation but the recording of a result leaves the verification ledger as it is.\<close>

definition same_ledger :: "memory \<Rightarrow> memory \<Rightarrow> bool" where
  "same_ledger m m' \<longleftrightarrow> mm_verifications m' = mm_verifications m \<and> mm_verification_links m' = mm_verification_links m
     \<and> (\<forall>i x. find_evidence m i = Some x \<longrightarrow> find_evidence m' i = Some x)"

lemma same_ledgerI:
  "mm_verifications m' = mm_verifications m \<Longrightarrow> mm_verification_links m' = mm_verification_links m
   \<Longrightarrow> mm_evidence m' = mm_evidence m \<Longrightarrow> same_ledger m m'"
  by (simp add: same_ledger_def find_evidence_def)

lemma same_ledger_refl [simp]: "same_ledger m m"
  by (simp add: same_ledger_def)

lemma same_ledger_trans: "same_ledger m m1 \<Longrightarrow> same_ledger m1 m2 \<Longrightarrow> same_ledger m m2"
  by (simp add: same_ledger_def)

lemma ledger_create: "create_record now m q = Inr (i, m') \<Longrightarrow> same_ledger m m'"
  unfolding create_record_def insert_record_def
  by (rule same_ledgerI) (auto split: if_split_asm option.split_asm dest!: next_id_frame insert_links_eq)

lemma ledger_open_conflict: "open_conflict now m i s a x y = Inr (j, m') \<Longrightarrow> same_ledger m m'"
  unfolding open_conflict_def Let_def
  by (rule same_ledgerI) (auto split: if_split_asm option.split_asm dest!: next_id_frame)

lemma ledger_open_conflicts: "open_conflicts now m fid actor ids = (cs, m', e) \<Longrightarrow> same_ledger m m'"
proof (induction ids arbitrary: m cs m' e)
  case Nil
  then show ?case by simp
next
  case (Cons i ids)
  show ?case
  proof (cases "open_conflict now m i (''New verified fact '' @ fid @ '' conflicts with '' @ i @ ''.'') actor (Some fid) None")
    case (Inl x)
    with Cons.prems show ?thesis by simp
  next
    case (Inr z)
    obtain c m1 where z: "z = (c, m1)" by (cases z)
    obtain cs' e' where "open_conflicts now m1 fid actor ids = (cs', m', e')"
      using Cons.prems Inr z by (auto split: prod.splits)
    from Cons.IH [OF this] ledger_open_conflict Inr z show ?thesis by (blast intro: same_ledger_trans)
  qed
qed

lemma ledger_fact: "record_verified_fact now m st ids how a sc cs p t res = (m', z) \<Longrightarrow> same_ledger m m'"
  unfolding record_verified_fact_def
  by (auto split: sum.split_asm prod.split_asm option.split_asm
      dest!: ledger_create ledger_open_conflicts intro: same_ledger_trans)

lemma ledger_status: "set_record_status now m i c s a r = Inr m' \<Longrightarrow> same_ledger m m'"
  unfolding set_record_status_def by (rule same_ledgerI) (auto split: if_split_asm option.split_asm)

lemma ledger_question: "resolve_question now m i a r ids = Inr m' \<Longrightarrow> same_ledger m m'"
proof -
  have step: "same_ledger m m1" if "link_answers now i m es = Inr m1" for m1 es
    using that
  proof (induction es arbitrary: m)
    case Nil
    then show ?case by simp
  next
    case (Cons e es)
    have "same_ledger m (snd (link_or_ignore now i e ''supports'' m))"
      by (rule same_ledgerI) (simp_all add: link_or_ignore_def)
    with Cons show ?case by (auto split: if_splits intro: same_ledger_trans)
  qed
  have close: "same_ledger m1 (audit (update_record i f m1) x y z w d now)" for m1 f x y z w d
    by (rule same_ledgerI) simp_all
  show "resolve_question now m i a r ids = Inr m' \<Longrightarrow> same_ledger m m'"
    unfolding resolve_question_def Let_def
    by (auto split: if_split_asm option.split_asm intro: same_ledger_trans [OF step close])
qed

lemma ledger_attach: "attach_evidence now m i e rel a = Inr (c, m') \<Longrightarrow> same_ledger m m'"
proof -
  assume a: "attach_evidence now m i e rel a = Inr (c, m')"
  obtain r actor' where l: "attach_link now m r i e rel actor' = Inr (c, m')"
    using a unfolding attach_evidence_def by (auto split: if_split_asm option.split_asm)
  obtain b m1 where m1: "link_or_ignore now i e rel m = (b, m1)" by fastforce
  have s: "same_ledger m (audit m1 x y z w d now)" for x y z w d
    by (rule same_ledgerI) (use m1 in \<open>auto simp: link_or_ignore_def split: if_splits\<close>)
  from l show ?thesis
    by (auto simp: attach_link_def m1 Let_def s split: if_split_asm
        intro: same_ledger_trans [OF s] dest: ledger_open_conflict)
qed

lemma ledger_resolve: "resolve_conflict now m i out res a = Inr m' \<Longrightarrow> same_ledger m m'"
proof -
  assume "resolve_conflict now m i out res a = Inr m'"
  then obtain x where x: "settle_conflict now m x out res a = Inr m'"
    unfolding resolve_conflict_def by (auto split: option.split_asm if_split_asm)
  obtain s t where "m' = close_conflict now m (cf_id x) (cf_existing_record_id x) s out t res a"
    using guarded_tail [OF x [unfolded settle_conflict_def Let_def]] by blast
  then show "same_ledger m m'" by (intro same_ledgerI) (simp_all add: close_conflict_def Let_def)
qed

lemma ledger_correct: "correct_records now m d a ids = (m', z) \<Longrightarrow> same_ledger m m'"
proof (induction ids arbitrary: m m' z)
  case Nil
  then show ?case by simp
next
  case (Cons i ids)
  from Cons.prems show ?case
    by (auto split: option.splits if_splits sum.splits prod.splits simp: set_decision_status_def
        intro: Cons.IH same_ledger_trans [OF ledger_status Cons.IH] same_ledger_trans [OF ledger_open_conflict Cons.IH])
qed

lemma ledger_decision: "propose_decision now m st org a s r sc ids p t = Inr (i, m') \<Longrightarrow> same_ledger m m'"
  unfolding propose_decision_def by (auto split: if_splits dest: ledger_create)

lemma ledger_correction: "apply_user_correction now m st rel a = (m', z) \<Longrightarrow> same_ledger m m'"
  unfolding apply_user_correction_def
  by (auto split: sum.split_asm prod.split_asm dest!: ledger_decision ledger_correct intro: same_ledger_trans)

lemma ledger_evidence: "record_evidence fs allowed now m q = Inr (i, m') \<Longrightarrow> same_ledger m m'"
proof -
  assume r: "record_evidence fs allowed now m q = Inr (i, m')"
  from r obtain m1 e a b x where n: "next_id m ''evidence'' = Inr (i, m1)"
    and m': "m' = audit (link_milestone now (m1\<lparr>mm_evidence := mm_evidence m1 @ [e]\<rparr>) x i) ''record'' ''evidence'' i a b now"
    by (auto simp: record_evidence_def insert_evidence_def split: if_split_asm)
  obtain s where "m1 = m\<lparr>mm_sequences := s\<rparr>" using next_id_frame [OF n] by blast
  then show ?thesis unfolding same_ledger_def m' find_evidence_def
    by (simp add: link_milestone_def find_Some_append split: option.split prod.split)
qed

lemma ledger_milestone: "mark_milestone_complete now m x run n src = Inr (i, m') \<Longrightarrow> same_ledger m m'"
  unfolding mark_milestone_complete_def Let_def by (rule same_ledgerI) (auto split: if_split_asm)

lemmas ledger_steps = ledger_create ledger_open_conflict ledger_status ledger_question ledger_attach ledger_resolve
  ledger_decision ledger_evidence ledger_milestone

lemma ledger_step:
  assumes "\<And>q. o' \<noteq> RecordVerification q" "\<And>q. o' \<noteq> RuntimeVerification q"
  shows "same_ledger m (memory_step fs allowed fl m (now, o'))"
proof -
  have a: "(\<And>m'. r = Inr m' \<Longrightarrow> same_ledger m m') \<Longrightarrow> same_ledger m (after m r)"
    and b: "(\<And>x m'. r' = Inr (x, m') \<Longrightarrow> same_ledger m m') \<Longrightarrow> same_ledger m (after_id m r')"
    for r and r' :: "('a \<times> memory) result"
    by (auto simp: after_def after_id_def split: sum.split)
  show ?thesis
    using assms by (cases o') (auto intro!: a b ledger_fact [OF surjective_pairing] ledger_correction [OF surjective_pairing]
      dest: ledger_steps simp: add_observation_def open_question_def add_constraint_def set_decision_status_def
      after_id_def split: if_splits sum.splits)
qed

text \<open>The row a request stands for, and the details it stores.\<close>

definition row_of_request :: "(rat \<Rightarrow> string) \<Rightarrow> bool \<Rightarrow> verification_request \<Rightarrow> verification_row \<Rightarrow> bool" where
  "row_of_request fl attested q v \<longleftrightarrow> (\<exists>q' details. check_verification attested q = Inr (q', details)
     \<and> vr_details_json v = json_text fl (PDict details) \<and> vr_task_id v = vq_task_id q' \<and> vr_check_id v = vq_check_id q'
     \<and> vr_policy v = vq_policy q' \<and> vr_verdict v = vq_verdict q' \<and> vr_provider v = vq_provider q'
     \<and> vr_provider_thread_id v = vq_provider_thread_id q' \<and> vr_provider_turn_id v = vq_provider_turn_id q')"

definition ledger_rows :: "(rat \<Rightarrow> string) \<Rightarrow> (string \<times> memory_op) list \<Rightarrow> memory \<Rightarrow> bool" where
  "ledger_rows fl ops m \<longleftrightarrow> (\<forall>v \<in> set (mm_verifications m).
     \<exists>now q. (now, RecordVerification q) \<in> set ops \<and> row_of_request fl False q v
        \<or> (now, RuntimeVerification q) \<in> set ops \<and> row_of_request fl True q v)
   \<and> (\<forall>l \<in> set (mm_verification_links m). sound_evidence m (vl_evidence_id l))"

lemma cited_sound:
  assumes "cited m ids = Inr items"
    "require_truth_rows MemoryValidationError column_text prefix (map evidence_row items) = Inr a"
    "e \<in> set ids"
  shows "sound_evidence m e"
proof -
  from assms(1) have known: "\<forall>i \<in> set ids. find_evidence m i \<noteq> None" and all: "items = map (\<lambda>i. the (find_evidence m i)) ids"
    by (auto simp: cited_def Let_def filter_empty_conv split: if_splits)
  obtain x where x: "find_evidence m e = Some x" using known assms(3) by auto
  with all assms(3) have "x \<in> set items" by force
  moreover have "\<forall>row \<in> set (map evidence_row items). \<exists>t. from_storage column_text row = Inr t
      \<and> et_provenance t \<in> {DETERMINISTIC_TOOL_OUTPUT, HUMAN_VERIFICATION}"
    using require_truth_rows_iff [THEN iffD1, OF exI, OF assms(2)] by blast
  ultimately have "evidence_below_truth x = Inr False"
    unfolding evidence_below_truth_def by (auto intro: row_above_truth)
  with x show ?thesis by (simp add: sound_evidence_def)
qed

lemma record_verification_rows:
  assumes r: "record_verification_result fl now b m q = Inr (i, m')"
  shows "m' = m \<or> (\<exists>v q' details. check_verification b q = Inr (q', details) \<and> row_of_request fl b q v
     \<and> mm_evidence m' = mm_evidence m \<and> mm_verifications m' = mm_verifications m @ [v]
     \<and> mm_verification_links m' = mm_verification_links m @
         map (\<lambda>e. \<lparr>vl_verification_id = i, vl_evidence_id = e, vl_created_at = now\<rparr>) (vq_evidence_ids q')
     \<and> (\<forall>e \<in> set (vq_evidence_ids q'). sound_evidence m e))"
proof -
  obtain q' details items a where c: "check_verification b q = Inr (q', details)" "cited m (vq_evidence_ids q') = Inr items"
    "require_truth_rows MemoryValidationError column_text
       ''R18: untrusted material cannot support verification outcomes'' (map evidence_row items) = Inr a"
    and z: "(case find_causal m q' of
       Some v \<Rightarrow> if same_verification m q' (json_text fl (PDict details)) v then Inr (vr_id v, m)
         else Inl (MemoryValidationError ''verification causal identity already has a different payload'' [])
     | None \<Rightarrow> insert_verification now b m q' (json_text fl (PDict details))) = Inr (i, m')"
    using r unfolding record_verification_result_def Let_def by (auto split: if_split_asm)
  show ?thesis
  proof (cases "find_causal m q'")
    case (Some v)
    with z show ?thesis by (auto split: if_splits)
  next
    case None
    with z obtain m1 where n: "next_id m ''verification'' = Inr (i, m1)"
      and m': "mm_evidence m' = mm_evidence m1 \<and> mm_verifications m' = mm_verifications m1 @ [verification_of now i q' (json_text fl (PDict details))]
        \<and> mm_verification_links m' = mm_verification_links m1 @
         map (\<lambda>e. \<lparr>vl_verification_id = i, vl_evidence_id = e, vl_created_at = now\<rparr>) (vq_evidence_ids q')"
      by (auto simp: insert_verification_def Let_def split: if_split_asm)
    obtain s where "m1 = m\<lparr>mm_sequences := s\<rparr>" using next_id_frame [OF n] by blast
    moreover have "row_of_request fl b q (verification_of now i q' (json_text fl (PDict details)))"
      using c(1) by (auto simp: row_of_request_def verification_of_def)
    ultimately show ?thesis using c(1) m' cited_sound [OF c(2,3)] by auto
  qed
qed

lemma sound_evidence_mono: "sound_evidence m e \<Longrightarrow> same_ledger m m' \<Longrightarrow> sound_evidence m' e"
  by (auto simp: sound_evidence_def same_ledger_def)

lemma ledger_rows_more: "ledger_rows fl ops m \<Longrightarrow> ledger_rows fl (ops @ [op]) m"
  unfolding ledger_rows_def by (simp add: subset_iff) blast

lemma run_ledger: "ledger_rows fl ops (run_memory fs allowed fl ops)"
proof (induction ops rule: rev_induct)
  case Nil
  show ?case by (simp add: ledger_rows_def run_memory_def) (simp add: empty_memory_def)
next
  case (snoc op ops)
  let ?m = "run_memory fs allowed fl ops"
  obtain now o' where op: "op = (now, o')" by (cases op)
  have recorded: "ledger_rows fl (ops @ [op]) (after_id ?m (record_verification_result fl now b ?m q))"
    if "o' = (if b then RuntimeVerification q else RecordVerification q)" for b q
  proof (cases "record_verification_result fl now b ?m q")
    case (Inl e)
    with ledger_rows_more [OF snoc] show ?thesis by (simp add: after_id_def)
  next
    case (Inr z)
    obtain i m' where z: "z = (i, m')" by (cases z)
    from record_verification_rows [OF Inr [unfolded z]] show ?thesis
    proof (elim disjE exE conjE)
      assume "m' = ?m"
      with ledger_rows_more [OF snoc] Inr z show ?thesis by (simp add: after_id_def)
    next
      fix v q' details
      assume v: "row_of_request fl b q v" "mm_verifications m' = mm_verifications ?m @ [v]" "mm_evidence m' = mm_evidence ?m"
        "mm_verification_links m' = mm_verification_links ?m @
         map (\<lambda>e. \<lparr>vl_verification_id = i, vl_evidence_id = e, vl_created_at = now\<rparr>) (vq_evidence_ids q')"
        "\<forall>e \<in> set (vq_evidence_ids q'). sound_evidence ?m e"
      have s: "sound_evidence m' = sound_evidence ?m" using v(3) by (simp add: sound_evidence_def find_evidence_def fun_eq_iff)
      have "ledger_rows fl (ops @ [op]) m'"
        using ledger_rows_more [OF snoc, of op] v(1,5) that unfolding ledger_rows_def v(2,4) s op
        by (cases b) auto
      with Inr z show ?thesis by (simp add: after_id_def)
    qed
  qed
  show ?case
  proof (cases "(\<forall>q. o' \<noteq> RecordVerification q) \<and> (\<forall>q. o' \<noteq> RuntimeVerification q)")
    case True
    then have l: "same_ledger ?m (memory_step fs allowed fl ?m op)" using ledger_step op by simp
    with ledger_rows_more [OF snoc, of op] sound_evidence_mono [OF _ l] show ?thesis
      by (simp add: ledger_rows_def same_ledger_def)
  next
    case False
    with recorded [of False] recorded [of True] op show ?thesis by auto
  qed
qed

text \<open>The details a caller passes are a JSON object without floats.\<close>

fun details_ok :: "memory_op \<Rightarrow> bool" where
  "details_ok (RecordVerification q) = json_ok (PDict (request_details q))"
| "details_ok (RuntimeVerification q) = json_ok (PDict (request_details q))"
| "details_ok _ = True"

definition row_attestation :: "string \<Rightarrow> verification_row \<Rightarrow> pyval" where
  "row_attestation kind v = PDict (attestation_for kind (PStr (vr_task_id v)) (PStr (vr_check_id v)) (PStr (vr_policy v))
     (opt_text (vr_provider v)) (PStr (vr_provider_thread_id v)) (PStr (vr_provider_turn_id v)))"

lemma required_Inr: "required v name n = Inr t \<Longrightarrow> t = strip v"
  by (auto simp: required_def split: if_splits)

lemma check_verification_Inr:
  assumes "check_verification b q = Inr (q', details)"
  shows "vq_task_id q' = strip (vq_task_id q) \<and> vq_check_id q' = strip (vq_check_id q) \<and> vq_policy q' = vq_policy q
     \<and> vq_verdict q' = upper (strip (vq_verdict q)) \<and> vq_provider_thread_id q' = strip (vq_provider_thread_id q)
     \<and> vq_provider_turn_id q' = strip (vq_provider_turn_id q)
     \<and> RUNTIME_ATTESTATION_KEY \<notin> set (keys (request_details q))
     \<and> (if b then \<exists>kind. authority_kind (vq_policy q) = Some kind
          \<and> details = request_details q @ [(RUNTIME_ATTESTATION_KEY, PDict (attestation_for kind (PStr (vq_task_id q'))
              (PStr (vq_check_id q')) (PStr (vq_policy q')) (opt_text (vq_provider q')) (PStr (vq_provider_thread_id q'))
              (PStr (vq_provider_turn_id q'))))]
        else details = request_details q)"
proof -
  obtain task check verdict summary actor thread turn provider where
    r: "required (vq_task_id q) ''task_id'' 128 = Inr task" "required (vq_check_id q) ''check_id'' 128 = Inr check"
      "required (vq_verdict q) ''verdict'' 16 = Inr verdict"
      "required (vq_provider_thread_id q) ''provider_thread_id'' 256 = Inr thread"
      "required (vq_provider_turn_id q) ''provider_turn_id'' 256 = Inr turn"
    and t: "attest b (q\<lparr>vq_task_id := task, vq_check_id := check, vq_verdict := upper verdict, vq_summary := summary,
       vq_evidence_ids := map strip (vq_evidence_ids q), vq_created_by := actor, vq_provider_thread_id := thread,
       vq_provider_turn_id := turn, vq_provider := provider\<rparr>) = Inr (q', details)"
    using assms unfolding check_verification_def by (auto split: if_split_asm)
  show ?thesis
    using t r [THEN required_Inr] unfolding attest_def request_details_def
    by (auto split: if_split_asm option.split_asm)
qed

lemma attestation_json_ok: "json_ok (PDict (attestation_for kind (PStr a) (PStr b) (PStr c) (opt_text p) (PStr t) (PStr u)))"
  by (simp add: attestation_for_def opt_text_def split: option.split)

lemma attested_row:
  assumes rows: "ledger_rows fl ops m" and ok: "\<forall>op \<in> set ops. details_ok (snd op)"
    and v: "v \<in> set (mm_verifications m)"
    and d: "json_loads (vr_details_json v) = Some (PDict d)" and a: "map_of d RUNTIME_ATTESTATION_KEY = Some a"
  shows "\<exists>now q kind. (now, RuntimeVerification q) \<in> set ops \<and> authority_kind (vr_policy v) = Some kind
     \<and> a = canon (row_attestation kind v) \<and> vr_task_id v = strip (vq_task_id q) \<and> vr_check_id v = strip (vq_check_id q)
     \<and> vr_policy v = vq_policy q \<and> vr_verdict v = upper (strip (vq_verdict q))
     \<and> vr_provider_thread_id v = strip (vq_provider_thread_id q) \<and> vr_provider_turn_id v = strip (vq_provider_turn_id q)
     \<and> json_ok (PDict (request_details q)) \<and> RUNTIME_ATTESTATION_KEY \<notin> set (keys (request_details q))
     \<and> canon (PDict (request_details q @ [(RUNTIME_ATTESTATION_KEY, row_attestation kind v)])) = PDict d"
proof -
  obtain now q b where op: "(now, if b then RuntimeVerification q else RecordVerification q) \<in> set ops"
    and r: "row_of_request fl b q v"
    using rows v unfolding ledger_rows_def by (metis (full_types))
  obtain q' details where c: "check_verification b q = Inr (q', details)"
    and j: "vr_details_json v = json_text fl (PDict details)"
    and row: "vr_task_id v = vq_task_id q'" "vr_check_id v = vq_check_id q'" "vr_policy v = vq_policy q'"
      "vr_verdict v = vq_verdict q'" "vr_provider v = vq_provider q'"
      "vr_provider_thread_id v = vq_provider_thread_id q'" "vr_provider_turn_id v = vq_provider_turn_id q'"
    using r unfolding row_of_request_def by blast
  note cv = check_verification_Inr [OF c]
  have rd: "json_ok (PDict (request_details q))" using op ok by (cases b) (auto simp del: json_ok.simps)
  have dok: "json_ok (PDict details)"
    using cv rd attestation_json_ok by (cases b) (auto split: if_splits)
  have canon: "canon (PDict details) = PDict d"
    using d json_round_trip [OF dok, of fl] j by simp
  have look: "map_of d RUNTIME_ATTESTATION_KEY = map_option canon (map_of details RUNTIME_ATTESTATION_KEY)"
    using look_PDict [of details RUNTIME_ATTESTATION_KEY] dok canon by (simp add: look_def del: canon.simps)
  have b: "b"
  proof (rule ccontr)
    assume "\<not> b"
    with cv have "map_of details RUNTIME_ATTESTATION_KEY = None" by (simp add: map_of_eq_None_keys)
    with look a show False by simp
  qed
  obtain kind where kind: "authority_kind (vr_policy v) = Some kind"
    "details = request_details q @ [(RUNTIME_ATTESTATION_KEY, row_attestation kind v)]"
    using cv b row by (auto simp: row_attestation_def)
  have "map_of (request_details q) RUNTIME_ATTESTATION_KEY = None" using cv by (simp add: map_of_eq_None_keys)
  then have "a = canon (row_attestation kind v)"
    using look a kind(2) by (simp add: map_add_def)
  with op b kind cv row rd canon show ?thesis by (auto simp del: canon.simps)
qed

text \<open>
  C37. A runtime attestation is written by the runtime: a stored verification result whose details
  carry the reserved key was recorded by a runtime operation for exactly this task, check, policy, thread
  and turn, with this verdict, and its attestation names them; and every evidence it cites is
  deterministic tool output or verified human judgment.
\<close>

theorem attestation_by_runtime:
  assumes "v \<in> set (mm_verifications (run_memory fs allowed fl ops))" "\<forall>op \<in> set ops. details_ok (snd op)"
    and "json_loads (vr_details_json v) = Some (PDict d)" "map_of d RUNTIME_ATTESTATION_KEY = Some a"
  shows "(\<exists>now q kind. (now, RuntimeVerification q) \<in> set ops \<and> authority_kind (vr_policy v) = Some kind
       \<and> a = canon (row_attestation kind v) \<and> vr_task_id v = strip (vq_task_id q) \<and> vr_check_id v = strip (vq_check_id q)
       \<and> vr_policy v = vq_policy q \<and> vr_verdict v = upper (strip (vq_verdict q))
       \<and> vr_provider_thread_id v = strip (vq_provider_thread_id q) \<and> vr_provider_turn_id v = strip (vq_provider_turn_id q))
     \<and> (\<forall>l \<in> set (mm_verification_links (run_memory fs allowed fl ops)). vl_verification_id l = vr_id v \<longrightarrow>
          (\<exists>e. find_evidence (run_memory fs allowed fl ops) (vl_evidence_id l) = Some e
             \<and> (ev_provenance e = ''deterministic_tool_output'' \<or> ev_provenance e = ''human_verified'')))"
proof -
  have "\<forall>l \<in> set (mm_verification_links (run_memory fs allowed fl ops)). sound_evidence (run_memory fs allowed fl ops) (vl_evidence_id l)"
    using run_ledger unfolding ledger_rows_def by blast
  then have "\<forall>l \<in> set (mm_verification_links (run_memory fs allowed fl ops)).
      \<exists>e. find_evidence (run_memory fs allowed fl ops) (vl_evidence_id l) = Some e
        \<and> (ev_provenance e = ''deterministic_tool_output'' \<or> ev_provenance e = ''human_verified'')"
    unfolding sound_evidence_def using below_truth_provenance by blast
  with attested_row [OF run_ledger assms(2,1,3,4)] show ?thesis by blast
qed

definition sample_verification :: verification_request where
  "sample_verification = \<lparr>vq_task_id = ''M01'', vq_check_id = ''final'', vq_policy = ''independent'', vq_verdict = ''pass'',
     vq_summary = ''done'', vq_evidence_ids = [''EVID-001''], vq_created_by = ''runtime'', vq_provider_thread_id = ''th'',
     vq_provider_turn_id = ''tu'', vq_details = None, vq_provider = None\<rparr>"

definition attested_ops :: "memory_op list" where
  "attested_ops = [RecordEvidence (plain_evidence ''test''), RuntimeVerification sample_verification]"

theorem attestation_by_runtime_witness:
  "\<exists>v. v \<in> set (mm_verifications (run_sample attested_ops)) \<and> vr_verdict v = ''PASS''
     \<and> vr_task_id v = strip (vq_task_id sample_verification)"
proof -
  have "case mm_verifications (run_sample attested_ops) of [v] \<Rightarrow> vr_verdict v = ''PASS''
      \<and> (case json_loads (vr_details_json v) of Some (PDict d) \<Rightarrow> map_of d RUNTIME_ATTESTATION_KEY \<noteq> None | _ \<Rightarrow> False)
    | _ \<Rightarrow> False"
    by code_simp
  then obtain v d a where v: "mm_verifications (run_sample attested_ops) = [v]" "vr_verdict v = ''PASS''"
    "json_loads (vr_details_json v) = Some (PDict d)" "map_of d RUNTIME_ATTESTATION_KEY = Some a"
    by (auto split: list.splits option.splits pyval.splits)
  have ok: "\<forall>op \<in> set (map (\<lambda>o'. (''t'', o')) attested_ops). details_ok (snd op)"
    by (simp add: attested_ops_def request_details_def sample_verification_def)
  have "vr_task_id v = strip (vq_task_id sample_verification)"
    using attestation_by_runtime [of v no_files any_role "\<lambda>_. []" "map (\<lambda>o'. (''t'', o')) attested_ops" d a] ok v
    unfolding run_sample_def by (auto simp: attested_ops_def)
  with v show ?thesis by auto
qed

section \<open>Two disputes over one fact\<close>

text \<open>
  A second dispute opens over a fact that is already disputed and remembers that status. Resolved
  in the order they were opened, both rejected, the disputes leave the fact disputed with
  nothing left to resolve; a third dispute remembers \<^verbatim>\<open>disputed\<close> too, so rejecting it changes nothing.
\<close>

definition two_disputes :: "memory_op list" where
  "two_disputes = [RecordEvidence (plain_evidence ''test''),
     VerifiedFact ''the build passes'' [''EVID-001''] ''ran it'' ''worker'' ''project'' [] None None,
     OpenConflict ''FACT-001'' ''slow'' ''worker'' None None, OpenConflict ''FACT-001'' ''flaky'' ''worker'' None None,
     ResolveConflict ''CONFLICT-001'' ''reject_incoming'' ''no'' ''lead'',
     ResolveConflict ''CONFLICT-002'' ''reverified_existing'' ''no'' ''lead'']"

lemma two_disputes_leave_disputed:
  "map mr_status (mm_records (run_sample two_disputes)) = [''disputed'']
   \<and> map cf_status (mm_conflicts (run_sample two_disputes)) = [''resolved'', ''resolved'']"
  by code_simp

lemma third_dispute_changes_nothing:
  "map mr_status (mm_records (run_sample (two_disputes @ [OpenConflict ''FACT-001'' ''x'' ''worker'' None None,
     ResolveConflict ''CONFLICT-003'' ''reverified_existing'' ''no'' ''lead'']))) = [''disputed'']"
  by code_simp

end
