(* ===== verification/SkillTrust.thy ===== *)
theory SkillTrust
  imports SkillPacks MemoryRuns
begin

text \<open>
  The resolver of \<^verbatim>\<open>skill_packs.py\<close>: which packs of the catalog a task may load. A stack is
  accepted only when every pack is trusted, no two overlap or conflict, and Project Memory holds
  the attested records that bind each claim of the pack to the digest of its exact revision. The evidence store is
  the memory of \<^verbatim>\<open>MemoryStore\<close>, or nothing when the database file is missing.
\<close>

section \<open>The revision of a pack\<close>

definition revision_payload :: "skill_pack \<Rightarrow> pyval dict" where
  "revision_payload p = [(''id'', PStr (sk_id p)), (''version'', PStr (sk_version p)),
     (''capability'', PStr (sk_capability p)), (''source'', PStr (sk_source p)),
     (''procedures'', PStrs (sk_procedures p)), (''checklists'', PStrs (sk_checklists p)),
     (''failure_modes'', PStrs (sk_failure_modes p)), (''quality_criteria'', PStrs (sk_quality_criteria p)),
     (''required_tools'', PStrs (sk_required_tools p)), (''required_mcp_servers'', PStrs (sk_required_mcp_servers p)),
     (''deterministic_checks'', PList (map skill_check_to_dict (sk_deterministic_checks p))),
     (''evidence_roles'', PStrs (sk_evidence_roles p)),
     (''conflicts_with'', PList (map skill_reference_to_dict (sk_conflicts_with p)))]
     @ some_list ''external_sources'' (map external_source_to_dict (sk_external_sources p))"

definition revision_sha256 :: "(rat \<Rightarrow> string) \<Rightarrow> (string \<Rightarrow> string) \<Rightarrow> skill_pack \<Rightarrow> string" where
  "revision_sha256 fl sha p = sha (json_text fl (PDict (revision_payload p)))"

definition is_externally_sourced :: "skill_pack \<Rightarrow> bool" where
  "is_externally_sourced p \<longleftrightarrow> sk_external_sources p \<noteq> []"

definition behavioral_signature :: "skill_pack \<Rightarrow> string list \<times> string list \<times> string list \<times> string list" where
  "behavioral_signature p = (sk_procedures p, sk_checklists p, sk_failure_modes p, sk_quality_criteria p)"

definition to_prompt_dict :: "(rat \<Rightarrow> string) \<Rightarrow> (string \<Rightarrow> string) \<Rightarrow> skill_pack \<Rightarrow> pyval dict" where
  "to_prompt_dict fl sha p = [(''id'', PStr (sk_id p)), (''version'', PStr (sk_version p)),
     (''capability'', PStr (sk_capability p)),
     (''provenance'', PDict ([(''source'', PStr (sk_source p)), (''status'', PStr (sk_status p)),
        (''revision_sha256'', PStr (revision_sha256 fl sha p)),
        (''promotion_evidence_ids'', PStrs (map pe_id (sk_promotion_evidence p))),
        (''source_verification_ids'', PStrs (sk_source_verification_ids p)),
        (''qualification_verification_ids'', PStrs (sk_qualification_verification_ids p))]
        @ some_list ''external_sources'' (map external_source_to_dict (sk_external_sources p)))),
     (''procedures'', PStrs (sk_procedures p)), (''checklists'', PStrs (sk_checklists p)),
     (''failure_modes'', PStrs (sk_failure_modes p)), (''quality_criteria'', PStrs (sk_quality_criteria p)),
     (''required_tools'', PStrs (sk_required_tools p)), (''required_mcp_servers'', PStrs (sk_required_mcp_servers p)),
     (''deterministic_checks'', PList (map skill_check_to_dict (sk_deterministic_checks p))),
     (''evidence_roles'', PStrs (sk_evidence_roles p))]"

section \<open>Records of the evidence store\<close>

type_synonym evidence_store = "memory option"

text \<open>\<^verbatim>\<open>_memory_record\<close>: an unknown id is no record, every other failure is one.\<close>

definition memory_verification :: "evidence_store \<Rightarrow> string \<Rightarrow> pyval dict option result" where
  "memory_verification store i = (case store of None \<Rightarrow> Inr None
     | Some m \<Rightarrow> if find_verification m i = None then Inr None
         else bindE (get_verification_result m i) (\<lambda>r. Inr (Some r)))"

definition memory_evidence :: "evidence_store \<Rightarrow> string \<Rightarrow> pyval dict option result" where
  "memory_evidence store i = (case store of None \<Rightarrow> Inr None
     | Some m \<Rightarrow> if find_evidence m i = None then Inr None
         else bindE (get_evidence m i) (\<lambda>r. Inr (Some r)))"

definition require_record :: "pyval dict option result \<Rightarrow> string \<Rightarrow> string \<Rightarrow> pyval dict result" where
  "require_record found label i = bindE found (\<lambda>r. case r of
     None \<Rightarrow> Inl (SkillPackError ''references an unknown Project Memory record'' [label, i]) | Some d \<Rightarrow> Inr d)"

definition record_array :: "pyval \<Rightarrow> string \<Rightarrow> pyval dict list result" where
  "record_array v label = (case v of
     PList xs \<Rightarrow> mapE (\<lambda>x. case x of PDict d \<Rightarrow> Inr d
       | _ \<Rightarrow> Inl (SkillPackError ''must be an array of Project Memory records'' [label])) xs
   | _ \<Rightarrow> Inl (SkillPackError ''must be an array of Project Memory records'' [label]))"

definition record_mapping :: "pyval \<Rightarrow> string \<Rightarrow> pyval dict result" where
  "record_mapping v label = (case v of PDict d \<Rightarrow> Inr d
     | _ \<Rightarrow> Inl (SkillPackError ''must be a Project Memory object'' [label]))"

definition equals_dict :: "pyval \<Rightarrow> pyval dict \<Rightarrow> bool" where
  "equals_dict v d \<longleftrightarrow> (case v of PDict e \<Rightarrow> py_eq (PDict e) (PDict d) | _ \<Rightarrow> False)"

definition require_deterministic_trust :: "(pyval \<Rightarrow> string) \<Rightarrow> pyval dict \<Rightarrow> string \<Rightarrow> unit result" where
  "require_deterministic_trust rp row label = (case from_storage rp row of
     Inl _ \<Rightarrow> Inl (SkillPackError ''R18: evidence is missing a valid provenance/trust classification'' [])
   | Inr t \<Rightarrow> if level_meets (et_level t) TRUTH_THRESHOLD then Inr ()
       else Inl (SkillPackError ''is below deterministic trust''
         [label, provenance_value (et_provenance t), level_value (et_level t)]))"

definition require_runtime_attestation :: "pyval dict \<Rightarrow> string \<Rightarrow> string \<Rightarrow> unit result" where
  "require_runtime_attestation row label kind =
     bindE (record_mapping (get row ''details'') label) (\<lambda>details.
     if equals_dict (get details RUNTIME_ATTESTATION_KEY) (attestation_for kind (get row ''task_id'')
       (get row ''check_id'') (get row ''policy'') (get row ''provider'') (get row ''provider_thread_id'')
       (get row ''provider_turn_id''))
     then Inr () else Inl (SkillPackError ''is not runtime-attested by the observed'' [label, kind]))"

definition revision_binding :: "string \<Rightarrow> skill_pack \<Rightarrow> pyval dict" where
  "revision_binding digest p = [(''id'', PStr (sk_id p)), (''version'', PStr (sk_version p)), (''sha256'', PStr digest)]"

definition require_revision_binding :: "string \<Rightarrow> pyval dict \<Rightarrow> skill_pack \<Rightarrow> string \<Rightarrow> unit result" where
  "require_revision_binding digest row p label =
     bindE (record_mapping (get row ''details'') label) (\<lambda>details.
     if equals_dict (get details ''skill_pack_revision'') (revision_binding digest p) then Inr ()
     else Inl (SkillPackError ''must bind id, version, and sha256 for the exact skill revision'' [label]))"

text \<open>The task id of an attestation, \<^verbatim>\<open>SKILL-<KIND>:<id>@<version>:<digest>\<close>.\<close>

definition special_task_id :: "string \<Rightarrow> string \<Rightarrow> skill_pack \<Rightarrow> string" where
  "special_task_id digest kind p = ''SKILL-'' @ kind @ '':'' @ sk_id p @ ''@'' @ sk_version p @ '':'' @ digest"

definition is_text :: "pyval dict \<Rightarrow> string \<Rightarrow> string \<Rightarrow> bool" where
  "is_text d k s \<longleftrightarrow> get d k = PStr s"

section \<open>Sources and promotions\<close>

text \<open>The checks of one source verification.\<close>

definition check_source_record ::
  "(pyval \<Rightarrow> string) \<Rightarrow> string \<Rightarrow> skill_pack \<Rightarrow> string \<Rightarrow> string \<Rightarrow> pyval dict \<Rightarrow> unit result"
where
  "check_source_record rp digest p label i row =
     (if str_of rp (get row ''id'') \<noteq> i then
        Inl (SkillPackError ''source verification lookup returned a different ID'' [label])
      else if \<not> (is_text row ''task_id'' (special_task_id digest ''SOURCE'' p) \<and> is_text row ''check_id'' ''skill-source''
          \<and> is_text row ''policy'' ''independent'' \<and> is_text row ''verdict'' ''PASS'') then
        Inl (SkillPackError ''is not an independent PASS for this exact revision'' [label, i])
      else
        bindE (require_runtime_attestation row label ''fresh_verifier'') (\<lambda>_.
        bindE (require_revision_binding digest row p label) (\<lambda>_.
        bindE (record_array (get row ''evidence'') label) (\<lambda>rows.
        if rows = [] then Inl (SkillPackError ''source verification has no evidence'' [label, i])
        else
        bindE (forE (\<lambda>r. require_deterministic_trust rp r label) rows) (\<lambda>_.
        bindE (record_mapping (get row ''details'') label) (\<lambda>details.
        if equals_dict (get details ''skill_source'') [(''source'', PStr (sk_source p)),
             (''skill_pack_sha256'', PStr digest),
             (''evidence_ids'', PList (map (\<lambda>r. PStr (str_of rp (get r ''id''))) rows))]
        then Inr ()
        else Inl (SkillPackError ''must bind source, revision sha256, and its exact evidence IDs'' [label, i])))))))"

definition validate_skill_source_attestation ::
  "(pyval \<Rightarrow> string) \<Rightarrow> (skill_pack \<Rightarrow> string) \<Rightarrow> skill_pack \<Rightarrow> evidence_store \<Rightarrow> unit result"
where
  "validate_skill_source_attestation rp digest p store =
     (let label = sk_id p @ ''@'' @ sk_version p in
      if sk_promotion_evidence p \<noteq> [] then Inl (SkillPackError ''cannot claim promotion_evidence'' [label, sk_source p])
      else if sk_source_verification_ids p = [] then
        Inl (SkillPackError ''has no authoritative source verification'' [label, sk_source p])
      else forE (\<lambda>i. bindE (require_record (memory_verification store i) label i)
             (check_source_record rp (digest p) p label i)) (sk_source_verification_ids p))"

definition expected_evidence_kinds :: "string \<Rightarrow> string list result" where
  "expected_evidence_kinds kind =
     (if kind = ''authoritative_documentation'' then Inr [''file'']
      else if kind = ''real_tool'' then Inr [''tool'']
      else if kind = ''deterministic_test'' then Inr [''test'', ''build'']
      else if kind = ''verified_work_outcome'' then Inr [''artifact'', ''build'', ''test'', ''tool'']
      else Inl (KeyError kind))"

definition validate_qualifying_evidence ::
  "(pyval \<Rightarrow> string) \<Rightarrow> promotion_evidence \<Rightarrow> pyval dict \<Rightarrow> string \<Rightarrow> unit result"
where
  "validate_qualifying_evidence rp item row label =
     (if str_of rp (get row ''id'') \<noteq> pe_id item then
        Inl (SkillPackError ''evidence lookup returned a different ID'' [label])
      else bindE (expected_evidence_kinds (pe_kind item)) (\<lambda>kinds.
        let stored = str_of rp (py_or (get row ''kind'') (PStr [])) in
        if stored \<notin> set kinds then Inl (SkillPackError ''promotion evidence kind mismatch'' (label # pe_id item # stored # sort kinds))
        else if pe_kind item = ''deterministic_test'' \<and> \<not> py_eq (get row ''exit_code'') (PInt 0) then
          Inl (SkillPackError ''deterministic test evidence did not pass'' [label, pe_id item])
        else require_deterministic_trust rp row label))"

definition validate_independent_verification ::
  "(pyval \<Rightarrow> string) \<Rightarrow> string \<Rightarrow> pyval dict \<Rightarrow> string \<Rightarrow> string \<Rightarrow> skill_pack \<Rightarrow> unit result"
where
  "validate_independent_verification rp digest row i label p =
     (if str_of rp (get row ''id'') \<noteq> i then
        Inl (SkillPackError ''verification lookup returned a different ID'' [label])
      else if \<not> (is_text row ''policy'' ''independent'' \<and> is_text row ''verdict'' ''PASS'') then
        Inl (SkillPackError ''promotion verification must be an independent PASS'' [label, i])
      else if \<not> (is_text row ''task_id'' (special_task_id digest ''PROMOTION'' p)
          \<and> is_text row ''check_id'' ''skill-promotion'') then
        Inl (SkillPackError ''promotion verification is not for this exact revision'' [label, i])
      else
        bindE (require_runtime_attestation row label ''fresh_verifier'') (\<lambda>_.
        bindE (require_revision_binding digest row p label) (\<lambda>_.
        bindE (record_array (get row ''evidence'') label) (\<lambda>rows.
        if rows = [] then Inl (SkillPackError ''promotion verification has no evidence'' [label, i])
        else forE (\<lambda>r. require_deterministic_trust rp r label) rows))))"

definition promotion_evidence_bindings ::
  "(pyval \<Rightarrow> string) \<Rightarrow> string \<Rightarrow> pyval dict \<Rightarrow> string \<Rightarrow> string list result"
where
  "promotion_evidence_bindings rp digest row label =
     bindE (record_mapping (get row ''details'') label) (\<lambda>details.
     bindE (record_array (get details ''promotion_evidence'') label) (\<lambda>bindings.
     bindE (record_array (get row ''evidence'') label) (\<lambda>rows.
     let cited = map (\<lambda>r. str_of rp (get r ''id'')) rows in
     bindE (mapE (\<lambda>b. bindE (required_string (get b ''id'') label) (\<lambda>i.
        if \<not> py_eq (PDict b) (PDict [(''id'', PStr i), (''skill_pack_sha256'', PStr digest)]) then
          Inl (SkillPackError ''promotion evidence is not bound to exact revision'' [label, i, digest])
        else if i \<notin> set cited then
          Inl (SkillPackError ''promotion evidence binding is not cited by the same independent PASS'' [label, i])
        else Inr i)) bindings) (\<lambda>ids.
     bindE (unique_of ids label) (\<lambda>_. Inr ids)))))"

text \<open>The verifications and the qualifying evidence of a promotion, in order.\<close>

fun promotion_records ::
  "(pyval \<Rightarrow> string) \<Rightarrow> string \<Rightarrow> skill_pack \<Rightarrow> string \<Rightarrow> evidence_store \<Rightarrow> promotion_evidence list
    \<Rightarrow> (pyval dict list \<times> promotion_evidence list) result"
where
  "promotion_records rp digest p label store [] = Inr ([], [])"
| "promotion_records rp digest p label store (item # items) =
     (if pe_kind item = ''independent_verification'' then
        bindE (require_record (memory_verification store (pe_id item)) label (pe_id item)) (\<lambda>row.
        bindE (validate_independent_verification rp digest row (pe_id item) label p) (\<lambda>_.
        bindE (promotion_records rp digest p label store items) (\<lambda>(vs, qs). Inr (row # vs, qs))))
      else
        bindE (require_record (memory_evidence store (pe_id item)) label (pe_id item)) (\<lambda>row.
        bindE (validate_qualifying_evidence rp item row label) (\<lambda>_.
        bindE (promotion_records rp digest p label store items) (\<lambda>(vs, qs). Inr (vs, item # qs)))))"

definition validate_promotion ::
  "(pyval \<Rightarrow> string) \<Rightarrow> (skill_pack \<Rightarrow> string) \<Rightarrow> skill_pack \<Rightarrow> evidence_store \<Rightarrow> unit result"
where
  "validate_promotion rp digest p store =
     (let label = sk_id p @ ''@'' @ sk_version p in
      bindE (promotion_records rp (digest p) p label store (sk_promotion_evidence p)) (\<lambda>(verifications, qualifiers).
      bindE (mapE (\<lambda>v. record_array (get v ''evidence'') label) verifications) (\<lambda>evidence.
      let cited = map (\<lambda>r. str_of rp (get r ''id'')) (concat evidence);
          uncited = filter (\<lambda>i. i \<notin> set cited) (map pe_id qualifiers)
      in if uncited \<noteq> [] then
           Inl (SkillPackError ''promotion evidence is not cited by its independent PASS'' (label # uncited))
         else bindE (mapE (\<lambda>v. promotion_evidence_bindings rp (digest p) v label) verifications) (\<lambda>bound.
           let unbound = filter (\<lambda>i. i \<notin> set (concat bound)) (map pe_id qualifiers) in
           if unbound \<noteq> [] then Inl (SkillPackError ''promotion evidence is not bound to revision'' (label # unbound))
           else Inr ()))))"

text \<open>\<^verbatim>\<open>validate_trusted_skill_promotions\<close>; \<open>None\<close> is no store at all.\<close>

definition validate_trusted_skill_promotions ::
  "(pyval \<Rightarrow> string) \<Rightarrow> (skill_pack \<Rightarrow> string) \<Rightarrow> skill_pack list \<Rightarrow> evidence_store option \<Rightarrow> unit result"
where
  "validate_trusted_skill_promotions rp digest packs store =
     (let sourced = filter (\<lambda>p. sk_status p = ''trusted'' \<and> sk_source p \<in> set SOURCE_ATTESTATION_REQUIRED) packs;
          promoted = filter (\<lambda>p. sk_status p = ''trusted'' \<and> sk_source p \<in> {''synthesized'', ''learned''}) packs
      in if sourced = [] \<and> promoted = [] then Inr ()
         else (case store of
           None \<Rightarrow> Inl (SkillPackError ''trusted skill provenance requires Project Memory validation''
             (map (\<lambda>p. sk_id p @ ''@'' @ sk_version p) (sourced @ promoted)))
         | Some s \<Rightarrow> bindE (forE (\<lambda>p. validate_skill_source_attestation rp digest p s) sourced) (\<lambda>_.
             forE (\<lambda>p. validate_promotion rp digest p s) promoted)))"

section \<open>Qualification\<close>

text \<open>\<^verbatim>\<open>shlex.join\<close>: an argument with an unsafe character is put in single quotes.\<close>

definition shell_safe :: "char \<Rightarrow> bool" where
  "shell_safe c \<longleftrightarrow> is_letter c \<or> is_digit c \<or> c \<in> set ''_@%+=:,./-''"

definition shell_quote :: "string \<Rightarrow> string" where
  "shell_quote s = (if s = [] then [CHR 0x27, CHR 0x27]
     else if \<forall>c \<in> set s. shell_safe c then s
     else CHR 0x27 # concat (map (\<lambda>c. if c = CHR 0x27 then [CHR 0x27, CHR 0x22, CHR 0x27, CHR 0x22, CHR 0x27] else [c]) s)
       @ [CHR 0x27])"

definition shell_join :: "string list \<Rightarrow> string" where
  "shell_join argv = join '' '' (map shell_quote argv)"

definition expected_result :: "skill_check \<Rightarrow> string \<Rightarrow> pyval dict" where
  "expected_result c evidence_id = [(''id'', PStr (sc_id c)), (''argv'', PStrs (sc_argv c)),
     (''expected_exit_code'', PInt (sc_expected_exit_code c)), (''exit_code'', PInt (sc_expected_exit_code c)),
     (''evidence_id'', PStr evidence_id)]"

text \<open>One reported check: the new set of admitted checks.\<close>

definition check_result ::
  "(pyval \<Rightarrow> string) \<Rightarrow> skill_pack \<Rightarrow> string \<Rightarrow> pyval dict dict \<Rightarrow> string list \<Rightarrow> pyval dict \<Rightarrow> string list result"
where
  "check_result rp p label rows admitted result =
     (let check_id = str_of rp (py_or (get result ''id'') (PStr [])) in
      case map_of (dict_of (map (\<lambda>c. (sc_id c, c)) (sk_deterministic_checks p))) check_id of
        None \<Rightarrow> Inl (SkillPackError ''qualification reports unknown check'' [label, check_id])
      | Some check \<Rightarrow>
        if check_id \<in> set admitted then Inl (SkillPackError ''qualification duplicates check'' [label, check_id])
        else
          let evidence_id = str_of rp (py_or (get result ''evidence_id'') (PStr [])) in
          case map_of rows evidence_id of
            None \<Rightarrow> Inl (SkillPackError ''qualification check references uncited evidence'' [label, check_id, evidence_id])
          | Some row \<Rightarrow>
            if \<not> py_eq (PDict result) (PDict (expected_result check evidence_id)) then
              Inl (SkillPackError ''qualification check does not match its declared argv and expected exit code'' [label, check_id])
            else bindE (in_text_set (get row ''kind'') [''test'', ''build'']) (\<lambda>k.
              if \<not> k \<or> \<not> py_eq (get row ''exit_code'') (PInt (sc_expected_exit_code check))
                 \<or> \<not> is_text row ''command'' (shell_join (sc_argv check))
              then Inl (SkillPackError ''qualification check has no passing deterministic test evidence'' [label, check_id])
              else Inr (admitted @ [check_id])))"

fun check_results ::
  "(pyval \<Rightarrow> string) \<Rightarrow> skill_pack \<Rightarrow> string \<Rightarrow> pyval dict dict \<Rightarrow> string list \<Rightarrow> pyval dict list \<Rightarrow> string list result"
where
  "check_results rp p label rows admitted [] = Inr admitted"
| "check_results rp p label rows admitted (r # rs) =
     bindE (check_result rp p label rows admitted r) (\<lambda>a. check_results rp p label rows a rs)"

definition check_qualification ::
  "(pyval \<Rightarrow> string) \<Rightarrow> string \<Rightarrow> skill_pack \<Rightarrow> string \<Rightarrow> string \<Rightarrow> pyval dict \<Rightarrow> string list \<Rightarrow> string list result"
where
  "check_qualification rp digest p label i row admitted =
     (if str_of rp (get row ''id'') \<noteq> i then
        Inl (SkillPackError ''qualification lookup returned a different ID'' [label])
      else bindE (if is_text row ''task_id'' (special_task_id digest ''QUALIFICATION'' p)
            \<and> is_text row ''check_id'' ''skill-qualification''
          then in_text_set (get row ''policy'') [''deterministic'', ''independent''] else Inr False) (\<lambda>policy.
      if \<not> policy \<or> \<not> is_text row ''verdict'' ''PASS'' then
        Inl (SkillPackError ''is not an authoritative PASS for this exact revision'' [label, i])
      else
        bindE (require_runtime_attestation row label
          (if is_text row ''policy'' ''deterministic'' then ''deterministic_runner'' else ''fresh_verifier'')) (\<lambda>_.
        bindE (require_revision_binding digest row p label) (\<lambda>_.
        bindE (record_array (get row ''evidence'') label) (\<lambda>rows.
        let by_id = dict_of (map (\<lambda>r. (str_of rp (get r ''id''), r)) rows) in
        bindE (forE (\<lambda>r. require_deterministic_trust rp r label) rows) (\<lambda>_.
        bindE (record_mapping (get row ''details'') label) (\<lambda>details.
        bindE (record_array (get details ''skill_checks'') label) (\<lambda>results.
        check_results rp p label by_id admitted results))))))))"

fun check_qualifications ::
  "(pyval \<Rightarrow> string) \<Rightarrow> string \<Rightarrow> skill_pack \<Rightarrow> string \<Rightarrow> evidence_store \<Rightarrow> string list \<Rightarrow> string list \<Rightarrow> string list result"
where
  "check_qualifications rp digest p label store admitted [] = Inr admitted"
| "check_qualifications rp digest p label store admitted (i # ids) =
     bindE (require_record (memory_verification store i) label i) (\<lambda>row.
     bindE (check_qualification rp digest p label i row admitted) (\<lambda>a.
     check_qualifications rp digest p label store a ids))"

definition validate_skill_qualification ::
  "(pyval \<Rightarrow> string) \<Rightarrow> (skill_pack \<Rightarrow> string) \<Rightarrow> skill_pack \<Rightarrow> evidence_store option \<Rightarrow> unit result"
where
  "validate_skill_qualification rp digest p store =
     (let label = sk_id p @ ''@'' @ sk_version p in
      case store of
        None \<Rightarrow> Inl (SkillPackError ''qualification requires Project Memory validation before loading'' [label])
      | Some s \<Rightarrow>
        if sk_qualification_verification_ids p = [] then
          Inl (SkillPackError ''has no authoritative qualification PASS before loading'' [label])
        else bindE (check_qualifications rp (digest p) p label s [] (sk_qualification_verification_ids p)) (\<lambda>admitted.
          let missing = filter (\<lambda>c. c \<notin> set admitted) (sorted_set (map sc_id (sk_deterministic_checks p))) in
          if missing \<noteq> [] then Inl (SkillPackError ''qualification has no authoritative PASS for checks'' (label # missing))
          else Inr ()))"

section \<open>The resolver\<close>

fun reject_stack_duplicates :: "skill_pack list \<Rightarrow> skill_pack list \<Rightarrow> unit result" where
  "reject_stack_duplicates seen [] = Inr ()"
| "reject_stack_duplicates seen (p # ps) =
     (if \<exists>q \<in> set seen. sk_capability q = sk_capability p then
        Inl (SkillPackError ''loaded skill packs duplicate capability'' [sk_capability p, sk_id p, sk_version p])
      else if \<exists>q \<in> set seen. behavioral_signature q = behavioral_signature p then
        Inl (SkillPackError ''loaded skill packs duplicate the same procedures and quality contract'' [sk_id p, sk_version p])
      else reject_stack_duplicates (seen @ [p]) ps)"

definition reject_stack_conflicts :: "skill_pack list \<Rightarrow> unit result" where
  "reject_stack_conflicts packs =
     forE (\<lambda>p. forE (\<lambda>c. if c \<in> set (map reference_of packs) then
         Inl (SkillPackError ''loaded skill packs conflict'' [sk_id p, sk_version p, sr_id c, sr_version c])
       else Inr ()) (sk_conflicts_with p)) packs"

definition resolve_reference :: "skill_pack list \<Rightarrow> skill_reference \<Rightarrow> skill_pack result" where
  "resolve_reference catalog r = (case find (\<lambda>p. reference_of p = r) catalog of
     None \<Rightarrow> Inl (SkillPackError ''is not present in the catalog'' [sr_id r, sr_version r])
   | Some p \<Rightarrow> if sk_status p \<noteq> ''trusted'' then
         Inl (SkillPackError ''is CANDIDATE and cannot be loaded as trusted'' [sk_id p, sk_version p])
       else Inr p)"

definition check_requirements :: "skill_reference list \<Rightarrow> skill_reference list option \<Rightarrow> unit result" where
  "check_requirements requested requirements = (case requirements of None \<Rightarrow> Inr ()
     | Some allowed \<Rightarrow> let missing = filter (\<lambda>r. r \<notin> set allowed) requested in
         if missing \<noteq> [] then Inl (SkillPackError ''loaded skills are not declared by the role''
           (map (\<lambda>r. sr_id r @ ''@'' @ sr_version r) missing))
         else Inr ())"

definition resolve_skill_stack ::
  "(pyval \<Rightarrow> string) \<Rightarrow> (skill_pack \<Rightarrow> string) \<Rightarrow> skill_pack list \<Rightarrow> skill_reference list
    \<Rightarrow> skill_reference list option \<Rightarrow> evidence_store option \<Rightarrow> bool \<Rightarrow> skill_pack list result"
where
  "resolve_skill_stack rp digest catalog requested requirements store qualified =
     (if \<not> distinct (map reference_of catalog) then
        Inl (SkillPackError ''skill catalog duplicates a version; resolution is ambiguous'' [])
      else
        bindE (unique_of (map sr_id requested) ''loaded skill id'') (\<lambda>_.
        bindE (unique_of requested ''loaded skill reference'') (\<lambda>_.
        bindE (check_requirements requested requirements) (\<lambda>_.
        bindE (mapE (resolve_reference catalog) requested) (\<lambda>resolved.
        bindE (reject_stack_duplicates [] resolved) (\<lambda>_.
        bindE (reject_stack_conflicts resolved) (\<lambda>_.
        if \<not> qualified then Inr resolved
        else
          bindE (case store of None \<Rightarrow> Inr () | Some s \<Rightarrow> validate_trusted_skill_promotions rp digest resolved store) (\<lambda>_.
          bindE (forE (\<lambda>p. validate_skill_qualification rp digest p store) resolved) (\<lambda>_. Inr resolved)))))))))"

section \<open>Plans\<close>

definition role_of :: "plan \<Rightarrow> task \<Rightarrow> role_profile result" where
  "role_of p t = (case role_map p (t_role t) of None \<Rightarrow> Inl (KeyError (t_role t)) | Some r \<Rightarrow> Inr r)"

text \<open>The catalog as a dictionary: a later duplicate is the one found.\<close>

definition catalog_pack :: "plan \<Rightarrow> skill_reference \<Rightarrow> skill_pack option" where
  "catalog_pack p r = map_of (rev (map (\<lambda>s. (reference_of s, s)) (pl_skill_packs p))) r"

definition check_task_checks :: "task \<Rightarrow> skill_pack \<Rightarrow> unit result" where
  "check_task_checks t s = forE (\<lambda>c.
     (case map_of (dict_of (map (\<lambda>v. (vc_id v, v)) (vp_deterministic_checks (t_verification t)))) (sc_id c) of
        None \<Rightarrow> Inl (SkillPackError ''qualification does not execute skill check'' [t_id t, sc_id c])
      | Some v \<Rightarrow> if vc_kind v \<noteq> ''command'' \<or> vc_argv v \<noteq> sc_argv c \<or> vc_expected_exit_code v \<noteq> sc_expected_exit_code c
          then Inl (SkillPackError ''qualification check must exactly match the Skill Pack'' [t_id t, sc_id c])
          else Inr ())) (sk_deterministic_checks s)"

definition check_task_attestation :: "plan \<Rightarrow> task \<Rightarrow> skill_attestation \<Rightarrow> unit result" where
  "check_task_attestation p t a = (case catalog_pack p (sa_skill a) of
     None \<Rightarrow> Inl (SkillPackError ''attests unknown skill'' [t_id t, sr_id (sa_skill a), sr_version (sa_skill a)])
   | Some s \<Rightarrow>
     if vp_policy (t_verification t) \<noteq> ''independent'' \<or> \<not> vp_required (t_verification t) then
       Inl (SkillPackError ''skill attestation requires independent verification'' [t_id t])
     else if sa_kind a = ''source'' then
       (if sk_source s \<notin> set SOURCE_ATTESTATION_REQUIRED then
          Inl (SkillPackError ''source attestation is invalid for skills of this source'' [t_id t, sk_source s])
        else Inr ())
     else if sa_kind a = ''promotion'' then
       (if sk_source s \<notin> {''synthesized'', ''learned''} then
          Inl (SkillPackError ''promotion attestation is invalid for skills of this source'' [t_id t, sk_source s])
        else if sk_source s = ''learned'' \<and> ''verified_work_outcome'' \<notin> set (map se_kind (sa_promotion_evidence a)) then
          Inl (SkillPackError ''learned skill promotion requires verified_work_outcome'' [t_id t])
        else Inr ())
     else check_task_checks t s)"

definition validate_plan_skill_attestations :: "plan \<Rightarrow> unit result" where
  "validate_plan_skill_attestations p = forE (\<lambda>t. case t_skill_attestation t of None \<Rightarrow> Inr ()
     | Some a \<Rightarrow> check_task_attestation p t a) (pl_tasks p)"

definition validate_plan_skill_bindings :: "(pyval \<Rightarrow> string) \<Rightarrow> (skill_pack \<Rightarrow> string) \<Rightarrow> plan \<Rightarrow> unit result" where
  "validate_plan_skill_bindings rp digest p =
     bindE (resolve_skill_stack rp digest (pl_skill_packs p) [] None None False) (\<lambda>_.
     bindE (forE (\<lambda>r. bindE (resolve_skill_stack rp digest (pl_skill_packs p) (ro_skill_requirements r) None None False)
       (\<lambda>_. Inr ())) (pl_roles p)) (\<lambda>_.
     bindE (forE (\<lambda>t. bindE (role_of p t) (\<lambda>r.
       bindE (resolve_skill_stack rp digest (pl_skill_packs p) (t_loaded_skills t) (Some (ro_skill_requirements r)) None False)
       (\<lambda>_. Inr ()))) (pl_tasks p)) (\<lambda>_.
     validate_plan_skill_attestations p)))"

definition validate_plan_skill_qualifications ::
  "(pyval \<Rightarrow> string) \<Rightarrow> (skill_pack \<Rightarrow> string) \<Rightarrow> plan \<Rightarrow> evidence_store option \<Rightarrow> unit result"
where
  "validate_plan_skill_qualifications rp digest p store =
     forE (\<lambda>t. bindE (role_of p t) (\<lambda>r.
       bindE (resolve_skill_stack rp digest (pl_skill_packs p) (t_loaded_skills t) (Some (ro_skill_requirements r)) store True)
       (\<lambda>_. Inr ()))) (filter (\<lambda>t. t_loaded_skills t \<noteq> []) (pl_tasks p))"

text \<open>\<^verbatim>\<open>require_allowed_skill_evidence_role\<close>: \<open>None\<close> is a project without a plan.\<close>

definition require_allowed_skill_evidence_role :: "plan option \<Rightarrow> string \<Rightarrow> string \<Rightarrow> unit result" where
  "require_allowed_skill_evidence_role stored milestone role = (case stored of None \<Rightarrow> Inr ()
     | Some p \<Rightarrow> (case task_map p milestone of None \<Rightarrow> Inr ()
       | Some t \<Rightarrow> if t_loaded_skills t = [] then Inr () else
           bindE (mapE (\<lambda>r. case catalog_pack p r of None \<Rightarrow> Inl (KeyError (sr_id r)) | Some s \<Rightarrow> Inr (sk_evidence_roles s))
             (t_loaded_skills t)) (\<lambda>roles.
           let allowed = concat roles @ map vc_id (vp_deterministic_checks (t_verification t)) in
           if role \<in> set allowed then Inr ()
           else Inl (MemoryValidationError ''evidence role is not allowed for loaded Skill Packs''
             (role # milestone # sorted_set allowed)))))"

section \<open>Recording an attestation\<close>

definition evidence_for_roles ::
  "(pyval \<Rightarrow> string) \<Rightarrow> pyval dict list \<Rightarrow> string list \<Rightarrow> string \<Rightarrow> pyval dict list result"
where
  "evidence_for_roles rp evidence roles label =
     bindE (mapE (\<lambda>role.
        let matches = filter (\<lambda>e. is_text e ''role'' role) evidence in
        if matches = [] then Inl (SkillPackError ''has no implementation evidence role'' [label, role])
        else bindE (forE (\<lambda>e. bindE (required_string (get e ''id'') label) (\<lambda>_.
               require_deterministic_trust rp e label)) matches) (\<lambda>_. Inr matches)) roles) (\<lambda>found.
     bindE (unique_of (map (\<lambda>e. str_of rp (get e ''id'')) (concat found)) label) (\<lambda>_. Inr (concat found)))"

text \<open>The deterministic results by check id; a repeated id is refused.\<close>

definition results_by_id :: "(pyval \<Rightarrow> string) \<Rightarrow> pyval dict list \<Rightarrow> string \<Rightarrow> pyval dict dict result" where
  "results_by_id rp results label =
     (let entries = map (\<lambda>r. (str_of rp (py_or (get r ''check_id'') (PStr [])), r)) results in
      if distinct (keys entries) then Inr entries
      else Inl (SkillPackError ''duplicates deterministic result'' [label]))"

definition runtime_test :: "skill_check \<Rightarrow> pyval dict \<Rightarrow> bool" where
  "runtime_test c e \<longleftrightarrow> is_text e ''role'' (sc_id c) \<and> is_text e ''provider'' ''deterministic-runtime''
     \<and> is_text e ''kind'' ''test'' \<and> is_text e ''command'' (shell_join (sc_argv c))
     \<and> py_eq (get e ''exit_code'') (PInt (sc_expected_exit_code c))"

definition qualification_result ::
  "(pyval \<Rightarrow> string) \<Rightarrow> pyval dict dict \<Rightarrow> pyval dict list \<Rightarrow> string \<Rightarrow> skill_check \<Rightarrow> (pyval dict \<times> pyval dict) result"
where
  "qualification_result rp by_id evidence label c = (case map_of by_id (sc_id c) of
     None \<Rightarrow> Inl (SkillPackError ''has no executed result for'' [label, sc_id c])
   | Some r \<Rightarrow>
     if \<not> is_text r ''kind'' ''command'' \<or> get r ''passed'' \<noteq> PBool True
        \<or> \<not> py_eq (get r ''exit_code'') (PInt (sc_expected_exit_code c)) then
       Inl (SkillPackError ''check did not pass as declared'' [label, sc_id c])
     else (case filter (runtime_test c) evidence of
       [row] \<Rightarrow> bindE (require_deterministic_trust rp row label) (\<lambda>_.
         bindE (required_string (get row ''id'') label) (\<lambda>i. Inr (row, expected_result c i)))
     | _ \<Rightarrow> Inl (SkillPackError ''check requires exactly one runtime test evidence record'' [label, sc_id c])))"

definition qualification_results ::
  "(pyval \<Rightarrow> string) \<Rightarrow> skill_pack \<Rightarrow> pyval dict list \<Rightarrow> pyval dict list \<Rightarrow> string \<Rightarrow> (pyval dict list \<times> pyval dict list) result"
where
  "qualification_results rp p evidence results label =
     bindE (results_by_id rp results label) (\<lambda>by_id.
     bindE (mapE (qualification_result rp by_id evidence label) (sk_deterministic_checks p)) (\<lambda>pairs.
     Inr (map fst pairs, map snd pairs)))"

text \<open>The evidence, details, check id and summary of the three kinds of attestation.\<close>

definition attestation_payload ::
  "(pyval \<Rightarrow> string) \<Rightarrow> string \<Rightarrow> skill_pack \<Rightarrow> skill_attestation \<Rightarrow> pyval dict list \<Rightarrow> pyval dict list \<Rightarrow> string
    \<Rightarrow> (pyval dict list \<times> pyval dict \<times> string \<times> string) result"
where
  "attestation_payload rp digest p a evidence results label =
     (let revision = (''skill_pack_revision'', PDict (revision_binding digest p)) in
      if sa_kind a = ''source'' then
        bindE (evidence_for_roles rp evidence (sa_evidence_roles a) label) (\<lambda>selected.
        Inr (selected, [revision, (''skill_source'', PDict [(''source'', PStr (sk_source p)),
             (''skill_pack_sha256'', PStr digest),
             (''evidence_ids'', PList (map (\<lambda>r. PStr (str_of rp (get r ''id''))) selected))])],
           ''skill-source'', ''Independent Skill Pack source review passed.''))
      else if sa_kind a = ''promotion'' then
        bindE (mapE (\<lambda>q. bindE (evidence_for_roles rp evidence [se_role q] label) (\<lambda>rows.
          bindE (forE (\<lambda>r. validate_qualifying_evidence rp
            \<lparr>pe_id = str_of rp (get r ''id''), pe_kind = se_kind q, pe_verified = True\<rparr> r label) rows) (\<lambda>_.
          Inr rows))) (sa_promotion_evidence a)) (\<lambda>found.
        let selected = concat found in
        bindE (unique_of (map (\<lambda>r. str_of rp (get r ''id'')) selected) label) (\<lambda>_.
        Inr (selected, [revision, (''promotion_evidence'', PList (map (\<lambda>r. PDict [(''id'', PStr (str_of rp (get r ''id''))),
             (''skill_pack_sha256'', PStr digest)]) selected))],
           ''skill-promotion'', ''Independent Skill Pack promotion review passed.'')))
      else
        bindE (qualification_results rp p evidence results label) (\<lambda>(selected, checks).
        Inr (selected, [revision, (''skill_checks'', PList (map PDict checks))],
           ''skill-qualification'', ''Independent review confirmed every Skill Pack qualification check.'')))"

definition attestation_request ::
  "(pyval \<Rightarrow> string) \<Rightarrow> string \<Rightarrow> skill_pack \<Rightarrow> skill_attestation \<Rightarrow> pyval dict list \<times> pyval dict \<times> string \<times> string
    \<Rightarrow> string \<Rightarrow> string \<Rightarrow> string \<Rightarrow> verification_request"
where
  "attestation_request rp digest p a payload actor thread turn = (case payload of (selected, details, check_id, summary) \<Rightarrow>
     \<lparr>vq_task_id = special_task_id digest (upper (sa_kind a)) p, vq_check_id = check_id, vq_policy = ''independent'',
      vq_verdict = ''PASS'', vq_summary = summary,
      vq_evidence_ids = map (\<lambda>r. str_of rp (get r ''id'')) selected, vq_created_by = actor,
      vq_provider_thread_id = thread, vq_provider_turn_id = turn, vq_details = Some details,
      vq_provider = Some ''codex-desktop''\<rparr>)"

text \<open>
  \<^verbatim>\<open>record_runtime_skill_attestation\<close>: the new memory and the id of the verification, if the task attests
  a skill.
\<close>

definition record_runtime_skill_attestation ::
  "(pyval \<Rightarrow> string) \<Rightarrow> (rat \<Rightarrow> string) \<Rightarrow> (skill_pack \<Rightarrow> string) \<Rightarrow> string \<Rightarrow> memory \<Rightarrow> plan \<Rightarrow> task
    \<Rightarrow> pyval dict list \<Rightarrow> pyval dict list \<Rightarrow> string \<Rightarrow> string \<Rightarrow> string \<Rightarrow> (string option \<times> memory) result"
where
  "record_runtime_skill_attestation rp fl digest now m p t evidence results actor thread turn =
     (case t_skill_attestation t of None \<Rightarrow> Inr (None, m)
      | Some a \<Rightarrow> (case catalog_pack p (sa_skill a) of
          None \<Rightarrow> Inl (SkillPackError ''attests an absent skill'' [t_id t, sr_id (sa_skill a), sr_version (sa_skill a)])
        | Some s \<Rightarrow>
            bindE (attestation_payload rp (digest s) s a evidence results (t_id t)) (\<lambda>payload.
            bindE (record_verification_result fl now True m (attestation_request rp (digest s) s a payload actor thread turn)) (\<lambda>(i, m').
            Inr (Some i, m')))))"

section \<open>What a loaded pack rests on\<close>

lemma find_verification_in: "find_verification m i = Some v \<Longrightarrow> v \<in> set (mm_verifications m) \<and> vr_id v = i"
  by (auto simp: find_verification_def find_Some_iff)

lemma memory_verification_Some:
  assumes "memory_verification (Some m) i = Inr (Some row)"
  shows "\<exists>v details. v \<in> set (mm_verifications m) \<and> json_loads (vr_details_json v) = Some details \<and> row = verification_dict m v details"
proof -
  obtain v where v: "find_verification m i = Some v"
    using assms by (auto simp: memory_verification_def split: if_split_asm)
  from v assms obtain details where "json_loads (vr_details_json v) = Some details" "row = verification_dict m v details"
    by (auto simp: memory_verification_def get_verification_result_def split: option.split_asm)
  with find_verification_in [OF v] show ?thesis by blast
qed

lemma verification_dict_gets [simp]:
  "get (verification_dict m v details) ''task_id'' = PStr (vr_task_id v)"
  "get (verification_dict m v details) ''check_id'' = PStr (vr_check_id v)"
  "get (verification_dict m v details) ''policy'' = PStr (vr_policy v)"
  "get (verification_dict m v details) ''verdict'' = PStr (vr_verdict v)"
  "get (verification_dict m v details) ''details'' = details"
  "get (verification_dict m v details) ''evidence'' = PList (map (\<lambda>e. PDict (evidence_row e)) (verification_evidence m (vr_id v)))"
  by (simp_all add: verification_dict_def get_def)

lemma evidence_row_gets [simp]:
  "get (evidence_row e) ''id'' = PStr (ev_id e)" "get (evidence_row e) ''kind'' = PStr (ev_kind e)"
  "get (evidence_row e) ''exit_code'' = opt_number (ev_exit_code e)"
  "get (evidence_row e) ''command'' = opt_text (ev_command e)"
  by (simp_all add: evidence_row_def get_def)

lemma opt_number_eq [simp]: "py_eq (opt_number x) (PInt n) \<longleftrightarrow> x = Some n"
  by (auto simp: opt_number_def split: option.split)

lemma opt_text_eq [simp]: "opt_text x = PStr s \<longleftrightarrow> x = Some s"
  by (auto simp: opt_text_def split: option.split)

lemma record_array_rows [simp]: "record_array (PList (map (\<lambda>e. PDict (f e)) es)) label = Inr (map f es)"
  unfolding record_array_def by (simp, rule mapE_map) simp

text \<open>The evidence of an admitted check.\<close>

definition passing_test :: "memory \<Rightarrow> verification_row \<Rightarrow> skill_check \<Rightarrow> evidence_item \<Rightarrow> bool" where
  "passing_test m v c e \<longleftrightarrow> e \<in> set (verification_evidence m (vr_id v)) \<and> (ev_kind e = ''test'' \<or> ev_kind e = ''build'')
     \<and> ev_exit_code e = Some (sc_expected_exit_code c) \<and> ev_command e = Some (shell_join (sc_argv c))"

lemma check_result_evidence:
  assumes "check_result rp p label (dict_of (map (\<lambda>r. (str_of rp (get r ''id''), r)) (map evidence_row es))) admitted r = Inr admitted'"
  shows "\<exists>c e. c \<in> set (sk_deterministic_checks p) \<and> admitted' = admitted @ [sc_id c] \<and> e \<in> set es
     \<and> (ev_kind e = ''test'' \<or> ev_kind e = ''build'') \<and> ev_exit_code e = Some (sc_expected_exit_code c)
     \<and> ev_command e = Some (shell_join (sc_argv c))"
proof -
  let ?i = "str_of rp (py_or (get r ''id'') (PStr []))" and ?e = "str_of rp (py_or (get r ''evidence_id'') (PStr []))"
  let ?rows = "dict_of (map (\<lambda>r. (str_of rp (get r ''id''), r)) (map evidence_row es))"
  obtain c where c: "map_of (dict_of (map (\<lambda>c. (sc_id c, c)) (sk_deterministic_checks p))) ?i = Some c"
    using assms by (cases "map_of (dict_of (map (\<lambda>c. (sc_id c, c)) (sk_deterministic_checks p))) ?i")
      (simp_all add: check_result_def Let_def)
  obtain row where row: "map_of ?rows ?e = Some row"
    using assms c by (cases "map_of ?rows ?e") (simp_all add: check_result_def Let_def split: if_split_asm)
  from map_of_dict_ofD [OF c] have ci: "c \<in> set (sk_deterministic_checks p)" "sc_id c = ?i" by auto
  from map_of_dict_ofD [OF row] obtain e where e: "e \<in> set es" "row = evidence_row e" by auto
  have "admitted' = admitted @ [?i] \<and> (ev_kind e = ''test'' \<or> ev_kind e = ''build'')
      \<and> ev_exit_code e = Some (sc_expected_exit_code c) \<and> ev_command e = Some (shell_join (sc_argv c))"
    using assms unfolding check_result_def Let_def c row option.case e(2)
    by (auto simp: is_text_def split: if_split_asm)
  with ci e show ?thesis by auto
qed

lemma check_results_evidence:
  assumes "check_results rp p label (dict_of (map (\<lambda>r. (str_of rp (get r ''id''), r)) (map evidence_row es))) admitted rs = Inr admitted'"
    "i \<in> set admitted'" "i \<notin> set admitted"
  shows "\<exists>c e. c \<in> set (sk_deterministic_checks p) \<and> sc_id c = i \<and> e \<in> set es
     \<and> (ev_kind e = ''test'' \<or> ev_kind e = ''build'') \<and> ev_exit_code e = Some (sc_expected_exit_code c)
     \<and> ev_command e = Some (shell_join (sc_argv c))"
  using assms
proof (induction rs arbitrary: admitted)
  case Nil
  then show ?case by simp
next
  case (Cons r rs)
  obtain a where a: "check_result rp p label (dict_of (map (\<lambda>r. (str_of rp (get r ''id''), r)) (map evidence_row es))) admitted r = Inr a"
    "check_results rp p label (dict_of (map (\<lambda>r. (str_of rp (get r ''id''), r)) (map evidence_row es))) a rs = Inr admitted'"
    using Cons.prems(1) by auto
  show ?case
  proof (cases "i \<in> set a")
    case False
    from Cons.IH [OF a(2) Cons.prems(2) False] show ?thesis .
  next
    case True
    with check_result_evidence [OF a(1)] Cons.prems(3) show ?thesis by auto
  qed
qed

lemma equals_dict_present: "equals_dict (get d k) e \<Longrightarrow> \<exists>v. map_of d k = Some v"
  by (auto simp: equals_dict_def get_def split: option.splits)

lemma trusted_row_provenance:
  assumes "require_deterministic_trust rp (evidence_row e) label = Inr ()"
  shows "ev_provenance e = ''deterministic_tool_output'' \<or> ev_provenance e = ''human_verified''"
proof -
  from assms obtain t where t: "from_storage rp (evidence_row e) = Inr t" "level_meets (et_level t) TRUTH_THRESHOLD"
    unfolding require_deterministic_trust_def by (auto split: sum.splits if_split_asm)
  have "map_of (evidence_row e) ''provenance'' = Some (PStr (ev_provenance e))" by (simp add: evidence_row_def)
  with t(1) have "coerce_provenance (ev_provenance e) = Inr (et_provenance t)"
    by (auto simp: from_storage_def make_trust_Inr unclassified_def split: option.splits sum.splits)
  then show ?thesis
    using meets_truth [OF from_storage_ok [OF t(1)]] t(2) by (auto simp: provenances.read_iff)
qed

text \<open>A verification that admits a check: its row, its attestation and the passing test it cites.\<close>

definition admits_check :: "memory \<Rightarrow> string \<Rightarrow> skill_pack \<Rightarrow> verification_row \<Rightarrow> skill_check \<Rightarrow> bool" where
  "admits_check m digest p v c \<longleftrightarrow> vr_task_id v = special_task_id digest ''QUALIFICATION'' p \<and> vr_verdict v = ''PASS''
     \<and> (\<exists>e. passing_test m v c e
          \<and> (ev_provenance e = ''deterministic_tool_output'' \<or> ev_provenance e = ''human_verified''))"

lemma check_qualification_evidence:
  assumes "check_qualification rp digest p label i (verification_dict m v details) admitted = Inr admitted'"
    "check_id \<in> set admitted'" "check_id \<notin> set admitted"
  shows "(\<exists>d a. details = PDict d \<and> map_of d RUNTIME_ATTESTATION_KEY = Some a)
     \<and> (\<exists>c \<in> set (sk_deterministic_checks p). sc_id c = check_id \<and> admits_check m digest p v c)"
proof -
  let ?es = "verification_evidence m (vr_id v)"
  have t: "vr_task_id v = special_task_id digest ''QUALIFICATION'' p \<and> vr_verdict v = ''PASS''"
    using assms(1) unfolding check_qualification_def by (auto simp: is_text_def split: if_split_asm)
  obtain d where d: "details = PDict d" "\<exists>k e. equals_dict (get d RUNTIME_ATTESTATION_KEY) e"
    using assms(1) unfolding check_qualification_def require_runtime_attestation_def record_mapping_def
    by (auto split: if_split_asm pyval.split_asm)
  have trusted: "\<forall>e \<in> set ?es. require_deterministic_trust rp (evidence_row e) label = Inr ()"
    using assms(1) unfolding check_qualification_def Let_def by (auto split: if_split_asm)
  obtain results where r: "check_results rp p label (dict_of (map (\<lambda>r. (str_of rp (get r ''id''), r)) (map evidence_row ?es)))
      admitted results = Inr admitted'"
    using assms(1) unfolding check_qualification_def Let_def by (auto split: if_split_asm)
  from check_results_evidence [OF r assms(2,3)] obtain c e where c: "c \<in> set (sk_deterministic_checks p)" "sc_id c = check_id"
    "passing_test m v c e" unfolding passing_test_def by blast
  with trusted have "require_deterministic_trust rp (evidence_row e) label = Inr ()" by (simp add: passing_test_def)
  from trusted_row_provenance [OF this] c t have "admits_check m digest p v c" unfolding admits_check_def by blast
  with c d equals_dict_present show ?thesis by blast
qed

lemma check_qualifications_evidence:
  assumes "check_qualifications rp digest p label (Some m) admitted ids = Inr admitted'"
    "check_id \<in> set admitted'" "check_id \<notin> set admitted"
  shows "\<exists>v \<in> set (mm_verifications m). (\<exists>d a. json_loads (vr_details_json v) = Some (PDict d)
       \<and> map_of d RUNTIME_ATTESTATION_KEY = Some a)
     \<and> (\<exists>c \<in> set (sk_deterministic_checks p). sc_id c = check_id \<and> admits_check m digest p v c)"
  using assms
proof (induction ids arbitrary: admitted)
  case Nil
  then show ?case by simp
next
  case (Cons i ids)
  obtain row a where row: "require_record (memory_verification (Some m) i) label i = Inr row"
    and a: "check_qualification rp digest p label i row admitted = Inr a"
    and rest: "check_qualifications rp digest p label (Some m) a ids = Inr admitted'"
    using Cons.prems(1) by auto
  from row have "memory_verification (Some m) i = Inr (Some row)"
    by (auto simp: require_record_def split: option.splits)
  then obtain v details where v: "v \<in> set (mm_verifications m)" "json_loads (vr_details_json v) = Some details"
    "row = verification_dict m v details" using memory_verification_Some by blast
  show ?case
  proof (cases "check_id \<in> set a")
    case False
    from Cons.IH [OF rest Cons.prems(2) False] show ?thesis .
  next
    case True
    from check_qualification_evidence [OF a [unfolded v(3)] True Cons.prems(3)] v(1,2) show ?thesis by blast
  qed
qed

lemma qualified_checks:
  assumes "validate_skill_qualification rp digest p (Some (Some m)) = Inr ()"
    "distinct (map sc_id (sk_deterministic_checks p))" "c \<in> set (sk_deterministic_checks p)"
  shows "\<exists>v \<in> set (mm_verifications m). (\<exists>d a. json_loads (vr_details_json v) = Some (PDict d)
       \<and> map_of d RUNTIME_ATTESTATION_KEY = Some a) \<and> admits_check m (digest p) p v c"
proof -
  obtain admitted where adm: "check_qualifications rp (digest p) p (sk_id p @ ''@'' @ sk_version p) (Some m) []
      (sk_qualification_verification_ids p) = Inr admitted"
    and full: "filter (\<lambda>c. c \<notin> set admitted) (sorted_set (map sc_id (sk_deterministic_checks p))) = []"
    using assms(1) unfolding validate_skill_qualification_def Let_def by (auto split: if_split_asm)
  from full assms(3) have "sc_id c \<in> set admitted" by (auto simp: filter_empty_conv)
  from check_qualifications_evidence [OF adm this] obtain v c' where "v \<in> set (mm_verifications m)"
    "\<exists>d a. json_loads (vr_details_json v) = Some (PDict d) \<and> map_of d RUNTIME_ATTESTATION_KEY = Some a"
    and c': "c' \<in> set (sk_deterministic_checks p)" "sc_id c' = sc_id c" "admits_check m (digest p) p v c'" by auto
  moreover have "c' = c" using assms(2,3) c'(1,2) by (auto simp: distinct_map inj_on_def)
  ultimately show ?thesis by blast
qed

section \<open>The loaded stack\<close>

lemma reject_stack_duplicates_Inr: "reject_stack_duplicates seen ps = Inr () \<Longrightarrow>
    distinct (map sk_capability ps) \<and> (\<forall>q \<in> set seen. sk_capability q \<notin> sk_capability ` set ps)"
proof (induction ps arbitrary: seen)
  case Nil
  then show ?case by simp
next
  case (Cons p ps)
  from Cons.prems have "reject_stack_duplicates (seen @ [p]) ps = Inr ()" "\<forall>q \<in> set seen. sk_capability q \<noteq> sk_capability p"
    by (auto split: if_split_asm)
  with Cons.IH [OF this(1)] show ?case by auto
qed

lemma resolve_reference_Inr: "resolve_reference catalog r = Inr p \<Longrightarrow>
    p \<in> set catalog \<and> reference_of p = r \<and> sk_status p = ''trusted''"
  by (auto simp: resolve_reference_def find_Some_iff split: option.splits if_split_asm)

lemma resolved_references: "mapE (resolve_reference catalog) rs = Inr ps \<Longrightarrow>
    map reference_of ps = rs \<and> (\<forall>p \<in> set ps. p \<in> set catalog \<and> sk_status p = ''trusted'')"
  by (induction rs arbitrary: ps) (auto dest: resolve_reference_Inr)

lemma resolve_skill_stack_Inr:
  assumes "resolve_skill_stack rp digest catalog requested requirements store qualified = Inr packs"
  shows "map reference_of packs = requested" "\<forall>p \<in> set packs. p \<in> set catalog \<and> sk_status p = ''trusted''"
    "distinct requested" "distinct (map sk_capability packs)"
    "\<forall>p \<in> set packs. \<forall>c \<in> set (sk_conflicts_with p). c \<notin> set requested"
    "\<forall>allowed. requirements = Some allowed \<longrightarrow> set requested \<subseteq> set allowed"
    "qualified \<longrightarrow> (\<forall>p \<in> set packs. validate_skill_qualification rp digest p store = Inr ())"
proof -
  have u: "unique_of requested ''loaded skill reference'' = Inr ()"
    and q: "check_requirements requested requirements = Inr ()"
    and r: "mapE (resolve_reference catalog) requested = Inr packs"
    and d: "reject_stack_duplicates [] packs = Inr ()" and c: "reject_stack_conflicts packs = Inr ()"
    and v: "qualified \<longrightarrow> (\<forall>p \<in> set packs. validate_skill_qualification rp digest p store = Inr ())"
    using assms unfolding resolve_skill_stack_def by (auto split: if_split_asm)
  from resolved_references [OF r] show refs: "map reference_of packs = requested"
    and "\<forall>p \<in> set packs. p \<in> set catalog \<and> sk_status p = ''trusted''" by auto
  from reject_stack_duplicates_Inr [OF d] show "distinct (map sk_capability packs)" by simp
  from c show "\<forall>p \<in> set packs. \<forall>c \<in> set (sk_conflicts_with p). c \<notin> set requested"
    unfolding reject_stack_conflicts_def refs by (auto split: if_split_asm)
  from q show "\<forall>allowed. requirements = Some allowed \<longrightarrow> set requested \<subseteq> set allowed"
    by (auto simp: check_requirements_def filter_empty_conv split: if_split_asm)
  from u show "distinct requested" by (auto simp: unique_of_def split: if_split_asm)
  from v show "qualified \<longrightarrow> (\<forall>p \<in> set packs. validate_skill_qualification rp digest p store = Inr ())" .
qed

lemma attested_check:
  assumes "v \<in> set (mm_verifications (run_memory fs allowed fl ops))" "\<forall>op \<in> set ops. details_ok (snd op)"
    "json_loads (vr_details_json v) = Some (PDict d)" "map_of d RUNTIME_ATTESTATION_KEY = Some a"
    "admits_check (run_memory fs allowed fl ops) digest p v c"
  shows "\<exists>now q. (now, RuntimeVerification q) \<in> set ops \<and> strip (vq_task_id q) = special_task_id digest ''QUALIFICATION'' p
     \<and> upper (strip (vq_verdict q)) = ''PASS''"
proof -
  obtain now q where "(now, RuntimeVerification q) \<in> set ops" "vr_task_id v = strip (vq_task_id q)"
    "vr_verdict v = upper (strip (vq_verdict q))" using attested_row [OF run_ledger assms(2,1,3,4)] by blast
  moreover have "vr_task_id v = special_task_id digest ''QUALIFICATION'' p" "vr_verdict v = ''PASS''"
    using assms(5) unfolding admits_check_def by blast+
  ultimately show ?thesis by auto
qed

text \<open>
  C38. What the resolver loads. When it admits a stack over a memory the project really built,
  the packs are the requested references in order, each a trusted pack of the catalog
  that the role declares, with no two of one capability and none that another excludes; and every
  deterministic check of every pack has a qualification that the runtime recorded as a pass for exactly this
  revision, citing a test or build with the declared command and exit code whose provenance is
  deterministic tool output or human judgment.
\<close>

theorem loaded_stack_qualified:
  assumes "resolve_skill_stack rp digest catalog requested (Some declared)
      (Some (Some (run_memory fs allowed fl ops))) True = Inr packs"
    and "\<forall>p \<in> set catalog. pack_ok p" "\<forall>op \<in> set ops. details_ok (snd op)"
  shows "map reference_of packs = requested \<and> distinct requested \<and> set requested \<subseteq> set declared
     \<and> distinct (map sk_capability packs)
     \<and> (\<forall>p \<in> set packs. p \<in> set catalog \<and> sk_status p = ''trusted''
          \<and> (\<forall>q \<in> set packs. reference_of q \<notin> set (sk_conflicts_with p))
          \<and> (\<forall>c \<in> set (sk_deterministic_checks p).
               \<exists>v \<in> set (mm_verifications (run_memory fs allowed fl ops)). \<exists>now q e.
                 (now, RuntimeVerification q) \<in> set ops \<and> strip (vq_task_id q) = special_task_id (digest p) ''QUALIFICATION'' p
                 \<and> upper (strip (vq_verdict q)) = ''PASS''
                 \<and> e \<in> set (verification_evidence (run_memory fs allowed fl ops) (vr_id v))
                 \<and> (ev_kind e = ''test'' \<or> ev_kind e = ''build'') \<and> ev_exit_code e = Some (sc_expected_exit_code c)
                 \<and> ev_command e = Some (shell_join (sc_argv c))
                 \<and> (ev_provenance e = ''deterministic_tool_output'' \<or> ev_provenance e = ''human_verified'')))"
proof -
  let ?m = "run_memory fs allowed fl ops"
  note stack = resolve_skill_stack_Inr [OF assms(1)]
  have evidence: "\<exists>v \<in> set (mm_verifications ?m). \<exists>now q e. (now, RuntimeVerification q) \<in> set ops
       \<and> strip (vq_task_id q) = special_task_id (digest p) ''QUALIFICATION'' p
       \<and> upper (strip (vq_verdict q)) = ''PASS'' \<and> e \<in> set (verification_evidence ?m (vr_id v))
       \<and> (ev_kind e = ''test'' \<or> ev_kind e = ''build'') \<and> ev_exit_code e = Some (sc_expected_exit_code c)
       \<and> ev_command e = Some (shell_join (sc_argv c))
       \<and> (ev_provenance e = ''deterministic_tool_output'' \<or> ev_provenance e = ''human_verified'')"
    if p: "p \<in> set packs" and c: "c \<in> set (sk_deterministic_checks p)" for p c
  proof -
    from p stack(2,7) have ok: "validate_skill_qualification rp digest p (Some (Some ?m)) = Inr ()" "p \<in> set catalog" by auto
    with assms(2) have "distinct (map sc_id (sk_deterministic_checks p))" by (auto simp: pack_ok_def)
    from qualified_checks [OF ok(1) this c] obtain v d a where v: "v \<in> set (mm_verifications ?m)"
      "json_loads (vr_details_json v) = Some (PDict d)" "map_of d RUNTIME_ATTESTATION_KEY = Some a"
      "admits_check ?m (digest p) p v c" by blast
    from attested_check [OF v(1) assms(3) v(2-4)] v(1,4) show ?thesis
      unfolding admits_check_def passing_test_def by blast
  qed
  have "reference_of q \<notin> set (sk_conflicts_with p)" if "p \<in> set packs" "q \<in> set packs" for p q
  proof -
    have "reference_of q \<in> set requested" using that(2) stack(1) by (metis imageI list.set_map)
    with stack(5) that(1) show ?thesis by blast
  qed
  moreover have "set requested \<subseteq> set declared" using stack(6) by simp
  ultimately show ?thesis using stack(1-4) by (intro conjI ballI evidence) simp_all
qed

definition sample_pack :: skill_pack where
  "sample_pack = \<lparr>sk_id = ''build'', sk_version = ''1.0.0'', sk_capability = ''build'', sk_source = ''project_generated'',
     sk_status = ''trusted'', sk_procedures = [''run make''], sk_checklists = [''names''], sk_failure_modes = [''drift''],
     sk_quality_criteria = [''stable''], sk_required_tools = [], sk_required_mcp_servers = [],
     sk_deterministic_checks = [\<lparr>sc_id = ''tests'', sc_description = ''tests'', sc_argv = [''make'', ''test''],
       sc_expected_exit_code = 0\<rparr>], sk_evidence_roles = [''tests''], sk_conflicts_with = [], sk_promotion_evidence = [],
     sk_source_verification_ids = [''VERIFY-001''], sk_qualification_verification_ids = [''VERIFY-002''],
     sk_external_sources = []\<rparr>"

definition sample_attestation :: "string \<Rightarrow> skill_attestation" where
  "sample_attestation kind = \<lparr>sa_kind = kind, sa_skill = reference_of sample_pack, sa_evidence_roles = [''tests''],
     sa_promotion_evidence = []\<rparr>"

text \<open>The runtime's test evidence, and the two attestations it then records for the pack.\<close>

definition sample_test :: evidence_request where
  "sample_test = (plain_evidence ''test'') \<lparr>eq_milestone_id := Some ''M01'', eq_role := ''tests'', eq_provider := Some ''deterministic-runtime''\<rparr>"

definition sample_request :: "string \<Rightarrow> verification_request" where
  "sample_request kind = (case bindE (milestone_evidence (run_sample [RecordEvidence sample_test]) ''M01'' 0 100)
       (\<lambda>evidence. attestation_payload (\<lambda>_. []) ''d0'' sample_pack (sample_attestation kind) evidence
         [[(''check_id'', PStr ''tests''), (''kind'', PStr ''command''), (''passed'', PBool True), (''exit_code'', PInt 0)]] ''M01'') of
     Inr payload \<Rightarrow> attestation_request (\<lambda>_. []) ''d0'' sample_pack (sample_attestation kind) payload ''runtime'' ''th'' kind
   | Inl _ \<Rightarrow> sample_verification)"

definition skill_ops :: "memory_op list" where
  "skill_ops = [RecordEvidence sample_test, RuntimeVerification (sample_request ''source''),
     RuntimeVerification (sample_request ''qualification'')]"

text \<open>The two rows, up to the text of their details, and the details themselves.\<close>

definition sample_row :: "string \<Rightarrow> string \<Rightarrow> string \<Rightarrow> string \<Rightarrow> string \<Rightarrow> string \<Rightarrow> verification_row" where
  "sample_row i task check turn summary json = \<lparr>vr_id = i, vr_task_id = task, vr_check_id = check,
     vr_policy = ''independent'', vr_verdict = ''PASS'', vr_summary = summary, vr_details_json = json,
     vr_created_by = ''runtime'', vr_provider = Some ''codex-desktop'', vr_provider_thread_id = ''th'',
     vr_provider_turn_id = turn, vr_created_at = ''t''\<rparr>"

definition source_row :: "string \<Rightarrow> verification_row" where
  "source_row = sample_row ''VERIFY-001'' ''SKILL-SOURCE:build@1.0.0:d0'' ''skill-source'' ''source''
     ''Independent Skill Pack source review passed.''"

definition qualification_row :: "string \<Rightarrow> verification_row" where
  "qualification_row = sample_row ''VERIFY-002'' ''SKILL-QUALIFICATION:build@1.0.0:d0'' ''skill-qualification''
     ''qualification'' ''Independent review confirmed every Skill Pack qualification check.''"

definition sample_details :: "(string \<Rightarrow> verification_row) \<Rightarrow> string \<times> pyval \<Rightarrow> pyval dict" where
  "sample_details row entry = [(''skill_pack_revision'', PDict (revision_binding ''d0'' sample_pack)), entry,
     (RUNTIME_ATTESTATION_KEY, row_attestation ''fresh_verifier'' (row []))]"

definition source_details :: "pyval dict" where
  "source_details = sample_details source_row (''skill_source'', PDict [(''source'', PStr ''project_generated''),
     (''skill_pack_sha256'', PStr ''d0''), (''evidence_ids'', PList [PStr ''EVID-001''])])"

definition qualification_details :: "pyval dict" where
  "qualification_details = sample_details qualification_row (''skill_checks'', PList [PDict (expected_result
     (hd (sk_deterministic_checks sample_pack)) ''EVID-001'')])"

definition sample_links :: "verification_link list" where
  "sample_links = map (\<lambda>i. \<lparr>vl_verification_id = i, vl_evidence_id = ''EVID-001'', vl_created_at = ''t''\<rparr>)
     [''VERIFY-001'', ''VERIFY-002'']"

definition sample_first :: "string \<Rightarrow> memory" where
  "sample_first json = (let m = run_sample [RecordEvidence sample_test]; v = source_row json in
     audit (m\<lparr>mm_sequences := [(''EVID'', 1), (''VERIFY'', 1)], mm_verifications := [v],
         mm_verification_links := take 1 sample_links\<rparr>)
       ''record'' ''verification'' ''VERIFY-001'' ''runtime''
       [(''task_id'', PStr (vr_task_id v)), (''check_id'', PStr (vr_check_id v)), (''policy'', PStr (vr_policy v)),
        (''verdict'', PStr (vr_verdict v)), (''evidence_ids'', PList [PStr ''EVID-001'']),
        (''provider_thread_id'', PStr (vr_provider_thread_id v)), (''provider_turn_id'', PStr (vr_provider_turn_id v)),
        (''runtime_attested'', PBool True)] ''t'')"

lemma record_fresh:
  assumes "check_verification b q = Inr (q', details)" "int (length (json_text fl (PDict details))) \<le> MAX_FIELD_CHARS"
    "bindE (cited m (vq_evidence_ids q')) (\<lambda>items. require_truth_rows MemoryValidationError column_text
       ''R18: untrusted material cannot support verification outcomes'' (map evidence_row items)) = Inr x"
    "find_causal m q' = None"
  shows "record_verification_result fl now b m q = insert_verification now b m q' (json_text fl (PDict details))"
  using assms by (auto simp: record_verification_result_def Let_def)

lemma sample_checked:
  "check_verification True (sample_request ''source'') = Inr (sample_request ''source'', source_details)"
  "check_verification True (sample_request ''qualification'') = Inr (sample_request ''qualification'', qualification_details)"
  by code_simp+

lemma sample_json: "int (length (json_text (\<lambda>_. []) (PDict source_details))) \<le> MAX_FIELD_CHARS"
  "int (length (json_text (\<lambda>_. []) (PDict qualification_details))) \<le> MAX_FIELD_CHARS"
  "json_ok (PDict source_details)" "json_ok (PDict qualification_details)"
  by code_simp+

lemma sample_fresh: "find_causal (run_sample [RecordEvidence sample_test]) (sample_request ''source'') = None"
  "find_causal (sample_first json) (sample_request ''qualification'') = None"
  by code_simp+

lemma sample_inserted:
  "insert_verification ''t'' True (run_sample [RecordEvidence sample_test]) (sample_request ''source'') json
     = Inr (''VERIFY-001'', sample_first json)"
  "case insert_verification ''t'' True (sample_first json) (sample_request ''qualification'') json' of
     Inr (i, m) \<Rightarrow> mm_verifications m = [source_row json, qualification_row json'] \<and> mm_verification_links m = sample_links
       \<and> mm_evidence m = mm_evidence (run_sample [RecordEvidence sample_test])
   | Inl _ \<Rightarrow> False"
  by code_simp+

lemma sample_evidence:
  assumes "mm_evidence m = mm_evidence (run_sample [RecordEvidence sample_test])"
  shows "\<exists>x. bindE (cited m [''EVID-001'']) (\<lambda>items. require_truth_rows MemoryValidationError column_text
       ''R18: untrusted material cannot support verification outcomes'' (map evidence_row items)) = Inr x"
proof -
  have "\<not> isl (bindE (cited (run_sample [RecordEvidence sample_test]) [''EVID-001'']) (\<lambda>items. require_truth_rows
       MemoryValidationError column_text ''R18: untrusted material cannot support verification outcomes''
       (map evidence_row items)))"
    by code_simp
  moreover have "cited m [''EVID-001''] = cited (run_sample [RecordEvidence sample_test]) [''EVID-001'']"
    using assms by (simp add: cited_def find_evidence_def)
  ultimately show ?thesis by (metis isl_def sum.exhaust)
qed

lemma sample_request_evidence: "vq_evidence_ids (sample_request ''source'') = [''EVID-001'']"
  "vq_evidence_ids (sample_request ''qualification'') = [''EVID-001'']"
  by code_simp+

lemma sample_first_evidence: "mm_evidence (sample_first json) = mm_evidence (run_sample [RecordEvidence sample_test])"
  by (simp add: sample_first_def audit_def Let_def)

lemma skill_memory:
  defines "m \<equiv> run_sample skill_ops"
  shows "mm_verifications m = [source_row (json_text (\<lambda>_. []) (PDict source_details)),
      qualification_row (json_text (\<lambda>_. []) (PDict qualification_details))]"
    "mm_verification_links m = sample_links" "mm_evidence m = mm_evidence (run_sample [RecordEvidence sample_test])"
proof -
  let ?m = "run_sample [RecordEvidence sample_test]" and ?j = "json_text (\<lambda>_. []) (PDict source_details)"
  obtain x where x: "bindE (cited ?m (vq_evidence_ids (sample_request ''source''))) (\<lambda>items. require_truth_rows
      MemoryValidationError column_text ''R18: untrusted material cannot support verification outcomes''
      (map evidence_row items)) = Inr x"
    using sample_evidence unfolding sample_request_evidence by blast
  have first: "record_verification_result (\<lambda>_. []) ''t'' True ?m (sample_request ''source'') = Inr (''VERIFY-001'', sample_first ?j)"
    unfolding record_fresh [OF sample_checked(1) sample_json(1) x sample_fresh(1)] by (rule sample_inserted(1))
  obtain y where y: "bindE (cited (sample_first ?j) (vq_evidence_ids (sample_request ''qualification''))) (\<lambda>items.
      require_truth_rows MemoryValidationError column_text ''R18: untrusted material cannot support verification outcomes''
      (map evidence_row items)) = Inr y"
    using sample_evidence [OF sample_first_evidence] unfolding sample_request_evidence by blast
  have second: "record_verification_result (\<lambda>_. []) ''t'' True (sample_first ?j) (sample_request ''qualification'')
      = insert_verification ''t'' True (sample_first ?j) (sample_request ''qualification'') (json_text (\<lambda>_. []) (PDict qualification_details))"
    by (rule record_fresh [OF sample_checked(2) sample_json(2) y sample_fresh(2)])
  have "m = after_id (after_id ?m (record_verification_result (\<lambda>_. []) ''t'' True ?m (sample_request ''source'')))
     (record_verification_result (\<lambda>_. []) ''t'' True (after_id ?m (record_verification_result (\<lambda>_. []) ''t'' True ?m
       (sample_request ''source''))) (sample_request ''qualification''))"
    by (simp add: m_def run_sample_def skill_ops_def run_memory_def)
  then have "m = after_id (sample_first ?j) (insert_verification ''t'' True (sample_first ?j) (sample_request ''qualification'')
      (json_text (\<lambda>_. []) (PDict qualification_details)))"
    unfolding first by (simp add: after_id_def second del: json_text.simps)
  with sample_inserted(2) [of ?j "json_text (\<lambda>_. []) (PDict qualification_details)"]
  show "mm_verifications m = [source_row ?j, qualification_row (json_text (\<lambda>_. []) (PDict qualification_details))]"
    "mm_verification_links m = sample_links" "mm_evidence m = mm_evidence ?m"
    by (auto simp: after_id_def split: sum.splits)
qed

text \<open>The rows as the validators read them.\<close>

definition sample_read :: "(string \<Rightarrow> verification_row) \<Rightarrow> pyval dict \<Rightarrow> pyval dict" where
  "sample_read row details = verification_dict
     ((run_sample [RecordEvidence sample_test])\<lparr>mm_verification_links := sample_links\<rparr>) (row []) (canon (PDict details))"

lemma verification_dict_same:
  assumes "mm_evidence m = mm_evidence m'" "mm_verification_links m = mm_verification_links m'"
    "v\<lparr>vr_details_json := []\<rparr> = v'\<lparr>vr_details_json := []\<rparr>"
  shows "verification_dict m v details = verification_dict m' v' details"
  using assms by (cases v, cases v') (simp add: verification_dict_def verification_evidence_def)

lemma sample_row_found:
  "memory_verification (Some (run_sample skill_ops)) ''VERIFY-001'' = Inr (Some (sample_read source_row source_details))"
  "memory_verification (Some (run_sample skill_ops)) ''VERIFY-002'' = Inr (Some (sample_read qualification_row qualification_details))"
proof -
  let ?s = "json_text (\<lambda>_. []) (PDict source_details)" and ?q = "json_text (\<lambda>_. []) (PDict qualification_details)"
  have found: "find_verification (run_sample skill_ops) ''VERIFY-001'' = Some (source_row ?s)"
    "find_verification (run_sample skill_ops) ''VERIFY-002'' = Some (qualification_row ?q)"
    unfolding find_verification_def skill_memory
    by (simp_all add: source_row_def qualification_row_def sample_row_def del: json_text.simps)
  have rows: "vr_details_json (source_row j) = j" "vr_details_json (qualification_row j) = j" for j
    by (simp_all add: source_row_def qualification_row_def sample_row_def)
  have dict: "verification_dict (run_sample skill_ops) (source_row ?s) d = verification_dict
      ((run_sample [RecordEvidence sample_test])\<lparr>mm_verification_links := sample_links\<rparr>) (source_row []) d"
    "verification_dict (run_sample skill_ops) (qualification_row ?q) d = verification_dict
      ((run_sample [RecordEvidence sample_test])\<lparr>mm_verification_links := sample_links\<rparr>) (qualification_row []) d" for d
    by (rule verification_dict_same; simp add: skill_memory source_row_def qualification_row_def sample_row_def del: json_text.simps)+
  show "memory_verification (Some (run_sample skill_ops)) ''VERIFY-001'' = Inr (Some (sample_read source_row source_details))"
    "memory_verification (Some (run_sample skill_ops)) ''VERIFY-002'' = Inr (Some (sample_read qualification_row qualification_details))"
    unfolding memory_verification_def get_verification_result_def found rows option.case
      json_round_trip [OF sample_json(3)] json_round_trip [OF sample_json(4)] dict sample_read_def
    by simp_all
qed

lemma sample_checks:
  "check_source_record (\<lambda>_. []) ''d0'' sample_pack (sk_id sample_pack @ CHR 0x40 # sk_version sample_pack) ''VERIFY-001''
     (sample_read source_row source_details) = Inr ()"
  "check_qualification (\<lambda>_. []) ''d0'' sample_pack (sk_id sample_pack @ CHR 0x40 # sk_version sample_pack) ''VERIFY-002''
     (sample_read qualification_row qualification_details) [] = Inr [''tests'']"
  by code_simp+

lemma sample_loaded:
  "resolve_skill_stack (\<lambda>_. []) (\<lambda>_. ''d0'') [sample_pack] [reference_of sample_pack] (Some [reference_of sample_pack])
     (Some (Some (run_sample skill_ops))) True = Inr [sample_pack]"
proof -
  have plain: "resolve_skill_stack (\<lambda>_. []) (\<lambda>_. ''d0'') [sample_pack] [reference_of sample_pack]
      (Some [reference_of sample_pack]) None False = Inr [sample_pack]" by code_simp
  have fields: "sk_source_verification_ids sample_pack = [''VERIFY-001'']"
    "sk_qualification_verification_ids sample_pack = [''VERIFY-002'']" "sk_promotion_evidence sample_pack = []"
    "sk_status sample_pack = ''trusted''" "sk_source sample_pack = ''project_generated''"
    "map sc_id (sk_deterministic_checks sample_pack) = [''tests'']" by (simp_all add: sample_pack_def)
  have "validate_trusted_skill_promotions (\<lambda>_. []) (\<lambda>_. ''d0'') [sample_pack] (Some (Some (run_sample skill_ops))) = Inr ()"
    by (simp add: validate_trusted_skill_promotions_def validate_skill_source_attestation_def fields Let_def
      SOURCE_ATTESTATION_REQUIRED_def require_record_def sample_row_found sample_checks)
  moreover have "validate_skill_qualification (\<lambda>_. []) (\<lambda>_. ''d0'') sample_pack (Some (Some (run_sample skill_ops))) = Inr ()"
    by (simp add: validate_skill_qualification_def fields Let_def require_record_def sample_row_found sample_checks
      sorted_set_def)
  ultimately show ?thesis using plain by (simp add: resolve_skill_stack_def split: if_split_asm)
qed

lemma sample_requests_ok: "details_ok (RuntimeVerification (sample_request ''source''))"
  "details_ok (RuntimeVerification (sample_request ''qualification''))"
  by code_simp+

theorem loaded_stack_qualified_witness:
  "\<exists>v \<in> set (mm_verifications (run_sample skill_ops)). \<exists>e \<in> set (verification_evidence (run_sample skill_ops) (vr_id v)).
     ev_command e = Some ''make test'' \<and> ev_exit_code e = Some 0"
proof -
  let ?ops = "map (\<lambda>o'. (''t'', o')) skill_ops"
  let ?c = "hd (sk_deterministic_checks sample_pack)"
  have c: "?c \<in> set (sk_deterministic_checks sample_pack)" "sc_expected_exit_code ?c = 0"
    by (simp_all add: sample_pack_def)
  have command: "shell_join (sc_argv ?c) = ''make test''" by code_simp
  have ok: "pack_ok sample_pack" by code_simp
  have details: "details_ok o'" if "o' \<in> set skill_ops" for o'
    using that by (auto simp: skill_ops_def sample_requests_ok simp del: details_ok.simps(1,2))
  have loaded: "resolve_skill_stack (\<lambda>_. []) (\<lambda>_. ''d0'') [sample_pack] [reference_of sample_pack] (Some [reference_of sample_pack])
     (Some (Some (run_memory no_files any_role (\<lambda>_. []) ?ops))) True = Inr [sample_pack]"
    using sample_loaded unfolding run_sample_def .
  show ?thesis
    using loaded_stack_qualified [OF loaded] c command ok details unfolding run_sample_def by fastforce
qed

section \<open>Revisions that can never be qualified\<close>

text \<open>
  The task id of an attestation holds the id, the version and the digest of the pack, and the ledger
  refuses task ids of more than 128 characters: with a digest of 64 characters, the runtime can never
  record the qualification of a pack whose id and version together have more than 42.
\<close>

lemma long_revision_unqualified:
  assumes "length digest = 64" "42 < length (sk_id p) + length (sk_version p)"
    "strip (special_task_id digest ''QUALIFICATION'' p) = special_task_id digest ''QUALIFICATION'' p"
    "vq_task_id q = special_task_id digest ''QUALIFICATION'' p"
  shows "\<exists>e. record_verification_result fl now b m q = Inl e"
proof -
  have "128 < int (length (special_task_id digest ''QUALIFICATION'' p))"
    using assms(1,2) by (simp add: special_task_id_def)
  then have "\<exists>e. required (vq_task_id q) ''task_id'' 128 = Inl e"
    using assms(3,4) by (auto simp: required_def)
  then show ?thesis by (auto simp: record_verification_result_def check_verification_def)
qed

end
