(* ===== verification/PlanIssues.thy ===== *)
theory PlanIssues
  imports PlanDigest Models
begin

text \<open>
  The collectors of \<^verbatim>\<open>plan_issues.py\<close> and the field readers of \<^verbatim>\<open>plan_parse.py\<close>. A reader takes
  the collector and returns it with what it read; \<open>None\<close> is the sentinel \<^verbatim>\<open>FAILED\<close>. The fail-fast
  collector holds nothing and lets the first violation end the reading.
\<close>

section \<open>Issues\<close>

text \<open>
  An issue is its stage, its path and the violation. Two issues say the same when their
  violations are equal: an exception value determines its message.
\<close>

type_synonym collected_issue = "string \<times> string \<times> exn"
type_synonym collector = "collected_issue list option"
type_synonym 'a reader = "collector \<Rightarrow> ('a \<times> collector) result"

definition issue_stage :: "collected_issue \<Rightarrow> string" where "issue_stage i = fst i"
definition issue_message :: "collected_issue \<Rightarrow> exn" where "issue_message i = snd (snd i)"

definition FAIL_FAST :: collector where "FAIL_FAST = None"
definition new_collector :: collector where "new_collector = Some []"

text \<open>The classes of \<^verbatim>\<open>exn\<close> that are subclasses of \<^verbatim>\<open>ValueError\<close>, which the collector keeps.\<close>

fun is_value_error :: "exn \<Rightarrow> bool" where
  "is_value_error (ValueError m xs) = True"
| "is_value_error (IllegalTaskTransition m xs) = True"
| "is_value_error (PlanVerificationError m xs) = True"
| "is_value_error (PlanChangeProtocolError m xs) = True"
| "is_value_error (VerificationProtocolError m xs) = True"
| "is_value_error (UnknownFieldsError m xs) = True"
| "is_value_error (TrustBoundaryViolation m xs) = True"
| "is_value_error (SkillPackError m xs) = True"
| "is_value_error (ScreeningProtocolError m xs) = True"
| "is_value_error (DepartmentAcceptanceError m xs) = True"
| "is_value_error (GoalContractError m xs) = True"
| "is_value_error (AcceptanceClassError m xs) = True"
| "is_value_error (RoleSpecificationError m xs) = True"
| "is_value_error (PlanIssues i is) = True"
| "is_value_error JSONDecodeError = True"
| "is_value_error e = False"

text \<open>The same words twice say nothing new.\<close>

definition keep_issue :: "collected_issue \<Rightarrow> collected_issue list \<Rightarrow> collected_issue list" where
  "keep_issue i is = (if issue_message i \<in> set (map issue_message is) then is else is @ [i])"

definition c_check :: "string \<Rightarrow> string \<Rightarrow> 'a result \<Rightarrow> 'a option reader" where
  "c_check stage path r c = (case c of
     None \<Rightarrow> bindE r (\<lambda>v. Inr (Some v, None))
   | Some is \<Rightarrow> (case r of
       Inr v \<Rightarrow> Inr (Some v, Some is)
     | Inl (PlanIssues j js) \<Rightarrow> Inr (None, Some (fold keep_issue (j # js) is))
     | Inl e \<Rightarrow> if is_value_error e then Inr (None, Some (keep_issue (stage, path, e) is)) else Inl e))"

definition c_add :: "string \<Rightarrow> string \<Rightarrow> exn \<Rightarrow> unit reader" where
  "c_add stage path e c = (case c of
     None \<Rightarrow> Inl e | Some is \<Rightarrow> Inr ((), Some (keep_issue (stage, path, e) is)))"

definition c_count :: "collector \<Rightarrow> nat" where
  "c_count c = (case c of None \<Rightarrow> 0 | Some is \<Rightarrow> length is)"

definition c_clean :: "string list \<Rightarrow> collector \<Rightarrow> bool" where
  "c_clean stages c = (case c of None \<Rightarrow> True | Some is \<Rightarrow> \<forall>i \<in> set is. issue_stage i \<notin> set stages)"

definition raise_if_any :: "collector \<Rightarrow> unit result" where
  "raise_if_any c = (case c of Some (i # is) \<Rightarrow> Inl (PlanIssues i is) | _ \<Rightarrow> Inr ())"

text \<open>Sequencing of readers.\<close>

definition returnC :: "'a \<Rightarrow> 'a reader" where
  "returnC x c = Inr (x, c)"

definition liftC :: "'a result \<Rightarrow> 'a reader" where
  "liftC r c = bindE r (\<lambda>x. Inr (x, c))"

definition bindC :: "'a reader \<Rightarrow> ('a \<Rightarrow> 'b reader) \<Rightarrow> 'b reader" where
  "bindC m f c = bindE (m c) (\<lambda>(x, c'). f x c')"

fun mapC :: "('a \<Rightarrow> 'b reader) \<Rightarrow> 'a list \<Rightarrow> 'b list reader" where
  "mapC f [] = returnC []"
| "mapC f (x # xs) = bindC (f x) (\<lambda>y. bindC (mapC f xs) (\<lambda>ys. returnC (y # ys)))"

fun addC :: "(string \<times> string \<times> exn) list \<Rightarrow> unit reader" where
  "addC [] = returnC ()"
| "addC ((stage, path, e) # is) = bindC (c_add stage path e) (\<lambda>_. addC is)"

text \<open>A reader that looks at the collector, and the test \<^verbatim>\<open>_failed_since\<close> of one that builds its result.\<close>

definition lookC :: "(collector \<Rightarrow> 'a reader) \<Rightarrow> 'a reader" where
  "lookC f c = f c c"

definition built :: "'a option reader \<Rightarrow> 'a option reader" where
  "built m c = bindE (m c) (\<lambda>(x, c'). if c_count c < c_count c' then Inr (None, c') else Inr (x, c'))"

definition enumerate_from_1 :: "'a list \<Rightarrow> (nat \<times> 'a) list" where
  "enumerate_from_1 xs = zip [1..<Suc (length xs)] xs"

section \<open>Readings without a violation\<close>

text \<open>
  A reading only adds issues. So a reading that starts without issues and ends without them has
  had none on the way: each of its checks succeeded. These are the facts the rest of the
  development reads an accepted plan with.
\<close>

definition fresh :: "collector \<Rightarrow> bool" where
  "fresh c \<longleftrightarrow> c = None \<or> c = Some []"

definition grows :: "'a reader \<Rightarrow> bool" where
  "grows m \<longleftrightarrow> (\<forall>c x c'. m c = Inr (x, c') \<longrightarrow>
     (case c of None \<Rightarrow> c' = None | Some is \<Rightarrow> \<exists>ds. c' = Some (is @ ds)))"

named_theorems growing "readers that only add issues" and reading "readings without a violation"

lemma keep_issue_append: "\<exists>ds. keep_issue i is = is @ ds"
  by (auto simp: keep_issue_def)

lemma fold_keep_issue_append: "\<exists>ds. fold keep_issue js is = is @ ds"
proof (induction js arbitrary: "is")
  case (Cons j js)
  obtain ds where "keep_issue j is = is @ ds" using keep_issue_append by blast
  with Cons.IH [of "is @ ds"] show ?case by auto
qed simp

lemma fold_keep_issue_not_Nil: "fold keep_issue (j # js) [] \<noteq> []"
  using fold_keep_issue_append [of js "keep_issue j []"] by (auto simp: keep_issue_def)

lemma grows_check [growing, intro]: "grows (c_check stage path r)"
proof -
  have "\<exists>ds. fold keep_issue js (keep_issue j is) = is @ ds" for j js "is"
    using fold_keep_issue_append [of "j # js" "is"] by simp
  then show ?thesis
    unfolding grows_def c_check_def using keep_issue_append
    by (auto split: option.splits sum.splits exn.splits if_splits)
qed

lemma grows_add [growing, intro]: "grows (c_add stage path e)"
  using keep_issue_append by (auto simp: grows_def c_add_def split: option.splits)

lemma grows_return [growing, intro]: "grows (returnC x)"
  by (auto simp: grows_def returnC_def split: option.splits)

lemma grows_lift [growing, intro]: "grows (liftC r)"
  by (auto simp: grows_def liftC_def split: option.splits)

lemma grows_bind [growing, intro]:
  assumes m: "grows m" and f: "\<And>x. grows (f x)"
  shows "grows (bindC m f)"
  unfolding grows_def
proof (intro allI impI)
  fix c y c'
  assume "bindC m f c = Inr (y, c')"
  then obtain x c1 where "m c = Inr (x, c1)" "f x c1 = Inr (y, c')" by (auto simp: bindC_def)
  with m f [of x] show "case c of None \<Rightarrow> c' = None | Some is \<Rightarrow> \<exists>ds. c' = Some (is @ ds)"
    unfolding grows_def by (fastforce split: option.splits)
qed

lemma grows_look [growing, intro]: "(\<And>c. grows (f c)) \<Longrightarrow> grows (lookC f)"
  by (auto simp: grows_def lookC_def)

lemma grows_built [growing, intro]: "grows m \<Longrightarrow> grows (built m)"
  by (fastforce simp: grows_def built_def split: if_splits option.splits)

lemma grows_if [growing, intro]: "grows m \<Longrightarrow> grows m' \<Longrightarrow> grows (if b then m else m')"
  by simp

lemma grows_option [growing, intro]: "grows m \<Longrightarrow> (\<And>x. grows (f x)) \<Longrightarrow> grows (case v of None \<Rightarrow> m | Some x \<Rightarrow> f x)"
  by (cases v) auto

lemma grows_mapC [growing, intro]: "(\<And>x. grows (f x)) \<Longrightarrow> grows (mapC f xs)"
  by (induction xs) (auto intro!: growing)

lemma grows_addC [growing, intro]: "grows (addC is)"
  by (induction "is" rule: addC.induct) (auto intro!: growing)

lemma return_fresh [reading]: "returnC x c = Inr (y, c) \<longleftrightarrow> y = x"
  by (auto simp: returnC_def)

lemma lift_fresh [reading]: "liftC r c = Inr (y, c) \<longleftrightarrow> r = Inr y"
  by (auto simp: liftC_def)

lemma check_fresh [reading]:
  assumes "fresh c"
  shows "c_check stage path r c = Inr (x, c) \<longleftrightarrow> (\<exists>v. r = Inr v \<and> x = Some v)"
  using assms fold_keep_issue_not_Nil
  by (auto simp: fresh_def c_check_def keep_issue_def split: sum.splits exn.splits simp del: fold_simps)

lemma add_fresh [reading]: "fresh c \<Longrightarrow> c_add stage path e c \<noteq> Inr (x, c)"
  by (auto simp: fresh_def c_add_def keep_issue_def)

lemma bind_fresh:
  assumes c: "fresh c" and m: "grows m" and f: "\<And>x. grows (f x)"
  shows "bindC m f c = Inr (y, c) \<longleftrightarrow> (\<exists>x. m c = Inr (x, c) \<and> f x c = Inr (y, c))"
proof
  assume "bindC m f c = Inr (y, c)"
  then obtain x c1 where x: "m c = Inr (x, c1)" "f x c1 = Inr (y, c)" by (auto simp: bindC_def)
  with m f [of x] c have "c1 = c" unfolding grows_def fresh_def by fastforce
  with x show "\<exists>x. m c = Inr (x, c) \<and> f x c = Inr (y, c)" by blast
qed (auto simp: bindC_def)

lemma look_fresh [reading]: "lookC f c = f c c"
  by (simp add: lookC_def)

lemma built_fresh [reading]: "built m c = Inr (x, c) \<longleftrightarrow> m c = Inr (x, c)"
  by (auto simp: built_def split: if_splits)

lemma mapC_fresh:
  assumes c: "fresh c" and f: "\<And>x. grows (f x)"
  shows "mapC f xs c = Inr (ys, c) \<longleftrightarrow> list_all2 (\<lambda>x y. f x c = Inr (y, c)) xs ys"
proof (induction xs arbitrary: ys)
  case Nil
  then show ?case by (auto simp: reading)
next
  case (Cons x xs)
  have "mapC f (x # xs) c = Inr (ys, c) \<longleftrightarrow>
      (\<exists>y. f x c = Inr (y, c) \<and> (\<exists>zs. mapC f xs c = Inr (zs, c) \<and> ys = y # zs))"
    unfolding mapC.simps by (subst bind_fresh [OF c f], intro growing f, subst bind_fresh [OF c], intro growing f)
      (auto simp: reading intro: growing)
  with Cons.IH show ?case by (auto simp: list_all2_Cons1)
qed

lemma addC_fresh [reading]: "fresh c \<Longrightarrow> addC is c = Inr (u, c) \<longleftrightarrow> is = []"
proof (cases "is")
  case (Cons i js)
  assume c: "fresh c"
  obtain stage path e where i: "i = (stage, path, e)" by (cases i)
  have "addC is c = Inr (u, c) \<longleftrightarrow> (\<exists>x. c_add stage path e c = Inr (x, c) \<and> addC js c = Inr (u, c))"
    unfolding Cons i addC.simps by (rule bind_fresh [OF c]) (auto intro: growing)
  with c Cons show ?thesis by (auto simp: reading)
qed (simp add: reading)

lemma clean_fresh [reading]: "fresh c \<Longrightarrow> c_clean stages c"
  by (auto simp: fresh_def c_clean_def)

lemma fresh_collectors [simp]: "fresh FAIL_FAST" "fresh new_collector"
  by (simp_all add: fresh_def FAIL_FAST_def new_collector_def)

end
