(* ===== verification/PlanParse.thy ===== *)
theory PlanParse
  imports PlanIssues SkillPacks
begin

text \<open>
  The readers of \<^verbatim>\<open>plan_parse.py\<close>: one plan entity from its raw object, every independent field
  checked through the collector, with the field sets of \<^verbatim>\<open>plan_fields.py\<close>, the version reader
  of \<^verbatim>\<open>role_specification.py\<close> and the acceptance classes of \<^verbatim>\<open>acceptance.py\<close>.
\<close>

section \<open>\<^verbatim>\<open>plan_fields.py\<close>\<close>

definition PLAN_FIELDS :: "string list" where
  "PLAN_FIELDS = [''schema_version'', ''graph_version'', ''goal'', ''user_request'', ''goal_contract'',
     ''model_strategy'', ''execution_strategy'', ''max_parallel_workers'', ''computer_use_slots'',
     ''roles'', ''departments'', ''skill_packs'', ''tasks'', ''compatibility'']"
definition COMPATIBILITY_FIELDS :: "string list" where
  "COMPATIBILITY_FIELDS = [''migrated_from_schema'', ''legacy_serial'']"
definition ROLE_FIELDS :: "string list" where
  "ROLE_FIELDS = [''id'', ''name'', ''version'', ''responsibilities'', ''domain_focus'', ''preferred_tools'',
     ''context_priorities'', ''verification_expectations'', ''skill_requirements'']"
definition TASK_FIELDS :: "string list" where
  "TASK_FIELDS = [''id'', ''title'', ''objective'', ''definition_of_done'', ''execution_mode'',
     ''execution_mode_reason'', ''reasoning'', ''role'', ''depends_on'', ''priority'',
     ''verification'', ''resources'', ''required_capabilities'', ''context'', ''outputs'', ''tags'',
     ''produces_outcomes'', ''acceptance_class'', ''loaded_skills'', ''skill_attestation'']"
definition VERIFICATION_FIELDS :: "string list" where
  "VERIFICATION_FIELDS = [''policy'', ''required'', ''deterministic_checks'', ''verifier_role'',
     ''execution_mode'', ''execution_mode_reason'', ''reasoning'', ''max_revision_attempts'']"
definition CHECK_FIELDS :: "string list" where
  "CHECK_FIELDS = [''id'', ''kind'', ''description'', ''argv'', ''path'', ''timeout_seconds'',
     ''expected_exit_code'']"
definition RESOURCE_FIELDS :: "string list" where
  "RESOURCE_FIELDS = [''id'', ''kind'', ''target'', ''access'', ''description'']"
definition OUTPUT_FIELDS :: "string list" where
  "OUTPUT_FIELDS = [''id'', ''description'', ''path'', ''required'']"
definition CONTEXT_FIELDS :: "string list" where
  "CONTEXT_FIELDS = [''memory_queries'', ''memory_record_ids'', ''dependency_outputs'',
     ''max_memory_records'', ''max_dependency_outputs'']"

definition REQUIRED_ROLE_FIELDS :: "string list" where
  "REQUIRED_ROLE_FIELDS = [''id'', ''name'', ''responsibilities'']"
definition REQUIRED_TASK_FIELDS :: "string list" where
  "REQUIRED_TASK_FIELDS = [''id'', ''title'', ''objective'', ''definition_of_done'', ''execution_mode'',
     ''execution_mode_reason'', ''role'', ''verification'']"
definition REQUIRED_VERIFICATION_FIELDS :: "string list" where
  "REQUIRED_VERIFICATION_FIELDS = [''policy'']"
definition REQUIRED_CHECK_FIELDS :: "string list" where
  "REQUIRED_CHECK_FIELDS = [''id'', ''kind'', ''description'']"
definition REQUIRED_RESOURCE_FIELDS :: "string list" where
  "REQUIRED_RESOURCE_FIELDS = [''id'', ''kind'', ''target'', ''access'']"
definition REQUIRED_OUTPUT_FIELDS :: "string list" where
  "REQUIRED_OUTPUT_FIELDS = [''id'', ''description'']"

section \<open>Values\<close>

definition reject_unknown :: "pyval dict \<Rightarrow> string list \<Rightarrow> string \<Rightarrow> string list \<Rightarrow> unit result" where
  "reject_unknown raw allowed label required =
     (let unknown = sorted_set (filter (\<lambda>k. k \<notin> set allowed) (keys raw)) in
      if unknown = [] then Inr ()
      else Inl (UnknownFieldsError ''has unknown fields''
        (label # unknown @ sort allowed @ filter (\<lambda>k. k \<notin> set (keys raw)) required)))"

definition plan_object :: "pyval \<Rightarrow> string \<Rightarrow> pyval dict result" where
  "plan_object raw label = (case raw of PDict d \<Rightarrow> Inr d | _ \<Rightarrow> Inl (ValueError ''must be an object'' [label]))"

definition plan_string :: "pyval \<Rightarrow> string \<Rightarrow> string result" where
  "plan_string v name = (case v of
     PStr s \<Rightarrow> if strip s = [] then Inl (ValueError ''must be a non-empty string'' [name]) else Inr (strip s)
   | _ \<Rightarrow> Inl (ValueError ''must be a non-empty string'' [name]))"

definition plan_identifier :: "pyval \<Rightarrow> string \<Rightarrow> string result" where
  "plan_identifier v name = bindE (plan_string v name) (\<lambda>s.
     if is_skill_id s then Inr s else Inl (ValueError ''must match the identifier pattern'' [name]))"

definition plan_array :: "pyval \<Rightarrow> string \<Rightarrow> pyval list result" where
  "plan_array v name = (case v of PList xs \<Rightarrow> Inr xs | _ \<Rightarrow> Inl (ValueError ''must be an array'' [name]))"

definition without_duplicates :: "string list \<Rightarrow> string \<Rightarrow> string list result" where
  "without_duplicates xs name =
     (if distinct xs then Inr xs else Inl (ValueError ''must not contain duplicates'' [name]))"

definition plan_strings :: "pyval \<Rightarrow> string \<Rightarrow> string list result" where
  "plan_strings v name = bindE (plan_array v name) (\<lambda>raw.
     bindE (mapE (\<lambda>x. plan_string x (name @ '' item'')) raw) (\<lambda>ss. without_duplicates ss name))"

definition plan_nonempty_strings :: "pyval \<Rightarrow> string \<Rightarrow> string list result" where
  "plan_nonempty_strings v name = bindE (plan_strings v name) (\<lambda>ss.
     if ss = [] then Inl (ValueError ''must be a non-empty array'' [name]) else Inr ss)"

definition plan_identifiers :: "pyval \<Rightarrow> string \<Rightarrow> string list result" where
  "plan_identifiers v name = bindE (plan_array v name) (\<lambda>raw.
     bindE (mapE (\<lambda>x. plan_identifier x (name @ '' item'')) raw) (\<lambda>ss. without_duplicates ss name))"

definition bounded_int :: "int \<Rightarrow> int \<Rightarrow> pyval \<Rightarrow> string \<Rightarrow> int result" where
  "bounded_int minimum maximum v name = (case v of
     PInt n \<Rightarrow> if n < minimum \<or> maximum < n
       then Inl (ValueError ''must be between'' [name, dec_int minimum, dec_int maximum]) else Inr n
   | _ \<Rightarrow> Inl (ValueError ''must be an integer'' [name]))"

definition positive_int :: "pyval \<Rightarrow> string \<Rightarrow> int result" where
  "positive_int = bounded_int 1 1000000"

definition duplicates :: "string list \<Rightarrow> string list" where
  "duplicates xs = sorted_set (filter (\<lambda>x. 1 < count_list xs x) xs)"

definition validate_unique :: "string list \<Rightarrow> string \<Rightarrow> unit result" where
  "validate_unique xs name =
     (if duplicates xs \<noteq> [] then Inl (ValueError ''must be unique'' (name # duplicates xs)) else Inr ())"

definition unique_identifiers :: "string \<Rightarrow> pyval \<Rightarrow> string \<Rightarrow> string list result" where
  "unique_identifiers unique_name v label = bindE (plan_identifiers v label) (\<lambda>ss.
     bindE (validate_unique ss unique_name) (\<lambda>_. Inr ss))"

definition plan_boolean :: "pyval \<Rightarrow> string \<Rightarrow> bool result" where
  "plan_boolean v name = (case v of PBool b \<Rightarrow> Inr b | _ \<Rightarrow> Inl (ValueError ''must be a boolean'' [name]))"

definition one_of :: "(pyval \<Rightarrow> string) \<Rightarrow> string list \<Rightarrow> pyval \<Rightarrow> string \<Rightarrow> string result" where
  "one_of rp allowed v name = (let s = strip (str_of rp v) in
     if s \<notin> set allowed then Inl (ValueError ''must be one of'' (name # sort allowed)) else Inr s)"

text \<open>\<^verbatim>\<open>_execution_mode\<close> names the field itself: its label is the task's.\<close>

definition execution_mode_of :: "(pyval \<Rightarrow> string) \<Rightarrow> pyval \<Rightarrow> string \<Rightarrow> string result" where
  "execution_mode_of rp v label = (let mode = strip (str_of rp v) in
     if mode \<notin> set EXECUTION_MODES
     then Inl (ValueError ''must be one of'' ((label @ ''.execution_mode'') # sort EXECUTION_MODES)) else Inr mode)"

definition validate_role_version :: "pyval \<Rightarrow> string \<Rightarrow> string result" where
  "validate_role_version v label = (case v of
     PStr s \<Rightarrow> if \<not> version_shape s \<or> zeroed_prerelease s
       then Inl (RoleSpecificationError ''must be a semantic version'' [label]) else Inr s
   | _ \<Rightarrow> Inl (RoleSpecificationError ''must be a semantic version'' [label]))"

definition DEFAULT_ROLE_SPECIFICATION_VERSION :: string where
  "DEFAULT_ROLE_SPECIFICATION_VERSION = ''1.0.0''"

definition ACCEPTANCE_CLASSES :: "string list" where
  "ACCEPTANCE_CLASSES = map acceptance_value [DETERMINISTIC_COMPLETE, MIXED, JUDGMENT]"

definition acceptance_class_from_raw ::
  "acceptance_class option \<Rightarrow> pyval \<Rightarrow> string \<Rightarrow> acceptance_class result" where
  "acceptance_class_from_raw dflt raw label = (case raw of
     PNone \<Rightarrow> (case dflt of
         None \<Rightarrow> Inl (AcceptanceClassError ''must be declared and be one of'' (label # sort ACCEPTANCE_CLASSES))
       | Some a \<Rightarrow> Inr a)
   | PStr s \<Rightarrow> (case find (\<lambda>a. acceptance_value a = strip s) [DETERMINISTIC_COMPLETE, MIXED, JUDGMENT] of
         None \<Rightarrow> Inl (AcceptanceClassError ''must be one of; got'' (label # strip s # sort ACCEPTANCE_CLASSES))
       | Some a \<Rightarrow> Inr a)
   | _ \<Rightarrow> Inl (AcceptanceClassError ''must be one of'' (label # sort ACCEPTANCE_CLASSES)))"

definition admits_semantic_judgment :: "acceptance_class \<Rightarrow> bool" where
  "admits_semantic_judgment a \<longleftrightarrow> a \<in> {MIXED, JUDGMENT}"

section \<open>Fields\<close>

text \<open>
  \<^verbatim>\<open>c.check(stage, f"{label}.{name}", f, raw.get(name, default), f"{label}.{name}")\<close>, and the form
  of a field that is read only when it is given.
\<close>

definition field_check ::
  "string \<Rightarrow> string \<Rightarrow> pyval dict \<Rightarrow> (pyval \<Rightarrow> string \<Rightarrow> 'a result) \<Rightarrow> string \<Rightarrow> pyval \<Rightarrow> 'a option reader" where
  "field_check stage label d f name dflt =
     c_check stage (label @ ''.'' @ name) (f (get_default d name dflt) (label @ ''.'' @ name))"

definition given_check ::
  "string \<Rightarrow> string \<Rightarrow> pyval dict \<Rightarrow> (pyval \<Rightarrow> string \<Rightarrow> 'a result) \<Rightarrow> string \<Rightarrow> 'a option option reader" where
  "given_check stage label d f name = (if get d name = PNone then returnC (Some None)
     else bindC (field_check stage label d f name PNone) (\<lambda>v. returnC (map_option Some v)))"

text \<open>A reader of an object: refused when it is none, and no half-read entity is returned.\<close>

definition object_reader ::
  "string \<Rightarrow> string \<Rightarrow> pyval \<Rightarrow> (pyval dict \<Rightarrow> 'a option reader) \<Rightarrow> 'a option reader" where
  "object_reader stage label raw f = bindC (c_check stage label (plan_object raw label)) (\<lambda>v.
     case v of None \<Rightarrow> returnC None | Some d \<Rightarrow> built (f d))"

definition known_fields :: "string \<Rightarrow> string \<Rightarrow> pyval dict \<Rightarrow> string list \<Rightarrow> string list \<Rightarrow> unit option reader" where
  "known_fields stage label d allowed required = c_check stage label (reject_unknown d allowed label required)"

text \<open>\<^verbatim>\<open>_items\<close>: an array of nested objects, each on its own, then unique ids.\<close>

definition read_items :: "string \<Rightarrow> string \<Rightarrow> pyval \<Rightarrow> (pyval \<Rightarrow> nat \<Rightarrow> 'a option reader) \<Rightarrow> ('a \<Rightarrow> string)
    \<Rightarrow> string \<Rightarrow> 'a list option reader" where
  "read_items stage label raw f item_id unique_name = bindC (c_check stage label (plan_array raw label)) (\<lambda>v.
     case v of None \<Rightarrow> returnC None
     | Some xs \<Rightarrow> bindC (built (bindC (mapC (\<lambda>(i, x). f x i) (enumerate_from_1 xs)) (\<lambda>ys. returnC (those ys)))) (\<lambda>w.
         case w of None \<Rightarrow> returnC None
         | Some items \<Rightarrow> bindC (c_check stage label (validate_unique (map item_id items) unique_name)) (\<lambda>u.
             returnC (case u of None \<Rightarrow> None | Some _ \<Rightarrow> Some items))))"

section \<open>The parts of a task\<close>

definition check_shape :: "(pyval \<Rightarrow> string) \<Rightarrow> pyval dict \<Rightarrow> string \<Rightarrow> (string \<times> string list \<times> string option) result" where
  "check_shape rp d label = bindE (one_of rp VERIFICATION_CHECK_KINDS (get_default d ''kind'' (PStr [])) (label @ ''.kind'')) (\<lambda>kind.
     bindE (plan_strings (get_default d ''argv'' (PList [])) (label @ ''.argv'')) (\<lambda>argv.
     bindE (if get d ''path'' = PNone then Inr None
       else bindE (plan_string (get d ''path'') (label @ ''.path'')) (\<lambda>p. Inr (Some p))) (\<lambda>path.
     if kind = ''command'' \<and> argv = [] then Inl (ValueError ''.argv is required for command checks'' [label])
     else if kind \<noteq> ''command'' \<and> argv \<noteq> [] then Inl (ValueError ''.argv is only valid for command checks'' [label])
     else if kind = ''artifact'' \<and> path = None then Inl (ValueError ''.path is required for artifact checks'' [label])
     else if kind \<noteq> ''artifact'' \<and> path \<noteq> None then Inl (ValueError ''.path is only valid for artifact checks'' [label])
     else Inr (kind, argv, path))))"

definition plan_check_from_raw :: "(pyval \<Rightarrow> string) \<Rightarrow> string \<Rightarrow> string \<Rightarrow> pyval \<Rightarrow> nat \<Rightarrow> verification_check option reader" where
  "plan_check_from_raw rp stage parent raw index = (let label = parent @ ''.deterministic_checks['' @ dec_nat index @ '']'' in
     object_reader stage label raw (\<lambda>d.
     bindC (known_fields stage label d CHECK_FIELDS REQUIRED_CHECK_FIELDS) (\<lambda>_.
     bindC (c_check stage (label @ ''.kind'') (check_shape rp d label)) (\<lambda>shape.
     bindC (field_check stage label d plan_identifier ''id'' PNone) (\<lambda>check_id.
     bindC (field_check stage label d plan_string ''description'' PNone) (\<lambda>description.
     bindC (field_check stage label d (bounded_int 1 86400) ''timeout_seconds'' (PInt 300)) (\<lambda>timeout.
     bindC (field_check stage label d (bounded_int (-255) 255) ''expected_exit_code'' (PInt 0)) (\<lambda>exit_code.
     returnC (Option.bind shape (\<lambda>(kind, argv, path). Option.bind check_id (\<lambda>i. Option.bind description (\<lambda>desc.
       Option.bind timeout (\<lambda>seconds. Option.bind exit_code (\<lambda>code.
       Some \<lparr>vc_id = i, vc_kind = kind, vc_description = desc, vc_argv = argv, vc_path = path,
         vc_timeout_seconds = seconds, vc_expected_exit_code = code\<rparr>))))))))))))))"

definition policy_of :: "(pyval \<Rightarrow> string) \<Rightarrow> pyval dict \<Rightarrow> string \<Rightarrow> string result" where
  "policy_of rp d label = bindE (one_of rp VERIFICATION_POLICIES (get_default d ''policy'' (PStr [])) (label @ ''.policy'')) (\<lambda>policy.
     if policy = ''independent'' \<and> ''max_revision_attempts'' \<notin> set (keys d)
     then Inl (ValueError ''.max_revision_attempts must be declared and be at least 2'' [label]) else Inr policy)"

definition execution_pair :: "(pyval \<Rightarrow> string) \<Rightarrow> pyval dict \<Rightarrow> string \<Rightarrow> (string option \<times> string option) result" where
  "execution_pair rp d label =
     bindE (if get d ''execution_mode'' = PNone then Inr None
       else bindE (execution_mode_of rp (get d ''execution_mode'') label) (\<lambda>m. Inr (Some m))) (\<lambda>mode.
     bindE (if get d ''execution_mode_reason'' = PNone then Inr None
       else bindE (plan_string (get d ''execution_mode_reason'') (label @ ''.execution_mode_reason'')) (\<lambda>r. Inr (Some r))) (\<lambda>reason.
     if (mode = None) \<noteq> (reason = None)
     then Inl (ValueError ''.execution_mode and execution_mode_reason must be provided together'' [label])
     else Inr (mode, reason)))"

definition verification_reasoning :: "(pyval \<Rightarrow> string) \<Rightarrow> string \<Rightarrow> pyval dict \<Rightarrow> string result" where
  "verification_reasoning rp profile d = (if profile \<noteq> ''adaptive''
     then Inl (ValueError ''Host Settings verification policies must omit reasoning'' [])
     else normalize_reasoning (str_of rp (get d ''reasoning'')))"

definition verification_reasoning_check ::
  "(pyval \<Rightarrow> string) \<Rightarrow> string \<Rightarrow> string \<Rightarrow> string \<Rightarrow> pyval dict \<Rightarrow> string option option reader" where
  "verification_reasoning_check rp stage profile label d = (if ''reasoning'' \<in> set (keys d)
     then bindC (c_check stage (label @ ''.reasoning'') (verification_reasoning rp profile d)) (\<lambda>r. returnC (map_option Some r))
     else returnC (Some None))"

text \<open>
  The two reasoning fields are the only ones whose message names no field. A second one that
  fails with the words of the first is not kept as an issue, and the entity is then built with
  \<^verbatim>\<open>FAILED\<close> as its reasoning; the model writes the empty text there, which no reader returns.
\<close>

definition failed_text :: "string option option \<Rightarrow> string option" where
  "failed_text v = (case v of None \<Rightarrow> Some [] | Some r \<Rightarrow> r)"

definition checks_required :: "string \<Rightarrow> string \<Rightarrow> string option \<Rightarrow> bool option \<Rightarrow> verification_check list option \<Rightarrow> unit reader" where
  "checks_required stage label policy required checks =
     (if policy = Some ''deterministic'' \<and> required = Some True \<and> checks = Some []
      then c_add stage (label @ ''.deterministic_checks'')
        (ValueError ''.deterministic_checks is required for deterministic policy'' [label])
      else returnC ())"

definition verification_from_raw ::
  "(pyval \<Rightarrow> string) \<Rightarrow> string \<Rightarrow> string \<Rightarrow> string \<Rightarrow> pyval \<Rightarrow> verification_policy option reader" where
  "verification_from_raw rp stage profile label raw = object_reader stage label raw (\<lambda>d.
     bindC (known_fields stage label d VERIFICATION_FIELDS REQUIRED_VERIFICATION_FIELDS) (\<lambda>_.
     bindC (c_check stage (label @ ''.policy'') (policy_of rp d label)) (\<lambda>policy.
     bindC (field_check stage label d plan_boolean ''required'' (PBool True)) (\<lambda>required.
     bindC (read_items stage (label @ ''.deterministic_checks'') (get_default d ''deterministic_checks'' (PList []))
       (plan_check_from_raw rp stage label) vc_id (label @ '' check id'')) (\<lambda>checks.
     bindC (checks_required stage label policy required checks) (\<lambda>_.
     bindC (given_check stage label d plan_identifier ''verifier_role'') (\<lambda>verifier_role.
     bindC (c_check stage (label @ ''.execution_mode'') (execution_pair rp d label)) (\<lambda>pair.
     bindC (verification_reasoning_check rp stage profile label d) (\<lambda>reasoning.
     bindC (field_check stage label d (bounded_int 0 100) ''max_revision_attempts'' (PInt 2)) (\<lambda>max_attempts.
     returnC (Option.bind policy (\<lambda>p. Option.bind required (\<lambda>req. Option.bind checks (\<lambda>cs.
       Option.bind verifier_role (\<lambda>role. Option.bind pair (\<lambda>(mode, reason). Option.bind max_attempts (\<lambda>n.
       Some \<lparr>vp_policy = p, vp_required = req, vp_deterministic_checks = cs, vp_verifier_role = role,
         vp_execution_mode = mode, vp_execution_mode_reason = reason, vp_reasoning = failed_text reasoning,
         vp_max_revision_attempts = n\<rparr>)))))))))))))))))"

definition resource_from_raw :: "(pyval \<Rightarrow> string) \<Rightarrow> string \<Rightarrow> string \<Rightarrow> pyval \<Rightarrow> nat \<Rightarrow> resource_claim option reader" where
  "resource_from_raw rp stage parent raw index = (let label = parent @ ''.resources['' @ dec_nat index @ '']'' in
     object_reader stage label raw (\<lambda>d.
     bindC (known_fields stage label d RESOURCE_FIELDS REQUIRED_RESOURCE_FIELDS) (\<lambda>_.
     bindC (field_check stage label d (one_of rp RESOURCE_KINDS) ''kind'' (PStr [])) (\<lambda>kind.
     bindC (field_check stage label d (one_of rp RESOURCE_ACCESS_MODES) ''access'' (PStr [])) (\<lambda>access.
     bindC (given_check stage label d plan_string ''description'') (\<lambda>description.
     bindC (field_check stage label d plan_identifier ''id'' PNone) (\<lambda>resource_id.
     bindC (field_check stage label d plan_string ''target'' PNone) (\<lambda>target.
     returnC (Option.bind kind (\<lambda>k. Option.bind access (\<lambda>a. Option.bind description (\<lambda>desc.
       Option.bind resource_id (\<lambda>i. Option.bind target (\<lambda>t.
       Some \<lparr>rc_id = i, rc_kind = k, rc_target = t, rc_access = a, rc_description = desc\<rparr>))))))))))))))"

definition output_from_raw :: "string \<Rightarrow> string \<Rightarrow> pyval \<Rightarrow> nat \<Rightarrow> task_output option reader" where
  "output_from_raw stage parent raw index = (let label = parent @ ''.outputs['' @ dec_nat index @ '']'' in
     object_reader stage label raw (\<lambda>d.
     bindC (known_fields stage label d OUTPUT_FIELDS REQUIRED_OUTPUT_FIELDS) (\<lambda>_.
     bindC (given_check stage label d plan_string ''path'') (\<lambda>path.
     bindC (field_check stage label d plan_boolean ''required'' (PBool True)) (\<lambda>required.
     bindC (field_check stage label d plan_identifier ''id'' PNone) (\<lambda>output_id.
     bindC (field_check stage label d plan_string ''description'' PNone) (\<lambda>description.
     returnC (Option.bind path (\<lambda>p. Option.bind required (\<lambda>req. Option.bind output_id (\<lambda>i.
       Option.bind description (\<lambda>desc.
       Some \<lparr>ou_id = i, ou_description = desc, ou_path = p, ou_required = req\<rparr>))))))))))))"

definition empty_context :: task_context where
  "empty_context = \<lparr>cx_memory_queries = [], cx_memory_record_ids = [], cx_dependency_outputs = [],
     cx_max_memory_records = DEFAULT_MAX_MEMORY_RECORDS,
     cx_max_dependency_outputs = DEFAULT_MAX_DEPENDENCY_OUTPUTS\<rparr>"

definition context_from_raw :: "string \<Rightarrow> string \<Rightarrow> pyval \<Rightarrow> task_context option reader" where
  "context_from_raw stage parent raw = (let label = parent @ ''.context'' in
     if raw = PNone then returnC (Some empty_context) else
     object_reader stage label raw (\<lambda>d.
     bindC (known_fields stage label d CONTEXT_FIELDS []) (\<lambda>_.
     bindC (field_check stage label d plan_strings ''memory_queries'' (PList [])) (\<lambda>queries.
     bindC (field_check stage label d plan_strings ''memory_record_ids'' (PList [])) (\<lambda>ids.
     bindC (field_check stage label d plan_identifiers ''dependency_outputs'' (PList [])) (\<lambda>outputs.
     bindC (field_check stage label d (bounded_int 0 100) ''max_memory_records'' (PInt DEFAULT_MAX_MEMORY_RECORDS)) (\<lambda>records.
     bindC (field_check stage label d (bounded_int 0 100) ''max_dependency_outputs''
       (PInt DEFAULT_MAX_DEPENDENCY_OUTPUTS)) (\<lambda>most.
     returnC (Option.bind queries (\<lambda>qs. Option.bind ids (\<lambda>is. Option.bind outputs (\<lambda>os.
       Option.bind records (\<lambda>m. Option.bind most (\<lambda>n.
       Some \<lparr>cx_memory_queries = qs, cx_memory_record_ids = is, cx_dependency_outputs = os,
         cx_max_memory_records = m, cx_max_dependency_outputs = n\<rparr>))))))))))))))"

section \<open>Tasks and roles\<close>

definition task_reasoning :: "(pyval \<Rightarrow> string) \<Rightarrow> string \<Rightarrow> pyval dict \<Rightarrow> string \<Rightarrow> string option result" where
  "task_reasoning rp profile d label = (if profile = ''adaptive'' then
       (if get d ''reasoning'' = PNone then Inl (ValueError ''requires reasoning in Adaptive profile'' [label])
        else bindE (normalize_reasoning (str_of rp (get d ''reasoning''))) (\<lambda>r. Inr (Some r)))
     else if ''reasoning'' \<in> set (keys d) then Inl (ValueError ''Host Settings plans must omit task reasoning'' [])
     else Inr None)"

definition legacy_policy :: verification_policy where
  "legacy_policy = \<lparr>vp_policy = ''self'', vp_required = True, vp_deterministic_checks = [],
     vp_verifier_role = None, vp_execution_mode = None, vp_execution_mode_reason = None,
     vp_reasoning = None, vp_max_revision_attempts = 0\<rparr>"

text \<open>
  The identity of a task: given by the caller (the reader of a v0.8 milestone) or read. A given
  text counts only when it is not empty (\<^verbatim>\<open>task_id or field(...)\<close>).
\<close>

definition resolved_text :: "string \<Rightarrow> string \<Rightarrow> pyval dict \<Rightarrow> string \<Rightarrow> string option \<Rightarrow> string option reader" where
  "resolved_text stage label d name given = (case given of
     Some (ch # s) \<Rightarrow> returnC (Some (ch # s)) | _ \<Rightarrow> field_check stage label d plan_identifier name PNone)"

definition resolved_dependencies :: "string \<Rightarrow> string \<Rightarrow> pyval dict \<Rightarrow> string list option \<Rightarrow> string list option reader" where
  "resolved_dependencies stage label d given = (case given of
     Some ds \<Rightarrow> returnC (Some ds) | None \<Rightarrow> field_check stage label d plan_identifiers ''depends_on'' (PList []))"

text \<open>
  The fields of a task are read in four groups, in the order of the code: its work, its
  identity and verification, its resources, context and outputs, and its acceptance and skills.
\<close>

record task_work =
  tw_title :: string
  tw_objective :: string
  tw_done :: "string list"
  tw_mode :: string
  tw_mode_reason :: string
  tw_reasoning :: "string option"

definition task_work_from_raw :: "(pyval \<Rightarrow> string) \<Rightarrow> string \<Rightarrow> string \<Rightarrow> string \<Rightarrow> pyval dict \<Rightarrow> task_work option reader" where
  "task_work_from_raw rp stage profile label d =
     bindC (field_check stage label d plan_string ''title'' PNone) (\<lambda>title.
     bindC (field_check stage label d plan_string ''objective'' PNone) (\<lambda>objective.
     bindC (field_check stage label d plan_nonempty_strings ''definition_of_done'' PNone) (\<lambda>done_items.
     bindC (c_check stage (label @ ''.execution_mode'')
       (execution_mode_of rp (get_default d ''execution_mode'' (PStr [])) label)) (\<lambda>mode.
     bindC (field_check stage label d plan_string ''execution_mode_reason'' PNone) (\<lambda>reason.
     bindC (c_check stage (label @ ''.reasoning'') (task_reasoning rp profile d label)) (\<lambda>reasoning.
     returnC (Option.bind title (\<lambda>t. Option.bind objective (\<lambda>ob. Option.bind done_items (\<lambda>dn.
       Option.bind mode (\<lambda>m. Option.bind reason (\<lambda>r.
       Some \<lparr>tw_title = t, tw_objective = ob, tw_done = dn, tw_mode = m, tw_mode_reason = r,
         tw_reasoning = failed_text reasoning\<rparr>))))))))))))"

record task_place =
  tp_id :: string
  tp_role :: string
  tp_depends_on :: "string list"
  tp_priority :: int
  tp_verification :: verification_policy

definition task_place_from_raw :: "(pyval \<Rightarrow> string) \<Rightarrow> string \<Rightarrow> string \<Rightarrow> string \<Rightarrow> bool \<Rightarrow> string option \<Rightarrow> string option
    \<Rightarrow> string list option \<Rightarrow> pyval dict \<Rightarrow> task_place option reader" where
  "task_place_from_raw rp stage profile label canonical given_id given_role given_deps d =
     bindC (resolved_text stage label d ''id'' given_id) (\<lambda>task_id.
     bindC (resolved_text stage label d ''role'' given_role) (\<lambda>role.
     bindC (resolved_dependencies stage label d given_deps) (\<lambda>dependencies.
     bindC (field_check stage label d (bounded_int (-1000000) 1000000) ''priority'' (PInt 0)) (\<lambda>priority.
     bindC (if canonical then verification_from_raw rp stage profile (label @ ''.verification'') (get d ''verification'')
       else returnC (Some legacy_policy)) (\<lambda>verification.
     returnC (Option.bind task_id (\<lambda>i. Option.bind role (\<lambda>r. Option.bind dependencies (\<lambda>ds.
       Option.bind priority (\<lambda>n. Option.bind verification (\<lambda>v.
       Some \<lparr>tp_id = i, tp_role = r, tp_depends_on = ds, tp_priority = n, tp_verification = v\<rparr>)))))))))))"

record task_means =
  tm_resources :: "resource_claim list"
  tm_context :: task_context
  tm_outputs :: "task_output list"

definition task_means_from_raw :: "(pyval \<Rightarrow> string) \<Rightarrow> string \<Rightarrow> string \<Rightarrow> bool \<Rightarrow> pyval dict \<Rightarrow> task_means option reader" where
  "task_means_from_raw rp stage label canonical d =
     bindC (read_items stage (label @ ''.resources'') (get_default d ''resources'' (PList []))
       (resource_from_raw rp stage label) rc_id (label @ '' resource id'')) (\<lambda>resources.
     bindC (if canonical then context_from_raw stage label (get d ''context'')
       else returnC (Some empty_context)) (\<lambda>ctx.
     bindC (read_items stage (label @ ''.outputs'') (get_default d ''outputs'' (PList []))
       (output_from_raw stage label) ou_id (label @ '' output id'')) (\<lambda>outputs.
     returnC (Option.bind resources (\<lambda>rs. Option.bind ctx (\<lambda>cx. Option.bind outputs (\<lambda>os.
       Some \<lparr>tm_resources = rs, tm_context = cx, tm_outputs = os\<rparr>)))))))"

record task_bond =
  tb_outcomes :: "string list"
  tb_class :: acceptance_class
  tb_capabilities :: "string list"
  tb_tags :: "string list"
  tb_skills :: "skill_reference list"
  tb_attestation :: "skill_attestation option"

definition task_bond_from_raw :: "string \<Rightarrow> string \<Rightarrow> bool \<Rightarrow> pyval dict \<Rightarrow> task_bond option reader" where
  "task_bond_from_raw stage label require_class d =
     bindC (field_check stage label d (unique_identifiers (label @ '' produced outcome id''))
       ''produces_outcomes'' (PList [])) (\<lambda>outcomes.
     bindC (field_check stage label d (acceptance_class_from_raw (if require_class then None else Some MIXED))
       ''acceptance_class'' PNone) (\<lambda>cls.
     bindC (field_check stage label d plan_strings ''required_capabilities'' (PList [])) (\<lambda>capabilities.
     bindC (field_check stage label d plan_strings ''tags'' (PList [])) (\<lambda>tags.
     bindC (field_check stage label d skill_references_from_raw ''loaded_skills'' (PList [])) (\<lambda>skills.
     bindC (field_check stage label d skill_attestation_from_raw ''skill_attestation'' PNone) (\<lambda>attestation.
     returnC (Option.bind outcomes (\<lambda>os. Option.bind cls (\<lambda>k. Option.bind capabilities (\<lambda>cs.
       Option.bind tags (\<lambda>ts. Option.bind skills (\<lambda>ss. Option.bind attestation (\<lambda>a.
       Some \<lparr>tb_outcomes = os, tb_class = k, tb_capabilities = cs, tb_tags = ts, tb_skills = ss,
         tb_attestation = a\<rparr>)))))))))))))"

definition task_of_parts :: "task_work \<Rightarrow> task_place \<Rightarrow> task_means \<Rightarrow> task_bond \<Rightarrow> task" where
  "task_of_parts w p m b = \<lparr>t_id = tp_id p, t_title = tw_title w, t_objective = tw_objective w,
     t_definition_of_done = tw_done w, t_execution_mode = tw_mode w, t_execution_mode_reason = tw_mode_reason w,
     t_reasoning = tw_reasoning w, t_role = tp_role p, t_depends_on = tp_depends_on p,
     t_priority = tp_priority p, t_verification = tp_verification p, t_resources = tm_resources m,
     t_required_capabilities = tb_capabilities b, t_context = tm_context m, t_outputs = tm_outputs m,
     t_tags = tb_tags b, t_produces_outcomes = tb_outcomes b, t_acceptance_class = tb_class b,
     t_loaded_skills = tb_skills b, t_skill_attestation = tb_attestation b\<rparr>"

definition task_from_raw :: "(pyval \<Rightarrow> string) \<Rightarrow> string \<Rightarrow> string \<Rightarrow> string \<Rightarrow> bool \<Rightarrow> bool \<Rightarrow> string option \<Rightarrow> string option
    \<Rightarrow> string list option \<Rightarrow> pyval dict \<Rightarrow> task option reader" where
  "task_from_raw rp stage profile label canonical require_class given_id given_role given_deps d = built (
     bindC (if canonical then known_fields stage label d TASK_FIELDS REQUIRED_TASK_FIELDS else returnC (Some ())) (\<lambda>_.
     bindC (task_work_from_raw rp stage profile label d) (\<lambda>work.
     bindC (task_place_from_raw rp stage profile label canonical given_id given_role given_deps d) (\<lambda>place.
     bindC (task_means_from_raw rp stage label canonical d) (\<lambda>means.
     bindC (task_bond_from_raw stage label require_class d) (\<lambda>bond.
     returnC (Option.bind work (\<lambda>w. Option.bind place (\<lambda>p. Option.bind means (\<lambda>m. Option.bind bond (\<lambda>b.
       Some (task_of_parts w p m b))))))))))))"

definition role_from_raw :: "string \<Rightarrow> pyval \<Rightarrow> nat \<Rightarrow> role_profile option reader" where
  "role_from_raw stage raw index = (let label = ''role '' @ dec_nat index in
     object_reader stage label raw (\<lambda>d.
     bindC (known_fields stage label d ROLE_FIELDS REQUIRED_ROLE_FIELDS) (\<lambda>_.
     bindC (field_check stage label d plan_identifier ''id'' PNone) (\<lambda>role_id.
     bindC (field_check stage label d plan_string ''name'' PNone) (\<lambda>name.
     bindC (field_check stage label d plan_nonempty_strings ''responsibilities'' PNone) (\<lambda>duties.
     bindC (field_check stage label d validate_role_version ''version'' (PStr DEFAULT_ROLE_SPECIFICATION_VERSION)) (\<lambda>ver.
     bindC (field_check stage label d plan_strings ''domain_focus'' (PList [])) (\<lambda>focus.
     bindC (field_check stage label d plan_strings ''preferred_tools'' (PList [])) (\<lambda>tools.
     bindC (field_check stage label d plan_strings ''context_priorities'' (PList [])) (\<lambda>priorities.
     bindC (field_check stage label d plan_strings ''verification_expectations'' (PList [])) (\<lambda>expectations.
     bindC (field_check stage label d skill_references_from_raw ''skill_requirements'' (PList [])) (\<lambda>skills.
     returnC (Option.bind role_id (\<lambda>i. Option.bind name (\<lambda>n. Option.bind duties (\<lambda>ds. Option.bind ver (\<lambda>v.
       Option.bind focus (\<lambda>fs. Option.bind tools (\<lambda>ts. Option.bind priorities (\<lambda>ps.
       Option.bind expectations (\<lambda>es. Option.bind skills (\<lambda>ss.
       Some \<lparr>ro_id = i, ro_name = n, ro_responsibilities = ds, ro_version = v, ro_domain_focus = fs,
         ro_preferred_tools = ts, ro_context_priorities = ps, ro_verification_expectations = es,
         ro_skill_requirements = ss\<rparr>))))))))))))))))))))))"

section \<open>The header\<close>

definition model_strategy :: "(pyval \<Rightarrow> string) \<Rightarrow> string \<Rightarrow> pyval dict \<Rightarrow> string result" where
  "model_strategy rp profile d = (let strategy = str_of rp (py_or (get d ''model_strategy'')
       (PStr (if profile = ''adaptive'' then ''auto'' else ''host-settings''))) in
     if strategy \<notin> set STRATEGIES then Inl (ValueError ''model_strategy must be one of'' (sort STRATEGIES))
     else if profile = ''adaptive'' \<and> strategy = ''host-settings''
     then Inl (ValueError ''Adaptive profile requires auto, sol-only, or astra-only model_strategy'' [])
     else if profile = ''host-settings'' \<and> strategy \<noteq> ''host-settings''
     then Inl (ValueError ''Host Settings profile requires model_strategy=host-settings'' [])
     else Inr strategy)"

definition plan_header :: "(pyval \<Rightarrow> string) \<Rightarrow> string \<Rightarrow> bool \<Rightarrow> pyval dict \<Rightarrow> (string \<times> string \<times> string) result" where
  "plan_header rp profile require_request d = bindE (plan_string (get d ''goal'') ''plan.goal'') (\<lambda>goal.
     bindE (plan_string (if require_request then get d ''user_request''
       else get_default d ''user_request'' (PStr goal)) ''plan.user_request'') (\<lambda>request.
     bindE (model_strategy rp profile d) (\<lambda>strategy. Inr (goal, request, strategy))))"

end
