(* ===== verification/PlanRead.thy ===== *)
theory PlanRead
  imports PlanParse
begin

text \<open>
  What the plan readers return. Each entity has a type: the conditions its fields satisfy
  whenever the entity was read without a violation. And an entity of its type is read back,
  from the object the encoder of \<^verbatim>\<open>PlanCodec\<close> writes, as itself.
\<close>

section \<open>Values\<close>

named_theorems plan_read "what the readers of plan values return"
  and plan_round "what the readers of plan values accept"

lemma reject_unknown_Inr [simp]:
  "reject_unknown d allowed label required = Inr u \<longleftrightarrow> set (keys d) \<subseteq> set allowed"
proof -
  have "sorted_set xs = [] \<longleftrightarrow> xs = []" for xs
    using set_sorted_set [of xs] by (metis set_empty)
  then show ?thesis by (auto simp: reject_unknown_def filter_empty_conv)
qed

lemma plan_object_Inr [simp]: "plan_object v label = Inr d \<longleftrightarrow> v = PDict d"
  by (auto simp: plan_object_def split: pyval.splits)

lemma plan_array_Inr [simp]: "plan_array v label = Inr xs \<longleftrightarrow> v = PList xs"
  by (auto simp: plan_array_def split: pyval.splits)

lemma plan_boolean_Inr [simp]: "plan_boolean v label = Inr b \<longleftrightarrow> v = PBool b"
  by (auto simp: plan_boolean_def split: pyval.splits)

lemma bounded_int_Inr [simp]: "bounded_int lo hi v label = Inr n \<longleftrightarrow> v = PInt n \<and> lo \<le> n \<and> n \<le> hi"
  by (auto simp: bounded_int_def split: pyval.splits if_splits)

lemma without_duplicates_Inr [simp]: "without_duplicates xs label = Inr ys \<longleftrightarrow> ys = xs \<and> distinct xs"
  by (auto simp: without_duplicates_def)

lemma count_list_distinct: "distinct xs \<longleftrightarrow> (\<forall>x \<in> set xs. count_list xs x \<le> 1)"
proof (induction xs)
  case (Cons y xs)
  have "y \<notin> set xs \<longleftrightarrow> count_list xs y = 0" by (simp add: count_list_0_iff)
  with Cons show ?case by (force simp: count_list_0_iff)
qed simp

lemma duplicates_Nil: "duplicates xs = [] \<longleftrightarrow> distinct xs"
proof -
  have "duplicates xs = [] \<longleftrightarrow> set (duplicates xs) = {}" by (rule set_empty [symmetric])
  also have "\<dots> \<longleftrightarrow> distinct xs" by (auto simp: duplicates_def count_list_distinct not_less)
  finally show ?thesis .
qed

lemma validate_unique_Inr [simp]: "validate_unique xs label = Inr u \<longleftrightarrow> distinct xs"
  by (simp add: validate_unique_def duplicates_Nil)

lemma plan_string_read [plan_read]: "plan_string v label = Inr s \<Longrightarrow> stripped s"
  by (auto simp: plan_string_def stripped_strip split: pyval.splits if_splits)

lemma plan_string_round [plan_round]: "stripped s \<Longrightarrow> plan_string (PStr s) label = Inr s"
  by (auto simp: plan_string_def stripped_def)

lemma plan_identifier_read [plan_read]: "plan_identifier v label = Inr s \<Longrightarrow> id_ok s"
  by (auto simp: plan_identifier_def id_ok_def split: if_splits dest: plan_string_read)

lemma plan_identifier_round [plan_round]: "id_ok s \<Longrightarrow> plan_identifier (PStr s) label = Inr s"
  by (simp add: plan_identifier_def id_ok_def plan_string_round)

lemma plan_strings_read [plan_read]: "plan_strings v label = Inr ss \<Longrightarrow> strings_ok ss"
  by (auto simp: plan_strings_def strings_ok_def dest: mapE_all [where P = stripped] intro: plan_string_read)

lemma plan_strings_round [plan_round]: "strings_ok ss \<Longrightarrow> plan_strings (PStrs ss) label = Inr ss"
  "strings_ok ss \<Longrightarrow> plan_strings (PList (map PStr ss)) label = Inr ss"
proof -
  have "mapE (\<lambda>x. plan_string x (label @ '' item'')) (map PStr ss) = Inr ss" if "strings_ok ss"
    using that mapE_map [of ss "\<lambda>x. plan_string x (label @ '' item'')" PStr "\<lambda>s. s"]
    by (simp add: strings_ok_def plan_round)
  then show "strings_ok ss \<Longrightarrow> plan_strings (PStrs ss) label = Inr ss"
    "strings_ok ss \<Longrightarrow> plan_strings (PList (map PStr ss)) label = Inr ss"
    by (auto simp: plan_strings_def PStrs_def strings_ok_def)
qed

lemma plan_nonempty_strings_read [plan_read]:
  "plan_nonempty_strings v label = Inr ss \<Longrightarrow> strings_ok ss \<and> ss \<noteq> []"
  by (auto simp: plan_nonempty_strings_def split: if_splits dest: plan_strings_read)

lemma plan_nonempty_strings_round [plan_round]:
  "strings_ok ss \<Longrightarrow> ss \<noteq> [] \<Longrightarrow> plan_nonempty_strings (PStrs ss) label = Inr ss"
  by (simp add: plan_nonempty_strings_def plan_round)

definition ids_ok :: "string list \<Rightarrow> bool" where
  "ids_ok ss \<longleftrightarrow> distinct ss \<and> (\<forall>s \<in> set ss. id_ok s)"

lemma plan_identifiers_read [plan_read]: "plan_identifiers v label = Inr ss \<Longrightarrow> ids_ok ss"
  by (auto simp: plan_identifiers_def ids_ok_def dest: mapE_all [where P = id_ok] intro: plan_identifier_read)

lemma plan_identifiers_round [plan_round]: "ids_ok ss \<Longrightarrow> plan_identifiers (PStrs ss) label = Inr ss"
  "ids_ok ss \<Longrightarrow> plan_identifiers (PList (map PStr ss)) label = Inr ss"
proof -
  have "mapE (\<lambda>x. plan_identifier x (label @ '' item'')) (map PStr ss) = Inr ss" if "ids_ok ss"
    using that mapE_map [of ss "\<lambda>x. plan_identifier x (label @ '' item'')" PStr "\<lambda>s. s"]
    by (simp add: ids_ok_def plan_round)
  then show "ids_ok ss \<Longrightarrow> plan_identifiers (PStrs ss) label = Inr ss"
    "ids_ok ss \<Longrightarrow> plan_identifiers (PList (map PStr ss)) label = Inr ss"
    by (auto simp: plan_identifiers_def PStrs_def ids_ok_def)
qed

lemma unique_identifiers_read [plan_read]: "unique_identifiers name v label = Inr ss \<Longrightarrow> ids_ok ss"
  by (auto simp: unique_identifiers_def dest: plan_identifiers_read)

lemma unique_identifiers_round [plan_round]:
  "ids_ok ss \<Longrightarrow> unique_identifiers name (PList (map PStr ss)) label = Inr ss"
  by (simp add: unique_identifiers_def plan_round) (simp add: ids_ok_def)

lemma one_of_read [plan_read]: "one_of rp allowed v label = Inr s \<Longrightarrow> s \<in> set allowed"
  by (auto simp: one_of_def Let_def split: if_splits)

lemma one_of_round [plan_round]:
  "s \<in> set allowed \<Longrightarrow> stripped s \<Longrightarrow> one_of rp allowed (PStr s) label = Inr s"
  by (simp add: one_of_def)

lemma execution_mode_read [plan_read]: "execution_mode_of rp v label = Inr s \<Longrightarrow> s \<in> set EXECUTION_MODES"
  by (auto simp: execution_mode_of_def Let_def split: if_splits)

lemma constants_stripped:
  "s \<in> set EXECUTION_MODES \<Longrightarrow> stripped s" "s \<in> set VERIFICATION_POLICIES \<Longrightarrow> stripped s"
  "s \<in> set VERIFICATION_CHECK_KINDS \<Longrightarrow> stripped s" "s \<in> set RESOURCE_KINDS \<Longrightarrow> stripped s"
  "s \<in> set RESOURCE_ACCESS_MODES \<Longrightarrow> stripped s" "s \<in> set PUBLIC_REASONING \<Longrightarrow> stripped s"
  "s \<in> set EXECUTION_STRATEGIES \<Longrightarrow> stripped s"
  by (auto simp: EXECUTION_MODES_def VERIFICATION_POLICIES_def VERIFICATION_CHECK_KINDS_def RESOURCE_KINDS_def
      RESOURCE_ACCESS_MODES_def PUBLIC_REASONING_def EXECUTION_STRATEGIES_def stripped_def py_isspace_def)

lemma execution_mode_round [plan_round]:
  "s \<in> set EXECUTION_MODES \<Longrightarrow> execution_mode_of rp (PStr s) label = Inr s"
  by (simp add: execution_mode_of_def constants_stripped)

lemma normalize_read [plan_read]: "normalize_reasoning v = Inr s \<Longrightarrow> s \<in> set PUBLIC_REASONING"
  by (auto simp: normalize_reasoning_def ALIASES_def PUBLIC_REASONING_def split: option.splits if_splits)

lemma normalize_round [plan_round]: "s \<in> set PUBLIC_REASONING \<Longrightarrow> normalize_reasoning s = Inr s"
  by (auto simp: normalize_reasoning_def constants_stripped)
    (auto simp: ALIASES_def PUBLIC_REASONING_def lower_def lower_char_def split: option.splits)

definition role_version_ok :: "string \<Rightarrow> bool" where
  "role_version_ok s \<longleftrightarrow> version_shape s \<and> \<not> zeroed_prerelease s"

lemma role_version_read [plan_read]: "validate_role_version v label = Inr s \<Longrightarrow> role_version_ok s"
  by (auto simp: validate_role_version_def role_version_ok_def split: pyval.splits if_splits)

lemma role_version_round [plan_round]: "role_version_ok s \<Longrightarrow> validate_role_version (PStr s) label = Inr s"
  by (simp add: validate_role_version_def role_version_ok_def)

lemma acceptance_class_round [plan_round]:
  "acceptance_class_from_raw dflt (PStr (acceptance_value a)) label = Inr a"
  by (cases a) (auto simp: acceptance_class_from_raw_def stripped_def py_isspace_def)

section \<open>Fields\<close>

lemma grows_field [growing, intro]: "grows (field_check stage label d f name dflt)"
  unfolding field_check_def by (rule grows_check)

lemma grows_given [growing, intro]: "grows (given_check stage label d f name)"
  unfolding given_check_def by (intro growing)

lemma grows_known [growing, intro]: "grows (known_fields stage label d allowed required)"
  unfolding known_fields_def by (rule grows_check)

lemma grows_object [growing, intro]: "(\<And>d. grows (f d)) \<Longrightarrow> grows (object_reader stage label raw f)"
  unfolding object_reader_def by (intro growing)

lemma grows_items [growing, intro]: "(\<And>x i. grows (f x i)) \<Longrightarrow> grows (read_items stage label raw f item_id name)"
  unfolding read_items_def by (intro growing) (auto split: prod.split)

lemma field_fresh [reading]:
  "fresh c \<Longrightarrow> field_check stage label d f name dflt c = Inr (x, c)
     \<longleftrightarrow> (\<exists>v. f (get_default d name dflt) (label @ ''.'' @ name) = Inr v \<and> x = Some v)"
  unfolding field_check_def by (rule check_fresh)

lemma known_fresh [reading]:
  "fresh c \<Longrightarrow> known_fields stage label d allowed required c = Inr (x, c)
     \<longleftrightarrow> x = Some () \<and> set (keys d) \<subseteq> set allowed"
  unfolding known_fields_def by (auto simp: check_fresh)

lemma given_fresh [reading]:
  assumes "fresh c"
  shows "given_check stage label d f name c = Inr (x, c) \<longleftrightarrow>
     (if get d name = PNone then x = Some None
      else \<exists>v. f (get_default d name PNone) (label @ ''.'' @ name) = Inr v \<and> x = Some (Some v))"
  unfolding given_check_def using assms by (auto simp: bind_fresh growing reading)

lemma object_fresh [reading]:
  assumes "fresh c" "\<And>d. grows (f d)"
  shows "object_reader stage label raw f c = Inr (x, c) \<longleftrightarrow> (\<exists>d. raw = PDict d \<and> f d c = Inr (x, c))"
proof -
  have "object_reader stage label raw f c = Inr (x, c) \<longleftrightarrow>
    (\<exists>v. c_check stage label (plan_object raw label) c = Inr (v, c) \<and>
       (case v of None \<Rightarrow> returnC None | Some d \<Rightarrow> built (f d)) c = Inr (x, c))"
    unfolding object_reader_def using assms by (intro bind_fresh growing)
  also have "\<dots> \<longleftrightarrow> (\<exists>d. raw = PDict d \<and> f d c = Inr (x, c))"
    using assms(1) by (auto simp: check_fresh built_fresh)
  finally show ?thesis .
qed

lemma those_fresh:
  assumes c: "fresh c" and g: "\<And>p. grows (f p)" and f: "\<And>p. f p c \<noteq> Inr (None, c)"
  shows "bindC (mapC f ps) (\<lambda>ys. returnC (those ys)) c = Inr (w, c)
     \<longleftrightarrow> (\<exists>ys. w = Some ys \<and> list_all2 (\<lambda>p y. f p c = Inr (Some y, c)) ps ys)"
proof -
  have "bindC (mapC f ps) (\<lambda>ys. returnC (those ys)) c = Inr (w, c)
      \<longleftrightarrow> (\<exists>zs. list_all2 (\<lambda>p z. f p c = Inr (z, c)) ps zs \<and> w = those zs)"
    using c g by (subst bind_fresh) (auto simp: mapC_fresh reading)
  also have "\<dots> \<longleftrightarrow> (\<exists>ys. w = Some ys \<and> list_all2 (\<lambda>p y. f p c = Inr (Some y, c)) ps ys)"
  proof (induction ps arbitrary: w)
    case (Cons p ps)
    have some: "f p c = Inr (z, c) \<longleftrightarrow> (\<exists>y. z = Some y \<and> f p c = Inr (Some y, c))" for z
      using f [of p] by (cases z) auto
    have "(\<exists>zs. list_all2 (\<lambda>p z. f p c = Inr (z, c)) (p # ps) zs \<and> w = those zs)
        \<longleftrightarrow> (\<exists>z zs. f p c = Inr (z, c) \<and> list_all2 (\<lambda>p z. f p c = Inr (z, c)) ps zs \<and> w = those (z # zs))"
      unfolding list_all2_Cons1 by blast
    also have "\<dots> \<longleftrightarrow> (\<exists>y zs. f p c = Inr (Some y, c) \<and> list_all2 (\<lambda>p z. f p c = Inr (z, c)) ps zs
        \<and> w = map_option (Cons y) (those zs))"
      by (subst some) auto
    also have "\<dots> \<longleftrightarrow> (\<exists>y. f p c = Inr (Some y, c)
        \<and> (\<exists>w'. (\<exists>zs. list_all2 (\<lambda>p z. f p c = Inr (z, c)) ps zs \<and> w' = those zs) \<and> w = map_option (Cons y) w'))"
      by blast
    also have "\<dots> \<longleftrightarrow> (\<exists>ys. w = Some ys \<and> list_all2 (\<lambda>p y. f p c = Inr (Some y, c)) (p # ps) ys)"
      unfolding Cons.IH list_all2_Cons1 by (safe; force)
    finally show ?case .
  qed simp
  finally show ?thesis .
qed

lemma items_fresh:
  assumes c: "fresh c" and g: "\<And>x i. grows (f x i)" and f: "\<And>x i. f x i c \<noteq> Inr (None, c)"
  shows "read_items stage label raw f item_id name c = Inr (v, c) \<longleftrightarrow>
    (\<exists>xs ys. raw = PList xs \<and> v = Some ys
       \<and> list_all2 (\<lambda>p y. f (snd p) (fst p) c = Inr (Some y, c)) (enumerate_from_1 xs) ys \<and> distinct (map item_id ys))"
proof -
  let ?inner = "\<lambda>xs. built (bindC (mapC (\<lambda>(i, x). f x i) (enumerate_from_1 xs)) (\<lambda>ys. returnC (those ys)))"
  let ?tail = "\<lambda>w. case w of None \<Rightarrow> returnC None
    | Some items \<Rightarrow> bindC (c_check stage label (validate_unique (map item_id items) name)) (\<lambda>u.
        returnC (case u of None \<Rightarrow> None | Some _ \<Rightarrow> Some items))"
  have gi: "grows (?inner xs)" for xs
    using g by (intro growing) (simp add: case_prod_beta)
  have gt: "grows (?tail w)" for w
    by (intro growing)
  have inner: "?inner xs c = Inr (w, c) \<longleftrightarrow> (\<exists>ys. w = Some ys
      \<and> list_all2 (\<lambda>p y. f (snd p) (fst p) c = Inr (Some y, c)) (enumerate_from_1 xs) ys)" for xs w
    unfolding built_fresh case_prod_beta using c g f by (rule those_fresh)
  have tail: "?tail (Some ys) c = Inr (v, c) \<longleftrightarrow> v = Some ys \<and> distinct (map item_id ys)" for ys
    using c by (auto simp: bind_fresh [OF c grows_check grows_return] check_fresh return_fresh)
  have "read_items stage label raw f item_id name c = Inr (v, c) \<longleftrightarrow>
      (\<exists>xs. raw = PList xs \<and> bindC (?inner xs) ?tail c = Inr (v, c))"
  proof -
    have "grows (case v of None \<Rightarrow> returnC None | Some xs \<Rightarrow> bindC (?inner xs) ?tail)" for v
      using gi gt by (cases v) (auto intro: grows_bind)
    note step = bind_fresh [OF c grows_check this]
    show ?thesis unfolding read_items_def step check_fresh [OF c] by auto
  qed
  also have "\<dots> \<longleftrightarrow> (\<exists>xs ys. raw = PList xs \<and> v = Some ys
       \<and> list_all2 (\<lambda>p y. f (snd p) (fst p) c = Inr (Some y, c)) (enumerate_from_1 xs) ys \<and> distinct (map item_id ys))"
  proof -
    have "bindC (?inner xs) ?tail c = Inr (v, c) \<longleftrightarrow> (\<exists>ys.
        list_all2 (\<lambda>p y. f (snd p) (fst p) c = Inr (Some y, c)) (enumerate_from_1 xs) ys \<and> ?tail (Some ys) c = Inr (v, c))" for xs
      unfolding bind_fresh [OF c gi gt] inner by blast
    then show ?thesis unfolding tail by blast
  qed
  finally show ?thesis .
qed

section \<open>Entities\<close>

text \<open>
  The interface of a reader of one item: it only adds issues, what it reads without a violation
  has the item's type, and an item of the type is read back from its encoding.
\<close>

locale plan_reader =
  fixes rd :: "pyval \<Rightarrow> nat \<Rightarrow> 'a option reader"
    and enc :: "'a \<Rightarrow> pyval"
    and ok :: "'a \<Rightarrow> bool"
  assumes only_adds: "grows (rd v i)"
    and has_type: "fresh c \<Longrightarrow> rd v i c = Inr (x, c) \<Longrightarrow> \<exists>r. x = Some r \<and> ok r"
    and reads_back: "fresh c \<Longrightarrow> ok r \<Longrightarrow> rd (enc r) i c = Inr (Some r, c)"
begin

lemma never_None: "fresh c \<Longrightarrow> rd v i c \<noteq> Inr (None, c)"
  using has_type [of c v i None] by auto

lemma items_have_type:
  assumes c: "fresh c" and r: "read_items stage label raw rd item_id name c = Inr (v, c)"
  shows "\<exists>ys. v = Some ys \<and> (\<forall>y \<in> set ys. ok y) \<and> distinct (map item_id ys)"
proof -
  have "list_all2 (\<lambda>p y. rd (snd p) (fst p) c = Inr (Some y, c)) ps ys \<Longrightarrow> \<forall>y \<in> set ys. ok y" for ps ys
    by (induction rule: list_all2_induct) (use has_type [OF c] in auto)
  with r show ?thesis unfolding items_fresh [OF c only_adds never_None [OF c]] by blast
qed

lemma items_read_back:
  assumes c: "fresh c" and ok: "\<forall>y \<in> set ys. ok y" and d: "distinct (map item_id ys)"
  shows "read_items stage label (PList (map enc ys)) rd item_id name c = Inr (Some ys, c)"
proof -
  have "list_all2 (\<lambda>p y. rd (snd p) (fst p) c = Inr (Some y, c)) (enumerate_from_1 (map enc ys)) ys"
    using ok by (auto simp: list_all2_conv_all_nth enumerate_from_1_def simp del: upt_Suc intro!: reads_back [OF c])
  with d show ?thesis unfolding items_fresh [OF c only_adds never_None [OF c]] by blast
qed

end

abbreviation opt_stripped :: "string option \<Rightarrow> bool" where
  "opt_stripped \<equiv> pred_option stripped"

lemma opt_field_stripped:
  "opt_stripped v \<Longrightarrow> opt_field k v = (case v of None \<Rightarrow> [] | Some s \<Rightarrow> [(k, PStr s)])"
  by (auto simp: opt_field_def stripped_def split: option.splits)

definition resource_typed :: "resource_claim \<Rightarrow> bool" where
  "resource_typed r \<longleftrightarrow> id_ok (rc_id r) \<and> rc_kind r \<in> set RESOURCE_KINDS \<and> stripped (rc_target r)
     \<and> rc_access r \<in> set RESOURCE_ACCESS_MODES \<and> opt_stripped (rc_description r)"

interpretation resource_reader: plan_reader "resource_from_raw rp stage parent" resource_to_dict resource_typed
  for rp stage parent
proof
  fix v i show "grows (resource_from_raw rp stage parent v i)"
    unfolding resource_from_raw_def Let_def by (intro growing)
next
  fix c v i x assume "fresh c" "resource_from_raw rp stage parent v i c = Inr (x, c)"
  then show "\<exists>r. x = Some r \<and> resource_typed r"
    by (auto simp: resource_from_raw_def Let_def object_fresh bind_fresh growing reading resource_typed_def
        split: if_split_asm dest: plan_read)
next
  fix c :: collector and r :: resource_claim and i assume "fresh c" "resource_typed r"
  then show "resource_from_raw rp stage parent (resource_to_dict r) i c = Inr (Some r, c)"
    by (auto simp: resource_from_raw_def Let_def object_fresh bind_fresh growing reading resource_typed_def
        resource_to_dict_def opt_field_stripped RESOURCE_FIELDS_def get_def get_default_def plan_round constants_stripped
        split: option.splits)
qed

definition output_typed :: "task_output \<Rightarrow> bool" where
  "output_typed u \<longleftrightarrow> id_ok (ou_id u) \<and> stripped (ou_description u) \<and> opt_stripped (ou_path u)"

interpretation output_reader: plan_reader "output_from_raw stage parent" output_to_dict output_typed
  for stage parent
proof
  fix v i show "grows (output_from_raw stage parent v i)"
    unfolding output_from_raw_def Let_def by (intro growing)
next
  fix c v i x assume "fresh c" "output_from_raw stage parent v i c = Inr (x, c)"
  then show "\<exists>r. x = Some r \<and> output_typed r"
    by (auto simp: output_from_raw_def Let_def object_fresh bind_fresh growing reading output_typed_def
        split: if_split_asm dest: plan_read)
next
  fix c :: collector and r :: task_output and i assume "fresh c" "output_typed r"
  then show "output_from_raw stage parent (output_to_dict r) i c = Inr (Some r, c)"
    by (auto simp: output_from_raw_def Let_def object_fresh bind_fresh growing reading output_typed_def
        output_to_dict_def opt_field_stripped OUTPUT_FIELDS_def get_def get_default_def plan_round
        split: option.splits)
qed

definition shape_typed :: "string \<Rightarrow> string list \<Rightarrow> string option \<Rightarrow> bool" where
  "shape_typed kind argv path \<longleftrightarrow> kind \<in> set VERIFICATION_CHECK_KINDS \<and> strings_ok argv \<and> opt_stripped path
     \<and> (kind = ''command'' \<longleftrightarrow> argv \<noteq> []) \<and> (kind = ''artifact'' \<longleftrightarrow> path \<noteq> None)"

lemma check_shape_read [plan_read]: "check_shape rp d label = Inr (kind, argv, path) \<Longrightarrow> shape_typed kind argv path"
  by (auto simp: check_shape_def shape_typed_def split: if_split_asm dest: plan_read)

definition plan_check_typed :: "verification_check \<Rightarrow> bool" where
  "plan_check_typed k \<longleftrightarrow> id_ok (vc_id k) \<and> stripped (vc_description k)
     \<and> shape_typed (vc_kind k) (vc_argv k) (vc_path k)
     \<and> 1 \<le> vc_timeout_seconds k \<and> vc_timeout_seconds k \<le> 86400
     \<and> -255 \<le> vc_expected_exit_code k \<and> vc_expected_exit_code k \<le> 255"

lemma check_shape_round:
  assumes "shape_typed kind argv path"
    and "get_default d ''kind'' (PStr []) = PStr kind"
    and "get_default d ''argv'' (PList []) = PList (map PStr argv)"
    and "get d ''path'' = (case path of None \<Rightarrow> PNone | Some p \<Rightarrow> PStr p)"
  shows "check_shape rp d label = Inr (kind, argv, path)"
  using assms by (auto simp: check_shape_def shape_typed_def plan_round constants_stripped split: option.splits)

interpretation check_reader: plan_reader "plan_check_from_raw rp stage parent" check_to_dict plan_check_typed
  for rp stage parent
proof
  fix v i show "grows (plan_check_from_raw rp stage parent v i)"
    unfolding plan_check_from_raw_def Let_def by (intro growing)
next
  fix c v i x assume "fresh c" "plan_check_from_raw rp stage parent v i c = Inr (x, c)"
  then show "\<exists>r. x = Some r \<and> plan_check_typed r"
    by (auto simp: plan_check_from_raw_def Let_def object_fresh bind_fresh growing reading plan_check_typed_def
        split: if_split_asm dest: plan_read)
next
  fix c :: collector and r :: verification_check and i assume c: "fresh c" and r: "plan_check_typed r"
  obtain d where d: "check_to_dict r = PDict d" by (simp add: check_to_dict_def)
  have gets: "get d ''id'' = PStr (vc_id r)" "get_default d ''kind'' (PStr []) = PStr (vc_kind r)"
    "get d ''description'' = PStr (vc_description r)" "get_default d ''argv'' (PList []) = PList (map PStr (vc_argv r))"
    "get d ''path'' = (case vc_path r of None \<Rightarrow> PNone | Some p \<Rightarrow> PStr p)"
    "get_default d ''timeout_seconds'' (PInt 300) = PInt (vc_timeout_seconds r)"
    "get_default d ''expected_exit_code'' (PInt 0) = PInt (vc_expected_exit_code r)"
    "get_default d ''id'' PNone = PStr (vc_id r)" "get_default d ''description'' PNone = PStr (vc_description r)"
    "fst ` set d \<subseteq> set CHECK_FIELDS"
    using d r by (auto simp: check_to_dict_def get_def get_default_def plan_check_typed_def shape_typed_def
        opt_field_stripped some_list_def CHECK_FIELDS_def split: option.splits)
  have shape: "check_shape rp d label = Inr (vc_kind r, vc_argv r, vc_path r)" for label
    using r gets by (intro check_shape_round) (auto simp: plan_check_typed_def)
  show "plan_check_from_raw rp stage parent (check_to_dict r) i c = Inr (Some r, c)"
    using c r unfolding d plan_check_from_raw_def Let_def
    by (simp add: object_fresh bind_fresh growing reading gets shape plan_round plan_check_typed_def)
qed

lemma references_read [plan_read]:
  "skill_references_from_raw v label = Inr rs \<Longrightarrow> (\<forall>r \<in> set rs. reference_ok r) \<and> distinct rs"
  by (auto simp: skill_references_from_raw_def dest: reference_codec.all_ok)

lemma references_round [plan_round]:
  "\<forall>r \<in> set rs. reference_ok r \<Longrightarrow> distinct rs
     \<Longrightarrow> skill_references_from_raw (PList (map skill_reference_to_dict rs)) label = Inr rs"
  by (simp add: skill_references_from_raw_def array_of_def reference_codec.dec_all)

definition role_typed :: "role_profile \<Rightarrow> bool" where
  "role_typed r \<longleftrightarrow> id_ok (ro_id r) \<and> stripped (ro_name r) \<and> strings_ok (ro_responsibilities r)
     \<and> ro_responsibilities r \<noteq> [] \<and> role_version_ok (ro_version r) \<and> strings_ok (ro_domain_focus r)
     \<and> strings_ok (ro_preferred_tools r) \<and> strings_ok (ro_context_priorities r)
     \<and> strings_ok (ro_verification_expectations r)
     \<and> (\<forall>s \<in> set (ro_skill_requirements r). reference_ok s) \<and> distinct (ro_skill_requirements r)"

lemma role_gets:
  assumes "role_profile_to_dict r = PDict d"
  shows "get_default d ''id'' PNone = PStr (ro_id r)" "get_default d ''name'' PNone = PStr (ro_name r)"
    "get_default d ''version'' v = PStr (ro_version r)"
    "get_default d ''responsibilities'' PNone = PStrs (ro_responsibilities r)"
    "get_default d ''domain_focus'' (PList []) = PStrs (ro_domain_focus r)"
    "get_default d ''preferred_tools'' (PList []) = PStrs (ro_preferred_tools r)"
    "get_default d ''context_priorities'' (PList []) = PStrs (ro_context_priorities r)"
    "get_default d ''verification_expectations'' (PList []) = PStrs (ro_verification_expectations r)"
    "get_default d ''skill_requirements'' (PList []) = PList (map skill_reference_to_dict (ro_skill_requirements r))"
    "fst ` set d \<subseteq> set ROLE_FIELDS"
  using assms unfolding role_profile_to_dict_def pyval.inject
  by (auto simp: get_default_def map_add_def PStrs_def ROLE_FIELDS_def some_list_def split: if_splits)

interpretation role_reader: plan_reader "role_from_raw stage" role_profile_to_dict role_typed for stage
proof
  fix v i show "grows (role_from_raw stage v i)"
    unfolding role_from_raw_def Let_def by (intro growing)
next
  fix c v i x assume "fresh c" "role_from_raw stage v i c = Inr (x, c)"
  then show "\<exists>r. x = Some r \<and> role_typed r"
    by (clarsimp simp: role_from_raw_def Let_def object_fresh bind_fresh growing reading role_typed_def)
      (intro conjI; blast dest: plan_read)
next
  fix c :: collector and r :: role_profile and i assume c: "fresh c" and r: "role_typed r"
  obtain d where d: "role_profile_to_dict r = PDict d" by (simp add: role_profile_to_dict_def)
  show "role_from_raw stage (role_profile_to_dict r) i c = Inr (Some r, c)"
    using c r unfolding d role_from_raw_def Let_def
    by (simp add: object_fresh bind_fresh growing reading role_gets [OF d] plan_round role_typed_def)
qed

section \<open>Verification policies and contexts\<close>

lemma grows_checks_required [growing, intro]: "grows (checks_required stage label policy required checks)"
  unfolding checks_required_def by (intro growing)

lemma checks_required_fresh [reading]:
  "fresh c \<Longrightarrow> checks_required stage label policy required checks c = Inr (x, c)
     \<longleftrightarrow> \<not> (policy = Some ''deterministic'' \<and> required = Some True \<and> checks = Some [])"
  by (auto simp: checks_required_def reading)

definition pair_typed :: "string option \<Rightarrow> string option \<Rightarrow> bool" where
  "pair_typed mode reason \<longleftrightarrow> pred_option (\<lambda>m. m \<in> set EXECUTION_MODES) mode \<and> opt_stripped reason
     \<and> (mode = None \<longleftrightarrow> reason = None)"

lemma execution_pair_read [plan_read]: "execution_pair rp d label = Inr (mode, reason) \<Longrightarrow> pair_typed mode reason"
  by (auto simp: execution_pair_def pair_typed_def split: if_split_asm dest: plan_read)

lemma execution_pair_round:
  assumes "pair_typed mode reason"
    and "get d ''execution_mode'' = (case mode of None \<Rightarrow> PNone | Some m \<Rightarrow> PStr m)"
    and "get d ''execution_mode_reason'' = (case reason of None \<Rightarrow> PNone | Some r \<Rightarrow> PStr r)"
  shows "execution_pair rp d label = Inr (mode, reason)"
  using assms by (cases mode; cases reason) (auto simp: execution_pair_def pair_typed_def plan_round)

lemma policy_read [plan_read]: "policy_of rp d label = Inr p \<Longrightarrow> p \<in> set VERIFICATION_POLICIES"
  by (auto simp: policy_of_def split: if_split_asm dest: plan_read)

definition verification_typed :: "string \<Rightarrow> verification_policy \<Rightarrow> bool" where
  "verification_typed profile v \<longleftrightarrow> vp_policy v \<in> set VERIFICATION_POLICIES
     \<and> (\<forall>k \<in> set (vp_deterministic_checks v). plan_check_typed k) \<and> distinct (map vc_id (vp_deterministic_checks v))
     \<and> (vp_policy v = ''deterministic'' \<and> vp_required v \<longrightarrow> vp_deterministic_checks v \<noteq> [])
     \<and> pred_option id_ok (vp_verifier_role v) \<and> pair_typed (vp_execution_mode v) (vp_execution_mode_reason v)
     \<and> pred_option (\<lambda>r. profile = ''adaptive'' \<and> r \<in> set PUBLIC_REASONING) (vp_reasoning v)
     \<and> 0 \<le> vp_max_revision_attempts v \<and> vp_max_revision_attempts v \<le> 100"

lemma verification_reasoning_read [plan_read]:
  "verification_reasoning rp profile d = Inr r \<Longrightarrow> profile = ''adaptive'' \<and> r \<in> set PUBLIC_REASONING"
  by (auto simp: verification_reasoning_def split: if_split_asm dest: plan_read)

lemma grows_reasoning_check [growing, intro]: "grows (verification_reasoning_check rp stage profile label d)"
  unfolding verification_reasoning_check_def by (intro growing)

lemma grows_verification [growing, intro]: "grows (verification_from_raw rp stage profile label raw)"
  unfolding verification_from_raw_def by (intro growing check_reader.only_adds)

text \<open>A reader that, without a violation, has read a value.\<close>

definition has_read :: "'a option reader \<Rightarrow> collector \<Rightarrow> 'a \<Rightarrow> bool" where
  "has_read m c y \<longleftrightarrow> m c = Inr (Some y, c)"

lemma has_readI: "(m c \<noteq> Inr (None, c)) \<Longrightarrow> m c = Inr (x, c) \<longleftrightarrow> (\<exists>y. x = Some y \<and> has_read m c y)"
  by (cases x) (auto simp: has_read_def)

lemma given_has_read:
  "fresh c \<Longrightarrow> given_check stage label d f name c = Inr (x, c)
     \<longleftrightarrow> (\<exists>y. x = Some y \<and> has_read (given_check stage label d f name) c y)"
  by (rule has_readI) (simp add: given_fresh)

lemma checks_have_read:
  "fresh c \<Longrightarrow> read_items stage l raw (plan_check_from_raw rp stage label) vc_id name c = Inr (x, c)
     \<longleftrightarrow> (\<exists>y. x = Some y \<and> has_read (read_items stage l raw (plan_check_from_raw rp stage label) vc_id name) c y)"
  by (rule has_readI) (auto dest: check_reader.items_have_type)

lemma reasoning_has_read:
  "fresh c \<Longrightarrow> verification_reasoning_check rp stage profile label d c = Inr (x, c)
     \<longleftrightarrow> (\<exists>y. x = Some y \<and> has_read (verification_reasoning_check rp stage profile label d) c y)"
  by (rule has_readI) (auto simp: verification_reasoning_check_def bind_fresh growing reading)

lemma given_identifier_read:
  "fresh c \<Longrightarrow> has_read (given_check stage label d plan_identifier name) c v \<Longrightarrow> pred_option id_ok v"
  by (auto simp: has_read_def given_fresh split: if_split_asm dest: plan_read)

lemma reasoning_check_read:
  "fresh c \<Longrightarrow> has_read (verification_reasoning_check rp stage profile label d) c v
     \<Longrightarrow> pred_option (\<lambda>r. profile = ''adaptive'' \<and> r \<in> set PUBLIC_REASONING) v"
  by (auto simp: has_read_def verification_reasoning_check_def bind_fresh growing reading split: if_split_asm
      dest: plan_read)

lemma checks_read:
  "fresh c \<Longrightarrow> has_read (read_items stage l raw (plan_check_from_raw rp stage label) vc_id name) c ys
     \<Longrightarrow> (\<forall>y \<in> set ys. plan_check_typed y) \<and> distinct (map vc_id ys)"
  unfolding has_read_def by (drule (1) check_reader.items_have_type) simp

lemmas verification_steps = object_fresh bind_fresh growing check_reader.only_adds field_fresh known_fresh
  check_fresh checks_required_fresh return_fresh failed_text_def

lemma verification_read:
  assumes c: "fresh c" and r: "verification_from_raw rp stage profile label raw c = Inr (x, c)"
  shows "\<exists>v. x = Some v \<and> verification_typed profile v"
  using r c
  by (clarsimp simp: verification_from_raw_def verification_steps given_has_read checks_have_read reasoning_has_read)
    (auto simp: verification_typed_def dest: plan_read checks_read reasoning_check_read given_identifier_read)

lemma verification_gets:
  assumes "verification_to_dict v = PDict d" "verification_typed profile v"
  shows "get_default d ''policy'' (PStr []) = PStr (vp_policy v)"
    "get_default d ''required'' (PBool True) = PBool (vp_required v)"
    "get_default d ''deterministic_checks'' (PList []) = PList (map check_to_dict (vp_deterministic_checks v))"
    "get d ''verifier_role'' = (case vp_verifier_role v of None \<Rightarrow> PNone | Some s \<Rightarrow> PStr s)"
    "get_default d ''verifier_role'' PNone = (case vp_verifier_role v of None \<Rightarrow> PNone | Some s \<Rightarrow> PStr s)"
    "get d ''execution_mode'' = (case vp_execution_mode v of None \<Rightarrow> PNone | Some m \<Rightarrow> PStr m)"
    "get d ''execution_mode_reason'' = (case vp_execution_mode_reason v of None \<Rightarrow> PNone | Some m \<Rightarrow> PStr m)"
    "get d ''reasoning'' = (case vp_reasoning v of None \<Rightarrow> PNone | Some m \<Rightarrow> PStr m)"
    "get_default d ''max_revision_attempts'' (PInt 2) = PInt (vp_max_revision_attempts v)"
    "''reasoning'' \<in> fst ` set d \<longleftrightarrow> vp_reasoning v \<noteq> None" "''max_revision_attempts'' \<in> fst ` set d"
    "fst ` set d \<subseteq> set VERIFICATION_FIELDS"
proof -
  have o: "opt_field ''verifier_role'' (vp_verifier_role v)
       = (case vp_verifier_role v of None \<Rightarrow> [] | Some s \<Rightarrow> [(''verifier_role'', PStr s)])"
    "opt_field ''execution_mode'' (vp_execution_mode v)
       = (case vp_execution_mode v of None \<Rightarrow> [] | Some s \<Rightarrow> [(''execution_mode'', PStr s)])"
    "opt_field ''execution_mode_reason'' (vp_execution_mode_reason v)
       = (case vp_execution_mode_reason v of None \<Rightarrow> [] | Some s \<Rightarrow> [(''execution_mode_reason'', PStr s)])"
    "opt_field ''reasoning'' (vp_reasoning v)
       = (case vp_reasoning v of None \<Rightarrow> [] | Some s \<Rightarrow> [(''reasoning'', PStr s)])"
    using assms(2) unfolding verification_typed_def pair_typed_def
    by (auto intro!: opt_field_stripped simp: id_ok_def pred_option_def constants_stripped)
  note d = assms(1) [unfolded verification_to_dict_def pyval.inject o, symmetric]
  show "get_default d ''policy'' (PStr []) = PStr (vp_policy v)"
    "get_default d ''required'' (PBool True) = PBool (vp_required v)"
    "get_default d ''deterministic_checks'' (PList []) = PList (map check_to_dict (vp_deterministic_checks v))"
    by (simp_all add: d get_default_def)
  show "get d ''verifier_role'' = (case vp_verifier_role v of None \<Rightarrow> PNone | Some s \<Rightarrow> PStr s)"
    "get_default d ''verifier_role'' PNone = (case vp_verifier_role v of None \<Rightarrow> PNone | Some s \<Rightarrow> PStr s)"
    "get d ''execution_mode'' = (case vp_execution_mode v of None \<Rightarrow> PNone | Some m \<Rightarrow> PStr m)"
    "get d ''execution_mode_reason'' = (case vp_execution_mode_reason v of None \<Rightarrow> PNone | Some m \<Rightarrow> PStr m)"
    "get d ''reasoning'' = (case vp_reasoning v of None \<Rightarrow> PNone | Some m \<Rightarrow> PStr m)"
    "get_default d ''max_revision_attempts'' (PInt 2) = PInt (vp_max_revision_attempts v)"
    by (simp_all add: d get_def get_default_def map_add_def split: option.splits)
  show "''reasoning'' \<in> fst ` set d \<longleftrightarrow> vp_reasoning v \<noteq> None" "''max_revision_attempts'' \<in> fst ` set d"
    by (cases "vp_reasoning v"; auto simp: d split: option.splits)+
  show "fst ` set d \<subseteq> set VERIFICATION_FIELDS"
    by (auto simp: d VERIFICATION_FIELDS_def split: option.splits)
qed

lemma verification_round:
  assumes c: "fresh c" and v: "verification_typed profile v"
  shows "verification_from_raw rp stage profile label (verification_to_dict v) c = Inr (Some v, c)"
proof -
  obtain d where d: "verification_to_dict v = PDict d" by (simp add: verification_to_dict_def)
  note gets = verification_gets [OF d v]
  have "policy_of rp d label = Inr (vp_policy v)"
    using v gets by (simp add: policy_of_def verification_typed_def plan_round constants_stripped)
  moreover have "read_items stage (label @ ''.deterministic_checks'') (PList (map check_to_dict (vp_deterministic_checks v)))
       (plan_check_from_raw rp stage label) vc_id (label @ '' check id'') c = Inr (Some (vp_deterministic_checks v), c)"
    using v by (intro check_reader.items_read_back [OF c]) (auto simp: verification_typed_def)
  moreover have "given_check stage label d plan_identifier ''verifier_role'' c = Inr (Some (vp_verifier_role v), c)"
    using v c gets by (cases "vp_verifier_role v") (auto simp: given_fresh verification_typed_def plan_round)
  moreover have "execution_pair rp d label = Inr (vp_execution_mode v, vp_execution_mode_reason v)"
    using v gets by (intro execution_pair_round) (auto simp: verification_typed_def)
  moreover have "verification_reasoning_check rp stage profile label d c = Inr (Some (vp_reasoning v), c)"
    using v c gets by (cases "vp_reasoning v") (auto simp: verification_reasoning_check_def bind_fresh growing
        reading verification_typed_def verification_reasoning_def plan_round)
  ultimately show ?thesis
    using c v by (simp add: d verification_from_raw_def verification_steps gets verification_typed_def) 
qed

definition context_typed :: "task_context \<Rightarrow> bool" where
  "context_typed x \<longleftrightarrow> strings_ok (cx_memory_queries x) \<and> strings_ok (cx_memory_record_ids x)
     \<and> ids_ok (cx_dependency_outputs x)
     \<and> 0 \<le> cx_max_memory_records x \<and> cx_max_memory_records x \<le> 100
     \<and> 0 \<le> cx_max_dependency_outputs x \<and> cx_max_dependency_outputs x \<le> 100"

lemma empty_context_typed: "context_typed empty_context"
  by (simp add: context_typed_def empty_context_def strings_ok_def ids_ok_def DEFAULT_MAX_MEMORY_RECORDS_def
      DEFAULT_MAX_DEPENDENCY_OUTPUTS_def)

lemma grows_context [growing, intro]: "grows (context_from_raw stage parent raw)"
  unfolding context_from_raw_def Let_def by (intro growing)

lemma context_read:
  "fresh c \<Longrightarrow> context_from_raw stage parent raw c = Inr (x, c) \<Longrightarrow> \<exists>v. x = Some v \<and> context_typed v"
  using empty_context_typed
  by (clarsimp simp: context_from_raw_def Let_def object_fresh bind_fresh growing reading split: if_split_asm)
    (auto simp: context_typed_def dest: plan_read)

lemma context_round:
  "fresh c \<Longrightarrow> context_typed v \<Longrightarrow> context_from_raw stage parent (context_to_dict v) c = Inr (Some v, c)"
  by (simp add: context_from_raw_def Let_def object_fresh bind_fresh growing reading context_to_dict_def
      get_default_def CONTEXT_FIELDS_def context_typed_def plan_round)

end
