(* ===== verification/PlanTasks.thy ===== *)
theory PlanTasks
  imports PlanRead
begin

text \<open>
  Whole tasks: the type of what \<^verbatim>\<open>task_from_raw\<close> reads without a violation, group of fields by
  group, and the round trip through the encoder.
\<close>

section \<open>Skill attestations\<close>

definition attestation_typed :: "skill_attestation \<Rightarrow> bool" where
  "attestation_typed a \<longleftrightarrow> choice_ok SKILL_ATTESTATION_KINDS (sa_kind a) \<and> reference_ok (sa_skill a)
     \<and> ids_ok (sa_evidence_roles a)
     \<and> (\<forall>e \<in> set (sa_promotion_evidence a). requirement_ok e) \<and> distinct (map se_role (sa_promotion_evidence a))
     \<and> (if sa_kind a = ''source'' then sa_evidence_roles a \<noteq> [] \<and> sa_promotion_evidence a = []
        else if sa_kind a = ''promotion'' then sa_promotion_evidence a \<noteq> [] \<and> sa_evidence_roles a = []
        else sa_evidence_roles a = [] \<and> sa_promotion_evidence a = [])"

lemma check_attestation_kind_Inr: "check_attestation_kind kind roles promotion label = Inr u \<longleftrightarrow>
   (if kind = ''source'' then roles \<noteq> [] \<and> promotion = []
    else if kind = ''promotion'' then promotion \<noteq> [] \<and> roles = []
    else roles = [] \<and> promotion = [])"
  by (auto simp: check_attestation_kind_def)

lemma skill_ids_read: "mapE (\<lambda>x. skill_identifier x label) xs = Inr ys \<Longrightarrow> \<forall>y \<in> set ys. id_ok y"
  by (rule mapE_all) (auto dest: skill_identifier_read)

lemma attestation_read [plan_read]:
  assumes "skill_attestation_from_raw v label = Inr a"
  shows "pred_option attestation_typed a"
proof (cases "v = PNone")
  case True
  with assms show ?thesis by (simp add: skill_attestation_from_raw_def)
next
  case False
  with assms obtain d kind skill xs roles ys promotion where
      kind: "choice_of (get d ''kind'') SKILL_ATTESTATION_KINDS label = Inr kind"
    and skill: "skill_reference_from_raw (get d ''skill'') label = Inr skill"
    and roles: "mapE (\<lambda>x. skill_identifier x label) xs = Inr roles" "distinct roles"
    and promotion: "mapE (\<lambda>x. skill_evidence_requirement_from_raw x label) ys = Inr promotion"
      "distinct (map se_role promotion)"
    and fits: "check_attestation_kind kind roles promotion label = Inr ()"
    and a: "a = Some \<lparr>sa_kind = kind, sa_skill = skill, sa_evidence_roles = roles, sa_promotion_evidence = promotion\<rparr>"
    unfolding skill_attestation_from_raw_def by auto
  have "choice_ok SKILL_ATTESTATION_KINDS kind" "reference_ok skill"
    using kind skill by (auto dest: choice_of_read reference_codec.dec_ok)
  moreover have "\<forall>e \<in> set promotion. requirement_ok e" by (rule requirement_codec.all_ok [OF promotion(1)])
  ultimately show ?thesis
    using roles promotion(2) fits [unfolded check_attestation_kind_Inr] skill_ids_read [OF roles(1)]
    by (simp add: a attestation_typed_def ids_ok_def)
qed

lemma attestation_round [plan_round]:
  assumes a: "attestation_typed a"
  shows "skill_attestation_from_raw (skill_attestation_to_dict a) label = Inr (Some a)"
proof -
  obtain d where d: "skill_attestation_to_dict a = PDict d" by (simp add: skill_attestation_to_dict_def)
  have gets: "get d ''kind'' = PStr (sa_kind a)" "get d ''skill'' = skill_reference_to_dict (sa_skill a)"
    "get_default d ''evidence_roles'' (PList []) = PList (map PStr (sa_evidence_roles a))"
    "get_default d ''promotion_evidence'' (PList [])
       = PList (map skill_evidence_requirement_to_dict (sa_promotion_evidence a))"
    using d by (auto simp: skill_attestation_to_dict_def get_def get_default_def map_add_def)
  have known: "reject_unknown_fields d [''kind'', ''skill'', ''evidence_roles'', ''promotion_evidence''] label = Inr ()"
    using d by (auto simp: skill_attestation_to_dict_def reject_unknown_fields_def some_list_def)
  have roles: "mapE (\<lambda>x. skill_identifier x label) (map PStr (sa_evidence_roles a)) = Inr (sa_evidence_roles a)"
    using a mapE_map [of "sa_evidence_roles a" "\<lambda>x. skill_identifier x label" PStr "\<lambda>s. s"]
    by (simp add: attestation_typed_def ids_ok_def skill_round)
  have promotion: "mapE (\<lambda>x. skill_evidence_requirement_from_raw x label)
      (map skill_evidence_requirement_to_dict (sa_promotion_evidence a)) = Inr (sa_promotion_evidence a)"
    using a by (intro requirement_codec.dec_all) (simp add: attestation_typed_def)
  have skill: "skill_reference_from_raw (skill_reference_to_dict (sa_skill a)) label = Inr (sa_skill a)"
    using a by (intro reference_codec.round_trip) (simp add: attestation_typed_def)
  have kind: "check_attestation_kind (sa_kind a) (sa_evidence_roles a) (sa_promotion_evidence a) label = Inr ()"
    using a unfolding check_attestation_kind_Inr attestation_typed_def by blast
  show ?thesis
    using a unfolding skill_attestation_from_raw_def d
    by (simp add: object_of_def known gets array_default_def array_of_def roles promotion skill kind
        attestation_typed_def ids_ok_def skill_round)
qed

section \<open>Tasks\<close>

definition reasoning_typed :: "string \<Rightarrow> string option \<Rightarrow> bool" where
  "reasoning_typed profile r \<longleftrightarrow>
     (if profile = ''adaptive'' then r \<noteq> None \<and> pred_option (\<lambda>s. s \<in> set PUBLIC_REASONING) r else r = None)"

lemma task_reasoning_read [plan_read]: "task_reasoning rp profile d label = Inr r \<Longrightarrow> reasoning_typed profile r"
  by (auto simp: task_reasoning_def reasoning_typed_def split: if_split_asm dest: plan_read)

lemma task_reasoning_round:
  assumes "reasoning_typed profile r"
    and "get d ''reasoning'' = (case r of None \<Rightarrow> PNone | Some s \<Rightarrow> PStr s)"
    and "''reasoning'' \<in> fst ` set d \<longleftrightarrow> r \<noteq> None"
  shows "task_reasoning rp profile d label = Inr r"
  using assms by (cases r) (auto simp: task_reasoning_def reasoning_typed_def plan_round split: if_split_asm)

definition task_typed :: "string \<Rightarrow> task \<Rightarrow> bool" where
  "task_typed profile t \<longleftrightarrow> id_ok (t_id t) \<and> stripped (t_title t) \<and> stripped (t_objective t)
     \<and> (strings_ok (t_definition_of_done t) \<and> t_definition_of_done t \<noteq> [])
     \<and> t_execution_mode t \<in> set EXECUTION_MODES \<and> stripped (t_execution_mode_reason t)
     \<and> reasoning_typed profile (t_reasoning t) \<and> id_ok (t_role t) \<and> ids_ok (t_depends_on t)
     \<and> (-1000000 \<le> t_priority t \<and> t_priority t \<le> 1000000)
     \<and> verification_typed profile (t_verification t)
     \<and> ((\<forall>r \<in> set (t_resources t). resource_typed r) \<and> distinct (map rc_id (t_resources t)))
     \<and> strings_ok (t_required_capabilities t) \<and> context_typed (t_context t)
     \<and> ((\<forall>u \<in> set (t_outputs t). output_typed u) \<and> distinct (map ou_id (t_outputs t)))
     \<and> strings_ok (t_tags t) \<and> ids_ok (t_produces_outcomes t)
     \<and> ((\<forall>s \<in> set (t_loaded_skills t). reference_ok s) \<and> distinct (t_loaded_skills t))
     \<and> pred_option attestation_typed (t_skill_attestation t)"

lemma grows_task_parts [growing, intro]:
  "grows (task_work_from_raw rp stage profile label d)"
  "grows (task_place_from_raw rp stage profile label canonical given_id given_role given_deps d)"
  "grows (task_means_from_raw rp stage label canonical d)"
  "grows (task_bond_from_raw stage label require_class d)"
proof -
  have "grows (resolved_text stage label d name given)" for name given
    unfolding resolved_text_def by (auto split: option.split list.split intro: growing)
  moreover have "grows (resolved_dependencies stage label d given)" for given
    unfolding resolved_dependencies_def by (auto split: option.split intro: growing)
  ultimately show "grows (task_place_from_raw rp stage profile label canonical given_id given_role given_deps d)"
    unfolding task_place_from_raw_def by (intro growing)
  show "grows (task_means_from_raw rp stage label canonical d)"
    unfolding task_means_from_raw_def by (intro growing resource_reader.only_adds output_reader.only_adds)
qed (auto simp: task_work_from_raw_def task_bond_from_raw_def intro!: growing)

lemma grows_task [growing, intro]:
  "grows (task_from_raw rp stage profile label canonical require_class given_id given_role given_deps d)"
  unfolding task_from_raw_def by (intro growing)

definition work_typed :: "string \<Rightarrow> task_work \<Rightarrow> bool" where
  "work_typed profile w \<longleftrightarrow> stripped (tw_title w) \<and> stripped (tw_objective w)
     \<and> (strings_ok (tw_done w) \<and> tw_done w \<noteq> []) \<and> tw_mode w \<in> set EXECUTION_MODES
     \<and> stripped (tw_mode_reason w) \<and> reasoning_typed profile (tw_reasoning w)"

lemma work_read:
  "fresh c \<Longrightarrow> task_work_from_raw rp stage profile label d c = Inr (x, c)
     \<Longrightarrow> \<exists>w. x = Some w \<and> work_typed profile w"
  by (clarsimp simp: task_work_from_raw_def bind_fresh growing reading failed_text_def)
    (auto simp: work_typed_def dest: plan_read)

definition place_typed :: "string \<Rightarrow> task_place \<Rightarrow> bool" where
  "place_typed profile p \<longleftrightarrow> id_ok (tp_id p) \<and> id_ok (tp_role p) \<and> ids_ok (tp_depends_on p)
     \<and> (-1000000 \<le> tp_priority p \<and> tp_priority p \<le> 1000000) \<and> verification_typed profile (tp_verification p)"

lemma verification_has_read:
  "fresh c \<Longrightarrow> verification_from_raw rp stage profile label raw c = Inr (x, c)
     \<longleftrightarrow> (\<exists>y. x = Some y \<and> has_read (verification_from_raw rp stage profile label raw) c y)"
  by (rule has_readI) (auto dest: verification_read)

lemma place_read:
  "fresh c \<Longrightarrow> task_place_from_raw rp stage profile label True None None None d c = Inr (x, c)
     \<Longrightarrow> \<exists>w. x = Some w \<and> place_typed profile w"
  by (clarsimp simp: task_place_from_raw_def resolved_text_def resolved_dependencies_def bind_fresh growing reading
      verification_has_read)
    (auto simp: place_typed_def has_read_def dest: plan_read verification_read)

definition means_typed :: "task_means \<Rightarrow> bool" where
  "means_typed m \<longleftrightarrow> ((\<forall>r \<in> set (tm_resources m). resource_typed r) \<and> distinct (map rc_id (tm_resources m)))
     \<and> context_typed (tm_context m)
     \<and> ((\<forall>u \<in> set (tm_outputs m). output_typed u) \<and> distinct (map ou_id (tm_outputs m)))"

lemma means_have_read:
  "fresh c \<Longrightarrow> read_items stage l raw (resource_from_raw rp stage label) rc_id name c = Inr (rs, c)
     \<longleftrightarrow> (\<exists>y. rs = Some y \<and> has_read (read_items stage l raw (resource_from_raw rp stage label) rc_id name) c y)"
  "fresh c \<Longrightarrow> read_items stage l raw (output_from_raw stage label) ou_id name c = Inr (us, c)
     \<longleftrightarrow> (\<exists>y. us = Some y \<and> has_read (read_items stage l raw (output_from_raw stage label) ou_id name) c y)"
  "fresh c \<Longrightarrow> context_from_raw stage label raw c = Inr (x, c)
     \<longleftrightarrow> (\<exists>y. x = Some y \<and> has_read (context_from_raw stage label raw) c y)"
  by (rule has_readI; auto dest: resource_reader.items_have_type output_reader.items_have_type context_read)+

lemma means_read:
  "fresh c \<Longrightarrow> task_means_from_raw rp stage label True d c = Inr (x, c) \<Longrightarrow> \<exists>w. x = Some w \<and> means_typed w"
  by (clarsimp simp: task_means_from_raw_def bind_fresh growing resource_reader.only_adds output_reader.only_adds
      return_fresh means_have_read)
    (auto simp: means_typed_def has_read_def
      dest: resource_reader.items_have_type output_reader.items_have_type context_read)

definition bond_typed :: "task_bond \<Rightarrow> bool" where
  "bond_typed b \<longleftrightarrow> ids_ok (tb_outcomes b) \<and> strings_ok (tb_capabilities b) \<and> strings_ok (tb_tags b)
     \<and> ((\<forall>s \<in> set (tb_skills b). reference_ok s) \<and> distinct (tb_skills b))
     \<and> pred_option attestation_typed (tb_attestation b)"

lemma bond_read:
  "fresh c \<Longrightarrow> task_bond_from_raw stage label require_class d c = Inr (x, c) \<Longrightarrow> \<exists>w. x = Some w \<and> bond_typed w"
  by (clarsimp simp: task_bond_from_raw_def bind_fresh growing reading)
    (auto simp: bond_typed_def dest: plan_read)

lemma task_parts_typed:
  "work_typed profile w \<Longrightarrow> place_typed profile p \<Longrightarrow> means_typed m \<Longrightarrow> bond_typed b
     \<Longrightarrow> task_typed profile (task_of_parts w p m b)"
  by (simp add: task_typed_def task_of_parts_def work_typed_def place_typed_def means_typed_def bond_typed_def)

lemma task_read:
  assumes c: "fresh c"
    and r: "task_from_raw rp stage profile label True require_class None None None d c = Inr (x, c)"
  shows "\<exists>t. x = Some t \<and> task_typed profile t"
proof -
  obtain w p m b where
      "task_work_from_raw rp stage profile label d c = Inr (w, c)"
      "task_place_from_raw rp stage profile label True None None None d c = Inr (p, c)"
      "task_means_from_raw rp stage label True d c = Inr (m, c)"
      "task_bond_from_raw stage label require_class d c = Inr (b, c)"
    and x: "x = Option.bind w (\<lambda>w. Option.bind p (\<lambda>p. Option.bind m (\<lambda>m. Option.bind b (\<lambda>b.
        Some (task_of_parts w p m b)))))"
    using r c by (clarsimp simp: task_from_raw_def bind_fresh growing reading)
  then show ?thesis
    using work_read [OF c] place_read [OF c] means_read [OF c] bond_read [OF c] by (fastforce intro: task_parts_typed)
qed

section \<open>A task written and read back\<close>

lemma task_gets:
  assumes "task_to_dict t = PDict d" "task_typed profile t"
  shows "get_default d ''title'' PNone = PStr (t_title t)" "get_default d ''objective'' PNone = PStr (t_objective t)"
    "get_default d ''definition_of_done'' PNone = PStrs (t_definition_of_done t)"
    "get_default d ''execution_mode'' (PStr []) = PStr (t_execution_mode t)"
    "get_default d ''execution_mode_reason'' PNone = PStr (t_execution_mode_reason t)"
    "get d ''reasoning'' = (case t_reasoning t of None \<Rightarrow> PNone | Some r \<Rightarrow> PStr r)"
    "''reasoning'' \<in> fst ` set d \<longleftrightarrow> t_reasoning t \<noteq> None"
    "get_default d ''id'' PNone = PStr (t_id t)" "get_default d ''role'' PNone = PStr (t_role t)"
    "get_default d ''depends_on'' (PList []) = PStrs (t_depends_on t)"
    "get_default d ''priority'' (PInt 0) = PInt (t_priority t)"
    "get d ''verification'' = verification_to_dict (t_verification t)"
    "get_default d ''resources'' (PList []) = PList (map resource_to_dict (t_resources t))"
    "get d ''context'' = context_to_dict (t_context t)"
    "get_default d ''outputs'' (PList []) = PList (map output_to_dict (t_outputs t))"
    "get_default d ''produces_outcomes'' (PList []) = PList (map PStr (t_produces_outcomes t))"
    "get_default d ''acceptance_class'' PNone = PStr (acceptance_value (t_acceptance_class t))"
    "get_default d ''required_capabilities'' (PList []) = PStrs (t_required_capabilities t)"
    "get_default d ''tags'' (PList []) = PStrs (t_tags t)"
    "get_default d ''loaded_skills'' (PList []) = PList (map skill_reference_to_dict (t_loaded_skills t))"
    "get_default d ''skill_attestation'' PNone
       = (case t_skill_attestation t of None \<Rightarrow> PNone | Some a \<Rightarrow> skill_attestation_to_dict a)"
    "fst ` set d \<subseteq> set TASK_FIELDS"
proof -
  have o: "opt_field ''reasoning'' (t_reasoning t) = (case t_reasoning t of None \<Rightarrow> [] | Some s \<Rightarrow> [(''reasoning'', PStr s)])"
    using assms(2) unfolding task_typed_def reasoning_typed_def
    by (cases "t_reasoning t") (auto simp: opt_field_def stripped_def dest: constants_stripped split: if_split_asm)
  note d = assms(1) [unfolded task_to_dict_def pyval.inject o, symmetric]
  show "get_default d ''title'' PNone = PStr (t_title t)" "get_default d ''objective'' PNone = PStr (t_objective t)"
    "get_default d ''definition_of_done'' PNone = PStrs (t_definition_of_done t)"
    "get_default d ''execution_mode'' (PStr []) = PStr (t_execution_mode t)"
    "get_default d ''execution_mode_reason'' PNone = PStr (t_execution_mode_reason t)"
    "get_default d ''id'' PNone = PStr (t_id t)"
    by (simp_all add: d get_default_def)
  show "get d ''reasoning'' = (case t_reasoning t of None \<Rightarrow> PNone | Some r \<Rightarrow> PStr r)"
    "''reasoning'' \<in> fst ` set d \<longleftrightarrow> t_reasoning t \<noteq> None"
    by (cases "t_reasoning t"; auto simp: d get_def map_add_def some_list_def split: option.splits)+
  show "get_default d ''role'' PNone = PStr (t_role t)"
    "get_default d ''depends_on'' (PList []) = PStrs (t_depends_on t)"
    "get_default d ''priority'' (PInt 0) = PInt (t_priority t)"
    "get d ''verification'' = verification_to_dict (t_verification t)"
    "get_default d ''resources'' (PList []) = PList (map resource_to_dict (t_resources t))"
    "get d ''context'' = context_to_dict (t_context t)"
    "get_default d ''outputs'' (PList []) = PList (map output_to_dict (t_outputs t))"
    "get_default d ''acceptance_class'' PNone = PStr (acceptance_value (t_acceptance_class t))"
    "get_default d ''required_capabilities'' (PList []) = PStrs (t_required_capabilities t)"
    "get_default d ''tags'' (PList []) = PStrs (t_tags t)"
    by (simp_all add: d get_def get_default_def map_add_def split: option.split)
  show "get_default d ''produces_outcomes'' (PList []) = PList (map PStr (t_produces_outcomes t))"
    "get_default d ''loaded_skills'' (PList []) = PList (map skill_reference_to_dict (t_loaded_skills t))"
    "get_default d ''skill_attestation'' PNone
       = (case t_skill_attestation t of None \<Rightarrow> PNone | Some a \<Rightarrow> skill_attestation_to_dict a)"
    by (auto simp: d get_default_def map_add_def split: option.split)
  show "fst ` set d \<subseteq> set TASK_FIELDS"
    by (auto simp: d TASK_FIELDS_def some_list_def split: option.splits if_splits)
qed

lemma task_round:
  assumes c: "fresh c" and t: "task_typed profile t" and d: "task_to_dict t = PDict d"
  shows "task_from_raw rp stage profile label True require_class None None None d c = Inr (Some t, c)"
proof -
  note gets = task_gets [OF d t]
  have "task_reasoning rp profile d label = Inr (t_reasoning t)"
    using t gets by (intro task_reasoning_round) (auto simp: task_typed_def)
  then have work: "task_work_from_raw rp stage profile label d c = Inr (Some \<lparr>tw_title = t_title t,
      tw_objective = t_objective t, tw_done = t_definition_of_done t, tw_mode = t_execution_mode t,
      tw_mode_reason = t_execution_mode_reason t, tw_reasoning = t_reasoning t\<rparr>, c)"
    using c t by (simp add: task_work_from_raw_def bind_fresh growing reading gets plan_round failed_text_def task_typed_def)
  have place: "task_place_from_raw rp stage profile label True None None None d c = Inr (Some \<lparr>tp_id = t_id t,
      tp_role = t_role t, tp_depends_on = t_depends_on t, tp_priority = t_priority t,
      tp_verification = t_verification t\<rparr>, c)"
    using c t by (simp add: task_place_from_raw_def resolved_text_def resolved_dependencies_def bind_fresh growing
        reading gets plan_round verification_round task_typed_def)
  have means: "task_means_from_raw rp stage label True d c = Inr (Some \<lparr>tm_resources = t_resources t,
      tm_context = t_context t, tm_outputs = t_outputs t\<rparr>, c)"
    using c t by (simp add: task_means_from_raw_def bind_fresh growing resource_reader.only_adds
        output_reader.only_adds return_fresh gets resource_reader.items_read_back output_reader.items_read_back
        context_round task_typed_def)
  have "skill_attestation_from_raw (case t_skill_attestation t of None \<Rightarrow> PNone | Some a \<Rightarrow> skill_attestation_to_dict a) l
      = Inr (t_skill_attestation t)" for l
    using t by (cases "t_skill_attestation t")
      (auto simp: task_typed_def skill_attestation_from_raw_def [of PNone] attestation_round)
  then have bond: "task_bond_from_raw stage label require_class d c = Inr (Some \<lparr>tb_outcomes = t_produces_outcomes t,
      tb_class = t_acceptance_class t, tb_capabilities = t_required_capabilities t, tb_tags = t_tags t,
      tb_skills = t_loaded_skills t, tb_attestation = t_skill_attestation t\<rparr>, c)"
    using c t by (simp add: task_bond_from_raw_def bind_fresh growing reading gets plan_round task_typed_def)
  show ?thesis
    using c by (simp add: task_from_raw_def bind_fresh growing reading gets work place means bond task_of_parts_def)
qed

end
