(* ===== verification/GoalContract.thy ===== *)
theory GoalContract
  imports PlanTasks
begin

text \<open>
  \<^verbatim>\<open>goal_contract.py\<close>: the reader of a Goal Contract, which must declare its four sections, and
  the binding of tasks to its outcomes. The test for a contract persisted by an older release reads
  the state directory and is not modelled.
\<close>

section \<open>The reader\<close>

definition goal_string :: "pyval \<Rightarrow> string \<Rightarrow> string result" where
  "goal_string v label = (case v of
     PStr s \<Rightarrow> if strip s = [] then Inl (GoalContractError ''must be a non-empty string'' [label]) else Inr (strip s)
   | _ \<Rightarrow> Inl (GoalContractError ''must be a non-empty string'' [label]))"

definition goal_identifier :: "pyval \<Rightarrow> string \<Rightarrow> string result" where
  "goal_identifier v label = bindE (goal_string v label) (\<lambda>s.
     if is_skill_id s then Inr s else Inl (GoalContractError ''must start with a letter'' [label]))"

definition goal_array :: "pyval \<Rightarrow> string \<Rightarrow> pyval list result" where
  "goal_array v label = (case v of PList xs \<Rightarrow> Inr xs | _ \<Rightarrow> Inl (GoalContractError ''must be an array'' [label]))"

definition goal_known :: "pyval dict \<Rightarrow> string list \<Rightarrow> string \<Rightarrow> unit result" where
  "goal_known raw allowed label = (let unknown = sorted_set (filter (\<lambda>k. k \<notin> set allowed) (keys raw)) in
     if unknown \<noteq> [] then Inl (GoalContractError ''has unknown fields'' (label # unknown @ sort allowed)) else Inr ())"

definition goal_object :: "pyval \<Rightarrow> string list \<Rightarrow> string \<Rightarrow> pyval dict result" where
  "goal_object raw allowed label = (case raw of
     PDict d \<Rightarrow> bindE (goal_known d allowed label) (\<lambda>_. Inr d)
   | _ \<Rightarrow> Inl (GoalContractError ''must be an object'' [label]))"

definition goal_label :: "string \<Rightarrow> string \<Rightarrow> nat \<Rightarrow> string" where
  "goal_label parent name index = parent @ ''.'' @ name @ ''['' @ dec_nat index @ '']''"

text \<open>\<^verbatim>\<open>_outcome\<close>, \<^verbatim>\<open>_constraint\<close> and \<^verbatim>\<open>_acceptance\<close> read the same two fields under their section's name.\<close>

definition goal_entry_from_raw :: "string \<Rightarrow> string \<Rightarrow> pyval \<Rightarrow> nat \<Rightarrow> goal_entry result" where
  "goal_entry_from_raw name parent raw index = (let label = goal_label parent name index in
     bindE (goal_object raw [''id'', ''description''] label) (\<lambda>d.
     bindE (goal_identifier (get d ''id'') (label @ ''.id'')) (\<lambda>i.
     bindE (goal_string (get d ''description'') (label @ ''.description'')) (\<lambda>desc.
     Inr \<lparr>ge_id = i, ge_description = desc\<rparr>))))"

definition goal_deliverable_from_raw :: "string \<Rightarrow> pyval \<Rightarrow> nat \<Rightarrow> goal_deliverable result" where
  "goal_deliverable_from_raw parent raw index = (let label = goal_label parent ''deliverables'' index in
     bindE (goal_object raw [''id'', ''description'', ''path''] label) (\<lambda>d.
     bindE (if get d ''path'' = PNone then Inr None
       else bindE (goal_string (get d ''path'') (label @ ''.path'')) (\<lambda>p. Inr (Some p))) (\<lambda>path.
     bindE (goal_identifier (get d ''id'') (label @ ''.id'')) (\<lambda>i.
     bindE (goal_string (get d ''description'') (label @ ''.description'')) (\<lambda>desc.
     Inr \<lparr>gd_id = i, gd_description = desc, gd_path = path\<rparr>)))))"

definition goal_section :: "(pyval \<Rightarrow> nat \<Rightarrow> 'a result) \<Rightarrow> pyval dict \<Rightarrow> string \<Rightarrow> string \<Rightarrow> 'a list result" where
  "goal_section f d name label = bindE (goal_array (get d name) (label @ ''.'' @ name)) (\<lambda>xs.
     mapE (\<lambda>(i, x). f x i) (enumerate_from_1 xs))"

text \<open>The first id that occurred before is named.\<close>

fun goal_unique_from :: "string list \<Rightarrow> string \<Rightarrow> string list \<Rightarrow> unit result" where
  "goal_unique_from seen label [] = Inr ()"
| "goal_unique_from seen label (x # xs) =
     (if x \<in> set seen then Inl (GoalContractError ''duplicate'' [label, x]) else goal_unique_from (x # seen) label xs)"

definition goal_unique :: "string list \<Rightarrow> string \<Rightarrow> unit result" where
  "goal_unique xs label = goal_unique_from [] label xs"

definition GOAL_SECTIONS :: "string list" where
  "GOAL_SECTIONS = [''required_outcomes'', ''deliverables'', ''constraints'', ''global_acceptance'']"

definition goal_filled :: "'a list \<Rightarrow> string \<Rightarrow> unit result" where
  "goal_filled xs label = (if xs = [] then Inl (GoalContractError ''must be non-empty'' [label]) else Inr ())"

definition validate_goal_contract :: "pyval \<Rightarrow> string \<Rightarrow> goal_contract result" where
  "validate_goal_contract raw label = bindE (goal_object raw GOAL_SECTIONS label) (\<lambda>d.
     bindE (forE (\<lambda>k. if k \<notin> set (keys d) then Inl (GoalContractError ''must be declared'' [label @ ''.'' @ k])
       else Inr ()) GOAL_SECTIONS) (\<lambda>_.
     bindE (goal_section (goal_entry_from_raw ''required_outcomes'' label) d ''required_outcomes'' label) (\<lambda>outcomes.
     bindE (goal_section (goal_deliverable_from_raw label) d ''deliverables'' label) (\<lambda>deliverables.
     bindE (goal_section (goal_entry_from_raw ''constraints'' label) d ''constraints'' label) (\<lambda>constraints.
     bindE (goal_section (goal_entry_from_raw ''global_acceptance'' label) d ''global_acceptance'' label) (\<lambda>acceptance.
     bindE (goal_filled outcomes (label @ ''.required_outcomes'')) (\<lambda>_.
     bindE (goal_filled deliverables (label @ ''.deliverables'')) (\<lambda>_.
     bindE (goal_filled acceptance (label @ ''.global_acceptance'')) (\<lambda>_.
     bindE (goal_unique (map ge_id outcomes) (label @ '' required outcome id'')) (\<lambda>_.
     bindE (goal_unique (map gd_id deliverables) (label @ '' deliverable id'')) (\<lambda>_.
     bindE (goal_unique (map ge_id constraints) (label @ '' constraint id'')) (\<lambda>_.
     bindE (goal_unique (map ge_id acceptance) (label @ '' global acceptance id'')) (\<lambda>_.
     Inr \<lparr>gc_required_outcomes = outcomes, gc_deliverables = deliverables, gc_constraints = constraints,
       gc_global_acceptance = acceptance\<rparr>)))))))))))))"

section \<open>Tasks and outcomes\<close>

definition task_binding_issues :: "goal_contract \<Rightarrow> string \<Rightarrow> string list \<Rightarrow> (string \<times> exn) list" where
  "task_binding_issues contract task_id ids = (if ids = []
     then [(task_id, ValueError ''must declare at least one produces_outcomes entry'' [task_id])]
     else (case goal_unique ids (''task '' @ task_id @ '' produced outcome id'') of
             Inl e \<Rightarrow> [(task_id, e)] | Inr _ \<Rightarrow> [])
       @ (let unknown = sorted_set (filter (\<lambda>i. i \<notin> set (outcome_ids contract)) ids) in
          if unknown = [] then []
          else [(task_id, ValueError ''produces unknown Goal Contract outcomes'' (task_id # unknown))]))"

definition outcome_binding_issues :: "goal_contract \<Rightarrow> (string \<times> string list) list \<Rightarrow> (string \<times> exn) list" where
  "outcome_binding_issues contract tasks = concat (map (\<lambda>(i, ids). task_binding_issues contract i ids) tasks)"

section \<open>What is read\<close>

lemma goal_string_read [plan_read]: "goal_string v label = Inr s \<Longrightarrow> stripped s"
  by (auto simp: goal_string_def stripped_strip split: pyval.splits if_splits)

lemma goal_string_round [plan_round]: "stripped s \<Longrightarrow> goal_string (PStr s) label = Inr s"
  by (auto simp: goal_string_def stripped_def)

lemma goal_identifier_read [plan_read]: "goal_identifier v label = Inr s \<Longrightarrow> id_ok s"
  by (auto simp: goal_identifier_def id_ok_def split: if_splits dest: goal_string_read)

lemma goal_identifier_round [plan_round]: "id_ok s \<Longrightarrow> goal_identifier (PStr s) label = Inr s"
  by (simp add: goal_identifier_def id_ok_def goal_string_round)

lemma sorted_set_Nil [simp]: "sorted_set xs = [] \<longleftrightarrow> xs = []"
  using set_sorted_set [of xs] by (metis set_empty)

lemma goal_object_Inr [simp]:
  "goal_object raw allowed label = Inr d \<longleftrightarrow> raw = PDict d \<and> set (keys d) \<subseteq> set allowed"
  by (auto simp: goal_object_def goal_known_def filter_empty_conv split: pyval.splits if_splits)

lemma goal_unique_from_Inr:
  "goal_unique_from seen label xs = Inr u \<longleftrightarrow> distinct xs \<and> set xs \<inter> set seen = {}"
  by (induction seen label xs rule: goal_unique_from.induct) auto

lemma goal_unique_Inr [simp]: "goal_unique xs label = Inr u \<longleftrightarrow> distinct xs"
  by (simp add: goal_unique_def goal_unique_from_Inr)

lemma goal_filled_Inr [simp]: "goal_filled xs label = Inr u \<longleftrightarrow> xs \<noteq> []"
  by (simp add: goal_filled_def)

definition entry_typed :: "goal_entry \<Rightarrow> bool" where
  "entry_typed e \<longleftrightarrow> id_ok (ge_id e) \<and> stripped (ge_description e)"

definition deliverable_typed :: "goal_deliverable \<Rightarrow> bool" where
  "deliverable_typed e \<longleftrightarrow> id_ok (gd_id e) \<and> stripped (gd_description e) \<and> opt_stripped (gd_path e)"

lemma goal_entry_read: "goal_entry_from_raw name parent v i = Inr e \<Longrightarrow> entry_typed e"
  by (auto simp: goal_entry_from_raw_def entry_typed_def Let_def dest: plan_read)

lemma goal_entry_round: "entry_typed e \<Longrightarrow> goal_entry_from_raw name parent (goal_entry_to_dict e) i = Inr e"
  by (auto simp: goal_entry_from_raw_def entry_typed_def Let_def goal_entry_to_dict_def goal_object_def
      goal_known_def get_def plan_round)

lemma goal_deliverable_read: "goal_deliverable_from_raw parent v i = Inr e \<Longrightarrow> deliverable_typed e"
  by (auto simp: goal_deliverable_from_raw_def deliverable_typed_def Let_def split: if_split_asm dest: plan_read)

lemma goal_deliverable_round:
  "deliverable_typed e \<Longrightarrow> goal_deliverable_from_raw parent (goal_deliverable_to_dict e) i = Inr e"
  by (auto simp: goal_deliverable_from_raw_def deliverable_typed_def Let_def goal_deliverable_to_dict_def
      get_def plan_round opt_field_stripped split: option.splits)

lemma section_read:
  assumes "goal_section f d name label = Inr ys" and "\<And>x i y. f x i = Inr y \<Longrightarrow> ok y"
  shows "\<forall>y \<in> set ys. ok y"
  using assms by (auto simp: goal_section_def dest!: mapE_all [where P = ok])

lemma section_round:
  assumes "get d name = PList (map enc ys)" "\<forall>y \<in> set ys. ok y" and "\<And>y i. ok y \<Longrightarrow> f (enc y) i = Inr y"
  shows "goal_section f d name label = Inr ys"
  using assms by (auto simp: goal_section_def goal_array_def mapE_eq_Inr list_all2_conv_all_nth
      enumerate_from_1_def simp del: upt_Suc)

definition contract_typed :: "goal_contract \<Rightarrow> bool" where
  "contract_typed g \<longleftrightarrow>
     ((\<forall>e \<in> set (gc_required_outcomes g). entry_typed e) \<and> distinct (map ge_id (gc_required_outcomes g))
        \<and> gc_required_outcomes g \<noteq> [])
     \<and> ((\<forall>e \<in> set (gc_deliverables g). deliverable_typed e) \<and> distinct (map gd_id (gc_deliverables g))
        \<and> gc_deliverables g \<noteq> [])
     \<and> ((\<forall>e \<in> set (gc_constraints g). entry_typed e) \<and> distinct (map ge_id (gc_constraints g)))
     \<and> ((\<forall>e \<in> set (gc_global_acceptance g). entry_typed e) \<and> distinct (map ge_id (gc_global_acceptance g))
        \<and> gc_global_acceptance g \<noteq> [])"

lemma contract_read: "validate_goal_contract v label = Inr g \<Longrightarrow> contract_typed g"
  unfolding validate_goal_contract_def
  by (clarsimp simp del: forE_eq_Inr)
    (auto simp: contract_typed_def dest: section_read [OF _ goal_entry_read] section_read [OF _ goal_deliverable_read])

lemma contract_round:
  assumes g: "contract_typed g"
  shows "validate_goal_contract (goal_contract_to_dict g) label = Inr g"
proof -
  obtain d where d: "goal_contract_to_dict g = PDict d" by (simp add: goal_contract_to_dict_def)
  have gets: "get d ''required_outcomes'' = PList (map goal_entry_to_dict (gc_required_outcomes g))"
    "get d ''deliverables'' = PList (map goal_deliverable_to_dict (gc_deliverables g))"
    "get d ''constraints'' = PList (map goal_entry_to_dict (gc_constraints g))"
    "get d ''global_acceptance'' = PList (map goal_entry_to_dict (gc_global_acceptance g))"
    and keys: "fst ` set d = set GOAL_SECTIONS"
    using d by (auto simp: goal_contract_to_dict_def get_def GOAL_SECTIONS_def)
  have sections: "goal_section (goal_entry_from_raw ''required_outcomes'' label) d ''required_outcomes'' label = Inr (gc_required_outcomes g)"
    "goal_section (goal_deliverable_from_raw label) d ''deliverables'' label = Inr (gc_deliverables g)"
    "goal_section (goal_entry_from_raw ''constraints'' label) d ''constraints'' label = Inr (gc_constraints g)"
    "goal_section (goal_entry_from_raw ''global_acceptance'' label) d ''global_acceptance'' label = Inr (gc_global_acceptance g)"
    using g gets unfolding contract_typed_def
    by (auto intro!: section_round [where ok = entry_typed, OF _ _ goal_entry_round]
        section_round [where ok = deliverable_typed, OF _ _ goal_deliverable_round])
  have "goal_object (PDict d) GOAL_SECTIONS label = Inr d" by (simp add: keys)
  with g show ?thesis
    unfolding validate_goal_contract_def d by (auto simp: sections keys contract_typed_def GOAL_SECTIONS_def)
qed

interpretation contract_codec: codec goal_contract_to_dict "\<lambda>v. validate_goal_contract v label" contract_typed
  for label
  by unfold_locales (rule contract_read contract_round; assumption)+

lemma outcome_binding_clean:
  "outcome_binding_issues g ts = [] \<longleftrightarrow>
     (\<forall>(i, ids) \<in> set ts. ids \<noteq> [] \<and> distinct ids \<and> set ids \<subseteq> set (outcome_ids g))"
proof -
  have "task_binding_issues g i ids = [] \<longleftrightarrow> ids \<noteq> [] \<and> distinct ids \<and> set ids \<subseteq> set (outcome_ids g)" for i ids
    using goal_unique_Inr [of ids "''task '' @ i @ '' produced outcome id''" "()"]
    by (cases "goal_unique ids (''task '' @ i @ '' produced outcome id'')")
      (auto simp: task_binding_issues_def Let_def filter_empty_conv simp del: goal_unique_Inr)
  then have "outcome_binding_issues g ts = [] \<longleftrightarrow>
      (\<forall>x \<in> set ts. snd x \<noteq> [] \<and> distinct (snd x) \<and> set (snd x) \<subseteq> set (outcome_ids g))"
    by (simp add: outcome_binding_issues_def case_prod_beta)
  then show ?thesis by (simp add: case_prod_beta)
qed

end
