(* ===== verification/DepartmentLeads.thy ===== *)
theory DepartmentLeads
  imports GoalContract TaskStates
begin

text \<open>
  Departments and their leads (R30): the declared departments of a plan with their readers
  (\<^verbatim>\<open>department_acceptance.py\<close>), and the derivation of a task's department from the lead of its
  worker's profession, with the check of every lead of a graph (\<^verbatim>\<open>department_runtime.py\<close>). The rubrics
  kept in Project Memory and their versions are not modelled.
\<close>

section \<open>Declared departments\<close>

definition dept_text :: "nat \<Rightarrow> pyval \<Rightarrow> string \<Rightarrow> string result" where
  "dept_text maximum v label = (case v of
     PStr s \<Rightarrow> if strip s = [] then Inl (DepartmentAcceptanceError ''must be non-empty'' [label])
       else if maximum < length (strip s) then Inl (DepartmentAcceptanceError ''exceeds the maximum'' [label, dec_nat maximum])
       else Inr (strip s)
   | _ \<Rightarrow> Inl (DepartmentAcceptanceError ''must be a string'' [label]))"

definition dept_identifier :: "pyval \<Rightarrow> string \<Rightarrow> string result" where
  "dept_identifier v label = bindE (dept_text 64 v label) (\<lambda>s.
     if is_skill_id s then Inr s else Inl (DepartmentAcceptanceError ''must match the identifier pattern'' [label]))"

definition dept_positive_int :: "pyval \<Rightarrow> string \<Rightarrow> int result" where
  "dept_positive_int v label = (case v of
     PInt n \<Rightarrow> if n < 1 then Inl (DepartmentAcceptanceError ''must be a positive integer'' [label]) else Inr n
   | _ \<Rightarrow> Inl (DepartmentAcceptanceError ''must be a positive integer'' [label]))"

definition dept_exact_keys :: "pyval dict \<Rightarrow> string list \<Rightarrow> string list \<Rightarrow> string \<Rightarrow> unit result" where
  "dept_exact_keys d allowed required label =
     (let unknown = sorted_set (filter (\<lambda>k. k \<notin> set allowed) (keys d));
          missing = sorted_set (filter (\<lambda>k. k \<notin> set (keys d)) required) in
      if unknown \<noteq> [] then Inl (DepartmentAcceptanceError ''has unknown fields'' (label # unknown @ sort allowed @ missing))
      else if missing \<noteq> [] then Inl (DepartmentAcceptanceError ''is missing required fields'' (label # missing))
      else Inr ())"

definition dept_object :: "pyval \<Rightarrow> string \<Rightarrow> pyval dict result" where
  "dept_object v label = (case v of PDict d \<Rightarrow> Inr d | _ \<Rightarrow> Inl (DepartmentAcceptanceError ''must be an object'' [label]))"

definition RUBRIC_REFERENCE_FIELDS :: "string list" where
  "RUBRIC_REFERENCE_FIELDS = [''record_id'', ''version'', ''sha256'']"
definition DEPARTMENT_REQUIRED_FIELDS :: "string list" where
  "DEPARTMENT_REQUIRED_FIELDS = [''id'', ''name'', ''lead_role_id'']"
definition DEPARTMENT_FIELDS :: "string list" where
  "DEPARTMENT_FIELDS = DEPARTMENT_REQUIRED_FIELDS @ [''rubric'']"

definition is_sha256 :: "string \<Rightarrow> bool" where
  "is_sha256 s \<longleftrightarrow> length s = 64 \<and> (\<forall>c \<in> set s. c \<in> set ''0123456789abcdef'')"

definition rubric_reference_from_raw :: "pyval \<Rightarrow> string \<Rightarrow> rubric_reference result" where
  "rubric_reference_from_raw raw label = bindE (dept_object raw label) (\<lambda>d.
     bindE (dept_exact_keys d RUBRIC_REFERENCE_FIELDS RUBRIC_REFERENCE_FIELDS label) (\<lambda>_.
     bindE (dept_text 64 (get d ''sha256'') (label @ ''.sha256'')) (\<lambda>digest.
     if \<not> is_sha256 digest then Inl (DepartmentAcceptanceError ''.sha256 must be a lowercase SHA-256 digest'' [label])
     else
     bindE (dept_text 128 (get d ''record_id'') (label @ ''.record_id'')) (\<lambda>record_id.
     bindE (dept_positive_int (get d ''version'') (label @ ''.version'')) (\<lambda>n.
     Inr \<lparr>rr_record_id = record_id, rr_version = n, rr_sha256 = digest\<rparr>)))))"

definition department_contract_from_raw :: "pyval \<Rightarrow> string \<Rightarrow> department_contract result" where
  "department_contract_from_raw raw label = bindE (dept_object raw label) (\<lambda>d.
     bindE (dept_exact_keys d DEPARTMENT_FIELDS DEPARTMENT_REQUIRED_FIELDS label) (\<lambda>_.
     bindE (dept_identifier (get d ''id'') (label @ ''.id'')) (\<lambda>i.
     bindE (dept_text 256 (get d ''name'') (label @ ''.name'')) (\<lambda>name.
     bindE (dept_identifier (get d ''lead_role_id'') (label @ ''.lead_role_id'')) (\<lambda>lead.
     bindE (if ''rubric'' \<in> set (keys d)
       then bindE (rubric_reference_from_raw (get d ''rubric'') (label @ ''.rubric'')) (\<lambda>r. Inr (Some r))
       else Inr None) (\<lambda>rubric.
     Inr \<lparr>de_id = i, de_name = name, de_lead_role_id = lead, de_rubric = rubric\<rparr>))))))"

definition department_contract_issues :: "department_contract list \<Rightarrow> string list \<Rightarrow> exn list" where
  "department_contract_issues departments role_ids =
     (let ids = duplicates (map de_id departments); leads = duplicates (map de_lead_role_id departments) in
      (if ids = [] then [] else [ValueError ''department mapping is ambiguous; duplicate department ids'' ids])
      @ (if leads = [] then []
         else [ValueError ''department mapping is ambiguous; one Lead Role heads several departments'' leads])
      @ map (\<lambda>d. ValueError ''department references unknown Lead Role'' [de_id d, de_lead_role_id d])
          (filter (\<lambda>d. de_lead_role_id d \<notin> set role_ids) departments))"

section \<open>The 0.13 binding of a task\<close>

definition DEPARTMENT_BINDING_RESOURCE_ID :: string where "DEPARTMENT_BINDING_RESOURCE_ID = ''department-binding''"
definition RUBRIC_BINDING_RESOURCE_ID :: string where "RUBRIC_BINDING_RESOURCE_ID = ''rubric-binding''"
definition DEPARTMENT_TARGET_PREFIX :: string where "DEPARTMENT_TARGET_PREFIX = ''department-id:''"
definition PROJECT_MEMORY_TARGET_PREFIX :: string where "PROJECT_MEMORY_TARGET_PREFIX = ''project-memory:''"
definition RUBRIC_SCOPE_PREFIX :: string where "RUBRIC_SCOPE_PREFIX = ''department-acceptance-rubric''"

definition rubric_scope :: "string \<Rightarrow> string result" where
  "rubric_scope department_id = bindE (dept_identifier (PStr department_id) ''department_id'') (\<lambda>i.
     Inr (RUBRIC_SCOPE_PREFIX @ '':'' @ i))"

definition require_logical_read_claim :: "resource_claim \<Rightarrow> string \<Rightarrow> unit result" where
  "require_logical_read_claim r label =
     (if rc_kind r \<noteq> ''logical'' then Inl (DepartmentAcceptanceError ''must be a logical resource'' [label])
      else if rc_access r \<noteq> ''read'' then Inl (DepartmentAcceptanceError ''must have read access'' [label])
      else Inr ())"

definition bound_department :: "resource_claim \<Rightarrow> resource_claim \<Rightarrow> string result" where
  "bound_department department rubric =
     bindE (require_logical_read_claim department DEPARTMENT_BINDING_RESOURCE_ID) (\<lambda>_.
     bindE (require_logical_read_claim rubric RUBRIC_BINDING_RESOURCE_ID) (\<lambda>_.
     if \<not> startswith (rc_target department) DEPARTMENT_TARGET_PREFIX
     then Inl (DepartmentAcceptanceError ''department-binding target must use department-id:'' [])
     else
     bindE (dept_identifier (PStr (drop (length DEPARTMENT_TARGET_PREFIX) (rc_target department)))
       ''department-binding department_id'') (\<lambda>department_id.
     if \<not> startswith (rc_target rubric) PROJECT_MEMORY_TARGET_PREFIX
     then Inl (DepartmentAcceptanceError ''rubric-binding target must use project-memory:'' [])
     else
     bindE (dept_text 256 (PStr (drop (length PROJECT_MEMORY_TARGET_PREFIX) (rc_target rubric)))
       ''rubric-binding scope'') (\<lambda>bound_scope.
     bindE (rubric_scope department_id) (\<lambda>expected.
     if bound_scope \<noteq> expected
     then Inl (DepartmentAcceptanceError ''rubric-binding scope conflicts with department-binding'' [expected, bound_scope])
     else Inr department_id)))))"

definition task_department_binding :: "task \<Rightarrow> string option result" where
  "task_department_binding t =
     (let departments = filter (\<lambda>r. rc_id r = DEPARTMENT_BINDING_RESOURCE_ID) (t_resources t);
          rubrics = filter (\<lambda>r. rc_id r = RUBRIC_BINDING_RESOURCE_ID) (t_resources t) in
      if departments = [] \<and> rubrics = [] then Inr None
      else (case (departments, rubrics) of
          ([d], [r]) \<Rightarrow> bindE (bound_department d r) (\<lambda>i. Inr (Some i))
        | _ \<Rightarrow> Inl (DepartmentAcceptanceError ''department acceptance requires exactly one of each binding'' [])))"

section \<open>The lead of a profession\<close>

text \<open>
  The settled tasks of a run, and which of them a lead accepted; a caller that does not know
  passes every settled task as accepted.
\<close>

type_synonym settled_tasks = "string list \<times> string list"

definition settled_task_ids :: "(string \<times> string) list \<Rightarrow> settled_tasks" where
  "settled_task_ids states =
     (map fst (filter (\<lambda>(i, s). s \<in> set (map state_value TERMINAL_TASK_STATES)) states),
      map fst (filter (\<lambda>(i, s). s = state_value VERIFIED) states))"

text \<open>The lead a task names: an empty name names none.\<close>

definition named_lead :: "task \<Rightarrow> string option" where
  "named_lead t = (case vp_verifier_role (t_verification t) of Some (ch # s) \<Rightarrow> Some (ch # s) | _ \<Rightarrow> None)"

definition named_leads :: "task list \<Rightarrow> string list" where
  "named_leads ts = sorted_set (map (\<lambda>t. the (named_lead t)) (filter (\<lambda>t. named_lead t \<noteq> None) ts))"

definition role_lead :: "task list \<Rightarrow> string list \<Rightarrow> string \<Rightarrow> string result" where
  "role_lead tasks settled role_id =
     (let mine = filter (\<lambda>t. t_role t = role_id) tasks;
          live = named_leads (filter (\<lambda>t. t_id t \<notin> set settled) mine);
          over = named_leads (filter (\<lambda>t. t_id t \<in> set settled) mine);
          leads = (if live \<noteq> [] then live else over) in
      case leads of
        [] \<Rightarrow> Inl (DepartmentAcceptanceError ''no Lead Role is defined for role'' [role_id])
      | [l] \<Rightarrow> Inr l
      | _ \<Rightarrow> if live \<noteq> [] then Inl (DepartmentAcceptanceError ''role has several leads'' (role_id # leads))
          else Inl (DepartmentAcceptanceError ''no Lead Role is defined for role: its accepted tasks were judged by several leads''
            (role_id # leads)))"

record department_definition =
  dd_id :: string
  dd_name :: string
  dd_lead_role_id :: string

definition capitalize :: "string \<Rightarrow> string" where
  "capitalize s = (case s of [] \<Rightarrow> [] | ch # r \<Rightarrow> upper_char ch @ lower r)"

definition department_name :: "string \<Rightarrow> string \<Rightarrow> string" where
  "department_name department_id lead_name =
     (if length '' Lead'' < length lead_name \<and> drop (length lead_name - length '' Lead'') lead_name = '' Lead''
      then take (length lead_name - length '' Lead'') lead_name
      else join '' '' (map capitalize (split_on (CHR ''-'') department_id)))"

text \<open>What the derivation reads of a plan: its tasks, its roles by id and its departments.\<close>

record lead_graph =
  lg_tasks :: "task list"
  lg_roles :: "role_profile list"
  lg_departments :: "department_contract list"

definition graph_role :: "lead_graph \<Rightarrow> string \<Rightarrow> role_profile option" where
  "graph_role g i = map_of (rev (map (\<lambda>r. (ro_id r, r)) (lg_roles g))) i"

definition bound_departments :: "task list \<Rightarrow> string \<Rightarrow> string list" where
  "bound_departments tasks lead = sorted_set (concat (map (\<lambda>t. case task_department_binding t of
     Inr (Some i) \<Rightarrow> [i] | _ \<Rightarrow> []) (filter (\<lambda>t. vp_verifier_role (t_verification t) = Some lead) tasks)))"

definition department_for_lead :: "lead_graph \<Rightarrow> string \<Rightarrow> department_definition result" where
  "department_for_lead g lead =
     (let declared = filter (\<lambda>d. de_lead_role_id d = lead) (lg_departments g) in
      if 1 < length declared
      then Inl (DepartmentAcceptanceError ''Lead Role heads several declared departments'' (lead # sort (map de_id declared)))
      else (case declared of
        d # _ \<Rightarrow> Inr \<lparr>dd_id = de_id d, dd_name = de_name d, dd_lead_role_id = lead\<rparr>
      | [] \<Rightarrow> (let bound = bound_departments (lg_tasks g) lead in
          if 1 < length bound
          then Inl (DepartmentAcceptanceError ''tasks judged by the lead bind several departments'' (lead # bound))
          else (let i = (case bound of [] \<Rightarrow> lead | b # _ \<Rightarrow> b) in
            case graph_role g lead of None \<Rightarrow> Inl (KeyError lead)
            | Some r \<Rightarrow> Inr \<lparr>dd_id = i, dd_name = department_name i (ro_name r), dd_lead_role_id = lead\<rparr>))))"

definition derive_task_department :: "lead_graph \<Rightarrow> string list \<Rightarrow> task \<Rightarrow> department_definition result" where
  "derive_task_department g settled t =
     bindE (case named_lead t of
        Some l \<Rightarrow> if t_id t \<in> set settled then Inr l else role_lead (lg_tasks g) settled (t_role t)
      | None \<Rightarrow> role_lead (lg_tasks g) settled (t_role t)) (\<lambda>lead.
     if named_lead t \<noteq> None \<and> named_lead t \<noteq> Some lead
     then Inl (DepartmentAcceptanceError ''task names another lead than its role'' [t_id t, the (named_lead t), lead])
     else if lead = t_role t
     then Inl (DepartmentAcceptanceError ''the lead is the worker's own profession'' [t_id t, lead])
     else if graph_role g lead = None
     then Inl (DepartmentAcceptanceError ''Lead Role is not a role of the plan'' [t_id t, lead])
     else
     bindE (department_for_lead g lead) (\<lambda>department.
     bindE (task_department_binding t) (\<lambda>binding.
     if binding \<noteq> None \<and> binding \<noteq> Some (dd_id department)
     then Inl (DepartmentAcceptanceError ''task binds another department than its lead heads''
       [t_id t, the binding, lead, dd_id department])
     else Inr department)))"

section \<open>Every lead of a graph\<close>

definition casefold :: "string \<Rightarrow> string" where
  "casefold s = concat (map (\<lambda>c. if c = CHR 0xDF then ''ss'' else [lower_char c]) s)"

definition is_legacy_role :: "role_profile \<Rightarrow> bool" where
  "is_legacy_role r \<longleftrightarrow> ro_id r = ''legacy-worker'' \<or> casefold (ro_name r) = ''legacy serial worker''"

definition lead_history :: "task list \<Rightarrow> string list \<Rightarrow> plan option \<Rightarrow> string list" where
  "lead_history tasks settled inherited = (case inherited of None \<Rightarrow> []
     | Some p \<Rightarrow> map t_id (filter (\<lambda>t. t_id t \<in> set settled
         \<and> (case task_map p (t_id t) of None \<Rightarrow> False
            | Some b \<Rightarrow> vp_verifier_role (t_verification b) = vp_verifier_role (t_verification t))) tasks))"

definition can_lead :: "lead_graph \<Rightarrow> string option \<Rightarrow> string \<Rightarrow> bool" where
  "can_lead g lead role_id = (case lead of None \<Rightarrow> False
     | Some l \<Rightarrow> (case graph_role g l of None \<Rightarrow> False
         | Some r \<Rightarrow> l \<noteq> [] \<and> l \<noteq> role_id \<and> \<not> is_legacy_role r))"

text \<open>
  The tasks that take part in ``one profession, one lead'', the professions they have and the
  leads each profession is given.
\<close>

definition lead_voters :: "task list \<Rightarrow> string list \<Rightarrow> task list" where
  "lead_voters tasks over = filter (\<lambda>t. named_lead t \<noteq> None \<and> t_id t \<notin> set over) tasks"

definition led_roles :: "task list \<Rightarrow> string list" where
  "led_roles voters = sorted_set (map t_role voters)"

definition leads_of_role :: "task list \<Rightarrow> string \<Rightarrow> string list" where
  "leads_of_role voters role = named_leads (filter (\<lambda>t. t_role t = role) voters)"

definition several_leads :: "task list \<Rightarrow> string \<Rightarrow> exn" where
  "several_leads voters role = ValueError ''R30: one profession has exactly one lead'' (role #
     concat (map (\<lambda>l. l # map t_id (filter (\<lambda>t. t_role t = role \<and> named_lead t = Some l) voters))
       (leads_of_role voters role)))"

definition accepted_leads :: "lead_graph \<Rightarrow> string list \<Rightarrow> settled_tasks \<Rightarrow> string \<Rightarrow> string list" where
  "accepted_leads g over settled role = named_leads (filter (\<lambda>t. t_role t = role \<and> t_id t \<in> set over
     \<and> t_id t \<in> set (snd settled) \<and> can_lead g (vp_verifier_role (t_verification t)) role) (lg_tasks g))"

definition kept_leads :: "lead_graph \<Rightarrow> plan \<Rightarrow> settled_tasks \<Rightarrow> string \<Rightarrow> string list" where
  "kept_leads g inherited settled role = named_leads (filter (\<lambda>t. t_role t = role \<and> t_id t \<notin> set (fst settled)
     \<and> can_lead g (vp_verifier_role (t_verification t)) role) (pl_tasks inherited))"

definition moved_leads ::
  "lead_graph \<Rightarrow> task list \<Rightarrow> string list \<Rightarrow> plan option \<Rightarrow> settled_tasks \<Rightarrow> (string \<times> exn) list" where
  "moved_leads g voters over inherited settled = (case inherited of None \<Rightarrow> []
     | Some p \<Rightarrow> concat (map (\<lambda>role.
         (case leads_of_role voters role of
            [l] \<Rightarrow> if accepted_leads g over settled role = []
                \<or> l \<in> set (accepted_leads g over settled role @ kept_leads g p settled role) then []
              else [(role, ValueError ''R30: a profession keeps its lead once its work has been accepted''
                ([role, l] @ map t_id (filter (\<lambda>t. t_role t = role) voters)
                  @ accepted_leads g over settled role @ kept_leads g p settled role))]
          | _ \<Rightarrow> [])) (led_roles voters)))"

definition missing_lead :: "task \<Rightarrow> bool" where
  "missing_lead t \<longleftrightarrow> named_lead t = None"
definition own_lead :: "task \<Rightarrow> bool" where
  "own_lead t \<longleftrightarrow> named_lead t = Some (t_role t)"
definition unknown_lead :: "lead_graph \<Rightarrow> task \<Rightarrow> bool" where
  "unknown_lead g t \<longleftrightarrow> named_lead t \<noteq> None \<and> \<not> own_lead t \<and> the (named_lead t) \<notin> set (map ro_id (lg_roles g))"

definition lead_message :: "string \<Rightarrow> (task \<Rightarrow> bool) \<Rightarrow> task list \<Rightarrow> exn list" where
  "lead_message m bad asked = (if filter bad asked = [] then []
     else [ValueError m (concat (map (\<lambda>t. t_id t # (case named_lead t of None \<Rightarrow> [] | Some l \<Rightarrow> [l])) (filter bad asked)))])"

text \<open>The tasks whose own department is derived: those no earlier class has named.\<close>

definition derivable :: "lead_graph \<Rightarrow> task list \<Rightarrow> string list \<Rightarrow> string list \<Rightarrow> task list \<Rightarrow> task list" where
  "derivable g voters moved exempt tasks = filter (\<lambda>t. t_id t \<notin> set exempt
     \<and> t_id t \<notin> set (map t_id (filter (\<lambda>u. t_id u \<notin> set exempt \<and> (missing_lead u \<or> own_lead u \<or> unknown_lead g u)) tasks))
     \<and> length (leads_of_role voters (t_role t)) \<le> 1 \<and> t_role t \<notin> set moved \<and> t_role t \<in> set (led_roles voters)
     \<and> (\<forall>l \<in> set (leads_of_role voters (t_role t)). l \<noteq> t_role t \<and> l \<in> set (map ro_id (lg_roles g)))) tasks"

fun derivation_issue :: "task \<Rightarrow> department_definition result \<Rightarrow> exn list result" where
  "derivation_issue t (Inr d) = Inr []"
| "derivation_issue t (Inl (DepartmentAcceptanceError m xs)) = Inr [ValueError (''R30: task: '' @ m) (t_id t # xs)]"
| "derivation_issue t (Inl e) = Inl e"

definition derivation_issues :: "lead_graph \<Rightarrow> string list \<Rightarrow> task list \<Rightarrow> exn list result" where
  "derivation_issues g over tasks =
     bindE (mapE (\<lambda>t. derivation_issue t (derive_task_department g over t)) tasks) (\<lambda>found. Inr (concat found))"

definition validate_department_leads :: "lead_graph \<Rightarrow> string list \<Rightarrow> settled_tasks \<Rightarrow> plan option \<Rightarrow> bool \<Rightarrow> exn list result" where
  "validate_department_leads g exempt settled inherited report_unknown =
     (let over = lead_history (lg_tasks g) (fst settled) inherited;
          voters = lead_voters (lg_tasks g) over;
          asked = filter (\<lambda>t. t_id t \<notin> set exempt) (lg_tasks g);
          moved = moved_leads g voters over inherited settled in
      bindE (derivation_issues g over (derivable g voters (map fst moved) exempt (lg_tasks g))) (\<lambda>derived.
      Inr (lead_message ''R30: every task names its department's Lead Role; missing for'' missing_lead asked
        @ lead_message ''R30: a lead judges another profession's work, never its own'' own_lead asked
        @ (if report_unknown
           then lead_message ''R30: verifier_role names no role of the plan for'' (unknown_lead g) asked else [])
        @ map (several_leads voters) (filter (\<lambda>r. 1 < length (leads_of_role voters r)) (led_roles voters))
        @ map snd moved @ derived)))"

section \<open>What a graph without lead violations has\<close>

lemma mapE_single: "mapE f xs = Inr yss \<Longrightarrow> concat yss = [] \<Longrightarrow> \<forall>x \<in> set xs. f x = Inr []"
  unfolding mapE_eq_Inr by (induction rule: list_all2_induct) auto

lemma derivation_issue_Nil: "derivation_issue t r = Inr [] \<longleftrightarrow> (\<exists>d. r = Inr d)"
  by (induction t r rule: derivation_issue.induct) auto

lemma derivation_issues_Nil:
  "derivation_issues g over tasks = Inr [] \<Longrightarrow> t \<in> set tasks \<Longrightarrow> \<exists>d. derive_task_department g over t = Inr d"
proof -
  assume "derivation_issues g over tasks = Inr []" and t: "t \<in> set tasks"
  then obtain found where "mapE (\<lambda>t. derivation_issue t (derive_task_department g over t)) tasks = Inr found"
    "concat found = []"
    unfolding derivation_issues_def by auto
  from mapE_single [OF this] t show ?thesis by (auto simp: derivation_issue_Nil)
qed

lemma lead_message_Nil [simp]: "lead_message m bad asked = [] \<longleftrightarrow> (\<forall>t \<in> set asked. \<not> bad t)"
  by (simp add: lead_message_def filter_empty_conv)

lemma leads_of_role_mem:
  "t \<in> set voters \<Longrightarrow> named_lead t = Some l \<Longrightarrow> t_role t = role \<Longrightarrow> l \<in> set (leads_of_role voters role)"
  unfolding leads_of_role_def named_leads_def by force

lemma distinct_sorted_set: "distinct (sorted_set xs)"
  by (simp add: sorted_set_def)

lemma single_lead:
  assumes "length (leads_of_role voters role) \<le> 1" "l \<in> set (leads_of_role voters role)"
  shows "leads_of_role voters role = [l]"
  using assms by (cases "leads_of_role voters role") auto

text \<open>
  In a submitted graph (no current plan): a task that is asked names a lead of another
  profession which is a role of the graph, every task of its profession names the same lead or
  none, and its department is derived.
\<close>

lemma leads_clean:
  assumes v: "validate_department_leads g exempt settled None unk = Inr []"
    and t: "t \<in> set (lg_tasks g)" "t_id t \<notin> set exempt"
    and known: "\<And>l. named_lead t = Some l \<Longrightarrow> l \<in> set (map ro_id (lg_roles g))"
  shows "\<exists>l. named_lead t = Some l \<and> l \<noteq> t_role t
    \<and> (\<forall>u \<in> set (lg_tasks g). t_role u = t_role t \<longrightarrow> named_lead u \<in> {None, Some l})
    \<and> (distinct (map t_id (lg_tasks g)) \<longrightarrow> (\<exists>d. derive_task_department g [] t = Inr d))"
proof -
  let ?voters = "lead_voters (lg_tasks g) []"
  have hist: "lead_history (lg_tasks g) (fst settled) None = []" by (simp add: lead_history_def)
  have moved: "moved_leads g ?voters [] None settled = []" by (simp add: moved_leads_def)
  from v have asked: "\<forall>t \<in> set (filter (\<lambda>t. t_id t \<notin> set exempt) (lg_tasks g)). \<not> missing_lead t \<and> \<not> own_lead t"
    and one: "\<And>r. r \<in> set (led_roles ?voters) \<Longrightarrow> length (leads_of_role ?voters r) \<le> 1"
    and derived: "derivation_issues g [] (derivable g ?voters [] exempt (lg_tasks g)) = Inr []"
    unfolding validate_department_leads_def hist moved Let_def
    by (auto simp: filter_empty_conv not_less)
  from asked t obtain l where l: "named_lead t = Some l" "l \<noteq> t_role t"
    by (auto simp: missing_lead_def own_lead_def)
  have tv: "t \<in> set ?voters" using t l by (simp add: lead_voters_def)
  then have role: "t_role t \<in> set (led_roles ?voters)" by (simp add: led_roles_def)
  have leads: "leads_of_role ?voters (t_role t) = [l]"
    by (rule single_lead [OF one [OF role] leads_of_role_mem [OF tv l(1) refl]])
  have same: "named_lead u \<in> {None, Some l}" if u: "u \<in> set (lg_tasks g)" "t_role u = t_role t" for u
  proof (cases "named_lead u")
    case (Some k)
    with u have "u \<in> set ?voters" by (simp add: lead_voters_def)
    from leads_of_role_mem [OF this Some u(2)] leads Some show ?thesis by simp
  qed simp
  have "\<exists>d. derive_task_department g [] t = Inr d" if d: "distinct (map t_id (lg_tasks g))"
  proof (rule derivation_issues_Nil [OF derived])
    have "u = t" if "u \<in> set (lg_tasks g)" "t_id u = t_id t" for u
      using d that t(1) by (auto simp: distinct_map inj_on_def)
    then show "t \<in> set (derivable g ?voters [] exempt (lg_tasks g))"
      using t l known [OF l(1)] role leads
      by (auto simp: derivable_def missing_lead_def own_lead_def unknown_lead_def)
  qed
  with l same show ?thesis by blast
qed

end
