(* ===== verification/PlanCycles.thy ===== *)
theory PlanCycles
  imports PlanGraph
begin

text \<open>
  The cycle check of a submitted graph (\<^verbatim>\<open>_validate_cycles\<close> of \<^verbatim>\<open>plan_admission.py\<close>): a depth-first
  visit that keeps the path it is on. The depth of the recursion is at most the number of tasks,
  which is the fuel: the proof shows that it is never used up.
\<close>

section \<open>The visit\<close>

fun foldE :: "('a \<Rightarrow> 's \<Rightarrow> 'e + 's) \<Rightarrow> 'a list \<Rightarrow> 's \<Rightarrow> 'e + 's" where
  "foldE f [] s = Inr s"
| "foldE f (x # xs) s = bindE (f x s) (foldE f xs)"

lemma foldE_cong [fundef_cong]:
  "xs = ys \<Longrightarrow> s = t \<Longrightarrow> (\<And>x u. x \<in> set ys \<Longrightarrow> f x u = g x u) \<Longrightarrow> foldE f xs s = foldE g ys t"
proof (induction xs arbitrary: ys s t)
  case (Cons x xs)
  then show ?case by (cases "g x t") auto
qed simp

fun visit_task :: "nat \<Rightarrow> (string \<Rightarrow> string list option) \<Rightarrow> string list \<Rightarrow> string \<Rightarrow> string list \<Rightarrow> string list result" where
  "visit_task fuel deps stack i visited =
     (if i \<in> set visited then Inr visited
      else if i \<in> set stack then
        Inl (ValueError ''plan task graph contains a cycle'' (dropWhile (\<lambda>j. j \<noteq> i) stack @ [i]))
      else (case fuel of 0 \<Rightarrow> Inl (RecursionError ''visit'')
        | Suc n \<Rightarrow> (case deps i of None \<Rightarrow> Inl (KeyError i)
            | Some ds \<Rightarrow> bindE (foldE (visit_task n deps (stack @ [i])) ds visited) (\<lambda>v. Inr (v @ [i])))))"

declare visit_task.simps [simp del]

definition dependency_table :: "task list \<Rightarrow> string \<Rightarrow> string list option" where
  "dependency_table ts = map_of (rev (map (\<lambda>t. (t_id t, t_depends_on t)) ts))"

definition validate_cycles :: "task list \<Rightarrow> unit result" where
  "validate_cycles ts = bindE (foldE (visit_task (length ts) (dependency_table ts) []) (map t_id ts) []) (\<lambda>_. Inr ())"

section \<open>Soundness\<close>

lemma dependency_table_deps_of: "dependency_table ts i = Some ds \<Longrightarrow> deps_of ts i = ds"
proof -
  have "map_of (rev (map (\<lambda>t. (t_id t, t_depends_on t)) ts)) i
      = map_option t_depends_on (map_of (rev (map (\<lambda>t. (t_id t, t)) ts)) i)"
    by (induction ts rule: rev_induct) auto
  then show "dependency_table ts i = Some ds \<Longrightarrow> deps_of ts i = ds"
    by (auto simp: dependency_table_def deps_of_def)
qed

lemma foldE_inv:
  assumes "foldE f xs s = Inr t" "I s"
    and "\<And>x s t. x \<in> set xs \<Longrightarrow> I s \<Longrightarrow> f x s = Inr t \<Longrightarrow> I t \<and> R s t \<and> P x t"
    and "\<And>s. R s s" and "\<And>r s t. R r s \<Longrightarrow> R s t \<Longrightarrow> R r t" and "\<And>x s t. P x s \<Longrightarrow> R s t \<Longrightarrow> P x t"
  shows "I t \<and> R s t \<and> (\<forall>x \<in> set xs. P x t)"
  using assms(1-3)
proof (induction xs arbitrary: s)
  case Nil
  then show ?case using assms(4) by simp
next
  case (Cons x xs)
  then obtain u where u: "f x s = Inr u" "foldE f xs u = Inr t" by auto
  from Cons.prems(3) [of x s u] Cons.prems(2) u have x: "I u" "R s u" "P x u" by auto
  have "I t \<and> R u t \<and> (\<forall>x \<in> set xs. P x t)"
    using Cons.IH [OF u(2) x(1)] Cons.prems(3) by (metis list.set_intros(2))
  with x show ?case using assms(5,6) by auto
qed

definition finished :: "task list \<Rightarrow> string list \<Rightarrow> string list \<Rightarrow> bool" where
  "finished ts stack v \<longleftrightarrow> deps_first ts v \<and> distinct v \<and> set v \<inter> set stack = {}
     \<and> set v \<subseteq> set (map t_id ts)"

lemma dependency_table_dom: "dependency_table ts i = None \<longleftrightarrow> i \<notin> set (map t_id ts)"
  by (force simp: dependency_table_def map_of_eq_None_iff)

lemma visit_task_sound:
  "finished ts stack v \<Longrightarrow> visit_task n (dependency_table ts) stack i v = Inr w
     \<Longrightarrow> finished ts stack w \<and> set v \<subseteq> set w \<and> i \<in> set w"
proof (induction n arbitrary: stack i v w)
  case 0
  then show ?case by (subst (asm) visit_task.simps) (auto split: if_splits)
next
  case (Suc n)
  show ?case
  proof (cases "i \<in> set v")
    case True
    with Suc.prems show ?thesis by (subst (asm) visit_task.simps) auto
  next
    case False
    with Suc.prems(2) obtain ds u where i: "i \<notin> set stack" and ds: "dependency_table ts i = Some ds"
      and u: "foldE (visit_task n (dependency_table ts) (stack @ [i])) ds v = Inr u" and w: "w = u @ [i]"
      by (subst (asm) visit_task.simps) (auto split: if_splits option.splits)
    have "finished ts (stack @ [i]) v" using Suc.prems(1) False i by (auto simp: finished_def)
    then have "finished ts (stack @ [i]) u \<and> set v \<subseteq> set u \<and> (\<forall>d \<in> set ds. d \<in> set u)"
      by (rule foldE_inv [OF u, where R = "\<lambda>s t. set s \<subseteq> set t" and P = "\<lambda>d t. d \<in> set t"])
        (use Suc.IH in auto)
    then show ?thesis
      using i dependency_table_deps_of [OF ds] dependency_table_dom [of ts i] ds by (auto simp: w finished_def deps_first_snoc)
  qed
qed

lemma validate_cycles_sound:
  assumes d: "distinct (map t_id ts)" and "validate_cycles ts = Inr ()"
  shows "acyclic (dep_rel ts)"
proof -
  from assms obtain v where v: "foldE (visit_task (length ts) (dependency_table ts) []) (map t_id ts) [] = Inr v"
    by (auto simp: validate_cycles_def)
  have "finished ts [] [] " by (simp add: finished_def deps_first_def)
  then have "finished ts [] v \<and> set [] \<subseteq> set v \<and> (\<forall>i \<in> set (map t_id ts). i \<in> set v)"
    by (rule foldE_inv [OF v, where R = "\<lambda>s t. set s \<subseteq> set t" and P = "\<lambda>d t. d \<in> set t"])
      (use visit_task_sound in auto)
  then show ?thesis by (intro deps_first_acyclic [OF d, of v]) (auto simp: finished_def)
qed

section \<open>Completeness\<close>

text \<open>Each id of the path needs the next one.\<close>

fun dep_path :: "task list \<Rightarrow> string list \<Rightarrow> bool" where
  "dep_path ts (a # b # s) = ((b, a) \<in> dep_rel ts \<and> dep_path ts (b # s))"
| "dep_path ts s = True"

lemma dep_path_snoc: "dep_path ts (s @ [a]) \<Longrightarrow> (b, a) \<in> dep_rel ts \<Longrightarrow> dep_path ts (s @ [a, b])"
  by (induction ts s rule: dep_path.induct) auto

lemma dep_path_reaches: "dep_path ts (s @ [a]) \<Longrightarrow> i \<in> set s \<Longrightarrow> (a, i) \<in> (dep_rel ts)\<^sup>+"
proof (induction ts s arbitrary: i rule: dep_path.induct)
  case (1 ts b b' s)
  have "(a, b') \<in> (dep_rel ts)\<^sup>+" using 1 by simp
  with 1 show ?case by (auto intro: trancl_into_trancl)
qed auto

lemma foldE_total:
  assumes "\<And>x s. x \<in> set xs \<Longrightarrow> \<exists>t. f x s = Inr t"
  shows "\<exists>t. foldE f xs s = Inr t"
  using assms
proof (induction xs arbitrary: s)
  case (Cons x xs)
  from Cons.prems obtain u where u: "f x s = Inr u" by force
  from Cons show ?case by (simp add: u)
qed simp

lemma visit_task_total:
  assumes ts: "distinct (map t_id ts)" "acyclic (dep_rel ts)" "unknown_dependencies ts = []"
    and s: "dep_path ts (stack @ [i])" "distinct stack" "set (stack @ [i]) \<subseteq> set (map t_id ts)"
    and n: "length ts \<le> n + length stack"
  shows "\<exists>w. visit_task n (dependency_table ts) stack i v = Inr w"
  using s n
proof (induction n arbitrary: stack i v)
  case 0
  have "(i, i) \<notin> (dep_rel ts)\<^sup>+" using ts(2) by (simp add: acyclic_def)
  then have "i \<notin> set stack" using dep_path_reaches [OF 0(1)] by blast
  with 0 have "distinct (stack @ [i])" by simp
  then have "length (stack @ [i]) = card (set (stack @ [i]))" by (simp only: distinct_card)
  also have "\<dots> \<le> card (set (map t_id ts))" using 0(3) by (intro card_mono) auto
  also have "\<dots> \<le> length ts" by (metis card_length length_map)
  finally show ?case using 0 by simp
next
  case (Suc n)
  have "(i, i) \<notin> (dep_rel ts)\<^sup>+" using ts(2) by (simp add: acyclic_def)
  then have i: "i \<notin> set stack" using dep_path_reaches [OF Suc.prems(1)] by blast
  obtain ds where ds: "dependency_table ts i = Some ds"
    using dependency_table_dom [of ts i] Suc.prems(3) by (cases "dependency_table ts i") auto
  have rel: "(d, i) \<in> dep_rel ts" if "d \<in> set ds" for d
    using that Suc.prems(3) dependency_table_deps_of [OF ds] unfolding dep_rel_iff [OF ts(1)] by simp
  have known: "d \<in> set (map t_id ts)" if "d \<in> set ds" for d
    using rel [OF that] ts(3) by (auto simp: dep_rel_def unknown_dependencies_def filter_empty_conv)
  have "\<exists>u. foldE (visit_task n (dependency_table ts) (stack @ [i])) ds v = Inr u"
  proof (rule foldE_total)
    fix d v assume d: "d \<in> set ds"
    show "\<exists>t. visit_task n (dependency_table ts) (stack @ [i]) d v = Inr t"
      using Suc.prems i known [OF d] dep_path_snoc [OF Suc.prems(1) rel [OF d]] by (intro Suc.IH) auto
  qed
  then show ?case by (subst visit_task.simps) (auto simp: i ds)
qed

lemma validate_cycles_total:
  assumes "distinct (map t_id ts)" "acyclic (dep_rel ts)" "unknown_dependencies ts = []"
  shows "validate_cycles ts = Inr ()"
proof -
  have "\<exists>v. foldE (visit_task (length ts) (dependency_table ts) []) (map t_id ts) [] = Inr v"
    by (rule foldE_total) (use visit_task_total [OF assms, of "[]"] in auto)
  then show ?thesis by (auto simp: validate_cycles_def)
qed

end
