(* ===== verification/RoleHistory.thy ===== *)
theory RoleHistory
  imports PlanTasks
begin

text \<open>
  Versioned professions (\<^verbatim>\<open>role_specification.py\<close>): the snapshot and digest of a role, the order of
  semantic versions, the registry kept beside the plan, hiring against it, and the rule of a plan
  change: a role that is changed has a newer version. The registry is the parsed file; \<open>None\<close> is a
  missing file. The hash function \<open>sha\<close> and the text of a float \<open>fl\<close> are arguments.
\<close>

section \<open>Snapshots and versions\<close>

definition role_profile_snapshot :: "role_profile \<Rightarrow> pyval dict result" where
  "role_profile_snapshot r = bindE (validate_role_version (PStr (ro_version r)) (''role '' @ ro_id r @ ''.version'')) (\<lambda>v.
     Inr [(''id'', PStr (ro_id r)), (''name'', PStr (ro_name r)), (''version'', PStr v),
       (''responsibilities'', PStrs (ro_responsibilities r)), (''domain_focus'', PStrs (ro_domain_focus r)),
       (''preferred_tools'', PStrs (ro_preferred_tools r)), (''context_priorities'', PStrs (ro_context_priorities r)),
       (''verification_expectations'', PStrs (ro_verification_expectations r)),
       (''skill_requirements'', PList (map skill_reference_to_dict (ro_skill_requirements r)))])"

definition role_profile_sha256 :: "(rat \<Rightarrow> string) \<Rightarrow> (string \<Rightarrow> string) \<Rightarrow> pyval dict \<Rightarrow> string" where
  "role_profile_sha256 fl sha d = sha (json_text fl (PDict d))"

text \<open>
  \<^verbatim>\<open>_semver_key\<close>: the three numbers, whether it is a release, and the words of the prerelease,
  a number before any other word.
\<close>

type_synonym semver_order = "nat \<times> nat \<times> nat \<times> nat \<times> (nat \<times> nat \<times> string) list"

definition semver_word :: "string \<Rightarrow> nat \<times> nat \<times> string" where
  "semver_word w = (if \<forall>c \<in> set w. is_digit c then (0, undec w 0, []) else (1, 0, w))"

definition semver_key :: "string \<Rightarrow> semver_order" where
  "semver_key s = (case version_parts s of (numbers, pre, build) \<Rightarrow>
     (undec (numbers ! 0) 0, undec (numbers ! 1) 0, undec (numbers ! 2) 0,
      case pre of None \<Rightarrow> (1, []) | Some p \<Rightarrow> (0, map semver_word (split_on (CHR ''.'') p))))"

section \<open>The registry\<close>

definition ROLE_SPECIFICATIONS_SCHEMA_VERSION :: int where "ROLE_SPECIFICATIONS_SCHEMA_VERSION = 1"

definition role_error :: "string \<Rightarrow> string list \<Rightarrow> 'a result" where
  "role_error m xs = Inl (RoleSpecificationError m xs)"

definition has_exactly :: "pyval \<Rightarrow> string list \<Rightarrow> bool" where
  "has_exactly v names = (case v of PDict d \<Rightarrow> set (keys d) = set names | _ \<Rightarrow> False)"

definition entry_of :: "pyval \<Rightarrow> string \<Rightarrow> pyval" where
  "entry_of v k = (case v of PDict d \<Rightarrow> get d k | _ \<Rightarrow> PNone)"

definition REVISION_FIELDS :: "string list" where
  "REVISION_FIELDS = [''version'', ''sha256'', ''profile'']"
definition RECORD_FIELDS :: "string list" where
  "RECORD_FIELDS = [''id'', ''name'', ''current_version'', ''revisions'']"

definition check_revision :: "(rat \<Rightarrow> string) \<Rightarrow> (string \<Rightarrow> string) \<Rightarrow> string \<Rightarrow> pyval \<Rightarrow> string result" where
  "check_revision fl sha role_id revision =
     (if \<not> has_exactly revision REVISION_FIELDS then role_error ''has invalid revision'' [role_id]
      else
      bindE (validate_role_version (entry_of revision ''version'') (''role specification '' @ role_id @ '' revision.version'')) (\<lambda>v.
      case entry_of revision ''profile'' of
        PDict profile \<Rightarrow>
          if get profile ''id'' \<noteq> PStr role_id then role_error ''revision identity drift'' [role_id]
          else if get profile ''version'' \<noteq> PStr v then role_error ''revision version drift'' [role_id]
          else if entry_of revision ''sha256'' \<noteq> PStr (role_profile_sha256 fl sha profile)
          then role_error ''digest mismatch'' [role_id, v]
          else Inr v
      | _ \<Rightarrow> role_error ''revision identity drift'' [role_id]))"

definition validate_profile_record :: "(rat \<Rightarrow> string) \<Rightarrow> (string \<Rightarrow> string) \<Rightarrow> string \<Rightarrow> pyval \<Rightarrow> unit result" where
  "validate_profile_record fl sha role_id raw =
     (if \<not> has_exactly raw RECORD_FIELDS then role_error ''has invalid fields'' [role_id]
      else if entry_of raw ''id'' \<noteq> PStr role_id
        \<or> \<not> (case entry_of raw ''name'' of PStr s \<Rightarrow> strip s \<noteq> [] | _ \<Rightarrow> False)
      then role_error ''has invalid identity'' [role_id]
      else
      bindE (validate_role_version (entry_of raw ''current_version'') (''role specification '' @ role_id @ ''.current_version'')) (\<lambda>current.
      case entry_of raw ''revisions'' of
        PList (x # xs) \<Rightarrow>
          bindE (mapE (check_revision fl sha role_id) (x # xs)) (\<lambda>versions.
          if \<not> distinct versions \<or> current \<noteq> last versions
          then role_error ''revision history is invalid'' [role_id]
          else if versions \<noteq> sort_key semver_key versions then role_error ''revisions are unordered'' [role_id]
          else Inr ())
      | _ \<Rightarrow> role_error ''needs revisions'' [role_id]))"

definition load_registry :: "(rat \<Rightarrow> string) \<Rightarrow> (string \<Rightarrow> string) \<Rightarrow> string option \<Rightarrow> pyval dict result" where
  "load_registry fl sha file = (case file of None \<Rightarrow> Inr []
     | Some s \<Rightarrow> (case json_loads s of
         None \<Rightarrow> role_error ''invalid role specification registry'' []
       | Some raw \<Rightarrow>
         if \<not> has_exactly raw [''schema_version'', ''profiles''] then role_error ''registry has invalid fields'' []
         else if \<not> py_eq (entry_of raw ''schema_version'') (PInt ROLE_SPECIFICATIONS_SCHEMA_VERSION)
         then role_error ''unsupported role specification registry schema'' []
         else (case entry_of raw ''profiles'' of
             PDict profiles \<Rightarrow> bindE (forE (\<lambda>(i, r). validate_profile_record fl sha i r) profiles) (\<lambda>_. Inr profiles)
           | _ \<Rightarrow> role_error ''registry profiles must be an object'' [])))"

section \<open>Hiring\<close>

record hiring =
  hi_created :: "string list"
  hi_reused :: "string list"
  hi_revised :: "string list"

definition profile_record :: "string \<Rightarrow> pyval \<Rightarrow> string \<Rightarrow> pyval list \<Rightarrow> pyval" where
  "profile_record i name v revisions = PDict [(''id'', PStr i), (''name'', name), (''current_version'', PStr v),
     (''revisions'', PList revisions)]"

definition revisions_of :: "pyval \<Rightarrow> pyval list" where
  "revisions_of r = (case entry_of r ''revisions'' of PList xs \<Rightarrow> xs | _ \<Rightarrow> [])"

definition hire_existing :: "string \<Rightarrow> string \<Rightarrow> string \<Rightarrow> pyval dict \<Rightarrow> pyval dict \<Rightarrow> hiring \<Rightarrow> pyval
    \<Rightarrow> (pyval dict \<times> hiring) result" where
  "hire_existing i v digest snapshot profiles h existing =
     (let revisions = revisions_of existing;
          current = (case entry_of existing ''current_version'' of PStr s \<Rightarrow> s | _ \<Rightarrow> []) in
      case map_of (rev (map (\<lambda>x. (entry_of x ''version'', x)) revisions)) (PStr v) of
        Some same \<Rightarrow>
          if entry_of same ''sha256'' \<noteq> PStr digest \<or> \<not> py_eq (entry_of same ''profile'') (PDict snapshot)
          then role_error ''is immutable; increment the role version'' [i, v]
          else if current \<noteq> v then role_error ''cannot replace newer current revision'' [i, v, current]
          else Inr (profiles, h\<lparr>hi_reused := hi_reused h @ [i @ ''@'' @ v]\<rparr>)
      | None \<Rightarrow>
          if semver_key v \<le> semver_key current then role_error ''revision must increase'' [i, current, v]
          else Inr (AList.update i (profile_record i (get snapshot ''name'') v
              (revisions @ [PDict [(''version'', PStr v), (''sha256'', PStr digest), (''profile'', PDict snapshot)]])) profiles,
            h\<lparr>hi_revised := hi_revised h @ [i @ ''@'' @ v]\<rparr>))"

definition hire_role :: "(rat \<Rightarrow> string) \<Rightarrow> (string \<Rightarrow> string) \<Rightarrow> role_profile \<Rightarrow> pyval dict \<times> hiring
    \<Rightarrow> (pyval dict \<times> hiring) result" where
  "hire_role fl sha r st = (case st of (profiles, h) \<Rightarrow>
     bindE (role_profile_snapshot r) (\<lambda>snapshot.
     let i = ro_id r; v = ro_version r; digest = role_profile_sha256 fl sha snapshot in
     case map_of profiles i of
       None \<Rightarrow> Inr (AList.update i (profile_record i (PStr (ro_name r)) v
           [PDict [(''version'', PStr v), (''sha256'', PStr digest), (''profile'', PDict snapshot)]]) profiles,
         h\<lparr>hi_created := hi_created h @ [i @ ''@'' @ v]\<rparr>)
     | Some existing \<Rightarrow> bindE (validate_profile_record fl sha i existing) (\<lambda>_.
         hire_existing i v digest snapshot profiles h existing)))"

fun hire_all :: "(rat \<Rightarrow> string) \<Rightarrow> (string \<Rightarrow> string) \<Rightarrow> role_profile list \<Rightarrow> pyval dict \<times> hiring
    \<Rightarrow> (pyval dict \<times> hiring) result" where
  "hire_all fl sha [] st = Inr st"
| "hire_all fl sha (r # rs) st = bindE (hire_role fl sha r st) (hire_all fl sha rs)"

definition prepare_role_specifications ::
  "(rat \<Rightarrow> string) \<Rightarrow> (string \<Rightarrow> string) \<Rightarrow> string option \<Rightarrow> role_profile list \<Rightarrow> (pyval \<times> hiring) result" where
  "prepare_role_specifications fl sha file roles = bindE (load_registry fl sha file) (\<lambda>profiles.
     bindE (hire_all fl sha roles (profiles, \<lparr>hi_created = [], hi_reused = [], hi_revised = []\<rparr>)) (\<lambda>(after, h).
     Inr (PDict [(''schema_version'', PInt ROLE_SPECIFICATIONS_SCHEMA_VERSION),
       (''profiles'', PDict (map (\<lambda>k. (k, get after k)) (sorted_set (keys after))))], h)))"

section \<open>Plan changes\<close>

definition role_step :: "(string \<times> pyval dict) list \<Rightarrow> role_profile \<Rightarrow> unit result" where
  "role_step before r = bindE (role_profile_snapshot r) (\<lambda>after.
     case map_of (rev before) (ro_id r) of
       None \<Rightarrow> Inr ()
     | Some prior \<Rightarrow> if after = prior then Inr ()
         else if get after ''version'' = get prior ''version''
         then role_error ''is immutable; increment the role version'' [ro_id r, ro_version r]
         else (case get prior ''version'' of
             PStr was \<Rightarrow> if semver_key (ro_version r) \<le> semver_key was
               then role_error ''revision must increase'' [ro_id r, was, ro_version r] else Inr ()
           | _ \<Rightarrow> role_error ''invalid semantic version'' [ro_id r]))"

definition validate_role_specification_transition :: "role_profile list \<Rightarrow> role_profile list \<Rightarrow> unit result" where
  "validate_role_specification_transition previous candidate =
     bindE (mapE (\<lambda>r. bindE (role_profile_snapshot r) (\<lambda>d. Inr (ro_id r, d))) previous) (\<lambda>before.
     forE (role_step before) candidate)"

lemma snapshot_Inr:
  "role_profile_snapshot r = Inr d \<Longrightarrow> get d ''version'' = PStr (ro_version r) \<and> get d ''id'' = PStr (ro_id r)"
  by (auto simp: role_profile_snapshot_def validate_role_version_def get_def split: if_split_asm)

lemma PStrs_eq [simp]: "PStrs xs = PStrs ys \<longleftrightarrow> xs = ys"
  by (simp add: PStrs_def inj_map_eq_map inj_def)

lemma references_eq: "map skill_reference_to_dict xs = map skill_reference_to_dict ys \<longleftrightarrow> xs = ys"
  by (rule inj_map_eq_map) (auto simp: inj_def skill_reference_to_dict_def)

lemma snapshot_inj: "role_profile_snapshot r = Inr d \<Longrightarrow> role_profile_snapshot s = Inr d \<Longrightarrow> r = s"
  by (cases r; cases s)
    (auto simp: role_profile_snapshot_def validate_role_version_def references_eq split: if_split_asm)

text \<open>
  What a plan change may do to a role that exists: leave it as it is, or give it a strictly newer
  version.
\<close>

lemma transition_sound:
  assumes v: "validate_role_specification_transition previous candidate = Inr ()"
    and d: "distinct (map ro_id previous)"
    and r: "r \<in> set candidate" "p \<in> set previous" "ro_id p = ro_id r"
  shows "r = p \<or> semver_key (ro_version p) < semver_key (ro_version r)"
proof -
  from v obtain before where b: "mapE (\<lambda>r. bindE (role_profile_snapshot r) (\<lambda>d. Inr (ro_id r, d))) previous = Inr before"
    and step: "role_step before r = Inr ()"
    using r(1) unfolding validate_role_specification_transition_def by auto
  have pairs: "list_all2 (\<lambda>r x. fst x = ro_id r \<and> role_profile_snapshot r = Inr (snd x)) previous before"
    using b unfolding mapE_eq_Inr by (rule list_all2_mono) auto
  then have keys: "map fst before = map ro_id previous"
    by (induction rule: list_all2_induct) auto
  obtain prior where prior: "(ro_id p, prior) \<in> set before" "role_profile_snapshot p = Inr prior"
    using pairs r(2) by (auto simp: list_all2_conv_all_nth in_set_conv_nth) (metis prod.collapse)
  have "map_of (rev before) (ro_id r) = Some prior"
    using prior(1) keys d r(3) by (intro map_of_is_SomeI) (auto simp flip: rev_map)
  with step obtain after where after: "role_profile_snapshot r = Inr after"
    and c: "after = prior \<or> semver_key (ro_version p) < semver_key (ro_version r)"
    using snapshot_Inr [OF prior(2)] by (auto simp: role_step_def role_error_def not_le split: if_split_asm)
  from c show ?thesis using snapshot_inj [OF after] prior(2) by auto
qed

end
