(* ===== verification/PlanAdmission.thy ===== *)
theory PlanAdmission
  imports AcceptanceFloor PlanCycles RoleHistory SkillTrust PlanChanges
begin

text \<open>
  Admitting a schema-3 plan (\<^verbatim>\<open>plan_admission.py\<close>, with the entrances of \<^verbatim>\<open>plan.py\<close>): one pass that
  collects every violation, stage by stage; a stage whose checks depend on another runs only when
  that one is clean. A part that was not read is \<open>None\<close> (\<^verbatim>\<open>FAILED\<close>).
\<close>

section \<open>Stages\<close>

definition REQUIRED_PLAN_FIELDS :: "string list" where
  "REQUIRED_PLAN_FIELDS = [''schema_version'', ''goal'', ''roles'', ''tasks'']"

definition PLAN_STAGES :: "string list" where
  "PLAN_STAGES = [''header'', ''goal_contract'', ''scalars'', ''compatibility'', ''roles'', ''skill_packs'',
     ''departments'', ''tasks'']"

definition raw_ids :: "pyval \<Rightarrow> string list" where
  "raw_ids raw = (case raw of PList xs \<Rightarrow> concat (map (\<lambda>x. case x of
       PDict d \<Rightarrow> (case get d ''id'' of PStr s \<Rightarrow> if strip s = [] then [] else [strip s] | _ \<Rightarrow> []) | _ \<Rightarrow> []) xs)
   | _ \<Rightarrow> [])"

definition check_fields :: "bool \<Rightarrow> pyval dict \<Rightarrow> unit reader" where
  "check_fields changing d = bindC (known_fields ''fields'' ''plan'' d PLAN_FIELDS REQUIRED_PLAN_FIELDS) (\<lambda>_.
     if py_eq (get d ''schema_version'') (PInt PLAN_SCHEMA_VERSION) then returnC ()
     else c_add ''fields'' ''plan.schema_version'' (if changing
       then ValueError ''plan changes must use the canonical v0.9 schema'' []
       else ValueError ''plan.schema_version must be the canonical one'' []))"

text \<open>A field of the plan itself, in the stage named first.\<close>

definition plan_field :: "string \<Rightarrow> pyval dict \<Rightarrow> (pyval \<Rightarrow> string \<Rightarrow> 'a result) \<Rightarrow> string \<Rightarrow> pyval \<Rightarrow> 'a option reader" where
  "plan_field stage d f name dflt = field_check stage ''plan'' d f name dflt"

definition read_contract :: "bool \<Rightarrow> pyval dict \<Rightarrow> goal_contract option option reader" where
  "read_contract require_contract d =
     (if get d ''goal_contract'' = PNone then
        (if require_contract
         then bindC (c_add ''goal_contract'' ''plan.goal_contract''
           (ValueError ''plan.goal_contract must be declared as a structured Goal Contract'' [])) (\<lambda>_. returnC None)
         else returnC (Some None))
      else bindC (c_check ''goal_contract'' ''plan.goal_contract''
        (validate_goal_contract (get d ''goal_contract'') ''plan.goal_contract'')) (\<lambda>g. returnC (map_option Some g)))"

definition execution_strategy_of :: "(pyval \<Rightarrow> string) \<Rightarrow> pyval dict \<Rightarrow> string result" where
  "execution_strategy_of rp d = one_of rp EXECUTION_STRATEGIES
     (get_default d ''execution_strategy'' (PStr DEFAULT_EXECUTION_STRATEGY)) ''plan.execution_strategy''"

record plan_scalars =
  ps_strategy :: "string option"
  ps_workers :: "int option"
  ps_slots :: "int option"

definition is_serial :: "plan_scalars \<Rightarrow> bool" where
  "is_serial s \<longleftrightarrow> ps_strategy s = Some ''serial'' \<and> ps_workers s = Some 1 \<and> ps_slots s = Some 1"

definition serial_issue :: "unit reader" where
  "serial_issue = c_add ''compatibility'' ''plan.compatibility''
     (ValueError ''a migrated v0.8 legacy_serial plan must remain serial'' [])"

text \<open>\<^verbatim>\<open>_compatibility\<close>: \<open>(legacy_serial, source_schema)\<close>.\<close>

definition inherited_compatibility :: "plan \<Rightarrow> pyval dict \<Rightarrow> plan_scalars \<Rightarrow> (bool \<times> int) option reader" where
  "inherited_compatibility p d scalars = (let expected = (if pl_legacy_serial p
       then PDict [(''migrated_from_schema'', PInt (pl_source_schema_version p)), (''legacy_serial'', PBool True)]
       else PNone) in
     if \<not> py_eq (get d ''compatibility'') expected
     then bindC (c_add ''compatibility'' ''plan.compatibility''
       (ValueError ''plan.compatibility is inherited from the current plan'' [])) (\<lambda>_. returnC None)
     else lookC (\<lambda>c.
       if pl_legacy_serial p \<and> c_clean [''scalars''] c \<and> \<not> is_serial scalars
       then bindC serial_issue (\<lambda>_. returnC None)
       else returnC (Some (pl_legacy_serial p, pl_source_schema_version p))))"

definition declared_compatibility :: "pyval dict \<Rightarrow> (bool \<times> int) option reader" where
  "declared_compatibility cd = built (
     bindC (known_fields ''compatibility'' ''plan.compatibility'' cd COMPATIBILITY_FIELDS []) (\<lambda>_.
     bindC (case get_default cd ''migrated_from_schema'' (PInt PLAN_SCHEMA_VERSION) of
         PInt n \<Rightarrow> returnC (Some n)
       | _ \<Rightarrow> bindC (c_add ''compatibility'' ''plan.compatibility.migrated_from_schema''
           (ValueError ''plan.compatibility.migrated_from_schema must be an integer'' [])) (\<lambda>_. returnC None)) (\<lambda>source.
     bindC (case get_default cd ''legacy_serial'' (PBool False) of
         PBool b \<Rightarrow> returnC (Some b)
       | _ \<Rightarrow> bindC (c_add ''compatibility'' ''plan.compatibility.legacy_serial''
           (ValueError ''plan.compatibility.legacy_serial must be a boolean'' [])) (\<lambda>_. returnC None)) (\<lambda>legacy.
     returnC (Option.bind source (\<lambda>n. Option.bind legacy (\<lambda>b. Some (b, n))))))))"

definition compatibility_of :: "plan option \<Rightarrow> pyval dict \<Rightarrow> plan_scalars \<Rightarrow> (bool \<times> int) option reader" where
  "compatibility_of inherited d scalars = (case inherited of
     Some p \<Rightarrow> inherited_compatibility p d scalars
   | None \<Rightarrow> (case get d ''compatibility'' of
       PNone \<Rightarrow> returnC (Some (False, PLAN_SCHEMA_VERSION))
     | PDict cd \<Rightarrow> bindC (declared_compatibility cd) (\<lambda>v. lookC (\<lambda>c. case v of
         None \<Rightarrow> returnC None
       | Some (legacy, source) \<Rightarrow>
           if legacy \<and> c_clean [''scalars''] c \<and> \<not> (source = LEGACY_PLAN_SCHEMA_VERSION \<and> is_serial scalars)
           then bindC serial_issue (\<lambda>_. returnC None) else returnC (Some (legacy, source))))
     | _ \<Rightarrow> bindC (c_add ''compatibility'' ''plan.compatibility''
         (ValueError ''plan.compatibility must be an object'' [])) (\<lambda>_. returnC None)))"

definition somes :: "'a option list \<Rightarrow> 'a list" where
  "somes xs = concat (map (\<lambda>x. case x of None \<Rightarrow> [] | Some y \<Rightarrow> [y]) xs)"

definition read_roles :: "pyval dict \<Rightarrow> role_profile option list reader" where
  "read_roles d = (case get d ''roles'' of
     PList (x # xs) \<Rightarrow> bindC (mapC (\<lambda>(i, r). role_from_raw ''roles'' r i) (enumerate_from_1 (x # xs))) (\<lambda>roles.
       bindC (if None \<in> set roles then returnC None
         else c_check ''roles'' ''plan.roles'' (validate_unique (map ro_id (somes roles)) ''role id'')) (\<lambda>_. returnC roles))
   | _ \<Rightarrow> bindC (c_add ''roles'' ''plan.roles'' (ValueError ''plan.roles must be a non-empty array'' [])) (\<lambda>_. returnC []))"

definition read_departments :: "pyval dict \<Rightarrow> role_profile list \<Rightarrow> department_contract list reader" where
  "read_departments d roles = (case get_default d ''departments'' (PList []) of
     PList xs \<Rightarrow> bindC (mapC (\<lambda>(i, x). c_check ''departments'' (''plan.departments['' @ dec_nat i @ '']'')
         (department_contract_from_raw x (''department '' @ dec_nat i))) (enumerate_from_1 xs)) (\<lambda>departments. lookC (\<lambda>c.
       if \<not> c_clean [''departments''] c then returnC []
       else bindC (if c_clean [''roles''] c
           then addC (map (\<lambda>e. (''departments'', ''plan.departments'', e))
             (department_contract_issues (somes departments) (map ro_id roles)))
           else returnC ()) (\<lambda>_. returnC (somes departments))))
   | _ \<Rightarrow> bindC (c_add ''departments'' ''plan.departments'' (ValueError ''plan.departments must be an array'' []))
       (\<lambda>_. returnC []))"

definition read_task :: "(pyval \<Rightarrow> string) \<Rightarrow> string \<Rightarrow> bool \<Rightarrow> pyval \<Rightarrow> nat \<Rightarrow> task option reader" where
  "read_task rp profile require_class raw index = (let label = ''task '' @ dec_nat index in case raw of
     PDict d \<Rightarrow> task_from_raw rp ''tasks'' profile label True require_class None None None d
   | _ \<Rightarrow> bindC (c_add ''tasks'' label (ValueError ''must be an object'' [label])) (\<lambda>_. returnC None))"

definition read_tasks :: "(pyval \<Rightarrow> string) \<Rightarrow> string \<Rightarrow> bool \<Rightarrow> pyval dict \<Rightarrow> task list reader" where
  "read_tasks rp profile require_class d = (case get d ''tasks'' of
     PList (x # xs) \<Rightarrow> bindC (mapC (\<lambda>(i, r). read_task rp profile require_class r i) (enumerate_from_1 (x # xs))) (\<lambda>tasks.
       bindC (lookC (\<lambda>c. if c_clean [''tasks''] c
         then c_check ''tasks'' ''plan.tasks'' (validate_unique (map t_id (somes tasks)) ''task id'') else returnC None)) (\<lambda>_.
       returnC (somes tasks)))
   | _ \<Rightarrow> bindC (c_add ''tasks'' ''plan.tasks'' (ValueError ''plan.tasks must be a non-empty array'' [])) (\<lambda>_. returnC []))"

section \<open>Checks of what was read\<close>

definition task_path :: "string \<Rightarrow> string \<Rightarrow> string" where
  "task_path i name = ''task '' @ i @ ''.'' @ name"

text \<open>The contract is \<open>None\<close> when it was not read and \<open>Some None\<close> when there is none.\<close>

definition outcomes_found :: "goal_contract option option \<Rightarrow> task list \<Rightarrow> (string \<times> string \<times> exn) list" where
  "outcomes_found contract tasks = (case contract of None \<Rightarrow> []
     | Some None \<Rightarrow> map (\<lambda>t. (''outcomes'', task_path (t_id t) ''produces_outcomes'',
         ValueError ''declares produces_outcomes without plan.goal_contract'' [t_id t]))
         (filter (\<lambda>t. t_produces_outcomes t \<noteq> []) tasks)
     | Some (Some g) \<Rightarrow> map (\<lambda>(i, e). (''outcomes'', task_path i ''produces_outcomes'', e))
         (outcome_binding_issues g (map (\<lambda>t. (t_id t, t_produces_outcomes t)) tasks)))"

text \<open>The migrated v0.8 tasks whose acceptance contract is untouched.\<close>

definition acceptance_contract :: "task \<Rightarrow> string \<times> string list \<times> string \<times> verification_policy" where
  "acceptance_contract t = (t_objective t, t_definition_of_done t, t_execution_mode t, t_verification t)"

definition legacy_exempt_task_ids :: "task list \<Rightarrow> bool \<Rightarrow> plan option \<Rightarrow> string list" where
  "legacy_exempt_task_ids tasks legacy_serial inherited = (if \<not> legacy_serial then []
     else (case inherited of
       None \<Rightarrow> map t_id (filter (\<lambda>t. t_verification t = legacy_policy) tasks)
     | Some p \<Rightarrow> map t_id (filter (\<lambda>t. case task_map p (t_id t) of
         None \<Rightarrow> False | Some b \<Rightarrow> acceptance_contract b = acceptance_contract t) tasks)))"

definition task_floor_issues :: "task \<Rightarrow> exn list" where
  "task_floor_issues t = (let v = t_verification t in
     (if vp_policy v \<noteq> ''independent''
      then [ValueError ''R8/R29: verification.policy must be independent'' [t_id t, vp_policy v]] else [])
     @ (if \<not> vp_required v then [ValueError ''R8/R29: verification.required must be true'' [t_id t]] else [])
     @ (if vp_max_revision_attempts v < 2
        then [ValueError ''R29: verification.max_revision_attempts must be at least 2'' [t_id t]] else [])
     @ (if \<not> list_ex is_clean_suite_command (vp_deterministic_checks v)
        then [ValueError ''R29: must declare at least one full-suite deterministic check'' [t_id t]] else []))"

definition acceptance_issues :: "task list \<Rightarrow> bool \<Rightarrow> plan option \<Rightarrow> (string \<times> exn) list" where
  "acceptance_issues tasks legacy_serial inherited = concat (map (\<lambda>t. map (Pair (t_id t)) (task_floor_issues t))
     (filter (\<lambda>t. t_id t \<notin> set (legacy_exempt_task_ids tasks legacy_serial inherited)) tasks))"

definition check_acceptance :: "task list \<Rightarrow> bool \<Rightarrow> plan option \<Rightarrow> unit reader" where
  "check_acceptance tasks legacy_serial inherited = lookC (\<lambda>c. if \<not> c_clean [''compatibility''] c then returnC ()
     else addC (map (\<lambda>(i, e). (''acceptance'', task_path i ''verification'', e))
       (acceptance_issues tasks legacy_serial inherited)))"

text \<open>\<^verbatim>\<open>_graph\<close>: the references of each task that was read.\<close>

definition legacy_role_of :: "role_profile list \<Rightarrow> string \<Rightarrow> bool" where
  "legacy_role_of roles i = (case map_of (rev (map (\<lambda>r. (ro_id r, r)) roles)) i of
     None \<Rightarrow> False | Some r \<Rightarrow> is_legacy_role r)"

definition role_references :: "role_profile list \<Rightarrow> string list \<Rightarrow> bool \<Rightarrow> task \<Rightarrow> (string \<times> exn) list" where
  "role_references roles role_ids legacy_serial t =
     (if t_role t \<notin> set role_ids then [(''role'', ValueError ''references unknown role'' [t_id t, t_role t])]
      else if \<not> legacy_serial \<and> legacy_role_of roles (t_role t)
      then [(''role'', ValueError ''requires a concrete RoleProfile, not generic legacy-worker'' [t_id t])] else [])
     @ (case named_lead t of None \<Rightarrow> []
        | Some l \<Rightarrow> if l \<notin> set role_ids
            then [(''verification.verifier_role'', ValueError ''verification references unknown role'' [t_id t, l])]
            else if \<not> legacy_serial \<and> legacy_role_of roles l
            then [(''verification.verifier_role'',
              ValueError ''verifier requires a concrete RoleProfile, not generic legacy-worker'' [t_id t])] else [])"

definition dependency_references :: "string list \<Rightarrow> task \<Rightarrow> (string \<times> exn) list" where
  "dependency_references raw_task_ids t = concat (map (\<lambda>dep.
       if dep = t_id t then [(''depends_on'', ValueError ''cannot depend on itself'' [t_id t])]
       else if dep \<notin> set raw_task_ids
       then [(''depends_on'', ValueError ''references unknown dependency'' [t_id t, dep])] else []) (t_depends_on t))"

definition context_references :: "task \<Rightarrow> (string \<times> exn) list" where
  "context_references t = (let invalid = sorted_set (filter (\<lambda>i. i \<notin> set (t_depends_on t))
       (cx_dependency_outputs (t_context t))) in
     if invalid = [] then []
     else [(''context.dependency_outputs'', ValueError ''context.dependency_outputs must be direct dependencies''
       (t_id t # invalid))])"

definition graph_found :: "task list \<Rightarrow> role_profile list \<Rightarrow> string list \<Rightarrow> string list \<Rightarrow> bool
    \<Rightarrow> (string \<times> string \<times> exn) list" where
  "graph_found tasks roles role_ids raw_task_ids legacy_serial = concat (map (\<lambda>t.
     map (\<lambda>(name, e). (''graph'', task_path (t_id t) name, e))
       (role_references roles role_ids legacy_serial t @ dependency_references raw_task_ids t @ context_references t)) tasks)"

definition unknown_dependency :: "task list \<Rightarrow> string list \<Rightarrow> bool" where
  "unknown_dependency tasks raw_task_ids \<longleftrightarrow> (\<exists>t \<in> set tasks. dependency_references raw_task_ids t \<noteq> [])"

text \<open>
  The leads of a graph whose roles and departments are clean. A plan change does not ask the
  tasks it leaves as they were.
\<close>

definition lead_exempt :: "task list \<Rightarrow> bool \<Rightarrow> plan option \<Rightarrow> string list" where
  "lead_exempt tasks legacy_serial inherited = legacy_exempt_task_ids tasks legacy_serial inherited
     @ (case inherited of None \<Rightarrow> []
        | Some p \<Rightarrow> map t_id (filter (\<lambda>t. task_map p (t_id t) = Some t) tasks))"

definition check_leads :: "bool \<Rightarrow> task list \<Rightarrow> role_profile list \<Rightarrow> department_contract list \<Rightarrow> bool \<Rightarrow> plan option
    \<Rightarrow> settled_tasks \<Rightarrow> unit reader" where
  "check_leads require_leads tasks roles departments legacy_serial inherited settled = lookC (\<lambda>c.
     if require_leads \<and> c_clean [''roles'', ''departments''] c \<and> c_clean [''compatibility''] c
     then bindC (liftC (validate_department_leads
         \<lparr>lg_tasks = tasks, lg_roles = roles, lg_departments = departments\<rparr>
         (lead_exempt tasks legacy_serial inherited) settled inherited False)) (\<lambda>found.
       addC (map (\<lambda>e. (''leads'', ''plan.tasks'', e)) found))
     else returnC ())"

section \<open>The pass\<close>

record read_plan =
  rd_goal :: "string option"
  rd_model_strategy :: "string option"
  rd_graph_version :: "int option"
  rd_goal_contract :: "goal_contract option option"
  rd_roles :: "role_profile list option"
  rd_skill_packs :: "skill_pack list option"
  rd_tasks :: "task list"
  rd_raw_task_ids :: "string list"
  rd_plan :: "plan option"

definition built_plan :: "string option \<Rightarrow> string option \<Rightarrow> string option \<Rightarrow> task list \<Rightarrow> role_profile list
    \<Rightarrow> department_contract list \<Rightarrow> int option \<Rightarrow> plan_scalars \<Rightarrow> (bool \<times> int) option
    \<Rightarrow> goal_contract option option \<Rightarrow> skill_pack list option \<Rightarrow> plan option" where
  "built_plan goal asked strategy tasks roles departments ver scalars compatibility contract packs =
     Option.bind goal (\<lambda>g. Option.bind asked (\<lambda>u. Option.bind strategy (\<lambda>m. Option.bind ver (\<lambda>n.
     Option.bind (ps_strategy scalars) (\<lambda>x. Option.bind (ps_workers scalars) (\<lambda>w. Option.bind (ps_slots scalars) (\<lambda>s.
     Option.bind compatibility (\<lambda>(legacy, source). Option.bind contract (\<lambda>gc. Option.bind packs (\<lambda>ks.
     Some \<lparr>pl_goal = g, pl_user_request = u, pl_model_strategy = m, pl_tasks = tasks, pl_roles = roles,
       pl_departments = departments, pl_graph_version = n, pl_execution_strategy = x,
       pl_max_parallel_workers = w, pl_computer_use_slots = s, pl_source_schema_version = source,
       pl_legacy_serial = legacy, pl_goal_contract = gc, pl_skill_packs = ks\<rparr>))))))))))"

definition check_cycles :: "task list \<Rightarrow> string list \<Rightarrow> unit reader" where
  "check_cycles tasks raw_task_ids = lookC (\<lambda>c.
     if c_clean [''tasks''] c \<and> \<not> unknown_dependency tasks raw_task_ids
     then bindC (c_check ''graph'' ''plan.tasks'' (validate_cycles tasks)) (\<lambda>_. returnC ()) else returnC ())"

definition finish_plan :: "(pyval \<Rightarrow> string) \<Rightarrow> (skill_pack \<Rightarrow> string) \<Rightarrow> plan option \<Rightarrow> plan option reader" where
  "finish_plan rp digest p = lookC (\<lambda>c. if \<not> c_clean PLAN_STAGES c then returnC None
     else bindC (case p of Some q \<Rightarrow> if c_clean [''graph''] c
         then bindC (c_check ''graph'' ''plan.skill_packs'' (validate_plan_skill_bindings rp digest q)) (\<lambda>_. returnC ())
         else returnC () | None \<Rightarrow> returnC ()) (\<lambda>_. returnC p))"

text \<open>
  What the entrance decides: whether a Goal Contract, acceptance classes and leads are required,
  and for a plan change the current plan and the settled tasks.
\<close>

record admission =
  ad_profile :: string
  ad_contract :: bool
  ad_class :: bool
  ad_inherited :: "plan option"
  ad_leads :: bool
  ad_settled :: settled_tasks

definition graph_plan :: "(pyval \<Rightarrow> string) \<Rightarrow> (skill_pack \<Rightarrow> string) \<Rightarrow> admission \<Rightarrow> pyval dict \<Rightarrow> read_plan reader" where
  "graph_plan rp digest a d =
     bindC (check_fields (ad_inherited a \<noteq> None) d) (\<lambda>_.
     bindC (plan_field ''header'' d plan_string ''goal'' PNone) (\<lambda>goal.
     bindC (plan_field ''header'' d plan_string ''user_request'' PNone) (\<lambda>asked.
     bindC (c_check ''header'' ''plan.model_strategy'' (model_strategy rp (ad_profile a) d)) (\<lambda>strategy.
     bindC (read_contract (ad_contract a) d) (\<lambda>contract.
     bindC (plan_field ''scalars'' d positive_int ''graph_version'' (PInt 1)) (\<lambda>ver.
     bindC (c_check ''scalars'' ''plan.execution_strategy'' (execution_strategy_of rp d)) (\<lambda>execution.
     bindC (plan_field ''scalars'' d positive_int ''max_parallel_workers'' (PInt DEFAULT_MAX_PARALLEL_WORKERS)) (\<lambda>workers.
     bindC (plan_field ''scalars'' d positive_int ''computer_use_slots'' (PInt DEFAULT_COMPUTER_USE_SLOTS)) (\<lambda>slots.
     let scalars = \<lparr>ps_strategy = execution, ps_workers = workers, ps_slots = slots\<rparr> in
     bindC (compatibility_of (ad_inherited a) d scalars) (\<lambda>compatibility.
     bindC (read_roles d) (\<lambda>read.
     let roles = somes read in
     bindC (lookC (\<lambda>c. returnC (if c_clean [''roles''] c then Some roles else None))) (\<lambda>kept_roles.
     bindC (c_check ''skill_packs'' ''plan.skill_packs''
       (skill_packs_from_raw (get_default d ''skill_packs'' (PList [])) ''plan.skill_packs'')) (\<lambda>packs.
     bindC (read_departments d roles) (\<lambda>departments.
     bindC (read_tasks rp (ad_profile a) (ad_class a) d) (\<lambda>tasks.
     let task_ids = raw_ids (get d ''tasks'');
         legacy_serial = (case compatibility of None \<Rightarrow> False | Some (b, n) \<Rightarrow> b) in
     bindC (addC (outcomes_found contract tasks)) (\<lambda>_.
     bindC (check_acceptance tasks legacy_serial (ad_inherited a)) (\<lambda>_.
     bindC (addC (graph_found tasks roles (raw_ids (get d ''roles'')) task_ids legacy_serial)) (\<lambda>_.
     bindC (check_leads (ad_leads a) tasks roles departments legacy_serial (ad_inherited a) (ad_settled a)) (\<lambda>_.
     bindC (finish_plan rp digest (built_plan goal asked strategy tasks roles departments ver scalars compatibility
       contract packs)) (\<lambda>p.
     bindC (check_cycles tasks task_ids) (\<lambda>_.
     returnC \<lparr>rd_goal = goal, rd_model_strategy = strategy, rd_graph_version = ver, rd_goal_contract = contract,
       rd_roles = kept_roles, rd_skill_packs = packs, rd_tasks = tasks, rd_raw_task_ids = task_ids, rd_plan = p\<rparr>)))))))))))))))))))))"

section \<open>The entrances\<close>

text \<open>
  \<^verbatim>\<open>_validate_graph_plan\<close>: the plan of a pass without issues, or every issue. A pass without issues
  has read a plan, as shown below.
\<close>

definition admitted :: "read_plan reader \<Rightarrow> plan option result" where
  "admitted m = bindE (m new_collector) (\<lambda>(read, c). bindE (raise_if_any c) (\<lambda>_. Inr (rd_plan read)))"

definition validate_graph_plan :: "(pyval \<Rightarrow> string) \<Rightarrow> (skill_pack \<Rightarrow> string) \<Rightarrow> admission \<Rightarrow> pyval dict \<Rightarrow> plan option result" where
  "validate_graph_plan rp digest a d = admitted (graph_plan rp digest a d)"

text \<open>
  \<^verbatim>\<open>validate_plan\<close>, the entrance of a submitted plan. A v0.8 payload (\<^verbatim>\<open>milestones\<close>) is refused here:
  there is no run it migrates.
\<close>

definition hashable :: "pyval \<Rightarrow> bool" where
  "hashable v = (case v of PList _ \<Rightarrow> False | PDict _ \<Rightarrow> False | _ \<Rightarrow> True)"

definition has_legacy_shape :: "pyval dict \<Rightarrow> bool" where
  "has_legacy_shape d \<longleftrightarrow> (get d ''schema_version'' = PNone
       \<or> py_eq (get d ''schema_version'') (PInt LEGACY_PLAN_SCHEMA_VERSION)) \<and> ''milestones'' \<in> set (keys d)"

definition submitted :: "string \<Rightarrow> admission" where
  "submitted profile = \<lparr>ad_profile = profile, ad_contract = True, ad_class = True, ad_inherited = None,
     ad_leads = True, ad_settled = ([], [])\<rparr>"

definition validate_plan :: "(pyval \<Rightarrow> string) \<Rightarrow> (skill_pack \<Rightarrow> string) \<Rightarrow> string \<Rightarrow> evidence_store option \<Rightarrow> pyval
    \<Rightarrow> plan option result" where
  "validate_plan rp digest profile store data =
     (case data of
        PDict d \<Rightarrow>
          if get d ''compatibility'' \<noteq> PNone then Inl (ValueError ''plan.compatibility is produced by migration, never declared'' [])
          else if profile \<notin> {''adaptive'', ''host-settings''} then Inl (ValueError ''profile must be adaptive or host-settings'' [])
          else if \<not> hashable (get d ''schema_version'') then Inl (TypeError ''unhashable type'')
          else if has_legacy_shape d then Inl (ValueError ''a v0.8 plan is accepted only when migrating an existing run'' [])
          else
            bindE (validate_graph_plan rp digest (submitted profile) d) (\<lambda>p. case p of None \<Rightarrow> Inr None
              | Some q \<Rightarrow> bindE (validate_trusted_skill_promotions rp digest (pl_skill_packs q) store) (\<lambda>_.
                  bindE (validate_plan_skill_qualifications rp digest q store) (\<lambda>_. Inr (Some q))))
      | _ \<Rightarrow> if profile \<notin> {''adaptive'', ''host-settings''} then Inl (ValueError ''profile must be adaptive or host-settings'' [])
          else Inl (ValueError ''plan must be an object'' []))"

section \<open>Plan changes\<close>

definition immutable_check :: "bool \<Rightarrow> string \<Rightarrow> exn \<Rightarrow> unit reader" where
  "immutable_check bad path e = (if bad then c_add ''immutables'' path e else returnC ())"

definition differs :: "'a option \<Rightarrow> 'a \<Rightarrow> bool" where
  "differs v x \<longleftrightarrow> (case v of None \<Rightarrow> False | Some y \<Rightarrow> y \<noteq> x)"

definition check_opt :: "string \<Rightarrow> 'a option \<Rightarrow> ('a \<Rightarrow> unit result) \<Rightarrow> unit reader" where
  "check_opt path v f = (case v of None \<Rightarrow> returnC ()
     | Some x \<Rightarrow> bindC (c_check ''immutables'' path (f x)) (\<lambda>_. returnC ()))"

text \<open>
  \<^verbatim>\<open>plan_change_candidate\<close>: a complete replacement graph. The user request is carried over from the
  current plan.
\<close>

definition changed :: "string \<Rightarrow> plan \<Rightarrow> settled_tasks \<Rightarrow> admission" where
  "changed profile current settled = \<lparr>ad_profile = profile, ad_contract = (pl_goal_contract current \<noteq> None),
     ad_class = True, ad_inherited = Some current, ad_leads = True, ad_settled = settled\<rparr>"

definition check_immutables :: "(pyval \<Rightarrow> string) \<Rightarrow> (skill_pack \<Rightarrow> string) \<Rightarrow> plan \<Rightarrow> evidence_store option
    \<Rightarrow> read_plan \<Rightarrow> unit reader" where
  "check_immutables rp digest current store read =
     bindC (immutable_check (differs (rd_graph_version read) (pl_graph_version current + 1)) ''plan.graph_version''
       (ValueError ''plan change graph_version must increment exactly once''
         [dec_int (pl_graph_version current), dec_int (pl_graph_version current + 1)])) (\<lambda>_.
     bindC (immutable_check (differs (rd_goal read) (pl_goal current)) ''plan.goal''
       (ValueError ''plan changes must not replace the run goal'' [])) (\<lambda>_.
     bindC (immutable_check (differs (rd_model_strategy read) (pl_model_strategy current)) ''plan.model_strategy''
       (ValueError ''plan changes must not replace model_strategy'' [])) (\<lambda>_.
     bindC (immutable_check (differs (rd_goal_contract read) (pl_goal_contract current)) ''plan.goal_contract''
       (ValueError ''plan changes must not replace the Goal Contract'' [])) (\<lambda>_.
     bindC (check_opt ''plan.roles'' (rd_roles read) (validate_role_specification_transition (pl_roles current))) (\<lambda>_.
     bindC (check_opt ''plan.skill_packs'' (rd_skill_packs read) (\<lambda>packs. validate_trusted_skill_promotions rp digest
       (filter (\<lambda>s. s \<notin> set (pl_skill_packs current)) packs) store)) (\<lambda>_.
     lookC (\<lambda>c. if c_clean [''graph''] c
       then check_opt ''plan.tasks'' (rd_plan read) (\<lambda>p. validate_plan_skill_qualifications rp digest p store)
       else returnC ())))))))"

definition plan_change_candidate :: "(pyval \<Rightarrow> string) \<Rightarrow> (skill_pack \<Rightarrow> string) \<Rightarrow> string \<Rightarrow> plan \<Rightarrow> evidence_store option
    \<Rightarrow> settled_tasks \<Rightarrow> pyval dict \<Rightarrow> read_plan reader" where
  "plan_change_candidate rp digest profile current store settled data =
     bindC (graph_plan rp digest (changed profile current settled)
       (AList.update ''user_request'' (PStr (pl_user_request current)) data)) (\<lambda>read.
     bindC (check_immutables rp digest current store read) (\<lambda>_. returnC read))"

definition validate_plan_change :: "(pyval \<Rightarrow> string) \<Rightarrow> (skill_pack \<Rightarrow> string) \<Rightarrow> string \<Rightarrow> plan \<Rightarrow> evidence_store option
    \<Rightarrow> settled_tasks \<Rightarrow> pyval \<Rightarrow> plan option result" where
  "validate_plan_change rp digest profile current store settled data =
     (if profile \<notin> {''adaptive'', ''host-settings''} then Inl (ValueError ''profile must be adaptive or host-settings'' [])
      else (case data of
          PDict d \<Rightarrow> admitted (plan_change_candidate rp digest profile current store settled d)
        | _ \<Rightarrow> Inl (ValueError ''plan must be an object'' [])))"

section \<open>The replanner's reply\<close>

definition PLAN_CHANGE_RESULT_PREFIX :: string where
  "PLAN_CHANGE_RESULT_PREFIX = ''AUTOPILOT_PLAN_CHANGE:''"

definition ENVELOPE_FIELDS :: "string list" where
  "ENVELOPE_FIELDS = [''request_id'', ''base_graph_version'', ''plan'']"

definition envelope_of :: "pyval dict \<Rightarrow> string \<Rightarrow> int \<Rightarrow> pyval dict option reader" where
  "envelope_of raw request_id base =
     (let unknown = sorted_set (filter (\<lambda>k. k \<notin> set ENVELOPE_FIELDS) (keys raw));
          missing = filter (\<lambda>k. k \<notin> set (keys raw)) ENVELOPE_FIELDS;
          given = get raw ''base_graph_version'' in
      bindC (if unknown \<noteq> [] \<or> missing \<noteq> []
        then c_add ''protocol'' ''protocol'' (UnknownFieldsError ''plan change result fields must be exactly''
          (unknown @ missing)) else returnC ()) (\<lambda>_.
      bindC (if ''request_id'' \<in> set (keys raw) \<and> get raw ''request_id'' \<noteq> PStr request_id
        then c_add ''protocol'' ''protocol.request_id'' (ValueError ''plan change request_id must be'' [request_id])
        else returnC ()) (\<lambda>_.
      bindC (if ''base_graph_version'' \<in> set (keys raw) \<and> ((\<exists>b. given = PBool b) \<or> \<not> py_eq given (PInt base))
        then c_add ''protocol'' ''protocol.base_graph_version'' (ValueError ''base_graph_version must be'' [dec_int base])
        else returnC ()) (\<lambda>_.
      case get raw ''plan'' of
        PDict p \<Rightarrow> returnC (Some p)
      | _ \<Rightarrow> bindC (if ''plan'' \<in> set (keys raw)
          then c_add ''protocol'' ''protocol.plan'' (ValueError ''plan change result plan must be an object'' [])
          else returnC ()) (\<lambda>_. returnC None)))))"

definition read_envelope :: "string \<Rightarrow> string \<Rightarrow> int \<Rightarrow> pyval dict option reader" where
  "read_envelope message request_id base = (case single_final_protocol_object message PLAN_CHANGE_RESULT_PREFIX of
     Inl e \<Rightarrow> bindC (c_add ''protocol'' ''protocol'' e) (\<lambda>_. returnC None)
   | Inr None \<Rightarrow> bindC (c_add ''protocol'' ''protocol'' (ValueError ''replanner must end with exactly one result object''
       [request_id, dec_int base])) (\<lambda>_. returnC None)
   | Inr (Some raw) \<Rightarrow> envelope_of raw request_id base)"

definition coverage_found :: "read_plan \<Rightarrow> (string \<times> string \<times> exn) list" where
  "coverage_found read = (case rd_goal_contract read of
     Some (Some g) \<Rightarrow> map (\<lambda>i. (''coverage'', ''plan.goal_contract'',
         ValueError ''proposed plan failed deterministic coverage admission'' [pi_summary i])) (coverage_issues g (rd_tasks read))
   | _ \<Rightarrow> [])"

definition check_coverage :: "read_plan \<Rightarrow> unit reader" where
  "check_coverage read = lookC (\<lambda>c. if c_clean [''tasks''] c then addC (coverage_found read) else returnC ())"

text \<open>
  The conditions on run state that can only get worse (\<^verbatim>\<open>state_issues\<close>). The active change asks for a
  lead or for the roster; what the roster of \<^verbatim>\<open>staffing.py\<close> reports of a plan is the argument \<open>roster\<close>.
\<close>

definition removed_tasks :: "plan \<Rightarrow> read_plan \<Rightarrow> string \<Rightarrow> (string \<times> exn) list" where
  "removed_tasks current read requester = (if rd_raw_task_ids read = [] then []
     else (let removed = sorted_set (filter (\<lambda>i. i \<notin> set (rd_raw_task_ids read)) (task_ids current)) in
       (if removed \<noteq> [] then [(''plan.tasks'', ValueError ''plan changes cannot remove tasks with durable history'' removed)] else [])
       @ (if requester \<noteq> [] \<and> requester \<notin> set (rd_raw_task_ids read)
          then [(''plan.tasks'', ValueError ''plan change requester must remain in the graph'' [])] else [])))"

definition graph_of_plan :: "plan \<Rightarrow> lead_graph" where
  "graph_of_plan p = \<lparr>lg_tasks = pl_tasks p, lg_roles = pl_roles p, lg_departments = pl_departments p\<rparr>"

definition requester_lead :: "read_plan \<Rightarrow> settled_tasks \<Rightarrow> string \<Rightarrow> (string \<times> exn) list result" where
  "requester_lead read settled requester = (case rd_plan read of None \<Rightarrow> Inr []
     | Some p \<Rightarrow> (case task_map p requester of None \<Rightarrow> Inr []
         | Some t \<Rightarrow> (case derive_task_department (graph_of_plan p) (fst settled) t of
             Inr dep \<Rightarrow> Inr []
           | Inl e \<Rightarrow> if is_value_error e
               then Inr [(''task '' @ requester, ValueError ''R30: requester has no department lead in the new graph'' [requester])] else Inl e)))"

definition settled_rewrites :: "plan \<Rightarrow> read_plan \<Rightarrow> (string \<times> string) list \<Rightarrow> (string \<times> exn) list" where
  "settled_rewrites current read states = concat (map (\<lambda>t.
     case (task_map current (t_id t), map_of (rev states) (t_id t)) of
       (Some b, Some s) \<Rightarrow> if s \<in> {state_value VERIFIED, state_value CANCELLED} \<and> b \<noteq> t
         then [(''task '' @ t_id t, ValueError ''task is immutable during plan evolution'' [s, t_id t])] else []
     | _ \<Rightarrow> []) (rd_tasks read))"

record active_change =
  ac_requires_lead :: bool
  ac_requires_roster :: bool

definition state_issues :: "(plan \<Rightarrow> string list \<Rightarrow> exn list) \<Rightarrow> plan \<Rightarrow> read_plan \<Rightarrow> active_change
    \<Rightarrow> (string \<times> string) list \<Rightarrow> string \<Rightarrow> (string \<times> exn) list result" where
  "state_issues roster current read change states requester = (let settled = settled_task_ids states in
     bindE (if ac_requires_lead change then requester_lead read settled requester else Inr []) (\<lambda>lead.
     Inr (removed_tasks current read requester @ lead
       @ (if ac_requires_roster change then (case rd_plan read of None \<Rightarrow> []
            | Some p \<Rightarrow> map (Pair ''plan.tasks'') (roster p (fst settled))) else [])
       @ settled_rewrites current read states)))"

text \<open>\<^verbatim>\<open>admit_replanner_result\<close>: the payload of the reply and the plan it admits.\<close>

definition admit_replanner_result :: "(pyval \<Rightarrow> string) \<Rightarrow> (skill_pack \<Rightarrow> string) \<Rightarrow> (plan \<Rightarrow> string list \<Rightarrow> exn list)
    \<Rightarrow> string \<Rightarrow> plan \<Rightarrow> string \<Rightarrow> string \<Rightarrow> int \<Rightarrow> string \<Rightarrow> evidence_store option \<Rightarrow> active_change
    \<Rightarrow> (string \<times> string) list \<Rightarrow> (pyval dict \<times> plan option) result" where
  "admit_replanner_result rp digest roster profile current message request_id base requester store change states =
     (if base \<noteq> pl_graph_version current
      then Inl (PlanChangeConflictError ''the graph moved under the replanner'' [dec_int base, dec_int (pl_graph_version current)])
      else
      bindE (read_envelope message request_id base new_collector) (\<lambda>(raw, c0).
      case raw of
        None \<Rightarrow> bindE (raise_if_any c0) (\<lambda>_. Inl (TypeError ''the plan was not read''))
      | Some d \<Rightarrow>
        bindE (plan_change_candidate rp digest profile current store (settled_task_ids states) d c0) (\<lambda>(read, c1).
        bindE (check_coverage read c1) (\<lambda>(_, c2).
        bindE (state_issues roster current read change states requester) (\<lambda>found.
        bindE (addC (map (\<lambda>(path, e). (''state'', path, e)) found) c2) (\<lambda>(_, c3).
        bindE (raise_if_any c3) (\<lambda>_. Inr (d, rd_plan read))))))))"

end
