(* ===== verification/PlanTypes.thy ===== *)
theory PlanTypes
  imports PlanAdmission
begin

text \<open>
  What an admitted plan is. The type of a plan and its parts, the conditions of the admission
  stated over the plan itself, and the two directions: a plan that is admitted satisfies them,
  and a plan that satisfies them is admitted, from the object it is stored as, as itself.
\<close>

section \<open>Departments\<close>

lemma dept_text_Inr: "dept_text n v label = Inr s \<Longrightarrow> stripped s \<and> length s \<le> n"
  by (auto simp: dept_text_def stripped_strip split: pyval.splits if_splits)

lemma dept_text_round: "stripped s \<Longrightarrow> length s \<le> n \<Longrightarrow> dept_text n (PStr s) label = Inr s"
  by (auto simp: dept_text_def stripped_def)

lemma dept_identifier_read: "dept_identifier v label = Inr s \<Longrightarrow> id_ok s"
  by (auto simp: dept_identifier_def id_ok_def split: if_splits dest: dept_text_Inr)

lemma dept_identifier_round: "id_ok s \<Longrightarrow> dept_identifier (PStr s) label = Inr s"
  by (simp add: dept_identifier_def id_ok_def dept_text_round is_skill_id_def)

lemma dept_exact_keys_Inr [simp]:
  "dept_exact_keys d allowed needed label = Inr u \<longleftrightarrow> set (keys d) \<subseteq> set allowed \<and> set needed \<subseteq> set (keys d)"
  by (auto simp: dept_exact_keys_def Let_def filter_empty_conv)

definition rubric_typed :: "rubric_reference \<Rightarrow> bool" where
  "rubric_typed r \<longleftrightarrow> stripped (rr_record_id r) \<and> length (rr_record_id r) \<le> 128 \<and> 1 \<le> rr_version r
     \<and> stripped (rr_sha256 r) \<and> is_sha256 (rr_sha256 r)"

lemma dept_positive_int_Inr [simp]: "dept_positive_int v label = Inr n \<longleftrightarrow> v = PInt n \<and> 1 \<le> n"
  by (auto simp: dept_positive_int_def split: pyval.splits)

interpretation rubric_codec: codec rubric_reference_to_dict "\<lambda>v. rubric_reference_from_raw v label" rubric_typed
  for label
proof
  fix d r assume "rubric_reference_from_raw d label = Inr r"
  then show "rubric_typed r"
    by (auto simp: rubric_reference_from_raw_def rubric_typed_def split: if_split_asm dest: dept_text_Inr)
next
  fix r assume r: "rubric_typed r"
  then have "length (rr_sha256 r) \<le> 64" by (simp add: rubric_typed_def is_sha256_def)
  with r show "rubric_reference_from_raw (rubric_reference_to_dict r) label = Inr r"
    by (simp add: rubric_reference_from_raw_def rubric_reference_to_dict_def dept_object_def get_def
        RUBRIC_REFERENCE_FIELDS_def rubric_typed_def dept_text_round)
qed

definition department_typed :: "department_contract \<Rightarrow> bool" where
  "department_typed d \<longleftrightarrow> id_ok (de_id d) \<and> stripped (de_name d) \<and> length (de_name d) \<le> 256
     \<and> id_ok (de_lead_role_id d) \<and> pred_option rubric_typed (de_rubric d)"

interpretation department_codec: codec department_contract_to_dict "\<lambda>v. department_contract_from_raw v label"
  department_typed for label
proof
  fix d r assume "department_contract_from_raw d label = Inr r"
  then show "department_typed r"
    by (auto simp: department_contract_from_raw_def department_typed_def split: if_split_asm
        dest: dept_text_Inr dept_identifier_read rubric_codec.dec_ok)
next
  fix r assume r: "department_typed r"
  then show "department_contract_from_raw (department_contract_to_dict r) label = Inr r"
    by (cases "de_rubric r")
      (auto simp: department_contract_from_raw_def department_contract_to_dict_def dept_object_def get_def
        DEPARTMENT_FIELDS_def DEPARTMENT_REQUIRED_FIELDS_def department_typed_def dept_text_round
        dept_identifier_round rubric_codec.round_trip)
qed

lemma department_issues_Nil: "department_contract_issues ds role_ids = [] \<longleftrightarrow>
   distinct (map de_id ds) \<and> distinct (map de_lead_role_id ds) \<and> (\<forall>d \<in> set ds. de_lead_role_id d \<in> set role_ids)"
  by (auto simp: department_contract_issues_def Let_def duplicates_Nil filter_empty_conv)

section \<open>Stages without a violation\<close>

lemma somes_map_Some [simp]: "somes (map Some xs) = xs"
  by (induction xs) (auto simp: somes_def)

lemma grows_check_fields [growing, intro]: "grows (check_fields b d)"
  unfolding check_fields_def by (intro growing)

lemma check_fields_fresh [reading]:
  "fresh c \<Longrightarrow> check_fields b d c = Inr (u, c)
     \<longleftrightarrow> fst ` set d \<subseteq> set PLAN_FIELDS \<and> py_eq (get d ''schema_version'') (PInt PLAN_SCHEMA_VERSION)"
  by (auto simp: check_fields_def bind_fresh growing reading)

lemma grows_plan_field [growing, intro]: "grows (plan_field stage d f name dflt)"
  unfolding plan_field_def by (intro growing)

lemma plan_field_fresh [reading]:
  "fresh c \<Longrightarrow> plan_field stage d f name dflt c = Inr (x, c)
     \<longleftrightarrow> (\<exists>v. f (get_default d name dflt) (''plan.'' @ name) = Inr v \<and> x = Some v)"
  by (simp add: plan_field_def field_fresh)

lemma grows_contract [growing, intro]: "grows (read_contract b d)"
  unfolding read_contract_def by (intro growing)

lemma read_contract_fresh [reading]:
  "fresh c \<Longrightarrow> read_contract True d c = Inr (x, c) \<longleftrightarrow> get d ''goal_contract'' \<noteq> PNone
     \<and> (\<exists>g. validate_goal_contract (get d ''goal_contract'') ''plan.goal_contract'' = Inr g \<and> x = Some (Some g))"
  by (auto simp: read_contract_def bind_fresh growing reading)

lemma grows_compatibility [growing, intro]: "grows (compatibility_of inherited d scalars)"
  unfolding compatibility_of_def inherited_compatibility_def declared_compatibility_def serial_issue_def Let_def
  by (auto split: option.split pyval.split intro!: growing)

lemma compatibility_submitted [reading]:
  "get d ''compatibility'' = PNone \<Longrightarrow> compatibility_of None d scalars c = Inr (x, c)
     \<longleftrightarrow> x = Some (False, PLAN_SCHEMA_VERSION)"
  by (auto simp: compatibility_of_def reading)

text \<open>A list read item by item: every item is read.\<close>

definition read_each :: "('a \<Rightarrow> nat \<Rightarrow> 'b \<Rightarrow> bool) \<Rightarrow> 'a list \<Rightarrow> 'b list \<Rightarrow> bool" where
  "read_each R xs ys \<longleftrightarrow> list_all2 (\<lambda>p y. R (snd p) (fst p) y) (enumerate_from_1 xs) ys"

lemma read_eachD: "read_each R xs ys \<Longrightarrow> (\<And>x i y. R x i y \<Longrightarrow> ok y) \<Longrightarrow> \<forall>y \<in> set ys. ok y"
  unfolding read_each_def by (induction rule: list_all2_induct) auto

lemma read_eachI: "\<forall>y \<in> set ys. ok y \<Longrightarrow> (\<And>y i. ok y \<Longrightarrow> R (enc y) i y) \<Longrightarrow> read_each R (map enc ys) ys"
  by (auto simp: read_each_def list_all2_conv_all_nth enumerate_from_1_def simp del: upt_Suc)

lemma read_each_length: "read_each R xs ys \<Longrightarrow> length ys = length xs"
  unfolding read_each_def by (drule list_all2_lengthD) (simp add: enumerate_from_1_def del: upt_Suc)

lemma mapC_each:
  assumes c: "fresh c" and g: "\<And>x i. grows (f x i)" and f: "\<And>x i. f x i c \<noteq> Inr (None, c)"
  shows "mapC (\<lambda>(i, x). f x i) (enumerate_from_1 xs) c = Inr (zs, c)
     \<longleftrightarrow> (\<exists>ys. zs = map Some ys \<and> read_each (\<lambda>x i y. f x i c = Inr (Some y, c)) xs ys)"
proof -
  have "list_all2 (\<lambda>p z. f (snd p) (fst p) c = Inr (z, c)) ps zs
      \<longleftrightarrow> (\<exists>ys. zs = map Some ys \<and> list_all2 (\<lambda>p y. f (snd p) (fst p) c = Inr (Some y, c)) ps ys)" for ps
  proof (induction ps arbitrary: zs)
    case (Cons p ps)
    have some: "f (snd p) (fst p) c = Inr (z, c) \<longleftrightarrow> (\<exists>y. z = Some y \<and> f (snd p) (fst p) c = Inr (Some y, c))" for z
      using f [of "snd p" "fst p"] by (cases z) auto
    show ?case
      unfolding list_all2_Cons1 Cons.IH by (subst some) (auto simp: Cons_eq_map_conv)
  qed simp
  then show ?thesis
    unfolding read_each_def case_prod_beta mapC_fresh [OF c g] by simp
qed

lemma grows_each: "(\<And>x i. grows (f x i)) \<Longrightarrow> grows (mapC (\<lambda>(i, x). f x i) ps)"
  by (rule grows_mapC) (simp add: case_prod_beta)

lemma grows_read_roles [growing, intro]: "grows (read_roles d)"
  unfolding read_roles_def
  by (auto split: pyval.split list.split intro!: growing grows_each role_reader.only_adds)

lemma read_roles_fresh:
  assumes c: "fresh c"
  shows "read_roles d c = Inr (x, c) \<longleftrightarrow> (\<exists>xs rs. get d ''roles'' = PList xs \<and> xs \<noteq> [] \<and> x = map Some rs
     \<and> read_each (\<lambda>x i r. role_from_raw ''roles'' x i c = Inr (Some r, c)) xs rs \<and> distinct (map ro_id rs))"
proof (cases "\<exists>xs. get d ''roles'' = PList xs \<and> xs \<noteq> []")
  case True
  then obtain y ys where d: "get d ''roles'' = PList (y # ys)" by (metis neq_Nil_conv)
  have "None \<notin> set (map Some rs)" for rs :: "role_profile list" by auto
  then show ?thesis
    unfolding read_roles_def d pyval.case list.case
    by (subst bind_fresh [OF c]; (intro growing grows_each role_reader.only_adds)?)
      (auto simp: mapC_each [OF c role_reader.only_adds role_reader.never_None [OF c]] bind_fresh [OF c] growing
        check_fresh [OF c] return_fresh)
next
  case False
  then show ?thesis
    using c by (auto simp: read_roles_def bind_fresh growing reading split: pyval.split list.split)
qed

lemma grows_read_departments [growing, intro]: "grows (read_departments d roles)"
  unfolding read_departments_def
  by (auto split: pyval.split list.split intro!: growing simp: case_prod_beta)

lemma read_departments_fresh:
  assumes c: "fresh c"
  shows "read_departments d roles c = Inr (x, c) \<longleftrightarrow> (\<exists>xs. get_default d ''departments'' (PList []) = PList xs
     \<and> read_each (\<lambda>x i r. department_contract_from_raw x (''department '' @ dec_nat i) = Inr r) xs x
     \<and> department_contract_issues x (map ro_id roles) = [])"
proof (cases "\<exists>xs. get_default d ''departments'' (PList []) = PList xs")
  case True
  then obtain xs where d: "get_default d ''departments'' (PList []) = PList xs" by blast
  let ?f = "\<lambda>(i, x). c_check ''departments'' (''plan.departments['' @ dec_nat i @ '']'')
         (department_contract_from_raw x (''department '' @ dec_nat i))"
  let ?k = "\<lambda>departments. lookC (\<lambda>c. if \<not> c_clean [''departments''] c then returnC []
       else bindC (if c_clean [''roles''] c then addC (map (\<lambda>e. (''departments'', ''plan.departments'', e))
             (department_contract_issues (somes departments) (map ro_id roles))) else returnC ())
         (\<lambda>_. returnC (somes departments)))"
  have each: "mapC ?f (enumerate_from_1 xs) c = Inr (zs, c) \<longleftrightarrow> (\<exists>ys. zs = map Some ys
     \<and> read_each (\<lambda>x i r. department_contract_from_raw x (''department '' @ dec_nat i) = Inr r) xs ys)" for zs
    using mapC_each [OF c, of "\<lambda>x i. c_check ''departments'' (''plan.departments['' @ dec_nat i @ '']'')
         (department_contract_from_raw x (''department '' @ dec_nat i))" xs zs] c
    by (simp add: growing check_fresh)
  have k: "?k zs c = Inr (x, c) \<longleftrightarrow> department_contract_issues (somes zs) (map ro_id roles) = [] \<and> x = somes zs" for zs
    using c by (auto simp: look_fresh clean_fresh bind_fresh growing addC_fresh return_fresh)
  have "grows (mapC ?f (enumerate_from_1 xs))" "\<And>zs. grows (?k zs)"
    by (auto simp: case_prod_beta intro!: growing)
  note step = bind_fresh [OF c this]
  show ?thesis unfolding read_departments_def d pyval.case step each k by auto
next
  case False
  then show ?thesis
    using c by (auto simp: read_departments_def bind_fresh growing reading split: pyval.split)
qed

lemma grows_read_task [growing, intro]: "grows (read_task rp profile require_class raw index)"
  unfolding read_task_def Let_def by (auto split: pyval.split intro!: growing)

lemma read_task_has_type:
  "fresh c \<Longrightarrow> read_task rp profile require_class raw i c = Inr (x, c) \<Longrightarrow> \<exists>t. x = Some t \<and> task_typed profile t"
  by (auto simp: read_task_def Let_def bind_fresh growing reading split: pyval.splits dest: task_read)

lemma read_task_back:
  "fresh c \<Longrightarrow> task_typed profile t \<Longrightarrow> read_task rp profile require_class (task_to_dict t) i c = Inr (Some t, c)"
  using task_round [of c profile t] by (auto simp: read_task_def Let_def task_to_dict_def)

interpretation task_reader: plan_reader "read_task rp profile require_class" task_to_dict "task_typed profile"
  for rp profile require_class
  by unfold_locales (rule grows_read_task, erule (1) read_task_has_type, erule (1) read_task_back)

lemma grows_read_tasks [growing, intro]: "grows (read_tasks rp profile require_class d)"
  unfolding read_tasks_def
  by (auto split: pyval.split list.split intro!: growing grows_each)

lemma read_tasks_fresh:
  assumes c: "fresh c"
  shows "read_tasks rp profile require_class d c = Inr (ts, c) \<longleftrightarrow> (\<exists>xs. get d ''tasks'' = PList xs \<and> xs \<noteq> []
     \<and> read_each (\<lambda>x i t. read_task rp profile require_class x i c = Inr (Some t, c)) xs ts \<and> distinct (map t_id ts))"
proof (cases "\<exists>xs. get d ''tasks'' = PList xs \<and> xs \<noteq> []")
  case True
  then obtain y ys where d: "get d ''tasks'' = PList (y # ys)" by (metis neq_Nil_conv)
  let ?k = "\<lambda>tasks. bindC (lookC (\<lambda>c. if c_clean [''tasks''] c
         then c_check ''tasks'' ''plan.tasks'' (validate_unique (map t_id (somes tasks)) ''task id'') else returnC None)) (\<lambda>_.
       returnC (somes tasks))"
  have k: "?k zs c = Inr (ts, c) \<longleftrightarrow> distinct (map t_id (somes zs)) \<and> ts = somes zs" for zs
    using c by (auto simp: look_fresh clean_fresh bind_fresh growing check_fresh return_fresh)
  have "grows (mapC (\<lambda>(i, r). read_task rp profile require_class r i) (enumerate_from_1 (y # ys)))" "\<And>zs. grows (?k zs)"
    by (auto intro!: growing grows_each)
  note step = bind_fresh [OF c this]
  show ?thesis
    unfolding read_tasks_def d pyval.case list.case step
      mapC_each [OF c task_reader.only_adds task_reader.never_None [OF c]] k by auto
next
  case False
  then show ?thesis
    using c by (auto simp: read_tasks_def bind_fresh growing reading split: pyval.split list.split)
qed

lemma raw_ids_tasks: "\<forall>t \<in> set ts. id_ok (t_id t) \<Longrightarrow> raw_ids (PList (map task_to_dict ts)) = map t_id ts"
  by (induction ts) (auto simp: raw_ids_def task_to_dict_def get_def id_ok_def stripped_def)

lemma raw_ids_roles: "\<forall>r \<in> set rs. id_ok (ro_id r) \<Longrightarrow> raw_ids (PList (map role_profile_to_dict rs)) = map ro_id rs"
  by (induction rs) (auto simp: raw_ids_def role_profile_to_dict_def get_def id_ok_def stripped_def)

lemma plan_identifier_raw: "plan_identifier v l = Inr s \<Longrightarrow> \<exists>r. v = PStr r \<and> strip r = s \<and> s \<noteq> []"
  by (auto simp: plan_identifier_def plan_string_def split: pyval.splits if_splits)

lemma read_task_id:
  assumes c: "fresh c" and r: "read_task rp profile require_class x i c = Inr (Some t, c)"
  shows "\<exists>d s. x = PDict d \<and> get d ''id'' = PStr s \<and> strip s = t_id t \<and> t_id t \<noteq> []"
proof -
  obtain d w p m b where x: "x = PDict d"
    and p: "task_place_from_raw rp ''tasks'' profile (''task '' @ dec_nat i) True None None None d c = Inr (Some p, c)"
    and t: "t = task_of_parts w p m b"
    using r c by (cases x) (auto simp: read_task_def Let_def task_from_raw_def bind_fresh growing reading
      eq_commute [of "Some t"] bind_eq_Some_conv)
  have "plan_identifier (get_default d ''id'' PNone) ((''task '' @ dec_nat i) @ ''.'' @ ''id'') = Inr (tp_id p)"
    using p c by (clarsimp simp: task_place_from_raw_def resolved_text_def resolved_dependencies_def bind_fresh growing
        reading verification_has_read)
  from plan_identifier_raw [OF this] x t show ?thesis
    by (auto simp: task_of_parts_def get_default_def get_def split: option.splits)
qed

lemma read_each_plain: "read_each R xs ys \<Longrightarrow> (\<And>x i y. R x i y \<Longrightarrow> Q x y) \<Longrightarrow> list_all2 Q xs ys"
  by (auto simp: read_each_def list_all2_conv_all_nth enumerate_from_1_def simp del: upt_Suc)

lemma raw_ids_read:
  "list_all2 (\<lambda>x y. \<exists>d s. x = PDict d \<and> get d ''id'' = PStr s \<and> strip s = k y \<and> k y \<noteq> []) xs ys
     \<Longrightarrow> raw_ids (PList xs) = map k ys"
proof (induction rule: list_all2_induct)
  case (Cons x xs y ys)
  have "raw_ids (PList (x # xs)) = raw_ids (PList [x]) @ raw_ids (PList xs)" by (simp add: raw_ids_def)
  with Cons show ?case by (auto simp: raw_ids_def)
qed (simp add: raw_ids_def)

lemma read_task_ids:
  assumes c: "fresh c" and r: "read_each (\<lambda>x i t. read_task rp profile require_class x i c = Inr (Some t, c)) xs ts"
  shows "raw_ids (PList xs) = map t_id ts"
  by (rule raw_ids_read, rule read_each_plain [OF r], rule read_task_id [OF c])

lemma read_role_id:
  assumes c: "fresh c" and r: "role_from_raw stage x i c = Inr (Some t, c)"
  shows "\<exists>d s. x = PDict d \<and> get d ''id'' = PStr s \<and> strip s = ro_id t \<and> ro_id t \<noteq> []"
proof -
  obtain d where x: "x = PDict d"
    and p: "plan_identifier (get_default d ''id'' PNone) ((''role '' @ dec_nat i) @ ''.'' @ ''id'') = Inr (ro_id t)"
    using r c by (clarsimp simp: role_from_raw_def Let_def object_fresh bind_fresh growing reading)
  from plan_identifier_raw [OF p] x show ?thesis
    by (auto simp: get_default_def get_def split: option.splits)
qed

lemma read_role_ids:
  assumes c: "fresh c" and r: "read_each (\<lambda>x i t. role_from_raw stage x i c = Inr (Some t, c)) xs ts"
  shows "raw_ids (PList xs) = map ro_id ts"
  by (rule raw_ids_read, rule read_each_plain [OF r], rule read_role_id [OF c])

section \<open>The checks\<close>

lemma outcomes_found_Nil: "outcomes_found (Some (Some g)) ts = [] \<longleftrightarrow>
   (\<forall>t \<in> set ts. t_produces_outcomes t \<noteq> [] \<and> distinct (t_produces_outcomes t)
      \<and> set (t_produces_outcomes t) \<subseteq> set (outcome_ids g))"
  by (auto simp: outcomes_found_def outcome_binding_clean)

definition floor_ok :: "task \<Rightarrow> bool" where
  "floor_ok t \<longleftrightarrow> vp_policy (t_verification t) = ''independent'' \<and> vp_required (t_verification t)
     \<and> 2 \<le> vp_max_revision_attempts (t_verification t)
     \<and> (\<exists>k \<in> set (vp_deterministic_checks (t_verification t)). is_clean_suite_command k)"

lemma task_floor_Nil: "task_floor_issues t = [] \<longleftrightarrow> floor_ok t"
  by (auto simp: task_floor_issues_def Let_def floor_ok_def not_less list_ex_iff)

lemma acceptance_issues_Nil: "acceptance_issues ts False None = [] \<longleftrightarrow> (\<forall>t \<in> set ts. floor_ok t)"
  by (auto simp: acceptance_issues_def legacy_exempt_task_ids_def task_floor_Nil)

lemma grows_check_acceptance [growing, intro]: "grows (check_acceptance ts l p)"
  unfolding check_acceptance_def by (intro growing)

lemma check_acceptance_fresh [reading]:
  "fresh c \<Longrightarrow> check_acceptance ts False None c = Inr (u, c) \<longleftrightarrow> (\<forall>t \<in> set ts. floor_ok t)"
  by (simp add: check_acceptance_def look_fresh clean_fresh addC_fresh acceptance_issues_Nil)

text \<open>The references of a task: its role, its verifier's role, its prerequisites and its context.\<close>

definition references_typed :: "role_profile list \<Rightarrow> string list \<Rightarrow> task \<Rightarrow> bool" where
  "references_typed roles ids t \<longleftrightarrow> t_role t \<in> set (map ro_id roles) \<and> \<not> legacy_role_of roles (t_role t)
     \<and> (\<forall>l. named_lead t = Some l \<longrightarrow> l \<in> set (map ro_id roles) \<and> \<not> legacy_role_of roles l)
     \<and> t_id t \<notin> set (t_depends_on t) \<and> set (t_depends_on t) \<subseteq> set ids
     \<and> set (cx_dependency_outputs (t_context t)) \<subseteq> set (t_depends_on t)"

lemma dependency_references_Nil:
  "dependency_references ids t = [] \<longleftrightarrow> t_id t \<notin> set (t_depends_on t) \<and> set (t_depends_on t) \<subseteq> set ids"
proof -
  have "(if dep = t_id t then [x] else if dep \<notin> set ids then [y] else []) = [] \<longleftrightarrow> dep \<noteq> t_id t \<and> dep \<in> set ids"
    for dep and x y :: "string \<times> exn" by simp
  then have "dependency_references ids t = [] \<longleftrightarrow> (\<forall>dep \<in> set (t_depends_on t). dep \<noteq> t_id t \<and> dep \<in> set ids)"
    unfolding dependency_references_def concat_eq_Nil_conv set_map by (simp only: ball_simps)
  also have "\<dots> \<longleftrightarrow> t_id t \<notin> set (t_depends_on t) \<and> set (t_depends_on t) \<subseteq> set ids" by blast
  finally show ?thesis .
qed

lemma role_references_Nil:
  "role_references roles (map ro_id roles) False t = [] \<longleftrightarrow>
     t_role t \<in> set (map ro_id roles) \<and> \<not> legacy_role_of roles (t_role t)
     \<and> (\<forall>l. named_lead t = Some l \<longrightarrow> l \<in> set (map ro_id roles) \<and> \<not> legacy_role_of roles l)"
  by (auto simp: role_references_def split: option.split)

lemma context_references_Nil:
  "context_references t = [] \<longleftrightarrow> set (cx_dependency_outputs (t_context t)) \<subseteq> set (t_depends_on t)"
  by (auto simp: context_references_def Let_def filter_empty_conv)

lemma graph_found_Nil: "graph_found ts roles (map ro_id roles) ids False = [] \<longleftrightarrow> (\<forall>t \<in> set ts. references_typed roles ids t)"
proof -
  have "graph_found ts roles (map ro_id roles) ids False = [] \<longleftrightarrow>
      (\<forall>t \<in> set ts. role_references roles (map ro_id roles) False t = [] \<and> dependency_references ids t = []
        \<and> context_references t = [])"
    by (simp add: graph_found_def)
  also have "\<dots> \<longleftrightarrow> (\<forall>t \<in> set ts. references_typed roles ids t)"
    unfolding references_typed_def dependency_references_Nil role_references_Nil context_references_Nil by blast
  finally show ?thesis .
qed

lemma unknown_dependency_False: "\<forall>t \<in> set ts. references_typed roles ids t \<Longrightarrow> \<not> unknown_dependency ts ids"
  by (auto simp: unknown_dependency_def references_typed_def dependency_references_Nil)

definition plan_graph :: "task list \<Rightarrow> role_profile list \<Rightarrow> department_contract list \<Rightarrow> lead_graph" where
  "plan_graph ts rs ds = \<lparr>lg_tasks = ts, lg_roles = rs, lg_departments = ds\<rparr>"

definition leads_ok :: "task list \<Rightarrow> role_profile list \<Rightarrow> department_contract list \<Rightarrow> bool" where
  "leads_ok ts rs ds \<longleftrightarrow> validate_department_leads (plan_graph ts rs ds) [] ([], []) None False = Inr []"

lemma grows_check_leads [growing, intro]: "grows (check_leads b ts rs ds l p s)"
  unfolding check_leads_def by (intro growing)

lemma check_leads_fresh [reading]:
  "fresh c \<Longrightarrow> check_leads True ts rs ds False None ([], []) c = Inr (u, c) \<longleftrightarrow> leads_ok ts rs ds"
  by (auto simp: check_leads_def look_fresh clean_fresh bind_fresh growing lift_fresh addC_fresh leads_ok_def
      plan_graph_def lead_exempt_def legacy_exempt_task_ids_def)

lemma grows_finish_plan [growing, intro]: "grows (finish_plan rp digest p)"
  unfolding finish_plan_def by (auto split: option.split intro!: growing)

lemma finish_plan_fresh [reading]:
  "fresh c \<Longrightarrow> finish_plan rp digest (Some p) c = Inr (x, c)
     \<longleftrightarrow> x = Some p \<and> validate_plan_skill_bindings rp digest p = Inr ()"
  by (auto simp: finish_plan_def look_fresh clean_fresh bind_fresh growing check_fresh return_fresh)

lemma grows_check_cycles [growing, intro]: "grows (check_cycles ts ids)"
  unfolding check_cycles_def by (intro growing)

lemma check_cycles_fresh [reading]:
  "fresh c \<Longrightarrow> check_cycles ts ids c = Inr (u, c) \<longleftrightarrow> unknown_dependency ts ids \<or> validate_cycles ts = Inr ()"
  by (auto simp: check_cycles_def look_fresh clean_fresh bind_fresh growing check_fresh return_fresh)

section \<open>Admissible plans\<close>

definition strategy_typed :: "string \<Rightarrow> string \<Rightarrow> bool" where
  "strategy_typed profile m \<longleftrightarrow> m \<in> set STRATEGIES \<and> (profile = ''adaptive'' \<longrightarrow> m \<noteq> ''host-settings'')
     \<and> (profile = ''host-settings'' \<longrightarrow> m = ''host-settings'')"

lemma model_strategy_read: "model_strategy rp profile d = Inr m \<Longrightarrow> strategy_typed profile m"
  by (auto simp: model_strategy_def Let_def strategy_typed_def split: if_split_asm)

lemma model_strategy_round:
  "strategy_typed profile m \<Longrightarrow> get d ''model_strategy'' = PStr m \<Longrightarrow> model_strategy rp profile d = Inr m"
  by (auto simp: model_strategy_def Let_def strategy_typed_def py_or_def STRATEGIES_def)

definition count_typed :: "int \<Rightarrow> bool" where
  "count_typed n \<longleftrightarrow> 1 \<le> n \<and> n \<le> 1000000"

lemma positive_int_Inr [simp]: "positive_int v label = Inr n \<longleftrightarrow> v = PInt n \<and> count_typed n"
  by (auto simp: positive_int_def count_typed_def)

definition plan_typed :: "string \<Rightarrow> plan \<Rightarrow> bool" where
  "plan_typed profile p \<longleftrightarrow> stripped (pl_goal p) \<and> stripped (pl_user_request p)
     \<and> strategy_typed profile (pl_model_strategy p)
     \<and> count_typed (pl_graph_version p) \<and> pl_execution_strategy p \<in> set EXECUTION_STRATEGIES
     \<and> count_typed (pl_max_parallel_workers p) \<and> count_typed (pl_computer_use_slots p)
     \<and> pl_source_schema_version p = PLAN_SCHEMA_VERSION \<and> \<not> pl_legacy_serial p
     \<and> (\<exists>g. pl_goal_contract p = Some g \<and> contract_typed g)
     \<and> (pl_roles p \<noteq> [] \<and> (\<forall>r \<in> set (pl_roles p). role_typed r) \<and> distinct (map ro_id (pl_roles p)))
     \<and> ((\<forall>d \<in> set (pl_departments p). department_typed d)
        \<and> department_contract_issues (pl_departments p) (map ro_id (pl_roles p)) = [])
     \<and> (\<forall>s \<in> set (pl_skill_packs p). pack_ok s)
     \<and> (pl_tasks p \<noteq> [] \<and> (\<forall>t \<in> set (pl_tasks p). task_typed profile t) \<and> distinct (task_ids p))"

definition plan_sound :: "plan \<Rightarrow> bool" where
  "plan_sound p \<longleftrightarrow> outcomes_found (Some (pl_goal_contract p)) (pl_tasks p) = []
     \<and> (\<forall>t \<in> set (pl_tasks p). floor_ok t)
     \<and> (\<forall>t \<in> set (pl_tasks p). references_typed (pl_roles p) (task_ids p) t)
     \<and> leads_ok (pl_tasks p) (pl_roles p) (pl_departments p)
     \<and> validate_cycles (pl_tasks p) = Inr ()"

definition admissible :: "(pyval \<Rightarrow> string) \<Rightarrow> (skill_pack \<Rightarrow> string) \<Rightarrow> string \<Rightarrow> plan \<Rightarrow> bool" where
  "admissible rp digest profile p \<longleftrightarrow> plan_typed profile p \<and> plan_sound p
     \<and> validate_plan_skill_bindings rp digest p = Inr ()"

lemma submitted_simps [simp]:
  "ad_profile (submitted profile) = profile" "ad_contract (submitted profile)" "ad_class (submitted profile)"
  "ad_inherited (submitted profile) = None" "ad_leads (submitted profile)" "ad_settled (submitted profile) = ([], [])"
  by (simp_all add: submitted_def)

lemma execution_strategy_read: "execution_strategy_of rp d = Inr x \<Longrightarrow> x \<in> set EXECUTION_STRATEGIES"
  by (auto simp: execution_strategy_of_def dest: one_of_read)

lemma packs_read: "skill_packs_from_raw v label = Inr ps \<Longrightarrow> \<forall>s \<in> set ps. pack_ok s"
  by (auto simp: skill_packs_from_raw_def dest: pack_codec.all_ok)

lemmas stage_steps = bind_fresh growing check_fields_fresh plan_field_fresh check_fresh read_contract_fresh
  compatibility_submitted look_fresh return_fresh clean_fresh addC_fresh check_acceptance_fresh check_leads_fresh
  finish_plan_fresh check_cycles_fresh read_roles_fresh read_departments_fresh read_tasks_fresh

lemma admissibleI:
  assumes c: "fresh c" and goal: "plan_string goal l1 = Inr v" and asked: "plan_string asked l2 = Inr va"
    and strategy: "model_strategy rp profile d = Inr vb" and contract: "validate_goal_contract w l3 = Inr g"
    and counts: "count_typed vc" "count_typed ve" "count_typed vf" and execution: "execution_strategy_of rp d = Inr vd"
    and roles: "xs \<noteq> []" "read_each (\<lambda>x i r. role_from_raw stage x i c = Inr (Some r, c)) xs rs" "distinct (map ro_id rs)"
    and packs: "skill_packs_from_raw ps l4 = Inr vg"
    and departments: "read_each (\<lambda>x i r. department_contract_from_raw x (pre @ dec_nat i) = Inr r) ys ds"
      "department_contract_issues ds (map ro_id rs) = []"
    and tasks: "zs \<noteq> []" "read_each (\<lambda>x i t. read_task rp profile True x i c = Inr (Some t, c)) zs ts" "distinct (map t_id ts)"
    and outcomes: "outcomes_found (Some (Some g)) ts = []" and acceptance: "\<forall>t \<in> set ts. floor_ok t"
    and graph: "graph_found ts rs (raw_ids (PList xs)) (raw_ids (PList zs)) False = []"
    and leads: "leads_ok ts rs ds" and cycles: "unknown_dependency ts (raw_ids (PList zs)) \<or> validate_cycles ts = Inr ()"
    and skills: "validate_plan_skill_bindings rp digest p = Inr ()"
    and p: "p = \<lparr>pl_goal = v, pl_user_request = va, pl_model_strategy = vb, pl_tasks = ts, pl_roles = rs,
      pl_departments = ds, pl_graph_version = vc, pl_execution_strategy = vd, pl_max_parallel_workers = ve,
      pl_computer_use_slots = vf, pl_source_schema_version = PLAN_SCHEMA_VERSION, pl_legacy_serial = False,
      pl_goal_contract = Some g, pl_skill_packs = vg\<rparr>"
  shows "admissible rp digest profile p"
proof -
  have t: "\<forall>t \<in> set ts. task_typed profile t"
    by (rule read_eachD [OF tasks(2)]) (auto dest: read_task_has_type [OF c])
  have r: "\<forall>r \<in> set rs. role_typed r"
    by (rule read_eachD [OF roles(2)]) (auto dest: role_reader.has_type [OF c])
  have dt: "\<forall>d \<in> set ds. department_typed d"
    by (rule read_eachD [OF departments(1)]) (rule department_codec.dec_ok)
  have ne: "ts \<noteq> []" "rs \<noteq> []"
    using read_each_length [OF tasks(2)] read_each_length [OF roles(2)] tasks(1) roles(1) by auto
  have typed: "plan_typed profile p"
    using goal asked model_strategy_read [OF strategy] contract_read [OF contract] counts execution_strategy_read [OF execution]
      packs_read [OF packs] t r dt ne roles(3) tasks(3) departments(2)
    by (auto simp: plan_typed_def p dest: plan_read)
  have ids: "raw_ids (PList xs) = map ro_id rs" "raw_ids (PList zs) = map t_id ts"
    by (rule read_role_ids [OF c roles(2)], rule read_task_ids [OF c tasks(2)])
  have refs: "\<forall>t \<in> set ts. references_typed rs (map t_id ts) t"
    using graph unfolding ids graph_found_Nil .
  then have "validate_cycles ts = Inr ()"
    using cycles unknown_dependency_False unfolding ids by blast
  with refs outcomes acceptance leads have "plan_sound p" by (simp add: plan_sound_def p)
  with typed skills show ?thesis by (simp add: admissible_def)
qed

lemma graph_plan_read:
  assumes c: "fresh c" and d: "get d ''compatibility'' = PNone"
    and r: "graph_plan rp digest (submitted profile) d c = Inr (read, c)"
  shows "\<exists>p. rd_plan read = Some p \<and> admissible rp digest profile p"
  using r c d
  by (clarsimp simp: graph_plan_def Let_def stage_steps built_plan_def)
    (rule admissibleI [where pre = "''department ''", simplified]; (assumption | rule refl))

section \<open>An admissible plan is admitted as itself\<close>

lemma plan_gets:
  assumes "plan_to_dict p = PDict d" "plan_typed profile p" "pl_goal_contract p = Some g"
  shows "get_default d ''goal'' PNone = PStr (pl_goal p)" "get_default d ''user_request'' PNone = PStr (pl_user_request p)"
    "get d ''model_strategy'' = PStr (pl_model_strategy p)" "get d ''goal_contract'' = goal_contract_to_dict g"
    "get d ''schema_version'' = PInt PLAN_SCHEMA_VERSION"
    "get_default d ''graph_version'' (PInt 1) = PInt (pl_graph_version p)"
    "get_default d ''execution_strategy'' x = PStr (pl_execution_strategy p)"
    "get_default d ''max_parallel_workers'' y = PInt (pl_max_parallel_workers p)"
    "get_default d ''computer_use_slots'' y = PInt (pl_computer_use_slots p)"
    "get d ''roles'' = PList (map role_profile_to_dict (pl_roles p))"
    "get_default d ''skill_packs'' (PList []) = PList (map skill_pack_to_dict (pl_skill_packs p))"
    "get_default d ''departments'' (PList []) = PList (map department_contract_to_dict (pl_departments p))"
    "get d ''tasks'' = PList (map task_to_dict (pl_tasks p))"
    "get d ''compatibility'' = PNone" "fst ` set d \<subseteq> set PLAN_FIELDS"
proof -
  have "\<not> pl_legacy_serial p" using assms(2) by (simp add: plan_typed_def)
  note d = assms(1) [unfolded plan_to_dict_def pyval.inject assms(3) option.case, symmetric]
  show "get_default d ''goal'' PNone = PStr (pl_goal p)" "get_default d ''user_request'' PNone = PStr (pl_user_request p)"
    "get d ''schema_version'' = PInt PLAN_SCHEMA_VERSION"
    "get_default d ''graph_version'' (PInt 1) = PInt (pl_graph_version p)"
    by (simp_all add: d get_def get_default_def)
  show "get d ''model_strategy'' = PStr (pl_model_strategy p)" "get d ''goal_contract'' = goal_contract_to_dict g"
    "get_default d ''execution_strategy'' x = PStr (pl_execution_strategy p)"
    "get_default d ''max_parallel_workers'' y = PInt (pl_max_parallel_workers p)"
    "get_default d ''computer_use_slots'' y = PInt (pl_computer_use_slots p)"
    "get d ''roles'' = PList (map role_profile_to_dict (pl_roles p))"
    by (simp_all add: d get_def get_default_def map_add_def split: option.split)
  show "get_default d ''skill_packs'' (PList []) = PList (map skill_pack_to_dict (pl_skill_packs p))"
    "get_default d ''departments'' (PList []) = PList (map department_contract_to_dict (pl_departments p))"
    "get d ''tasks'' = PList (map task_to_dict (pl_tasks p))" "get d ''compatibility'' = PNone"
    using \<open>\<not> pl_legacy_serial p\<close>
    by (auto simp: d get_def get_default_def map_add_def some_list_def split: option.split)
  show "fst ` set d \<subseteq> set PLAN_FIELDS"
    using \<open>\<not> pl_legacy_serial p\<close> by (auto simp: d PLAN_FIELDS_def some_list_def split: if_splits)
qed

lemma graph_plan_back:
  assumes c: "fresh c" and p: "admissible rp digest profile p" and d: "plan_to_dict p = PDict d"
  shows "\<exists>r. graph_plan rp digest (submitted profile) d c = Inr (r, c) \<and> rd_plan r = Some p"
proof -
  from p obtain g where typed: "plan_typed profile p" and g: "pl_goal_contract p = Some g" "contract_typed g"
    and sound: "plan_sound p" and skills: "validate_plan_skill_bindings rp digest p = Inr ()"
    by (auto simp: admissible_def plan_typed_def)
  note parts = typed [unfolded plan_typed_def] and gets = plan_gets [OF d typed g(1)]
  have fields: "check_fields False d c = Inr ((), c)"
    using c by (simp add: check_fields_fresh gets PLAN_SCHEMA_VERSION_def)
  have strategy: "model_strategy rp profile d = Inr (pl_model_strategy p)"
    using parts by (intro model_strategy_round) (simp_all add: gets)
  have contract: "read_contract True d c = Inr (Some (Some g), c)"
    using c g by (simp add: read_contract_fresh gets contract_round) (simp add: goal_contract_to_dict_def)
  have execution: "execution_strategy_of rp d = Inr (pl_execution_strategy p)"
    using parts by (simp add: execution_strategy_of_def gets plan_round constants_stripped)
  have roles: "read_roles d c = Inr (map Some (pl_roles p), c)"
    unfolding read_roles_fresh [OF c] using parts
    by (intro exI [of _ "map role_profile_to_dict (pl_roles p)"] exI [of _ "pl_roles p"])
      (auto simp: gets intro!: read_eachI [where ok = role_typed] role_reader.reads_back c)
  have packs: "skill_packs_from_raw (PList (map skill_pack_to_dict (pl_skill_packs p))) l = Inr (pl_skill_packs p)" for l
    using parts by (simp add: skill_packs_from_raw_def array_of_def pack_codec.dec_all)
  have departments: "read_departments d (pl_roles p) c = Inr (pl_departments p, c)"
    unfolding read_departments_fresh [OF c] gets using parts
    by (intro exI [of _ "map department_contract_to_dict (pl_departments p)"] conjI refl
        read_eachI [where ok = department_typed] department_codec.round_trip) auto
  have tasks: "read_tasks rp profile True d c = Inr (pl_tasks p, c)"
    unfolding read_tasks_fresh [OF c] gets using parts
    by (intro exI [of _ "map task_to_dict (pl_tasks p)"] conjI refl
        read_eachI [where ok = "task_typed profile"] read_task_back c) auto
  have ids: "raw_ids (get d ''tasks'') = task_ids p" "raw_ids (get d ''roles'') = map ro_id (pl_roles p)"
    unfolding gets using parts by (auto intro!: raw_ids_tasks raw_ids_roles simp: task_typed_def role_typed_def)
  have graph: "graph_found (pl_tasks p) (pl_roles p) (map ro_id (pl_roles p)) (task_ids p) False = []"
    using sound by (simp add: plan_sound_def graph_found_Nil)
  note sound = sound [unfolded plan_sound_def]
  have built: "built_plan (Some (pl_goal p)) (Some (pl_user_request p)) (Some (pl_model_strategy p)) (pl_tasks p) (pl_roles p)
      (pl_departments p) (Some (pl_graph_version p)) \<lparr>ps_strategy = Some (pl_execution_strategy p),
      ps_workers = Some (pl_max_parallel_workers p), ps_slots = Some (pl_computer_use_slots p)\<rparr>
      (Some (False, PLAN_SCHEMA_VERSION)) (Some (Some g)) (Some (pl_skill_packs p)) = Some p"
    using parts g by (cases p) (simp add: built_plan_def)
  show ?thesis
    using c parts sound g
    by (simp add: graph_plan_def Let_def bind_fresh growing plan_field_fresh check_fresh look_fresh return_fresh clean_fresh
        addC_fresh check_acceptance_fresh check_leads_fresh finish_plan_fresh check_cycles_fresh compatibility_submitted
        gets fields strategy contract execution roles packs departments tasks ids [unfolded gets] graph built skills plan_round)
qed

end
