(* ===== verification/PlanAdmitted.thy ===== *)
theory PlanAdmitted
  imports PlanTypes PlanDigest TaskStates
begin

text \<open>
  What \<^verbatim>\<open>validate_plan\<close> admits. An admitted plan is typed and sound, and it meets what the other
  components ask of a plan: its digest is binding, its graph is ordered, its run can be finished and
  every task has its department. Stored and submitted again it is admitted as itself.
\<close>

section \<open>A pass without issues\<close>

lemma grows_graph_plan [growing, intro]: "grows (graph_plan rp digest a d)"
  unfolding graph_plan_def Let_def by (intro growing)

lemma admitted_Inr:
  assumes g: "grows m"
  shows "admitted m = Inr x \<longleftrightarrow> (\<exists>read. m new_collector = Inr (read, new_collector) \<and> x = rd_plan read)"
proof -
  have "c = new_collector \<longleftrightarrow> raise_if_any c = Inr ()" if m: "m new_collector = Inr (read, c)" for read c
  proof -
    obtain ds where "c = Some ds"
      using g m by (fastforce simp: grows_def new_collector_def)
    then show ?thesis by (cases ds) (simp_all add: new_collector_def raise_if_any_def)
  qed
  then show ?thesis by (auto simp: admitted_def fresh_collectors)
qed

lemma validate_graph_plan_Inr:
  assumes "get d ''compatibility'' = PNone" "validate_graph_plan rp digest (submitted profile) d = Inr r"
  shows "\<exists>p. r = Some p \<and> admissible rp digest profile p"
  using assms graph_plan_read [OF fresh_collectors(2) assms(1)]
  by (fastforce simp: validate_graph_plan_def admitted_Inr growing)

lemma validate_graph_plan_back:
  assumes "admissible rp digest profile p" "plan_to_dict p = PDict d"
  shows "validate_graph_plan rp digest (submitted profile) d = Inr (Some p)"
  using graph_plan_back [OF fresh_collectors(2) assms] by (auto simp: validate_graph_plan_def admitted_Inr growing)

definition skills_proved :: "(pyval \<Rightarrow> string) \<Rightarrow> (skill_pack \<Rightarrow> string) \<Rightarrow> evidence_store option \<Rightarrow> plan \<Rightarrow> bool" where
  "skills_proved rp digest store p \<longleftrightarrow>
     validate_trusted_skill_promotions rp digest (pl_skill_packs p) store = Inr ()
     \<and> validate_plan_skill_qualifications rp digest p store = Inr ()"

lemma validate_plan_Inr:
  assumes "validate_plan rp digest profile store data = Inr r"
  shows "\<exists>p. r = Some p \<and> admissible rp digest profile p \<and> skills_proved rp digest store p
    \<and> profile \<in> {''adaptive'', ''host-settings''}"
proof -
  obtain d where d: "data = PDict d" and compat_free: "get d ''compatibility'' = PNone"
    and profile: "profile \<in> {''adaptive'', ''host-settings''}"
    using assms by (cases data) (auto simp: validate_plan_def split: if_split_asm)
  obtain q where q: "validate_graph_plan rp digest (submitted profile) d = Inr q"
    and rest: "(case q of None \<Rightarrow> Inr None
        | Some q \<Rightarrow> bindE (validate_trusted_skill_promotions rp digest (pl_skill_packs q) store) (\<lambda>_.
            bindE (validate_plan_skill_qualifications rp digest q store) (\<lambda>_. Inr (Some q)))) = Inr r"
    using assms unfolding validate_plan_def d by (auto split: if_split_asm)
  from validate_graph_plan_Inr [OF compat_free q] rest profile show ?thesis by (auto simp: skills_proved_def)
qed

lemma validate_plan_back:
  assumes p: "admissible rp digest profile p" "skills_proved rp digest store p"
    and profile: "profile \<in> {''adaptive'', ''host-settings''}"
  shows "validate_plan rp digest profile store (plan_to_dict p) = Inr (Some p)"
proof -
  obtain d where d: "plan_to_dict p = PDict d" by (simp add: plan_to_dict_def)
  from p(1) obtain g where "plan_typed profile p" "pl_goal_contract p = Some g"
    by (auto simp: admissible_def plan_typed_def)
  note gets = plan_gets [OF d this]
  show ?thesis
    using p(2) profile validate_graph_plan_back [OF p(1) d]
    by (simp add: d validate_plan_def gets hashable_def has_legacy_shape_def skills_proved_def
        PLAN_SCHEMA_VERSION_def LEGACY_PLAN_SCHEMA_VERSION_def)
qed

section \<open>What an admissible plan has\<close>

lemma opt_present: "pred_option stripped v \<Longrightarrow> present v"
  by (cases v) (auto simp: present_def stripped_def)

lemma chosen_present: "pred_option (\<lambda>s. s \<in> set PUBLIC_REASONING) v \<Longrightarrow> present v"
  "pred_option (\<lambda>s. s \<in> set EXECUTION_MODES) v \<Longrightarrow> present v"
  by (cases v; auto simp: present_def PUBLIC_REASONING_def EXECUTION_MODES_def)+

lemma typed_policy_ok:
  assumes "verification_typed profile v"
  shows "verification_policy_ok v"
proof -
  from assms have checks: "\<forall>k \<in> set (vp_deterministic_checks v). plan_check_typed k"
    and lead: "pred_option id_ok (vp_verifier_role v)" and pair: "pair_typed (vp_execution_mode v) (vp_execution_mode_reason v)"
    and reasoning: "pred_option (\<lambda>r. profile = ''adaptive'' \<and> r \<in> set PUBLIC_REASONING) (vp_reasoning v)"
    by (simp_all add: verification_typed_def)
  have "present (vp_verifier_role v)" using lead by (cases "vp_verifier_role v") (auto simp: present_def id_ok_def stripped_def)
  moreover have "present (vp_reasoning v)"
    using reasoning by (cases "vp_reasoning v") (auto simp: present_def PUBLIC_REASONING_def)
  moreover have "present (vp_execution_mode v)" "present (vp_execution_mode_reason v)"
    using pair by (auto simp: pair_typed_def intro: chosen_present opt_present)
  moreover have "\<forall>k \<in> set (vp_deterministic_checks v). verification_check_ok k"
    using checks by (auto simp: plan_check_typed_def shape_typed_def verification_check_ok_def intro: opt_present)
  ultimately show ?thesis by (simp add: verification_policy_ok_def)
qed

lemma typed_task_ok:
  assumes t: "task_typed profile t"
  shows "task_ok t"
proof -
  from t have "reasoning_typed profile (t_reasoning t)" "\<forall>r \<in> set (t_resources t). resource_typed r"
    "\<forall>u \<in> set (t_outputs t). output_typed u" "verification_typed profile (t_verification t)"
    unfolding task_typed_def by blast+
  then show ?thesis
    by (auto simp: task_ok_def reasoning_typed_def resource_typed_def output_typed_def resource_claim_ok_def
        task_output_ok_def typed_policy_ok present_def [of None] split: if_split_asm intro: opt_present chosen_present)
qed

lemma typed_contract_ok: "contract_typed g \<Longrightarrow> goal_contract_ok g"
  unfolding contract_typed_def goal_contract_ok_def goal_deliverable_ok_def deliverable_typed_def
  by (intro ballI opt_present) simp

lemma typed_plan_canonical: "plan_typed profile p \<Longrightarrow> canonical_plan p"
  by (auto simp: plan_typed_def canonical_plan_def typed_task_ok typed_contract_ok)

lemma sound_plan_ok:
  assumes "plan_typed profile p" "plan_sound p"
  shows "plan_ok p" "acyclic (dep_rel (pl_tasks p))"
proof -
  from assms have d: "distinct (map t_id (pl_tasks p))"
    and refs: "\<forall>t \<in> set (pl_tasks p). references_typed (pl_roles p) (task_ids p) t"
    and cycles: "validate_cycles (pl_tasks p) = Inr ()"
    by (simp_all add: plan_typed_def plan_sound_def)
  have "unknown_dependencies (pl_tasks p) = []"
    using refs by (auto simp: unknown_dependencies_def references_typed_def filter_empty_conv)
  with d show "plan_ok p" by (simp add: plan_ok_def)
  show "acyclic (dep_rel (pl_tasks p))" by (rule validate_cycles_sound [OF d cycles])
qed

definition well_led :: "plan \<Rightarrow> task \<Rightarrow> bool" where
  "well_led p t \<longleftrightarrow> (\<exists>l. named_lead t = Some l \<and> l \<in> set (map ro_id (pl_roles p)) \<and> l \<noteq> t_role t
     \<and> (\<forall>u \<in> set (pl_tasks p). t_role u = t_role t \<longrightarrow> named_lead u = Some l)
     \<and> (\<exists>d. derive_task_department (plan_graph (pl_tasks p) (pl_roles p) (pl_departments p)) [] t = Inr d))"

lemma sound_plan_led:
  assumes "plan_typed profile p" "plan_sound p" and t: "t \<in> set (pl_tasks p)"
  shows "well_led p t"
proof -
  let ?g = "plan_graph (pl_tasks p) (pl_roles p) (pl_departments p)"
  from assms have v: "validate_department_leads ?g [] ([], []) None False = Inr []"
    and refs: "\<And>u. u \<in> set (pl_tasks p) \<Longrightarrow> references_typed (pl_roles p) (task_ids p) u"
    and d: "distinct (map t_id (lg_tasks ?g))"
    by (auto simp: plan_sound_def leads_ok_def plan_typed_def plan_graph_def)
  have known: "named_lead u = Some l \<Longrightarrow> l \<in> set (map ro_id (lg_roles ?g))" if "u \<in> set (pl_tasks p)" for u l
    using refs [OF that] by (simp add: references_typed_def plan_graph_def)
  have led: "\<exists>l. named_lead u = Some l \<and> l \<noteq> t_role u
      \<and> (\<forall>w \<in> set (lg_tasks ?g). t_role w = t_role u \<longrightarrow> named_lead w \<in> {None, Some l})
      \<and> (distinct (map t_id (lg_tasks ?g)) \<longrightarrow> (\<exists>d. derive_task_department ?g [] u = Inr d))"
    if "u \<in> set (pl_tasks p)" for u
    by (rule leads_clean [OF v]) (use that known in \<open>simp_all add: plan_graph_def\<close>)
  from led [OF t] obtain l where l: "named_lead t = Some l" "l \<noteq> t_role t"
    and same: "\<forall>u \<in> set (pl_tasks p). t_role u = t_role t \<longrightarrow> named_lead u \<in> {None, Some l}"
    and dept: "\<exists>d. derive_task_department ?g [] t = Inr d"
    using d by (auto simp: plan_graph_def)
  have "named_lead u = Some l" if "u \<in> set (pl_tasks p)" "t_role u = t_role t" for u
    using same that led [OF that(1)] by force
  with l dept known [OF t l(1)] show ?thesis by (auto simp: well_led_def plan_graph_def)
qed

definition outcomes_bound :: "plan \<Rightarrow> task \<Rightarrow> bool" where
  "outcomes_bound p t \<longleftrightarrow> t_produces_outcomes t \<noteq> []
     \<and> (\<exists>g. pl_goal_contract p = Some g \<and> set (t_produces_outcomes t) \<subseteq> set (outcome_ids g))"

lemma sound_plan_bound: "plan_typed profile p \<Longrightarrow> plan_sound p \<Longrightarrow> t \<in> set (pl_tasks p) \<Longrightarrow> outcomes_bound p t"
  by (auto simp: plan_typed_def plan_sound_def outcomes_bound_def outcomes_found_Nil)

text \<open>
  C39. What \<^verbatim>\<open>validate_plan\<close> returns without raising is a plan, and a well-formed one: every field has
  its type and bounds, task ids are unique and dependencies known and acyclic (so it has an order and
  its run can be finished), its digest is binding, and every task passes the acceptance floor, produces
  declared outcomes, and has exactly one lead, a role of the plan that is not its own profession, from
  which its department can be derived.
\<close>

theorem admitted_plan_typed:
  assumes "validate_plan rp digest profile store data = Inr r"
  shows "\<exists>p. r = Some p \<and> plan_typed profile p \<and> plan_ok p \<and> acyclic (dep_rel (pl_tasks p)) \<and> canonical_plan p
    \<and> (\<forall>t \<in> set (pl_tasks p). floor_ok t \<and> outcomes_bound p t \<and> well_led p t)"
proof -
  from validate_plan_Inr [OF assms] obtain p where r: "r = Some p" and p: "plan_typed profile p" "plan_sound p"
    by (auto simp: admissible_def)
  moreover have "\<forall>t \<in> set (pl_tasks p). floor_ok t" using p(2) by (simp add: plan_sound_def)
  ultimately show ?thesis
    using sound_plan_ok [OF p] typed_plan_canonical [OF p(1)] sound_plan_led [OF p] sound_plan_bound [OF p] by blast
qed

text \<open>
  C40. Admission is stable under storage: a plan that was admitted, written as \<^verbatim>\<open>plan_to_dict\<close> stores it
  and submitted again with the same evidence, is admitted again, as the same plan. In particular reading
  loses nothing of an admitted plan and adds no defaults the second time.
\<close>

theorem admitted_plan_stable:
  assumes "validate_plan rp digest profile store data = Inr (Some p)"
  shows "validate_plan rp digest profile store (plan_to_dict p) = Inr (Some p)"
  using validate_plan_Inr [OF assms] by (auto intro: validate_plan_back)

section \<open>A plan that is admitted\<close>

definition suite_check :: verification_check where
  "suite_check = \<lparr>vc_id = ''suite'', vc_kind = ''command'', vc_description = ''the whole suite'',
     vc_argv = [''env'', ''CODEX_THREAD_ID='', ''CODEX_TURN_ID='', ''CODEX_SESSION_ID='', ''pytest''],
     vc_path = None, vc_timeout_seconds = 300, vc_expected_exit_code = 0\<rparr>"

definition led_policy :: verification_policy where
  "led_policy = sample_policy \<lparr>vp_deterministic_checks := [suite_check], vp_verifier_role := Some ''lead''\<rparr>"

definition led_task :: "string \<Rightarrow> string list \<Rightarrow> task" where
  "led_task i ds = (sample_task i ds) \<lparr>t_verification := led_policy, t_produces_outcomes := [''works'']\<rparr>"

definition led_role :: "string \<Rightarrow> role_profile" where
  "led_role i = \<lparr>ro_id = i, ro_name = i, ro_responsibilities = [''work''], ro_version = ''1.0.0'', ro_domain_focus = [],
     ro_preferred_tools = [], ro_context_priorities = [], ro_verification_expectations = [], ro_skill_requirements = []\<rparr>"

definition led_contract :: goal_contract where
  "led_contract = \<lparr>gc_required_outcomes = [\<lparr>ge_id = ''works'', ge_description = ''it works''\<rparr>],
     gc_deliverables = [\<lparr>gd_id = ''code'', gd_description = ''the code'', gd_path = None\<rparr>], gc_constraints = [],
     gc_global_acceptance = [\<lparr>ge_id = ''green'', ge_description = ''the suite is green''\<rparr>]\<rparr>"

definition led_plan :: plan where
  "led_plan = (sample_plan [led_task ''a'' [], led_task ''b'' [''a'']])
     \<lparr>pl_model_strategy := ''host-settings'', pl_goal_contract := Some led_contract,
      pl_roles := [led_role ''engineer'', led_role ''lead'']\<rparr>"

lemma led_check: "plan_check_typed suite_check" "is_clean_suite_command suite_check"
  by (simp_all add: plan_check_typed_def shape_typed_def strings_ok_def id_ok_def stripped_def suite_check_def
      VERIFICATION_CHECK_KINDS_def) code_simp+

lemma led_policy_typed: "verification_typed ''host-settings'' led_policy" "context_typed (t_context (sample_task i ds))"
  by (simp_all add: verification_typed_def led_policy_def sample_policy_def led_check VERIFICATION_POLICIES_def pair_typed_def
      context_typed_def sample_task_def strings_ok_def ids_ok_def) code_simp

lemma led_names:
  "\<forall>s \<in> {''a'', ''b'', ''engineer'', ''lead'', ''works'', ''code'', ''green'', ''suite''}. id_ok s"
  "\<forall>s \<in> {''done'', ''work'', ''it works'', ''the code'', ''the suite is green'', ''g'', ''u''}. stripped s"
  by (simp_all add: id_ok_def stripped_def) code_simp+

lemma led_task_typed: "i \<in> {''a'', ''b''} \<Longrightarrow> ids_ok ds \<Longrightarrow> task_typed ''host-settings'' (led_task i ds)"
  using led_names led_policy_typed(2) [of i ds]
  by (auto simp: task_typed_def led_task_def sample_task_def led_policy_typed strings_ok_def ids_ok_def id_ok_def
      reasoning_typed_def EXECUTION_MODES_def)

lemma led_role_typed: "i \<in> {''engineer'', ''lead''} \<Longrightarrow> role_typed (led_role i)"
  using led_names by (auto simp: role_typed_def led_role_def strings_ok_def id_ok_def role_version_ok_def) code_simp+

lemma led_contract_typed: "contract_typed led_contract"
  using led_names by (simp add: contract_typed_def led_contract_def entry_typed_def deliverable_typed_def)

lemma led_floor: "floor_ok (led_task i ds)"
  by (simp add: floor_ok_def led_task_def led_policy_def sample_policy_def led_check)

lemma led_fields [simp]:
  "pl_tasks led_plan = [led_task ''a'' [], led_task ''b'' [''a'']]" "pl_roles led_plan = [led_role ''engineer'', led_role ''lead'']"
  "pl_departments led_plan = []" "pl_skill_packs led_plan = []" "pl_goal_contract led_plan = Some led_contract"
  "t_id (led_task i ds) = i" "t_role (led_task i ds) = ''engineer''" "t_loaded_skills (led_task i ds) = []"
  "t_skill_attestation (led_task i ds) = None" "t_produces_outcomes (led_task i ds) = [''works'']"
  "ro_id (led_role i) = i" "ro_skill_requirements (led_role i) = []"
  by (simp_all add: led_plan_def sample_plan_def led_task_def sample_task_def led_role_def)

lemma led_plan_typed: "plan_typed ''host-settings'' led_plan"
  using led_names led_role_typed [of "''engineer''"] led_role_typed [of "''lead''"] led_task_typed [of "''a''" "[]"]
    led_task_typed [of "''b''" "[''a'']"] led_contract_typed
  by (auto simp: plan_typed_def department_issues_Nil ids_ok_def)
    (auto simp: led_plan_def sample_plan_def strategy_typed_def count_typed_def STRATEGIES_def EXECUTION_STRATEGIES_def
      PLAN_SCHEMA_VERSION_def)

lemma led_graph: "leads_ok (pl_tasks led_plan) (pl_roles led_plan) (pl_departments led_plan)"
  "validate_cycles (pl_tasks led_plan) = Inr ()"
  "graph_found (pl_tasks led_plan) (pl_roles led_plan) (map ro_id (pl_roles led_plan)) (task_ids led_plan) False = []"
  by code_simp+

lemma led_plan_sound: "plan_sound led_plan"
proof -
  have "outcomes_found (Some (pl_goal_contract led_plan)) (pl_tasks led_plan) = []"
    by (simp add: outcomes_found_Nil) (simp add: led_contract_def outcome_ids_def)
  moreover have "\<forall>t \<in> set (pl_tasks led_plan). floor_ok t" by (simp add: led_floor)
  ultimately show ?thesis 
    unfolding plan_sound_def using led_graph(1,2) led_graph(3) [unfolded graph_found_Nil] by blast
qed

lemma no_skills: "resolve_skill_stack rp digest [] [] None store False = Inr []"
  "resolve_skill_stack rp digest [] [] (Some []) store False = Inr []"
  by (simp_all add: resolve_skill_stack_def unique_of_def check_requirements_def reject_stack_conflicts_def)

lemma led_role_of: "t \<in> set (pl_tasks led_plan) \<Longrightarrow> role_of led_plan t = Inr (led_role ''engineer'')"
  by (auto simp: role_of_def role_map_def)

lemma led_skills: "validate_plan_skill_bindings rp digest led_plan = Inr ()" "skills_proved rp digest None led_plan"
  by (auto simp: validate_plan_skill_bindings_def validate_plan_skill_attestations_def no_skills led_role_of)
    (simp add: skills_proved_def validate_trusted_skill_promotions_def validate_plan_skill_qualifications_def)

lemma led_plan_admitted: "validate_plan rp digest ''host-settings'' None (plan_to_dict led_plan) = Inr (Some led_plan)"
  by (rule validate_plan_back) (simp_all add: admissible_def led_plan_typed led_plan_sound led_skills)

theorem admitted_plan_typed_witness:
  "plan_typed ''host-settings'' led_plan \<and> plan_ok led_plan \<and> acyclic (dep_rel (pl_tasks led_plan))
     \<and> floor_ok (led_task ''b'' [''a'']) \<and> well_led led_plan (led_task ''b'' [''a''])"
  using admitted_plan_typed [OF led_plan_admitted [of "\<lambda>_. ''''" "\<lambda>_. ''''"]] by simp

theorem admitted_plan_stable_witness:
  "validate_plan (\<lambda>_. '''') (\<lambda>_. '''') ''host-settings'' None (plan_to_dict led_plan) = Inr (Some led_plan)"
  by (rule admitted_plan_stable [OF led_plan_admitted])

end
