(* ===== verification/EngineerAuthority.thy ===== *)
theory EngineerAuthority
  imports Prelude
begin

text \<open>
  The bounds of the on-call engineer (\<^verbatim>\<open>engineer_authority.py\<close>): the classes of incidents, the
  vocabulary of actions, what may be replayed without a human, and the table of means: what the
  on-call may do about each kind of stop (\<^verbatim>\<open>means_key\<close>, \<^verbatim>\<open>means_for\<close> of \<^verbatim>\<open>stop_diagnosis.py\<close>).
\<close>

section \<open>Incidents\<close>

datatype incident_class =
  PRODUCTION | PIPELINE | RUNTIME | INTEGRATION | TOOLING | POLICY | AMBIGUOUS_SIDE_EFFECT

fun class_value :: "incident_class \<Rightarrow> string" where
  "class_value PRODUCTION = ''PRODUCTION''"
| "class_value PIPELINE = ''PIPELINE''"
| "class_value RUNTIME = ''RUNTIME''"
| "class_value INTEGRATION = ''INTEGRATION''"
| "class_value TOOLING = ''TOOLING''"
| "class_value POLICY = ''POLICY''"
| "class_value AMBIGUOUS_SIDE_EFFECT = ''AMBIGUOUS_SIDE_EFFECT''"

datatype side_effect_outcome = NO_SIDE_EFFECT | KNOWN_FAILED | KNOWN_SUCCEEDED | UNKNOWN

fun outcome_value :: "side_effect_outcome \<Rightarrow> string" where
  "outcome_value NO_SIDE_EFFECT = ''NONE''"
| "outcome_value KNOWN_FAILED = ''KNOWN_FAILED''"
| "outcome_value KNOWN_SUCCEEDED = ''KNOWN_SUCCEEDED''"
| "outcome_value UNKNOWN = ''UNKNOWN''"

definition MUTATING_TRANSPORT_OPERATIONS :: "string list" where
  "MUTATING_TRANSPORT_OPERATIONS = [''create_thread'', ''send_message_to_thread'']"

definition INFRASTRUCTURE_INCIDENT_CLASSES :: "incident_class list" where
  "INFRASTRUCTURE_INCIDENT_CLASSES = [PIPELINE, RUNTIME, INTEGRATION, TOOLING]"

definition ADVISORY_INCIDENT_CLASSES :: "incident_class list" where
  "ADVISORY_INCIDENT_CLASSES = [PRODUCTION, POLICY, AMBIGUOUS_SIDE_EFFECT]"

definition ENGINEER_LANE_CLASSES :: "incident_class list" where
  "ENGINEER_LANE_CLASSES = INFRASTRUCTURE_INCIDENT_CLASSES @ ADVISORY_INCIDENT_CLASSES"

definition RESOLVE_FORBIDDEN_CLASSES :: "incident_class list" where
  "RESOLVE_FORBIDDEN_CLASSES = ADVISORY_INCIDENT_CLASSES"

text \<open>Every class is in the engineer's lane, in exactly one of the two groups.\<close>

lemma engineer_lane_total [simp]: "c \<in> set ENGINEER_LANE_CLASSES"
  by (cases c) (simp_all add: ENGINEER_LANE_CLASSES_def INFRASTRUCTURE_INCIDENT_CLASSES_def ADVISORY_INCIDENT_CLASSES_def)

lemma advisory_iff: "c \<in> set ADVISORY_INCIDENT_CLASSES \<longleftrightarrow> c \<notin> set INFRASTRUCTURE_INCIDENT_CLASSES"
  by (cases c) (simp_all add: INFRASTRUCTURE_INCIDENT_CLASSES_def ADVISORY_INCIDENT_CLASSES_def)

section \<open>Actions\<close>

definition READ_ONLY_DIAGNOSTIC_ACTIONS :: "string list" where
  "READ_ONLY_DIAGNOSTIC_ACTIONS = [''inspect_bounded_system_state'', ''inspect_recent_events'',
     ''reconcile_durable_journal'', ''run_declared_healthcheck'']"

definition REPAIR_ACTIONS :: "string list" where
  "REPAIR_ACTIONS = [''rearm_relay_owner'', ''rearm_run'', ''reconcile_thread_identity'',
     ''recreate_archived_retry'', ''record_definitive_transport_failure'', ''record_completed_worker_turn'',
     ''repair_runtime_code'', ''request_plan_change'', ''return_stopped_task'', ''supersede_department_rubric'']"

definition RECOVERY_ACTIONS :: "string list" where
  "RECOVERY_ACTIONS = READ_ONLY_DIAGNOSTIC_ACTIONS @ REPAIR_ACTIONS"

definition AUTO_REPLAYABLE_ACTIONS :: "string list" where
  "AUTO_REPLAYABLE_ACTIONS = READ_ONLY_DIAGNOSTIC_ACTIONS @ [''rearm_relay_owner'', ''rearm_run'']"

definition FORBIDDEN_ACTIONS :: "string list" where
  "FORBIDDEN_ACTIONS = [''fix_production_quality_failures'', ''bypass_trust_or_permission_checks'',
     ''impersonate_or_speak_for_the_user'', ''change_global_codex_settings'',
     ''authorize_project_root_mutation_on_behalf_of_the_user'', ''delete_project_state'',
     ''perform_destructive_or_unbounded_repairs'',
     ''repeat_ambiguous_create_thread_or_send_message_to_thread'',
     ''create_or_message_codex_tasks_without_real_user_authority_or_an_official_platform_capability'']"

text \<open>What may be reported is never forbidden, so a learned procedure needs no filter for it.\<close>

lemma vocabulary_allowed: "set RECOVERY_ACTIONS \<inter> set FORBIDDEN_ACTIONS = {}"
  by code_simp

lemma replayable_named: "set AUTO_REPLAYABLE_ACTIONS \<subseteq> set RECOVERY_ACTIONS"
  by code_simp

definition PROMOTION_THRESHOLD :: nat where "PROMOTION_THRESHOLD = 2"

section \<open>The table of means\<close>

definition RETURN_MEANS :: "string list" where
  "RETURN_MEANS = [''repair_runtime_code'', ''rearm_relay_owner'', ''rearm_run'', ''return_stopped_task'']"

definition REPLAN_MEANS :: "string list" where
  "REPLAN_MEANS = [''request_plan_change'', ''repair_runtime_code'']"

definition HERS_MEANS :: "string list" where "HERS_MEANS = []"

definition DEFAULT_STOP_MEANS :: "string list" where
  "DEFAULT_STOP_MEANS = RETURN_MEANS @ [''request_plan_change'']"

definition STOP_MEANS :: "(string \<times> string list) list" where
  "STOP_MEANS = [(''worker_blocked:MISSING_RESOURCE'', RETURN_MEANS),
     (''worker_blocked:ENVIRONMENT_FAILURE'', RETURN_MEANS), (''worker_blocked:UNSPECIFIED'', RETURN_MEANS),
     (''worker_blocked:'', RETURN_MEANS), (''worker_blocked:DEPENDENCY_DEFECT'', REPLAN_MEANS),
     (''worker_blocked:CONTRADICTORY_CONTRACT'', REPLAN_MEANS),
     (''worker_blocked:DANGEROUS_PERMISSION'', HERS_MEANS), (''worker_blocked:RECOVERY_EXHAUSTED'', HERS_MEANS),
     (''worker_blocked:PRODUCT_DECISION'', HERS_MEANS), (''worker_blocked:ARCHITECTURE_DECISION'', HERS_MEANS),
     (''verification_protocol'', RETURN_MEANS), (''verifier_routing'', RETURN_MEANS),
     (''department_lead'', RETURN_MEANS @ [''request_plan_change'', ''supersede_department_rubric'']),
     (''staffing'', RETURN_MEANS @ [''request_plan_change'', ''supersede_department_rubric'']),
     (''lead_outlived'', [''repair_runtime_code'']), (''launch_refused'', DEFAULT_STOP_MEANS),
     (''no_successor'', [''repair_runtime_code'']), (''plan_change_rejected'', REPLAN_MEANS),
     (''plan_verification_rejected'', REPLAN_MEANS), (''plan_verification_protocol'', REPLAN_MEANS),
     (''context_budget'', RETURN_MEANS),
     (''ladder_exhausted'', [''repair_runtime_code'', ''request_plan_change'', ''return_stopped_task'']),
     (''approval_required'', [''repair_runtime_code'']), (''placement_defect'', [''repair_runtime_code''])]"

definition OWNER_STOP_REASONS :: "string list" where
  "OWNER_STOP_REASONS = [''PRODUCT_DECISION'', ''ARCHITECTURE_DECISION'', ''DANGEROUS_PERMISSION'', ''RECOVERY_EXHAUSTED'']"

definition means_key :: "string \<Rightarrow> string \<Rightarrow> string" where
  "means_key kind reason_code = (if kind = ''worker_blocked'' then ''worker_blocked:'' @ reason_code else kind)"

definition means_for :: "string \<Rightarrow> string \<Rightarrow> string list" where
  "means_for kind reason_code = (case map_of STOP_MEANS (means_key kind reason_code) of
     None \<Rightarrow> DEFAULT_STOP_MEANS | Some means \<Rightarrow> means)"

text \<open>The table only names actions that exist, and a worker's stop that is hers has no means at all.\<close>

lemma means_named: "set (means_for kind reason_code) \<subseteq> set RECOVERY_ACTIONS"
proof -
  have "\<forall>(k, means) \<in> set STOP_MEANS. set means \<subseteq> set RECOVERY_ACTIONS" "set DEFAULT_STOP_MEANS \<subseteq> set RECOVERY_ACTIONS"
    by code_simp+
  then show ?thesis by (auto simp: means_for_def split: option.split dest!: map_of_SomeD)
qed

lemma hers_has_no_means: "reason_code \<in> set OWNER_STOP_REASONS \<Longrightarrow> means_for ''worker_blocked'' reason_code = []"
  by (auto simp: OWNER_STOP_REASONS_def means_for_def means_key_def STOP_MEANS_def HERS_MEANS_def)

section \<open>What starting the run authorised\<close>

definition RUN_AUTHORIZATION_VERSION :: int where "RUN_AUTHORIZATION_VERSION = 3"

definition RUN_AUTHORIZED_CLI_SUBCOMMANDS :: "string list" where
  "RUN_AUTHORIZED_CLI_SUBCOMMANDS = [''status'', ''logs'', ''timeline'', ''doctor'', ''preflight'', ''skills'',
     ''relay-status'', ''relay-fail'', ''relay-complete'', ''reconcile-thread-identity'', ''recreate-archived-retry'',
     ''devops-rearm-relay-owner'', ''devops-repair-runtime'', ''devops-revert-runtime-patch'',
     ''devops-resolve-incident'', ''devops-return-task'', ''devops-request-plan-change'',
     ''devops-supersede-rubric'', ''department-rubric-propose'']"

definition RUN_AUTHORIZED_OPERATIONS :: "(string \<times> string list \<times> string) list" where
  "RUN_AUTHORIZED_OPERATIONS =
     [(''task_transport'', [],
       ''App Server thread/start and turn/start for the scheduler-selected tasks of this run''),
      (''file_change_in_project'', [''item/fileChange/requestApproval'', ''applyPatchApproval''],
       ''reads and writes inside the project working directory under the run's permission profile''),
      (''autopilot_cli_in_project'', [''item/commandExecution/requestApproval'', ''execCommandApproval''],
       ''the plugin's own codex-autopilot commands, run inside the project'')]"

end
