(* ===== verification/Incidents.thy ===== *)
theory Incidents
  imports EngineerAuthority RunStates
begin

text \<open>
  The incident store of the on-call engineer (\<^verbatim>\<open>pipeline_engineer.py\<close>): tickets and their phases,
  the single recovery slot, the journal, and the ledger of failure signatures that learns runbooks.
  An operation is a function from the store to a value and the next store or an error; \<^verbatim>\<open>transaction\<close>
  adds the validation before and after it. A stored JSON object is a record with the keys it is written
  with; a key a later operation adds is \<^verbatim>\<open>None\<close> until then. Lists of a free form stay JSON values.
\<close>

section \<open>Phases, reasons and signals\<close>

datatype incident_phase =
  HEALTHY | DEGRADED | AUTO_RECOVERY | RECOVERED | AUTO_RECOVERY_FAILED | PIPELINE_ENGINEER | RESOLVED
| ESCALATE_TO_USER

fun phase_value :: "incident_phase \<Rightarrow> string" where
  "phase_value HEALTHY = ''HEALTHY''"
| "phase_value DEGRADED = ''DEGRADED''"
| "phase_value AUTO_RECOVERY = ''AUTO_RECOVERY''"
| "phase_value RECOVERED = ''RECOVERED''"
| "phase_value AUTO_RECOVERY_FAILED = ''AUTO_RECOVERY_FAILED''"
| "phase_value PIPELINE_ENGINEER = ''PIPELINE_ENGINEER''"
| "phase_value RESOLVED = ''RESOLVED''"
| "phase_value ESCALATE_TO_USER = ''ESCALATE_TO_USER''"

fun phase_priority :: "incident_phase \<Rightarrow> nat" where
  "phase_priority HEALTHY = 0"
| "phase_priority RESOLVED = 1"
| "phase_priority RECOVERED = 2"
| "phase_priority DEGRADED = 3"
| "phase_priority AUTO_RECOVERY = 4"
| "phase_priority AUTO_RECOVERY_FAILED = 5"
| "phase_priority PIPELINE_ENGINEER = 6"
| "phase_priority ESCALATE_TO_USER = 7"

definition ESCALATION_REASONS :: "string list" where
  "ESCALATION_REASONS = [''DANGEROUS_PERMISSION'', ''GLOBAL_CONFIG_CHANGE'', ''PROJECT_DAMAGE_RISK'',
     ''RECOVERY_EXHAUSTED'', ''PRODUCT_DECISION'', ''ARCHITECTURE_DECISION'']"

definition ESCALATION_FIELDS :: "string list" where
  "ESCALATION_FIELDS = [''diagnosis'', ''repaired'', ''decision_needed'', ''recommendation'', ''options'', ''scope'']"

definition TRANSPORT_STATUSES :: "string list" where
  "TRANSPORT_STATUSES = [''RESERVED'', ''CLAIMED'', ''ACKNOWLEDGED'', ''FAILED'']"

definition TRANSPORT_AUTHORITIES :: "string list" where
  "TRANSPORT_AUTHORITIES = [''USER_AUTHORIZED_TASK'', ''PIPELINE_RECOVERY_MANDATE'']"

definition STOP_CODE_PREFIX :: string where "STOP_CODE_PREFIX = ''run_stopped:''"
definition MAX_RECENT_EVENTS :: nat where "MAX_RECENT_EVENTS = 20"
definition MAX_EVENT_CHARS :: int where "MAX_EVENT_CHARS = 2000"
definition SIGNATURE_VERSION :: string where "SIGNATURE_VERSION = ''v1''"

record incident_signal =
  sg_id :: string
  sg_code :: string
  sg_surface :: incident_class
  sg_summary :: string
  sg_tasks :: "string list"
  sg_operation :: "string option"
  sg_outcome :: side_effect_outcome
  sg_state :: "pyval dict"
  sg_events :: "pyval dict list"
  sg_context_task :: string

definition nonempty :: "string \<Rightarrow> string \<Rightarrow> unit result" where
  "nonempty v name = (if strip v = [] then Inl (ValueError ''must be non-empty'' [name]) else Inr ())"

definition positive :: "int \<Rightarrow> string \<Rightarrow> unit result" where
  "positive n name = (if n \<le> 0 then Inl (ValueError ''must be a positive integer'' [name]) else Inr ())"

text \<open>\<^verbatim>\<open>if signal.operation\<close>: neither missing nor empty.\<close>

definition named_operation :: "incident_signal \<Rightarrow> string option" where
  "named_operation g = (case sg_operation g of Some (c # cs) \<Rightarrow> Some (c # cs) | _ \<Rightarrow> None)"

definition validate_signal :: "incident_signal \<Rightarrow> unit result" where
  "validate_signal g =
     bindE (nonempty (sg_id g) ''signal id'') (\<lambda>_.
     bindE (nonempty (sg_code g) ''signal code'') (\<lambda>_.
     bindE (nonempty (sg_summary g) ''incident summary'') (\<lambda>_.
     if \<not> distinct (sg_tasks g) then Inl (ValueError ''affected task ids must be unique'' [])
     else
     bindE (forE (\<lambda>i. nonempty i ''affected task id'') (sg_tasks g)) (\<lambda>_.
     case named_operation g of None \<Rightarrow> Inr ()
     | Some op \<Rightarrow> if op \<notin> set MUTATING_TRANSPORT_OPERATIONS
         then Inl (ValueError ''incident operation is not allowlisted'' []) else Inr ()))))"

definition signal_class :: "incident_signal \<Rightarrow> incident_class" where
  "signal_class g = (if (case sg_operation g of None \<Rightarrow> False | Some op \<Rightarrow> op \<in> set MUTATING_TRANSPORT_OPERATIONS)
       \<and> sg_outcome g = UNKNOWN
     then AMBIGUOUS_SIDE_EFFECT else sg_surface g)"

definition classify_incident :: "incident_signal \<Rightarrow> incident_class result" where
  "classify_incident g = bindE (validate_signal g) (\<lambda>_. Inr (signal_class g))"

text \<open>The identity of a failure: what broke, not when, where or to whom. \<^verbatim>\<open>sha\<close> is the hex digest of SHA-256.\<close>

definition signature_parts :: "incident_signal \<Rightarrow> string list" where
  "signature_parts g = [SIGNATURE_VERSION, sg_code g, class_value (signal_class g),
     case named_operation g of None \<Rightarrow> ''-'' | Some op \<Rightarrow> op, outcome_value (sg_outcome g)]"

definition incident_signature :: "(string \<Rightarrow> string) \<Rightarrow> incident_signal \<Rightarrow> string result" where
  "incident_signature sha g = bindE (classify_incident g) (\<lambda>_. Inr (take 16 (sha (join ''|'' (signature_parts g)))))"

record recovery_runbook =
  kb_id :: string
  kb_classes :: "incident_class list"
  kb_codes :: "string list"
  kb_actions :: "string list"
  kb_healthcheck :: string

definition RUNBOOKS :: "recovery_runbook list" where "RUNBOOKS = []"

definition select_runbook :: "incident_signal \<Rightarrow> recovery_runbook option result" where
  "select_runbook g = bindE (classify_incident g) (\<lambda>c.
     Inr (find (\<lambda>k. c \<in> set (kb_classes k) \<and> sg_code g \<in> set (kb_codes k)) RUNBOOKS))"

definition runbook_of :: "string option \<Rightarrow> recovery_runbook option" where
  "runbook_of i = find (\<lambda>k. kb_id k = (case i of None \<Rightarrow> '''' | Some s \<Rightarrow> s)) RUNBOOKS"

section \<open>The store\<close>

record healthcheck =
  hc_name :: string
  hc_passed :: bool
  hc_checks :: "string list"
  hc_observed_at :: string

record incident =
  ic_id :: string
  ic_signal_id :: string
  ic_code :: string
  ic_class :: incident_class
  ic_signature :: string
  ic_summary :: string
  ic_tasks :: "string list"
  ic_context_task :: string
  ic_operation :: "string option"
  ic_outcome :: side_effect_outcome
  ic_phase :: incident_phase
  ic_runbook_id :: "string option"
  ic_runbook_check :: "string option"
  ic_attempts :: int
  ic_budget :: int
  ic_initial :: int
  ic_maximum :: int
  ic_next_retry :: "int option"
  ic_lock_token :: "string option"
  ic_owner :: "string option"
  ic_healthcheck :: "healthcheck option"
  ic_state :: pyval
  ic_events :: "pyval list"
  ic_created_at :: string
  ic_updated_at :: string
  ic_resolved_at :: "string option"
  ic_records :: "pyval list dict"
  ic_escalation_reason :: "string option"
  ic_escalation_detail :: "string option"
  ic_escalated_at :: "string option"
  ic_escalation :: "pyval option"
  ic_blocks_run :: "bool option"

record resolution =
  re_actions :: "string list"
  re_check :: "string option"
  re_at :: string
  re_note :: string

record learned_runbook =
  rb_id :: string
  rb_actions :: "string list"
  rb_check :: "string option"
  rb_promoted_at :: string
  rb_from :: nat

record ledger_entry =
  le_signature :: string
  le_code :: string
  le_class :: incident_class
  le_operation :: "string option"
  le_outcome :: side_effect_outcome
  le_occurrences :: int
  le_incident_ids :: "string list"
  le_first_seen :: string
  le_last_seen :: string
  le_resolutions :: "resolution list"
  le_promoted :: "learned_runbook option"

record recovery_slot =
  sl_incident :: string
  sl_token :: string
  sl_owner :: string

record incident_store =
  is_sequence :: int
  is_slot :: "recovery_slot option"
  is_incidents :: "incident list"
  is_transport :: "pyval dict list"
  is_journal :: "pyval dict list"
  is_signatures :: "ledger_entry dict"

definition empty_store :: incident_store where
  "empty_store = \<lparr>is_sequence = 0, is_slot = None, is_incidents = [], is_transport = [], is_journal = [],
     is_signatures = []\<rparr>"

definition find_incident :: "incident_store \<Rightarrow> string \<Rightarrow> incident result" where
  "find_incident s i = (case filter (\<lambda>k. ic_id k = i) (is_incidents s) of
     [k] \<Rightarrow> Inr k | _ \<Rightarrow> Inl (PipelineIncidentError ''unknown or non-unique incident id'' [i]))"

definition check_transport :: "pyval dict \<Rightarrow> unit result" where
  "check_transport r = (case get r ''status'' of
     PStr v \<Rightarrow>
       if v \<notin> set TRANSPORT_STATUSES then Inl (PipelineIncidentError ''transport reservation status is invalid'' [])
       else if v = ''RESERVED'' then Inr ()
       else if get r ''authority_kind'' \<notin> set (map PStr TRANSPORT_AUTHORITIES)
       then Inl (PipelineIncidentError ''claimed transport lacks valid authority'' [])
       else if \<not> truthy (get r ''actor_thread_id'') \<or> \<not> truthy (get r ''claim_token'')
       then Inl (PipelineIncidentError ''claimed transport lacks actor ownership'' []) else Inr ()
   | _ \<Rightarrow> Inl (PipelineIncidentError ''transport reservation status is invalid'' []))"

definition check_slot :: "incident_store \<Rightarrow> unit result" where
  "check_slot s = (case is_slot s of None \<Rightarrow> Inr ()
     | Some sl \<Rightarrow> bindE (find_incident s (sl_incident sl)) (\<lambda>i.
         if ic_phase i \<noteq> AUTO_RECOVERY \<or> ic_lock_token i \<noteq> Some (sl_token sl)
         then Inl (PipelineIncidentError ''recovery slot does not match its durable incident lock'' []) else Inr ()))"

definition validate_store :: "incident_store \<Rightarrow> unit result" where
  "validate_store s =
     (if map (\<lambda>e. get e ''sequence'') (is_journal s) \<noteq> sequence_upto (is_sequence s)
      then Inl (PipelineIncidentError ''journal sequence is not contiguous'' [])
      else if \<not> distinct (map ic_id (is_incidents s))
      then Inl (PipelineIncidentError ''duplicate incident id'' [])
      else
      bindE (forE (\<lambda>i. if '''' \<in> set (ic_tasks i)
        then Inl (PipelineIncidentError ''incident affected_task_ids are invalid'' []) else Inr ()) (is_incidents s)) (\<lambda>_.
      if 1 < length (filter (\<lambda>i. ic_phase i = AUTO_RECOVERY) (is_incidents s))
      then Inl (PipelineIncidentError ''only one incident may own the recovery slot'' [])
      else if \<not> distinct (map (\<lambda>r. get r ''reservation_id'') (is_transport s))
      then Inl (PipelineIncidentError ''duplicate transport reservation id'' [])
      else bindE (forE check_transport (is_transport s)) (\<lambda>_. check_slot s)))"

type_synonym 'a store_op = "incident_store \<Rightarrow> ('a \<times> incident_store) result"

text \<open>\<^verbatim>\<open>_transaction\<close>: what was read and what is written is validated; a refused operation writes nothing.\<close>

definition transaction :: "'a store_op \<Rightarrow> 'a store_op" where
  "transaction f s = bindE (validate_store s) (\<lambda>_. bindE (f s) (\<lambda>(x, s').
     bindE (validate_store s') (\<lambda>_. Inr (x, s'))))"

section \<open>Bounded texts and values\<close>

text \<open>\<^verbatim>\<open>json.dumps\<close> with its default separators and sorted keys; only its length and its text are used.\<close>

fun json_spaced :: "(rat \<Rightarrow> string) \<Rightarrow> pyval \<Rightarrow> string" where
  "json_spaced fl (PList xs) = CHR ''['' # join '', '' (map (json_spaced fl) xs) @ '']''"
| "json_spaced fl (PDict d) = CHR ''{'' # join '', '' (map (\<lambda>(k, t). json_string k @ '': '' @ t)
     (sort_key fst (map (\<lambda>(k, v). (k, json_spaced fl v)) d))) @ ''}''"
| "json_spaced fl v = json_text fl v"

text \<open>The code's ellipsis is one character; \<^verbatim>\<open>CHR 0x85\<close> stands for it.\<close>

definition bounded :: "int \<Rightarrow> string \<Rightarrow> string" where
  "bounded limit v = (if int (length v) \<le> limit then v else take (nat (limit - 1)) v @ [CHR 0x85])"

definition bounded_mapping :: "(rat \<Rightarrow> string) \<Rightarrow> pyval dict \<Rightarrow> pyval result" where
  "bounded_mapping fl d = (if 16000 < int (length (json_spaced fl (PDict d)))
     then Inl (ValueError ''incident system state exceeds 16000 characters'' []) else Inr (canon (PDict d)))"

definition bounded_event :: "(rat \<Rightarrow> string) \<Rightarrow> (string \<Rightarrow> string) \<Rightarrow> pyval dict \<Rightarrow> pyval" where
  "bounded_event fl sha d = (let text = json_spaced fl (PDict d) in
     if MAX_EVENT_CHARS < int (length text) then PDict [(''truncated_sha256'', PStr (sha text))] else canon (PDict d))"

definition bounded_events :: "(rat \<Rightarrow> string) \<Rightarrow> (string \<Rightarrow> string) \<Rightarrow> pyval dict list \<Rightarrow> pyval list" where
  "bounded_events fl sha ds = map (bounded_event fl sha) (drop (length ds - MAX_RECENT_EVENTS) ds)"

section \<open>The journal and the ledger\<close>

definition incident_event :: "int \<Rightarrow> string \<Rightarrow> string \<Rightarrow> incident \<Rightarrow> string \<Rightarrow> pyval dict" where
  "incident_event n event at_time i detail = [(''sequence'', PInt n), (''event'', PStr event), (''at'', PStr at_time),
     (''incident_id'', PStr (ic_id i)), (''incident_phase'', PStr (phase_value (ic_phase i))),
     (''reservation_id'', PNone), (''transport_status'', PNone), (''token'', PNone),
     (''detail'', PStr (bounded MAX_EVENT_CHARS detail))]"

definition log_event :: "string \<Rightarrow> string \<Rightarrow> incident \<Rightarrow> string \<Rightarrow> incident_store \<Rightarrow> incident_store" where
  "log_event event at_time i detail s = s\<lparr>is_sequence := is_sequence s + 1,
     is_journal := is_journal s @ [incident_event (is_sequence s + 1) event at_time i detail]\<rparr>"

text \<open>An incident is changed in place: the one with its id is replaced.\<close>

definition put_incident :: "incident \<Rightarrow> incident_store \<Rightarrow> incident_store" where
  "put_incident i s = s\<lparr>is_incidents := map (\<lambda>k. if ic_id k = ic_id i then i else k) (is_incidents s)\<rparr>"

definition new_entry :: "string \<Rightarrow> incident \<Rightarrow> string \<Rightarrow> ledger_entry" where
  "new_entry signature i at_time = \<lparr>le_signature = signature, le_code = ic_code i, le_class = ic_class i,
     le_operation = ic_operation i, le_outcome = ic_outcome i, le_occurrences = 0, le_incident_ids = [],
     le_first_seen = at_time, le_last_seen = at_time, le_resolutions = [], le_promoted = None\<rparr>"

definition record_signature :: "string \<Rightarrow> incident \<Rightarrow> string \<Rightarrow> incident_store \<Rightarrow> int \<times> incident_store" where
  "record_signature signature i at_time s =
     (let e = (case map_of (is_signatures s) signature of None \<Rightarrow> new_entry signature i at_time | Some e \<Rightarrow> e);
          n = le_occurrences e + 1;
          ids = (if ic_id i \<in> set (le_incident_ids e) then le_incident_ids e else le_incident_ids e @ [ic_id i]) in
      (n, s\<lparr>is_signatures := AList.update signature
        (e\<lparr>le_occurrences := n, le_last_seen := at_time, le_incident_ids := ids\<rparr>) (is_signatures s)\<rparr>))"

definition promoted_runbook :: "incident_store \<Rightarrow> string \<Rightarrow> learned_runbook option" where
  "promoted_runbook s signature = Option.bind (map_of (is_signatures s) signature) le_promoted"

text \<open>
  \<^verbatim>\<open>_record_resolution\<close>: the closure is kept under its signature; the second identical one that only
  names actions level 1 may replay makes a runbook.
\<close>

definition normalized_actions :: "string list \<Rightarrow> string list" where
  "normalized_actions actions = sorted_set (filter (\<lambda>a. strip a \<noteq> []) actions)"

definition identical_resolutions :: "ledger_entry \<Rightarrow> string list \<Rightarrow> string option \<Rightarrow> resolution list" where
  "identical_resolutions e actions check =
     filter (\<lambda>r. re_actions r = actions \<and> re_check r = check) (le_resolutions e)"

definition with_resolution :: "ledger_entry \<Rightarrow> string list \<Rightarrow> healthcheck \<Rightarrow> string \<Rightarrow> string \<Rightarrow> ledger_entry" where
  "with_resolution e acts hc at_time note_text = e\<lparr>le_resolutions := le_resolutions e @ [\<lparr>re_actions = acts,
     re_check = Some (hc_name hc), re_at = at_time, re_note = bounded MAX_EVENT_CHARS note_text\<rparr>]\<rparr>"

definition promotes :: "ledger_entry \<Rightarrow> string list \<Rightarrow> healthcheck \<Rightarrow> bool" where
  "promotes e acts hc \<longleftrightarrow> le_promoted e = None \<and> acts \<noteq> [] \<and> set acts \<subseteq> set AUTO_REPLAYABLE_ACTIONS
     \<and> PROMOTION_THRESHOLD \<le> length (identical_resolutions e acts (Some (hc_name hc)))"

definition promoted :: "ledger_entry \<Rightarrow> string \<Rightarrow> string list \<Rightarrow> healthcheck \<Rightarrow> string \<Rightarrow> ledger_entry" where
  "promoted e signature acts hc at_time = e\<lparr>le_promoted := Some \<lparr>rb_id = ''learned-'' @ signature,
     rb_actions = acts, rb_check = Some (hc_name hc), rb_promoted_at = at_time,
     rb_from = length (identical_resolutions e acts (Some (hc_name hc)))\<rparr>\<rparr>"

definition record_resolution :: "incident \<Rightarrow> string list \<Rightarrow> healthcheck \<Rightarrow> string \<Rightarrow> string \<Rightarrow> incident_store
    \<Rightarrow> string option \<times> incident_store" where
  "record_resolution i actions hc at_time note_text s =
     (case (if ic_signature i = [] then None else map_of (is_signatures s) (ic_signature i)) of
        None \<Rightarrow> (None, s)
      | Some e \<Rightarrow>
         (let acts = normalized_actions actions; e' = with_resolution e acts hc at_time note_text;
              put = (\<lambda>x. s\<lparr>is_signatures := AList.update (ic_signature i) x (is_signatures s)\<rparr>) in
          if promotes e' acts hc
          then (Some (''learned-'' @ ic_signature i), put (promoted e' (ic_signature i) acts hc at_time))
          else (None, put e')))"

section \<open>Operations\<close>

definition opened_incident :: "(rat \<Rightarrow> string) \<Rightarrow> (string \<Rightarrow> string) \<Rightarrow> incident_signal \<Rightarrow> incident_class \<Rightarrow> string
    \<Rightarrow> recovery_runbook option \<Rightarrow> learned_runbook option \<Rightarrow> pyval \<Rightarrow> string \<Rightarrow> int \<Rightarrow> int \<Rightarrow> int \<Rightarrow> incident" where
  "opened_incident fl sha g c signature kb learned system_value at_time retries initial maximum =
     \<lparr>ic_id = ''incident-'' @ take 16 (sha (sg_id g)), ic_signal_id = sg_id g, ic_code = sg_code g, ic_class = c,
      ic_signature = signature,
      ic_summary = bounded MAX_EVENT_CHARS (sg_summary g), ic_tasks = sg_tasks g, ic_context_task = sg_context_task g,
      ic_operation = sg_operation g, ic_outcome = sg_outcome g, ic_phase = DEGRADED,
      ic_runbook_id = (case kb of Some k \<Rightarrow> Some (kb_id k) | None \<Rightarrow> map_option rb_id learned),
      ic_runbook_check = (case kb of Some k \<Rightarrow> Some (kb_healthcheck k) | None \<Rightarrow> Option.bind learned rb_check),
      ic_attempts = 0, ic_budget = retries, ic_initial = initial, ic_maximum = maximum, ic_next_retry = None,
      ic_lock_token = None, ic_owner = None, ic_healthcheck = None, ic_state = system_value,
      ic_events = bounded_events fl sha (sg_events g), ic_created_at = at_time, ic_updated_at = at_time,
      ic_resolved_at = None, ic_records = [], ic_escalation_reason = None, ic_escalation_detail = None,
      ic_escalated_at = None, ic_escalation = None, ic_blocks_run = None\<rparr>"

definition open_new :: "(rat \<Rightarrow> string) \<Rightarrow> (string \<Rightarrow> string) \<Rightarrow> incident_signal \<Rightarrow> incident_class \<Rightarrow> string
    \<Rightarrow> recovery_runbook option \<Rightarrow> string \<Rightarrow> int \<Rightarrow> int \<Rightarrow> int \<Rightarrow> incident store_op" where
  "open_new fl sha g c signature kb at_time retries initial maximum s =
     bindE (bounded_mapping fl (sg_state g)) (\<lambda>system_value.
     (let i = opened_incident fl sha g c signature kb (promoted_runbook s signature)
            system_value at_time retries initial maximum;
          (n, s1) = record_signature signature i at_time (s\<lparr>is_incidents := is_incidents s @ [i]\<rparr>);
          s2 = log_event ''incident_opened'' at_time i '''' s1 in
      Inr (i, if 1 < n then log_event ''incident_recurrence_observed'' at_time i
        (''signature '' @ signature @ '' seen '' @ dec_int n @ '' times'') s2 else s2)))"

definition open_body :: "(rat \<Rightarrow> string) \<Rightarrow> (string \<Rightarrow> string) \<Rightarrow> incident_signal \<Rightarrow> incident_class \<Rightarrow> string
    \<Rightarrow> recovery_runbook option \<Rightarrow> string \<Rightarrow> int \<Rightarrow> int \<Rightarrow> int \<Rightarrow> incident store_op" where
  "open_body fl sha g c signature kb at_time retries initial maximum s =
     (case filter (\<lambda>k. ic_id k = ''incident-'' @ take 16 (sha (sg_id g))) (is_incidents s) of
        [] \<Rightarrow> open_new fl sha g c signature kb at_time retries initial maximum s
      | [k] \<Rightarrow> Inr (k, s)
      | _ \<Rightarrow> Inl (PipelineIncidentError ''unknown or non-unique incident id'' []))"

definition open_incident :: "(rat \<Rightarrow> string) \<Rightarrow> (string \<Rightarrow> string) \<Rightarrow> incident_signal \<Rightarrow> string \<Rightarrow> int \<Rightarrow> int \<Rightarrow> int
    \<Rightarrow> incident store_op" where
  "open_incident fl sha g at_time retries initial maximum s =
     bindE (classify_incident g) (\<lambda>c.
     bindE (incident_signature sha g) (\<lambda>signature.
     bindE (select_runbook g) (\<lambda>kb.
     bindE (positive retries ''retry_budget'') (\<lambda>_.
     bindE (positive initial ''retry_initial_seconds'') (\<lambda>_.
     bindE (positive maximum ''retry_maximum_seconds'') (\<lambda>_.
     transaction (open_body fl sha g c signature kb at_time retries initial maximum) s))))))"

definition set_phase :: "incident_phase \<Rightarrow> string \<Rightarrow> incident \<Rightarrow> incident" where
  "set_phase p at_time i = i\<lparr>ic_phase := p, ic_updated_at := at_time\<rparr>"

text \<open>An operation on one incident: it becomes \<^verbatim>\<open>i\<close>, and the event is appended with its new phase.\<close>

definition change :: "incident \<Rightarrow> string \<Rightarrow> string \<Rightarrow> string \<Rightarrow> incident_store \<Rightarrow> incident_store" where
  "change i event at_time detail s = log_event event at_time i detail (put_incident i s)"

definition route_body :: "string \<Rightarrow> string \<Rightarrow> incident_phase store_op" where
  "route_body i at_time s = bindE (find_incident s i) (\<lambda>k.
     if ic_phase k \<noteq> DEGRADED then Inr (ic_phase k, s)
     else if ic_class k \<in> set ADVISORY_INCIDENT_CLASSES
     then Inr (PIPELINE_ENGINEER, change (set_phase PIPELINE_ENGINEER at_time k) ''pipeline_engineer_requested'' at_time
       ''advisory: diagnosis and a recommendation for the owner'' s)
     else if ic_runbook_id k = None
     then Inr (AUTO_RECOVERY_FAILED, change (set_phase AUTO_RECOVERY_FAILED at_time k) ''auto_recovery_unavailable'' at_time
       ''no allowlisted runbook matches the structured signal'' s)
     else Inr (DEGRADED, s))"

definition route_incident :: "string \<Rightarrow> string \<Rightarrow> incident_phase store_op" where
  "route_incident i at_time = transaction (route_body i at_time)"

definition backoff_seconds :: "incident \<Rightarrow> int" where
  "backoff_seconds i = min (ic_initial i * 2 ^ nat (max 0 (ic_attempts i - 1))) (ic_maximum i)"

definition foreign_slot :: "incident_store \<Rightarrow> string \<Rightarrow> bool" where
  "foreign_slot s i \<longleftrightarrow> (case is_slot s of None \<Rightarrow> False | Some sl \<Rightarrow> sl_incident sl \<noteq> i)"

definition recovery_token :: "(string \<Rightarrow> string) \<Rightarrow> string \<Rightarrow> incident \<Rightarrow> string" where
  "recovery_token sha at_time k = sha (join '':'' [ic_id k, dec_int (ic_attempts k + 1), at_time])"

definition recovering :: "string \<Rightarrow> string \<Rightarrow> string \<Rightarrow> incident \<Rightarrow> incident" where
  "recovering token owner at_time k =
     (let started = k\<lparr>ic_attempts := ic_attempts k + 1, ic_lock_token := Some token, ic_owner := Some owner\<rparr> in
      (set_phase AUTO_RECOVERY at_time started)\<lparr>ic_next_retry := Some (backoff_seconds started)\<rparr>)"

definition begin_body :: "(string \<Rightarrow> string) \<Rightarrow> string \<Rightarrow> string \<Rightarrow> string \<Rightarrow> incident store_op" where
  "begin_body sha i at_time owner s = bindE (find_incident s i) (\<lambda>k.
       if ic_phase k \<noteq> DEGRADED then Inl (PipelineIncidentError ''auto-recovery requires a DEGRADED incident'' [])
       else if ic_runbook_id k = None
       then Inl (PipelineIncidentError ''auto-recovery requires an allowlisted or promoted runbook'' [])
       else if ic_budget k \<le> ic_attempts k then Inl (PipelineIncidentError ''auto-recovery budget is already exhausted'' [])
       else if foreign_slot s i then Inl (PipelineIncidentError ''another incident owns the recovery slot'' [])
       else (let token = recovery_token sha at_time k; k' = recovering token owner at_time k in
         Inr (k', change k' ''auto_recovery_started'' at_time
             (''attempt '' @ dec_int (ic_attempts k') @ '' of '' @ dec_int (ic_budget k'))
             (s\<lparr>is_slot := Some \<lparr>sl_incident = i, sl_token = token, sl_owner = owner\<rparr>\<rparr>))))"

definition begin_auto_recovery :: "(string \<Rightarrow> string) \<Rightarrow> string \<Rightarrow> string \<Rightarrow> string \<Rightarrow> incident store_op" where
  "begin_auto_recovery sha i at_time owner s = bindE (nonempty owner ''owner_id'') (\<lambda>_.
     transaction (begin_body sha i at_time owner) s)"

definition require_recovery_claim :: "incident_store \<Rightarrow> incident \<Rightarrow> string \<Rightarrow> unit result" where
  "require_recovery_claim s k token = (if ic_phase k = AUTO_RECOVERY \<and> ic_lock_token k = Some token
       \<and> (case is_slot s of None \<Rightarrow> False | Some sl \<Rightarrow> sl_incident sl = ic_id k \<and> sl_token sl = token)
     then Inr () else Inl (PipelineIncidentError ''recovery lock or slot ownership does not match'' []))"

definition expected_healthcheck :: "incident \<Rightarrow> string option" where
  "expected_healthcheck k = (case ic_runbook_check k of Some (c # cs) \<Rightarrow> Some (c # cs)
     | _ \<Rightarrow> map_option kb_healthcheck (runbook_of (ic_runbook_id k)))"

definition require_passing_healthcheck :: "healthcheck option \<Rightarrow> string option \<Rightarrow> healthcheck result" where
  "require_passing_healthcheck hc expected = (case hc of
     None \<Rightarrow> Inl (PipelineIncidentError ''a passing non-empty healthcheck is required before resume'' [])
   | Some h \<Rightarrow>
       if \<not> hc_passed h \<or> hc_checks h = []
       then Inl (PipelineIncidentError ''a passing non-empty healthcheck is required before resume'' [])
       else
       bindE (nonempty (hc_name h) ''healthcheck name'') (\<lambda>_.
       bindE (nonempty (hc_observed_at h) ''healthcheck timestamp'') (\<lambda>_.
       if \<exists>c \<in> set (hc_checks h). strip c = []
       then Inl (PipelineIncidentError ''healthcheck observations must be non-empty strings'' [])
       else if expected \<noteq> None \<and> expected \<noteq> Some (hc_name h)
       then Inl (PipelineIncidentError ''healthcheck must match the declared runbook check'' []) else Inr h)))"

definition released :: "incident \<Rightarrow> incident" where
  "released k = k\<lparr>ic_lock_token := None, ic_owner := None\<rparr>"

definition complete_recovery_body :: "string \<Rightarrow> string \<Rightarrow> bool \<Rightarrow> string \<Rightarrow> healthcheck option \<Rightarrow> incident_phase store_op" where
  "complete_recovery_body i token success at_time hc s = bindE (find_incident s i) (\<lambda>k.
     bindE (require_recovery_claim s k token) (\<lambda>_.
     (let free = s\<lparr>is_slot := None\<rparr> in
      if success then bindE (require_passing_healthcheck hc (expected_healthcheck k)) (\<lambda>h.
        Inr (RECOVERED, change ((set_phase RECOVERED at_time (released k))\<lparr>ic_healthcheck := Some h,
          ic_resolved_at := Some at_time, ic_next_retry := None\<rparr>) ''auto_recovery_succeeded'' at_time '''' free))
      else if ic_budget k \<le> ic_attempts k
      then Inr (AUTO_RECOVERY_FAILED, change (set_phase AUTO_RECOVERY_FAILED at_time (released k))
        ''auto_recovery_exhausted'' at_time '''' free)
      else Inr (DEGRADED, change (set_phase DEGRADED at_time (released k)) ''auto_recovery_attempt_failed'' at_time ''''
        free))))"

definition complete_auto_recovery :: "string \<Rightarrow> string \<Rightarrow> bool \<Rightarrow> string \<Rightarrow> healthcheck option \<Rightarrow> incident_phase store_op" where
  "complete_auto_recovery i token success at_time hc = transaction (complete_recovery_body i token success at_time hc)"

definition known_check :: "incident \<Rightarrow> string \<Rightarrow> healthcheck" where
  "known_check k at_time = \<lparr>hc_name = (case expected_healthcheck k of Some c \<Rightarrow> c | None \<Rightarrow> ''known_recovery_preconditions''),
     hc_passed = True, hc_checks = [''side_effect_outcome='' @ outcome_value (ic_outcome k),
       ''classification='' @ class_value (ic_class k)], hc_observed_at = at_time\<rparr>"

text \<open>Level 1 in one go: two transactions; the first stands when the second is refused.\<close>

definition attempt_known_recovery :: "(string \<Rightarrow> string) \<Rightarrow> string \<Rightarrow> string \<Rightarrow> string \<Rightarrow> incident_store
    \<Rightarrow> incident_phase result \<times> incident_store" where
  "attempt_known_recovery sha i at_time owner s = (case begin_auto_recovery sha i at_time owner s of
     Inl e \<Rightarrow> (Inl e, s)
   | Inr (k, s') \<Rightarrow>
      (let safe = ic_outcome k \<noteq> UNKNOWN \<and> ic_class k \<in> set INFRASTRUCTURE_INCIDENT_CLASSES in
       case complete_auto_recovery i (case ic_lock_token k of Some t \<Rightarrow> t | None \<Rightarrow> ''None'') safe at_time
         (if safe then Some (known_check k at_time) else None) s' of
         Inl e \<Rightarrow> (Inl e, s') | Inr (p, s'') \<Rightarrow> (Inr p, s'')))"

text \<open>What the engineer did to a stopped task is kept on the ticket, under one of these keys.\<close>

datatype engineer_field = RETURNS | PLAN_CHANGE_REQUESTS | REVOKED_GRANTS | RUBRIC_SUPERSESSIONS | RUNTIME_PATCHES

fun field_value :: "engineer_field \<Rightarrow> string" where
  "field_value RETURNS = ''returns''"
| "field_value PLAN_CHANGE_REQUESTS = ''plan_change_requests''"
| "field_value REVOKED_GRANTS = ''revoked_grants''"
| "field_value RUBRIC_SUPERSESSIONS = ''rubric_supersessions''"
| "field_value RUNTIME_PATCHES = ''runtime_patches''"

definition records_of :: "incident \<Rightarrow> engineer_field \<Rightarrow> pyval list" where
  "records_of k f = (case map_of (ic_records k) (field_value f) of None \<Rightarrow> [] | Some es \<Rightarrow> es)"

definition with_record :: "engineer_field \<Rightarrow> pyval dict \<Rightarrow> string \<Rightarrow> incident \<Rightarrow> incident" where
  "with_record f entry at_time k = k\<lparr>ic_records := AList.update (field_value f) (records_of k f @ [PDict entry]) (ic_records k),
     ic_updated_at := at_time\<rparr>"

definition record_action_body :: "(rat \<Rightarrow> string) \<Rightarrow> string \<Rightarrow> engineer_field \<Rightarrow> string \<Rightarrow> pyval dict \<Rightarrow> string \<Rightarrow> bool
    \<Rightarrow> incident store_op" where
  "record_action_body fl i field event entry at_time holder_only s = bindE (find_incident s i) (\<lambda>k.
     if holder_only \<and> ic_phase k \<noteq> PIPELINE_ENGINEER
     then Inl (PipelineIncidentError ''only the engineer holding it acts on its tasks'' [i])
     else (let k' = with_record field entry at_time k in
       Inr (k', change k' event at_time (bounded MAX_EVENT_CHARS (json_spaced fl (PDict entry))) s)))"

definition record_engineer_action :: "(rat \<Rightarrow> string) \<Rightarrow> string \<Rightarrow> engineer_field \<Rightarrow> string \<Rightarrow> pyval dict \<Rightarrow> string \<Rightarrow> bool
    \<Rightarrow> incident store_op" where
  "record_engineer_action fl i field event entry at_time holder_only = transaction (record_action_body fl i field event entry at_time holder_only)"

definition record_patch_body :: "(rat \<Rightarrow> string) \<Rightarrow> string \<Rightarrow> pyval dict \<Rightarrow> string \<Rightarrow> incident store_op" where
  "record_patch_body fl i patch at_time s = bindE (find_incident s i) (\<lambda>k.
     if ic_phase k \<noteq> PIPELINE_ENGINEER
     then Inl (PipelineIncidentError ''a runtime repair belongs to the engineer holding the incident'' [])
     else (let k' = with_record RUNTIME_PATCHES patch at_time k in
       Inr (k', change k' ''runtime_patched'' at_time (json_spaced fl (PDict patch)) s)))"

definition record_runtime_patch :: "(rat \<Rightarrow> string) \<Rightarrow> string \<Rightarrow> pyval dict \<Rightarrow> string \<Rightarrow> incident store_op" where
  "record_runtime_patch fl i patch at_time = transaction (record_patch_body fl i patch at_time)"

text \<open>\<^verbatim>\<open>dict.fromkeys\<close>: the first occurrence of every item.\<close>

definition first_occurrences :: "string list \<Rightarrow> string list" where
  "first_occurrences xs = rev (remdups (rev xs))"

definition is_set :: "string option \<Rightarrow> bool" where
  "is_set v \<longleftrightarrow> v \<noteq> None \<and> v \<noteq> Some []"

definition hold_more_body :: "string \<Rightarrow> string list \<Rightarrow> string \<Rightarrow> string list store_op" where
  "hold_more_body i wanted at_time s = bindE (find_incident s i) (\<lambda>k.
     if is_set (ic_resolved_at k) then Inl (PipelineIncidentError ''the incident is closed: it holds nothing'' [i])
     else (let added = filter (\<lambda>t. t \<noteq> [] \<and> t \<notin> set (ic_tasks k)) (first_occurrences wanted) in
       Inr (added, if added = [] then s else change (k\<lparr>ic_tasks := ic_tasks k @ added, ic_updated_at := at_time\<rparr>)
         ''incident_hold_widened'' at_time (join '', '' added) s)))"

definition hold_more_tasks :: "string \<Rightarrow> string list \<Rightarrow> string \<Rightarrow> string list store_op" where
  "hold_more_tasks i wanted at_time = transaction (hold_more_body i wanted at_time)"

record incident_package =
  pk_incident :: incident
  pk_recent :: "pyval list"
  pk_allowed :: "string list"
  pk_forbidden :: "string list"
  pk_slot :: "recovery_slot option"

definition last_events :: "incident_store \<Rightarrow> string \<Rightarrow> pyval list" where
  "last_events s i = (let es = map PDict (filter (\<lambda>e. get e ''incident_id'' = PStr i) (is_journal s)) in
     drop (length es - MAX_RECENT_EVENTS) es)"

definition package_of :: "incident_store \<Rightarrow> incident \<Rightarrow> incident_package result" where
  "package_of s k =
     (if ic_class k \<notin> set ENGINEER_LANE_CLASSES
      then Inl (PipelineIncidentError ''Pipeline Engineer packages do not know class'' [class_value (ic_class k)])
      else Inr \<lparr>pk_incident = k, pk_recent = (if last_events s (ic_id k) = [] then ic_events k else last_events s (ic_id k)),
        pk_allowed = (if ic_class k \<in> set ADVISORY_INCIDENT_CLASSES then READ_ONLY_DIAGNOSTIC_ACTIONS
          else RECOVERY_ACTIONS @ (case runbook_of (ic_runbook_id k) of None \<Rightarrow> []
            | Some r \<Rightarrow> filter (\<lambda>a. a \<notin> set RECOVERY_ACTIONS) (kb_actions r))),
        pk_forbidden = FORBIDDEN_ACTIONS, pk_slot = is_slot s\<rparr>)"

definition with_package :: "incident \<Rightarrow> incident_store \<Rightarrow> (incident_package \<times> incident_store) result" where
  "with_package k s = bindE (package_of s k) (\<lambda>p. Inr (p, s))"

text \<open>Level 2 opens for a ticket without a usable runbook, and for a stop always.\<close>

definition needs_engineer :: "incident \<Rightarrow> bool" where
  "needs_engineer k \<longleftrightarrow> ic_class k \<in> set ADVISORY_INCIDENT_CLASSES \<or> ic_runbook_id k = None
     \<or> startswith (ic_code k) STOP_CODE_PREFIX"

definition failed_recovery :: "string \<Rightarrow> incident \<Rightarrow> incident_store \<Rightarrow> incident \<times> incident_store" where
  "failed_recovery at_time k s = (if ic_phase k = DEGRADED \<and> needs_engineer k
     then (set_phase AUTO_RECOVERY_FAILED at_time k, change (set_phase AUTO_RECOVERY_FAILED at_time k)
       ''auto_recovery_unavailable'' at_time ''no allowlisted runbook matches the structured signal'' s)
     else (k, s))"

definition ensure_engineer_body :: "string \<Rightarrow> string \<Rightarrow> incident_package store_op" where
  "ensure_engineer_body i at_time s = bindE (find_incident s i) (\<lambda>k.
     if ic_class k \<notin> set ENGINEER_LANE_CLASSES
     then Inl (PipelineIncidentError ''Pipeline Engineer activation does not know class'' [class_value (ic_class k)])
     else if ic_phase k \<in> {PIPELINE_ENGINEER, RESOLVED} then with_package k s
     else (case failed_recovery at_time k s of (f, s') \<Rightarrow>
       if ic_phase f \<noteq> AUTO_RECOVERY_FAILED
       then Inl (PipelineIncidentError ''requires an incident with exhausted or unavailable auto-recovery'' [])
       else with_package (set_phase PIPELINE_ENGINEER at_time f)
         (change (set_phase PIPELINE_ENGINEER at_time f) ''pipeline_engineer_requested'' at_time '''' s')))"

definition ensure_pipeline_engineer :: "string \<Rightarrow> string \<Rightarrow> incident_package store_op" where
  "ensure_pipeline_engineer i at_time = transaction (ensure_engineer_body i at_time)"

definition require_engineer_incident :: "incident_store \<Rightarrow> string \<Rightarrow> incident result" where
  "require_engineer_incident s i = bindE (validate_store s) (\<lambda>_. bindE (find_incident s i) (\<lambda>k.
     if ic_phase k \<noteq> PIPELINE_ENGINEER
     then Inl (PipelineIncidentError ''a runtime repair belongs to the engineer holding the incident'' [i, phase_value (ic_phase k)])
     else Inr k))"

definition require_named_actions :: "string list \<Rightarrow> unit result" where
  "require_named_actions actions =
     (let named = filter (\<lambda>a. a \<noteq> []) (map strip actions);
          unknown = sorted_set (filter (\<lambda>a. a \<notin> set RECOVERY_ACTIONS) named) in
      if named = [] then Inl (PipelineIncidentError ''resolving an incident requires at least one named action'' [])
      else if unknown \<noteq> [] then Inl (PipelineIncidentError ''unknown recovery actions'' unknown) else Inr ())"

definition escalate_to_user :: "string \<Rightarrow> string \<Rightarrow> string \<Rightarrow> incident \<Rightarrow> incident result" where
  "escalate_to_user reason at_time detail k =
     (if reason \<notin> set ESCALATION_REASONS
      then Inl (AuthorizationTopologyError ''R13: an escalation requires a reason code from the closed list'' [reason])
      else Inr (k\<lparr>ic_phase := ESCALATE_TO_USER, ic_escalation_reason := Some reason,
        ic_escalation_detail := Some detail, ic_escalated_at := Some at_time\<rparr>))"

definition promotion_note :: "string \<Rightarrow> incident \<Rightarrow> string \<Rightarrow> incident_store \<Rightarrow> incident_store" where
  "promotion_note runbook k at_time s = log_event ''runbook_promoted'' at_time k
     (runbook @ '': the same repair resolved signature '' @ ic_signature k @ '' '' @ dec_nat PROMOTION_THRESHOLD
       @ '' times; from now on it is applied without the engineer'') s"

definition complete_engineer_body :: "string \<Rightarrow> bool \<Rightarrow> string \<Rightarrow> healthcheck option \<Rightarrow> string \<Rightarrow> string list \<Rightarrow> string
    \<Rightarrow> incident_phase store_op" where
  "complete_engineer_body i success at_time hc reason actions note_text s = bindE (find_incident s i) (\<lambda>k.
     if ic_phase k \<noteq> PIPELINE_ENGINEER
     then Inl (PipelineIncidentError ''Pipeline Engineer completion requires PIPELINE_ENGINEER'' [])
     else if success \<and> ic_class k \<in> set RESOLVE_FORBIDDEN_CLASSES
     then Inl (PipelineIncidentError ''the ticket is not the on-call's to close'' [class_value (ic_class k)])
     else if success then
       bindE (require_named_actions actions) (\<lambda>_.
       bindE (require_passing_healthcheck hc (expected_healthcheck k)) (\<lambda>h.
       (let k' = (set_phase RESOLVED at_time k)\<lparr>ic_healthcheck := Some h, ic_resolved_at := Some at_time\<rparr>;
            (learned, s1) = record_resolution k' actions h at_time note_text s;
            s2 = change k' ''pipeline_engineer_resolved'' at_time (bounded MAX_EVENT_CHARS reason) s1 in
        Inr (RESOLVED, case learned of None \<Rightarrow> s2 | Some r \<Rightarrow> promotion_note r k' at_time s2))))
     else
       bindE (escalate_to_user ''RECOVERY_EXHAUSTED'' at_time ''Pipeline Engineer could not resolve the incident'' k) (\<lambda>k'.
       Inr (ESCALATE_TO_USER, change (k'\<lparr>ic_updated_at := at_time\<rparr>) ''pipeline_engineer_escalated_to_user'' at_time
         (bounded MAX_EVENT_CHARS reason) s)))"

definition complete_pipeline_engineer :: "string \<Rightarrow> bool \<Rightarrow> string \<Rightarrow> healthcheck option \<Rightarrow> string \<Rightarrow> string list \<Rightarrow> string
    \<Rightarrow> incident_phase store_op" where
  "complete_pipeline_engineer i success at_time hc reason actions note_text = transaction (complete_engineer_body i success at_time hc reason actions note_text)"

definition escalation_view :: "pyval dict \<Rightarrow> pyval dict" where
  "escalation_view d = map (\<lambda>f. (f, get d f)) (filter (\<lambda>f. f \<in> set (keys d)) ESCALATION_FIELDS)"

definition escalation_value :: "(rat \<Rightarrow> string) \<Rightarrow> pyval dict \<Rightarrow> incident \<Rightarrow> incident result" where
  "escalation_value fl d k = (if d = [] then Inr k
     else bindE (bounded_mapping fl (escalation_view d)) (\<lambda>v. Inr (k\<lparr>ic_escalation := Some v\<rparr>)))"

definition escalate_incident_body :: "(rat \<Rightarrow> string) \<Rightarrow> string \<Rightarrow> string \<Rightarrow> string \<Rightarrow> string \<Rightarrow> pyval dict \<Rightarrow> bool
    \<Rightarrow> incident_phase store_op" where
  "escalate_incident_body fl i reason at_time detail escalation blocks_run s = bindE (find_incident s i) (\<lambda>k.
     if ic_phase k = ESCALATE_TO_USER then Inr (ESCALATE_TO_USER, s)
     else if ic_phase k \<notin> {PIPELINE_ENGINEER, RESOLVED, RECOVERED}
     then Inl (PipelineIncidentError ''escalation requires an incident held, resolved or recovered by Pipeline Engineer'' [])
     else
     bindE (escalate_to_user reason at_time detail k) (\<lambda>k1.
     bindE (escalation_value fl escalation k1) (\<lambda>k2.
     Inr (ESCALATE_TO_USER, change (k2\<lparr>ic_blocks_run := Some blocks_run, ic_updated_at := at_time\<rparr>)
       ''pipeline_engineer_escalated_to_user'' at_time (bounded MAX_EVENT_CHARS (reason @ '': '' @ detail)) s))))"

definition escalate_incident_to_user :: "(rat \<Rightarrow> string) \<Rightarrow> string \<Rightarrow> string \<Rightarrow> string \<Rightarrow> string \<Rightarrow> pyval dict \<Rightarrow> bool
    \<Rightarrow> incident_phase store_op" where
  "escalate_incident_to_user fl i reason at_time detail escalation blocks_run = transaction (escalate_incident_body fl i reason at_time detail escalation blocks_run)"

definition resolve_escalation_body :: "string \<Rightarrow> string \<Rightarrow> string \<Rightarrow> incident_phase store_op" where
  "resolve_escalation_body i at_time note_text s = bindE (find_incident s i) (\<lambda>k.
     if ic_phase k \<notin> {ESCALATE_TO_USER, PIPELINE_ENGINEER}
     then Inl (PipelineIncidentError ''only an incident handed to the user is closed by the user'' [])
     else Inr (RESOLVED, change ((set_phase RESOLVED at_time k)\<lparr>ic_resolved_at := Some at_time\<rparr>)
       ''escalation_resolved_by_user'' at_time
       (bounded MAX_EVENT_CHARS (if note_text = [] then ''user answered the escalation'' else note_text)) s))"

definition resolve_escalation_by_user :: "string \<Rightarrow> string \<Rightarrow> string \<Rightarrow> incident_phase store_op" where
  "resolve_escalation_by_user i at_time note_text = transaction (resolve_escalation_body i at_time note_text)"

definition incident_ids_awaiting_the_user :: "incident_store \<Rightarrow> string list" where
  "incident_ids_awaiting_the_user s =
     map ic_id (filter (\<lambda>k. ic_phase k \<in> {ESCALATE_TO_USER, PIPELINE_ENGINEER}) (is_incidents s))"

definition invalidate_resolution_body :: "string \<Rightarrow> string \<Rightarrow> string \<Rightarrow> incident_package store_op" where
  "invalidate_resolution_body i at_time reason s = bindE (find_incident s i) (\<lambda>k.
     if ic_phase k = PIPELINE_ENGINEER then with_package k s
     else if ic_phase k \<noteq> RESOLVED
     then Inl (PipelineIncidentError ''only a resolved Pipeline Engineer incident can be invalidated'' [])
     else if ic_class k \<notin> set INFRASTRUCTURE_INCIDENT_CLASSES
     then Inl (PipelineIncidentError ''Pipeline Engineer resolution invalidation is infrastructure-only'' [])
     else (let k' = (set_phase PIPELINE_ENGINEER at_time k)\<lparr>ic_healthcheck := None, ic_resolved_at := None\<rparr> in
       with_package k' (change k' ''pipeline_engineer_resolution_invalidated'' at_time (bounded MAX_EVENT_CHARS reason) s)))"

definition invalidate_pipeline_engineer_resolution :: "string \<Rightarrow> string \<Rightarrow> string \<Rightarrow> incident_package store_op" where
  "invalidate_pipeline_engineer_resolution i at_time reason = transaction (invalidate_resolution_body i at_time reason)"

section \<open>Status\<close>

definition status_phase :: "incident_store \<Rightarrow> incident_phase" where
  "status_phase s = (case filter (\<lambda>k. ic_phase k \<noteq> RESOLVED) (is_incidents s) of
     [] \<Rightarrow> HEALTHY
   | k # ks \<Rightarrow> fold (\<lambda>p best. if phase_priority best < phase_priority p then p else best) (map ic_phase ks) (ic_phase k))"

definition paused_task_ids :: "incident_store \<Rightarrow> string list" where
  "paused_task_ids s = sorted_set (concat (map ic_tasks
     (filter (\<lambda>k. ic_phase k \<notin> {RECOVERED, RESOLVED}) (is_incidents s))))"

definition pending_transport :: "incident_store \<Rightarrow> pyval dict list" where
  "pending_transport s = filter (\<lambda>r. get r ''status'' \<notin> {PStr ''ACKNOWLEDGED'', PStr ''FAILED''}) (is_transport s)"

definition repeat_breakages :: "incident_store \<Rightarrow> (string \<times> string \<times> int \<times> string list) list" where
  "repeat_breakages s = sort_key (\<lambda>r. - fst (snd (snd r))) (sort_key fst
     (map (\<lambda>(i, e). (i, le_code e, le_occurrences e, sorted_set (concat (map re_actions (le_resolutions e)))))
       (filter (\<lambda>(i, e). 2 \<le> le_occurrences e) (is_signatures s))))"

end
