(* ===== verification/IncidentRuns.thy ===== *)
theory IncidentRuns
  imports Incidents
begin

text \<open>
  Runs of the incident store: sequences of the operations of \<^verbatim>\<open>PipelineIncidentStore\<close>, each in its own
  transaction, from the empty store. Three invariants are kept by every operation: the recovery slot
  and the attempts, the story the journal tells of a ticket, and the ledger of failure signatures.
\<close>

section \<open>Operations as values\<close>

datatype incident_op =
  OpenTicket incident_signal string int int int
| RouteTicket string string
| BeginRecovery string string string
| CompleteRecovery string string bool string "healthcheck option"
| RecordAction string engineer_field string "pyval dict" string bool
| RecordPatch string "pyval dict" string
| HoldMore string "string list" string
| EnsureEngineer string string
| CompleteEngineer string bool string "healthcheck option" string "string list" string
| EscalateTicket string string string string "pyval dict" bool
| AnswerTicket string string string
| InvalidateResolution string string string

definition store_after :: "('a \<times> incident_store) result \<Rightarrow> incident_store result" where
  "store_after m = bindE m (\<lambda>(x, s). Inr s)"

fun op_step :: "(rat \<Rightarrow> string) \<Rightarrow> (string \<Rightarrow> string) \<Rightarrow> incident_store \<Rightarrow> incident_op \<Rightarrow> incident_store result" where
  "op_step fl sha s (OpenTicket g t n a b) = store_after (open_incident fl sha g t n a b s)"
| "op_step fl sha s (RouteTicket i t) = store_after (route_incident i t s)"
| "op_step fl sha s (BeginRecovery i t w) = store_after (begin_auto_recovery sha i t w s)"
| "op_step fl sha s (CompleteRecovery i tok ok t hc) = store_after (complete_auto_recovery i tok ok t hc s)"
| "op_step fl sha s (RecordAction i f ev d t h) = store_after (record_engineer_action fl i f ev d t h s)"
| "op_step fl sha s (RecordPatch i d t) = store_after (record_runtime_patch fl i d t s)"
| "op_step fl sha s (HoldMore i ts t) = store_after (hold_more_tasks i ts t s)"
| "op_step fl sha s (EnsureEngineer i t) = store_after (ensure_pipeline_engineer i t s)"
| "op_step fl sha s (CompleteEngineer i ok t hc why acts n) = store_after (complete_pipeline_engineer i ok t hc why acts n s)"
| "op_step fl sha s (EscalateTicket i why t d esc b) = store_after (escalate_incident_to_user fl i why t d esc b s)"
| "op_step fl sha s (AnswerTicket i t n) = store_after (resolve_escalation_by_user i t n s)"
| "op_step fl sha s (InvalidateResolution i t why) = store_after (invalidate_pipeline_engineer_resolution i t why s)"

text \<open>The same operation without the validation a transaction adds.\<close>

definition checked_open :: "(rat \<Rightarrow> string) \<Rightarrow> (string \<Rightarrow> string) \<Rightarrow> incident_signal \<Rightarrow> string \<Rightarrow> int \<Rightarrow> int \<Rightarrow> int
    \<Rightarrow> incident store_op" where
  "checked_open fl sha g t n a b s =
     bindE (classify_incident g) (\<lambda>c. bindE (incident_signature sha g) (\<lambda>signature. bindE (select_runbook g) (\<lambda>kb.
     bindE (positive n ''retry_budget'') (\<lambda>_. bindE (positive a ''retry_initial_seconds'') (\<lambda>_.
     bindE (positive b ''retry_maximum_seconds'') (\<lambda>_. open_body fl sha g c signature kb t n a b s))))))"

fun op_body :: "(rat \<Rightarrow> string) \<Rightarrow> (string \<Rightarrow> string) \<Rightarrow> incident_store \<Rightarrow> incident_op \<Rightarrow> incident_store result" where
  "op_body fl sha s (OpenTicket g t n a b) = store_after (checked_open fl sha g t n a b s)"
| "op_body fl sha s (RouteTicket i t) = store_after (route_body i t s)"
| "op_body fl sha s (BeginRecovery i t w) = store_after (bindE (nonempty w ''owner_id'') (\<lambda>_. begin_body sha i t w s))"
| "op_body fl sha s (CompleteRecovery i tok ok t hc) = store_after (complete_recovery_body i tok ok t hc s)"
| "op_body fl sha s (RecordAction i f ev d t h) = store_after (record_action_body fl i f ev d t h s)"
| "op_body fl sha s (RecordPatch i d t) = store_after (record_patch_body fl i d t s)"
| "op_body fl sha s (HoldMore i ts t) = store_after (hold_more_body i ts t s)"
| "op_body fl sha s (EnsureEngineer i t) = store_after (ensure_engineer_body i t s)"
| "op_body fl sha s (CompleteEngineer i ok t hc why acts n) = store_after (complete_engineer_body i ok t hc why acts n s)"
| "op_body fl sha s (EscalateTicket i why t d esc b) = store_after (escalate_incident_body fl i why t d esc b s)"
| "op_body fl sha s (AnswerTicket i t n) = store_after (resolve_escalation_body i t n s)"
| "op_body fl sha s (InvalidateResolution i t why) = store_after (invalidate_resolution_body i t why s)"

lemma store_after_Inr [simp]: "store_after m = Inr s' \<longleftrightarrow> (\<exists>x. m = Inr (x, s'))"
  by (auto simp: store_after_def)

lemma transaction_Inr: "transaction f s = Inr (x, s') \<longleftrightarrow>
    validate_store s = Inr () \<and> f s = Inr (x, s') \<and> validate_store s' = Inr ()"
  by (auto simp: transaction_def)

lemmas op_defs = open_incident_def route_incident_def begin_auto_recovery_def complete_auto_recovery_def
  record_engineer_action_def record_runtime_patch_def hold_more_tasks_def ensure_pipeline_engineer_def
  complete_pipeline_engineer_def escalate_incident_to_user_def resolve_escalation_by_user_def
  invalidate_pipeline_engineer_resolution_def

lemma op_step_body: "op_step fl sha s r = Inr s' \<Longrightarrow> op_body fl sha s r = Inr s' \<and> validate_store s' = Inr ()"
  by (cases r) (auto simp: op_defs transaction_Inr checked_open_def)

section \<open>Changes of one ticket\<close>

interpretation ij: journal is_journal is_sequence "\<lambda>s (event, at_time, i, detail). log_event event at_time i detail s"
  by unfold_locales (auto simp: log_event_def incident_event_def get_def)

lemma log_event_fields [simp]:
  "is_slot (log_event ev t i d s) = is_slot s" "is_incidents (log_event ev t i d s) = is_incidents s"
  "is_transport (log_event ev t i d s) = is_transport s" "is_signatures (log_event ev t i d s) = is_signatures s"
  by (simp_all add: log_event_def)

lemma put_incident_fields [simp]:
  "is_slot (put_incident i s) = is_slot s" "is_sequence (put_incident i s) = is_sequence s"
  "is_transport (put_incident i s) = is_transport s" "is_signatures (put_incident i s) = is_signatures s"
  "is_journal (put_incident i s) = is_journal s"
  "is_incidents (put_incident i s) = map (\<lambda>k. if ic_id k = ic_id i then i else k) (is_incidents s)"
  by (simp_all add: put_incident_def)

lemma change_fields [simp]:
  "is_slot (change i ev t d s) = is_slot s" "is_transport (change i ev t d s) = is_transport s"
  "is_signatures (change i ev t d s) = is_signatures s"
  "is_incidents (change i ev t d s) = map (\<lambda>k. if ic_id k = ic_id i then i else k) (is_incidents s)"
  by (simp_all add: change_def)

lemma log_event_contiguous: "ij.contiguous s \<Longrightarrow> ij.contiguous (log_event ev t i d s)"
  using ij.append_contiguous [of s "(ev, t, i, d)"] by simp

lemma contiguous_fields: "is_journal s' = is_journal s \<Longrightarrow> is_sequence s' = is_sequence s \<Longrightarrow>
    ij.contiguous s' = ij.contiguous s"
  by (simp add: ij.contiguous_def)

lemma change_contiguous: "ij.contiguous s \<Longrightarrow> ij.contiguous (change i ev t d s)"
  unfolding change_def by (rule log_event_contiguous) (simp add: contiguous_fields [of "put_incident i s" s])

lemma find_incidentD: "find_incident s i = Inr k \<Longrightarrow> k \<in> set (is_incidents s) \<and> ic_id k = i"
  by (auto simp: find_incident_def split: list.splits dest!: filter_eq_ConsD)

lemma find_incident_present: "distinct (map ic_id (is_incidents s)) \<Longrightarrow> k \<in> set (is_incidents s) \<Longrightarrow>
    find_incident s (ic_id k) = Inr k"
proof -
  assume d: "distinct (map ic_id (is_incidents s))" and k: "k \<in> set (is_incidents s)"
  have "filter (\<lambda>j. ic_id j = ic_id k) xs = [k]" if "distinct (map ic_id xs)" "k \<in> set xs" for xs
    using that by (induction xs) (auto simp: filter_empty_conv image_iff)
  with d k show ?thesis by (simp add: find_incident_def)
qed

text \<open>After a change the tickets are the changed one and the others.\<close>

lemma change_incidents: "find_incident s i = Inr k \<Longrightarrow> distinct (map ic_id (is_incidents s)) \<Longrightarrow> ic_id k' = ic_id k \<Longrightarrow>
    set (map (\<lambda>j. if ic_id j = ic_id k' then k' else j) (is_incidents s)) = insert k' (set (is_incidents s) - {k})"
  by (auto dest!: find_incidentD simp: distinct_map inj_on_def)

lemma change_ids: "map ic_id (map (\<lambda>j. if ic_id j = ic_id k' then k' else j) xs) = map ic_id xs"
  by (induction xs) auto

section \<open>The recovery slot\<close>

text \<open>
  The slot names the one ticket in recovery and carries its token; a ticket never starts more attempts
  than its budget; the journal has no gap. \<^verbatim>\<open>_validate_state\<close> is weaker: it does not ask that a ticket
  in recovery owns the slot.
\<close>

definition slot_of :: "incident \<Rightarrow> recovery_slot option \<Rightarrow> bool" where
  "slot_of i slot \<longleftrightarrow> (\<exists>sl. slot = Some sl \<and> sl_incident sl = ic_id i \<and> ic_lock_token i = Some (sl_token sl))"

definition recovery_ok :: "recovery_slot option \<Rightarrow> incident \<Rightarrow> bool" where
  "recovery_ok slot i \<longleftrightarrow> '''' \<notin> set (ic_tasks i) \<and> 0 \<le> ic_attempts i \<and> ic_attempts i \<le> ic_budget i
     \<and> (ic_phase i = AUTO_RECOVERY \<longrightarrow> slot_of i slot) \<and> (ic_phase i \<noteq> AUTO_RECOVERY \<longrightarrow> ic_lock_token i = None)"

definition store_ok :: "incident_store \<Rightarrow> bool" where
  "store_ok s \<longleftrightarrow> ij.contiguous s \<and> distinct (map ic_id (is_incidents s))
     \<and> distinct (map (\<lambda>r. get r ''reservation_id'') (is_transport s)) \<and> (\<forall>r \<in> set (is_transport s). check_transport r = Inr ())
     \<and> (\<forall>i \<in> set (is_incidents s). recovery_ok (is_slot s) i)
     \<and> (\<forall>sl. is_slot s = Some sl \<longrightarrow> (\<exists>i \<in> set (is_incidents s). ic_phase i = AUTO_RECOVERY))"

lemma store_okD:
  assumes "store_ok s"
  shows "ij.contiguous s" "distinct (map ic_id (is_incidents s))" "i \<in> set (is_incidents s) \<Longrightarrow> recovery_ok (is_slot s) i"
  using assms by (simp_all add: store_ok_def)

lemma empty_store_ok: "store_ok empty_store"
  by (simp add: store_ok_def empty_store_def ij.contiguous_def sequence_upto_def)

lemma one_recovering:
  assumes d: "distinct (map ic_id xs)" and s: "\<forall>i \<in> set xs. P i \<longrightarrow> slot_of i slot"
  shows "length (filter P xs) \<le> 1"
proof (cases "filter P xs")
  case (Cons x ys)
  have "ys = []"
  proof (cases ys)
    case (Cons y zs)
    with \<open>filter P xs = x # ys\<close> have f: "filter P xs = x # y # zs" by simp
    have "distinct (map ic_id (filter P xs))" using d by (simp add: distinct_map_filter)
    then have "ic_id x \<noteq> ic_id y" using f by simp
    moreover have "x \<in> set (filter P xs)" "y \<in> set (filter P xs)" using f by simp_all
    then have "slot_of x slot" "slot_of y slot" using s by auto
    ultimately show ?thesis by (auto simp: slot_of_def)
  qed
  with Cons show ?thesis by simp
qed simp

text \<open>The validation accepts every such store.\<close>

lemma store_ok_valid: "store_ok s \<Longrightarrow> validate_store s = Inr ()"
proof -
  assume ok: "store_ok s"
  have slot: "check_slot s = Inr ()"
  proof (cases "is_slot s")
    case None
    then show ?thesis by (simp add: check_slot_def)
  next
    case (Some sl)
    then obtain i where i: "i \<in> set (is_incidents s)" "ic_phase i = AUTO_RECOVERY" "slot_of i (is_slot s)"
      using ok by (fastforce simp: store_ok_def recovery_ok_def)
    then have "find_incident s (sl_incident sl) = Inr i"
      using find_incident_present [of s i] store_okD(2) [OF ok] Some by (auto simp: slot_of_def)
    with i Some show ?thesis by (auto simp: check_slot_def slot_of_def)
  qed
  have one: "length (filter (\<lambda>i. ic_phase i = AUTO_RECOVERY) (is_incidents s)) \<le> 1"
    using ok by (intro one_recovering [of _ _ "is_slot s"]) (auto simp: store_ok_def recovery_ok_def)
  then have "\<not> 1 < length (filter (\<lambda>i. ic_phase i = AUTO_RECOVERY) (is_incidents s))" by linarith
  then show ?thesis
    using ok slot by (auto simp: validate_store_def store_ok_def ij.contiguous_def recovery_ok_def)
qed

text \<open>A change that leaves a ticket's recovery as it was keeps the invariant.\<close>

definition same_recovery :: "incident \<Rightarrow> incident \<Rightarrow> bool" where
  "same_recovery k k' \<longleftrightarrow> ic_id k' = ic_id k \<and> ic_attempts k' = ic_attempts k \<and> ic_budget k' = ic_budget k
     \<and> ic_lock_token k' = ic_lock_token k \<and> (ic_phase k' = AUTO_RECOVERY \<longleftrightarrow> ic_phase k = AUTO_RECOVERY)
     \<and> ('''' \<in> set (ic_tasks k') \<longrightarrow> '''' \<in> set (ic_tasks k))"

lemma same_recovery_ok: "same_recovery k k' \<Longrightarrow> recovery_ok slot k \<Longrightarrow> recovery_ok slot k'"
  by (auto simp: same_recovery_def recovery_ok_def slot_of_def)

lemma change_same:
  assumes ok: "store_ok s" and f: "find_incident s i = Inr k" and k': "same_recovery k k'"
  shows "store_ok (change k' ev t d s)"
proof -
  have id: "ic_id k' = ic_id k" and k: "k \<in> set (is_incidents s)"
    using k' find_incidentD [OF f] by (auto simp: same_recovery_def)
  note new = change_incidents [OF f store_okD(2) [OF ok] id]
  have "\<forall>j \<in> insert k' (set (is_incidents s) - {k}). recovery_ok (is_slot s) j"
    using store_okD(3) [OF ok] same_recovery_ok [OF k'] k by auto
  moreover have "\<exists>j \<in> insert k' (set (is_incidents s) - {k}). ic_phase j = AUTO_RECOVERY" if "is_slot s = Some sl" for sl
    using that ok k' by (auto simp: store_ok_def same_recovery_def)
  ultimately show ?thesis
    using ok by (simp add: store_ok_def change_contiguous change_ids new del: set_map map_map)
qed

lemma store_ok_fields: "is_journal s' = is_journal s \<Longrightarrow> is_sequence s' = is_sequence s \<Longrightarrow> is_slot s' = is_slot s \<Longrightarrow>
    is_incidents s' = is_incidents s \<Longrightarrow> is_transport s' = is_transport s \<Longrightarrow> store_ok s \<Longrightarrow> store_ok s'"
  by (simp add: store_ok_def contiguous_fields [of s' s])

lemma log_event_ok: "store_ok s \<Longrightarrow> store_ok (log_event ev t i d s)"
  by (simp add: store_ok_def log_event_contiguous)

lemma route_ok: "store_ok s \<Longrightarrow> route_body i t s = Inr (x, s') \<Longrightarrow> store_ok s'"
  by (auto simp: route_body_def set_phase_def same_recovery_def split: if_splits intro!: change_same)

lemma action_ok: "store_ok s \<Longrightarrow> record_action_body fl i f ev d t h s = Inr (x, s') \<Longrightarrow> store_ok s'"
  by (auto simp: record_action_body_def with_record_def same_recovery_def Let_def split: if_splits intro!: change_same)

lemma patch_ok: "store_ok s \<Longrightarrow> record_patch_body fl i d t s = Inr (x, s') \<Longrightarrow> store_ok s'"
  by (auto simp: record_patch_body_def with_record_def same_recovery_def Let_def split: if_splits intro!: change_same)

lemma hold_ok: "store_ok s \<Longrightarrow> hold_more_body i ts t s = Inr (x, s') \<Longrightarrow> store_ok s'"
  by (auto simp: hold_more_body_def same_recovery_def Let_def split: if_splits intro!: change_same)

lemma with_package_Inr: "with_package k s = Inr (p, s') \<Longrightarrow> s' = s"
  by (auto simp: with_package_def)

lemma change_twice: "find_incident s i = Inr k \<Longrightarrow> distinct (map ic_id (is_incidents s)) \<Longrightarrow> ic_id k' = ic_id k \<Longrightarrow>
    find_incident (change k' ev t d s) i = Inr k'"
proof -
  assume f: "find_incident s i = Inr k" and d: "distinct (map ic_id (is_incidents s))" and id: "ic_id k' = ic_id k"
  have "k' \<in> set (is_incidents (change k' ev t d s))" using change_incidents [OF f d id] by simp
  moreover have "distinct (map ic_id (is_incidents (change k' ev t d s)))" using d by (simp add: change_ids del: map_map)
  ultimately show ?thesis using find_incident_present [of "change k' ev t d s" k'] find_incidentD [OF f] id by simp
qed

lemma ensure_ok:
  assumes ok: "store_ok s" and b: "ensure_engineer_body i t s = Inr (x, s')"
  shows "store_ok s'"
proof -
  obtain k where f: "find_incident s i = Inr k" using b by (auto simp: ensure_engineer_body_def)
  obtain k1 s1 where fr: "failed_recovery t k s = (k1, s1)" by force
  have 1: "store_ok s1 \<and> find_incident s1 i = Inr k1"
    using fr ok f store_okD(2) [OF ok]
    by (auto simp: failed_recovery_def set_phase_def same_recovery_def intro!: change_same change_twice split: if_splits)
  have "s' = s \<or> ic_phase k1 = AUTO_RECOVERY_FAILED \<and> s' = change (set_phase PIPELINE_ENGINEER t k1) ''pipeline_engineer_requested'' t '''' s1"
    using b f fr by (auto simp: ensure_engineer_body_def dest!: with_package_Inr split: if_splits)
  then show ?thesis using 1 ok by (auto simp: set_phase_def same_recovery_def intro!: change_same)
qed

lemma escalate_body_ok: "store_ok s \<Longrightarrow> escalate_incident_body fl i why t d esc b s = Inr (x, s') \<Longrightarrow> store_ok s'"
  by (auto simp: escalate_incident_body_def escalate_to_user_def escalation_value_def same_recovery_def
      split: if_splits intro!: change_same)

lemma answer_ok: "store_ok s \<Longrightarrow> resolve_escalation_body i t n s = Inr (x, s') \<Longrightarrow> store_ok s'"
  by (auto simp: resolve_escalation_body_def set_phase_def same_recovery_def split: if_splits intro!: change_same)

lemma invalidate_ok: "store_ok s \<Longrightarrow> invalidate_resolution_body i t why s = Inr (x, s') \<Longrightarrow> store_ok s'"
  by (auto simp: invalidate_resolution_body_def set_phase_def same_recovery_def Let_def dest!: with_package_Inr
      split: if_splits intro!: change_same)

lemma record_resolution_fields:
  assumes "record_resolution i acts hc t n s = (l, s')"
  shows "is_journal s' = is_journal s" "is_sequence s' = is_sequence s" "is_slot s' = is_slot s"
    "is_incidents s' = is_incidents s" "is_transport s' = is_transport s"
  using assms by (auto simp: record_resolution_def Let_def split: option.splits if_splits)

lemma find_incident_cong: "is_incidents s' = is_incidents s \<Longrightarrow> find_incident s' i = find_incident s i"
  by (simp add: find_incident_def)

text \<open>What closing a ticket does, as one of two changes.\<close>

lemma complete_engineer_cases:
  assumes "complete_engineer_body i ok t hc why acts n s = Inr (x, s')"
  obtains
    (resolved) k k' h l s1 where "find_incident s i = Inr k" "ic_phase k = PIPELINE_ENGINEER"
      "ic_class k \<notin> set RESOLVE_FORBIDDEN_CLASSES" "require_named_actions acts = Inr ()"
      "require_passing_healthcheck hc (expected_healthcheck k) = Inr h"
      "k' = (set_phase RESOLVED t k)\<lparr>ic_healthcheck := Some h, ic_resolved_at := Some t\<rparr>"
      "record_resolution k' acts h t n s = (l, s1)"
      "s' = change k' ''pipeline_engineer_resolved'' t (bounded MAX_EVENT_CHARS why) s1
        \<or> (\<exists>r. s' = promotion_note r k' t (change k' ''pipeline_engineer_resolved'' t (bounded MAX_EVENT_CHARS why) s1))"
  | (escalated) k k' where "find_incident s i = Inr k" "ic_phase k = PIPELINE_ENGINEER"
      "escalate_to_user ''RECOVERY_EXHAUSTED'' t ''Pipeline Engineer could not resolve the incident'' k = Inr k'"
      "s' = change (k'\<lparr>ic_updated_at := t\<rparr>) ''pipeline_engineer_escalated_to_user'' t (bounded MAX_EVENT_CHARS why) s"
proof -
  obtain k where f: "find_incident s i = Inr k" and p: "ic_phase k = PIPELINE_ENGINEER"
    using assms by (auto simp: complete_engineer_body_def split: if_splits)
  show thesis
  proof (cases ok)
    case True
    then have c: "ic_class k \<notin> set RESOLVE_FORBIDDEN_CLASSES" using assms f p by (auto simp: complete_engineer_body_def)
    with True assms f p obtain h where h: "require_named_actions acts = Inr ()"
      "require_passing_healthcheck hc (expected_healthcheck k) = Inr h"
      by (auto simp: complete_engineer_body_def)
    define k' where "k' = (set_phase RESOLVED t k)\<lparr>ic_healthcheck := Some h, ic_resolved_at := Some t\<rparr>"
    obtain l s1 where r: "record_resolution k' acts h t n s = (l, s1)" by force
    have "s' = change k' ''pipeline_engineer_resolved'' t (bounded MAX_EVENT_CHARS why) s1
        \<or> (\<exists>r. s' = promotion_note r k' t (change k' ''pipeline_engineer_resolved'' t (bounded MAX_EVENT_CHARS why) s1))"
      using assms f p True c h r
      by (auto simp: complete_engineer_body_def Let_def k'_def [symmetric] split: option.splits)
    with resolved f p c h k'_def r show thesis by blast
  next
    case False
    with assms f p obtain k' where
      "escalate_to_user ''RECOVERY_EXHAUSTED'' t ''Pipeline Engineer could not resolve the incident'' k = Inr k'"
      "s' = change (k'\<lparr>ic_updated_at := t\<rparr>) ''pipeline_engineer_escalated_to_user'' t (bounded MAX_EVENT_CHARS why) s"
      by (auto simp: complete_engineer_body_def)
    with escalated f p show thesis by blast
  qed
qed

lemma complete_engineer_ok:
  assumes ok: "store_ok s" and b: "complete_engineer_body i good t hc why acts n s = Inr (x, s')"
  shows "store_ok s'"
  using b
proof (cases rule: complete_engineer_cases)
  case (resolved k k' h l s1)
  note same = record_resolution_fields [OF resolved(7)]
  have "store_ok s1" "find_incident s1 i = Inr k"
    using store_ok_fields [OF same ok] find_incident_cong [OF same(4)] resolved(1) by simp_all
  moreover have "same_recovery k k'" using resolved(2,6) by (simp add: same_recovery_def set_phase_def)
  ultimately have "store_ok (change k' ''pipeline_engineer_resolved'' t (bounded MAX_EVENT_CHARS why) s1)"
    by (rule change_same)
  then show ?thesis using resolved(8) by (auto simp: promotion_note_def log_event_ok)
next
  case (escalated k k')
  then show ?thesis using ok
    by (auto simp: escalate_to_user_def same_recovery_def split: if_splits intro!: change_same)
qed

lemma record_signature_fields:
  assumes "record_signature g i t s = (n, s')"
  shows "is_journal s' = is_journal s" "is_sequence s' = is_sequence s" "is_slot s' = is_slot s"
    "is_incidents s' = is_incidents s" "is_transport s' = is_transport s"
  using assms by (auto simp: record_signature_def Let_def)

text \<open>A ticket is opened once per signal; opening it again returns it.\<close>

lemma checked_open_cases:
  assumes "checked_open fl sha g t n a b s = Inr (x, s')"
  obtains
    (known) "s' = s"
  | (fresh) i c v m s1 where "classify_incident g = Inr c" "0 < n" "ic_id i \<notin> ic_id ` set (is_incidents s)"
      "i = opened_incident fl sha g c (take 16 (sha (join ''|'' (signature_parts g)))) None
        (promoted_runbook s (take 16 (sha (join ''|'' (signature_parts g))))) v t n a b"
      "record_signature (take 16 (sha (join ''|'' (signature_parts g)))) i t (s\<lparr>is_incidents := is_incidents s @ [i]\<rparr>) = (m, s1)"
      "s' = log_event ''incident_opened'' t i '''' s1
        \<or> (\<exists>d. s' = log_event ''incident_recurrence_observed'' t i d (log_event ''incident_opened'' t i '''' s1))"
proof -
  obtain c where c: "classify_incident g = Inr c" and n: "0 < n"
    and body: "open_body fl sha g c (take 16 (sha (join ''|'' (signature_parts g)))) None t n a b s = Inr (x, s')"
    using assms by (auto simp: checked_open_def incident_signature_def select_runbook_def RUNBOOKS_def positive_def
      split: if_splits)
  show thesis
  proof (cases "filter (\<lambda>k. ic_id k = ''incident-'' @ take 16 (sha (sg_id g))) (is_incidents s)")
    case Nil
    then obtain v where v: "bounded_mapping fl (sg_state g) = Inr v" using body by (auto simp: open_body_def open_new_def)
    define i where "i = opened_incident fl sha g c (take 16 (sha (join ''|'' (signature_parts g)))) None
        (promoted_runbook s (take 16 (sha (join ''|'' (signature_parts g))))) v t n a b"
    obtain m s1 where r: "record_signature (take 16 (sha (join ''|'' (signature_parts g)))) i t
        (s\<lparr>is_incidents := is_incidents s @ [i]\<rparr>) = (m, s1)" by force
    have "ic_id i \<notin> ic_id ` set (is_incidents s)"
      using Nil by (auto simp: i_def opened_incident_def filter_empty_conv)
    moreover have "s' = log_event ''incident_opened'' t i '''' s1
        \<or> (\<exists>d. s' = log_event ''incident_recurrence_observed'' t i d (log_event ''incident_opened'' t i '''' s1))"
      using body Nil v r by (auto simp: open_body_def open_new_def Let_def i_def [symmetric] split: if_splits)
    ultimately show thesis using fresh c n i_def r by blast
  next
    case (Cons k ks)
    then show thesis using body known by (auto simp: open_body_def split: list.splits)
  qed
qed

lemma opened_fields [simp]:
  "ic_id (opened_incident fl sha g c sig kb l v t n a b) = ''incident-'' @ take 16 (sha (sg_id g))"
  "ic_signature (opened_incident fl sha g c sig kb l v t n a b) = sig"
  "ic_phase (opened_incident fl sha g c sig kb l v t n a b) = DEGRADED"
  "ic_tasks (opened_incident fl sha g c sig kb l v t n a b) = sg_tasks g"
  "ic_attempts (opened_incident fl sha g c sig kb l v t n a b) = 0"
  "ic_budget (opened_incident fl sha g c sig kb l v t n a b) = n"
  "ic_lock_token (opened_incident fl sha g c sig kb l v t n a b) = None"
  "ic_class (opened_incident fl sha g c sig kb l v t n a b) = c"
  "ic_runbook_id (opened_incident fl sha g c sig None l v t n a b) = map_option rb_id l"
  by (simp_all add: opened_incident_def)

lemma signal_tasks: "classify_incident g = Inr c \<Longrightarrow> '''' \<notin> set (sg_tasks g)"
  by (force simp: classify_incident_def validate_signal_def nonempty_def split: if_splits)

lemma open_ok:
  assumes ok: "store_ok s" and b: "checked_open fl sha g t n a b s = Inr (x, s')"
  shows "store_ok s'"
  using b
proof (cases rule: checked_open_cases)
  case known
  then show ?thesis using ok by simp
next
  case (fresh i c v m s1)
  note same = record_signature_fields [OF fresh(5)]
  have "recovery_ok (is_slot s) i" using fresh(1,2,4) signal_tasks by (simp add: recovery_ok_def)
  then have "store_ok (s\<lparr>is_incidents := is_incidents s @ [i]\<rparr>)"
    using ok fresh(3) by (auto simp: store_ok_def contiguous_fields [of "s\<lparr>is_incidents := is_incidents s @ [i]\<rparr>" s])
  then have "store_ok s1" using store_ok_fields [OF same] by simp
  then show ?thesis using fresh(6) by (auto simp: log_event_ok)
qed

text \<open>Taking and freeing the slot: no other ticket is in recovery then.\<close>

lemma change_slot:
  assumes ok: "store_ok s" and f: "find_incident s i = Inr k" and id: "ic_id k' = ic_id k"
    and k': "recovery_ok slot k'" and p: "slot \<noteq> None \<Longrightarrow> ic_phase k' = AUTO_RECOVERY"
    and others: "\<And>j. j \<in> set (is_incidents s) \<Longrightarrow> j \<noteq> k \<Longrightarrow> ic_phase j \<noteq> AUTO_RECOVERY"
  shows "store_ok (change k' ev t d (s\<lparr>is_slot := slot\<rparr>))"
proof -
  have f': "find_incident (s\<lparr>is_slot := slot\<rparr>) i = Inr k" using f by (simp add: find_incident_def)
  have new: "set (map (\<lambda>j. if ic_id j = ic_id k' then k' else j) (is_incidents (s\<lparr>is_slot := slot\<rparr>)))
      = insert k' (set (is_incidents (s\<lparr>is_slot := slot\<rparr>)) - {k})"
    by (rule change_incidents [OF f' _ id]) (use store_okD(2) [OF ok] in simp)
  have "recovery_ok slot j" if "j \<in> set (is_incidents s)" "j \<noteq> k" for j
    using others [OF that] store_okD(3) [OF ok that(1)] by (auto simp: recovery_ok_def)
  moreover have "ij.contiguous (change k' ev t d (s\<lparr>is_slot := slot\<rparr>))"
    by (rule change_contiguous) (use store_okD(1) [OF ok] contiguous_fields [of "s\<lparr>is_slot := slot\<rparr>" s] in simp)
  ultimately show ?thesis
    using ok new k' p by (auto simp: store_ok_def change_ids simp del: set_map map_map)
qed

lemma slot_holder:
  assumes ok: "store_ok s" and j: "j \<in> set (is_incidents s)" "ic_phase j = AUTO_RECOVERY"
  shows "\<exists>sl. is_slot s = Some sl \<and> sl_incident sl = ic_id j \<and> ic_lock_token j = Some (sl_token sl)"
  using store_okD(3) [OF ok j(1)] j(2) by (auto simp: recovery_ok_def slot_of_def)

lemma same_id: "store_ok s \<Longrightarrow> find_incident s i = Inr k \<Longrightarrow> j \<in> set (is_incidents s) \<Longrightarrow> ic_id j = i \<Longrightarrow> j = k"
  using find_incident_present [of s j] by (auto simp: store_ok_def)

lemma begin_cases:
  assumes "begin_body sha i t w s = Inr (x, s')"
  obtains k where "find_incident s i = Inr k" "ic_phase k = DEGRADED" "ic_runbook_id k \<noteq> None" "ic_attempts k < ic_budget k"
    "\<not> foreign_slot s i" "x = recovering (recovery_token sha t k) w t k"
    "s' = change x ''auto_recovery_started'' t (''attempt '' @ dec_int (ic_attempts x) @ '' of '' @ dec_int (ic_budget x))
      (s\<lparr>is_slot := Some \<lparr>sl_incident = i, sl_token = recovery_token sha t k, sl_owner = w\<rparr>\<rparr>)"
  using assms by (auto simp: begin_body_def Let_def split: if_splits)

lemma begin_ok:
  assumes ok: "store_ok s" and b: "begin_body sha i t w s = Inr (x, s')"
  shows "store_ok s'"
  using b
proof (cases rule: begin_cases)
  case (1 k)
  have k: "k \<in> set (is_incidents s)" "ic_id k = i" using find_incidentD [OF 1(1)] by simp_all
  have none: "is_slot s = None"
  proof (rule ccontr)
    assume "is_slot s \<noteq> None"
    then obtain sl j where j: "is_slot s = Some sl" "j \<in> set (is_incidents s)" "ic_phase j = AUTO_RECOVERY"
      using ok by (auto simp: store_ok_def)
    then have "ic_id j = i" using slot_holder [OF ok j(2,3)] 1(5) by (auto simp: foreign_slot_def)
    then show False using same_id [OF ok 1(1) j(2)] j(3) 1(2) by simp
  qed
  have others: "ic_phase j \<noteq> AUTO_RECOVERY" if "j \<in> set (is_incidents s)" for j
    using slot_holder [OF ok that] none by auto
  have "recovery_ok (Some \<lparr>sl_incident = i, sl_token = recovery_token sha t k, sl_owner = w\<rparr>) x"
    using store_okD(3) [OF ok k(1)] 1(2,4) k(2)
    by (simp add: 1(6) recovery_ok_def slot_of_def recovering_def set_phase_def Let_def)
  moreover have "ic_id x = ic_id k" "ic_phase x = AUTO_RECOVERY"
    by (simp_all add: 1(6) recovering_def set_phase_def Let_def)
  ultimately show ?thesis unfolding 1(7) using others by (intro change_slot [OF ok 1(1)]) auto
qed

lemma complete_recovery_cases:
  assumes "complete_recovery_body i tok good t hc s = Inr (x, s')"
  obtains k k' ev where "find_incident s i = Inr k" "ic_phase k = AUTO_RECOVERY" "is_slot s \<noteq> None"
    "s' = change k' ev t '''' (s\<lparr>is_slot := None\<rparr>)" "ic_id k' = ic_id k" "ic_tasks k' = ic_tasks k"
    "ic_attempts k' = ic_attempts k" "ic_budget k' = ic_budget k" "ic_lock_token k' = None" "ic_class k' = ic_class k"
    "ic_runbook_id k' = ic_runbook_id k" "ic_signature k' = ic_signature k"
    "ic_code k' = ic_code k \<and> x = ic_phase k'" "ic_phase k' = RECOVERED \<and> ev = ''auto_recovery_succeeded''
        \<and> (\<exists>h. ic_healthcheck k' = Some h \<and> require_passing_healthcheck hc (expected_healthcheck k) = Inr h)
      \<or> ic_phase k' \<in> {AUTO_RECOVERY_FAILED, DEGRADED}"
proof -
  obtain k where f: "find_incident s i = Inr k" and c: "require_recovery_claim s k tok = Inr ()"
    using assms by (auto simp: complete_recovery_body_def)
  have p: "ic_phase k = AUTO_RECOVERY" "is_slot s \<noteq> None"
    using c by (auto simp: require_recovery_claim_def split: if_splits option.splits)
  show thesis
  proof (cases good)
    case True
    then obtain h where h: "require_passing_healthcheck hc (expected_healthcheck k) = Inr h"
      and s': "s' = change ((set_phase RECOVERED t (released k))\<lparr>ic_healthcheck := Some h, ic_resolved_at := Some t,
        ic_next_retry := None\<rparr>) ''auto_recovery_succeeded'' t '''' (s\<lparr>is_slot := None\<rparr>)" "x = RECOVERED"
      using assms f c by (auto simp: complete_recovery_body_def Let_def)
    show thesis by (rule that [OF f p s'(1)]) (simp_all add: set_phase_def released_def h s'(2))
  next
    case False
    then obtain q ev where q: "q \<in> {AUTO_RECOVERY_FAILED, DEGRADED}"
      and s': "s' = change (set_phase q t (released k)) ev t '''' (s\<lparr>is_slot := None\<rparr>)" "x = q"
      using assms f c by (auto simp: complete_recovery_body_def Let_def split: if_splits)
    show thesis by (rule that [OF f p s'(1)]) (use q s'(2) in \<open>simp_all add: set_phase_def released_def\<close>)
  qed
qed

lemma complete_recovery_ok:
  assumes ok: "store_ok s" and b: "complete_recovery_body i tok good t hc s = Inr (x, s')"
  shows "store_ok s'"
  using b
proof (cases rule: complete_recovery_cases)
  case (1 k k' ev)
  have k: "k \<in> set (is_incidents s)" "ic_id k = i" using find_incidentD [OF 1(1)] by simp_all
  have others: "ic_phase j \<noteq> AUTO_RECOVERY" if j: "j \<in> set (is_incidents s)" "j \<noteq> k" for j
  proof
    assume "ic_phase j = AUTO_RECOVERY"
    then have "ic_id j = ic_id k" using slot_holder [OF ok j(1)] slot_holder [OF ok k(1) 1(2)] by auto
    then show False using same_id [OF ok 1(1) j(1)] j(2) k(2) by simp
  qed
  have "recovery_ok None k'"
    using store_okD(3) [OF ok k(1)] 1(6-9,14) by (auto simp: recovery_ok_def)
  then show ?thesis unfolding 1(4) using others 1(5) by (intro change_slot [OF ok 1(1)]) auto
qed

lemma op_body_ok: "store_ok s \<Longrightarrow> op_body fl sha s r = Inr s' \<Longrightarrow> store_ok s'"
  by (cases r) (auto intro: open_ok route_ok begin_ok complete_recovery_ok action_ok patch_ok hold_ok ensure_ok
      complete_engineer_ok escalate_body_ok answer_ok invalidate_ok)

text \<open>So the validation of a transaction never refuses what an operation made of a sound store.\<close>

lemma transaction_body: "validate_store s = Inr () \<Longrightarrow> (\<And>x s'. f s = Inr (x, s') \<Longrightarrow> validate_store s' = Inr ()) \<Longrightarrow>
    transaction f s = f s"
  by (cases "f s") (auto simp: transaction_def)

lemma open_checked:
  assumes ok: "store_ok s"
  shows "open_incident fl sha g tm n a b s = checked_open fl sha g tm n a b s"
proof (cases "checked_open fl sha g tm n a b s")
  case (Inl e)
  then show ?thesis using store_ok_valid [OF ok] unfolding open_incident_def checked_open_def
    by (auto simp: bindE_def transaction_def split: sum.splits)
next
  case (Inr y)
  then have "validate_store (snd y) = Inr ()" using open_ok [OF ok, of fl sha g tm n a b "fst y" "snd y"] store_ok_valid by simp
  with Inr show ?thesis using store_ok_valid [OF ok]
    by (cases y) (auto simp: open_incident_def checked_open_def transaction_def)
qed

lemma op_body_step:
  assumes ok: "store_ok s"
  shows "op_step fl sha s r = op_body fl sha s r"
proof -
  note v = store_ok_valid [OF ok]
  have t: "transaction f s = f s" if "\<And>x s'. f s = Inr (x, s') \<Longrightarrow> store_ok s'" for f :: "'z store_op"
    by (rule transaction_body [OF v]) (use that store_ok_valid in blast)
  show ?thesis
  proof (cases r)
    case (OpenTicket g tm n a b)
    then show ?thesis by (simp add: open_checked [OF ok])
  next
    case (BeginRecovery i tm w)
    have "transaction (begin_body sha i tm w) s = begin_body sha i tm w s" by (rule t) (rule begin_ok [OF ok])
    with BeginRecovery show ?thesis by (simp add: begin_auto_recovery_def)
  qed (simp_all add: op_defs t [OF route_ok [OF ok]] t [OF complete_recovery_ok [OF ok]] t [OF action_ok [OF ok]]
      t [OF patch_ok [OF ok]] t [OF hold_ok [OF ok]] t [OF ensure_ok [OF ok]] t [OF complete_engineer_ok [OF ok]]
      t [OF escalate_body_ok [OF ok]] t [OF answer_ok [OF ok]] t [OF invalidate_ok [OF ok]])
qed

interpretation incident_machine: guarded_machine "op_step fl sha" store_ok for fl sha
  by unfold_locales (metis op_body_step op_body_ok)

section \<open>The slot of every reachable store\<close>

text \<open>
  C11. In every store the operations reach from the empty one: an operation in its transaction does
  exactly what its body does, so the validation at the write never refuses a repair halfway; a ticket is
  in automatic recovery exactly when the single recovery slot is its own, under its token, and the slot
  is never held by anything else; and no ticket has started more attempts than its budget.
\<close>

theorem recovery_slot_exclusive:
  assumes run: "run_ops (op_step fl sha) empty_store ops = Inr s"
  shows "op_step fl sha s op = op_body fl sha s op
    \<and> (\<forall>i \<in> set (is_incidents s). (ic_phase i = AUTO_RECOVERY \<longleftrightarrow>
          (\<exists>sl. is_slot s = Some sl \<and> sl_incident sl = ic_id i \<and> ic_lock_token i = Some (sl_token sl)))
        \<and> 0 \<le> ic_attempts i \<and> ic_attempts i \<le> ic_budget i)
    \<and> (\<forall>sl. is_slot s = Some sl \<longrightarrow> (\<exists>i \<in> set (is_incidents s). sl_incident sl = ic_id i \<and> ic_phase i = AUTO_RECOVERY))"
proof -
  have ok: "store_ok s" by (rule incident_machine.run_inv [OF empty_store_ok run])
  have r: "recovery_ok (is_slot s) i" if "i \<in> set (is_incidents s)" for i by (rule store_okD(3) [OF ok that])
  have "\<exists>i \<in> set (is_incidents s). sl_incident sl = ic_id i \<and> ic_phase i = AUTO_RECOVERY" if sl: "is_slot s = Some sl" for sl
  proof -
    obtain i where i: "i \<in> set (is_incidents s)" "ic_phase i = AUTO_RECOVERY" using ok sl by (auto simp: store_ok_def)
    with slot_holder [OF ok this] sl show ?thesis by auto
  qed
  moreover have "(ic_phase i = AUTO_RECOVERY \<longleftrightarrow>
          (\<exists>sl. is_slot s = Some sl \<and> sl_incident sl = ic_id i \<and> ic_lock_token i = Some (sl_token sl)))
        \<and> 0 \<le> ic_attempts i \<and> ic_attempts i \<le> ic_budget i" if "i \<in> set (is_incidents s)" for i
    using r [OF that] by (auto simp: recovery_ok_def slot_of_def)
  ultimately show ?thesis using op_body_step [OF ok] by blast
qed

section \<open>A run\<close>

text \<open>The same transport failure, three times: twice the engineer re-arms the run, the third time nobody has to.\<close>

definition sample_signal :: "string \<Rightarrow> incident_signal" where
  "sample_signal i = \<lparr>sg_id = i, sg_code = ''relay'', sg_surface = RUNTIME, sg_summary = ''no owner'', sg_tasks = [''A''],
     sg_operation = None, sg_outcome = KNOWN_FAILED, sg_state = [], sg_events = [], sg_context_task = ''''\<rparr>"

definition sample_check :: healthcheck where
  "sample_check = \<lparr>hc_name = ''doctor'', hc_passed = True, hc_checks = [''relay armed''], hc_observed_at = ''t''\<rparr>"

definition sample_repair :: "string \<Rightarrow> incident_op list" where
  "sample_repair i = [OpenTicket (sample_signal i) ''t'' 2 15 300, EnsureEngineer (''incident-'' @ i) ''t'',
     CompleteEngineer (''incident-'' @ i) True ''t'' (Some sample_check) ''fixed'' [''rearm_run''] '''']"

definition sample_ops :: "incident_op list" where
  "sample_ops = sample_repair ''1'' @ sample_repair ''2''
     @ [OpenTicket (sample_signal ''3'') ''t'' 2 15 300, BeginRecovery ''incident-3'' ''t'' ''me'']"

definition sample_store :: incident_store where
  "sample_store = (case run_ops (op_step (\<lambda>_. ''0'') (\<lambda>x. x)) empty_store sample_ops of Inr s \<Rightarrow> s | Inl _ \<Rightarrow> empty_store)"

lemma sample_run: "run_ops (op_step (\<lambda>_. ''0'') (\<lambda>x. x)) empty_store sample_ops = Inr sample_store
    \<and> map ic_phase (is_incidents sample_store) = [RESOLVED, RESOLVED, AUTO_RECOVERY]
    \<and> map ic_runbook_id (is_incidents sample_store) = [None, None, Some ''learned-v1|relay|RUNTIME'']
    \<and> length (is_journal sample_store) = 13"
  by code_simp

lemma recovery_slot_exclusive_witness:
  "is_slot sample_store \<noteq> None \<and> op_step (\<lambda>_. ''0'') (\<lambda>x. x) sample_store (AnswerTicket ''incident-3'' ''t'' '''')
     = op_body (\<lambda>_. ''0'') (\<lambda>x. x) sample_store (AnswerTicket ''incident-3'' ''t'' '''')"
proof -
  note r = recovery_slot_exclusive [OF conjunct1 [OF sample_run]]
  have "map ic_phase (is_incidents sample_store) = [RESOLVED, RESOLVED, AUTO_RECOVERY]" using sample_run by blast
  then have "AUTO_RECOVERY \<in> set (map ic_phase (is_incidents sample_store))" by simp
  then obtain i where "i \<in> set (is_incidents sample_store)" "ic_phase i = AUTO_RECOVERY" by auto
  then show ?thesis using r by blast
qed

end
