(* ===== verification/IncidentStories.thy ===== *)
theory IncidentStories
  imports IncidentRuns
begin

text \<open>
  What the journal and the ledger of the incident store say in every reachable store: nothing reaches
  the owner before the on-call or an automatic recovery had it, nothing is closed without a passing
  check or the owner's answer, and a procedure replayed without a human was learned from repeats.
\<close>

section \<open>The story of a ticket\<close>

definition told :: "pyval dict list \<Rightarrow> string \<Rightarrow> string \<Rightarrow> bool" where
  "told jn event i \<longleftrightarrow> list_ex (\<lambda>e. get e ''event'' = PStr event \<and> get e ''incident_id'' = PStr i) jn"

definition looked_at :: "pyval dict list \<Rightarrow> string \<Rightarrow> bool" where
  "looked_at jn i \<longleftrightarrow> told jn ''pipeline_engineer_requested'' i \<or> told jn ''auto_recovery_succeeded'' i"

definition check_passed :: "incident \<Rightarrow> bool" where
  "check_passed i \<longleftrightarrow> (case ic_healthcheck i of None \<Rightarrow> False | Some h \<Rightarrow> hc_passed h \<and> hc_checks h \<noteq> [])"

definition reason_named :: "incident \<Rightarrow> bool" where
  "reason_named i \<longleftrightarrow> (case ic_escalation_reason i of None \<Rightarrow> False | Some r \<Rightarrow> r \<in> set ESCALATION_REASONS)"

definition story_ok :: "pyval dict list \<Rightarrow> incident \<Rightarrow> bool" where
  "story_ok jn i \<longleftrightarrow> (case ic_phase i of
     HEALTHY \<Rightarrow> False
   | DEGRADED \<Rightarrow> True
   | AUTO_RECOVERY \<Rightarrow> ic_runbook_id i \<noteq> None
   | AUTO_RECOVERY_FAILED \<Rightarrow> True
   | RECOVERED \<Rightarrow> ic_runbook_id i \<noteq> None \<and> check_passed i \<and> told jn ''auto_recovery_succeeded'' (ic_id i)
   | PIPELINE_ENGINEER \<Rightarrow> looked_at jn (ic_id i)
   | ESCALATE_TO_USER \<Rightarrow> looked_at jn (ic_id i) \<and> reason_named i
   | RESOLVED \<Rightarrow> looked_at jn (ic_id i) \<and> (told jn ''escalation_resolved_by_user'' (ic_id i)
       \<or> check_passed i \<and> ic_class i \<in> set INFRASTRUCTURE_INCIDENT_CLASSES))"

definition stories :: "incident_store \<Rightarrow> bool" where
  "stories s \<longleftrightarrow> (\<forall>i \<in> set (is_incidents s). story_ok (is_journal s) i)"

lemma told_append: "told (j @ j') ev i \<longleftrightarrow> told j ev i \<or> told j' ev i"
  by (simp add: told_def)

lemma story_append: "story_ok j i \<Longrightarrow> story_ok (j @ j') i"
  by (auto simp: story_ok_def looked_at_def told_append split: incident_phase.splits)

lemma log_event_journal: "\<exists>e. is_journal (log_event ev t i d s) = is_journal s @ [e]"
  by (simp add: log_event_def)

lemma log_event_told: "told (is_journal (log_event ev t i d s)) ev' j \<longleftrightarrow> told (is_journal s) ev' j \<or> ev' = ev \<and> j = ic_id i"
  by (auto simp: log_event_def told_append) (auto simp: told_def incident_event_def get_def)

lemma log_event_stories: "stories s \<Longrightarrow> stories (log_event ev t i d s)"
  using log_event_journal [of ev t i d s] story_append by (fastforce simp: stories_def)

lemma change_told: "told (is_journal (change k ev t d s)) ev' j \<longleftrightarrow> told (is_journal s) ev' j \<or> ev' = ev \<and> j = ic_id k"
  by (simp add: change_def log_event_told)

lemma change_journal: "\<exists>e. is_journal (change k ev t d s) = is_journal s @ [e]"
  using log_event_journal [of ev t k d "put_incident k s"] by (simp add: change_def)

lemma change_stories:
  assumes st: "stories s" and f: "find_incident s i = Inr k" and d: "distinct (map ic_id (is_incidents s))"
    and id: "ic_id k' = ic_id k" and k': "story_ok (is_journal (change k' ev t x s)) k'"
  shows "stories (change k' ev t x s)"
proof -
  have "story_ok (is_journal (change k' ev t x s)) j" if "j \<in> set (is_incidents s)" for j
    using st that change_journal [of k' ev t x s] story_append by (fastforce simp: stories_def)
  then show ?thesis using k' change_incidents [OF f d id] by (auto simp: stories_def simp del: set_map map_map)
qed

lemma stories_fields: "is_journal s' = is_journal s \<Longrightarrow> is_incidents s' = is_incidents s \<Longrightarrow> stories s' = stories s"
  by (simp add: stories_def)

lemma find_story: "stories s \<Longrightarrow> find_incident s i = Inr k \<Longrightarrow> story_ok (is_journal s) k"
  using find_incidentD by (auto simp: stories_def)

text \<open>A change that keeps what the story is about.\<close>

lemma change_kept:
  assumes st: "stories s" and f: "find_incident s i = Inr k" and d: "distinct (map ic_id (is_incidents s))"
    and k': "ic_id k' = ic_id k" "ic_phase k' = ic_phase k" "ic_runbook_id k' = ic_runbook_id k" "ic_class k' = ic_class k"
      "ic_healthcheck k' = ic_healthcheck k" "ic_escalation_reason k' = ic_escalation_reason k"
  shows "stories (change k' ev t x s)"
proof (rule change_stories [OF st f d k'(1)])
  obtain e where "is_journal (change k' ev t x s) = is_journal s @ [e]" using change_journal by blast
  then have "story_ok (is_journal (change k' ev t x s)) k" using find_story [OF st f] by (simp add: story_append)
  then show "story_ok (is_journal (change k' ev t x s)) k'"
    using k' by (simp add: story_ok_def check_passed_def reason_named_def split: incident_phase.splits)
qed

lemmas story_simps = story_ok_def looked_at_def change_told set_phase_def check_passed_def reason_named_def

section \<open>Every operation keeps the stories\<close>

lemma hold_stories: "stories s \<Longrightarrow> store_ok s \<Longrightarrow> hold_more_body i ts t s = Inr (x, s') \<Longrightarrow> stories s'"
  by (auto simp: hold_more_body_def Let_def split: if_splits intro!: change_kept store_okD(2))

lemma action_stories: "stories s \<Longrightarrow> store_ok s \<Longrightarrow> record_action_body fl i f ev d t h s = Inr (x, s') \<Longrightarrow> stories s'"
  by (auto simp: record_action_body_def with_record_def Let_def split: if_splits intro!: change_kept store_okD(2))

lemma patch_stories: "stories s \<Longrightarrow> store_ok s \<Longrightarrow> record_patch_body fl i d t s = Inr (x, s') \<Longrightarrow> stories s'"
  by (auto simp: record_patch_body_def with_record_def Let_def split: if_splits intro!: change_kept store_okD(2))

lemma route_stories:
  assumes st: "stories s" and ok: "store_ok s" and b: "route_body i t s = Inr (x, s')"
  shows "stories s'"
proof -
  note d = store_okD(2) [OF ok]
  obtain k where f: "find_incident s i = Inr k" using b by (auto simp: route_body_def)
  with b show ?thesis using st
    by (auto simp: route_body_def split: if_splits intro!: change_stories [OF st f d]) (simp_all add: story_simps)
qed

lemma change_distinct: "distinct (map ic_id (is_incidents s)) \<Longrightarrow> distinct (map ic_id (is_incidents (change k' ev t d s)))"
  by (simp add: change_ids del: map_map)

lemma ensure_stories:
  assumes st: "stories s" and ok: "store_ok s" and b: "ensure_engineer_body i t s = Inr (x, s')"
  shows "stories s'"
proof -
  obtain k where f: "find_incident s i = Inr k" using b by (auto simp: ensure_engineer_body_def)
  note d = store_okD(2) [OF ok]
  obtain k1 s1 where fr: "failed_recovery t k s = (k1, s1)" by force
  have 1: "stories s1 \<and> find_incident s1 i = Inr k1 \<and> distinct (map ic_id (is_incidents s1))"
  proof (cases "ic_phase k = DEGRADED \<and> needs_engineer k")
    case True
    with fr obtain ev m where s1: "k1 = set_phase AUTO_RECOVERY_FAILED t k" "s1 = change k1 ev t m s"
      by (auto simp: failed_recovery_def)
    have id: "ic_id k1 = ic_id k" using s1 by (simp add: set_phase_def)
    have "story_ok (is_journal s1) k1" by (simp add: s1(1) story_ok_def set_phase_def)
    then show ?thesis using change_twice [OF f d id] change_distinct [OF d] change_stories [OF st f d id] by (simp add: s1(2))
  next
    case False
    with fr st f d show ?thesis by (auto simp: failed_recovery_def split: if_splits)
  qed
  have "s' = s \<or> s' = change (set_phase PIPELINE_ENGINEER t k1) ''pipeline_engineer_requested'' t '''' s1"
    using b f fr by (auto simp: ensure_engineer_body_def dest!: with_package_Inr split: if_splits)
  then show ?thesis
  proof
    assume s': "s' = change (set_phase PIPELINE_ENGINEER t k1) ''pipeline_engineer_requested'' t '''' s1"
    show ?thesis unfolding s' using 1 by (intro change_stories [of s1 i k1]) (simp_all add: story_simps)
  qed (simp add: st)
qed

lemma escalate_stories:
  assumes st: "stories s" and ok: "store_ok s" and b: "escalate_incident_body fl i why t d esc bl s = Inr (x, s')"
  shows "stories s'"
proof -
  note dis = store_okD(2) [OF ok]
  obtain k where f: "find_incident s i = Inr k" using b by (auto simp: escalate_incident_body_def)
  show ?thesis
  proof (cases "ic_phase k = ESCALATE_TO_USER")
    case True
    with b f st show ?thesis by (simp add: escalate_incident_body_def)
  next
    case False
    with b f have p: "ic_phase k \<in> {PIPELINE_ENGINEER, RESOLVED, RECOVERED}"
      by (auto simp: escalate_incident_body_def split: if_splits)
    with False b f obtain k' d' where s': "s' = change k' ''pipeline_engineer_escalated_to_user'' t d' s"
      and k': "ic_id k' = ic_id k" "ic_phase k' = ESCALATE_TO_USER" "ic_escalation_reason k' = Some why" "why \<in> set ESCALATION_REASONS"
      by (auto simp: escalate_incident_body_def escalate_to_user_def escalation_value_def split: if_splits)
    have "looked_at (is_journal s) (ic_id k)"
      using find_story [OF st f] p by (auto simp: story_ok_def looked_at_def)
    then show ?thesis unfolding s' using k' by (intro change_stories [OF st f dis]) (auto simp: story_simps)
  qed
qed

lemma answer_stories:
  assumes st: "stories s" and ok: "store_ok s" and b: "resolve_escalation_body i t n s = Inr (x, s')"
  shows "stories s'"
proof -
  note dis = store_okD(2) [OF ok]
  obtain k d where f: "find_incident s i = Inr k" and p: "ic_phase k \<in> {ESCALATE_TO_USER, PIPELINE_ENGINEER}"
    and s': "s' = change ((set_phase RESOLVED t k)\<lparr>ic_resolved_at := Some t\<rparr>) ''escalation_resolved_by_user'' t d s"
    using b by (auto simp: resolve_escalation_body_def split: if_splits)
  have "looked_at (is_journal s) (ic_id k)" using find_story [OF st f] p by (auto simp: story_ok_def)
  then show ?thesis unfolding s' by (intro change_stories [OF st f dis]) (auto simp: story_simps)
qed

lemma invalidate_stories:
  assumes st: "stories s" and ok: "store_ok s" and b: "invalidate_resolution_body i t why s = Inr (x, s')"
  shows "stories s'"
proof -
  note dis = store_okD(2) [OF ok]
  obtain k where f: "find_incident s i = Inr k" using b by (auto simp: invalidate_resolution_body_def)
  have "s' = s \<or> ic_phase k = RESOLVED \<and> s' = change ((set_phase PIPELINE_ENGINEER t k)\<lparr>ic_healthcheck := None, ic_resolved_at := None\<rparr>)
      ''pipeline_engineer_resolution_invalidated'' t (bounded MAX_EVENT_CHARS why) s"
    using b f by (auto simp: invalidate_resolution_body_def Let_def dest!: with_package_Inr split: if_splits)
  then show ?thesis
  proof (elim disjE conjE)
    assume p: "ic_phase k = RESOLVED" and s': "s' = change ((set_phase PIPELINE_ENGINEER t k)\<lparr>ic_healthcheck := None, ic_resolved_at := None\<rparr>)
      ''pipeline_engineer_resolution_invalidated'' t (bounded MAX_EVENT_CHARS why) s"
    have "looked_at (is_journal s) (ic_id k)" using find_story [OF st f] p by (auto simp: story_ok_def)
    then show ?thesis unfolding s' by (intro change_stories [OF st f dis]) (auto simp: story_simps)
  qed (simp add: st)
qed

lemma complete_stories:
  assumes st: "stories s" and ok: "store_ok s" and b: "complete_engineer_body i good t hc why acts n s = Inr (x, s')"
  shows "stories s'"
  using b
proof (cases rule: complete_engineer_cases)
  case (resolved k k' h l s1)
  note same = record_resolution_fields [OF resolved(7)]
  have st1: "stories s1" and f1: "find_incident s1 i = Inr k" and d1: "distinct (map ic_id (is_incidents s1))"
    using stories_fields [OF same(1,4)] st find_incident_cong [OF same(4)] resolved(1) same(4) store_okD(2) [OF ok] by simp_all
  have "looked_at (is_journal s1) (ic_id k)" "hc_passed h" "hc_checks h \<noteq> []" "ic_class k \<in> set INFRASTRUCTURE_INCIDENT_CLASSES"
    using find_story [OF st1 f1] resolved(2,3,5)
    by (auto simp: story_ok_def require_passing_healthcheck_def RESOLVE_FORBIDDEN_CLASSES_def advisory_iff
        split: option.splits if_splits)
  then have "stories (change k' ''pipeline_engineer_resolved'' t (bounded MAX_EVENT_CHARS why) s1)"
    using resolved(6) by (intro change_stories [OF st1 f1 d1]) (auto simp: story_simps)
  then show ?thesis using resolved(8) by (auto simp: promotion_note_def log_event_stories)
next
  case (escalated k k')
  note dis = store_okD(2) [OF ok]
  have "looked_at (is_journal s) (ic_id k)" using find_story [OF st escalated(1)] escalated(2) by (simp add: story_ok_def)
  then show ?thesis unfolding escalated(4) using escalated(3)
    by (intro change_stories [OF st escalated(1) dis]) (auto simp: escalate_to_user_def story_simps split: if_splits)
qed

lemma begin_stories:
  assumes st: "stories s" and ok: "store_ok s" and b: "begin_body sha i t w s = Inr (x, s')"
  shows "stories s'"
  using b
proof (cases rule: begin_cases)
  case (1 k)
  have "stories (s\<lparr>is_slot := z\<rparr>)" "find_incident (s\<lparr>is_slot := z\<rparr>) i = Inr k" for z
    using st 1(1) by (simp_all add: stories_def find_incident_def)
  then show ?thesis unfolding 1(7) using store_okD(2) [OF ok] 1(3)
    by (intro change_stories) (auto simp: 1(6) recovering_def story_simps Let_def)
qed

lemma recovered_stories:
  assumes st: "stories s" and ok: "store_ok s" and b: "complete_recovery_body i tok good t hc s = Inr (x, s')"
  shows "stories s'"
  using b
proof (cases rule: complete_recovery_cases)
  case (1 k k' ev)
  have s0: "stories (s\<lparr>is_slot := None\<rparr>)" "find_incident (s\<lparr>is_slot := None\<rparr>) i = Inr k"
    using st 1(1) by (simp_all add: stories_def find_incident_def)
  have "ic_runbook_id k' \<noteq> None" using find_story [OF st 1(1)] 1(2,11) by (simp add: story_ok_def)
  moreover have "check_passed k'" if "ic_phase k' = RECOVERED"
    using 1(14) that by (auto simp: check_passed_def require_passing_healthcheck_def split: option.splits if_splits)
  ultimately have "story_ok (is_journal (change k' ev t '''' (s\<lparr>is_slot := None\<rparr>))) k'"
    using 1(5,14) by (auto simp: story_ok_def change_told)
  then show ?thesis unfolding 1(4) using store_okD(2) [OF ok] 1(5) s0 by (intro change_stories) auto
qed

lemma open_stories:
  assumes st: "stories s" and b: "checked_open fl sha g t n a c s = Inr (x, s')"
  shows "stories s'"
  using b
proof (cases rule: checked_open_cases)
  case known
  then show ?thesis using st by simp
next
  case (fresh i c v m s1)
  note same = record_signature_fields [OF fresh(5)]
  have "stories (s\<lparr>is_incidents := is_incidents s @ [i]\<rparr>)" using st fresh(4) by (auto simp: stories_def story_ok_def)
  then have "stories s1" using stories_fields [OF same(1,4)] by simp
  then show ?thesis using fresh(6) by (auto simp: log_event_stories)
qed

lemma op_body_stories: "store_ok s \<Longrightarrow> stories s \<Longrightarrow> op_body fl sha s r = Inr s' \<Longrightarrow> stories s'"
  by (cases r) (auto intro: open_stories route_stories begin_stories recovered_stories action_stories patch_stories
      hold_stories ensure_stories complete_stories escalate_stories answer_stories invalidate_stories)

interpretation story_machine: guarded_machine "op_step fl sha" "\<lambda>s. store_ok s \<and> stories s" for fl sha
  by unfold_locales (metis op_body_step op_body_ok op_body_stories)

section \<open>Nothing reaches the owner first, nothing is closed unproved\<close>

text \<open>
  C25. In every store the operations reach: a ticket handed to the owner carries a reason of the closed
  list, and the journal shows that the on-call was asked for it, or that an automatic recovery of it had
  succeeded, before; a resolved ticket was looked at too, and either the owner answered it or a passing
  check with observations closed it, which is possible for an infrastructure class only; a recovered one
  has a passing check and a runbook.
\<close>

theorem owner_called_last:
  assumes run: "run_ops (op_step fl sha) empty_store ops = Inr s" and i: "i \<in> set (is_incidents s)"
  shows "(ic_phase i = ESCALATE_TO_USER \<longrightarrow> reason_named i \<and> looked_at (is_journal s) (ic_id i))
    \<and> (ic_phase i = RESOLVED \<longrightarrow> looked_at (is_journal s) (ic_id i) \<and>
        (told (is_journal s) ''escalation_resolved_by_user'' (ic_id i)
          \<or> check_passed i \<and> ic_class i \<in> set INFRASTRUCTURE_INCIDENT_CLASSES))
    \<and> (ic_phase i = RECOVERED \<longrightarrow> ic_runbook_id i \<noteq> None \<and> check_passed i)"
proof -
  have "store_ok empty_store \<and> stories empty_store" by (simp add: empty_store_ok) (simp add: stories_def empty_store_def)
  from story_machine.run_inv [OF this run] have "story_ok (is_journal s) i" using i by (simp add: stories_def)
  then show ?thesis by (auto simp: story_ok_def)
qed

lemma sample_resolved: "ic_phase (hd (is_incidents sample_store)) = RESOLVED"
    "hd (is_incidents sample_store) \<in> set (is_incidents sample_store)"
  using sample_run by (cases "is_incidents sample_store"; simp)+

lemma owner_called_last_witness:
  "looked_at (is_journal sample_store) (ic_id (hd (is_incidents sample_store)))"
  using owner_called_last [OF conjunct1 [OF sample_run] sample_resolved(2)] sample_resolved(1) by blast

section \<open>The ledger of signatures\<close>

definition learned_ok :: "string \<Rightarrow> ledger_entry \<Rightarrow> bool" where
  "learned_ok signature e \<longleftrightarrow> (case le_promoted e of None \<Rightarrow> True
     | Some r \<Rightarrow> rb_id r = ''learned-'' @ signature \<and> rb_actions r \<noteq> []
         \<and> set (rb_actions r) \<subseteq> set AUTO_REPLAYABLE_ACTIONS
         \<and> PROMOTION_THRESHOLD \<le> length (identical_resolutions e (rb_actions r) (rb_check r)))"

definition counted :: "incident list \<Rightarrow> string \<Rightarrow> ledger_entry \<Rightarrow> bool" where
  "counted is signature e \<longleftrightarrow> le_incident_ids e = map ic_id (filter (\<lambda>i. ic_signature i = signature) is)
     \<and> le_occurrences e = int (length (le_incident_ids e))"

definition runbook_known :: "ledger_entry dict \<Rightarrow> incident \<Rightarrow> bool" where
  "runbook_known sigs i \<longleftrightarrow> (\<exists>e. map_of sigs (ic_signature i) = Some e
     \<and> (ic_runbook_id i \<noteq> None \<longrightarrow> le_promoted e \<noteq> None \<and> ic_runbook_id i = map_option rb_id (le_promoted e)))"

definition ledger_ok :: "incident_store \<Rightarrow> bool" where
  "ledger_ok s \<longleftrightarrow> (\<forall>signature e. map_of (is_signatures s) signature = Some e \<longrightarrow>
       learned_ok signature e \<and> counted (is_incidents s) signature e)
     \<and> (\<forall>i \<in> set (is_incidents s). runbook_known (is_signatures s) i)"

lemma ledger_fields: "is_signatures s' = is_signatures s \<Longrightarrow> is_incidents s' = is_incidents s \<Longrightarrow> ledger_ok s' = ledger_ok s"
  by (simp add: ledger_ok_def)

lemma log_event_ledger [simp]: "ledger_ok (log_event ev t i d s) = ledger_ok s"
  by (rule ledger_fields) simp_all

lemma filter_map_same: "(\<And>j. j \<in> set xs \<Longrightarrow> ic_id (f j) = ic_id j \<and> ic_signature (f j) = ic_signature j) \<Longrightarrow>
    map ic_id (filter (\<lambda>i. ic_signature i = sig) (map f xs)) = map ic_id (filter (\<lambda>i. ic_signature i = sig) xs)"
  by (induction xs) auto

lemma change_ledger:
  assumes l: "ledger_ok s" and f: "find_incident s i = Inr k" and d: "distinct (map ic_id (is_incidents s))"
    and k': "ic_id k' = ic_id k" "ic_signature k' = ic_signature k" "ic_runbook_id k' = ic_runbook_id k"
  shows "ledger_ok (change k' ev t x s)"
proof -
  let ?f = "\<lambda>j. if ic_id j = ic_id k' then k' else j"
  have k: "k \<in> set (is_incidents s)" using find_incidentD [OF f] by simp
  have same: "ic_id (?f j) = ic_id j \<and> ic_signature (?f j) = ic_signature j" if "j \<in> set (is_incidents s)" for j
    using that k d k' by (auto simp: distinct_map inj_on_def)
  have "counted (map ?f (is_incidents s)) signature e = counted (is_incidents s) signature e" for signature e
    by (simp only: counted_def filter_map_same [of "is_incidents s" ?f, OF same])
  moreover have "runbook_known (is_signatures s) k'" using l k k' by (simp add: ledger_ok_def runbook_known_def)
  ultimately show ?thesis
    using l change_incidents [OF f d k'(1)] by (simp add: ledger_ok_def del: set_map map_map)
qed

lemma record_resolution_ledger:
  assumes l: "ledger_ok s" and r: "record_resolution i acts hc t n s = (p, s')"
  shows "ledger_ok s'"
proof (cases "if ic_signature i = [] then None else map_of (is_signatures s) (ic_signature i)")
  case None
  then have "s' = s" using r by (simp add: record_resolution_def)
  then show ?thesis using l by simp
next
  case (Some e)
  let ?sig = "ic_signature i" and ?acts = "normalized_actions acts"
  let ?e1 = "with_resolution e ?acts hc t n"
  have m: "map_of (is_signatures s) ?sig = Some e" using Some by (simp split: if_splits)
  obtain e' where s': "s' = s\<lparr>is_signatures := AList.update ?sig e' (is_signatures s)\<rparr>"
    and e': "e' = ?e1 \<and> \<not> promotes ?e1 ?acts hc \<or> e' = promoted ?e1 ?sig ?acts hc t \<and> promotes ?e1 ?acts hc"
    using r Some by (auto simp: record_resolution_def Let_def split: if_splits)
  have old: "learned_ok ?sig e" "counted (is_incidents s) ?sig e" using l m by (auto simp: ledger_ok_def)
  have same: "counted (is_incidents s) ?sig e'" using old(2) e' by (auto simp: counted_def with_resolution_def promoted_def)
  have keep: "le_promoted e \<noteq> None \<Longrightarrow> le_promoted e' = le_promoted e"
    using e' by (auto simp: promotes_def with_resolution_def)
  have "learned_ok ?sig e'"
  proof (cases "promotes ?e1 ?acts hc")
    case True
    then have "e' = promoted ?e1 ?sig ?acts hc t" using e' by simp
    with True show ?thesis by (simp add: learned_ok_def promoted_def promotes_def identical_resolutions_def)
  next
    case False
    then have "e' = ?e1" using e' by simp
    then show ?thesis using old(1)
      by (auto simp: learned_ok_def with_resolution_def identical_resolutions_def split: option.splits)
  qed
  moreover have "runbook_known (is_signatures s') j" if j: "j \<in> set (is_incidents s)" for j
  proof -
    have "runbook_known (is_signatures s) j" using l j by (simp add: ledger_ok_def)
    then show ?thesis using keep m by (auto simp: s' runbook_known_def)
  qed
  ultimately show ?thesis using l same by (auto simp: ledger_ok_def s')
qed

lemma record_signature_ledger:
  assumes l: "ledger_ok s" and sig: "ic_signature i = sig" and new: "ic_id i \<notin> ic_id ` set (is_incidents s)"
    and rb: "ic_runbook_id i = map_option rb_id (promoted_runbook s sig)"
    and r: "record_signature sig i t (s\<lparr>is_incidents := is_incidents s @ [i]\<rparr>) = (n, s')"
  shows "ledger_ok s'"
proof -
  define e where "e = (case map_of (is_signatures s) sig of None \<Rightarrow> new_entry sig i t | Some e \<Rightarrow> e)"
  define e' where "e' = e\<lparr>le_occurrences := le_occurrences e + 1, le_last_seen := t,
      le_incident_ids := (if ic_id i \<in> set (le_incident_ids e) then le_incident_ids e else le_incident_ids e @ [ic_id i])\<rparr>"
  have s': "is_signatures s' = AList.update sig e' (is_signatures s)" "is_incidents s' = is_incidents s @ [i]"
    using r by (auto simp: record_signature_def Let_def e_def e'_def)
  have c: "counted (is_incidents s) sig e \<and> learned_ok sig e"
  proof (cases "map_of (is_signatures s) sig")
    case None
    then have "ic_signature j \<noteq> sig" if "j \<in> set (is_incidents s)" for j
      using l that by (auto simp: ledger_ok_def runbook_known_def)
    then have "filter (\<lambda>j. ic_signature j = sig) (is_incidents s) = []" by (simp add: filter_empty_conv)
    with None show ?thesis by (simp add: e_def counted_def new_entry_def learned_ok_def)
  next
    case (Some x)
    with l show ?thesis by (simp add: e_def ledger_ok_def)
  qed
  have "ic_id i \<notin> set (le_incident_ids e)" using c new by (auto simp: counted_def)
  then have 1: "counted (is_incidents s @ [i]) sig e'" using c sig by (simp add: counted_def e'_def)
  have 2: "learned_ok sig e'" using c by (auto simp: learned_ok_def e'_def identical_resolutions_def split: option.splits)
  have 3: "runbook_known (is_signatures s') i"
    using rb sig by (simp add: runbook_known_def s' promoted_runbook_def e'_def e_def new_entry_def split: option.splits)
  have 4: "runbook_known (is_signatures s') j" if j: "j \<in> set (is_incidents s)" for j
    using l j by (auto simp: ledger_ok_def runbook_known_def s' e'_def e_def split: option.splits)
  have 5: "counted (is_incidents s @ [i]) g x = counted (is_incidents s) g x" if "g \<noteq> sig" for g x
    using that sig by (simp add: counted_def)
  show ?thesis using l 1 2 3 4 5 by (auto simp: ledger_ok_def s')
qed

lemma open_ledger:
  assumes l: "ledger_ok s" and b: "checked_open fl sha g t n a c s = Inr (x, s')"
  shows "ledger_ok s'"
  using b
proof (cases rule: checked_open_cases)
  case known
  then show ?thesis using l by simp
next
  case (fresh i c v m s1)
  have "ledger_ok s1" by (rule record_signature_ledger [OF l _ fresh(3) _ fresh(5)]) (simp_all add: fresh(4))
  then show ?thesis using fresh(6) by auto
qed

lemma slot_ledger: "ledger_ok (s\<lparr>is_slot := z\<rparr>) = ledger_ok s"
  by (rule ledger_fields) simp_all

lemma begin_ledger:
  assumes l: "ledger_ok s" and ok: "store_ok s" and b: "begin_body sha i t w s = Inr (x, s')"
  shows "ledger_ok s'"
  using b
proof (cases rule: begin_cases)
  case (1 k)
  have "find_incident (s\<lparr>is_slot := z\<rparr>) i = Inr k" for z using 1(1) by (simp add: find_incident_def)
  then show ?thesis unfolding 1(7) using store_okD(2) [OF ok] l
    by (intro change_ledger) (auto simp: slot_ledger 1(6) recovering_def set_phase_def Let_def)
qed

lemma recovered_ledger:
  assumes l: "ledger_ok s" and ok: "store_ok s" and b: "complete_recovery_body i tok good t hc s = Inr (x, s')"
  shows "ledger_ok s'"
  using b
proof (cases rule: complete_recovery_cases)
  case (1 k k' ev)
  have "find_incident (s\<lparr>is_slot := None\<rparr>) i = Inr k" using 1(1) by (simp add: find_incident_def)
  then show ?thesis unfolding 1(4) using store_okD(2) [OF ok] l 1 by (intro change_ledger) (auto simp: slot_ledger)
qed

lemma complete_ledger:
  assumes l: "ledger_ok s" and ok: "store_ok s" and b: "complete_engineer_body i good t hc why acts n s = Inr (x, s')"
  shows "ledger_ok s'"
  using b
proof (cases rule: complete_engineer_cases)
  case (resolved k k' h p s1)
  note same = record_resolution_fields [OF resolved(7)]
  have "find_incident s1 i = Inr k" "distinct (map ic_id (is_incidents s1))"
    using find_incident_cong [OF same(4)] resolved(1) same(4) store_okD(2) [OF ok] by simp_all
  then have "ledger_ok (change k' ''pipeline_engineer_resolved'' t (bounded MAX_EVENT_CHARS why) s1)"
    using record_resolution_ledger [OF l resolved(7)] resolved(6) by (intro change_ledger) (simp_all add: set_phase_def)
  then show ?thesis using resolved(8) by (auto simp: promotion_note_def)
next
  case (escalated k k')
  then show ?thesis unfolding escalated(4) using store_okD(2) [OF ok]
    by (intro change_ledger [OF l escalated(1)]) (auto simp: escalate_to_user_def split: if_splits)
qed

lemma ensure_ledger:
  assumes l: "ledger_ok s" and ok: "store_ok s" and b: "ensure_engineer_body i t s = Inr (x, s')"
  shows "ledger_ok s'"
proof -
  obtain k where f: "find_incident s i = Inr k" using b by (auto simp: ensure_engineer_body_def)
  note d = store_okD(2) [OF ok]
  obtain k1 s1 where fr: "failed_recovery t k s = (k1, s1)" by force
  have "ledger_ok s1 \<and> find_incident s1 i = Inr k1 \<and> distinct (map ic_id (is_incidents s1))"
    using fr l f d by (auto simp: failed_recovery_def set_phase_def simp del: change_fields
      intro!: change_ledger change_twice change_distinct split: if_splits)
  moreover have "s' = s \<or> s' = change (set_phase PIPELINE_ENGINEER t k1) ''pipeline_engineer_requested'' t '''' s1"
    using b f fr by (auto simp: ensure_engineer_body_def dest!: with_package_Inr split: if_splits)
  ultimately show ?thesis using l by (auto simp: set_phase_def intro!: change_ledger)
qed

lemma kept_ledger:
  assumes l: "ledger_ok s" and ok: "store_ok s"
  shows "route_body i t s = Inr (p, s') \<Longrightarrow> ledger_ok s'"
    "record_action_body fl i f ev d t h s = Inr (k, s') \<Longrightarrow> ledger_ok s'"
    "record_patch_body fl i d t s = Inr (k, s') \<Longrightarrow> ledger_ok s'"
    "hold_more_body i ts t s = Inr (xs, s') \<Longrightarrow> ledger_ok s'"
    "escalate_incident_body fl i why t n d bl s = Inr (p, s') \<Longrightarrow> ledger_ok s'"
    "resolve_escalation_body i t n s = Inr (p, s') \<Longrightarrow> ledger_ok s'"
    "invalidate_resolution_body i t why s = Inr (pk, s') \<Longrightarrow> ledger_ok s'"
  using l store_okD(2) [OF ok]
  by (auto simp: route_body_def record_action_body_def record_patch_body_def hold_more_body_def with_record_def
      escalate_incident_body_def escalate_to_user_def escalation_value_def resolve_escalation_body_def
      invalidate_resolution_body_def set_phase_def Let_def
      dest!: with_package_Inr split: if_splits intro!: change_ledger)

lemma op_body_ledger: "store_ok s \<Longrightarrow> ledger_ok s \<Longrightarrow> op_body fl sha s r = Inr s' \<Longrightarrow> ledger_ok s'"
  by (cases r) (auto intro: open_ledger begin_ledger recovered_ledger ensure_ledger complete_ledger kept_ledger)

interpretation ledger_machine: guarded_machine "op_step fl sha" "\<lambda>s. store_ok s \<and> ledger_ok s" for fl sha
  by unfold_locales (metis op_body_step op_body_ok op_body_ledger)

section \<open>What is replayed without a human\<close>

text \<open>
  C33. In every store the operations reach: a ticket in automatic recovery or recovered by it carries
  the runbook learned for its own signature; the runbook only names actions level 1 may replay, at least
  one, none of them forbidden; the ledger still holds the repeats it was learned from, at least
  \<^verbatim>\<open>PROMOTION_THRESHOLD\<close> closures with the same actions and the same check; and the ledger counts
  exactly the tickets of that signature.
\<close>

theorem replay_is_learned:
  assumes run: "run_ops (op_step fl sha) empty_store ops = Inr s" and i: "i \<in> set (is_incidents s)"
    and p: "ic_phase i = AUTO_RECOVERY \<or> ic_phase i = RECOVERED"
  shows "\<exists>e r. map_of (is_signatures s) (ic_signature i) = Some e \<and> le_promoted e = Some r \<and> ic_runbook_id i = Some (rb_id r)
    \<and> rb_id r = ''learned-'' @ ic_signature i \<and> rb_actions r \<noteq> [] \<and> set (rb_actions r) \<subseteq> set AUTO_REPLAYABLE_ACTIONS
    \<and> set (rb_actions r) \<inter> set FORBIDDEN_ACTIONS = {}
    \<and> PROMOTION_THRESHOLD \<le> length (identical_resolutions e (rb_actions r) (rb_check r))
    \<and> le_incident_ids e = map ic_id (filter (\<lambda>j. ic_signature j = ic_signature i) (is_incidents s))
    \<and> le_occurrences e = int (length (le_incident_ids e))"
proof -
  have "store_ok empty_store \<and> ledger_ok empty_store" "store_ok empty_store \<and> stories empty_store"
    by (simp_all add: empty_store_ok ledger_ok_def stories_def) (simp_all add: empty_store_def)
  then have l: "ledger_ok s" and st: "stories s"
    using ledger_machine.run_inv [OF _ run] story_machine.run_inv [OF _ run] by blast+
  have "ic_runbook_id i \<noteq> None" using st i p by (auto simp: stories_def story_ok_def)
  moreover have "runbook_known (is_signatures s) i" using l i by (simp add: ledger_ok_def)
  ultimately obtain e r where e: "map_of (is_signatures s) (ic_signature i) = Some e" "le_promoted e = Some r"
      "ic_runbook_id i = Some (rb_id r)" by (auto simp: runbook_known_def)
  then have "learned_ok (ic_signature i) e" "counted (is_incidents s) (ic_signature i) e" using l by (simp_all add: ledger_ok_def)
  then show ?thesis using e vocabulary_allowed replayable_named by (auto simp: learned_ok_def counted_def)
qed

lemma sample_recovering: "ic_phase (is_incidents sample_store ! 2) = AUTO_RECOVERY"
    "is_incidents sample_store ! 2 \<in> set (is_incidents sample_store)"
proof -
  have m: "map ic_phase (is_incidents sample_store) = [RESOLVED, RESOLVED, AUTO_RECOVERY]" using sample_run by blast
  then have n: "length (is_incidents sample_store) = 3" by (metis length_map length_Cons list.size(3) numeral_3_eq_3)
  show "ic_phase (is_incidents sample_store ! 2) = AUTO_RECOVERY"
    using m n nth_map [of 2 "is_incidents sample_store" ic_phase] by simp
  show "is_incidents sample_store ! 2 \<in> set (is_incidents sample_store)" using n by simp
qed

lemma replay_is_learned_witness:
  "map_of (is_signatures sample_store) (ic_signature (is_incidents sample_store ! 2)) \<noteq> None"
  using replay_is_learned [OF conjunct1 [OF sample_run] sample_recovering(2) disjI1 [OF sample_recovering(1)]] by auto

end
