(* ===== verification/StopDoor.thy ===== *)
theory StopDoor
  imports IncidentStories CrashReconciliation
begin

text \<open>
  The one door of a stopped task (\<^verbatim>\<open>blocked_runs.py\<close>), the bound on repeated stops (\<^verbatim>\<open>stop_repeats.py\<close>)
  and the tasks a ticket holds (\<^verbatim>\<open>stop_holds.py\<close>). A call that swallows its exceptions returns the store
  as it was left. \<^verbatim>\<open>rp\<close> prints a value that is not a text, \<^verbatim>\<open>route_names\<close> is the escalation route read
  from the roster, \<^verbatim>\<open>p\<close> the plan on disk.
\<close>

section \<open>Reading a ticket\<close>

definition system_of :: "incident \<Rightarrow> pyval dict" where
  "system_of k = (case ic_state k of PDict d \<Rightarrow> d | _ \<Rightarrow> [])"

text \<open>\<^verbatim>\<open>str(d.get(key) or "")\<close>.\<close>

definition text_field :: "(pyval \<Rightarrow> string) \<Rightarrow> pyval dict \<Rightarrow> string \<Rightarrow> string" where
  "text_field rp d key = str_of rp (py_or (get d key) (PStr ''''))"

definition stop_kind_of :: "(pyval \<Rightarrow> string) \<Rightarrow> incident \<Rightarrow> string" where
  "stop_kind_of rp k = text_field rp (system_of k) ''stop_kind''"

definition is_stop :: "incident \<Rightarrow> bool" where
  "is_stop k \<longleftrightarrow> startswith (ic_code k) STOP_CODE_PREFIX"

definition is_open :: "incident \<Rightarrow> bool" where
  "is_open k \<longleftrightarrow> \<not> is_set (ic_resolved_at k)"

definition or_else :: "string \<Rightarrow> string \<Rightarrow> string" where
  "or_else v other = (if v = [] then other else v)"

section \<open>Repeated stops\<close>

definition MAX_REPEATED_STOPS :: nat where "MAX_REPEATED_STOPS = 2"
definition MAX_REPORTED_CLOSURES :: nat where "MAX_REPORTED_CLOSURES = 5"

definition repeat_signature :: "(pyval \<Rightarrow> string) \<Rightarrow> incident \<Rightarrow> string" where
  "repeat_signature rp k =
     (let d = system_of k; key = get d ''signal_key'' in
      join ''|'' ([text_field rp d ''run_id'', text_field rp d ''stop_kind'', text_field rp d ''plan_change_id'',
        or_else (join '','' (sort (ic_tasks k))) ''run'', text_field rp d ''reason_code'']
        @ (if truthy key then [str_of rp key] else [])))"

definition answered_by_her :: "pyval dict list \<Rightarrow> incident \<Rightarrow> bool" where
  "answered_by_her jn k \<longleftrightarrow> is_set (ic_escalated_at k) \<and> is_set (ic_resolved_at k)
     \<and> told jn ''escalation_resolved_by_user'' (ic_id k)"

text \<open>The earlier tickets of the same stop, closed since her last answer.\<close>

fun closures :: "(pyval \<Rightarrow> string) \<Rightarrow> pyval dict list \<Rightarrow> incident \<Rightarrow> incident list \<Rightarrow> incident list \<Rightarrow> incident list" where
  "closures rp jn k [] shut = shut"
| "closures rp jn k (i # is) shut =
     (if ic_id i = ic_id k then shut
      else if \<not> is_stop i then closures rp jn k is shut
      else if repeat_signature rp i \<noteq> repeat_signature rp k then closures rp jn k is shut
      else if answered_by_her jn i then closures rp jn k is []
      else if is_set (ic_resolved_at i) then closures rp jn k is (shut @ [i])
      else closures rp jn k is shut)"

definition closures_since_her_answer :: "(pyval \<Rightarrow> string) \<Rightarrow> incident_store \<Rightarrow> incident \<Rightarrow> incident list" where
  "closures_since_her_answer rp s k = closures rp (is_journal s) k (is_incidents s) []"

definition last_of :: "nat \<Rightarrow> 'a list \<Rightarrow> 'a list" where
  "last_of n xs = drop (length xs - n) xs"

definition closure_report :: "incident_store \<Rightarrow> incident \<Rightarrow> pyval" where
  "closure_report s k =
     (let rows = (case map_of (is_signatures s) (ic_signature k) of None \<Rightarrow> [] | Some e \<Rightarrow> le_resolutions e);
          row = find (\<lambda>r. Some (re_at r) = ic_resolved_at k) (rev rows) in
      PDict [(''incident_id'', PStr (ic_id k)), (''closed_at'', opt_text (ic_resolved_at k)),
        (''actions'', PList (case row of None \<Rightarrow> [] | Some r \<Rightarrow> map PStr (re_actions r))),
        (''note'', PStr (case row of None \<Rightarrow> '''' | Some r \<Rightarrow> take 600 (re_note r))),
        (''healthcheck'', PList (case ic_healthcheck k of None \<Rightarrow> [] | Some h \<Rightarrow> map PStr (hc_checks h))),
        (''returns'', PList (last_of 3 (records_of k RETURNS)))])"

definition what_each_closure_did :: "incident_store \<Rightarrow> incident list \<Rightarrow> pyval" where
  "what_each_closure_did s shut = PList (map (closure_report s) (last_of MAX_REPORTED_CLOSURES shut))"

definition questions :: "(string \<times> string \<times> string) list" where
  "questions = [(''plan_unverified'', ''whether the current plan is the one to run'',
       ''verify the plan again or change it through the replanner''),
     (''orphan_block'', ''whether the stopped task goes back to work'',
       ''read the last ticket's diagnosis, then unblock the task or change the plan''),
     (''no_successor'', ''whether the run may continue while the reservation leaves ready work idle'',
       ''read the last ticket's diagnosis; the reservation needs a repair the on-call could not make'')]"

definition question_for :: "string \<Rightarrow> string \<Rightarrow> string \<times> string" where
  "question_for kind tasks = (case map_of questions kind of Some q \<Rightarrow> q
     | None \<Rightarrow> (''whether '' @ tasks @ '' goes back to work, and on what premise'',
         ''read what the on-call repaired each time; change the premise (the environment, the resource, the plan) before unblocking''))"

section \<open>Handing a ticket to the owner\<close>

datatype hand_up = Escalated | Answered | Refused

definition escalate_to_owner :: "(rat \<Rightarrow> string) \<Rightarrow> (pyval \<Rightarrow> string) \<Rightarrow> string \<Rightarrow> string \<Rightarrow> string \<Rightarrow> string \<Rightarrow> pyval dict
    \<Rightarrow> incident_store \<Rightarrow> hand_up \<times> incident_store" where
  "escalate_to_owner fl rp i code detail at_time escalation s = (case validate_store s of
     Inl _ \<Rightarrow> (Refused, s)
   | Inr _ \<Rightarrow>
       if told (is_journal s) ''escalation_resolved_by_user'' i then (Answered, s)
       else (case escalate_incident_to_user fl i code at_time detail escalation
           (str_of rp (py_or (get escalation ''scope'') (PStr ''task'')) = ''run'') s of
         Inl _ \<Rightarrow> (Refused, s) | Inr (_, s') \<Rightarrow> (Escalated, s')))"

section \<open>The tasks a ticket holds\<close>

definition OWNER_WORKER_REASONS :: "string list" where
  "OWNER_WORKER_REASONS = [''PRODUCT_DECISION'', ''ARCHITECTURE_DECISION'', ''DANGEROUS_PERMISSION'']"

definition HOLDING_STOP_KINDS :: "string list" where
  "HOLDING_STOP_KINDS = [''verification_protocol'', ''verifier_routing'', ''inconsistent_state'']"

definition stop_worker_task :: "plan \<Rightarrow> string \<Rightarrow> string \<Rightarrow> run_state \<Rightarrow> (bool \<times> run_state) result" where
  "stop_worker_task p t reason_code st =
     (if reason_code \<notin> set OWNER_WORKER_REASONS then
        bindE (transition_task p (rs_task_states st) t ''RETRY_WAIT'') (\<lambda>waiting.
        bindE (transition_task p waiting t ''READY'') (\<lambda>ready. Inr (True, st\<lparr>rs_task_states := ready\<rparr>)))
      else bindE (transition_task p (rs_task_states st) t ''BLOCKED'') (\<lambda>stopped. Inr (False, st\<lparr>rs_task_states := stopped\<rparr>)))"

definition holds_its_tasks :: "(pyval \<Rightarrow> string) \<Rightarrow> incident \<Rightarrow> bool" where
  "holds_its_tasks rp k \<longleftrightarrow> truthy (get (system_of k) ''held'')
     \<or> str_of rp (get (system_of k) ''stop_kind'') \<in> set HOLDING_STOP_KINDS"

definition has_producer :: "run_state \<Rightarrow> string \<Rightarrow> bool" where
  "has_producer st t \<longleftrightarrow> (\<exists>d \<in> set (rs_worker_sessions st). get d ''task_id'' = PStr t
     \<and> get d ''kind'' \<noteq> PStr ''pipeline_engineer'' \<and> get d ''status'' \<in> set (map PStr PENDING_STATUSES))"

text \<open>A task is left alone when it is unknown, active, produced by a live session, or settled already.\<close>

definition left_alone :: "plan \<Rightarrow> run_state \<Rightarrow> string \<Rightarrow> bool" where
  "left_alone p st t \<longleftrightarrow> t \<notin> set (map t_id (pl_tasks p)) \<or> t \<in> set (rs_active_task_ids st) \<or> has_producer st t
     \<or> map_of (rs_task_states st) t \<in> {Some ''BLOCKED'', Some ''VERIFIED''}"

definition block_one :: "plan \<Rightarrow> string \<Rightarrow> string list \<times> run_state \<Rightarrow> string list \<times> run_state" where
  "block_one p t r = (case r of (ts, st) \<Rightarrow> if left_alone p st t then (ts, st)
     else (case transition_task p (rs_task_states st) t ''BLOCKED'' of
       Inl _ \<Rightarrow> (ts, st) | Inr states \<Rightarrow> (ts @ [t], st\<lparr>rs_task_states := states\<rparr>)))"

definition block_escalated_tasks :: "plan \<Rightarrow> string \<Rightarrow> incident_store \<Rightarrow> run_state \<Rightarrow> string list \<times> run_state" where
  "block_escalated_tasks p i s st = (case find (\<lambda>k. ic_id k = i) (is_incidents s) of
     None \<Rightarrow> ([], st) | Some k \<Rightarrow> fold (block_one p) (ic_tasks k) ([], st))"

section \<open>The bound (R23)\<close>

definition repeat_diagnosis :: "(pyval \<Rightarrow> string) \<Rightarrow> incident \<Rightarrow> nat \<Rightarrow> string \<Rightarrow> string" where
  "repeat_diagnosis rp k n reason = ''The same stop came back after the on-call closed it '' @ dec_nat n
     @ '' times (signature '' @ repeat_signature rp k @ ''; attempt '' @ dec_nat (n + 1)
     @ ''). Reason on record now: '' @ or_else reason (ic_summary k)"

definition repeat_escalation :: "(pyval \<Rightarrow> string) \<Rightarrow> incident_store \<Rightarrow> incident \<Rightarrow> string \<Rightarrow> pyval dict" where
  "repeat_escalation rp s k reason =
     (let shut = closures_since_her_answer rp s k;
          question = question_for (stop_kind_of rp k) (or_else (join '', '' (ic_tasks k)) ''the run'') in
      [(''diagnosis'', PStr (repeat_diagnosis rp k (length shut) reason)), (''repaired'', what_each_closure_did s shut),
       (''decision_needed'', PStr (fst question)), (''recommendation'', PStr (snd question)), (''scope'', PStr ''task'')])"

definition bound_repeated_stop :: "(rat \<Rightarrow> string) \<Rightarrow> (pyval \<Rightarrow> string) \<Rightarrow> plan \<Rightarrow> string \<Rightarrow> string \<Rightarrow> string
    \<Rightarrow> incident_store \<Rightarrow> run_state \<Rightarrow> bool \<times> incident_store \<times> run_state" where
  "bound_repeated_stop fl rp p i at_time reason s st = (case validate_store s of
     Inl _ \<Rightarrow> (False, s, st)
   | Inr _ \<Rightarrow> (case find (\<lambda>k. ic_id k = i) (is_incidents s) of
       None \<Rightarrow> (False, s, st)
     | Some k \<Rightarrow>
         if length (closures_since_her_answer rp s k) < MAX_REPEATED_STOPS then (False, s, st)
         else (case escalate_to_owner fl rp i ''RECOVERY_EXHAUSTED''
             (repeat_diagnosis rp k (length (closures_since_her_answer rp s k)) reason) at_time
             (repeat_escalation rp s k reason) s of
           (Escalated, s') \<Rightarrow> (True, s', if holds_its_tasks rp k then snd (block_escalated_tasks p i s' st) else st)
         | (_, s') \<Rightarrow> (False, s', st))))"

section \<open>The door\<close>

definition stop_base :: "string \<Rightarrow> string \<Rightarrow> string \<Rightarrow> string list \<Rightarrow> string \<Rightarrow> string" where
  "stop_base run_id kind change_id affected key =
     run_id @ '':'' @ kind @ '':'' @ or_else change_id ''-'' @ '':'' @ or_else (join '':'' affected) ''run''
     @ (if key = [] then [] else CHR '':'' # key)"

definition same_stop :: "string \<Rightarrow> incident \<Rightarrow> bool" where
  "same_stop base k \<longleftrightarrow> ic_signal_id k = base \<or> startswith (ic_signal_id k) (base @ ''#'')"

record stop_call =
  sc_kind :: string
  sc_phase :: string
  sc_reason :: string
  sc_summary :: string
  sc_affected :: "string list"
  sc_context :: string
  sc_change :: string
  sc_system :: "pyval dict"
  sc_events :: "pyval dict list"
  sc_key :: string

definition stop_signal :: "string list \<Rightarrow> string \<Rightarrow> nat \<Rightarrow> stop_call \<Rightarrow> incident_signal" where
  "stop_signal route_names run_id n c =
     \<lparr>sg_id = stop_base run_id (sc_kind c) (sc_change c) (sc_affected c) (sc_key c) @ ''#'' @ dec_nat n,
      sg_code = STOP_CODE_PREFIX @ sc_phase c, sg_surface = RUNTIME,
      sg_summary = sc_summary c @ '' The on-call looks first: what it can repair it repairs; a decision that is yours comes to you with its diagnosis. Reason on record: '' @ sc_reason c,
      sg_tasks = sc_affected c, sg_operation = Some '''', sg_outcome = NO_SIDE_EFFECT,
      sg_state = dict_of ([(''run_id'', PStr run_id), (''phase'', PStr (sc_phase c)), (''stop_kind'', PStr (sc_kind c)),
        (''plan_change_id'', PStr (sc_change c)), (''escalation_route'', PList (map PStr route_names))] @ sc_system c),
      sg_events = sc_events c, sg_context_task = sc_context c\<rparr>"

definition ensured :: "incident \<Rightarrow> string \<Rightarrow> incident_store \<Rightarrow> (unit \<times> incident_store) result" where
  "ensured k at_time s = (if ic_phase k \<in> {DEGRADED, AUTO_RECOVERY_FAILED}
     then bindE (ensure_pipeline_engineer (ic_id k) at_time s) (\<lambda>(_, s'). Inr ((), s')) else Inr ((), s))"

text \<open>What a call leaves behind: the ticket it filed or the error, the store and the run state.\<close>

definition file_stop :: "(rat \<Rightarrow> string) \<Rightarrow> (string \<Rightarrow> string) \<Rightarrow> (pyval \<Rightarrow> string) \<Rightarrow> string list \<Rightarrow> plan \<Rightarrow> stop_call \<Rightarrow> string
    \<Rightarrow> incident_store \<Rightarrow> run_state \<Rightarrow> string result \<times> incident_store \<times> run_state" where
  "file_stop fl sha rp route_names p c at_time s st = (case validate_store s of
     Inl e \<Rightarrow> (Inl e, s, st)
   | Inr _ \<Rightarrow>
     (let same = filter (same_stop (stop_base (rs_run_id st) (sc_kind c) (sc_change c) (sc_affected c) (sc_key c))) (is_incidents s) in
      case find is_open (rev same) of
        Some k \<Rightarrow> (case ensured k at_time s of
          Inl e \<Rightarrow> (Inl e, s, st) | Inr (_, s') \<Rightarrow> (Inr (ic_id k), s', st))
      | None \<Rightarrow> (case open_incident fl sha (stop_signal route_names (rs_run_id st) (length same + 1) c) at_time 2 15 300 s of
          Inl e \<Rightarrow> (Inl e, s, st)
        | Inr (k, s1) \<Rightarrow> (case ensured k at_time s1 of
            Inl e \<Rightarrow> (Inl e, s1, st)
          | Inr (_, s2) \<Rightarrow> (case bound_repeated_stop fl rp p (ic_id k) at_time (sc_reason c) s2 st of
              (_, s3, st') \<Rightarrow> (Inr (ic_id k), s3, st'))))))"

text \<open>
  \<^verbatim>\<open>_journal\<close> never fails; \<^verbatim>\<open>stop_run\<close> never fails either. The last component is what \<^verbatim>\<open>last_error\<close>
  becomes. \<^verbatim>\<open>msg\<close> is the text of an exception.
\<close>

definition journal_stop :: "string \<Rightarrow> string \<Rightarrow> string list \<Rightarrow> pyval dict \<Rightarrow> string \<Rightarrow> run_state \<Rightarrow> run_state" where
  "journal_stop now event affected detail at_time st = (case append_resilience_event now st
     (event, Some at_time, (case affected of [] \<Rightarrow> None | t # _ \<Rightarrow> Some t), None, detail) of Inl _ \<Rightarrow> st | Inr st' \<Rightarrow> st')"

definition stop_run :: "(rat \<Rightarrow> string) \<Rightarrow> (string \<Rightarrow> string) \<Rightarrow> (pyval \<Rightarrow> string) \<Rightarrow> (exn \<Rightarrow> string) \<Rightarrow> string \<Rightarrow> string list \<Rightarrow> plan \<Rightarrow> stop_call
    \<Rightarrow> string \<Rightarrow> incident_store \<Rightarrow> run_state \<Rightarrow> string option \<times> incident_store \<times> run_state \<times> string option" where
  "stop_run fl sha rp msg now route_names p call at_time s st =
     (let affected = first_occurrences (filter (\<lambda>t. t \<noteq> []) (sc_affected call));
          c = call\<lparr>sc_affected := affected\<rparr>;
          held = [(''task_ids'', PList (map PStr affected)), (''reason'', PStr (take 600 (sc_reason c)))];
          kind = [(''stop_kind'', PStr (sc_kind c))];
          error_now = (if sc_reason c = [] then None else Some (sc_reason c)) in
      case file_stop fl sha rp route_names p c at_time s st of
        (Inl e, s', st') \<Rightarrow> (None, s', journal_stop now ''run_stop_unfiled'' affected
          (kind @ (''error'', PStr (msg e)) # held) at_time st', error_now)
      | (Inr i, s', st') \<Rightarrow> (Some i, s', journal_stop now ''run_stop_filed'' affected
          (kind @ (''incident_id'', PStr i) # held) at_time st', error_now))"

end
