(* ===== verification/TicketLane.thy ===== *)
theory TicketLane
  imports StopDoor
begin

text \<open>
  Who handles a ticket (\<^verbatim>\<open>engineer_reservation.py\<close>): what open tickets pause, the sweep that routes
  waiting tickets to the on-call, why a run is stranded, and the choice of the ticket the next engineer
  is reserved for. \<^verbatim>\<open>alive\<close> tells a living dispatcher by its process id.
\<close>

section \<open>Open tickets\<close>

definition open_tickets :: "incident_store \<Rightarrow> incident list" where
  "open_tickets s = filter is_open (is_incidents s)"

text \<open>The loop stops at the first ticket that blocks the run: then every task waits.\<close>

fun paused_from :: "string list \<Rightarrow> incident list \<Rightarrow> string list \<Rightarrow> string list" where
  "paused_from names [] paused = paused"
| "paused_from names (k # ks) paused =
     (if ic_blocks_run k = Some True then names
      else paused_from names ks (paused @ filter (\<lambda>t. t \<in> set names) (ic_tasks k)))"

definition tasks_paused_by_incidents :: "plan \<Rightarrow> incident_store \<Rightarrow> string list" where
  "tasks_paused_by_incidents p s = paused_from (map t_id (pl_tasks p)) (open_tickets s) []"

definition open_pipeline_engineer_incident :: "incident_store \<Rightarrow> incident option" where
  "open_pipeline_engineer_incident s = find (\<lambda>k. ic_phase k = PIPELINE_ENGINEER) (open_tickets s)"

definition needs_lane :: "incident \<Rightarrow> bool" where
  "needs_lane k \<longleftrightarrow> ic_class k \<in> set ENGINEER_LANE_CLASSES \<and> (ic_phase k = AUTO_RECOVERY_FAILED
     \<or> ic_phase k = DEGRADED \<and> (ic_runbook_id k = None \<or> ic_class k \<in> set ADVISORY_INCIDENT_CLASSES \<or> is_stop k))"

text \<open>A ticket that waits for her answer (\<^verbatim>\<open>_waiting\<close> and \<^verbatim>\<open>_tickets_holding\<close> of \<^verbatim>\<open>owner_answers.py\<close>).\<close>

definition waits_for_her :: "incident \<Rightarrow> bool" where
  "waits_for_her k \<longleftrightarrow> is_open k \<and> ic_phase k \<in> {ESCALATE_TO_USER, PIPELINE_ENGINEER}"

definition tickets_holding :: "incident_store \<Rightarrow> string \<Rightarrow> incident list" where
  "tickets_holding s t = filter (\<lambda>k. waits_for_her k
     \<and> (t \<in> set (ic_tasks k) \<or> ic_tasks k = [] \<and> ic_context_task k = t)) (is_incidents s)"

section \<open>The sweep\<close>

text \<open>
  The loop of \<^verbatim>\<open>route_waiting_tickets\<close> over the open tickets. Settling lost creates and filing tickets
  for orphaned tasks, which follow it, are not part of it here.
\<close>

definition try_ensure :: "string \<Rightarrow> string \<Rightarrow> incident_store \<Rightarrow> incident_store" where
  "try_ensure i at_time s = (case ensure_pipeline_engineer i at_time s of Inl _ \<Rightarrow> s | Inr (_, s') \<Rightarrow> s')"

definition sweep_ticket :: "(string \<Rightarrow> string) \<Rightarrow> string \<Rightarrow> incident \<Rightarrow> incident_store \<Rightarrow> incident_store" where
  "sweep_ticket sha at_time k s =
     (if ic_phase k = DEGRADED \<and> \<not> needs_lane k \<and> ic_class k \<in> set ENGINEER_LANE_CLASSES \<and> ic_runbook_id k \<noteq> None
      then (case attempt_known_recovery sha (ic_id k) at_time ''reservation-sweep'' s of
          (Inr AUTO_RECOVERY_FAILED, s') \<Rightarrow> try_ensure (ic_id k) at_time s' | (_, s') \<Rightarrow> s')
      else if needs_lane k then try_ensure (ic_id k) at_time s else s)"

definition route_waiting_tickets :: "(string \<Rightarrow> string) \<Rightarrow> string \<Rightarrow> incident_store \<Rightarrow> incident_store" where
  "route_waiting_tickets sha at_time s = (case validate_store s of Inl _ \<Rightarrow> s
     | Inr _ \<Rightarrow> fold (sweep_ticket sha at_time) (open_tickets s) s)"

section \<open>Stranded runs\<close>

definition RELAYABLE_STATUSES :: "string list" where
  "RELAYABLE_STATUSES = [''CREATE_REQUESTED'', ''CREATED'', ''PREPARING'', ''PREPARED'']"

definition RESERVABLE_TASK_STATES :: "string list" where
  "RESERVABLE_TASK_STATES = [''READY'', ''IMPLEMENTED'', ''REVISION_REQUIRED'']"

definition is_pending :: "pyval dict \<Rightarrow> bool" where
  "is_pending d \<longleftrightarrow> get d ''status'' \<in> set (map PStr PENDING_STATUSES)"

definition held_tasks :: "incident_store \<Rightarrow> string list" where
  "held_tasks s = concat (map ic_tasks (open_tickets s))"

definition change_requester :: "(pyval \<Rightarrow> string) \<Rightarrow> run_state \<Rightarrow> string" where
  "change_requester rp st = (if rs_active_plan_change_id st = None then ''''
     else (case active_plan_change st None of Inl _ \<Rightarrow> '''' | Inr (_, d) \<Rightarrow> text_field rp d ''requester_task_id''))"

definition orphan_blocked_tasks :: "(pyval \<Rightarrow> string) \<Rightarrow> incident_store \<Rightarrow> run_state \<Rightarrow> string list \<Rightarrow> string list" where
  "orphan_blocked_tasks rp s st names = filter (\<lambda>t. map_of (rs_task_states st) t = Some ''BLOCKED''
     \<and> t \<notin> set (held_tasks s) \<and> t \<noteq> change_requester rp st) names"

definition engineer_session_pending :: "run_state \<Rightarrow> bool" where
  "engineer_session_pending st \<longleftrightarrow> (\<exists>d \<in> set (rs_worker_sessions st).
     get d ''kind'' = PStr ''pipeline_engineer'' \<and> is_pending d)"

definition engineer_needed :: "(pyval \<Rightarrow> string) \<Rightarrow> incident_store \<Rightarrow> run_state \<Rightarrow> bool" where
  "engineer_needed rp s st \<longleftrightarrow> \<not> engineer_session_pending st \<and>
     ((\<exists>k \<in> set (open_tickets s). ic_phase k = PIPELINE_ENGINEER \<or> needs_lane k)
      \<or> orphan_blocked_tasks rp s st (keys (rs_task_states st)) \<noteq> [])"

definition waiting_for_owner :: "incident_store \<Rightarrow> run_state \<Rightarrow> bool" where
  "waiting_for_owner s st \<longleftrightarrow> ''BLOCKED'' \<in> snd ` set (rs_task_states st)
     \<or> (\<exists>k \<in> set (open_tickets s). ic_phase k = ESCALATE_TO_USER)"

definition reservable_work :: "bool \<Rightarrow> rat \<Rightarrow> incident_store \<Rightarrow> run_state \<Rightarrow> bool" where
  "reservable_work patch_pending clock s st \<longleftrightarrow> \<not> patch_pending
     \<and> (case rs_rate_limit_until st of None \<Rightarrow> True | Some b \<Rightarrow> of_int b \<le> clock)
     \<and> (\<forall>k \<in> set (open_tickets s). ic_blocks_run k \<noteq> Some True)
     \<and> (\<exists>(t, v) \<in> set (rs_task_states st). v \<in> set RESERVABLE_TASK_STATES \<and> t \<notin> set (held_tasks s))"

definition lost_create :: "(pyval \<Rightarrow> string) \<Rightarrow> pyval dict \<Rightarrow> bool" where
  "lost_create rp d \<longleftrightarrow> text_field rp d ''thread_id'' = ''''
     \<and> get d ''status'' \<notin> set (map PStr RELAYABLE_STATUSES) \<and> get d ''status'' \<noteq> PStr ''RELAYING''"

definition stalled_reservation :: "(pyval \<Rightarrow> string) \<Rightarrow> (pyval \<Rightarrow> bool) \<Rightarrow> run_state \<Rightarrow> string list \<Rightarrow> bool" where
  "stalled_reservation rp alive st held \<longleftrightarrow> (\<exists>d \<in> set (rs_worker_sessions st).
     is_pending d \<and> \<not> alive (get d ''automatic_dispatch_pid'')
     \<and> \<not> (lost_create rp d \<and> get d ''kind'' \<noteq> PStr ''pipeline_engineer'' \<and> text_field rp d ''task_id'' \<in> set held))"

definition dead_session_tokens :: "(pyval \<Rightarrow> string) \<Rightarrow> (pyval \<Rightarrow> bool) \<Rightarrow> run_state \<Rightarrow> string list" where
  "dead_session_tokens rp alive st = map (session_token rp) (filter (\<lambda>d. is_pending d
     \<and> get d ''status'' \<notin> set (map PStr RELAYABLE_STATUSES) \<and> text_field rp d ''thread_id'' \<noteq> ''''
     \<and> \<not> alive (get d ''automatic_dispatch_pid'')) (rs_worker_sessions st))"

definition stranded_reason :: "(pyval \<Rightarrow> string) \<Rightarrow> (pyval \<Rightarrow> bool) \<Rightarrow> bool \<Rightarrow> rat \<Rightarrow> incident_store \<Rightarrow> run_state \<Rightarrow> string option" where
  "stranded_reason rp alive patch_pending clock s st =
     (if patch_pending then Some ''a proven runtime patch waits to be installed''
      else if engineer_needed rp s st then Some ''on-call ticket without an engineer''
      else if rs_status st \<notin> {''READY'', ''IDLE'', ''''} \<and> \<not> (\<exists>d \<in> set (rs_worker_sessions st). is_pending d)
        \<and> reservable_work patch_pending clock s st then Some ''reservable work without a session''
      else if stalled_reservation rp alive st (held_tasks s) then Some ''pending session without a live dispatcher''
      else None)"

section \<open>Lost engineers\<close>

definition anchor_task :: "plan \<Rightarrow> run_state \<Rightarrow> incident \<Rightarrow> string result" where
  "anchor_task p st k = (case filter (\<lambda>t. t \<in> set (map t_id (pl_tasks p))) (ic_tasks k) of
     t # _ \<Rightarrow> Inr t
   | [] \<Rightarrow>
       if ic_context_task k \<in> set (map t_id (pl_tasks p)) then Inr (ic_context_task k)
       else (case pl_tasks p of [] \<Rightarrow> Inl (IndexError ''tuple index out of range'')
         | first # _ \<Rightarrow> Inr (case find (\<lambda>t. map_of (rs_task_states st) (t_id t) \<noteq> Some ''VERIFIED'') (pl_tasks p) of
             Some t \<Rightarrow> t_id t | None \<Rightarrow> t_id first)))"

definition MAX_LOST_ENGINEERS :: nat where "MAX_LOST_ENGINEERS = 2"

definition LOST_ENGINEER_REASONS :: "string list" where
  "LOST_ENGINEER_REASONS = [''crash reconciliation observed pipeline engineer'',
     ''lost pipeline engineer: create in doubt, dispatcher gone'', ''lost pipeline engineer: its turn failed'',
     ''lost pipeline engineer: its answer was refused'']"

definition lost_engineers :: "(pyval \<Rightarrow> string) \<Rightarrow> run_state \<Rightarrow> string \<Rightarrow> pyval dict list" where
  "lost_engineers rp st i = filter (\<lambda>d. get d ''kind'' = PStr ''pipeline_engineer'' \<and> text_field rp d ''incident_id'' = i
     \<and> (\<exists>r \<in> set LOST_ENGINEER_REASONS. startswith (text_field rp d ''failure_reason'') r)) (rs_worker_sessions st)"

text \<open>\<^verbatim>\<open>int(x)\<close>: of a text, decimal digits with an optional sign, single underscores between digits and outer white space.\<close>

definition digits_of :: "string \<Rightarrow> int result" where
  "digits_of ds = (if list_all (\<lambda>w. w \<noteq> [] \<and> list_all is_digit w) (split_on (CHR ''_'') ds)
     then Inr (int (undec (filter is_digit ds) 0)) else Inl (ValueError ''invalid literal for int()'' []))"

definition py_int :: "pyval \<Rightarrow> int result" where
  "py_int v = (case v of
     PInt n \<Rightarrow> Inr n
   | PBool b \<Rightarrow> Inr (if b then 1 else 0)
   | PFloat q \<Rightarrow> Inr (if q < 0 then - \<lfloor>- q\<rfloor> else \<lfloor>q\<rfloor>)
   | PStr w \<Rightarrow> (case strip w of
       c # ds \<Rightarrow> if c = CHR ''-'' then bindE (digits_of ds) (\<lambda>n. Inr (- n))
         else if c = CHR ''+'' then digits_of ds else digits_of (c # ds)
     | [] \<Rightarrow> Inl (ValueError ''invalid literal for int()'' []))
   | _ \<Rightarrow> Inl (TypeError ''int() argument must be a string or a number''))"

definition require_key :: "pyval dict \<Rightarrow> string \<Rightarrow> unit result" where
  "require_key d key = (if key \<in> set (keys d) then Inr () else Inl (KeyError key))"

text \<open>\<^verbatim>\<open>_append_event\<close> of \<^verbatim>\<open>lifecycle_base.py\<close>.\<close>

definition lifecycle_entry :: "(pyval \<Rightarrow> string) \<Rightarrow> int \<Rightarrow> string \<Rightarrow> pyval dict \<Rightarrow> int \<Rightarrow> string \<Rightarrow> string option \<Rightarrow> pyval dict" where
  "lifecycle_entry rp n event d attempt at_time detail = [(''sequence'', PInt n), (''event'', PStr event),
     (''operation_id'', PStr (str_of rp (get d ''operation_id''))), (''task_id'', PStr (str_of rp (get d ''task_id''))),
     (''attempt'', PInt attempt), (''reservation_token'', PStr (str_of rp (get d ''reservation_token''))),
     (''thread_id'', get d ''thread_id''), (''relay_owner_thread_id'', get d ''relay_owner_thread_id''),
     (''turn_id'', get d ''turn_id''), (''client_user_message_id'', get d ''client_user_message_id''),
     (''at'', PStr at_time), (''detail'', opt_text detail)]"

definition append_event :: "(pyval \<Rightarrow> string) \<Rightarrow> string \<Rightarrow> pyval dict \<Rightarrow> string \<Rightarrow> string option \<Rightarrow> run_state \<Rightarrow> run_state result" where
  "append_event rp event d at_time detail st =
     bindE (forE (require_key d) [''operation_id'', ''task_id'', ''attempt'', ''reservation_token'']) (\<lambda>_.
     bindE (py_int (get d ''attempt'')) (\<lambda>attempt.
     (let n = rs_lifecycle_journal_sequence st + 1 in
      Inr (st\<lparr>rs_lifecycle_journal_sequence := n, rs_lifecycle_journal := rs_lifecycle_journal st
        @ [PDict (lifecycle_entry rp n event d attempt at_time detail)]\<rparr>))))"

definition last_chars :: "nat \<Rightarrow> string \<Rightarrow> string" where
  "last_chars n w = drop (length w - n) w"

definition lost_diagnosis :: "(pyval \<Rightarrow> string) \<Rightarrow> string \<Rightarrow> pyval dict list \<Rightarrow> string" where
  "lost_diagnosis rp i lost =
     (let tail = (case find (\<lambda>d. truthy (get d ''final_message_tail'')) (rev lost) of
          None \<Rightarrow> '''' | Some d \<Rightarrow> str_of rp (get d ''final_message_tail'')) in
      dec_nat (length lost) @ '' on-call engineers for ticket '' @ i @ '' ended without an answer the runtime could take: their turns failed, their answers were refused, or their dispatcher died and the server showed the turn over. A third would meet the same end.''
      @ (if tail = [] then [] else '' The last engineer's own words: '' @ last_chars 800 tail))"

definition lost_session :: "(pyval \<Rightarrow> string) \<Rightarrow> pyval dict \<Rightarrow> pyval" where
  "lost_session rp d = PDict ([(''session'', get d ''reservation_token''), (''thread_id'', get d ''thread_id''),
     (''failure'', PStr (take 600 (text_field rp d ''failure_reason'')))]
     @ (if truthy (get d ''final_message_tail'')
        then [(''final_message_tail'', PStr (last_chars 600 (str_of rp (get d ''final_message_tail''))))] else []))"

definition lost_escalation :: "(pyval \<Rightarrow> string) \<Rightarrow> string \<Rightarrow> pyval dict list \<Rightarrow> pyval dict" where
  "lost_escalation rp i lost = [(''diagnosis'', PStr (lost_diagnosis rp i lost)), (''repaired'', PList (map (lost_session rp) lost)),
     (''decision_needed'', PStr ''whether the ticket's tasks go back to work, and how''),
     (''recommendation'', PStr ''read the engineers' threads and the dispatcher logs; the failure is in how the on-call's answer is taken, not in the ticket's own fault''),
     (''scope'', PStr ''task'')]"

definition hand_lost_engineers_to_owner :: "(rat \<Rightarrow> string) \<Rightarrow> (pyval \<Rightarrow> string) \<Rightarrow> plan \<Rightarrow> string \<Rightarrow> incident
    \<Rightarrow> incident_store \<Rightarrow> run_state \<Rightarrow> (bool \<times> incident_store \<times> run_state) result" where
  "hand_lost_engineers_to_owner fl rp p now k s st =
     (let i = ic_id k; lost = lost_engineers rp st i in
      if length lost < MAX_LOST_ENGINEERS then Inr (False, s, st)
      else (case escalate_to_owner fl rp i ''RECOVERY_EXHAUSTED'' (lost_diagnosis rp i lost) now (lost_escalation rp i lost) s of
        (Refused, s') \<Rightarrow> Inr (False, s', st)
      | (_, s') \<Rightarrow>
          (let st' = (if holds_its_tasks rp k then snd (block_escalated_tasks p i s' st) else st) in
           bindE (append_event rp ''pipeline_engineer_lost_twice'' (last lost) now (Some (i @ '' -> owner'')) st') (\<lambda>st''.
           Inr (True, s', st'')))))"

text \<open>
  The inner loop of \<^verbatim>\<open>_reserve_pipeline_engineer_in_state\<close>: tickets whose engineers were lost twice are
  handed up, the first other one in the lane is taken. \<^verbatim>\<open>None\<close> is a loop that does not end.
\<close>

partial_function (option) lane_ticket :: "(rat \<Rightarrow> string) \<Rightarrow> (pyval \<Rightarrow> string) \<Rightarrow> plan \<Rightarrow> string
    \<Rightarrow> incident_store \<Rightarrow> run_state \<Rightarrow> (incident option \<times> incident_store \<times> run_state) result option" where
  "lane_ticket fl rp p now s st = (case open_pipeline_engineer_incident s of
     None \<Rightarrow> Some (Inr (None, s, st))
   | Some k \<Rightarrow> (case hand_lost_engineers_to_owner fl rp p now k s st of
       Inl e \<Rightarrow> Some (Inl e)
     | Inr (handed, s', st') \<Rightarrow> if handed then lane_ticket fl rp p now s' st' else Some (Inr (Some k, s', st'))))"

definition engineer_ticket :: "(rat \<Rightarrow> string) \<Rightarrow> (pyval \<Rightarrow> string) \<Rightarrow> plan \<Rightarrow> string
    \<Rightarrow> incident_store \<Rightarrow> run_state \<Rightarrow> (incident option \<times> incident_store \<times> run_state) result option" where
  "engineer_ticket fl rp p now s st = (if engineer_session_pending st then Some (Inr (None, s, st))
     else (case validate_store s of Inl e \<Rightarrow> Some (Inl e) | Inr _ \<Rightarrow> lane_ticket fl rp p now s st))"

end
