(* ===== verification/TicketRuns.thy ===== *)
theory TicketRuns
  imports TicketLane
begin

text \<open>
  What becomes of a ticket: an escalation and the tasks it holds, the sweep that leaves no ticket
  waiting for the on-call outside the lane, and the end of the loop that picks the engineer's ticket.
\<close>

section \<open>Changes of one ticket in a sound store\<close>

lemma find_after_change:
  assumes ok: "store_ok s" and f: "find_incident s i = Inr k" and id: "ic_id k' = ic_id k" and j: "j \<noteq> i"
  shows "find_incident (change k' ev t d s) j = find_incident s j"
proof -
  have k: "ic_id k = i" using find_incidentD [OF f] by simp
  have "filter (\<lambda>m. ic_id m = j) (map (\<lambda>m. if ic_id m = ic_id k' then k' else m) xs) = filter (\<lambda>m. ic_id m = j) xs" for xs
    using id k j by (induction xs) auto
  then show ?thesis by (simp add: find_incident_def)
qed

lemma change_same_ids: "map ic_id (is_incidents (change k' ev t d s)) = map ic_id (is_incidents s)"
  by (simp add: change_ids del: map_map)

lemma ensure_works:
  assumes ok: "store_ok s" and f: "find_incident s i = Inr k" and n: "needs_lane k"
  shows "\<exists>pk k' s'. ensure_pipeline_engineer i t s = Inr (pk, s') \<and> store_ok s' \<and> find_incident s' i = Inr k'
    \<and> ic_phase k' = PIPELINE_ENGINEER \<and> (\<forall>j. j \<noteq> i \<longrightarrow> find_incident s' j = find_incident s j)
    \<and> map ic_id (is_incidents s') = map ic_id (is_incidents s) \<and> is_signatures s' = is_signatures s
    \<and> (\<forall>j. told (is_journal s') ''escalation_resolved_by_user'' j = told (is_journal s) ''escalation_resolved_by_user'' j)
    \<and> k' = k\<lparr>ic_phase := PIPELINE_ENGINEER, ic_updated_at := t\<rparr>
    \<and> is_incidents s' = map (\<lambda>m. if ic_id m = i then k' else m) (is_incidents s)"
proof -
  note dis = store_okD(2) [OF ok]
  have k: "ic_id k = i" using find_incidentD [OF f] by simp
  obtain k1 s1 where fr: "failed_recovery t k s = (k1, s1)" by force
  have 1: "store_ok s1 \<and> find_incident s1 i = Inr k1 \<and> ic_phase k1 = AUTO_RECOVERY_FAILED \<and> ic_class k1 = ic_class k
      \<and> (\<forall>j. j \<noteq> i \<longrightarrow> find_incident s1 j = find_incident s j) \<and> map ic_id (is_incidents s1) = map ic_id (is_incidents s)
      \<and> is_signatures s1 = is_signatures s
      \<and> (\<forall>j. told (is_journal s1) ''escalation_resolved_by_user'' j = told (is_journal s) ''escalation_resolved_by_user'' j)
      \<and> (k1 = k \<or> k1 = set_phase AUTO_RECOVERY_FAILED t k)
      \<and> (is_incidents s1 = is_incidents s \<or> is_incidents s1 = map (\<lambda>m. if ic_id m = i then k1 else m) (is_incidents s))"
  proof (cases "ic_phase k = DEGRADED")
    case True
    with n have "needs_engineer k" by (auto simp: needs_lane_def needs_engineer_def is_stop_def)
    with True fr obtain d where s1: "k1 = set_phase AUTO_RECOVERY_FAILED t k" "s1 = change k1 ''auto_recovery_unavailable'' t d s"
      by (auto simp: failed_recovery_def)
    have id: "ic_id k1 = ic_id k" by (simp add: s1(1) set_phase_def)
    have "store_ok s1" unfolding s1(2) by (rule change_same [OF ok f]) (simp add: s1(1) set_phase_def same_recovery_def True)
    moreover have "map ic_id (is_incidents s1) = map ic_id (is_incidents s)" unfolding s1(2) by (rule change_same_ids)
    moreover have "is_incidents s1 = map (\<lambda>m. if ic_id m = i then k1 else m) (is_incidents s)" using id k by (simp add: s1(2))
    ultimately show ?thesis using change_twice [OF f dis id] find_after_change [OF ok f id] s1
      by (auto simp: set_phase_def change_told simp del: change_fields(4))
  next
    case False
    with n have "ic_phase k = AUTO_RECOVERY_FAILED" by (auto simp: needs_lane_def)
    with fr ok f show ?thesis by (auto simp: failed_recovery_def)
  qed
  define k' where "k' = set_phase PIPELINE_ENGINEER t k1"
  define s' where "s' = change k' ''pipeline_engineer_requested'' t '''' s1"
  have id: "ic_id k' = ic_id k1" and f1: "find_incident s1 i = Inr k1" using 1 by (simp_all add: k'_def set_phase_def)
  have ok': "store_ok s'" unfolding s'_def by (rule change_same [of s1 i k1]) (use 1 in \<open>simp_all add: k'_def set_phase_def same_recovery_def\<close>)
  obtain pk where "with_package k' s' = Inr (pk, s')" by (auto simp: with_package_def package_of_def)
  moreover have "ic_phase k \<notin> {PIPELINE_ENGINEER, RESOLVED}" using n by (auto simp: needs_lane_def)
  ultimately have "ensure_engineer_body i t s = Inr (pk, s')"
    using f fr 1 by (simp add: ensure_engineer_body_def k'_def s'_def)
  then have "ensure_pipeline_engineer i t s = Inr (pk, s')"
    using ok ok' by (simp add: ensure_pipeline_engineer_def transaction_Inr store_ok_valid)
  moreover have "find_incident s' i = Inr k'"
    unfolding s'_def by (rule change_twice [OF f1 store_okD(2) id]) (use 1 in simp)
  moreover have "find_incident s' j = find_incident s j" if "j \<noteq> i" for j
    using find_after_change [OF _ f1 id that] 1 that by (simp add: s'_def)
  moreover have "map ic_id (is_incidents s') = map ic_id (is_incidents s)" using 1 by (simp only: s'_def change_same_ids)
  moreover have "is_signatures s' = is_signatures s" using 1 by (simp add: s'_def)
  moreover have "is_incidents s' = map (\<lambda>m. if ic_id m = i then k' else m) (is_incidents s)"
  proof -
    have i: "ic_id k' = i" "ic_id k1 = i" using id find_incidentD [OF f1] by simp_all
    then have "is_incidents s' = map (\<lambda>m. if ic_id m = i then k' else m) (is_incidents s1)" by (simp add: s'_def)
    moreover have "map (\<lambda>m. if ic_id m = i then k' else m) (map (\<lambda>m. if ic_id m = i then k1 else m) xs)
        = map (\<lambda>m. if ic_id m = i then k' else m) xs" for xs
      using i by (induction xs) auto
    moreover have "is_incidents s1 = is_incidents s \<or> is_incidents s1 = map (\<lambda>m. if ic_id m = i then k1 else m) (is_incidents s)"
      using 1 by blast
    ultimately show ?thesis by (elim disjE) (simp_all only:)
  qed
  moreover have "k' = k\<lparr>ic_phase := PIPELINE_ENGINEER, ic_updated_at := t\<rparr>" using 1 by (auto simp: k'_def set_phase_def)
  moreover have "ic_phase k' = PIPELINE_ENGINEER" by (simp add: k'_def set_phase_def)
  moreover have "\<forall>j. told (is_journal s') ''escalation_resolved_by_user'' j = told (is_journal s) ''escalation_resolved_by_user'' j"
    using 1 by (simp add: s'_def change_told)
  ultimately show ?thesis using ok' by blast
qed

section \<open>The sweep\<close>

text \<open>One ticket of the sweep: the others stay, and it does not wait for the lane afterwards.\<close>

definition swept :: "string \<Rightarrow> incident \<Rightarrow> incident_store \<Rightarrow> incident_store \<Rightarrow> bool" where
  "swept i k s s' \<longleftrightarrow> store_ok s' \<and> map ic_id (is_incidents s') = map ic_id (is_incidents s)
     \<and> (\<forall>j. j \<noteq> i \<longrightarrow> find_incident s' j = find_incident s j)
     \<and> (\<exists>k'. find_incident s' i = Inr k' \<and> \<not> needs_lane k' \<and> (needs_lane k \<longrightarrow> ic_phase k' = PIPELINE_ENGINEER))"

lemma try_ensure_swept:
  assumes ok: "store_ok s" and f: "find_incident s i = Inr k" and n: "needs_lane k"
  shows "swept i k s (try_ensure i t s)"
proof -
  obtain pk k' s' where e: "ensure_pipeline_engineer i t s = Inr (pk, s')" "store_ok s'" "find_incident s' i = Inr k'"
    "ic_phase k' = PIPELINE_ENGINEER" "\<forall>j. j \<noteq> i \<longrightarrow> find_incident s' j = find_incident s j"
    "map ic_id (is_incidents s') = map ic_id (is_incidents s)"
    using ensure_works [OF ok f n, of t] by blast
  then show ?thesis by (simp add: swept_def try_ensure_def needs_lane_def)
qed

text \<open>The first half of level 1, and the second half where it succeeds.\<close>

lemma begun:
  assumes ok: "store_ok s" and f: "find_incident s i = Inr k" and b: "begin_auto_recovery sha i t w s = Inr (x, s1)"
  shows "store_ok s1 \<and> find_incident s1 i = Inr x \<and> ic_phase x = AUTO_RECOVERY \<and> ic_class x = ic_class k
    \<and> ic_runbook_id x = ic_runbook_id k \<and> ic_code x = ic_code k \<and> ic_id x = i
    \<and> map ic_id (is_incidents s1) = map ic_id (is_incidents s) \<and> (\<forall>j. j \<noteq> i \<longrightarrow> find_incident s1 j = find_incident s j)"
proof -
  have body: "begin_body sha i t w s = Inr (x, s1)" using b by (auto simp: begin_auto_recovery_def transaction_Inr)
  then show ?thesis
  proof (cases rule: begin_cases)
    case (1 k0)
    then have k0: "k0 = k" using f by simp
    have x: "ic_id x = ic_id k" by (simp add: 1(6) k0 recovering_def set_phase_def Let_def)
    define s0 where "s0 = s\<lparr>is_slot := Some \<lparr>sl_incident = i, sl_token = recovery_token sha t k, sl_owner = w\<rparr>\<rparr>"
    have s0: "find_incident s0 j = find_incident s j" "is_incidents s0 = is_incidents s" for j
      by (simp_all add: s0_def find_incident_def)
    have f0: "find_incident s0 i = Inr k" and d0: "distinct (map ic_id (is_incidents s0))"
      using f store_okD(2) [OF ok] s0 by simp_all
    have s1: "s1 = change x ''auto_recovery_started'' t (''attempt '' @ dec_int (ic_attempts x) @ '' of '' @ dec_int (ic_budget x)) s0"
      using 1(7) by (simp add: k0 s0_def)
    have "find_incident s1 i = Inr x" unfolding s1 by (rule change_twice [OF f0 d0 x])
    moreover have "find_incident s1 j = find_incident s j" if j: "j \<noteq> i" for j
    proof -
      have "filter (\<lambda>m. ic_id m = j) (map (\<lambda>m. if ic_id m = ic_id x then x else m) xs) = filter (\<lambda>m. ic_id m = j) xs" for xs
        using x find_incidentD [OF f] j by (induction xs) auto
      then show ?thesis by (simp add: s1 find_incident_def s0)
    qed
    moreover have "map ic_id (is_incidents s1) = map ic_id (is_incidents s)" by (simp only: s1 change_same_ids s0)
    ultimately show ?thesis using begin_ok [OF ok body] find_incidentD [OF f] x
      by (simp add: 1(6) k0 recovering_def set_phase_def Let_def)
  qed
qed

lemma completed:
  assumes ok: "store_ok s" and f: "find_incident s i = Inr k" and b: "complete_auto_recovery i tok good t hc s = Inr (p, s1)"
  shows "\<exists>k'. store_ok s1 \<and> find_incident s1 i = Inr k' \<and> p = ic_phase k' \<and> ic_class k' = ic_class k
    \<and> ic_runbook_id k' = ic_runbook_id k \<and> ic_code k' = ic_code k \<and> p \<in> {RECOVERED, AUTO_RECOVERY_FAILED, DEGRADED}
    \<and> map ic_id (is_incidents s1) = map ic_id (is_incidents s) \<and> (\<forall>j. j \<noteq> i \<longrightarrow> find_incident s1 j = find_incident s j)"
proof -
  have body: "complete_recovery_body i tok good t hc s = Inr (p, s1)"
    using b by (auto simp: complete_auto_recovery_def transaction_Inr)
  then show ?thesis
  proof (cases rule: complete_recovery_cases)
    case (1 k0 k' ev)
    then have k0: "k0 = k" using f by simp
    define s0 where "s0 = s\<lparr>is_slot := None\<rparr>"
    have s0: "find_incident s0 j = find_incident s j" "is_incidents s0 = is_incidents s" for j
      by (simp_all add: s0_def find_incident_def)
    have f0: "find_incident s0 i = Inr k" and d0: "distinct (map ic_id (is_incidents s0))" and id: "ic_id k' = ic_id k"
      using f store_okD(2) [OF ok] s0 1(5) k0 by simp_all
    have s1: "s1 = change k' ev t '''' s0" using 1(4) by (simp add: s0_def)
    have "find_incident s1 i = Inr k'" unfolding s1 by (rule change_twice [OF f0 d0 id])
    moreover have "find_incident s1 j = find_incident s j" if j: "j \<noteq> i" for j
    proof -
      have "filter (\<lambda>m. ic_id m = j) (map (\<lambda>m. if ic_id m = ic_id k' then k' else m) xs) = filter (\<lambda>m. ic_id m = j) xs" for xs
        using id find_incidentD [OF f] j by (induction xs) auto
      then show ?thesis by (simp add: s1 find_incident_def s0)
    qed
    moreover have "map ic_id (is_incidents s1) = map ic_id (is_incidents s)" by (simp only: s1 change_same_ids s0)
    moreover have "p \<in> {RECOVERED, AUTO_RECOVERY_FAILED, DEGRADED}" using 1(13,14) by auto
    ultimately show ?thesis using complete_recovery_ok [OF ok body] 1(10,11,13) k0 by blast
  qed
qed

lemma sweep_ticket_swept:
  assumes ok: "store_ok s" and f: "find_incident s (ic_id k) = Inr k"
  shows "swept (ic_id k) k s (sweep_ticket sha t k s)"
proof (cases "needs_lane k")
  case True
  then show ?thesis using try_ensure_swept [OF ok f True] by (simp add: sweep_ticket_def)
next
  case False
  have same: "swept (ic_id k) k s s" using ok f False by (simp add: swept_def)
  show ?thesis
  proof (cases "ic_phase k = DEGRADED \<and> ic_class k \<in> set ENGINEER_LANE_CLASSES \<and> ic_runbook_id k \<noteq> None")
    case no: False
    then have "sweep_ticket sha t k s = s" using False by (auto simp: sweep_ticket_def)
    then show ?thesis using same by simp
  next
    case yes: True
    obtain r s2 where r: "attempt_known_recovery sha (ic_id k) t ''reservation-sweep'' s = (r, s2)" by force
    have sw: "sweep_ticket sha t k s = (if r = Inr AUTO_RECOVERY_FAILED then try_ensure (ic_id k) t s2 else s2)"
      using yes False r by (simp add: sweep_ticket_def split: sum.splits incident_phase.splits)
    show ?thesis
    proof (cases "begin_auto_recovery sha (ic_id k) t ''reservation-sweep'' s")
      case (Inl e)
      then show ?thesis using sw r same by (auto simp: attempt_known_recovery_def)
    next
      case (Inr y)
      then obtain x s1 where b: "begin_auto_recovery sha (ic_id k) t ''reservation-sweep'' s = Inr (x, s1)" by (cases y) auto
      note 1 = begun [OF ok f b]
      define safe where "safe = (ic_outcome x \<noteq> UNKNOWN \<and> ic_class x \<in> set INFRASTRUCTURE_INCIDENT_CLASSES)"
      define tok where "tok = (case ic_lock_token x of Some t \<Rightarrow> t | None \<Rightarrow> ''None'')"
      define hc where "hc = (if safe then Some (known_check x t) else None)"
      have rs: "(r, s2) = (case complete_auto_recovery (ic_id k) tok safe t hc s1 of Inl e \<Rightarrow> (Inl e, s1) | Inr (p, s'') \<Rightarrow> (Inr p, s''))"
        using r b by (simp add: attempt_known_recovery_def Let_def safe_def tok_def hc_def)
      show ?thesis
      proof (cases "complete_auto_recovery (ic_id k) tok safe t hc s1")
        case (Inl e)
        then show ?thesis using sw rs 1 False by (auto simp: swept_def needs_lane_def)
      next
        case (Inr z)
        then obtain p s3 where c: "complete_auto_recovery (ic_id k) tok safe t hc s1 = Inr (p, s3)" by (cases z) auto
        have f1: "find_incident s1 (ic_id k) = Inr x" and ok1: "store_ok s1" using 1 by simp_all
        obtain k' where k': "store_ok s3" "find_incident s3 (ic_id k) = Inr k'" "p = ic_phase k'" "ic_class k' = ic_class k"
            "ic_runbook_id k' = ic_runbook_id k" "ic_code k' = ic_code k" "p \<in> {RECOVERED, AUTO_RECOVERY_FAILED, DEGRADED}"
            "map ic_id (is_incidents s3) = map ic_id (is_incidents s)" "\<forall>j. j \<noteq> ic_id k \<longrightarrow> find_incident s3 j = find_incident s j"
          using completed [OF ok1 f1 c] 1 by auto
        have rp: "r = Inr p" "s2 = s3" using rs c by auto
        show ?thesis
        proof (cases "p = AUTO_RECOVERY_FAILED")
          case True
          then have "needs_lane k'" using k'(3) by (simp add: needs_lane_def)
          then have "swept (ic_id k) k' s3 (try_ensure (ic_id k) t s3)" by (rule try_ensure_swept [OF k'(1,2)])
          then show ?thesis using k'(8,9) False by (auto simp: sw rp True swept_def)
        next
          case no: False
          then have "\<not> needs_lane k'" using k'(3-7) False yes by (auto simp: needs_lane_def is_stop_def)
          then show ?thesis using k'(1,2,8,9) False no by (auto simp: sw rp swept_def)
        qed
      qed
    qed
  qed
qed

lemma sweep_all:
  assumes "store_ok s" "distinct (map ic_id ks)" "\<forall>k \<in> set ks. find_incident s (ic_id k) = Inr k"
  shows "store_ok (fold (sweep_ticket sha t) ks s)
    \<and> map ic_id (is_incidents (fold (sweep_ticket sha t) ks s)) = map ic_id (is_incidents s)
    \<and> (\<forall>j. j \<notin> ic_id ` set ks \<longrightarrow> find_incident (fold (sweep_ticket sha t) ks s) j = find_incident s j)
    \<and> (\<forall>k \<in> set ks. \<exists>k'. find_incident (fold (sweep_ticket sha t) ks s) (ic_id k) = Inr k' \<and> \<not> needs_lane k'
        \<and> (needs_lane k \<longrightarrow> ic_phase k' = PIPELINE_ENGINEER))"
  using assms
proof (induction ks arbitrary: s)
  case Nil
  then show ?case by simp
next
  case (Cons k ks)
  let ?s = "sweep_ticket sha t k s"
  have sw: "swept (ic_id k) k s ?s" using Cons.prems by (intro sweep_ticket_swept) simp_all
  have ks: "\<forall>m \<in> set ks. ic_id m \<noteq> ic_id k" using Cons.prems(2) by (force simp: image_iff)
  have "\<forall>m \<in> set ks. find_incident ?s (ic_id m) = Inr m"
    using sw ks Cons.prems(3) by (simp add: swept_def)
  moreover have "store_ok ?s" using sw by (simp add: swept_def)
  ultimately have IH: "store_ok (fold (sweep_ticket sha t) ks ?s)
    \<and> map ic_id (is_incidents (fold (sweep_ticket sha t) ks ?s)) = map ic_id (is_incidents ?s)
    \<and> (\<forall>j. j \<notin> ic_id ` set ks \<longrightarrow> find_incident (fold (sweep_ticket sha t) ks ?s) j = find_incident ?s j)
    \<and> (\<forall>k \<in> set ks. \<exists>k'. find_incident (fold (sweep_ticket sha t) ks ?s) (ic_id k) = Inr k' \<and> \<not> needs_lane k'
        \<and> (needs_lane k \<longrightarrow> ic_phase k' = PIPELINE_ENGINEER))"
    using Cons.IH [of ?s] Cons.prems(2) by simp
  moreover have "ic_id k \<notin> ic_id ` set ks" using ks by auto
  ultimately show ?case using sw by (simp add: swept_def)
qed

lemma open_tickets_found:
  assumes ok: "store_ok s"
  shows "distinct (map ic_id (open_tickets s))" "\<forall>k \<in> set (open_tickets s). find_incident s (ic_id k) = Inr k"
  using store_okD(2) [OF ok] find_incident_present [of s] by (simp_all add: open_tickets_def distinct_map_filter)

text \<open>
  C17. No ticket waits outside the lane. After the sweep of any reachable store, no open ticket still
  needs to be routed to the on-call, and every open ticket that needed it is held by the on-call. A
  ticket with a learned repair is tried without a model first.
\<close>

theorem sweep_leaves_none_waiting:
  assumes run: "run_ops (op_step fl sha) empty_store ops = Inr s"
  shows "(\<forall>k \<in> set (open_tickets (route_waiting_tickets sha t s)). \<not> needs_lane k)
    \<and> (\<forall>k \<in> set (open_tickets s). needs_lane k \<longrightarrow>
        (\<exists>k'. find_incident (route_waiting_tickets sha t s) (ic_id k) = Inr k' \<and> ic_phase k' = PIPELINE_ENGINEER))"
proof -
  have ok: "store_ok s" by (rule incident_machine.run_inv [OF empty_store_ok run])
  let ?s = "fold (sweep_ticket sha t) (open_tickets s) s"
  have r: "route_waiting_tickets sha t s = ?s" by (simp add: route_waiting_tickets_def store_ok_valid [OF ok])
  note all = sweep_all [OF ok open_tickets_found [OF ok], of sha t]
  have ok': "store_ok ?s" and ids: "map ic_id (is_incidents ?s) = map ic_id (is_incidents s)"
    and kept: "\<And>j. j \<notin> ic_id ` set (open_tickets s) \<Longrightarrow> find_incident ?s j = find_incident s j"
    and made: "\<And>k. k \<in> set (open_tickets s) \<Longrightarrow> \<exists>k'. find_incident ?s (ic_id k) = Inr k' \<and> \<not> needs_lane k'
        \<and> (needs_lane k \<longrightarrow> ic_phase k' = PIPELINE_ENGINEER)"
    using all by blast+
  have "\<not> needs_lane k" if k: "k \<in> set (open_tickets ?s)" for k
  proof -
    have ki: "k \<in> set (is_incidents ?s)" "is_open k" using k by (simp_all add: open_tickets_def)
    have f: "find_incident ?s (ic_id k) = Inr k" by (rule find_incident_present [OF store_okD(2) [OF ok'] ki(1)])
    have "set (map ic_id (is_incidents ?s)) = set (map ic_id (is_incidents s))" by (simp only: ids)
    moreover have "ic_id k \<in> set (map ic_id (is_incidents ?s))" using ki(1) by simp
    ultimately have "ic_id k \<in> set (map ic_id (is_incidents s))" by blast
    then obtain m where m: "m \<in> set (is_incidents s)" "ic_id m = ic_id k" by auto
    show ?thesis
    proof (cases "is_open m")
      case True
      then have "m \<in> set (open_tickets s)" using m by (simp add: open_tickets_def)
      from made [OF this] obtain k' where "find_incident ?s (ic_id k) = Inr k'" "\<not> needs_lane k'" using m(2) by auto
      then show ?thesis using f by simp
    next
      case False
      have "ic_id k \<notin> ic_id ` set (open_tickets s)"
      proof
        assume "ic_id k \<in> ic_id ` set (open_tickets s)"
        then obtain n where n: "n \<in> set (is_incidents s)" "is_open n" "ic_id n = ic_id m"
          using m(2) by (auto simp: open_tickets_def)
        have "n = m" by (rule same_id [OF ok find_incident_present [OF store_okD(2) [OF ok] m(1)] n(1,3)])
        then show False using n(2) False by simp
      qed
      from kept [OF this] have "find_incident s (ic_id k) = Inr k" using f by (rule subst)
      have "m = k" by (rule same_id [OF ok \<open>find_incident s (ic_id k) = Inr k\<close> m])
      then show ?thesis using False ki(2) by simp
    qed
  qed
  moreover have "\<exists>k'. find_incident ?s (ic_id k) = Inr k' \<and> ic_phase k' = PIPELINE_ENGINEER"
    if "k \<in> set (open_tickets s)" "needs_lane k" for k
    using made [OF that(1)] that(2) by blast
  ultimately show ?thesis unfolding r by blast
qed

section \<open>What an escalation holds\<close>

lemma paused_from_all: "\<exists>k \<in> set ks. ic_blocks_run k = Some True \<Longrightarrow> paused_from names ks paused = names"
  by (induction ks arbitrary: paused) auto

lemma escalate_cases:
  assumes "escalate_incident_body fl i why t d esc b s = Inr (x, s')" "find_incident s i = Inr k" "ic_phase k \<noteq> ESCALATE_TO_USER"
  obtains k' e where "s' = change k' ''pipeline_engineer_escalated_to_user'' t e s" "ic_id k' = ic_id k"
    "ic_phase k' = ESCALATE_TO_USER" "ic_resolved_at k' = ic_resolved_at k" "ic_tasks k' = ic_tasks k"
    "ic_blocks_run k' = Some b" "ic_escalation_reason k' = Some why" "ic_phase k \<in> {PIPELINE_ENGINEER, RESOLVED, RECOVERED}"
  using assms by (auto simp: escalate_incident_body_def escalate_to_user_def escalation_value_def split: if_splits)

lemma filter_change: "\<not> P k \<Longrightarrow> \<not> P k' \<Longrightarrow> (\<And>m. m \<in> set xs \<Longrightarrow> ic_id m = ic_id k' \<Longrightarrow> m = k) \<Longrightarrow>
    filter P (map (\<lambda>m. if ic_id m = ic_id k' then k' else m) xs) = filter P xs"
  by (induction xs) auto

text \<open>
  C7. An escalation that succeeds puts its ticket with the owner. If the ticket was open it waits for her
  answer, and when the on-call said so it pauses every task of the plan. If the ticket had been closed
  before, it stays closed: it does not wait for her answer, it pauses no task that was not paused
  already, and the run does not wait for the owner because of it, whatever the on-call said.
\<close>

theorem escalation_holds_if_open:
  assumes run: "run_ops (op_step fl sha) empty_store ops = Inr s"
    and esc: "escalate_incident_to_user fl i why t d e b s = Inr (x, s')"
    and k: "find_incident s i = Inr k" "ic_phase k \<noteq> ESCALATE_TO_USER"
  shows "\<exists>k'. find_incident s' i = Inr k' \<and> ic_phase k' = ESCALATE_TO_USER
    \<and> (waits_for_her k' \<longleftrightarrow> is_open k)
    \<and> (is_open k \<and> b \<longrightarrow> tasks_paused_by_incidents p s' = map t_id (pl_tasks p))
    \<and> (is_open k \<longrightarrow> waiting_for_owner s' st)
    \<and> (\<not> is_open k \<longrightarrow> tasks_paused_by_incidents p s' = tasks_paused_by_incidents p s
        \<and> waiting_for_owner s' st = waiting_for_owner s st)"
proof -
  have ok: "store_ok s" by (rule incident_machine.run_inv [OF empty_store_ok run])
  note dis = store_okD(2) [OF ok]
  have "escalate_incident_body fl i why t d e b s = Inr (x, s')"
    using esc by (auto simp: escalate_incident_to_user_def transaction_Inr)
  from this k obtain k' m where s': "s' = change k' ''pipeline_engineer_escalated_to_user'' t m s"
    and k': "ic_id k' = ic_id k" "ic_phase k' = ESCALATE_TO_USER" "ic_resolved_at k' = ic_resolved_at k"
      "ic_blocks_run k' = Some b" by (rule escalate_cases)
  have f: "find_incident s' i = Inr k'" unfolding s' by (rule change_twice [OF k(1) dis k'(1)])
  then have in': "k' \<in> set (is_incidents s')" using find_incidentD by blast
  have same: "is_open k' = is_open k" using k'(3) by (simp add: is_open_def)
  have "tasks_paused_by_incidents p s' = map t_id (pl_tasks p)" if "is_open k" b
    unfolding tasks_paused_by_incidents_def
    by (rule paused_from_all) (use that in' same k'(4) in \<open>auto simp: open_tickets_def simp del: change_fields\<close>)
  moreover have "waiting_for_owner s' st" if "is_open k"
    using that in' same k'(2) by (auto simp: waiting_for_owner_def open_tickets_def)
  moreover have "open_tickets s' = open_tickets s" if "\<not> is_open k"
    unfolding open_tickets_def s' change_fields(4)
    by (rule filter_change [of is_open k]) (use that same same_id [OF ok k(1)] k'(1) find_incidentD [OF k(1)] in auto)
  ultimately show ?thesis using f k' same
    by (auto simp: waits_for_her_def tasks_paused_by_incidents_def waiting_for_owner_def)
qed

section \<open>The ticket of the next engineer\<close>

text \<open>A ticket in the lane: it is found there, and it is open.\<close>

lemma lane_first:
  assumes ok: "store_ok s" and l: "open_pipeline_engineer_incident s = Some k"
  shows "find_incident s (ic_id k) = Inr k \<and> ic_phase k = PIPELINE_ENGINEER \<and> is_open k"
proof -
  have "k \<in> set (open_tickets s)" "ic_phase k = PIPELINE_ENGINEER"
    using l by (auto simp: open_pipeline_engineer_incident_def find_Some_iff)
  then show ?thesis using find_incident_present [OF store_okD(2) [OF ok]] by (auto simp: open_tickets_def)
qed

definition lane_size :: "incident_store \<Rightarrow> nat" where
  "lane_size s = length (filter (\<lambda>k. ic_phase k = PIPELINE_ENGINEER) (is_incidents s))"

lemma filter_change_less: "k \<in> set xs \<Longrightarrow> P k \<Longrightarrow> \<not> P k' \<Longrightarrow> ic_id k' = ic_id k \<Longrightarrow>
    length (filter P (map (\<lambda>m. if ic_id m = ic_id k' then k' else m) xs)) < length (filter P xs)"
proof (induction xs)
  case (Cons m xs)
  have le: "length (filter P (map (\<lambda>m. if ic_id m = ic_id k' then k' else m) ys)) \<le> length (filter P ys)" for ys
    using Cons.prems(3) by (induction ys) auto
  show ?case
  proof (cases "m = k")
    case True
    then show ?thesis using Cons.prems le [of xs] by simp
  next
    case False
    then show ?thesis using Cons by auto
  qed
qed simp

text \<open>What handing a ticket up does: the ticket leaves the lane, unless the owner had answered it before.\<close>

lemma handed_up:
  assumes ok: "store_ok s" and l: "open_pipeline_engineer_incident s = Some k"
    and h: "hand_lost_engineers_to_owner fl rp p now k s st = Inr (True, s', st')"
  shows "rs_worker_sessions st' = rs_worker_sessions st \<and> MAX_LOST_ENGINEERS \<le> length (lost_engineers rp st (ic_id k)) \<and> store_ok s'
    \<and> (if told (is_journal s) ''escalation_resolved_by_user'' (ic_id k) then s' = s else lane_size s' < lane_size s
        \<and> (\<forall>j. told (is_journal s') ''escalation_resolved_by_user'' j \<longleftrightarrow> told (is_journal s) ''escalation_resolved_by_user'' j)
        \<and> (\<forall>j \<in> set (is_incidents s'). ic_phase j = PIPELINE_ENGINEER \<longrightarrow> j \<in> set (is_incidents s)))"
proof -
  let ?i = "ic_id k"
  note k = lane_first [OF ok l]
  obtain o' t' where e: "escalate_to_owner fl rp ?i ''RECOVERY_EXHAUSTED'' (lost_diagnosis rp ?i (lost_engineers rp st ?i)) now
      (lost_escalation rp ?i (lost_engineers rp st ?i)) s = (o', t')" by force
  have block: "rs_worker_sessions (snd (block_escalated_tasks p i t st)) = rs_worker_sessions st" for i t
  proof -
    have "rs_worker_sessions (snd (fold (block_one p) ts (bs, st))) = rs_worker_sessions st" for ts bs and st
      by (induction ts arbitrary: bs st) (auto simp: block_one_def split: sum.split)
    then show ?thesis by (simp add: block_escalated_tasks_def split: option.split)
  qed
  have r: "MAX_LOST_ENGINEERS \<le> length (lost_engineers rp st ?i) \<and> o' \<noteq> Refused \<and> s' = t'
      \<and> rs_worker_sessions st' = rs_worker_sessions st"
    using h e block by (auto simp: hand_lost_engineers_to_owner_def Let_def append_event_def split: if_splits hand_up.splits)
  show ?thesis
  proof (cases "told (is_journal s) ''escalation_resolved_by_user'' ?i")
    case True
    then show ?thesis using e r ok by (simp add: escalate_to_owner_def store_ok_valid split: sum.splits)
  next
    case False
    then obtain x where esc: "escalate_incident_to_user fl ?i ''RECOVERY_EXHAUSTED'' (now)
        (lost_diagnosis rp ?i (lost_engineers rp st ?i)) (lost_escalation rp ?i (lost_engineers rp st ?i))
        (str_of rp (py_or (get (lost_escalation rp ?i (lost_engineers rp st ?i)) ''scope'') (PStr ''task'')) = ''run'') s = Inr (x, t')"
      using e r ok by (auto simp: escalate_to_owner_def store_ok_valid split: sum.splits)
    then have body: "escalate_incident_body fl ?i ''RECOVERY_EXHAUSTED'' now (lost_diagnosis rp ?i (lost_engineers rp st ?i))
        (lost_escalation rp ?i (lost_engineers rp st ?i))
        (str_of rp (py_or (get (lost_escalation rp ?i (lost_engineers rp st ?i)) ''scope'') (PStr ''task'')) = ''run'') s = Inr (x, t')"
      by (auto simp: escalate_incident_to_user_def transaction_Inr)
    from body k obtain k' m where t': "t' = change k' ''pipeline_engineer_escalated_to_user'' now m s"
      and k': "ic_id k' = ic_id k" "ic_phase k' = ESCALATE_TO_USER" by (auto elim!: escalate_cases)
    have "lane_size t' < lane_size s"
      unfolding lane_size_def t' change_fields(4)
      by (rule filter_change_less [of k]) (use k k' find_incidentD in \<open>auto\<close>)
    moreover have "store_ok t'" by (rule escalate_body_ok [OF ok body])
    moreover have "\<forall>j. told (is_journal t') ''escalation_resolved_by_user'' j \<longleftrightarrow> told (is_journal s) ''escalation_resolved_by_user'' j"
      by (simp add: t' change_told)
    moreover have "\<forall>j \<in> set (is_incidents t'). ic_phase j = PIPELINE_ENGINEER \<longrightarrow> j \<in> set (is_incidents s)"
      using k'(2) by (auto simp: t')
    ultimately show ?thesis using False r by simp
  qed
qed

text \<open>A session whose loss the lifecycle journal can record.\<close>

definition recordable :: "pyval dict \<Rightarrow> bool" where
  "recordable d \<longleftrightarrow> set [''operation_id'', ''task_id'', ''attempt'', ''reservation_token''] \<subseteq> set (keys d)
     \<and> \<not> isl (py_int (get d ''attempt''))"

lemma append_recordable: "recordable d \<Longrightarrow> \<exists>st'. append_event rp ev d t m st = Inr st' \<and> rs_worker_sessions st' = rs_worker_sessions st"
  by (cases "py_int (get d ''attempt'')") (auto simp: recordable_def append_event_def require_key_def Let_def)

lemma lost_engineers_cong: "rs_worker_sessions st' = rs_worker_sessions st \<Longrightarrow> lost_engineers rp st' i = lost_engineers rp st i"
  by (simp add: lost_engineers_def)

definition lost_and_answered :: "(pyval \<Rightarrow> string) \<Rightarrow> incident_store \<Rightarrow> run_state \<Rightarrow> incident \<Rightarrow> bool" where
  "lost_and_answered rp s st k \<longleftrightarrow> MAX_LOST_ENGINEERS \<le> length (lost_engineers rp st (ic_id k))
     \<and> told (is_journal s) ''escalation_resolved_by_user'' (ic_id k)"

lemma lane_ends:
  assumes "store_ok s" "\<forall>k \<in> set (is_incidents s). ic_phase k = PIPELINE_ENGINEER \<longrightarrow> \<not> lost_and_answered rp s st k"
  shows "\<exists>r. lane_ticket fl rp p now s st = Some r"
  using assms
proof (induction "lane_size s" arbitrary: s st rule: less_induct)
  case less
  show ?case
  proof (cases "open_pipeline_engineer_incident s")
    case None
    then show ?thesis by (simp add: lane_ticket.simps)
  next
    case (Some k)
    show ?thesis
    proof (cases "hand_lost_engineers_to_owner fl rp p now k s st")
      case (Inl e)
      with Some show ?thesis by (simp add: lane_ticket.simps)
    next
      case (Inr y)
      obtain handed s' st' where y: "y = (handed, s', st')" by (cases y) auto
      show ?thesis
      proof (cases handed)
        case False
        with Some Inr y show ?thesis by (simp add: lane_ticket.simps)
      next
        case True
        with Inr y have h: "hand_lost_engineers_to_owner fl rp p now k s st = Inr (True, s', st')" by simp
        note up = handed_up [OF less.prems(1) Some h]
        have k: "k \<in> set (is_incidents s)" "ic_phase k = PIPELINE_ENGINEER"
          using lane_first [OF less.prems(1) Some] find_incidentD by blast+
        then have no: "\<not> told (is_journal s) ''escalation_resolved_by_user'' (ic_id k)"
          using less.prems(2) up by (auto simp: lost_and_answered_def)
        have "\<forall>j \<in> set (is_incidents s'). ic_phase j = PIPELINE_ENGINEER \<longrightarrow> \<not> lost_and_answered rp s' st' j"
          using up no less.prems(2) lost_engineers_cong [of st' st rp] by (simp add: lost_and_answered_def)
        then have "\<exists>r. lane_ticket fl rp p now s' st' = Some r" using up no less.hyps [of s' st'] by simp
        then show ?thesis by (subst lane_ticket.simps) (simp add: Some h)
      qed
    qed
  qed
qed

text \<open>The first ticket of the lane was answered, and its two engineers were lost: nothing changes in the lane.\<close>

definition stuck :: "(pyval \<Rightarrow> string) \<Rightarrow> incident_store \<Rightarrow> run_state \<Rightarrow> bool" where
  "stuck rp s st \<longleftrightarrow> store_ok s \<and> (\<exists>k. open_pipeline_engineer_incident s = Some k \<and> lost_and_answered rp s st k
     \<and> recordable (last (lost_engineers rp st (ic_id k))))"

lemma stuck_step:
  assumes st: "stuck rp s st" and l: "open_pipeline_engineer_incident s = Some k"
  shows "\<exists>st'. hand_lost_engineers_to_owner fl rp p now k s st = Inr (True, s, st') \<and> stuck rp s st'"
proof -
  have ok: "store_ok s" and la: "lost_and_answered rp s st k" and rec: "recordable (last (lost_engineers rp st (ic_id k)))"
    using st l by (auto simp: stuck_def)
  define st1 where "st1 = (if holds_its_tasks rp k then snd (block_escalated_tasks p (ic_id k) s st) else st)"
  obtain st' where a: "append_event rp ''pipeline_engineer_lost_twice'' (last (lost_engineers rp st (ic_id k))) now
      (Some (ic_id k @ '' -> owner'')) st1 = Inr st'"
    using append_recordable [OF rec] by blast
  have e: "escalate_to_owner fl rp (ic_id k) ''RECOVERY_EXHAUSTED'' d now x s = (Answered, s)" for d x
    using ok la by (simp add: escalate_to_owner_def store_ok_valid lost_and_answered_def)
  have h: "hand_lost_engineers_to_owner fl rp p now k s st = Inr (True, s, st')"
    using la a by (simp add: hand_lost_engineers_to_owner_def lost_and_answered_def Let_def e st1_def)
  moreover have "stuck rp s st'"
    using handed_up [OF ok l h] ok la rec l lost_engineers_cong [of st' st rp] by (simp add: stuck_def lost_and_answered_def)
  ultimately show ?thesis by blast
qed

lemma stuck_diverges:
  assumes "stuck rp s st"
  shows "lane_ticket fl rp p now s st = None"
proof (rule ccontr)
  assume "lane_ticket fl rp p now s st \<noteq> None"
  then obtain y where y: "lane_ticket fl rp p now s st = Some y" by auto
  have "\<not> stuck rp s st"
  proof (rule lane_ticket.raw_induct [where P = "\<lambda>fl rp p now s st y. \<not> stuck rp s st", OF _ y])
    fix f :: "(rat \<Rightarrow> string) \<Rightarrow> (pyval \<Rightarrow> string) \<Rightarrow> plan \<Rightarrow> string
      \<Rightarrow> incident_store \<Rightarrow> run_state \<Rightarrow> (incident option \<times> incident_store \<times> run_state) result option"
      and fl rp p now s st y
    assume IH: "\<And>fl rp p now s st y. f fl rp p now s st = Some y \<Longrightarrow> \<not> stuck rp s st"
      and eq: "(case open_pipeline_engineer_incident s of None \<Rightarrow> Some (Inr (None, s, st))
        | Some k \<Rightarrow> (case hand_lost_engineers_to_owner fl rp p now k s st of Inl e \<Rightarrow> Some (Inl e)
          | Inr (handed, s', st') \<Rightarrow> if handed then f fl rp p now s' st' else Some (Inr (Some k, s', st')))) = Some y"
    show "\<not> stuck rp s st"
    proof
      assume sk: "stuck rp s st"
      then obtain k where k: "open_pipeline_engineer_incident s = Some k" by (auto simp: stuck_def)
      obtain st' where "hand_lost_engineers_to_owner fl rp p now k s st = Inr (True, s, st')" "stuck rp s st'"
        using stuck_step [OF sk k] by blast
      with eq k IH show False by simp
    qed
  qed
  then show False using assms by simp
qed

text \<open>
  C14. The reservation of an on-call picks its ticket in finitely many steps, in every reachable store, as
  long as no ticket in the lane was answered by the owner before and lost two engineers. It does not end
  when the first ticket of the lane is such a one: the owner's answer stands, so the ticket is not handed
  up again, and the loop that skips handed tickets finds it in the lane each time.
\<close>

theorem engineer_ticket_found:
  assumes run: "run_ops (op_step fl sha) empty_store ops = Inr s"
  shows "((\<forall>k \<in> set (is_incidents s). ic_phase k = PIPELINE_ENGINEER \<longrightarrow> \<not> lost_and_answered rp s st k)
      \<longrightarrow> engineer_ticket fl rp p now s st \<noteq> None)
    \<and> (\<forall>k. \<not> engineer_session_pending st \<and> open_pipeline_engineer_incident s = Some k \<and> lost_and_answered rp s st k
        \<and> recordable (last (lost_engineers rp st (ic_id k))) \<longrightarrow> engineer_ticket fl rp p now s st = None)"
proof -
  have ok: "store_ok s" by (rule incident_machine.run_inv [OF empty_store_ok run])
  have "engineer_ticket fl rp p now s st \<noteq> None"
    if "\<forall>k \<in> set (is_incidents s). ic_phase k = PIPELINE_ENGINEER \<longrightarrow> \<not> lost_and_answered rp s st k"
    using lane_ends [OF ok that, of fl p now] by (auto simp: engineer_ticket_def store_ok_valid [OF ok])
  moreover have "engineer_ticket fl rp p now s st = None"
    if "\<not> engineer_session_pending st" "open_pipeline_engineer_incident s = Some k" "lost_and_answered rp s st k"
      "recordable (last (lost_engineers rp st (ic_id k)))" for k
    using stuck_diverges [of rp s st fl p now] ok that by (auto simp: engineer_ticket_def store_ok_valid stuck_def)
  ultimately show ?thesis by blast
qed

section \<open>Samples\<close>

definition no_float :: "rat \<Rightarrow> string" where "no_float q = ''0''"
definition no_print :: "pyval \<Rightarrow> string" where "no_print v = ''''"
definition plain_sha :: "string \<Rightarrow> string" where "plain_sha w = w"

definition store_of :: "incident_op list \<Rightarrow> incident_store" where
  "store_of ops = (case run_ops (op_step no_float plain_sha) empty_store ops of Inr s \<Rightarrow> s | Inl _ \<Rightarrow> empty_store)"

definition open_ops :: "incident_op list" where
  "open_ops = [OpenTicket (sample_signal ''1'') ''t'' 2 15 300]"

text \<open>The owner answered the ticket, and its resolution was invalidated afterwards.\<close>

definition answered_ops :: "incident_op list" where
  "answered_ops = open_ops @ [EnsureEngineer ''incident-1'' ''t'', AnswerTicket ''incident-1'' ''t'' '''',
     InvalidateResolution ''incident-1'' ''t'' ''launch failed'']"

definition closed_ops :: "incident_op list" where
  "closed_ops = sample_repair ''1''"

definition lost_session_of :: "string \<Rightarrow> pyval dict" where
  "lost_session_of i = [(''kind'', PStr ''pipeline_engineer''), (''incident_id'', PStr i), (''status'', PStr ''RETRY_WAIT''),
     (''failure_reason'', PStr ''lost pipeline engineer: its turn failed''), (''operation_id'', PStr ''o''),
     (''task_id'', PStr ''A''), (''attempt'', PInt 1), (''reservation_token'', PStr ''r'')]"

definition lost_state :: run_state where
  "lost_state = (sample_state diamond_plan [] [])\<lparr>rs_worker_sessions := [lost_session_of ''incident-1'', lost_session_of ''incident-1'']\<rparr>"

lemma open_run: "run_ops (op_step no_float plain_sha) empty_store open_ops = Inr (store_of open_ops)
    \<and> map ic_phase (open_tickets (store_of open_ops)) = [DEGRADED] \<and> map needs_lane (open_tickets (store_of open_ops)) = [True]
    \<and> map ic_id (open_tickets (store_of open_ops)) = [''incident-1'']"
  by code_simp

lemma answered_run: "run_ops (op_step no_float plain_sha) empty_store answered_ops = Inr (store_of answered_ops)
    \<and> map_option ic_id (open_pipeline_engineer_incident (store_of answered_ops)) = Some ''incident-1''
    \<and> told (is_journal (store_of answered_ops)) ''escalation_resolved_by_user'' ''incident-1''"
  by code_simp

lemma lost_run: "\<not> engineer_session_pending lost_state \<and> length (lost_engineers no_print lost_state ''incident-1'') = 2
    \<and> last (lost_engineers no_print lost_state ''incident-1'') = lost_session_of ''incident-1''"
  by code_simp

lemma lost_recordable: "recordable (lost_session_of ''incident-1'')"
  by code_simp

definition closed_escalation :: "(incident_phase \<times> incident_store) result" where
  "closed_escalation = escalate_incident_to_user no_float ''incident-1'' ''PRODUCT_DECISION'' ''t'' ''d'' [] True (store_of closed_ops)"

lemma closed_run: "run_ops (op_step no_float plain_sha) empty_store closed_ops = Inr (store_of closed_ops)
    \<and> map ic_phase (is_incidents (store_of closed_ops)) = [RESOLVED] \<and> map is_open (is_incidents (store_of closed_ops)) = [False]
    \<and> map ic_id (is_incidents (store_of closed_ops)) = [''incident-1''] \<and> \<not> isl closed_escalation"
  by code_simp

lemma sweep_leaves_none_waiting_witness:
  "\<not> isl (find_incident (route_waiting_tickets plain_sha ''t'' (store_of open_ops)) ''incident-1'')"
proof -
  obtain k where k: "open_tickets (store_of open_ops) = [k]" "needs_lane k" "ic_id k = ''incident-1''"
    using open_run by (cases "open_tickets (store_of open_ops)") auto
  then show ?thesis
    using sweep_leaves_none_waiting [OF conjunct1 [OF open_run], of "''t''"] by auto
qed

lemma engineer_ticket_found_witness:
  "engineer_ticket no_float no_print diamond_plan ''t'' (store_of answered_ops) lost_state = None"
proof -
  obtain k where k: "open_pipeline_engineer_incident (store_of answered_ops) = Some k" "ic_id k = ''incident-1''"
    using answered_run by (cases "open_pipeline_engineer_incident (store_of answered_ops)") auto
  then have "lost_and_answered no_print (store_of answered_ops) lost_state k"
    using answered_run lost_run by (simp add: lost_and_answered_def MAX_LOST_ENGINEERS_def)
  then show ?thesis
    using engineer_ticket_found [OF conjunct1 [OF answered_run]] k lost_run lost_recordable by metis
qed

lemma escalation_holds_if_open_witness:
  "tasks_paused_by_incidents diamond_plan (snd (projr closed_escalation)) = tasks_paused_by_incidents diamond_plan (store_of closed_ops)"
proof -
  obtain k where k: "is_incidents (store_of closed_ops) = [k]" "ic_phase k = RESOLVED" "\<not> is_open k" "ic_id k = ''incident-1''"
    using closed_run by (cases "is_incidents (store_of closed_ops)") auto
  then have f: "find_incident (store_of closed_ops) ''incident-1'' = Inr k" by (simp add: find_incident_def)
  have "\<not> isl closed_escalation" using closed_run by blast
  from sum.collapse(2) [OF this] obtain x s' where e: "closed_escalation = Inr (x, s')" by (metis prod.exhaust)
  then have "escalate_incident_to_user no_float ''incident-1'' ''PRODUCT_DECISION'' ''t'' ''d'' [] True (store_of closed_ops) = Inr (x, s')"
    by (simp add: closed_escalation_def)
  from escalation_holds_if_open [OF conjunct1 [OF closed_run] this f, where p = diamond_plan and st = lost_state] k
  show ?thesis by (auto simp: e)
qed

end
