(* ===== verification/StopRuns.thy ===== *)
theory StopRuns
  imports TicketRuns
begin

text \<open>
  What the door of \<^verbatim>\<open>blocked_runs.py\<close> leaves behind: every fresh stop is a ticket the on-call holds, until the
  on-call closed the same stop twice; then it is the owner's (R23).
\<close>

section \<open>The ticket of a fresh stop\<close>

definition stops_like :: "run_state \<Rightarrow> stop_call \<Rightarrow> incident_store \<Rightarrow> incident list" where
  "stops_like st c s =
     filter (same_stop (stop_base (rs_run_id st) (sc_kind c) (sc_change c) (sc_affected c) (sc_key c))) (is_incidents s)"

definition next_signal :: "string list \<Rightarrow> run_state \<Rightarrow> stop_call \<Rightarrow> incident_store \<Rightarrow> incident_signal" where
  "next_signal route_names st c s = stop_signal route_names (rs_run_id st) (length (stops_like st c s) + 1) c"

definition filed_ticket :: "(rat \<Rightarrow> string) \<Rightarrow> (string \<Rightarrow> string) \<Rightarrow> string list \<Rightarrow> run_state \<Rightarrow> stop_call \<Rightarrow> string
    \<Rightarrow> incident_store \<Rightarrow> pyval \<Rightarrow> incident" where
  "filed_ticket fl sha route_names st c t s v =
     (let g = next_signal route_names st c s; sig = take 16 (sha (join ''|'' (signature_parts g))) in
      opened_incident fl sha g RUNTIME sig None (promoted_runbook s sig) v t 2 15 300)"

lemma stop_signal_class [simp]: "signal_class (next_signal route_names st c s) = RUNTIME"
  by (simp add: next_signal_def stop_signal_def signal_class_def MUTATING_TRANSPORT_OPERATIONS_def)

lemma stop_opened:
  assumes ok: "store_ok s" and valid: "validate_signal (next_signal r st c s) = Inr ()"
    and v: "bounded_mapping fl (sg_state (next_signal r st c s)) = Inr v"
    and k0: "k0 = filed_ticket fl sha r st c t s v" and fresh: "ic_id k0 \<notin> ic_id ` set (is_incidents s)"
  shows "\<exists>s1. open_incident fl sha (next_signal r st c s) t 2 15 300 s = Inr (k0, s1) \<and> store_ok s1
    \<and> is_incidents s1 = is_incidents s @ [k0]
    \<and> (\<forall>j. told (is_journal s1) ''escalation_resolved_by_user'' j = told (is_journal s) ''escalation_resolved_by_user'' j)
    \<and> (\<forall>k. closure_report s1 k = closure_report s k)"
proof -
  let ?g = "next_signal r st c s"
  let ?sig = "take 16 (sha (join ''|'' (signature_parts ?g)))"
  have k: "k0 = opened_incident fl sha ?g RUNTIME ?sig None (promoted_runbook s ?sig) v t 2 15 300"
    by (simp add: k0 filed_ticket_def Let_def)
  have none: "filter (\<lambda>m. ic_id m = ''incident-'' @ take 16 (sha (sg_id ?g))) (is_incidents s) = []"
    using fresh by (force simp: k filter_empty_conv image_iff)
  obtain n s2 where rec: "record_signature ?sig k0 t (s\<lparr>is_incidents := is_incidents s @ [k0]\<rparr>) = (n, s2)" by force
  define s1 where "s1 = (if 1 < n then log_event ''incident_recurrence_observed'' t k0
      (''signature '' @ ?sig @ '' seen '' @ dec_int n @ '' times'') (log_event ''incident_opened'' t k0 '''' s2)
    else log_event ''incident_opened'' t k0 '''' s2)"
  have "open_new fl sha ?g RUNTIME ?sig None t 2 15 300 s = Inr (k0, s1)"
    using v rec by (simp add: open_new_def Let_def k s1_def)
  then have open1: "checked_open fl sha ?g t 2 15 300 s = Inr (k0, s1)"
    using valid none by (simp add: checked_open_def classify_incident_def incident_signature_def select_runbook_def
        RUNBOOKS_def positive_def open_body_def)
  have s1: "s1 = log_event ''incident_opened'' t k0 '''' s2
      \<or> (\<exists>d. s1 = log_event ''incident_recurrence_observed'' t k0 d (log_event ''incident_opened'' t k0 '''' s2))"
    unfolding s1_def by (cases "1 < n") auto
  note same = record_signature_fields [OF rec]
  have told: "told (is_journal s1) ''escalation_resolved_by_user'' j = told (is_journal s) ''escalation_resolved_by_user'' j" for j
    using s1 same(1) by (auto simp: log_event_told)
  have sigs: "is_signatures s1 = is_signatures s2" using s1 by auto
  have "(case map_of (is_signatures s1) x of None \<Rightarrow> [] | Some e \<Rightarrow> le_resolutions e)
      = (case map_of (is_signatures s) x of None \<Rightarrow> [] | Some e \<Rightarrow> le_resolutions e)" for x
    using rec sigs by (cases "x = ?sig"; cases "map_of (is_signatures s) ?sig")
      (auto simp: record_signature_def new_entry_def Let_def)
  then have "closure_report s1 m = closure_report s m" for m by (simp add: closure_report_def)
  moreover have "is_incidents s1 = is_incidents s @ [k0]" using s1 same(4) by auto
  ultimately show ?thesis
    using told open1 open_checked [OF ok, of fl sha ?g t 2 15 300] open_ok [OF ok open1] by auto
qed

section \<open>The closures that count\<close>

lemma closures_upto: "ic_id k \<notin> ic_id ` set xs \<Longrightarrow> ic_id k' = ic_id k \<Longrightarrow> closures rp jn k (xs @ [k']) acc = closures rp jn k xs acc"
  by (induction xs arbitrary: acc) auto

lemma closures_cong:
  "repeat_signature rp k = repeat_signature rp k' \<Longrightarrow> ic_id k = ic_id k' \<Longrightarrow>
   (\<And>j. told jn ''escalation_resolved_by_user'' j = told jn' ''escalation_resolved_by_user'' j) \<Longrightarrow>
   closures rp jn k xs acc = closures rp jn' k' xs acc"
  by (induction xs arbitrary: acc) (simp_all add: answered_by_her_def)

lemma find_incident_find: "find_incident s i = Inr k \<Longrightarrow> find (\<lambda>k. ic_id k = i) (is_incidents s) = Some k"
proof -
  have "filter P xs = [m] \<Longrightarrow> find P xs = Some m" for P :: "incident \<Rightarrow> bool" and xs m
    by (induction xs) (auto split: if_splits)
  then show "find_incident s i = Inr k \<Longrightarrow> ?thesis" by (auto simp: find_incident_def split: list.splits)
qed

section \<open>The bound of a fresh ticket\<close>

definition short_report :: "(rat \<Rightarrow> string) \<Rightarrow> (pyval \<Rightarrow> string) \<Rightarrow> incident_store \<Rightarrow> incident \<Rightarrow> string \<Rightarrow> bool" where
  "short_report fl rp s k reason \<longleftrightarrow>
     int (length (json_spaced fl (PDict (escalation_view (repeat_escalation rp s k reason))))) \<le> 16000"

text \<open>A ticket in the lane that nobody answered is handed up when the report fits.\<close>

lemma escalate_works:
  assumes ok: "store_ok s" and f: "find_incident s i = Inr k" and p: "ic_phase k = PIPELINE_ENGINEER"
    and new: "\<not> told (is_journal s) ''escalation_resolved_by_user'' i" and why: "why \<in> set ESCALATION_REASONS"
    and fits: "int (length (json_spaced fl (PDict (escalation_view e)))) \<le> 16000"
  shows "\<exists>k' s'. escalate_to_owner fl rp i why d t e s = (Escalated, s') \<and> find_incident s' i = Inr k'
    \<and> ic_phase k' = ESCALATE_TO_USER \<and> ic_escalation_reason k' = Some why"
proof -
  let ?b = "str_of rp (py_or (get e ''scope'') (PStr ''task'')) = ''run''"
  have v: "\<exists>k2. escalation_value fl e k1 = Inr k2" for k1
    using fits by (simp add: escalation_value_def bounded_mapping_def)
  obtain k2 where "escalation_value fl e (k\<lparr>ic_phase := ESCALATE_TO_USER, ic_escalation_reason := Some why,
      ic_escalation_detail := Some d, ic_escalated_at := Some t\<rparr>) = Inr k2" using v by blast
  then obtain x s' where b: "escalate_incident_body fl i why t d e ?b s = Inr (x, s')"
    using f p why by (simp add: escalate_incident_body_def escalate_to_user_def)
  have "ic_phase k \<noteq> ESCALATE_TO_USER" using p by simp
  with b f obtain k' m where k': "s' = change k' ''pipeline_engineer_escalated_to_user'' t m s" "ic_id k' = ic_id k"
      "ic_phase k' = ESCALATE_TO_USER" "ic_escalation_reason k' = Some why" by (rule escalate_cases)
  have "find_incident s' i = Inr k'" unfolding k'(1) by (rule change_twice [OF f store_okD(2) [OF ok] k'(2)])
  moreover have "escalate_incident_to_user fl i why t d e ?b s = Inr (x, s')"
    using b store_ok_valid [OF ok] store_ok_valid [OF escalate_body_ok [OF ok b]]
    by (simp add: escalate_incident_to_user_def transaction_Inr)
  then have "escalate_to_owner fl rp i why d t e s = (Escalated, s')"
    using new store_ok_valid [OF ok] by (simp add: escalate_to_owner_def)
  ultimately show ?thesis using k' by blast
qed

lemma bound_decides:
  assumes ok: "store_ok s" and f: "find_incident s i = Inr k" and p: "ic_phase k = PIPELINE_ENGINEER"
    and new: "\<not> told (is_journal s) ''escalation_resolved_by_user'' i"
  shows "\<exists>sent s' st' k'. bound_repeated_stop fl rp p i t reason s st = (sent, s', st') \<and> find_incident s' i = Inr k'
    \<and> (length (closures_since_her_answer rp s k) < MAX_REPEATED_STOPS \<longrightarrow> k' = k \<and> s' = s)
    \<and> (MAX_REPEATED_STOPS \<le> length (closures_since_her_answer rp s k) \<and> short_report fl rp s k reason \<longrightarrow>
        ic_phase k' = ESCALATE_TO_USER \<and> ic_escalation_reason k' = Some ''RECOVERY_EXHAUSTED'')"
proof (cases "length (closures_since_her_answer rp s k) < MAX_REPEATED_STOPS")
  case True
  then have "bound_repeated_stop fl rp p i t reason s st = (False, s, st)"
    by (simp add: bound_repeated_stop_def store_ok_valid [OF ok] find_incident_find [OF f])
  then show ?thesis using f True by auto
next
  case False
  let ?e = "repeat_escalation rp s k reason"
  let ?d = "repeat_diagnosis rp k (length (closures_since_her_answer rp s k)) reason"
  have why: "''RECOVERY_EXHAUSTED'' \<in> set ESCALATION_REASONS" by code_simp
  obtain o' s' where e: "escalate_to_owner fl rp i ''RECOVERY_EXHAUSTED'' ?d t ?e s = (o', s')" by force
  obtain sent st' where b: "bound_repeated_stop fl rp p i t reason s st = (sent, s', st')"
    using False e by (cases o') (auto simp: bound_repeated_stop_def store_ok_valid [OF ok] find_incident_find [OF f])
  show ?thesis
  proof (cases "short_report fl rp s k reason")
    case True
    then show ?thesis
      using escalate_works [OF ok f p new why, of fl ?e rp ?d t] e b False by (auto simp: short_report_def)
  next
    case no: False
    have "\<exists>k'. find_incident s' i = Inr k'"
    proof (cases "s' = s")
      case True
      then show ?thesis using f by blast
    next
      case False
      then obtain x bl where "escalate_incident_body fl i ''RECOVERY_EXHAUSTED'' t ?d ?e bl s = Inr (x, s')"
        using e new by (auto simp: escalate_to_owner_def store_ok_valid [OF ok] escalate_incident_to_user_def transaction_Inr
            split: sum.splits)
      moreover have "ic_phase k \<noteq> ESCALATE_TO_USER" using p by simp
      ultimately obtain k' m where k': "s' = change k' ''pipeline_engineer_escalated_to_user'' t m s" "ic_id k' = ic_id k"
        using escalate_cases [OF _ f] by metis
      then show ?thesis using change_twice [OF f store_okD(2) [OF ok] k'(2)] by blast
    qed
    then show ?thesis using b no False by auto
  qed
qed

section \<open>The door\<close>

definition fresh_id :: "incident_store \<Rightarrow> string \<Rightarrow> bool" where
  "fresh_id s i \<longleftrightarrow> i \<notin> ic_id ` set (is_incidents s) \<and> \<not> told (is_journal s) ''escalation_resolved_by_user'' i"

lemma repeat_same:
  assumes k: "ic_state k' = ic_state k" "ic_tasks k' = ic_tasks k" "ic_summary k' = ic_summary k"
    and c: "closures_since_her_answer rp s' k' = closures_since_her_answer rp s k"
    and r: "\<And>m. closure_report s' m = closure_report s m"
  shows "repeat_escalation rp s' k' reason = repeat_escalation rp s k reason"
  by (simp add: repeat_escalation_def repeat_diagnosis_def repeat_signature_def stop_kind_of_def system_of_def
      what_each_closure_did_def k c r Let_def)


section \<open>A stop the on-call closed twice\<close>

definition sample_stop :: stop_call where
  "sample_stop = \<lparr>sc_kind = ''k'', sc_phase = ''BLOCKED'', sc_reason = ''no disk'', sc_summary = ''A stopped.'', sc_affected = [''A''],
     sc_context = '''', sc_change = '''', sc_system = [], sc_events = [], sc_key = ''''\<rparr>"

definition stop_closed :: "nat \<Rightarrow> incident_op list" where
  "stop_closed n = (let i = ''incident-run:k:-:A#'' @ dec_nat n in
     [OpenTicket (stop_signal [] ''run'' n sample_stop) ''t'' 2 15 300, EnsureEngineer i ''t'',
      CompleteEngineer i True ''t'' (Some sample_check) ''fixed'' [''rearm_run''] ''''])"

definition twice_closed :: incident_store where "twice_closed = store_of (stop_closed 1 @ stop_closed 2)"
definition stop_state :: run_state where "stop_state = sample_state diamond_plan [] []"

definition third_ticket :: incident where
  "third_ticket = filed_ticket no_float plain_sha [] stop_state sample_stop ''t'' twice_closed
     (projr (bounded_mapping no_float (sg_state (next_signal [] stop_state sample_stop twice_closed))))"

lemma twice_run: "run_ops (op_step no_float plain_sha) empty_store (stop_closed 1 @ stop_closed 2) = Inr twice_closed
    \<and> map is_open (is_incidents twice_closed) = [False, False]"
  by code_simp

lemma third_valid: "validate_signal (next_signal [] stop_state sample_stop twice_closed) = Inr ()
    \<and> \<not> isl (bounded_mapping no_float (sg_state (next_signal [] stop_state sample_stop twice_closed)))"
  by code_simp

lemma third_fresh: "fresh_id twice_closed (ic_id third_ticket) \<and> ic_id third_ticket = ''incident-run:k:-:A#3''"
  by code_simp

lemma third_count: "length (closures_since_her_answer no_print twice_closed third_ticket) = 2"
  by code_simp

lemma third_short: "short_report no_float no_print twice_closed third_ticket (sc_reason sample_stop)"
  by code_simp


end
