(* ===== verification/Spec2Isabelle.thy ===== *)
theory Spec2Isabelle
  imports TaskMigration Models PlanReceipts PlanVerdicts RunStates GraphRelevance
    Scheduler ResourceClaims ResourceLocks ScheduledLaunch PlanChanges CrashReconciliation SkillTrust PlanAdmitted StopRuns
begin

text \<open>
  A verification development for \<^verbatim>\<open>codex-autopilot\<close>, the Python package under
  \<^verbatim>\<open>src/src/codex_autopilot\<close>. The program takes a plan (a graph of tasks with dependencies,
  resource claims and departments), has the plan verified once and sealed by digest,
  and then drives workers over it: a scheduler picks ready tasks, a lock table keeps their
  resources apart, a lifecycle map records where each task stands, and a usage budget bounds
  how many run at once.

  \<^bold>\<open>Parts and theories.\<close>
  \<^item> \<^verbatim>\<open>Prelude\<close>: the values and errors of the Python code. \<^verbatim>\<open>pyval\<close> is a JSON-like Python value,
    \<^verbatim>\<open>exn\<close> has one constructor per exception class the code raises, a fallible function returns
    \<^verbatim>\<open>exn + 'a\<close>, \<^verbatim>\<open>bindE\<close>, \<^verbatim>\<open>mapE\<close>, \<^verbatim>\<open>forE\<close> and \<^verbatim>\<open>filterE\<close> are sequencing and the loops that stop at
    the first raise. A \<^verbatim>\<open>dict\<close> is an association list in insertion order with
    \<^verbatim>\<open>AList.update\<close> as assignment. The string operations of \<^verbatim>\<open>str\<close> the code uses are written out.
  \<^item> \<^verbatim>\<open>PlanModel\<close>, \<^verbatim>\<open>PlanCodec\<close>, \<^verbatim>\<open>PlanDigest\<close>: the data classes of \<^verbatim>\<open>plan.py\<close>, \<^verbatim>\<open>goal_contract.py\<close>,
    \<^verbatim>\<open>skill_packs.py\<close>, \<^verbatim>\<open>department_acceptance.py\<close>, \<^verbatim>\<open>role_specification.py\<close>; their \<^verbatim>\<open>to_dict\<close>
    encoders; the canonical JSON text and the digest of a plan. \<^verbatim>\<open>Json\<close> is \<^verbatim>\<open>json.dumps\<close> with
    sorted keys and \<^verbatim>\<open>json.loads\<close>, with their round trip.
  \<^item> \<^verbatim>\<open>PlanGraph\<close>: \<^verbatim>\<open>plan_graph.py\<close>, the stable topological order.
  \<^item> \<^verbatim>\<open>TaskStates\<close>, \<^verbatim>\<open>TaskMigration\<close>: \<^verbatim>\<open>task_state.py\<close>, the lifecycle table, its validators, and the
    migration of an old serial run.
  \<^item> \<^verbatim>\<open>PlanVerification\<close>, \<^verbatim>\<open>PlanReceipts\<close>, \<^verbatim>\<open>PlanVerdicts\<close>: \<^verbatim>\<open>plan_verification.py\<close>, the deterministic
    admission of a plan, the verifier's protocol line, and the receipt that seals a plan.
  \<^item> \<^verbatim>\<open>RunStates\<close>: the run record of \<^verbatim>\<open>run_state.py\<close> and the event journal of \<^verbatim>\<open>resilience.py\<close>.
  \<^item> \<^verbatim>\<open>GraphRelevance\<close>, \<^verbatim>\<open>Scheduler\<close>: \<^verbatim>\<open>scheduler.py\<close>, the critical path and fan-out search, readiness
    and the launch decision.
  \<^item> \<^verbatim>\<open>ResourceClaims\<close>, \<^verbatim>\<open>ResourceLocks\<close>: \<^verbatim>\<open>resources.py\<close>, claims and globs, the persisted lock table and
    its journal, acquisition and release, and the snapshot the scheduler reads.
  \<^item> \<^verbatim>\<open>ScheduledLaunch\<close>: the scheduler and the lock table together.
  \<^item> \<^verbatim>\<open>PlanChanges\<close>, \<^verbatim>\<open>CrashReconciliation\<close>: \<^verbatim>\<open>resilience.py\<close>, the requests and registration of plan
    changes, the reconciliation of the run with a changed plan, and of the work a crash left behind.
  \<^item> \<^verbatim>\<open>Trust\<close>: \<^verbatim>\<open>trust.py\<close>, the classes of evidence and the thresholds of promotion.
  \<^item> \<^verbatim>\<open>MemoryStore\<close>, \<^verbatim>\<open>MemoryRecords\<close>, \<^verbatim>\<open>MemoryRuns\<close>: \<^verbatim>\<open>memory.py\<close>, \<^verbatim>\<open>memory_verification.py\<close> and
    \<^verbatim>\<open>memory_conflicts.py\<close>. A SQLite table is a list of rows in insertion order, a transaction a function
    from the old tables to the new ones or an error; \<^verbatim>\<open>run_memory\<close> applies a sequence of operations.
  \<^item> \<^verbatim>\<open>SkillPacks\<close>, \<^verbatim>\<open>SkillTrust\<close>: \<^verbatim>\<open>skill_packs.py\<close>, reading and writing packs, and the resolver with the
    memory records it demands.
  \<^item> \<^verbatim>\<open>PlanIssues\<close>, \<^verbatim>\<open>PlanParse\<close>, \<^verbatim>\<open>GoalContract\<close>: \<^verbatim>\<open>plan_issues.py\<close>, \<^verbatim>\<open>plan_parse.py\<close> and
    \<^verbatim>\<open>goal_contract.py\<close>, the readers of a submitted plan. A reader is a function from the collector of
    violations to a value and the collector afterwards; \<^verbatim>\<open>None\<close> is the code's \<^verbatim>\<open>FAILED\<close>. \<^verbatim>\<open>PlanRead\<close> and
    \<^verbatim>\<open>PlanTasks\<close> hold the types of what is read and the round trips.
  \<^item> \<^verbatim>\<open>DepartmentLeads\<close>, \<^verbatim>\<open>RoleHistory\<close>: the department contracts of \<^verbatim>\<open>department_acceptance.py\<close>, the leads
    of \<^verbatim>\<open>department_runtime.py\<close>, the role registry of \<^verbatim>\<open>role_specification.py\<close>.
  \<^item> \<^verbatim>\<open>AcceptanceFloor\<close>, \<^verbatim>\<open>PlanCycles\<close>, \<^verbatim>\<open>PlanAdmission\<close>: \<^verbatim>\<open>acceptance_floor.py\<close>, \<^verbatim>\<open>plan_admission.py\<close> and the
    entrances of \<^verbatim>\<open>plan.py\<close>: a submitted plan, a plan change and the replanner's reply, stage by stage.
    \<^verbatim>\<open>PlanTypes\<close> and \<^verbatim>\<open>PlanAdmitted\<close> say what an admitted plan is.
  \<^item> \<^verbatim>\<open>EngineerAuthority\<close>, \<^verbatim>\<open>Incidents\<close>: \<^verbatim>\<open>engineer_authority.py\<close> and \<^verbatim>\<open>pipeline_engineer.py\<close>, the store of the
    on-call engineer: tickets, the recovery slot, the journal, the ledger of signatures. A ticket is a record
    with the keys of its JSON object; a \<^verbatim>\<open>_body\<close> is an operation, \<^verbatim>\<open>transaction\<close> validates around it.
    \<^verbatim>\<open>IncidentRuns\<close> and \<^verbatim>\<open>IncidentStories\<close> are about sequences of these operations.
  \<^item> \<^verbatim>\<open>StopDoor\<close>, \<^verbatim>\<open>TicketLane\<close>: \<^verbatim>\<open>blocked_runs.py\<close>, \<^verbatim>\<open>stop_repeats.py\<close>, \<^verbatim>\<open>stop_holds.py\<close> (how a stopped task
    becomes a ticket, and when a repeated stop is handed to the owner) and \<^verbatim>\<open>engineer_reservation.py\<close> (what
    tickets pause, the sweep, stranded runs, the ticket of the next engineer), with the theorems over
    reachable stores in \<^verbatim>\<open>StopRuns\<close> and \<^verbatim>\<open>TicketRuns\<close>.
  \<^item> \<^verbatim>\<open>Usage\<close>, \<^verbatim>\<open>Models\<close>: \<^verbatim>\<open>usage.py\<close> and \<^verbatim>\<open>models.py\<close>, the worker budget and model routing.

  \<^bold>\<open>What the lemmas show.\<close> The order is the unique stable one and is refused exactly for cyclic plans
  (C1, C2). The lifecycle validator and transitions are exact, and over whole runs a task advances
  only behind verified prerequisites, and every acyclic plan can be completed (C3 to C5, C8); that it is
  verified only while VERIFYING and never leaves a terminal state are lemmas of \<^verbatim>\<open>TaskStates\<close>. A stopped task
  reaches the on-call or the owner, and what an escalation holds depends on the ticket being open (C6, C7); the migration agrees with the old cursor (C9). The budget stays within its
  bounds (C10); the recovery slot of the incident store has one owner (C11); a model is never substituted (C12). Digest,
  receipt and verdict each have a binding or round trip theorem (C13, C15, C16). An engineer's ticket is found
  in finitely many steps exactly outside one case, and a sweep leaves no ticket unrouted (C14, C17). The search of the
  scheduler computes the longest chain and the transitive dependents (C18); readiness, safety,
  maximality and the worker ceiling of a decision are C19 to C22. Globs match their language, and
  claims that share a path conflict (C23, C24). No ticket reaches the owner or is closed unproved (C25). An acquisition of locks is decided
  exactly, and every reachable table is exclusive (C26, C27). What the scheduler selects from a
  snapshot of the table can be locked (C28). An admissible plan change is applied as specified and keeps
  verified and running work; a request is read back as itself; crash reconciliation spares every worker
  that is not retired (C29 to C32). What is replayed without a human was
  learned from repeats (C33); a skill pack survives storage (C34). Over every sequence of memory operations
  nothing external comes into force, models leave rubrics alone and attestations are the
  runtime's (C35 to C37); a loaded skill stack is trusted and every check of it was run (C38). An admitted plan is typed, acyclic
  and fully led, and survives storage (C39, C40).

  \<^bold>\<open>Interfaces.\<close> \<^verbatim>\<open>string_enum\<close> (an enum and its coercion), \<^verbatim>\<open>guarded_machine\<close> (a step function with an
  invariant), \<^verbatim>\<open>faithful_encoder\<close> (an encoder that loses nothing), \<^verbatim>\<open>codec\<close> (an encoder with a reader),
  \<^verbatim>\<open>journal\<close> (a contiguous event log) \<^verbatim>\<open>plan_reader\<close> (a reader of plan items that
  only adds violations and reads back what is stored) and \<^verbatim>\<open>conflict_relation\<close> (a symmetric conflict test) are locales;
  each is interpreted on the definitions of the components that provide it.

  \<^bold>\<open>Bounds and fuel.\<close> Three functions run on fuel. The search \<^verbatim>\<open>visit\<close> recurses no deeper than the longest
  dependency chain, so one more than the number of tasks is enough, and C18 shows the result is
  found with it. \<^verbatim>\<open>json_loads\<close> gets twice the length of its text plus two, one unit for each call
  of the reader, of which a character causes at most two; \<^verbatim>\<open>json_round_trip\<close> shows that every printed
  value is read back with it. The cycle check \<^verbatim>\<open>visit_task\<close> descends at most once into every task, so the
  number of tasks is enough (\<^verbatim>\<open>validate_cycles_total\<close>). The loop \<^verbatim>\<open>lane_ticket\<close> may run for ever and is a
  partial function, \<^verbatim>\<open>None\<close> when it does; C14 says when it ends. The glob matcher terminates by a measure. Python integers are \<^verbatim>\<open>int\<close>; the code has no fixed-width ones.

  \<^bold>\<open>Parameters.\<close> The digest \<^verbatim>\<open>sha\<close>, the printing of floats \<^verbatim>\<open>fl\<close> and of values \<^verbatim>\<open>rp\<close>, the clock \<^verbatim>\<open>now\<close>
  and the file system and \<^verbatim>\<open>casefold\<close> of a \<^verbatim>\<open>host\<close> are arguments. Error values carry the exception
  class and the names it mentions; the prose of a message is shortened.

  \<^bold>\<open>Not modelled.\<close> Processes, sockets, SQLite, file-system transactions, prompts, the command line and
  installation are I/O around these parts; the database file, its locks, its full-text index and its backups are too, and so are the staged copies of
  artifacts. \<^verbatim>\<open>plan_legacy.py\<close> and the provenance of a persisted plan compare files of an older release. Rubric
  records and verdicts, staffing and the skills fetched for it read the network and model sessions. Of the on-call
  engineer its descriptor and prompt, the creates and orphan tickets of the sweep, the grants for patches and
  the owner's answers are left out; of the runtime the two-file commit of a plan change, runtime verification and the worker life cycle, which
  are driven by App Server events.
\<close>

end
